(* ===== verification/Prelude.thy ===== *)
theory Prelude
  imports Main "HOL-Library.Word" "HOL-Library.Char_ord" "HOL-Library.List_Lexorder"
begin

text \<open>
  Shared vocabulary of the development: the machine types of the C++ sources, the byte
  predicates of the C library the text parsers rely on, generic lemmas on
  \<^const>\<open>takeWhile\<close>, \<^const>\<open>dropWhile\<close> and \<^const>\<open>fold\<close>, and the interface of a
  machine driven by operations, which every stateful component interprets.
\<close>

named_theorems str_defs \<open>definitions of the string helpers\<close>
named_theorems op_inv \<open>one preservation lemma per operation\<close>

type_synonym u32 = "32 word"
type_synonym u64 = "64 word"
type_synonym i64 = "64 word"

section \<open>Bytes and strings\<close>

text \<open>
  A \<^verbatim>\<open>std::string\<close> is a list of bytes. \<^verbatim>\<open>tolower\<close> and \<^verbatim>\<open>isspace\<close> are those of the
  C locale, in which every byte above 127 is neither a letter nor a space.
\<close>

definition is_blank :: "char \<Rightarrow> bool" where
  "is_blank c \<longleftrightarrow> c = CHR '' '' \<or> c = CHR 0x09"

definition is_newline :: "char \<Rightarrow> bool" where
  "is_newline c \<longleftrightarrow> c = CHR 0x0A \<or> c = CHR 0x0D"

definition is_space :: "char \<Rightarrow> bool" where
  "is_space c \<longleftrightarrow> c \<in> {CHR '' '', CHR 0x09, CHR 0x0A, CHR 0x0B, CHR 0x0C, CHR 0x0D}"

definition is_comment_mark :: "char \<Rightarrow> bool" where
  "is_comment_mark c \<longleftrightarrow> c = CHR ''#'' \<or> c = CHR '';''"

definition to_lower :: "char \<Rightarrow> char" where
  "to_lower c = (let n = (of_char c :: nat) in if 65 \<le> n \<and> n \<le> 90 then char_of (n + 32) else c)"

definition crlf :: string where
  "crlf = [CHR 0x0D, CHR 0x0A]"

section \<open>Lists\<close>

lemma dropWhile_hd: "dropWhile P xs = y # ys \<Longrightarrow> \<not> P y"
  by (metis dropWhile_eq_Cons_conv)

lemma dropWhile_append_ne: "dropWhile P xs \<noteq> [] \<Longrightarrow> dropWhile P (xs @ ys) = dropWhile P xs @ ys"
  by (induction xs) auto

lemma takeWhile_all: "x \<in> set (takeWhile P xs) \<Longrightarrow> P x"
  by (rule set_takeWhileD [THEN conjunct2])

lemma fold_invariant:
  assumes "\<And>x s. x \<in> set xs \<Longrightarrow> P s \<Longrightarrow> P (f x s)" and "P s"
  shows "P (fold f xs s)"
  using assms by (induction xs arbitrary: s) auto

section \<open>Words\<close>

lemma succ_word: "(g :: u64) \<noteq> - 1 \<Longrightarrow> g < g + 1 \<and> g + 1 \<noteq> 0"
proof -
  assume "g \<noteq> - 1"
  then have "1 + g \<noteq> 0" by (metis add.commute eq_neg_iff_add_eq_0)
  then show ?thesis using unatSuc [of g] by (simp add: word_less_nat_alt add.commute)
qed

section \<open>Decimal output\<close>

fun showNat :: "nat \<Rightarrow> string" where
  "showNat n = (if n < 10 then [char_of (48 + n)] else showNat (n div 10) @ [char_of (48 + n mod 10)])"

declare showNat.simps [simp del]

definition showInt :: "int \<Rightarrow> string" where
  "showInt i = (if i < 0 then ''-'' @ showNat (nat (- i)) else showNat (nat i))"

section \<open>Code that throws\<close>

text \<open>
  A function that may throw returns \<open>Inl\<close> the message or \<open>Inr\<close> its result; \<open>bindE\<close> is sequencing, \<open>mapE\<close> a loop that
  collects results and \<open>foldE\<close> a loop that carries a state.
\<close>

fun bindE :: "'e + 'a \<Rightarrow> ('a \<Rightarrow> 'e + 'b) \<Rightarrow> 'e + 'b" where
  "bindE (Inl e) f = Inl e"
| "bindE (Inr x) f = f x"

fun mapE :: "('a \<Rightarrow> 'e + 'b) \<Rightarrow> 'a list \<Rightarrow> 'e + 'b list" where
  "mapE f [] = Inr []"
| "mapE f (x # xs) = bindE (f x) (\<lambda>y. bindE (mapE f xs) (\<lambda>ys. Inr (y # ys)))"

fun foldE :: "('a \<Rightarrow> 's \<Rightarrow> 'e + 's) \<Rightarrow> 'a list \<Rightarrow> 's \<Rightarrow> 'e + 's" where
  "foldE f [] s = Inr s"
| "foldE f (x # xs) s = bindE (f x s) (foldE f xs)"

lemma bindE_Inr: "bindE m f = Inr y \<longleftrightarrow> (\<exists>x. m = Inr x \<and> f x = Inr y)"
  by (cases m) auto

lemma bindE_Inl: "bindE m f = Inl e \<longleftrightarrow> m = Inl e \<or> (\<exists>x. m = Inr x \<and> f x = Inl e)"
  by (cases m) auto

lemma bindE_cong [fundef_cong]: "m = m' \<Longrightarrow> (\<And>x. m' = Inr x \<Longrightarrow> f x = g x) \<Longrightarrow> bindE m f = bindE m' g"
  by (cases m') auto

lemma mapE_Inr: "mapE f xs = Inr ys \<longleftrightarrow> list_all2 (\<lambda>x y. f x = Inr y) xs ys"
  by (induction xs arbitrary: ys) (auto simp: bindE_Inr list_all2_Cons1)

lemma mapE_Inl: "mapE f xs = Inl e \<Longrightarrow> \<exists>x \<in> set xs. f x = Inl e"
  by (induction xs) (auto simp: bindE_Inl)

section \<open>Ordered maps\<close>

text \<open>
  A \<^verbatim>\<open>std::map\<close> with string keys that the code iterates: an association list in the byte order of
  its keys. \<^const>\<open>map_of\<close> reads it.
\<close>

type_synonym 'v smap = "(string \<times> 'v) list"

fun smapPut :: "string \<Rightarrow> 'v \<Rightarrow> 'v smap \<Rightarrow> 'v smap" where
  "smapPut k v [] = [(k, v)]"
| "smapPut k v ((k', v') # m) =
     (if k = k' then (k, v) # m else if k < k' then (k, v) # (k', v') # m else (k', v') # smapPut k v m)"

lemma map_of_smapPut [simp]: "map_of (smapPut k v m) = (map_of m)(k \<mapsto> v)"
  by (induction k v m rule: smapPut.induct) (auto simp: fun_eq_iff)

section \<open>Machines driven by operations\<close>

text \<open>
  A component that is externally serialised is a function from an operation and a state to
  the next state; a run is the \<^const>\<open>fold\<close> of its operations. The interface asks for an
  invariant of the operations that may run (\<open>ok\<close>), and gives it for every run.
\<close>

locale op_machine =
  fixes exec :: "'op \<Rightarrow> 's \<Rightarrow> 's" and ok :: "'op \<Rightarrow> bool" and inv :: "'s \<Rightarrow> bool"
  assumes exec_inv: "ok a \<Longrightarrow> inv s \<Longrightarrow> inv (exec a s)"
begin

lemma run_inv: "list_all ok as \<Longrightarrow> inv s \<Longrightarrow> inv (fold exec as s)"
  by (induction as arbitrary: s) (auto intro: exec_inv)

end

text \<open>
  A component with several threads is a step relation; the reachable states are the least
  set that holds the initial states and is closed under steps.
\<close>

inductive reach :: "('s \<Rightarrow> bool) \<Rightarrow> ('s \<Rightarrow> 's \<Rightarrow> bool) \<Rightarrow> 's \<Rightarrow> bool"
  for init :: "'s \<Rightarrow> bool" and step :: "'s \<Rightarrow> 's \<Rightarrow> bool" where
  reach_init: "init s \<Longrightarrow> reach init step s"
| reach_step: "reach init step s \<Longrightarrow> step s t \<Longrightarrow> reach init step t"

locale step_machine =
  fixes init :: "'s \<Rightarrow> bool" and step :: "'s \<Rightarrow> 's \<Rightarrow> bool" and inv :: "'s \<Rightarrow> bool"
  assumes init_inv: "init s \<Longrightarrow> inv s"
    and step_inv: "inv s \<Longrightarrow> step s t \<Longrightarrow> inv t"
begin

lemma reach_inv: "reach init step s \<Longrightarrow> inv s"
  by (induction rule: reach.induct) (auto intro: init_inv step_inv)

end

section \<open>Bounded queues\<close>

text \<open>
  What a client of a bounded first-in first-out queue may rely on. \<open>contents\<close> is the abstract value, oldest
  first; \<open>okItem\<close> says which items the queue takes at all.
\<close>

locale bounded_fifo =
  fixes contents :: "'s \<Rightarrow> 'a list" and push :: "'a \<Rightarrow> 's \<Rightarrow> bool \<times> 's" and pop :: "'s \<Rightarrow> 'a option \<times> 's"
    and okItem :: "'a \<Rightarrow> bool" and cap :: nat and inv :: "'s \<Rightarrow> bool"
  assumes push_room: "inv s \<Longrightarrow> okItem x \<Longrightarrow> length (contents s) < cap \<Longrightarrow>
      fst (push x s) \<and> contents (snd (push x s)) = contents s @ [x] \<and> inv (snd (push x s))"
    and push_refused: "inv s \<Longrightarrow> \<not> okItem x \<or> cap \<le> length (contents s) \<Longrightarrow> push x s = (False, s)"
    and pop_some: "inv s \<Longrightarrow> contents s = x # xs \<Longrightarrow>
      fst (pop s) = Some x \<and> contents (snd (pop s)) = xs \<and> inv (snd (pop s))"
    and pop_none: "inv s \<Longrightarrow> contents s = [] \<Longrightarrow> pop s = (None, s)"
begin

text \<open>A run of pushes (\<open>Some x\<close>) and pops (\<open>None\<close>): the state, what was accepted and what came out.\<close>

fun fifoRun :: "'a option list \<Rightarrow> 's \<Rightarrow> 's \<times> 'a list \<times> 'a list" where
  "fifoRun [] s = (s, [], [])"
| "fifoRun (Some x # ops) s =
     (case push x s of (ok, s1) \<Rightarrow> case fifoRun ops s1 of (t, ins, outs) \<Rightarrow> (t, (if ok then x # ins else ins), outs))"
| "fifoRun (None # ops) s =
     (case pop s of (out, s1) \<Rightarrow> case fifoRun ops s1 of (t, ins, outs) \<Rightarrow>
        (t, ins, (case out of None \<Rightarrow> outs | Some x \<Rightarrow> x # outs)))"

lemma fifo_order:
  assumes "inv s" "length (contents s) \<le> cap" "fifoRun ops s = (t, ins, outs)"
  shows "inv t \<and> length (contents t) \<le> cap \<and> contents s @ ins = outs @ contents t"
  using assms
proof (induction ops arbitrary: s ins outs)
  case (Cons op ops)
  show ?case
  proof (cases op)
    case None
    obtain i o' where r: "fifoRun ops (snd (pop s)) = (t, i, o')"
      "ins = i" "outs = (case fst (pop s) of None \<Rightarrow> o' | Some x \<Rightarrow> x # o')"
      using Cons.prems(3) None by (auto split: prod.splits)
    show ?thesis
    proof (cases "contents s")
      case Nil
      then show ?thesis using Cons.IH [of s i o'] Cons.prems r pop_none [OF Cons.prems(1)] by simp
    next
      case (Cons x xs)
      note p = pop_some [OF Cons.prems(1) Cons]
      then show ?thesis using Cons.IH [of "snd (pop s)" i o'] Cons.prems(2) Cons r by auto
    qed
  next
    case (Some x)
    obtain i o' where r: "fifoRun ops (snd (push x s)) = (t, i, o')"
      "ins = (if fst (push x s) then x # i else i)" "outs = o'"
      using Cons.prems(3) Some by (auto split: prod.splits)
    show ?thesis
    proof (cases "okItem x \<and> length (contents s) < cap")
      case True
      with push_room [OF Cons.prems(1), of x] show ?thesis using Cons.IH [of "snd (push x s)" i o'] r by auto
    next
      case False
      then have "push x s = (False, s)" using push_refused [OF Cons.prems(1)] by auto
      then show ?thesis using Cons.IH [of s i o'] Cons.prems r by auto
    qed
  qed
qed simp

end

end
