(* ===== verification/IniEdit.thy ===== *)
theory IniEdit
  imports Prelude
begin

text \<open>
  \<^verbatim>\<open>src/common/iniedit.cpp\<close>: the editor of \<^verbatim>\<open>edvr.ini\<close>. A file is parsed into lines that
  keep their text and terminator, values are looked up with the reader's rules, single lines are
  rewritten in place, and \<^verbatim>\<open>mergeIni\<close> carries a user's settings into the next version's
  file. Strings are byte lists; a \<^verbatim>\<open>std::map\<close> that is iterated is an association list kept in
  the map's key order, one that is only looked up is a partial function.
\<close>

section \<open>Single lines\<close>

definition rtrim :: "string \<Rightarrow> string" where
  "rtrim s = rev (dropWhile is_blank (rev s))"

definition trim :: "string \<Rightarrow> string" where
  "trim s = rtrim (dropWhile is_blank s)"

definition lower :: "string \<Rightarrow> string" where
  "lower s = map to_lower s"

text \<open>The scan starts at index 1, so a value may begin with a comment mark.\<close>

fun strip_after :: "char \<Rightarrow> string \<Rightarrow> string" where
  "strip_after prev [] = []"
| "strip_after prev (c # cs) =
     (if is_comment_mark c \<and> is_blank prev then [] else c # strip_after c cs)"

fun stripInlineComment :: "string \<Rightarrow> string" where
  "stripInlineComment [] = []"
| "stripInlineComment (c # cs) = c # strip_after c cs"

definition isKeyToken :: "string \<Rightarrow> bool" where
  "isKeyToken s \<longleftrightarrow> s \<noteq> [] \<and> length s \<le> 96 \<and>
     list_all (\<lambda>c. \<not> is_space c \<and> c \<noteq> CHR ''#'' \<and> c \<noteq> CHR '';'' \<and> c \<noteq> CHR ''['' \<and> c \<noteq> CHR '']'') s"

definition splitKeyValue :: "string \<Rightarrow> (string \<times> string) option" where
  "splitKeyValue body =
     (if CHR ''='' \<notin> set body then None
      else let k = trim (takeWhile (\<lambda>c. c \<noteq> CHR ''='') body) in
        if \<not> isKeyToken k then None
        else Some (k, trim (stripInlineComment (tl (dropWhile (\<lambda>c. c \<noteq> CHR ''='') body)))))"

definition sameKey :: "string \<Rightarrow> string \<Rightarrow> bool" where
  "sameKey a b \<longleftrightarrow> lower a = lower b"

text \<open>
  The part of \<^verbatim>\<open>rewriteValue\<close> after the equals sign: the spacing is kept, the old value is
  replaced, an inline comment is kept one space behind the new value.
\<close>

definition inlineComment :: "string \<Rightarrow> string" where
  "inlineComment rest =
     (let stripped = (if rest \<noteq> [] \<and> is_comment_mark (hd rest) then [] else stripInlineComment rest)
      in if length stripped < length rest then drop (length stripped) rest else [])"

definition rewriteTail :: "string \<Rightarrow> string \<Rightarrow> string \<Rightarrow> string" where
  "rewriteTail front tail newValue =
     (let spacing0 = takeWhile is_blank tail;
          spacing = (if spacing0 = [] then '' '' else spacing0);
          comment = inlineComment (dropWhile is_blank tail);
          out = front @ spacing @ newValue
      in if comment = [] then out else rtrim out @ '' '' @ trim comment)"

definition rewriteValue :: "string \<Rightarrow> string \<Rightarrow> bool \<Rightarrow> string" where
  "rewriteValue line newValue uncomment =
     (let solid = (dropWhile is_blank line \<noteq> []);
          indent = (if solid then takeWhile is_blank line else []);
          work0 = (if solid then dropWhile is_blank line else line);
          work = (if uncomment then dropWhile is_blank (dropWhile is_comment_mark work0) else work0)
      in if CHR ''='' \<notin> set work then indent @ work
         else rewriteTail (indent @ takeWhile (\<lambda>c. c \<noteq> CHR ''='') work @ ''='')
                (tl (dropWhile (\<lambda>c. c \<noteq> CHR ''='') work)) newValue)"

definition commentOut :: "string \<Rightarrow> string" where
  "commentOut line =
     (if dropWhile is_blank line = [] then line
      else takeWhile is_blank line @ ''#'' @ dropWhile is_blank line)"

definition dottedName :: "string \<Rightarrow> string \<Rightarrow> string" where
  "dottedName section key = (if section = [] then key else section @ ''.'' @ key)"

section \<open>Documents\<close>

datatype LineKind = Blank | Comment | Section | Key | CommentedKey

record IniLine =
  il_kind :: LineKind
  il_text :: string
  il_eol :: string
  il_section :: string
  il_key :: string
  il_value :: string

type_synonym IniDoc = "IniLine list"

text \<open>The struct's default member values.\<close>

definition plainLine :: "LineKind \<Rightarrow> string \<Rightarrow> string \<Rightarrow> IniLine" where
  "plainLine k t e = \<lparr>il_kind = k, il_text = t, il_eol = e, il_section = [], il_key = [], il_value = []\<rparr>"

definition isSetting :: "IniLine \<Rightarrow> bool" where
  "isSetting l \<longleftrightarrow> il_kind l = Key \<or> il_kind l = CommentedKey"

definition keyMatches :: "string \<Rightarrow> string \<Rightarrow> IniLine \<Rightarrow> bool" where
  "keyMatches section key l \<longleftrightarrow> sameKey (il_section l) section \<and> sameKey (il_key l) key"

definition findKey :: "IniDoc \<Rightarrow> string \<Rightarrow> string \<Rightarrow> IniLine option" where
  "findKey doc section key =
     fold (\<lambda>l found. if il_kind l \<noteq> Key then found
                     else if keyMatches section key l then Some l else found) doc None"

fun dominantEol :: "IniDoc \<Rightarrow> string" where
  "dominantEol [] = crlf"
| "dominantEol (l # ls) = (if il_eol l \<noteq> [] then il_eol l else dominantEol ls)"

definition docText :: "IniDoc \<Rightarrow> string" where
  "docText doc = concat (map (\<lambda>l. il_text l @ il_eol l) doc)"

text \<open>A terminator is an optional carriage return followed by an optional line feed.\<close>

definition takeEol :: "string \<Rightarrow> string" where
  "takeEol r =
     (let a = (case r of c # _ \<Rightarrow> if c = CHR 0x0D then [c] else [] | [] \<Rightarrow> []);
          b = (case drop (length a) r of c # _ \<Rightarrow> if c = CHR 0x0A then [c] else [] | [] \<Rightarrow> [])
      in a @ b)"

definition lineText :: "string \<Rightarrow> string" where
  "lineText s = takeWhile (\<lambda>c. \<not> is_newline c) s"

definition lineRest :: "string \<Rightarrow> string" where
  "lineRest s = dropWhile (\<lambda>c. \<not> is_newline c) s"

lemma takeEol_nonempty: "is_newline c \<Longrightarrow> takeEol (c # r) \<noteq> []"
  by (auto simp: takeEol_def is_newline_def)

lemma line_shrinks:
  assumes "s \<noteq> []"
  shows "length (drop (length (takeEol (lineRest s))) (lineRest s)) < length s"
proof (cases "lineRest s")
  case Nil
  then show ?thesis using assms by simp
next
  case (Cons c r)
  then have nl: "is_newline c"
    unfolding lineRest_def by (meson dropWhile_hd)
  have "length (lineRest s) \<le> length s"
    by (simp add: lineRest_def length_dropWhile_le)
  moreover have "0 < length (takeEol (lineRest s))" "0 < length (lineRest s)"
    using Cons takeEol_nonempty [OF nl, of r] by simp_all
  ultimately show ?thesis
    unfolding length_drop by linarith
qed

function rawLines :: "string \<Rightarrow> (string \<times> string) list" where
  "rawLines s =
     (if s = [] then []
      else let r = lineRest s; e = takeEol r in (lineText s, e) # rawLines (drop (length e) r))"
  by pat_completeness auto
termination
  using line_shrinks by (relation "measure length") auto

declare rawLines.simps [simp del]

text \<open>What one line is, given the section in force: kind, key, value and the section after it.\<close>

definition classify :: "string \<Rightarrow> string \<Rightarrow> LineKind \<times> string \<times> string \<times> string" where
  "classify section line =
     (let body = trim line in
      if body = [] then (Blank, [], [], section)
      else if hd body = CHR ''['' then
        (if CHR '']'' \<in> set body
         then (Section, [], [], takeWhile (\<lambda>c. c \<noteq> CHR '']'') (tl body))
         else (Comment, [], [], section))
      else if is_comment_mark (hd body) then
        (case splitKeyValue (trim (dropWhile is_comment_mark body)) of
           Some (k, v) \<Rightarrow> (CommentedKey, k, v, section)
         | None \<Rightarrow> (Comment, [], [], section))
      else
        (case splitKeyValue body of
           Some (k, v) \<Rightarrow> (Key, k, v, section)
         | None \<Rightarrow> (Comment, [], [], section)))"

fun parseLines :: "string \<Rightarrow> (string \<times> string) list \<Rightarrow> IniDoc" where
  "parseLines section [] = []"
| "parseLines section ((t, e) # ls) =
     (case classify section t of (k, key, val, section') \<Rightarrow>
        \<lparr>il_kind = k, il_text = t, il_eol = e, il_section = section', il_key = key, il_value = val\<rparr>
        # parseLines section' ls)"

definition hasBom :: "string \<Rightarrow> bool" where
  "hasBom s \<longleftrightarrow> take 3 s = [CHR 0xEF, CHR 0xBB, CHR 0xBF]"

definition skipBom :: "string \<Rightarrow> string" where
  "skipBom s = (if hasBom s then drop 3 s else s)"

definition iniParse :: "string \<Rightarrow> IniDoc" where
  "iniParse s = parseLines [] (rawLines (skipBom s))"

section \<open>Values\<close>

record Effective =
  eff_present :: bool
  eff_value :: string
  eff_known :: bool

definition noEffective :: Effective where
  "noEffective = \<lparr>eff_present = False, eff_value = [], eff_known = False\<rparr>"

definition effectiveStep :: "string \<Rightarrow> string \<Rightarrow> IniLine \<Rightarrow> Effective \<Rightarrow> Effective" where
  "effectiveStep section key l e =
     (if \<not> isSetting l then e
      else if \<not> keyMatches section key l then e
      else if il_kind l = Key then \<lparr>eff_present = True, eff_value = il_value l, eff_known = True\<rparr>
      else e\<lparr>eff_known := True\<rparr>)"

definition effectiveOf :: "IniDoc \<Rightarrow> string \<Rightarrow> string \<Rightarrow> Effective" where
  "effectiveOf doc section key = fold (effectiveStep section key) doc noEffective"

definition splitDotted :: "string \<Rightarrow> string \<times> string" where
  "splitDotted dotted =
     (if CHR ''.'' \<in> set dotted
      then (takeWhile (\<lambda>c. c \<noteq> CHR ''.'') dotted, tl (dropWhile (\<lambda>c. c \<noteq> CHR ''.'') dotted))
      else ([], dotted))"

definition iniValue :: "string \<Rightarrow> string \<Rightarrow> string \<Rightarrow> string" where
  "iniValue s dotted fallback =
     (case splitDotted dotted of (section, key) \<Rightarrow>
        let e = effectiveOf (iniParse s) section key
        in if eff_present e then eff_value e else fallback)"

section \<open>Lines and their terminators\<close>

lemma takeEol_prefix: "takeEol r @ drop (length (takeEol r)) r = r"
  by (cases r; cases "tl r") (auto simp: takeEol_def)

lemma takeEol_forms: "takeEol r \<in> {[], [CHR 0x0D], [CHR 0x0A], crlf}"
  by (auto simp: takeEol_def crlf_def split: list.splits)

lemma lineText_lineRest: "lineText s @ lineRest s = s"
  by (simp add: lineText_def lineRest_def)

lemma rawLines_Nil [simp]: "rawLines [] = []"
  by (simp add: rawLines.simps)

lemma rawLines_concat: "concat (map (\<lambda>(t, e). t @ e) (rawLines s)) = s"
proof (induction s rule: rawLines.induct)
  case (1 s)
  show ?case
  proof (cases "s = []")
    case False
    let ?r = "lineRest s"
    have "concat (map (\<lambda>(t, e). t @ e) (rawLines s)) =
        lineText s @ takeEol ?r @ concat (map (\<lambda>(t, e). t @ e) (rawLines (drop (length (takeEol ?r)) ?r)))"
      using False by (subst rawLines.simps) (simp add: Let_def)
    also have "\<dots> = lineText s @ takeEol ?r @ drop (length (takeEol ?r)) ?r"
      using 1 [OF False refl refl] by simp
    also have "\<dots> = s"
      by (simp add: takeEol_prefix lineText_lineRest)
    finally show ?thesis .
  qed simp
qed

text \<open>A line holds no newline, and its terminator has one of four forms.\<close>

definition rawLineOk :: "string \<times> string \<Rightarrow> bool" where
  "rawLineOk l \<longleftrightarrow> list_all (\<lambda>c. \<not> is_newline c) (fst l) \<and>
     snd l \<in> {[], [CHR 0x0D], [CHR 0x0A], crlf}"

lemma lineText_ok: "list_all (\<lambda>c. \<not> is_newline c) (lineText s)"
  by (auto simp: lineText_def list_all_iff dest: set_takeWhileD)

lemma lineRest_Nil_takeEol: "lineRest s \<noteq> [] \<Longrightarrow> takeEol (lineRest s) \<noteq> []"
  by (metis dropWhile_hd lineRest_def list.exhaust takeEol_nonempty)

lemma rawLines_ok:
  "list_all rawLineOk (rawLines s) \<and> (\<forall>l \<in> set (butlast (rawLines s)). snd l \<noteq> [])"
proof (induction s rule: rawLines.induct)
  case (1 s)
  show ?case
  proof (cases "s = []")
    case False
    let ?r = "lineRest s" and ?rest = "rawLines (drop (length (takeEol (lineRest s))) (lineRest s))"
    have eq: "rawLines s = (lineText s, takeEol ?r) # ?rest"
      using False by (subst rawLines.simps) (simp add: Let_def)
    have "?rest \<noteq> [] \<Longrightarrow> takeEol ?r \<noteq> []"
      by (metis drop_Nil lineRest_Nil_takeEol rawLines_Nil)
    with 1 [OF False refl refl] show ?thesis
      using takeEol_forms [of ?r] by (auto simp: eq rawLineOk_def lineText_ok)
  qed simp
qed

text \<open>Lines that end in a line feed are split where they were joined.\<close>

definition fullLine :: "string \<times> string \<Rightarrow> bool" where
  "fullLine l \<longleftrightarrow> list_all (\<lambda>c. \<not> is_newline c) (fst l) \<and> snd l \<in> {[CHR 0x0A], crlf}"

lemma takeEol_full:
  "e \<in> {[CHR 0x0A], crlf} \<Longrightarrow> takeEol (e @ s) = e"
  by (auto simp: takeEol_def crlf_def)

lemma split_full:
  assumes "list_all (\<lambda>c. \<not> is_newline c) t" and "e \<in> {[CHR 0x0A], crlf}"
  shows "lineText (t @ e @ s) = t" and "lineRest (t @ e @ s) = e @ s"
proof -
  obtain c e' where e: "e = c # e'" "is_newline c"
    using assms(2) by (auto simp: crlf_def is_newline_def)
  have t: "\<And>c. c \<in> set t \<Longrightarrow> \<not> is_newline c"
    using assms(1) by (simp add: list_all_iff)
  show "lineText (t @ e @ s) = t" "lineRest (t @ e @ s) = e @ s"
    using t e by (simp_all add: lineText_def lineRest_def takeWhile_append2 dropWhile_append2)
qed

lemma rawLines_full_Cons:
  assumes "fullLine (t, e)"
  shows "rawLines (t @ e @ s) = (t, e) # rawLines s"
proof -
  have "t @ e @ s \<noteq> []" using assms by (auto simp: fullLine_def crlf_def)
  then show ?thesis
    using assms by (subst rawLines.simps) (auto simp: Let_def fullLine_def split_full takeEol_full)
qed

lemma rawLines_full:
  "list_all fullLine ls \<Longrightarrow> rawLines (concat (map (\<lambda>(t, e). t @ e) ls) @ s) = ls @ rawLines s"
  by (induction ls) (auto simp: rawLines_full_Cons)

section \<open>Parsing\<close>

lemma parseLines_raw: "map (\<lambda>l. (il_text l, il_eol l)) (parseLines sec ls) = ls"
  by (induction sec ls rule: parseLines.induct) (auto split: prod.splits)

lemma docText_parseLines: "docText (parseLines sec ls) = concat (map (\<lambda>(t, e). t @ e) ls)"
proof -
  have "docText (parseLines sec ls) =
      concat (map (\<lambda>(t, e). t @ e) (map (\<lambda>l. (il_text l, il_eol l)) (parseLines sec ls)))"
    by (simp add: docText_def comp_def)
  then show ?thesis by (simp only: parseLines_raw)
qed

text \<open>
  Parsing a file into lines loses nothing but a byte order mark: writing the lines back gives
  the file.
\<close>

lemma docText_iniParse: "docText (iniParse s) = skipBom s"
  by (simp add: iniParse_def docText_parseLines rawLines_concat)

section \<open>Trimming and inline comments\<close>

lemma rtrim_Nil [simp]: "rtrim [] = []"
  by (simp add: rtrim_def)

lemma rtrim_snoc [simp]: "rtrim (s @ [c]) = (if is_blank c then rtrim s else s @ [c])"
  by (simp add: rtrim_def)

lemma trim_Nil [simp]: "trim [] = []"
  by (simp add: trim_def)

lemma rtrim_append: "rtrim (a @ b) = (if rtrim b = [] then rtrim a else a @ rtrim b)"
proof (induction b rule: rev_induct)
  case (snoc c b)
  then show ?case using rtrim_snoc [of "a @ b" c] by auto
qed simp

lemma rtrim_Cons: "\<not> is_blank c \<Longrightarrow> rtrim (c # s) = c # rtrim s"
  using rtrim_append [of "[c]" s] rtrim_snoc [of "[]" c] by auto

lemma rtrim_blanks [simp]: "list_all is_blank b \<Longrightarrow> rtrim b = []"
  by (simp add: rtrim_def list_all_iff)

lemma trim_blanks_append: "list_all is_blank b \<Longrightarrow> trim (b @ s) = trim s"
  by (simp add: trim_def list_all_iff)

lemma rtrim_decomp: "\<exists>b. list_all is_blank b \<and> s = rtrim s @ b"
proof -
  have "rev s = takeWhile is_blank (rev s) @ dropWhile is_blank (rev s)" by simp
  then have "s = rtrim s @ rev (takeWhile is_blank (rev s))"
    by (metis rev_append rev_rev_ident rtrim_def)
  moreover have "list_all is_blank (rev (takeWhile is_blank (rev s)))"
    by (auto simp: list_all_iff dest: set_takeWhileD)
  ultimately show ?thesis by blast
qed

lemma trim_decomp: "\<exists>a b. list_all is_blank a \<and> list_all is_blank b \<and> s = a @ trim s @ b"
proof -
  obtain b where b: "list_all is_blank b" "dropWhile is_blank s = trim s @ b"
    using rtrim_decomp [of "dropWhile is_blank s"] by (auto simp: trim_def)
  have "s = takeWhile is_blank s @ dropWhile is_blank s" by simp
  then have "s = takeWhile is_blank s @ trim s @ b" using b(2) by simp
  moreover have "list_all is_blank (takeWhile is_blank s)"
    by (auto simp: list_all_iff dest: set_takeWhileD)
  ultimately show ?thesis using b(1) by blast
qed

lemma set_trim: "set (trim s) \<subseteq> set s"
  using trim_decomp [of s] by (metis Un_iff set_append subsetI)

lemma hd_trim: "trim s \<noteq> [] \<Longrightarrow> \<not> is_blank (hd (trim s))"
proof -
  assume ne: "trim s \<noteq> []"
  then obtain c r where cr: "dropWhile is_blank s = c # r"
    by (cases "dropWhile is_blank s") (auto simp: trim_def)
  then have "\<not> is_blank c" by (meson dropWhile_hd)
  then show ?thesis using cr by (simp add: trim_def rtrim_Cons)
qed

lemma last_rtrim: "rtrim s \<noteq> [] \<Longrightarrow> \<not> is_blank (last (rtrim s))"
  unfolding rtrim_def by (metis hd_dropWhile last_rev rev_is_Nil_conv)

lemma last_trim: "trim s \<noteq> [] \<Longrightarrow> \<not> is_blank (last (trim s))"
  by (simp add: trim_def last_rtrim)

lemma rtrim_id: "s = [] \<or> \<not> is_blank (last s) \<Longrightarrow> rtrim s = s"
  by (cases s rule: rev_cases) auto

lemma trim_id: "s = [] \<or> \<not> is_blank (hd s) \<and> \<not> is_blank (last s) \<Longrightarrow> trim s = s"
  by (cases s) (auto simp: trim_def rtrim_id)

lemma trim_trim [simp]: "trim (trim s) = trim s"
  by (rule trim_id) (use hd_trim last_trim in blast)

lemma strip_after_append:
  "strip_after p (xs @ ys) =
     (if strip_after p xs = xs then xs @ strip_after (last (p # xs)) ys else strip_after p xs)"
  by (induction xs arbitrary: p) auto

lemma strip_after_id_append:
  "strip_after p (xs @ ys) = xs @ ys \<longleftrightarrow> strip_after p xs = xs \<and> strip_after (last (p # xs)) ys = ys"
  by (induction xs arbitrary: p) auto

lemma strip_after_idem [simp]: "strip_after p (strip_after p xs) = strip_after p xs"
  by (induction xs arbitrary: p) auto

lemma stripInlineComment_idem [simp]: "stripInlineComment (stripInlineComment s) = stripInlineComment s"
  by (cases s) auto

lemma strip_after_prefix: "\<exists>r. xs = strip_after p xs @ r \<and> (r = [] \<or> is_comment_mark (hd r))"
proof (induction xs arbitrary: p)
  case (Cons a xs)
  show ?case
  proof (cases "is_comment_mark a \<and> is_blank p")
    case False
    with Cons [of a] show ?thesis by auto
  qed simp
qed simp

lemma stripInlineComment_prefix:
  "\<exists>r. s = stripInlineComment s @ r \<and> (r = [] \<or> is_comment_mark (hd r))"
  using strip_after_prefix by (cases s) auto

lemma blank_not_mark: "is_blank c \<Longrightarrow> \<not> is_comment_mark c"
  by (auto simp: is_blank_def is_comment_mark_def)

lemma strip_after_blanks: "list_all is_blank b \<Longrightarrow> strip_after p b = b"
  by (induction b arbitrary: p) (auto dest: blank_not_mark)

lemma stripInlineComment_tl: "stripInlineComment (c # s) = c # s \<Longrightarrow> stripInlineComment s = s"
  by (cases s) (auto split: if_splits)

lemma stripInlineComment_suffix: "stripInlineComment (a @ s) = a @ s \<Longrightarrow> stripInlineComment s = s"
  by (induction a) (auto dest: stripInlineComment_tl simp del: stripInlineComment.simps)

lemma stripInlineComment_prefix_id: "stripInlineComment (s @ b) = s @ b \<Longrightarrow> stripInlineComment s = s"
  by (cases s) (auto simp: strip_after_id_append)

lemma stripInlineComment_trim: "stripInlineComment s = s \<Longrightarrow> stripInlineComment (trim s) = trim s"
  using trim_decomp [of s] by (metis stripInlineComment_prefix_id stripInlineComment_suffix)

text \<open>
  A value the writer can put back: trimmed, on one line, without an inline comment, and not
  beginning with a comment mark.
\<close>

definition valueClean :: "string \<Rightarrow> bool" where
  "valueClean v \<longleftrightarrow> trim v = v \<and> stripInlineComment v = v \<and>
     list_all (\<lambda>c. \<not> is_newline c) v \<and> (v = [] \<or> \<not> is_comment_mark (hd v))"

lemma strip_after_clean:
  assumes "stripInlineComment v = v" and "v = [] \<or> \<not> is_comment_mark (hd v)"
  shows "strip_after p v = v"
  using assms by (cases v) auto

lemma strip_blanks_clean:
  assumes "list_all is_blank b" and "b \<noteq> []" and "stripInlineComment v = v"
    and "v = [] \<or> \<not> is_comment_mark (hd v)"
  shows "stripInlineComment (b @ v) = b @ v"
proof (cases b)
  case (Cons c b')
  then show ?thesis
    using assms strip_after_blanks [of b' c] strip_after_clean [OF assms(3,4)]
    by (simp add: strip_after_append)
qed (use assms in simp)

lemma strip_at_comment:
  assumes "stripInlineComment x = x" and "x \<noteq> []" and "is_comment_mark m"
  shows "stripInlineComment (x @ '' '' @ m # c) = x @ '' ''"
proof (cases x)
  case (Cons a x')
  have blank: "is_blank (CHR '' '')" by (simp add: is_blank_def)
  have sp: "\<not> is_comment_mark (CHR '' '')" using blank by (rule blank_not_mark)
  from Cons assms(1) have "strip_after a x' = x'" by simp
  then show ?thesis
    using Cons assms(3) sp blank by (simp add: strip_after_append)
qed (use assms in simp)

section \<open>Rewriting a line\<close>

text \<open>The shape of a setting line: a name, the first equals sign, and everything after it.\<close>

definition keyHead :: "string \<Rightarrow> bool" where
  "keyHead K \<longleftrightarrow> K \<noteq> [] \<and> \<not> is_blank (hd K) \<and> CHR ''='' \<notin> set K \<and> isKeyToken (trim K)"

lemma keyHead_hd_trim: "keyHead K \<Longrightarrow> hd (trim K) = hd K"
  by (cases K) (auto simp: keyHead_def trim_def rtrim_Cons)

lemma isKeyToken_hd: "isKeyToken k \<Longrightarrow> hd k \<noteq> CHR ''['' \<and> \<not> is_comment_mark (hd k)"
  by (cases k) (auto simp: isKeyToken_def is_comment_mark_def)

lemma keyHead_hd: "keyHead K \<Longrightarrow> hd K \<noteq> CHR ''['' \<and> \<not> is_comment_mark (hd K)"
  using keyHead_hd_trim [of K] isKeyToken_hd [of "trim K"] by (simp add: keyHead_def)

lemma splitKeyValue_head:
  assumes "keyHead K"
  shows "splitKeyValue (K @ CHR ''='' # X) = Some (trim K, trim (stripInlineComment X))"
proof -
  have "\<And>c. c \<in> set K \<Longrightarrow> c \<noteq> CHR ''=''" using assms by (auto simp: keyHead_def)
  then show ?thesis
    using assms by (simp add: splitKeyValue_def keyHead_def takeWhile_append2 dropWhile_append2)
qed

lemma splitKeyValue_shape:
  assumes "splitKeyValue b = Some (k, v)" and "\<not> is_blank (hd b)"
  obtains K X where "b = K @ CHR ''='' # X" and "keyHead K" and "trim K = k"
    and "trim (stripInlineComment X) = v"
proof -
  let ?p = "\<lambda>c. c \<noteq> CHR ''=''"
  let ?K = "takeWhile ?p b" and ?X = "tl (dropWhile ?p b)"
  from assms(1) have eq: "CHR ''='' \<in> set b" and tok: "isKeyToken (trim ?K)"
    and k: "k = trim ?K" and v: "v = trim (stripInlineComment ?X)"
    by (auto simp: splitKeyValue_def Let_def split: if_splits)
  from eq have "dropWhile ?p b \<noteq> []" by (auto simp: dropWhile_eq_Nil_conv)
  then have "dropWhile ?p b = CHR ''='' # ?X"
    by (cases "dropWhile ?p b") (auto dest: dropWhile_hd)
  then have b: "b = ?K @ CHR ''='' # ?X" by (metis takeWhile_dropWhile_id)
  have "?K \<noteq> []" using tok by (auto simp: isKeyToken_def)
  moreover from this have "hd ?K = hd b" by (cases b) auto
  ultimately have "keyHead ?K"
    using tok assms(2) by (auto simp: keyHead_def dest: set_takeWhileD)
  with b k v that show thesis by blast
qed

lemma trim_keyLine:
  assumes "list_all is_blank ind" and "keyHead K"
  shows "trim (ind @ K @ CHR ''='' # X) = K @ CHR ''='' # rtrim X"
proof -
  have d: "dropWhile is_blank (K @ CHR ''='' # X) = K @ CHR ''='' # X"
    using assms(2) by (cases K) (auto simp: keyHead_def)
  have "\<not> is_blank CHR ''=''" by (simp add: is_blank_def)
  then have "rtrim (CHR ''='' # X) = CHR ''='' # rtrim X" by (rule rtrim_Cons)
  with d show ?thesis
    using assms(1) by (simp add: trim_blanks_append) (simp add: trim_def rtrim_append)
qed

lemma classify_keyLine:
  assumes "list_all is_blank ind" and "keyHead K"
  shows "classify sec (ind @ K @ CHR ''='' # X) =
           (Key, trim K, trim (stripInlineComment (rtrim X)), sec)"
proof -
  have "hd (K @ CHR ''='' # rtrim X) = hd K" using assms(2) by (simp add: keyHead_def)
  then show ?thesis
    using keyHead_hd [OF assms(2)]
    by (simp add: classify_def trim_keyLine [OF assms] splitKeyValue_head [OF assms(2)])
qed

lemma inlineComment_hd: "inlineComment rest \<noteq> [] \<Longrightarrow> is_comment_mark (hd (inlineComment rest))"
proof -
  assume ne: "inlineComment rest \<noteq> []"
  obtain r where r: "rest = stripInlineComment rest @ r" "r = [] \<or> is_comment_mark (hd r)"
    using stripInlineComment_prefix by blast
  then have "drop (length (stripInlineComment rest)) rest = r"
    by (metis append_eq_conv_conj)
  with ne r(2) show ?thesis
    by (auto simp: inlineComment_def Let_def split: if_splits)
qed

lemma trim_inlineComment:
  assumes "inlineComment rest \<noteq> []"
  obtains m c where "trim (inlineComment rest) = m # c" and "is_comment_mark m"
proof -
  obtain m c where mc: "inlineComment rest = m # c" "is_comment_mark m"
    using assms inlineComment_hd [OF assms] by (cases "inlineComment rest") auto
  then have "\<not> is_blank m" using blank_not_mark by blast
  then have "trim (inlineComment rest) = m # rtrim c" using mc(1) by (simp add: trim_def rtrim_Cons)
  with mc(2) that show thesis by blast
qed

text \<open>Whatever follows the equals sign, the rewritten tail reads back as the new value.\<close>

lemma rewriteTail_reads_back:
  assumes "valueClean v" and "front \<noteq> []" and "\<not> is_blank (last front)"
  obtains X where "rewriteTail front tail v = front @ X"
    and "trim (stripInlineComment (rtrim X)) = v"
proof -
  let ?sp = "if takeWhile is_blank tail = [] then '' '' else takeWhile is_blank tail"
  let ?c = "inlineComment (dropWhile is_blank tail)"
  have sp: "list_all is_blank ?sp" "?sp \<noteq> []"
    by (auto simp: list_all_iff is_blank_def dest: set_takeWhileD)
  have clean: "trim v = v" "stripInlineComment v = v" "v = [] \<or> \<not> is_comment_mark (hd v)"
    using assms(1) by (auto simp: valueClean_def)
  have lastv: "v \<noteq> [] \<Longrightarrow> \<not> is_blank (last v)" using last_trim [of v] clean(1) by simp
  have strip: "stripInlineComment (?sp @ v) = ?sp @ v"
    using strip_blanks_clean [OF sp clean(2,3)] .
  have rv: "v \<noteq> [] \<Longrightarrow> rtrim (?sp @ v) = ?sp @ v" using lastv by (intro rtrim_id) auto
  have val: "trim (?sp @ v) = v" using sp(1) clean(1) by (simp add: trim_blanks_append)
  show thesis
  proof (cases "?c = []")
    case True
    have "trim (stripInlineComment (rtrim (?sp @ v))) = v"
      using rv strip val sp(1) by (cases "v = []") auto
    with True that show thesis by (simp add: rewriteTail_def Let_def)
  next
    case False
    obtain m c where mc: "trim ?c = m # c" "is_comment_mark m"
      using trim_inlineComment [OF False] by blast
    have lastc: "\<not> is_blank (last (trim ?c))" using last_trim [of ?c] mc(1) by simp
    let ?Y = "if v = [] then [] else ?sp @ v"
    have "rtrim (front @ ?sp @ v) = front @ ?Y"
    proof (cases "v = []")
      case True
      then show ?thesis using sp(1) assms(2,3) by (simp add: rtrim_append rtrim_id)
    next
      case ne: False
      then show ?thesis using lastv by (simp add: rtrim_id)
    qed
    then have rw: "rewriteTail front tail v = front @ ?Y @ '' '' @ trim ?c"
      using False by (simp add: rewriteTail_def Let_def)
    have rt: "rtrim (?Y @ '' '' @ trim ?c) = ?Y @ '' '' @ m # c"
      using lastc mc(1) by (intro trans [OF rtrim_id]) auto
    have "trim (stripInlineComment (?Y @ '' '' @ m # c)) = v"
    proof (cases "v = []")
      case True
      have "is_blank CHR '' ''" by (simp add: is_blank_def)
      then show ?thesis using True mc(2) by (simp add: trim_def rtrim_def)
    next
      case ne: False
      have "stripInlineComment ((?sp @ v) @ '' '' @ m # c) = (?sp @ v) @ '' ''"
        using strip_at_comment [OF strip _ mc(2)] sp(2) by simp
      moreover have "trim ((?sp @ v) @ '' '') = v"
      proof -
        have "trim (?sp @ v @ '' '') = trim (v @ '' '')" by (rule trim_blanks_append [OF sp(1)])
        also have "\<dots> = v"
          using ne clean(1) hd_trim [of v] lastv
          by (cases v) (auto simp: trim_def rtrim_append rtrim_id is_blank_def rtrim_def)
        finally show ?thesis by simp
      qed
      ultimately show ?thesis using ne by simp
    qed
    with rt rw that show thesis by metis
  qed
qed

declare dropWhile_eq_Nil_conv [simp del]

lemma classify_Key_body:
  assumes "classify sec line = (Key, k, v, sec')"
  shows "splitKeyValue (trim line) = Some (k, v)" and "trim line \<noteq> []"
    and "hd (trim line) \<noteq> CHR ''[''" and "\<not> is_comment_mark (hd (trim line))" and "sec' = sec"
  using assms by (auto simp: classify_def Let_def split: if_splits option.splits prod.splits)

lemma classify_CommentedKey_body:
  assumes "classify sec line = (CommentedKey, k, v, sec')"
  shows "splitKeyValue (trim (dropWhile is_comment_mark (trim line))) = Some (k, v)"
    and "trim line \<noteq> []" and "is_comment_mark (hd (trim line))" and "sec' = sec"
  using assms by (auto simp: classify_def Let_def split: if_splits option.splits prod.splits)

lemma dropWhile_blank_trim: "\<exists>b. list_all is_blank b \<and> dropWhile is_blank s = trim s @ b"
  using rtrim_decomp [of "dropWhile is_blank s"] by (simp add: trim_def)

lemma takeWhile_blanks: "list_all is_blank (takeWhile is_blank s)"
  by (auto simp: list_all_iff dest: set_takeWhileD)

text \<open>The shape of the text a rewrite starts from, for a live and for a commented setting.\<close>

lemma live_work:
  assumes "classify sec line = (Key, k, v, sec')"
  obtains K X where "dropWhile is_blank line = K @ CHR ''='' # X" and "keyHead K" and "trim K = k"
proof -
  note body = classify_Key_body [OF assms]
  obtain b where b: "dropWhile is_blank line = trim line @ b"
    using dropWhile_blank_trim by blast
  obtain K X where "trim line = K @ CHR ''='' # X" "keyHead K" "trim K = k"
    using splitKeyValue_shape [OF body(1) hd_trim [OF body(2)]] by metis
  with b that show thesis by (metis append.assoc append_Cons)
qed

lemma commented_work:
  assumes "classify sec line = (CommentedKey, k, v, sec')"
  obtains K X where
    "dropWhile is_blank (dropWhile is_comment_mark (dropWhile is_blank line)) = K @ CHR ''='' # X"
    and "keyHead K" and "trim K = k"
proof -
  note body = classify_CommentedKey_body [OF assms]
  let ?m = "dropWhile is_comment_mark (trim line)"
  obtain b where b: "dropWhile is_blank line = trim line @ b"
    using dropWhile_blank_trim by blast
  have ne: "trim ?m \<noteq> []" using body(1) by (auto simp: splitKeyValue_def)
  then have "?m \<noteq> []" by (metis trim_Nil)
  then have "dropWhile is_comment_mark (trim line @ b) = ?m @ b"
    by (simp add: dropWhile_append_ne)
  moreover have "dropWhile is_blank ?m \<noteq> []" using ne by (auto simp: trim_def)
  then have "dropWhile is_blank (?m @ b) = dropWhile is_blank ?m @ b"
    by (simp add: dropWhile_append_ne)
  moreover obtain b' where "dropWhile is_blank ?m = trim ?m @ b'"
    using dropWhile_blank_trim by blast
  ultimately have w: "dropWhile is_blank (dropWhile is_comment_mark (dropWhile is_blank line)) =
      trim ?m @ b' @ b"
    using b by simp
  obtain K X where "trim ?m = K @ CHR ''='' # X" "keyHead K" "trim K = k"
    using splitKeyValue_shape [OF body(1) hd_trim [OF ne]] by metis
  with w that show thesis by simp
qed

text \<open>A rewritten line reads as whatever its rewritten tail reads as.\<close>

lemma rewriteValue_reads:
  assumes "dropWhile is_blank line \<noteq> []"
    and "(if uc then dropWhile is_blank (dropWhile is_comment_mark (dropWhile is_blank line))
          else dropWhile is_blank line) = K @ CHR ''='' # X"
    and "keyHead K"
    and "\<And>front. front \<noteq> [] \<Longrightarrow> \<not> is_blank (last front) \<Longrightarrow>
           \<exists>Y. rewriteTail front X v = front @ Y \<and> trim (stripInlineComment (rtrim Y)) = v'"
  shows "classify sec (rewriteValue line v uc) = (Key, trim K, v', sec)"
proof -
  let ?front = "takeWhile is_blank line @ K @ ''=''"
  have K: "\<And>c. c \<in> set K \<Longrightarrow> c \<noteq> CHR ''=''" using assms(3) by (auto simp: keyHead_def)
  have "rewriteValue line v uc = rewriteTail ?front X v"
    using assms(1,2) K
    by (cases uc) (simp_all add: rewriteValue_def Let_def takeWhile_append2 dropWhile_append2)
  moreover obtain Y where "rewriteTail ?front X v = ?front @ Y" "trim (stripInlineComment (rtrim Y)) = v'"
    using assms(4) [of ?front] by (auto simp: is_blank_def)
  ultimately show ?thesis
    using classify_keyLine [OF takeWhile_blanks assms(3), of sec line Y] by simp
qed

lemma rewriteValue_live:
  assumes "classify sec line = (Key, k, v0, sec')"
    and "\<And>front X. front \<noteq> [] \<Longrightarrow> \<not> is_blank (last front) \<Longrightarrow>
           \<exists>Y. rewriteTail front X v = front @ Y \<and> trim (stripInlineComment (rtrim Y)) = v'"
  shows "classify s (rewriteValue line v False) = (Key, k, v', s)"
proof -
  obtain K X where "dropWhile is_blank line = K @ CHR ''='' # X" "keyHead K" "trim K = k"
    using live_work [OF assms(1)] by blast
  then show ?thesis
    using rewriteValue_reads [of line False K X v v' s] assms(2) by simp
qed

lemma rewriteValue_commented:
  assumes "classify sec line = (CommentedKey, k, v0, sec')"
    and "\<And>front X. front \<noteq> [] \<Longrightarrow> \<not> is_blank (last front) \<Longrightarrow>
           \<exists>Y. rewriteTail front X v = front @ Y \<and> trim (stripInlineComment (rtrim Y)) = v'"
  shows "classify s (rewriteValue line v True) = (Key, k, v', s)"
proof -
  obtain K X where
    "dropWhile is_blank (dropWhile is_comment_mark (dropWhile is_blank line)) = K @ CHR ''='' # X"
    "keyHead K" "trim K = k"
    using commented_work [OF assms(1)] by blast
  moreover from this have "dropWhile is_blank line \<noteq> []"
    by (metis dropWhile.simps(1) list.distinct(1) append_is_Nil_conv)
  ultimately show ?thesis
    using rewriteValue_reads [of line True K X v v' s] assms(2) by simp
qed

lemma rewriteValue_Key:
  assumes "classify sec line = (Key, k, v0, sec')" and "valueClean v"
  shows "classify s (rewriteValue line v False) = (Key, k, v, s)"
  by (rule rewriteValue_live [OF assms(1)]) (metis rewriteTail_reads_back [OF assms(2)])

lemma rewriteValue_CommentedKey:
  assumes "classify sec line = (CommentedKey, k, v0, sec')" and "valueClean v"
  shows "classify s (rewriteValue line v True) = (Key, k, v, s)"
  by (rule rewriteValue_commented [OF assms(1)]) (metis rewriteTail_reads_back [OF assms(2)])

text \<open>A value that begins with a comment mark always ends up behind a blank, so it reads as nothing.\<close>

lemma rtrim_marked: "is_comment_mark m \<Longrightarrow> \<exists>w'. rtrim (xs @ m # w) = xs @ m # w'"
proof -
  assume "is_comment_mark m"
  then have "\<not> is_blank m" using blank_not_mark by blast
  then have "rtrim (m # w) = m # rtrim w" by (rule rtrim_Cons)
  then show ?thesis by (simp add: rtrim_append)
qed

lemma strip_after_marked:
  "list_all is_blank b \<Longrightarrow> is_blank p \<Longrightarrow> is_comment_mark m \<Longrightarrow> strip_after p (b @ m # w) = b"
  by (induction b arbitrary: p) (auto dest: blank_not_mark)

lemma strip_marked: "list_all is_blank b \<Longrightarrow> b \<noteq> [] \<Longrightarrow> is_comment_mark m \<Longrightarrow> stripInlineComment (b @ m # w) = b"
  by (cases b) (auto simp: strip_after_marked)

lemma rewriteTail_marked:
  assumes "is_comment_mark m"
  shows "\<exists>Y. rewriteTail front X (m # w) = front @ Y \<and> trim (stripInlineComment (rtrim Y)) = []"
proof -
  let ?sp = "if takeWhile is_blank X = [] then '' '' else takeWhile is_blank X"
  have sp: "list_all is_blank ?sp" "?sp \<noteq> []" by (auto simp: list_all_iff is_blank_def dest: set_takeWhileD)
  obtain w1 where w1: "rtrim ((front @ ?sp) @ m # w) = (front @ ?sp) @ m # w1" using rtrim_marked [OF assms] by blast
  obtain z where z: "rewriteTail front X (m # w) = front @ ?sp @ m # z"
  proof (cases "inlineComment (dropWhile is_blank X) = []")
    case True
    then show ?thesis using that [of w] by (simp add: rewriteTail_def Let_def)
  next
    case False
    then show ?thesis
      using that [of "w1 @ '' '' @ trim (inlineComment (dropWhile is_blank X))"] w1 by (simp add: rewriteTail_def Let_def)
  qed
  obtain z1 where "rtrim (?sp @ m # z) = ?sp @ m # z1" using rtrim_marked [OF assms] by blast
  moreover have "trim ?sp = []" using trim_blanks_append [OF sp(1), of "[]"] by (simp add: trim_def rtrim_def)
  ultimately show ?thesis using z strip_marked [OF sp assms] by (intro exI [of _ "?sp @ m # z"]) simp
qed

lemma commentOut_Key:
  assumes "classify sec line = (Key, k, v, sec')"
  shows "classify s (commentOut line) = (CommentedKey, k, v, s)"
proof -
  note body = classify_Key_body [OF assms]
  obtain b where b: "list_all is_blank b" "dropWhile is_blank line = trim line @ b"
    using dropWhile_blank_trim by blast
  have mark: "is_comment_mark CHR ''#''" "\<not> is_blank CHR ''#''"
    by (simp_all add: is_comment_mark_def is_blank_def)
  have "dropWhile is_blank line \<noteq> []" using b body(2) by simp
  then have "commentOut line = takeWhile is_blank line @ CHR ''#'' # trim line @ b"
    unfolding commentOut_def b(2) by auto
  moreover have "rtrim (CHR ''#'' # trim line @ b) = CHR ''#'' # trim line"
  proof -
    have "rtrim (trim line) = trim line" by (rule rtrim_id) (use last_trim [of line] in blast)
    then show ?thesis using b(1) mark(2) by (simp add: rtrim_Cons rtrim_append)
  qed
  ultimately have t: "trim (commentOut line) = CHR ''#'' # trim line"
    using mark(2) by (simp add: trim_blanks_append takeWhile_blanks) (simp add: trim_def)
  have "dropWhile is_comment_mark (trim line) = trim line"
    using body(2,4) by (cases "trim line") auto
  then show ?thesis
    using body(1) mark(1) by (simp add: classify_def t)
qed

text \<open>None of the rewrites puts a line break into a line.\<close>

abbreviation oneLine :: "string \<Rightarrow> bool" where
  "oneLine s \<equiv> list_all (\<lambda>c. \<not> is_newline c) s"

lemma set_rtrim: "set (rtrim s) \<subseteq> set s"
  using rtrim_decomp [of s] by (metis Un_iff set_append subsetI)

lemma set_inlineComment: "set (inlineComment s) \<subseteq> set s"
  by (auto simp: inlineComment_def Let_def dest: in_set_dropD)

lemma oneLine_subset: "oneLine s \<Longrightarrow> set t \<subseteq> set s \<Longrightarrow> oneLine t"
  by (auto simp: list_all_iff)

lemma rewriteTail_oneLine:
  assumes "oneLine front" "oneLine t" "oneLine v"
  shows "oneLine (rewriteTail front t v)"
proof -
  have sp: "oneLine '' ''" by (simp add: is_newline_def)
  have "oneLine (takeWhile is_blank t)" using assms(2) by (rule oneLine_subset) (auto dest: set_takeWhileD)
  with assms sp have out: "oneLine (front @ (if takeWhile is_blank t = [] then '' '' else takeWhile is_blank t) @ v)"
    by simp
  have "oneLine (dropWhile is_blank t)" using assms(2) by (rule oneLine_subset) (auto dest: set_dropWhileD)
  then have "oneLine (trim (inlineComment (dropWhile is_blank t)))"
    by (rule oneLine_subset) (use set_inlineComment set_trim in blast)
  then show ?thesis
    using out sp oneLine_subset [OF out set_rtrim] unfolding rewriteTail_def Let_def by simp
qed

lemma rewriteValue_oneLine:
  assumes "oneLine line" "oneLine v"
  shows "oneLine (rewriteValue line v uc)"
proof -
  let ?w0 = "if dropWhile is_blank line \<noteq> [] then dropWhile is_blank line else line"
  let ?w = "if uc then dropWhile is_blank (dropWhile is_comment_mark ?w0) else ?w0"
  have "set ?w0 \<subseteq> set line" by (auto dest: set_dropWhileD)
  moreover have "set ?w \<subseteq> set ?w0" by (cases uc) (auto dest!: set_dropWhileD)
  ultimately have sub: "set ?w \<subseteq> set line" by (rule order_trans [rotated])
  have "oneLine (takeWhile is_blank line)" using assms(1) by (rule oneLine_subset) (auto dest: set_takeWhileD)
  moreover have "oneLine ?w" using assms(1) sub by (rule oneLine_subset)
  moreover from this have "oneLine (takeWhile (\<lambda>c. c \<noteq> CHR ''='') ?w)"
    by (rule oneLine_subset) (metis set_takeWhileD subsetI)
  moreover from \<open>oneLine ?w\<close> have "oneLine (tl (dropWhile (\<lambda>c. c \<noteq> CHR ''='') ?w))"
    by (rule oneLine_subset) (metis list.sel(2) list.set_sel(2) set_dropWhileD subsetI)
  moreover have "oneLine ''=''" by (simp add: is_newline_def)
  ultimately show ?thesis
    using assms(2) unfolding rewriteValue_def Let_def by (auto intro!: rewriteTail_oneLine)
qed

lemma commentOut_oneLine: "oneLine line \<Longrightarrow> oneLine (commentOut line)"
  by (auto simp: commentOut_def list_all_iff is_newline_def dest: set_takeWhileD set_dropWhileD)

end
