(* ===== verification/IniMerge.thy ===== *)
theory IniMerge
  imports IniEdit
begin

text \<open>
  \<^verbatim>\<open>mergeIni\<close> of \<^verbatim>\<open>src/common/iniedit.cpp\<close>: the three-way merge that carries a user's
  values into the next version's file, with the annotations of the new file
  (\<^verbatim>\<open>moved-from\<close>, \<^verbatim>\<open>retired-default\<close>) and the keys the installer forces.
\<close>

section \<open>Annotations of the new file\<close>

definition annotationText :: "IniLine \<Rightarrow> string" where
  "annotationText l = trim (dropWhile is_comment_mark (trim (il_text l)))"

definition hasPrefix :: "string \<Rightarrow> string \<Rightarrow> bool" where
  "hasPrefix p s \<longleftrightarrow> take (length p) (lower s) = p"

type_synonym RetiredMap = "string \<Rightarrow> string set option"

definition retiredInsert :: "string \<Rightarrow> string \<Rightarrow> RetiredMap \<Rightarrow> RetiredMap" where
  "retiredInsert k v m = m(k \<mapsto> insert v (case m k of None \<Rightarrow> {} | Some s \<Rightarrow> s))"

definition retiredStep :: "IniLine \<Rightarrow> RetiredMap \<times> string list \<Rightarrow> RetiredMap \<times> string list" where
  "retiredStep l st = (case st of (out, pending) \<Rightarrow>
     if il_kind l = Comment then
       (let t = annotationText l in
        if hasPrefix ''retired-default:'' t
        then (out, pending @ [trim (drop (length ''retired-default:'') t)])
        else (out, pending))
     else if il_kind l = Blank \<or> il_kind l = Section then (out, [])
     else (fold (\<lambda>v m. retiredInsert (lower (dottedName (il_section l) (il_key l))) (lower v) m)
             pending out, []))"

definition retiredDefaults :: "IniDoc \<Rightarrow> RetiredMap" where
  "retiredDefaults doc = fst (fold retiredStep doc (Map.empty, []))"

record MovedTarget =
  mt_section :: string
  mt_key :: string
  mt_oldDefault :: string

fun findSub :: "string \<Rightarrow> string \<Rightarrow> nat option" where
  "findSub p [] = (if p = [] then Some 0 else None)"
| "findSub p (c # cs) =
     (if take (length p) (c # cs) = p then Some 0 else map_option Suc (findSub p cs))"

text \<open>The text after \<^verbatim>\<open>moved-from:\<close>: the old name and, in \<^verbatim>\<open>(default X)\<close>, its old default.\<close>

definition movedSpec :: "string \<Rightarrow> string \<times> string" where
  "movedSpec spec =
     (case findSub ''(default'' spec of
        None \<Rightarrow> (spec, [])
      | Some i \<Rightarrow>
          (if CHR '')'' \<in> set (drop i spec)
           then (trim (take i spec),
                 trim (drop (length ''(default'') (takeWhile (\<lambda>c. c \<noteq> CHR '')'') (drop i spec))))
           else (spec, [])))"

type_synonym MovedMap = "string \<Rightarrow> MovedTarget option"

definition movedStep ::
  "IniLine \<Rightarrow> MovedMap \<times> (string \<times> string) list \<Rightarrow> MovedMap \<times> (string \<times> string) list" where
  "movedStep l st = (case st of (out, pending) \<Rightarrow>
     if il_kind l = Comment then
       (let t = annotationText l in
        if hasPrefix ''moved-from:'' t
        then (out, pending @ [movedSpec (trim (drop (length ''moved-from:'') t))])
        else (out, pending))
     else if il_kind l = Blank \<or> il_kind l = Section then (out, [])
     else (fold (\<lambda>p m. m(lower (fst p) \<mapsto>
                   \<lparr>mt_section = il_section l, mt_key = il_key l, mt_oldDefault = snd p\<rparr>))
             pending out, []))"

definition movedKeys :: "IniDoc \<Rightarrow> MovedMap" where
  "movedKeys doc = fst (fold movedStep doc (Map.empty, []))"

section \<open>The merge\<close>

record MergeReport =
  rep_followed :: "string list"
  rep_kept :: "string list"
  rep_adopted :: "string list"
  rep_retired :: "string list"
  rep_carried :: "string list"
  rep_removed :: "string list"
  rep_forced :: "string list"
  rep_twoWay :: bool

definition emptyReport :: MergeReport where
  "emptyReport = \<lparr>rep_followed = [], rep_kept = [], rep_adopted = [], rep_retired = [],
     rep_carried = [], rep_removed = [], rep_forced = [], rep_twoWay = False\<rparr>"

text \<open>
  The replacements by line index, and the lines to append per lowercased section. The second
  is a \<^verbatim>\<open>std::map\<close> that the emitter iterates, so it keeps the byte order of its keys.
\<close>

type_synonym Appended = "(string \<times> string list) list"

record MergeState =
  ms_replacements :: "nat \<Rightarrow> string option"
  ms_appended :: Appended
  ms_report :: MergeReport

fun appendedPush :: "string \<Rightarrow> string \<Rightarrow> Appended \<Rightarrow> Appended" where
  "appendedPush s l [] = [(s, [l])]"
| "appendedPush s l ((t, ls) # m) =
     (if s = t then (t, ls @ [l]) # m
      else if s < t then (s, [l]) # (t, ls) # m
      else (t, ls) # appendedPush s l m)"

definition lastIndex :: "(IniLine \<Rightarrow> bool) \<Rightarrow> IniDoc \<Rightarrow> nat option" where
  "lastIndex P doc =
     fold (\<lambda>i last. if P (doc ! i) then Some i else last) [0..<length doc] None"

definition lastLineOfSection :: "IniDoc \<Rightarrow> string \<Rightarrow> nat option" where
  "lastLineOfSection doc section = lastIndex (\<lambda>l. sameKey (il_section l) section) doc"

definition settingIndex :: "IniDoc \<Rightarrow> string \<Rightarrow> string \<Rightarrow> nat option" where
  "settingIndex doc section key = lastIndex (\<lambda>l. isSetting l \<and> keyMatches section key l) doc"

definition liveIndex :: "IniDoc \<Rightarrow> string \<Rightarrow> string \<Rightarrow> nat option" where
  "liveIndex doc section key = lastIndex (\<lambda>l. il_kind l = Key \<and> keyMatches section key l) doc"

definition rewriteAt :: "IniDoc \<Rightarrow> nat \<Rightarrow> string \<Rightarrow> string" where
  "rewriteAt doc i v = rewriteValue (il_text (doc ! i)) v (il_kind (doc ! i) = CommentedKey)"

text \<open>Every setting a document has an opinion about, in file order, once per lowercased name.\<close>

definition noteKey :: "IniLine \<Rightarrow> string list \<times> (string \<times> string) list \<Rightarrow>
    string list \<times> (string \<times> string) list" where
  "noteKey l st = (case st of (seen, keys) \<Rightarrow>
     let name = lower (dottedName (il_section l) (il_key l)) in
     if name \<in> set seen then (seen, keys)
     else (name # seen, keys @ [(il_section l, il_key l)]))"

definition haveUser :: "IniDoc \<Rightarrow> bool" where
  "haveUser userDoc \<longleftrightarrow> list_ex isSetting userDoc"

definition userKeys :: "IniDoc \<Rightarrow> IniDoc option \<Rightarrow> (string \<times> string) list" where
  "userKeys userDoc base =
     (let st = fold noteKey (filter isSetting userDoc) ([], []) in
      snd (case base of
             None \<Rightarrow> st
           | Some baseDoc \<Rightarrow>
               if haveUser userDoc then fold noteKey (filter (\<lambda>l. il_kind l = Key) baseDoc) st else st))"

definition carriedNote :: "bool \<Rightarrow> string" where
  "carriedNote known =
     (if known then ''# carried over from your edvr.ini; this version no longer uses it''
      else ''# carried over from your edvr.ini; not an EDVR setting this version knows'')"

definition setting :: "string \<Rightarrow> string \<Rightarrow> string" where
  "setting name v = name @ '' = '' @ v"

text \<open>A setting the new file does not know: moved, stale, or carried to the end of its section.\<close>

definition carryUnknown ::
  "string \<Rightarrow> string \<Rightarrow> Effective \<Rightarrow> Effective \<Rightarrow> MergeState \<Rightarrow> MergeState" where
  "carryUnknown section key u b st =
     (if eff_present u then
        (let dotted = dottedName section key;
             app = appendedPush (lower section) (setting key (eff_value u))
                     (appendedPush (lower section) (carriedNote (eff_known b)) (ms_appended st))
         in st\<lparr>ms_appended := app,
               ms_report := (if eff_known b
                 then (ms_report st)\<lparr>rep_retired := rep_retired (ms_report st) @ [setting dotted (eff_value u)]\<rparr>
                 else (ms_report st)\<lparr>rep_carried := rep_carried (ms_report st) @ [setting dotted (eff_value u)]\<rparr>)\<rparr>)
      else st)"

definition mergeUnknown ::
  "IniDoc \<Rightarrow> IniDoc \<Rightarrow> MovedMap \<Rightarrow> string \<Rightarrow> string \<Rightarrow> Effective \<Rightarrow> Effective \<Rightarrow> MergeState \<Rightarrow> MergeState" where
  "mergeUnknown nextDoc userDoc moved section key u b st =
     (let dotted = dottedName section key; r = ms_report st in
      case moved (lower dotted) of
        Some t \<Rightarrow>
          (if eff_present u \<and> mt_oldDefault t \<noteq> [] \<and> eff_value u = mt_oldDefault t then
             st\<lparr>ms_report := r\<lparr>rep_adopted := rep_adopted r @
                  [setting dotted (eff_value u) @ ''  (retired default; '' @
                   dottedName (mt_section t) (mt_key t) @ '' ships its own)'']\<rparr>\<rparr>
           else if eff_present u \<and> \<not> eff_present (effectiveOf userDoc (mt_section t) (mt_key t)) then
             (case settingIndex nextDoc (mt_section t) (mt_key t) of
                Some i \<Rightarrow>
                  st\<lparr>ms_replacements := (ms_replacements st)(i \<mapsto> rewriteAt nextDoc i (eff_value u)),
                     ms_report := r\<lparr>rep_followed := rep_followed r @
                       [setting dotted (eff_value u) @ ''  ->  '' @ dottedName (mt_section t) (mt_key t)]\<rparr>\<rparr>
              | None \<Rightarrow> carryUnknown section key u b st)
           else carryUnknown section key u b st)
      | None \<Rightarrow> carryUnknown section key u b st)"

definition isRetired :: "RetiredMap \<Rightarrow> string \<Rightarrow> Effective \<Rightarrow> bool" where
  "isRetired retired dotted u \<longleftrightarrow> eff_present u \<and>
     (case retired (lower dotted) of None \<Rightarrow> False | Some s \<Rightarrow> lower (eff_value u) \<in> s)"

definition changedByUser :: "Effective \<Rightarrow> Effective \<Rightarrow> bool" where
  "changedByUser u b \<longleftrightarrow>
     eff_present u \<noteq> eff_present b \<or> (eff_present u \<and> eff_value u \<noteq> eff_value b)"

definition mergeKnown ::
  "IniDoc \<Rightarrow> RetiredMap \<Rightarrow> string \<Rightarrow> string \<Rightarrow> Effective \<Rightarrow> Effective \<Rightarrow> Effective \<Rightarrow> MergeState \<Rightarrow> MergeState" where
  "mergeKnown nextDoc retired section key u b n st =
     (let dotted = dottedName section key; r = ms_report st in
      if isRetired retired dotted u then
        st\<lparr>ms_report := r\<lparr>rep_adopted := rep_adopted r @
             [setting dotted (eff_value u) @ ''  (a default this version retired; it now ships '' @
              eff_value n @ '' -- set it again if you meant it)'']\<rparr>\<rparr>
      else if changedByUser u b then
        (if eff_present u then
           (case settingIndex nextDoc section key of
              Some i \<Rightarrow>
                st\<lparr>ms_replacements := (ms_replacements st)(i \<mapsto> rewriteAt nextDoc i (eff_value u)),
                   ms_report := r\<lparr>rep_kept := rep_kept r @ [setting dotted (eff_value u)]\<rparr>\<rparr>
            | None \<Rightarrow> st)
         else
           (case liveIndex nextDoc section key of
              Some i \<Rightarrow>
                st\<lparr>ms_replacements := (ms_replacements st)(i \<mapsto> commentOut (il_text (nextDoc ! i))),
                   ms_report := r\<lparr>rep_removed := rep_removed r @ [dotted]\<rparr>\<rparr>
            | None \<Rightarrow> st))
      else if eff_known b \<and> (eff_present n \<noteq> eff_present b \<or> eff_value n \<noteq> eff_value b) then
        st\<lparr>ms_report := r\<lparr>rep_adopted := rep_adopted r @
             [setting dotted (if eff_present n then eff_value n else ''(default)'')]\<rparr>\<rparr>
      else st)"

definition mergeKey ::
  "IniDoc \<Rightarrow> IniDoc \<Rightarrow> IniDoc \<Rightarrow> MovedMap \<Rightarrow> RetiredMap \<Rightarrow> string set \<Rightarrow>
   string \<times> string \<Rightarrow> MergeState \<Rightarrow> MergeState" where
  "mergeKey nextDoc userDoc baseDoc moved retired forcedKeys sk st =
     (case sk of (section, key) \<Rightarrow>
        if lower (dottedName section key) \<in> forcedKeys then st
        else
          let u = effectiveOf userDoc section key;
              b = effectiveOf baseDoc section key;
              n = effectiveOf nextDoc section key
          in if \<not> eff_known n then mergeUnknown nextDoc userDoc moved section key u b st
             else mergeKnown nextDoc retired section key u b n st)"

definition forceKey :: "IniDoc \<Rightarrow> string \<times> string \<Rightarrow> MergeState \<Rightarrow> MergeState" where
  "forceKey nextDoc f st =
     (case splitDotted (fst f) of (section, key) \<Rightarrow>
        let r = ms_report st;
            st' = (case settingIndex nextDoc section key of
                     Some i \<Rightarrow> st\<lparr>ms_replacements := (ms_replacements st)(i \<mapsto> rewriteAt nextDoc i (snd f))\<rparr>
                   | None \<Rightarrow> st\<lparr>ms_appended :=
                                appendedPush (lower section) (setting key (snd f)) (ms_appended st)\<rparr>)
        in st'\<lparr>ms_report := r\<lparr>rep_forced := rep_forced r @ [setting (fst f) (snd f)]\<rparr>\<rparr>)"

section \<open>Emission\<close>

definition blockLines :: "string \<Rightarrow> string list \<Rightarrow> IniDoc" where
  "blockLines eol ls = map (\<lambda>s. plainLine Comment s eol) ls"

text \<open>A block goes before the blank lines that end what has been written so far.\<close>

definition insertBlock :: "IniDoc \<Rightarrow> IniDoc \<Rightarrow> IniDoc" where
  "insertBlock out block =
     rev (dropWhile (\<lambda>l. il_kind l = Blank) (rev out)) @ block @
     rev (takeWhile (\<lambda>l. il_kind l = Blank) (rev out))"

definition appendAfter :: "IniDoc \<Rightarrow> Appended \<Rightarrow> nat \<Rightarrow> string list option" where
  "appendAfter doc app i =
     fold (\<lambda>p found. if lastLineOfSection doc (fst p) = Some i then Some (snd p) else found) app None"

definition patchedLine :: "IniDoc \<Rightarrow> string \<Rightarrow> MergeState \<Rightarrow> nat \<Rightarrow> IniLine" where
  "patchedLine nextDoc eol st i =
     (let l = nextDoc ! i in
      case ms_replacements st i of
        None \<Rightarrow> l
      | Some t \<Rightarrow> l\<lparr>il_text := t, il_eol := (if il_eol l = [] then eol else il_eol l)\<rparr>)"

definition emitLine :: "IniDoc \<Rightarrow> string \<Rightarrow> MergeState \<Rightarrow> nat \<Rightarrow> IniDoc \<Rightarrow> IniDoc" where
  "emitLine nextDoc eol st i out =
     (let out1 = out @ [patchedLine nextDoc eol st i] in
      case appendAfter nextDoc (ms_appended st) i of
        None \<Rightarrow> out1
      | Some ls \<Rightarrow> insertBlock out1 (blockLines eol ls))"

definition orphanBlock :: "string \<Rightarrow> string \<times> string list \<Rightarrow> IniDoc" where
  "orphanBlock eol p =
     plainLine Blank [] eol # plainLine Section (''['' @ fst p @ '']'') eol # blockLines eol (snd p)"

definition orphans :: "IniDoc \<Rightarrow> Appended \<Rightarrow> Appended" where
  "orphans doc app = filter (\<lambda>p. lastLineOfSection doc (fst p) = None) app"

definition emitDoc :: "IniDoc \<Rightarrow> MergeState \<Rightarrow> IniDoc" where
  "emitDoc nextDoc st =
     (let eol = dominantEol nextDoc in
      fold (emitLine nextDoc eol st) [0..<length nextDoc] [] @
      concat (map (orphanBlock eol) (orphans nextDoc (ms_appended st))))"

definition mergeState ::
  "string \<Rightarrow> string \<Rightarrow> string option \<Rightarrow> (string \<times> string) list \<Rightarrow> MergeState" where
  "mergeState new user base forced =
     (let nextDoc = iniParse new;
          moved = movedKeys nextDoc;
          retired = retiredDefaults nextDoc;
          userDoc = iniParse user;
          baseDoc = iniParse (case base of None \<Rightarrow> new | Some b \<Rightarrow> b);
          forcedKeys = set (map (\<lambda>f. lower (fst f)) forced);
          keys = userKeys userDoc (map_option iniParse base);
          st0 = \<lparr>ms_replacements = Map.empty, ms_appended = [],
                 ms_report = emptyReport\<lparr>rep_twoWay := (base = None)\<rparr>\<rparr>;
          st1 = fold (mergeKey nextDoc userDoc baseDoc moved retired forcedKeys) keys st0
      in fold (forceKey nextDoc) forced st1)"

definition mergeIni ::
  "string \<Rightarrow> string \<Rightarrow> string option \<Rightarrow> (string \<times> string) list \<Rightarrow> string \<times> MergeReport" where
  "mergeIni new user base forced =
     (let st = mergeState new user base forced in (docText (emitDoc (iniParse new) st), ms_report st))"

section \<open>Reading a list of lines\<close>

text \<open>
  Parsing and looking up in one pass: the section in force and the value found so far. This is
  the form in which lines are inserted, replaced and dropped.
\<close>

definition scanLine :: "string \<Rightarrow> string \<Rightarrow> string \<times> string \<Rightarrow> string \<times> Effective \<Rightarrow> string \<times> Effective" where
  "scanLine s k r st =
     (case classify (fst st) (fst r) of (kind, key, val, sec) \<Rightarrow>
        (sec, effectiveStep s k
           \<lparr>il_kind = kind, il_text = fst r, il_eol = snd r, il_section = sec, il_key = key, il_value = val\<rparr>
           (snd st)))"

lemma scan_parse:
  "snd (fold (scanLine s k) rs (sec, e)) = fold (effectiveStep s k) (parseLines sec rs) e"
proof (induction rs arbitrary: sec e)
  case (Cons r rs)
  obtain t ee where r: "r = (t, ee)" by fastforce
  obtain kd ky v sec' where c: "classify sec t = (kd, ky, v, sec')" by (metis prod_cases4)
  show ?case using Cons by (simp add: r c scanLine_def)
qed simp

text \<open>The section in force before each line of a parsed document.\<close>

fun secAt :: "string \<Rightarrow> IniDoc \<Rightarrow> nat \<Rightarrow> string" where
  "secAt sec doc 0 = sec"
| "secAt sec doc (Suc i) = il_section (doc ! i)"

lemma parseLines_nth:
  assumes "i < length rs"
  shows "classify (secAt sec (parseLines sec rs) i) (fst (rs ! i)) =
      (il_kind (parseLines sec rs ! i), il_key (parseLines sec rs ! i),
       il_value (parseLines sec rs ! i), il_section (parseLines sec rs ! i))"
  using assms
proof (induction rs arbitrary: sec i)
  case (Cons r rs)
  obtain t ee where r: "r = (t, ee)" by fastforce
  obtain kd ky v sec' where c: "classify sec t = (kd, ky, v, sec')" by (metis prod_cases4)
  show ?case
  proof (cases i)
    case 0
    then show ?thesis by (simp add: r c)
  next
    case (Suc j)
    then have "secAt sec (parseLines sec (r # rs)) i = secAt sec' (parseLines sec' rs) j"
      by (cases j) (simp_all add: r c)
    then show ?thesis using Cons Suc by (simp add: r c)
  qed
qed simp

lemma parseLines_nth_raw:
  "i < length rs \<Longrightarrow> il_text (parseLines sec rs ! i) = fst (rs ! i) \<and> il_eol (parseLines sec rs ! i) = snd (rs ! i)"
  using parseLines_raw [of sec rs]
  by (metis (mono_tags, lifting) fst_conv length_map nth_map snd_conv)

lemma length_parseLines [simp]: "length (parseLines sec rs) = length rs"
  using parseLines_raw [of sec rs] by (metis length_map)

lemma classify_Blank: "classify sec t = (Blank, key, v, sec') \<Longrightarrow> trim t = []"
  by (auto simp: classify_def Let_def split: if_splits option.splits prod.splits)

lemma classify_blank [simp]: "trim t = [] \<Longrightarrow> classify sec t = (Blank, [], [], sec)"
  by (simp add: classify_def)

lemma scan_blank: "trim (fst r) = [] \<Longrightarrow> scanLine s k r st = st"
  by (cases st) (simp add: scanLine_def effectiveStep_def isSetting_def)

abbreviation rawOf :: "IniLine \<Rightarrow> string \<times> string" where
  "rawOf l \<equiv> (il_text l, il_eol l)"

abbreviation solid :: "IniLine \<Rightarrow> bool" where
  "solid l \<equiv> il_kind l \<noteq> Blank"

definition blanksOk :: "IniDoc \<Rightarrow> bool" where
  "blanksOk doc \<longleftrightarrow> list_all (\<lambda>l. il_kind l = Blank \<longrightarrow> trim (il_text l) = []) doc"

lemma scan_filter_solid:
  "blanksOk doc \<Longrightarrow> fold (scanLine s k) (map rawOf doc) st = fold (scanLine s k) (map rawOf (filter solid doc)) st"
  by (induction doc arbitrary: st) (auto simp: blanksOk_def scan_blank)

lemma filter_insertBlock:
  "list_all solid block \<Longrightarrow> filter solid (insertBlock out block) = filter solid out @ block"
proof -
  assume b: "list_all solid block"
  have rest: "filter solid (rev (takeWhile (\<lambda>l. il_kind l = Blank) (rev out))) = []"
    by (auto simp: filter_empty_conv dest: set_takeWhileD)
  have "out = rev (dropWhile (\<lambda>l. il_kind l = Blank) (rev out)) @ rev (takeWhile (\<lambda>l. il_kind l = Blank) (rev out))"
    by (metis rev_append rev_rev_ident takeWhile_dropWhile_id)
  then have "filter solid out = filter solid (rev (dropWhile (\<lambda>l. il_kind l = Blank) (rev out)))"
    using rest by (metis append_Nil2 filter_append)
  with rest b show ?thesis
    by (simp add: insertBlock_def list_all_iff filter_id_conv)
qed

lemma set_insertBlock: "set (insertBlock out block) = set out \<union> set block"
proof -
  have "set out = set (takeWhile (\<lambda>l. il_kind l = Blank) (rev out)) \<union> set (dropWhile (\<lambda>l. il_kind l = Blank) (rev out))"
    by (metis set_append set_rev takeWhile_dropWhile_id)
  then show ?thesis by (auto simp: insertBlock_def)
qed

section \<open>What the emitted file holds\<close>

definition blockAfter :: "IniDoc \<Rightarrow> string \<Rightarrow> MergeState \<Rightarrow> nat \<Rightarrow> IniDoc" where
  "blockAfter nextDoc eol st i =
     (case appendAfter nextDoc (ms_appended st) i of None \<Rightarrow> [] | Some ls \<Rightarrow> blockLines eol ls)"

lemma emitLine_solid:
  "filter solid (emitLine nextDoc eol st i out) =
     filter solid out @ filter solid [patchedLine nextDoc eol st i] @ blockAfter nextDoc eol st i"
  by (auto simp: emitLine_def Let_def blockAfter_def blockLines_def
      filter_insertBlock list_all_iff plainLine_def split: option.splits)

lemma emitLine_set:
  "set (emitLine nextDoc eol st i out) =
     set out \<union> {patchedLine nextDoc eol st i} \<union> set (blockAfter nextDoc eol st i)"
  by (auto simp: emitLine_def Let_def blockAfter_def set_insertBlock
      split: option.splits)

lemma emit_solid:
  "filter solid (fold (emitLine nextDoc eol st) is out) =
     filter solid out @
     concat (map (\<lambda>i. filter solid [patchedLine nextDoc eol st i] @ blockAfter nextDoc eol st i) is)"
  by (induction "is" arbitrary: out) (simp_all add: emitLine_solid)

lemma emit_set:
  "set (fold (emitLine nextDoc eol st) is out) =
     set out \<union> patchedLine nextDoc eol st ` set is \<union> (\<Union>i\<in>set is. set (blockAfter nextDoc eol st i))"
  by (induction "is" arbitrary: out) (auto simp: emitLine_set)

text \<open>Only a section header changes the section, and only the section part depends on it.\<close>

lemma classify_sec:
  "classify sec t = (case classify [] t of (kd, ky, v, s') \<Rightarrow> (kd, ky, v, if kd = Section then s' else sec))"
  by (auto simp: classify_def Let_def split: option.splits prod.splits)

lemma classify_keeps:
  "classify sec t = (kd, ky, v, sec') \<Longrightarrow> kd \<noteq> Section \<Longrightarrow> sec' = sec"
  by (subst (asm) classify_sec) (auto split: prod.splits if_splits)

abbreviation shapeKind :: "string \<Rightarrow> LineKind" where "shapeKind t \<equiv> fst (classify [] t)"
abbreviation shapeKey :: "string \<Rightarrow> string" where "shapeKey t \<equiv> fst (snd (classify [] t))"
abbreviation shapeValue :: "string \<Rightarrow> string" where "shapeValue t \<equiv> fst (snd (snd (classify [] t)))"

lemma classify_shape:
  "shapeKind t \<noteq> Section \<Longrightarrow> classify sec t = (shapeKind t, shapeKey t, shapeValue t, sec)"
  by (subst classify_sec) (auto split: prod.splits)

lemma lower_lower [simp]: "lower (lower s) = lower s"
proof -
  have "to_lower (to_lower c) = to_lower c" for c
    by (auto simp: to_lower_def Let_def)
  then show ?thesis by (simp add: lower_def)
qed

text \<open>What the merge may put into a state: settings over settings, and plain lines to append.\<close>

definition replacementsOk :: "IniDoc \<Rightarrow> MergeState \<Rightarrow> bool" where
  "replacementsOk doc st \<longleftrightarrow> (\<forall>i t. ms_replacements st i = Some t \<longrightarrow>
     i < length doc \<and> isSetting (doc ! i) \<and> oneLine t \<and>
     shapeKind t \<in> {Key, CommentedKey} \<and> shapeKey t = il_key (doc ! i))"

definition appendedOk :: "Appended \<Rightarrow> bool" where
  "appendedOk app \<longleftrightarrow> (\<forall>(sec, ls) \<in> set app. lower sec = sec \<and> CHR '']'' \<notin> set sec \<and> oneLine sec \<and>
     (\<forall>l \<in> set ls. oneLine l \<and> shapeKind l \<noteq> Section))"

definition appendedAvoids :: "string \<Rightarrow> string \<Rightarrow> Appended \<Rightarrow> bool" where
  "appendedAvoids s k app \<longleftrightarrow> (\<forall>(sec, ls) \<in> set app. sec = lower s \<longrightarrow>
     (\<forall>l \<in> set ls. shapeKind l \<in> {Key, CommentedKey} \<longrightarrow> \<not> sameKey (shapeKey l) k))"

definition patched :: "IniDoc \<Rightarrow> MergeState \<Rightarrow> nat \<Rightarrow> IniLine" where
  "patched doc st i =
     (case ms_replacements st i of
        None \<Rightarrow> doc ! i
      | Some t \<Rightarrow> (doc ! i)\<lparr>il_kind := shapeKind t, il_value := shapeValue t\<rparr>)"

lemma lastIndex_Some:
  assumes "lastIndex P doc = Some i"
  shows "i < length doc \<and> P (doc ! i) \<and> (\<forall>j < length doc. i < j \<longrightarrow> \<not> P (doc ! j))"
proof -
  have "fold (\<lambda>i last. if P (doc ! i) then Some i else last) [0..<n] None = Some i \<Longrightarrow>
      i < n \<and> P (doc ! i) \<and> (\<forall>j < n. i < j \<longrightarrow> \<not> P (doc ! j))" for n
    by (induction n) (auto split: if_splits simp: less_Suc_eq)
  with assms show ?thesis by (simp add: lastIndex_def)
qed

lemma lastIndex_None:
  assumes "lastIndex P doc = None" and "j < length doc"
  shows "\<not> P (doc ! j)"
proof -
  have "fold (\<lambda>i last. if P (doc ! i) then Some i else last) [0..<n] None = None \<Longrightarrow>
      (\<forall>j < n. \<not> P (doc ! j))" for n
    by (induction n) (auto split: if_splits simp: less_Suc_eq)
  with assms show ?thesis by (auto simp: lastIndex_def)
qed

lemma appendAfter_Some:
  assumes "appendAfter doc app i = Some ls"
  shows "\<exists>sec. (sec, ls) \<in> set app \<and> lastLineOfSection doc sec = Some i"
proof -
  have "fold (\<lambda>p found. if lastLineOfSection doc (fst p) = Some i then Some (snd p) else found) xs acc = Some ls
      \<Longrightarrow> acc = Some ls \<or> (\<exists>sec. (sec, ls) \<in> set xs \<and> lastLineOfSection doc sec = Some i)" for xs acc
  proof (induction xs arbitrary: acc)
    case (Cons x xs)
    obtain a b where x: "x = (a, b)" by fastforce
    from Cons.prems Cons.IH [of "if lastLineOfSection doc a = Some i then Some b else acc"]
    show ?case by (auto simp: x split: if_splits)
  qed simp
  from this [of app None] assms show ?thesis by (auto simp: appendAfter_def)
qed

text \<open>Lines that are no match for a setting leave the section and the value found alone.\<close>

lemma scan_avoids:
  assumes "\<forall>l \<in> set ls. shapeKind l \<noteq> Section"
    and "sameKey sec s \<longrightarrow> (\<forall>l \<in> set ls. shapeKind l \<in> {Key, CommentedKey} \<longrightarrow> \<not> sameKey (shapeKey l) k)"
  shows "fold (scanLine s k) (map rawOf (blockLines eol ls)) (sec, e) = (sec, e)"
  using assms
proof (induction ls)
  case (Cons l ls)
  then have "scanLine s k (rawOf (plainLine Comment l eol)) (sec, e) = (sec, e)"
    using classify_shape [of l sec]
    by (auto simp: scanLine_def plainLine_def effectiveStep_def isSetting_def keyMatches_def)
  with Cons show ?case by (simp add: blockLines_def)
qed (simp add: blockLines_def)

lemma effectiveStep_cong:
  "il_kind l = il_kind l' \<Longrightarrow> il_section l = il_section l' \<Longrightarrow> il_key l = il_key l' \<Longrightarrow>
   il_value l = il_value l' \<Longrightarrow> effectiveStep s k l e = effectiveStep s k l' e"
  by (simp add: effectiveStep_def isSetting_def keyMatches_def)

lemma secAt_setting:
  assumes "doc = parseLines [] rs" and "i < length rs" and "il_kind (doc ! i) \<noteq> Section"
  shows "il_section (doc ! i) = secAt [] doc i"
  using parseLines_nth [OF assms(2), of "[]"] assms(1,3) by (auto dest: classify_keeps)

lemma scan_patched:
  assumes doc: "doc = parseLines [] rs" and i: "i < length rs" and ok: "replacementsOk doc st"
  shows "fold (scanLine s k) (map rawOf (filter solid [patchedLine doc eol st i])) (secAt [] doc i, e) =
         (secAt [] doc (Suc i), effectiveStep s k (patched doc st i) e)"
proof (cases "ms_replacements st i")
  case None
  note n = parseLines_nth [OF i, of "[]", folded doc] parseLines_nth_raw [OF i, of "[]", folded doc]
  have line: "scanLine s k (rawOf (doc ! i)) (secAt [] doc i, e) =
      (il_section (doc ! i), effectiveStep s k (doc ! i) e)"
    using n by (auto simp: scanLine_def intro!: effectiveStep_cong)
  show ?thesis
  proof (cases "il_kind (doc ! i) = Blank")
    case True
    then show ?thesis
      using None secAt_setting [OF doc i] by (simp add: patchedLine_def patched_def effectiveStep_def isSetting_def)
  next
    case False
    then show ?thesis using None line by (simp add: patchedLine_def patched_def)
  qed
next
  case (Some t)
  then have t: "isSetting (doc ! i)" "shapeKind t \<in> {Key, CommentedKey}" "shapeKey t = il_key (doc ! i)"
    using ok by (auto simp: replacementsOk_def)
  then have sec: "il_section (doc ! i) = secAt [] doc i"
    using secAt_setting [OF doc i] by (auto simp: isSetting_def)
  have "classify (secAt [] doc i) t = (shapeKind t, il_key (doc ! i), shapeValue t, secAt [] doc i)"
    using classify_shape [of t "secAt [] doc i"] t(2,3) by (auto simp del: classify_blank)
  note shape = this
  obtain e' where pl: "patchedLine doc eol st i = (doc ! i)\<lparr>il_text := t, il_eol := e'\<rparr>"
    using Some by (auto simp: patchedLine_def Let_def)
  have "solid (patchedLine doc eol st i)" using t(1) by (auto simp: pl isSetting_def)
  moreover have "scanLine s k (rawOf (patchedLine doc eol st i)) (secAt [] doc i, e) =
      (secAt [] doc i, effectiveStep s k (patched doc st i) e)"
    using sec by (auto simp: pl shape scanLine_def patched_def Some intro!: effectiveStep_cong)
  ultimately show ?thesis using sec by simp
qed

definition piece :: "IniDoc \<Rightarrow> string \<Rightarrow> MergeState \<Rightarrow> nat \<Rightarrow> IniDoc" where
  "piece doc eol st i = filter solid [patchedLine doc eol st i] @ blockAfter doc eol st i"

lemma scan_piece:
  assumes doc: "doc = parseLines [] rs" and i: "i < length rs" and ok: "replacementsOk doc st"
    and app: "appendedOk (ms_appended st)" "appendedAvoids s k (ms_appended st)"
  shows "fold (scanLine s k) (map rawOf (piece doc eol st i)) (secAt [] doc i, e) =
         (secAt [] doc (Suc i), effectiveStep s k (patched doc st i) e)"
proof (cases "appendAfter doc (ms_appended st) i")
  case None
  then show ?thesis using scan_patched [OF doc i ok] by (simp add: piece_def blockAfter_def)
next
  case (Some ls)
  then obtain sec where sec: "(sec, ls) \<in> set (ms_appended st)" "lastLineOfSection doc sec = Some i"
    using appendAfter_Some by blast
  have same: "sameKey (il_section (doc ! i)) sec"
    using lastIndex_Some sec(2) by (fastforce simp: lastLineOfSection_def)
  have "lower sec = sec" "\<forall>l \<in> set ls. shapeKind l \<noteq> Section"
    using app(1) sec(1) by (auto simp: appendedOk_def)
  moreover have "sec = lower s \<Longrightarrow> \<forall>l \<in> set ls. shapeKind l \<in> {Key, CommentedKey} \<longrightarrow> \<not> sameKey (shapeKey l) k"
    using app(2) sec(1) by (fastforce simp: appendedAvoids_def)
  ultimately have "fold (scanLine s k) (map rawOf (blockLines eol ls)) (il_section (doc ! i), e') =
      (il_section (doc ! i), e')" for e'
    using same by (intro scan_avoids) (auto simp: sameKey_def)
  then show ?thesis
    using Some scan_patched [OF doc i ok] by (simp add: piece_def blockAfter_def)
qed

lemma scan_pieces:
  assumes doc: "doc = parseLines [] rs" and ok: "replacementsOk doc st"
    and app: "appendedOk (ms_appended st)" "appendedAvoids s k (ms_appended st)"
    and "m \<le> length rs"
  shows "fold (scanLine s k) (map rawOf (concat (map (piece doc eol st) [0..<m]))) ([], e) =
         (secAt [] doc m, fold (effectiveStep s k) (map (patched doc st) [0..<m]) e)"
  using assms(5)
proof (induction m)
  case (Suc m)
  then show ?case using scan_piece [OF doc _ ok app, of m] by simp
qed simp

lemma orphan_header:
  assumes "CHR '']'' \<notin> set sec"
  shows "classify cur (''['' @ sec @ '']'') = (Section, [], [], sec)"
proof -
  have "trim (''['' @ sec @ '']'') = ''['' @ sec @ '']''"
    by (rule trim_id) (simp add: is_blank_def)
  moreover have "takeWhile (\<lambda>c. c \<noteq> CHR '']'') (sec @ '']'') = sec"
    using assms by (auto simp: takeWhile_append)
  ultimately show ?thesis by (simp add: classify_def)
qed

lemma scan_orphans:
  assumes "appendedOk app" "appendedAvoids s k app"
  shows "snd (fold (scanLine s k) (map rawOf (concat (map (orphanBlock eol) app))) (cur, e)) = e"
  using assms
proof (induction app arbitrary: cur)
  case (Cons p app)
  obtain sec ls where p: "p = (sec, ls)" by fastforce
  from Cons.prems have sec: "lower sec = sec" "CHR '']'' \<notin> set sec" "\<forall>l \<in> set ls. shapeKind l \<noteq> Section"
    "sec = lower s \<longrightarrow> (\<forall>l \<in> set ls. shapeKind l \<in> {Key, CommentedKey} \<longrightarrow> \<not> sameKey (shapeKey l) k)"
    and rest: "appendedOk app" "appendedAvoids s k app"
    by (auto simp: p appendedOk_def appendedAvoids_def)
  have "scanLine s k (rawOf (plainLine Section (''['' @ sec @ '']'') eol)) (cur, e) = (sec, e)"
    using orphan_header [OF sec(2)] by (simp add: scanLine_def plainLine_def effectiveStep_def isSetting_def)
  moreover have "scanLine s k (rawOf (plainLine Blank [] eol)) (cur, e) = (cur, e)"
    by (rule scan_blank) (simp add: plainLine_def)
  moreover have "fold (scanLine s k) (map rawOf (blockLines eol ls)) (sec, e) = (sec, e)"
    using sec by (intro scan_avoids) (auto simp: sameKey_def)
  ultimately have "fold (scanLine s k) (map rawOf (orphanBlock eol p)) (cur, e) = (sec, e)"
    by (simp add: orphanBlock_def p)
  then show ?case using Cons.IH [OF rest] by simp
qed simp

lemma dominantEol_full: "list_all (\<lambda>l. fullLine (rawOf l)) doc \<Longrightarrow> dominantEol doc \<in> {[CHR 0x0A], crlf}"
  by (cases doc) (auto simp: fullLine_def crlf_def)

lemma orphans_subset: "set (orphans doc app) \<subseteq> set app"
  by (auto simp: orphans_def)

lemma block_full:
  assumes "\<forall>l \<in> set ls. oneLine l" and "eol \<in> {[CHR 0x0A], crlf}"
  shows "list_all (\<lambda>l. fullLine (rawOf l)) (blockLines eol ls)"
  using assms by (auto simp: list_all_iff blockLines_def plainLine_def fullLine_def)

lemma orphan_full:
  assumes "appendedOk app" and "eol \<in> {[CHR 0x0A], crlf}"
  shows "list_all (\<lambda>l. fullLine (rawOf l)) (concat (map (orphanBlock eol) app))"
  using assms
proof (induction app)
  case (Cons p app)
  obtain sec ls where p: "p = (sec, ls)" by fastforce
  with Cons have "list_all (\<lambda>l. fullLine (rawOf l)) (blockLines eol ls)" "oneLine sec"
    by (auto simp: appendedOk_def intro!: block_full)
  moreover have "oneLine ''[''" "oneLine '']''" by (simp_all add: is_newline_def)
  moreover have "appendedOk app" using Cons.prems by (simp add: appendedOk_def)
  ultimately show ?case
    using Cons by (auto simp: p orphanBlock_def plainLine_def fullLine_def)
qed simp

lemma emitDoc_full:
  assumes doc: "doc = parseLines [] rs" and full: "list_all fullLine rs" and ok: "replacementsOk doc st"
    and app: "appendedOk (ms_appended st)"
  shows "list_all (\<lambda>l. fullLine (rawOf l)) (emitDoc doc st)"
proof -
  have lines: "i < length rs \<Longrightarrow> fullLine (rawOf (doc ! i))" for i
    using parseLines_nth_raw [of i rs "[]"] full doc by (simp add: list_all_length)
  then have all: "list_all (\<lambda>l. fullLine (rawOf l)) doc" using doc by (simp add: list_all_length)
  note eol = dominantEol_full [OF all]
  have "i < length doc \<Longrightarrow> fullLine (rawOf (patchedLine doc e st i))" for i e
    using lines [of i] ok doc
    by (auto simp: patchedLine_def Let_def fullLine_def replacementsOk_def crlf_def split: option.splits)
  moreover have "l \<in> set (blockAfter doc (dominantEol doc) st i) \<Longrightarrow> fullLine (rawOf l)" for l i
  proof -
    assume l: "l \<in> set (blockAfter doc (dominantEol doc) st i)"
    then obtain ls where ls: "appendAfter doc (ms_appended st) i = Some ls"
      "l \<in> set (blockLines (dominantEol doc) ls)"
      by (cases "appendAfter doc (ms_appended st) i") (auto simp: blockAfter_def)
    then obtain sec where "(sec, ls) \<in> set (ms_appended st)" using appendAfter_Some by blast
    then have "\<forall>l \<in> set ls. oneLine l" using app by (fastforce simp: appendedOk_def)
    then show ?thesis using block_full [OF _ eol] ls(2) by (auto simp: list_all_iff)
  qed
  moreover have "appendedOk (orphans doc (ms_appended st))"
    using app orphans_subset by (fastforce simp: appendedOk_def)
  note orphan_full [OF this eol]
  ultimately show ?thesis
    by (auto simp: emitDoc_def Let_def list_all_iff emit_set)
qed

lemma emitDoc_blanksOk:
  assumes doc: "doc = parseLines [] rs" and ok: "replacementsOk doc st"
  shows "blanksOk (emitDoc doc st)"
proof -
  have "il_kind (doc ! i) = Blank \<Longrightarrow> trim (il_text (doc ! i)) = []" if "i < length doc" for i
    using parseLines_nth [of i rs "[]"] parseLines_nth_raw [of i rs "[]"] that doc
    by (metis classify_Blank length_parseLines)
  moreover have "il_kind (doc ! i) \<noteq> Blank" if "ms_replacements st i = Some t" for i t
    using ok that unfolding replacementsOk_def isSetting_def by force
  ultimately have "il_kind (patchedLine doc e st i) = Blank \<Longrightarrow> trim (il_text (patchedLine doc e st i)) = []"
    if "i < length doc" for i e
    using that by (cases "ms_replacements st i") (auto simp: patchedLine_def Let_def)
  moreover have "l \<in> set (blockAfter doc e st i) \<Longrightarrow> il_kind l = Comment" for l i e
    by (auto simp: blockAfter_def blockLines_def plainLine_def split: option.splits)
  moreover have "l \<in> set (orphanBlock e p) \<Longrightarrow> il_kind l = Blank \<Longrightarrow> il_text l = []" for l e p
    by (auto simp: orphanBlock_def blockLines_def plainLine_def)
  ultimately show ?thesis
    by (fastforce simp: blanksOk_def emitDoc_def Let_def list_all_iff emit_set)
qed

lemma iniParse_docText:
  assumes "list_all (\<lambda>l. fullLine (rawOf l)) doc" and "\<not> hasBom (docText doc)"
  shows "iniParse (docText doc) = parseLines [] (map rawOf doc)"
proof -
  have "docText doc = concat (map (\<lambda>(t, e). t @ e) (map rawOf doc)) @ []"
    by (simp add: docText_def comp_def)
  then have "rawLines (docText doc) = map rawOf doc"
    using rawLines_full [of "map rawOf doc" "[]"] assms(1) by (simp add: list_all_iff)
  then show ?thesis using assms(2) by (simp add: iniParse_def skipBom_def)
qed

text \<open>
  Reading a setting out of the emitted file reads it out of the new file's lines with the
  replacements in place, as long as nothing appended names that setting.
\<close>

lemma emit_effective:
  assumes doc: "doc = parseLines [] rs" and full: "list_all fullLine rs" and ok: "replacementsOk doc st"
    and app: "appendedOk (ms_appended st)" "appendedAvoids s k (ms_appended st)"
    and bom: "\<not> hasBom (docText (emitDoc doc st))"
  shows "effectiveOf (iniParse (docText (emitDoc doc st))) s k =
         effectiveOf (map (patched doc st) [0..<length doc]) s k"
proof -
  let ?eol = "dominantEol doc"
  let ?body = "fold (emitLine doc ?eol st) [0..<length doc] []"
  let ?orph = "concat (map (orphanBlock ?eol) (orphans doc (ms_appended st)))"
  have oapp: "appendedOk (orphans doc (ms_appended st))" "appendedAvoids s k (orphans doc (ms_appended st))"
    using app orphans_subset [of doc "ms_appended st"]
    by (fastforce simp: appendedOk_def, fastforce simp: appendedAvoids_def)
  have "blanksOk ?body"
    using emitDoc_blanksOk [OF doc ok] by (simp add: blanksOk_def emitDoc_def Let_def)
  moreover have "filter solid ?body = concat (map (piece doc ?eol st) [0..<length doc])"
    by (simp add: emit_solid piece_def [abs_def])
  ultimately have body: "fold (scanLine s k) (map rawOf ?body) ([], noEffective) =
      (secAt [] doc (length doc), effectiveOf (map (patched doc st) [0..<length doc]) s k)"
    using scan_pieces [OF doc ok app, of "length doc"] doc
    by (simp add: scan_filter_solid effectiveOf_def)
  have "effectiveOf (iniParse (docText (emitDoc doc st))) s k =
      snd (fold (scanLine s k) (map rawOf (emitDoc doc st)) ([], noEffective))"
    using iniParse_docText [OF emitDoc_full [OF doc full ok app(1)] bom]
    by (simp add: effectiveOf_def scan_parse)
  also have "\<dots> = effectiveOf (map (patched doc st) [0..<length doc]) s k"
    using body scan_orphans [OF oapp] by (simp add: emitDoc_def Let_def)
  finally show ?thesis .
qed

end
