(* ===== verification/IniLines.thy ===== *)
theory IniLines
  imports IniMerge
begin

text \<open>
  Facts the merge theorems share: what a lookup finds, and how the lines a merge writes read back.
\<close>

section \<open>Lookups\<close>

lemma sameKey_refl [simp]: "sameKey a a"
  by (simp add: sameKey_def)

lemma effectiveOf_same:
  "sameKey s s' \<Longrightarrow> sameKey k k' \<Longrightarrow> effectiveOf doc s k = effectiveOf doc s' k'"
proof -
  assume "sameKey s s'" "sameKey k k'"
  then have "keyMatches s k = keyMatches s' k'"
    by (auto simp: keyMatches_def sameKey_def fun_eq_iff)
  then have "effectiveStep s k = effectiveStep s' k'"
    by (auto simp: effectiveStep_def fun_eq_iff)
  then show "effectiveOf doc s k = effectiveOf doc s' k'" by (simp add: effectiveOf_def)
qed

lemma effective_fold:
  fixes s k :: string
  defines "step \<equiv> effectiveStep s k"
  shows "eff_known (fold step doc e) \<longleftrightarrow>
      eff_known e \<or> (\<exists>l \<in> set doc. isSetting l \<and> keyMatches s k l)"
    and "eff_present (fold step doc e) \<longleftrightarrow>
      eff_present e \<or> (\<exists>l \<in> set doc. il_kind l = Key \<and> keyMatches s k l)"
  unfolding step_def
  by (induction doc arbitrary: e) (auto simp: effectiveStep_def isSetting_def)

lemma effective_known:
  "eff_known (effectiveOf doc s k) \<longleftrightarrow> (\<exists>l \<in> set doc. isSetting l \<and> keyMatches s k l)"
  by (simp add: effectiveOf_def effective_fold noEffective_def)

lemma effective_present:
  "eff_present (effectiveOf doc s k) \<longleftrightarrow> (\<exists>l \<in> set doc. il_kind l = Key \<and> keyMatches s k l)"
  by (simp add: effectiveOf_def effective_fold noEffective_def)

lemma effective_value_mem:
  assumes "eff_present (effectiveOf doc s k)"
  shows "\<exists>l \<in> set doc. il_kind l = Key \<and> keyMatches s k l \<and> il_value l = eff_value (effectiveOf doc s k)"
proof -
  have "eff_present (fold (effectiveStep s k) doc e) \<Longrightarrow>
     (eff_present e \<and> eff_value e = eff_value (fold (effectiveStep s k) doc e)) \<or>
     (\<exists>l \<in> set doc. il_kind l = Key \<and> keyMatches s k l \<and> il_value l = eff_value (fold (effectiveStep s k) doc e))" for e
  proof (induction doc arbitrary: e)
    case (Cons l doc)
    have "eff_present (fold (effectiveStep s k) doc (effectiveStep s k l e))" using Cons.prems by simp
    from Cons.IH [OF this] show ?case
      by (auto simp: effectiveStep_def split: if_splits)
  qed simp
  from this [of noEffective] assms show ?thesis by (auto simp: effectiveOf_def noEffective_def)
qed

lemma effective_skip:
  "\<forall>l \<in> set doc. isSetting l \<longrightarrow> \<not> keyMatches s k l \<Longrightarrow> fold (effectiveStep s k) doc e = e"
  by (induction doc arbitrary: e) (auto simp: effectiveStep_def)

text \<open>The last live line decides.\<close>

lemma effective_last:
  assumes "i < n" and "il_kind (f i) = Key" and "keyMatches s k (f i)"
    and "\<And>j. i < j \<Longrightarrow> j < n \<Longrightarrow> isSetting (f j) \<Longrightarrow> \<not> keyMatches s k (f j)"
  shows "effectiveOf (map f [0..<n]) s k = \<lparr>eff_present = True, eff_value = il_value (f i), eff_known = True\<rparr>"
proof -
  have split: "[0..<n] = [0..<i] @ i # [Suc i..<n]"
    using assms(1) by (metis le_add_same_cancel1 less_eq_nat.simps(1) less_imp_le_nat upt_add_eq_append upt_conv_Cons add_0 le_add_diff_inverse)
  have "fold (effectiveStep s k) (map f [Suc i..<n]) e = e" for e
    by (rule effective_skip) (use assms(4) in auto)
  then show ?thesis
    using assms(2,3) by (simp add: effectiveOf_def split effectiveStep_def isSetting_def)
qed

lemma settingIndex_known: "settingIndex doc s k = None \<longleftrightarrow> \<not> eff_known (effectiveOf doc s k)"
proof
  assume "settingIndex doc s k = None"
  then show "\<not> eff_known (effectiveOf doc s k)"
    using lastIndex_None unfolding settingIndex_def effective_known by (metis (mono_tags, lifting) in_set_conv_nth)
next
  assume n: "\<not> eff_known (effectiveOf doc s k)"
  show "settingIndex doc s k = None"
  proof (rule ccontr)
    assume "settingIndex doc s k \<noteq> None"
    then obtain i where "settingIndex doc s k = Some i" by blast
    from lastIndex_Some [OF this [unfolded settingIndex_def]] n show False
      unfolding effective_known by (meson nth_mem)
  qed
qed

lemma settingIndex_Some:
  assumes "settingIndex doc s k = Some i"
  shows "i < length doc" and "isSetting (doc ! i)" and "keyMatches s k (doc ! i)"
    and "\<And>j. j < length doc \<Longrightarrow> i < j \<Longrightarrow> isSetting (doc ! j) \<Longrightarrow> \<not> keyMatches s k (doc ! j)"
  using lastIndex_Some [OF assms [unfolded settingIndex_def]] by auto

lemma liveIndex_Some:
  assumes "liveIndex doc s k = Some i"
  shows "i < length doc" and "il_kind (doc ! i) = Key" and "keyMatches s k (doc ! i)"
  using lastIndex_Some [OF assms [unfolded liveIndex_def]] by auto

lemma keyMatches_both:
  "keyMatches s k l \<Longrightarrow> keyMatches s' k' l \<Longrightarrow> sameKey s' s \<and> sameKey k' k"
  by (auto simp: keyMatches_def sameKey_def)

section \<open>The lines a merge writes\<close>

lemma parsed_line:
  assumes "doc = parseLines [] rs" and "i < length doc" and "isSetting (doc ! i)"
  shows "\<exists>sec. classify sec (il_text (doc ! i)) =
      (il_kind (doc ! i), il_key (doc ! i), il_value (doc ! i), il_section (doc ! i))"
  using parseLines_nth [of i rs "[]"] parseLines_nth_raw [of i rs "[]"] assms
  by (metis length_parseLines)

lemma rewriteAt_shape:
  assumes "doc = parseLines [] rs" and "i < length doc" and "isSetting (doc ! i)" and "valueClean v"
  shows "classify sec (rewriteAt doc i v) = (Key, il_key (doc ! i), v, sec)"
proof -
  obtain sec' where c: "classify sec' (il_text (doc ! i)) =
      (il_kind (doc ! i), il_key (doc ! i), il_value (doc ! i), il_section (doc ! i))"
    using parsed_line [OF assms(1-3)] by blast
  from assms(3) consider "il_kind (doc ! i) = Key" | "il_kind (doc ! i) = CommentedKey"
    by (auto simp: isSetting_def)
  then show ?thesis
    using c rewriteValue_Key [OF _ assms(4)] rewriteValue_CommentedKey [OF _ assms(4)]
    by cases (simp_all add: rewriteAt_def)
qed

lemma commentOut_shape:
  assumes "doc = parseLines [] rs" and "i < length doc" and "il_kind (doc ! i) = Key"
  shows "classify sec (commentOut (il_text (doc ! i))) =
    (CommentedKey, il_key (doc ! i), il_value (doc ! i), sec)"
proof -
  have "isSetting (doc ! i)" using assms(3) by (simp add: isSetting_def)
  from parsed_line [OF assms(1,2) this] show ?thesis
    using assms(3) commentOut_Key by fastforce
qed

lemma parsed_oneLine:
  assumes "doc = parseLines [] rs" and "list_all fullLine rs" and "i < length doc"
  shows "oneLine (il_text (doc ! i))"
  using parseLines_nth_raw [of i rs "[]"] assms by (simp add: list_all_length fullLine_def)

text \<open>A setting written out fresh reads back.\<close>

definition keyName :: "string \<Rightarrow> bool" where
  "keyName k \<longleftrightarrow> isKeyToken k \<and> CHR ''='' \<notin> set k"

lemma keyName_oneLine: "keyName k \<Longrightarrow> oneLine k"
  by (auto simp: keyName_def isKeyToken_def list_all_iff is_newline_def is_space_def)

lemma keyName_head:
  assumes "keyName k"
  shows "keyHead (k @ '' '')" and "trim (k @ '' '') = k"
proof -
  have blank: "\<not> is_blank c" if "c \<in> set k" for c
    using assms that by (auto simp: keyName_def isKeyToken_def list_all_iff is_blank_def is_space_def)
  have ne: "k \<noteq> []" using assms by (auto simp: keyName_def isKeyToken_def)
  have hd: "\<not> is_blank (hd k)" "\<not> is_blank (last k)" using blank ne by auto
  have sp: "list_all is_blank '' ''" by (simp add: is_blank_def)
  have "dropWhile is_blank (k @ '' '') = k @ '' ''" using ne hd(1) by (cases k) auto
  then show t: "trim (k @ '' '') = k"
    using sp hd(2) by (simp add: trim_def rtrim_append rtrim_id)
  show "keyHead (k @ '' '')"
    using t ne hd(1) assms by (simp add: keyHead_def keyName_def)
qed

lemma classify_setting:
  assumes "keyName k" and "valueClean v"
  shows "classify sec (setting k v) = (Key, k, v, sec)"
proof -
  note h = keyName_head [OF assms(1)]
  have clean: "trim v = v" "stripInlineComment v = v" "v = [] \<or> \<not> is_comment_mark (hd v)"
    using assms(2) by (auto simp: valueClean_def)
  have sp: "list_all is_blank '' ''" by (simp add: is_blank_def)
  have "trim (stripInlineComment (rtrim ('' '' @ v))) = v"
  proof (cases "v = []")
    case True
    then show ?thesis using sp by simp
  next
    case False
    then have "rtrim ('' '' @ v) = '' '' @ v" using last_trim [of v] clean(1) by (intro rtrim_id) auto
    moreover have "stripInlineComment ('' '' @ v) = '' '' @ v"
      using strip_blanks_clean [OF sp _ clean(2,3)] by simp
    moreover have "trim ('' '' @ v) = v"
      using trim_blanks_append [OF sp, of v] clean(1) by simp
    ultimately show ?thesis by (simp only:)
  qed
  then show ?thesis
    using classify_keyLine [of "[]" "k @ '' ''" sec "'' '' @ v"] h by (simp add: setting_def)
qed

lemma setting_oneLine: "keyName k \<Longrightarrow> valueClean v \<Longrightarrow> oneLine (setting k v)"
  using keyName_oneLine [of k] by (simp add: setting_def valueClean_def is_newline_def)

lemma carriedNote_mark: "\<exists>r. carriedNote b = CHR ''#'' # r \<and> CHR ''='' \<notin> set r \<and> oneLine (CHR ''#'' # r)"
  by (cases b) (simp_all add: carriedNote_def is_newline_def)

lemma carriedNote_oneLine: "oneLine (carriedNote b)"
  using carriedNote_mark [of b] by auto

lemma carriedNote_shape: "shapeKind (carriedNote b) = Comment"
proof -
  obtain r where r: "carriedNote b = CHR ''#'' # r" "CHR ''='' \<notin> set r" using carriedNote_mark by blast
  have t: "trim (carriedNote b) = CHR ''#'' # rtrim r"
    by (simp add: r trim_def is_blank_def rtrim_Cons)
  have "CHR ''='' \<notin> set (trim (dropWhile is_comment_mark (CHR ''#'' # rtrim r)))"
  proof
    assume "CHR ''='' \<in> set (trim (dropWhile is_comment_mark (CHR ''#'' # rtrim r)))"
    then have "CHR ''='' \<in> set (dropWhile is_comment_mark (CHR ''#'' # rtrim r))"
      by (rule subsetD [OF set_trim])
    then have "CHR ''='' \<in> set (CHR ''#'' # rtrim r)" by (rule set_dropWhileD)
    then have "CHR ''='' \<in> set (rtrim r)" by simp
    then show False using r(2) set_rtrim by blast
  qed
  then show ?thesis
    by (simp add: classify_def t splitKeyValue_def is_comment_mark_def Let_def)
qed

text \<open>What a parsed document guarantees of its settings.\<close>

lemma splitKeyValue_name: "splitKeyValue b = Some (k, v) \<Longrightarrow> keyName k"
proof -
  assume s: "splitKeyValue b = Some (k, v)"
  then have k: "k = trim (takeWhile (\<lambda>c. c \<noteq> CHR ''='') b)" "isKeyToken k"
    by (auto simp: splitKeyValue_def Let_def split: if_splits)
  have "CHR ''='' \<notin> set (takeWhile (\<lambda>c. c \<noteq> CHR ''='') b)" by (auto dest: set_takeWhileD)
  then show "keyName k" using k set_trim unfolding keyName_def by blast
qed

lemma classify_setting_name:
  "classify sec t = (kd, k, v, sec') \<Longrightarrow> kd = Key \<or> kd = CommentedKey \<Longrightarrow> keyName k"
  by (auto simp: classify_def Let_def split: if_splits option.splits prod.splits dest: splitKeyValue_name)

lemma classify_section:
  assumes "classify sec t = (kd, k, v, sec')" and "oneLine t" and "oneLine sec" and "CHR '']'' \<notin> set sec"
  shows "oneLine sec' \<and> CHR '']'' \<notin> set sec'"
proof -
  have "set (takeWhile (\<lambda>c. c \<noteq> CHR '']'') (tl (trim t))) \<subseteq> set t"
    by (metis list.sel(2) list.set_sel(2) set_takeWhileD set_trim subset_iff)
  then have "oneLine (takeWhile (\<lambda>c. c \<noteq> CHR '']'') (tl (trim t)))"
    using assms(2) by (rule oneLine_subset [rotated])
  moreover have "CHR '']'' \<notin> set (takeWhile (\<lambda>c. c \<noteq> CHR '']'') (tl (trim t)))"
    by (auto dest: set_takeWhileD)
  ultimately show ?thesis
    using assms by (auto simp: classify_def Let_def split: if_splits option.splits prod.splits)
qed

lemma parseLines_sections:
  assumes "list_all rawLineOk rs" and "oneLine sec" and "CHR '']'' \<notin> set sec"
  shows "\<forall>l \<in> set (parseLines sec rs). oneLine (il_section l) \<and> CHR '']'' \<notin> set (il_section l) \<and>
           (isSetting l \<longrightarrow> keyName (il_key l))"
  using assms
proof (induction rs arbitrary: sec)
  case (Cons r rs)
  obtain t e where r: "r = (t, e)" by fastforce
  obtain kd ky v sec' where c: "classify sec t = (kd, ky, v, sec')" by (metis prod_cases4)
  have "oneLine t" using Cons.prems(1) by (simp add: r rawLineOk_def)
  from classify_section [OF c this Cons.prems(2,3)] have s: "oneLine sec'" "CHR '']'' \<notin> set sec'" by auto
  with Cons.IH [OF _ s] Cons.prems(1) classify_setting_name [OF c] show ?case
    by (auto simp: r c isSetting_def)
qed simp

lemma iniParse_sections:
  "l \<in> set (iniParse t) \<Longrightarrow> oneLine (il_section l) \<and> CHR '']'' \<notin> set (il_section l) \<and>
     (isSetting l \<longrightarrow> keyName (il_key l))"
  using parseLines_sections [of "rawLines (skipBom t)" "[]"] rawLines_ok by (auto simp: iniParse_def)

end
