(* ===== verification/IniKeys.thy ===== *)
theory IniKeys
  imports IniLines
begin

text \<open>
  The keys a merge visits, and what visiting one of them leaves of every other setting.
\<close>

section \<open>Names\<close>

definition undotted :: "IniLine \<Rightarrow> bool" where
  "undotted l \<longleftrightarrow> CHR ''.'' \<notin> set (il_section l) \<and> CHR ''.'' \<notin> set (il_key l)"

lemma to_lower_eq: "to_lower c = d \<Longrightarrow> (of_char d :: nat) < 97 \<Longrightarrow> c = d"
  by (auto simp: to_lower_def Let_def split: if_splits)

lemma lower_mem: "(of_char d :: nat) < 97 \<Longrightarrow> d \<in> set (lower s) \<Longrightarrow> d \<in> set s"
  unfolding lower_def using to_lower_eq by fastforce

lemma lower_append [simp]: "lower (a @ b) = lower a @ lower b"
  by (simp add: lower_def)

lemma lower_Nil_iff [simp]: "lower s = [] \<longleftrightarrow> s = []"
  by (simp add: lower_def)

lemma lower_Nil [simp]: "lower [] = []" "[] = lower s \<longleftrightarrow> s = []"
  by (auto simp: lower_def)

lemma lower_dot [simp]: "lower ''.'' = ''.''"
  by code_simp

lemma lower_clean:
  "CHR '']'' \<notin> set s \<Longrightarrow> CHR '']'' \<notin> set (lower s)" "oneLine s \<Longrightarrow> oneLine (lower s)"
  using lower_mem [of "CHR '']''" s] lower_mem [of "CHR 0x0A" s] lower_mem [of "CHR 0x0D" s]
  by (auto simp: list_all_iff is_newline_def)

lemma split_at_dot:
  "CHR ''.'' \<notin> set a \<Longrightarrow> CHR ''.'' \<notin> set a' \<Longrightarrow> a @ ''.'' @ b = a' @ ''.'' @ b' \<Longrightarrow> a = a' \<and> b = b'"
  by (induction a arbitrary: a') (auto simp: Cons_eq_append_conv append_eq_Cons_conv split: list.splits)

lemma dotted_same:
  assumes "CHR ''.'' \<notin> set s" "CHR ''.'' \<notin> set k" "CHR ''.'' \<notin> set s'" "CHR ''.'' \<notin> set k'"
  shows "lower (dottedName s k) = lower (dottedName s' k') \<longleftrightarrow> sameKey s s' \<and> sameKey k k'"
proof -
  have n: "CHR ''.'' \<notin> set (lower x)" if "CHR ''.'' \<notin> set x" for x
    using lower_mem [of "CHR ''.''" x] that by auto
  note ns = n [OF assms(1)] n [OF assms(2)] n [OF assms(3)] n [OF assms(4)]
  have "CHR ''.'' \<in> set (lower s @ ''.'' @ lower k)" "CHR ''.'' \<in> set (lower s' @ ''.'' @ lower k')" by simp_all
  with ns have ne: "lower s @ ''.'' @ lower k \<noteq> lower k'" "lower s' @ ''.'' @ lower k' \<noteq> lower k"
    by (auto simp del: set_append)
  show ?thesis
  proof (cases "s = [] \<or> s' = []")
    case True
    then show ?thesis using ne ne [symmetric] by (auto simp: dottedName_def sameKey_def simp del: append_Cons)
  next
    case False
    then have "lower (dottedName s k) = lower (dottedName s' k') \<longleftrightarrow>
        lower s @ ''.'' @ lower k = lower s' @ ''.'' @ lower k'"
      by (simp add: dottedName_def del: append_Cons)
    also have "\<dots> \<longleftrightarrow> lower s = lower s' \<and> lower k = lower k'"
    proof
      assume "lower s @ ''.'' @ lower k = lower s' @ ''.'' @ lower k'"
      then show "lower s = lower s' \<and> lower k = lower k'" by (rule split_at_dot [OF ns(1,3)])
    qed simp
    finally show ?thesis by (simp only: sameKey_def)
  qed
qed

section \<open>The keys the merge visits\<close>

abbreviation nameOf :: "string \<times> string \<Rightarrow> string" where
  "nameOf sk \<equiv> lower (dottedName (fst sk) (snd sk))"

lemma noteKey_inv:
  assumes "set (map nameOf keys) = set seen" "distinct (map nameOf keys)"
  shows "set (map nameOf (snd (noteKey l (seen, keys)))) = set (fst (noteKey l (seen, keys))) \<and>
    distinct (map nameOf (snd (noteKey l (seen, keys))))"
  using assms by (auto simp: noteKey_def Let_def)

lemma noteKeys_inv:
  assumes "set (map nameOf keys) = set seen" "distinct (map nameOf keys)"
    and "fold noteKey ls (seen, keys) = (seen', keys')"
  shows "set (map nameOf keys') = set seen' \<and> distinct (map nameOf keys') \<and>
    set seen' = set seen \<union> (\<lambda>l. nameOf (il_section l, il_key l)) ` set ls \<and>
    set keys' \<subseteq> set keys \<union> (\<lambda>l. (il_section l, il_key l)) ` set ls"
  using assms
proof (induction ls arbitrary: seen keys)
  case (Cons l ls)
  obtain seen1 keys1 where n: "noteKey l (seen, keys) = (seen1, keys1)" by fastforce
  from noteKey_inv [OF Cons.prems(1,2), of l] n
  have i: "set (map nameOf keys1) = set seen1" "distinct (map nameOf keys1)" by auto
  have "set seen1 = insert (nameOf (il_section l, il_key l)) (set seen)"
    "set keys1 \<subseteq> insert (il_section l, il_key l) (set keys)"
    using n by (auto simp: noteKey_def Let_def split: if_splits)
  with Cons.IH [OF i] Cons.prems(3) n show ?case by auto
qed simp

lemma userKeys_facts:
  fixes userDoc :: IniDoc and base :: "IniDoc option"
  defines "lines \<equiv> {l \<in> set userDoc. isSetting l} \<union> (case base of None \<Rightarrow> {} | Some b \<Rightarrow> {l \<in> set b. isSetting l})"
  shows "distinct (map nameOf (userKeys userDoc base))"
    and "set (userKeys userDoc base) \<subseteq> (\<lambda>l. (il_section l, il_key l)) ` lines"
    and "l \<in> set userDoc \<Longrightarrow> isSetting l \<Longrightarrow> nameOf (il_section l, il_key l) \<in> nameOf ` set (userKeys userDoc base)"
proof -
  obtain s1 k1 where f1: "fold noteKey (filter isSetting userDoc) ([], []) = (s1, k1)" by fastforce
  note n1 = noteKeys_inv [OF _ _ f1]
  obtain s2 k2 where f2: "fold noteKey (filter (\<lambda>l. il_kind l = Key) (the base)) (s1, k1) = (s2, k2)" by fastforce
  note n2 = noteKeys_inv [OF _ _ f2]
  have u: "userKeys userDoc base = (if base \<noteq> None \<and> haveUser userDoc then k2 else k1)"
    using f1 f2 by (auto simp: userKeys_def Let_def split: option.splits)
  show "distinct (map nameOf (userKeys userDoc base))" using n1 n2 u by simp
  show "set (userKeys userDoc base) \<subseteq> (\<lambda>l. (il_section l, il_key l)) ` lines"
  proof -
    have k1: "set k1 \<subseteq> (\<lambda>l. (il_section l, il_key l)) ` {l \<in> set userDoc. isSetting l}"
      using n1 by auto
    have k2: "set k2 \<subseteq> set k1 \<union> (\<lambda>l. (il_section l, il_key l)) ` {l \<in> set (the base). il_kind l = Key}"
      using n1 n2 by auto
    have "{l \<in> set (the base). il_kind l = Key} \<subseteq> lines" if "base \<noteq> None"
      using that by (auto simp: lines_def isSetting_def)
    moreover have "{l \<in> set userDoc. isSetting l} \<subseteq> lines" by (auto simp: lines_def)
    ultimately show ?thesis using k1 k2 unfolding u by (auto split: if_splits) blast+
  qed
  assume "l \<in> set userDoc" "isSetting l"
  then have "nameOf (il_section l, il_key l) \<in> set s1" using n1 by auto
  moreover have "set s1 \<subseteq> set s2" "nameOf ` set k1 = set s1" "nameOf ` set k2 = set s2"
    using n1 n2 by auto
  ultimately show "nameOf (il_section l, il_key l) \<in> nameOf ` set (userKeys userDoc base)"
    using u by auto
qed

section \<open>What one key may change\<close>

lemma appendedPush_all:
  assumes "\<forall>(t, ls) \<in> set m. P t \<and> (\<forall>l \<in> set ls. Q t l)" and "P s" and "Q s x"
  shows "\<forall>(t, ls) \<in> set (appendedPush s x m). P t \<and> (\<forall>l \<in> set ls. Q t l)"
  using assms by (induction s x m rule: appendedPush.induct) auto

lemma appendedOk_push:
  "appendedOk app \<Longrightarrow> oneLine s \<Longrightarrow> CHR '']'' \<notin> set s \<Longrightarrow> oneLine x \<Longrightarrow> shapeKind x \<noteq> Section \<Longrightarrow>
   appendedOk (appendedPush (lower s) x app)"
  using appendedPush_all [of app "\<lambda>sec. lower sec = sec \<and> CHR '']'' \<notin> set sec \<and> oneLine sec"
      "\<lambda>_ l. oneLine l \<and> shapeKind l \<noteq> Section" "lower s" x] lower_clean
  unfolding appendedOk_def by (simp add: conj_assoc)

lemma appendedAvoids_push:
  assumes "appendedAvoids s k app"
    and "sameKey s' s \<Longrightarrow> shapeKind x \<in> {Key, CommentedKey} \<Longrightarrow> \<not> sameKey (shapeKey x) k"
  shows "appendedAvoids s k (appendedPush (lower s') x app)"
proof -
  have "\<forall>(t, ls) \<in> set (appendedPush (lower s') x app). True \<and> (\<forall>l \<in> set ls. t = lower s \<longrightarrow>
      shapeKind l \<in> {Key, CommentedKey} \<longrightarrow> \<not> sameKey (shapeKey l) k)"
    by (rule appendedPush_all) (use assms in \<open>auto simp: appendedAvoids_def sameKey_def\<close>)
  then show ?thesis unfolding appendedAvoids_def by fastforce
qed

text \<open>
  \<open>keepsKey doc s k st st'\<close>: what the merge promises about a step that is not about \<open>[s] k\<close>.
\<close>

definition mergeOk :: "IniDoc \<Rightarrow> MergeState \<Rightarrow> bool" where
  "mergeOk doc st \<longleftrightarrow> replacementsOk doc st \<and> appendedOk (ms_appended st)"

definition keepsKey :: "IniDoc \<Rightarrow> string \<Rightarrow> string \<Rightarrow> MergeState \<Rightarrow> MergeState \<Rightarrow> bool" where
  "keepsKey doc s k st st' \<longleftrightarrow>
     (\<forall>i. keyMatches s k (doc ! i) \<longrightarrow> ms_replacements st' i = ms_replacements st i)"

lemma mergeOk_report [simp]: "mergeOk doc (st\<lparr>ms_report := r\<rparr>) = mergeOk doc st"
  by (simp add: mergeOk_def replacementsOk_def)

lemma replace_ok:
  assumes "mergeOk doc st" "i < length doc" "isSetting (doc ! i)" "oneLine t"
    "classify [] t = (kd, il_key (doc ! i), v, [])" "kd \<in> {Key, CommentedKey}"
  shows "mergeOk doc (st\<lparr>ms_replacements := (ms_replacements st)(i \<mapsto> t), ms_report := r\<rparr>)"
    and "mergeOk doc (st\<lparr>ms_replacements := (ms_replacements st)(i \<mapsto> t)\<rparr>)"
  using assms by (auto simp: mergeOk_def replacementsOk_def)

lemma rewriteAt_ok:
  assumes "doc = parseLines [] rs" "list_all fullLine rs" "mergeOk doc st" "valueClean v"
    "settingIndex doc s k = Some i"
  shows "mergeOk doc (st\<lparr>ms_replacements := (ms_replacements st)(i \<mapsto> rewriteAt doc i v), ms_report := r\<rparr>)"
    and "mergeOk doc (st\<lparr>ms_replacements := (ms_replacements st)(i \<mapsto> rewriteAt doc i v)\<rparr>)"
proof -
  note i = settingIndex_Some [OF assms(5)]
  have "oneLine (rewriteAt doc i v)"
    using parsed_oneLine [OF assms(1,2) i(1)] assms(4)
    by (simp add: rewriteAt_def rewriteValue_oneLine valueClean_def)
  from replace_ok [OF assms(3) i(1,2) this rewriteAt_shape [OF assms(1) i(1,2) assms(4)]]
  show "mergeOk doc (st\<lparr>ms_replacements := (ms_replacements st)(i \<mapsto> rewriteAt doc i v), ms_report := r\<rparr>)"
    and "mergeOk doc (st\<lparr>ms_replacements := (ms_replacements st)(i \<mapsto> rewriteAt doc i v)\<rparr>)" by auto
qed

lemma commentOut_ok:
  assumes "doc = parseLines [] rs" "list_all fullLine rs" "mergeOk doc st" "liveIndex doc s k = Some i"
  shows "mergeOk doc (st\<lparr>ms_replacements := (ms_replacements st)(i \<mapsto> commentOut (il_text (doc ! i))), ms_report := r\<rparr>)"
proof -
  note i = liveIndex_Some [OF assms(4)]
  have "isSetting (doc ! i)" using i(2) by (simp add: isSetting_def)
  from replace_ok(1) [OF assms(3) i(1) this commentOut_oneLine [OF parsed_oneLine [OF assms(1,2) i(1)]]
      commentOut_shape [OF assms(1) i(1,2)]]
  show ?thesis by simp
qed

lemma carry_ok:
  assumes "mergeOk doc st" "oneLine s" "CHR '']'' \<notin> set s" "keyName k" "eff_present u \<Longrightarrow> valueClean (eff_value u)"
  shows "mergeOk doc (carryUnknown s k u b st)"
proof (cases "eff_present u")
  case True
  have "shapeKind (setting k (eff_value u)) = Key"
    using classify_setting [OF assms(4) assms(5) [OF True], of "[]"] by simp
  then show ?thesis
    using assms True setting_oneLine [of k "eff_value u"]
    by (auto simp: mergeOk_def replacementsOk_def carryUnknown_def Let_def carriedNote_oneLine
        carriedNote_shape intro!: appendedOk_push)
qed (use assms(1) in \<open>simp add: carryUnknown_def\<close>)

lemma mergeUnknown_ok:
  assumes "doc = parseLines [] rs" "list_all fullLine rs" "mergeOk doc st" "oneLine s" "CHR '']'' \<notin> set s"
    "keyName k" "eff_present u \<Longrightarrow> valueClean (eff_value u)"
  shows "mergeOk doc (mergeUnknown doc userDoc moved s k u b st)"
  using assms(3) carry_ok [OF assms(3-7)] rewriteAt_ok(1) [OF assms(1-3)] assms(7)
  unfolding mergeUnknown_def Let_def
  by (auto split: option.splits)

lemma mergeKnown_ok:
  assumes "doc = parseLines [] rs" "list_all fullLine rs" "mergeOk doc st" "eff_present u \<Longrightarrow> valueClean (eff_value u)"
  shows "mergeOk doc (mergeKnown doc retired s k u b n st)"
  using assms(3,4) rewriteAt_ok(1) [OF assms(1-3)] commentOut_ok [OF assms(1-3)]
  unfolding mergeKnown_def Let_def
  by (auto split: option.splits)

text \<open>One key of the loop, seen from the setting \<open>[s] k\<close> that it is not about.\<close>

lemma keepsKey_replace:
  "\<not> keyMatches s k (doc ! i) \<Longrightarrow>
   keepsKey doc s k st (st\<lparr>ms_replacements := (ms_replacements st)(i \<mapsto> t), ms_report := r\<rparr>)"
  "\<not> keyMatches s k (doc ! i) \<Longrightarrow>
   keepsKey doc s k st (st\<lparr>ms_replacements := (ms_replacements st)(i \<mapsto> t)\<rparr>)"
  by (auto simp: keepsKey_def)

lemma keepsKey_report [simp]: "keepsKey doc s k st (st\<lparr>ms_report := r\<rparr>)" "keepsKey doc s k st st"
  by (auto simp: keepsKey_def)

lemma carry_keeps [simp]: "keepsKey doc s k st (carryUnknown s' k' u b st)"
  by (simp add: keepsKey_def carryUnknown_def Let_def)

lemma mergeUnknown_keeps:
  assumes "eff_present (effectiveOf userDoc s k)"
  shows "keepsKey doc s k st (mergeUnknown doc userDoc moved s' k' u b st)"
proof -
  have "\<not> keyMatches s k (doc ! i)" if "settingIndex doc t c = Some i" "\<not> eff_present (effectiveOf userDoc t c)" for t c i
    using keyMatches_both [OF settingIndex_Some(3) [OF that(1)]] that(2) assms effectiveOf_same by metis
  then show ?thesis
    unfolding mergeUnknown_def Let_def by (auto intro: keepsKey_replace split: option.splits)
qed

lemma mergeKnown_keeps:
  assumes "\<not> (sameKey s s' \<and> sameKey k k')"
  shows "keepsKey doc s k st (mergeKnown doc retired s' k' u b n st)"
proof -
  have "\<not> keyMatches s k (doc ! i)" if "settingIndex doc s' k' = Some i \<or> liveIndex doc s' k' = Some i" for i
    using that assms keyMatches_both settingIndex_Some(3) liveIndex_Some(3) by metis
  then show ?thesis
    unfolding mergeKnown_def Let_def by (auto intro: keepsKey_replace split: option.splits)
qed

lemma mergeKey_keeps:
  assumes "eff_present (effectiveOf userDoc s k)" "\<not> (sameKey s (fst sk) \<and> sameKey k (snd sk))"
  shows "keepsKey doc s k st (mergeKey doc userDoc baseDoc moved retired F sk st)"
  using mergeUnknown_keeps [OF assms(1)] mergeKnown_keeps [of s "fst sk" k "snd sk"] assms(2)
  by (auto simp: mergeKey_def Let_def split: prod.splits)

lemma keepsKey_trans: "keepsKey doc s k a b \<Longrightarrow> keepsKey doc s k b c \<Longrightarrow> keepsKey doc s k a c"
  by (simp add: keepsKey_def)

lemma keepsKey_fold:
  assumes "\<And>x st. x \<in> set xs \<Longrightarrow> keepsKey doc s k st (f x st)"
  shows "keepsKey doc s k st (fold f xs st)"
  using assms by (induction xs arbitrary: st) (auto intro: keepsKey_trans)

text \<open>Nothing is ever appended under a name the new file knows.\<close>

lemma carry_avoids:
  assumes "appendedAvoids s k (ms_appended st)" "\<not> (sameKey s' s \<and> sameKey k' k)" "keyName k'"
    "eff_present u \<Longrightarrow> valueClean (eff_value u)"
  shows "appendedAvoids s k (ms_appended (carryUnknown s' k' u b st))"
proof (cases "eff_present u")
  case True
  have "shapeKey (setting k' (eff_value u)) = k'"
    using classify_setting [OF assms(3) assms(4) [OF True], of "[]"] by simp
  then show ?thesis
    using True assms(1,2) by (auto simp: carryUnknown_def Let_def carriedNote_shape intro!: appendedAvoids_push)
qed (use assms(1) in \<open>simp add: carryUnknown_def\<close>)

lemma mergeKey_avoids:
  assumes "eff_known (effectiveOf doc s k)" "appendedAvoids s k (ms_appended st)" "keyName (snd sk)"
    "\<And>s k. eff_present (effectiveOf userDoc s k) \<Longrightarrow> valueClean (eff_value (effectiveOf userDoc s k))"
  shows "appendedAvoids s k (ms_appended (mergeKey doc userDoc baseDoc moved retired F sk st))"
proof -
  obtain s' k' where sk: "sk = (s', k')" by fastforce
  have "appendedAvoids s k (ms_appended (carryUnknown s' k' (effectiveOf userDoc s' k') b st))"
    if "\<not> eff_known (effectiveOf doc s' k')" for b
  proof (rule carry_avoids [OF assms(2)])
    show "\<not> (sameKey s' s \<and> sameKey k' k)" using that assms(1) effectiveOf_same by metis
  qed (use assms sk in auto)
  then show ?thesis
    using assms(2) by (auto simp: sk mergeKey_def mergeUnknown_def mergeKnown_def Let_def split: option.splits)
qed

lemma mergeKey_ok:
  assumes "doc = parseLines [] rs" "list_all fullLine rs" "mergeOk doc st"
    "oneLine (fst sk)" "CHR '']'' \<notin> set (fst sk)" "keyName (snd sk)"
    "\<And>s k. eff_present (effectiveOf userDoc s k) \<Longrightarrow> valueClean (eff_value (effectiveOf userDoc s k))"
  shows "mergeOk doc (mergeKey doc userDoc baseDoc moved retired F sk st)"
  using mergeUnknown_ok [OF assms(1-6)] mergeKnown_ok [OF assms(1-3)] assms(3,7)
  by (auto simp: mergeKey_def Let_def split: prod.splits)

section \<open>The forced keys\<close>

definition forcedOk :: "string \<times> string \<Rightarrow> bool" where
  "forcedOk f \<longleftrightarrow> valueClean (snd f) \<and> keyName (snd (splitDotted (fst f))) \<and>
     oneLine (fst (splitDotted (fst f))) \<and> CHR '']'' \<notin> set (fst (splitDotted (fst f)))"

lemma forceKey_ok:
  assumes "doc = parseLines [] rs" "list_all fullLine rs" "mergeOk doc st" "forcedOk f"
  shows "mergeOk doc (forceKey doc f st)"
proof -
  obtain s k where sk: "splitDotted (fst f) = (s, k)" by fastforce
  have f: "valueClean (snd f)" "keyName k" "oneLine s" "CHR '']'' \<notin> set s"
    using assms(4) by (auto simp: forcedOk_def sk)
  have "shapeKind (setting k (snd f)) = Key" "oneLine (setting k (snd f))"
    using classify_setting [OF f(2,1), of "[]"] setting_oneLine [OF f(2,1)] by auto
  then have "mergeOk doc (st\<lparr>ms_appended := appendedPush (lower s) (setting k (snd f)) (ms_appended st)\<rparr>)"
    using assms(3) f by (auto simp: mergeOk_def replacementsOk_def intro!: appendedOk_push)
  then show ?thesis
    using rewriteAt_ok(2) [OF assms(1-3) f(1)]
    by (auto simp: forceKey_def sk Let_def split: option.splits)
qed

lemma forceKey_keeps:
  assumes "\<not> (sameKey s (fst (splitDotted (fst f))) \<and> sameKey k (snd (splitDotted (fst f))))"
  shows "keepsKey doc s k st (forceKey doc f st)"
proof -
  obtain s' k' where sk: "splitDotted (fst f) = (s', k')" by fastforce
  have "\<not> keyMatches s k (doc ! i)" if "settingIndex doc s' k' = Some i" for i
    using keyMatches_both [OF settingIndex_Some(3) [OF that]] assms sk by auto
  then show ?thesis
    by (auto simp: forceKey_def sk Let_def keepsKey_def split: option.splits)
qed

lemma forceKey_avoids:
  assumes "eff_known (effectiveOf doc s k)" "appendedAvoids s k (ms_appended st)" "forcedOk f"
  shows "appendedAvoids s k (ms_appended (forceKey doc f st))"
proof -
  obtain s' k' where sk: "splitDotted (fst f) = (s', k')" by fastforce
  have "shapeKey (setting k' (snd f)) = k'"
    using assms(3) classify_setting [of k' "snd f" "[]"] by (simp add: forcedOk_def sk)
  moreover have "\<not> (sameKey s' s \<and> sameKey k' k)" if "settingIndex doc s' k' = None"
    using that assms(1) effectiveOf_same unfolding settingIndex_known by metis
  ultimately show ?thesis
    using assms(2) by (auto simp: forceKey_def sk Let_def intro!: appendedAvoids_push split: option.splits)
qed

end
