(* ===== verification/IniMergeLaws.thy ===== *)
theory IniMergeLaws
  imports IniKeys
begin

text \<open>
  What the merged file says of a setting, in terms of the replacements the merge recorded.
\<close>

section \<open>The values a parsed file has\<close>

lemma splitKeyValue_value:
  assumes "splitKeyValue b = Some (k, v)" "oneLine b" "v = [] \<or> \<not> is_comment_mark (hd v)"
  shows "valueClean v"
proof -
  define r where "r = tl (dropWhile (\<lambda>c. c \<noteq> CHR ''='') b)"
  have v: "v = trim (stripInlineComment r)"
    using assms(1) by (auto simp: splitKeyValue_def r_def Let_def split: if_splits)
  have "set r \<subseteq> set b" unfolding r_def by (metis list.sel(2) list.set_sel(2) set_dropWhileD subsetI)
  moreover have "set (stripInlineComment r) \<subseteq> set r"
    using stripInlineComment_prefix [of r] by (metis Un_upper1 set_append)
  ultimately have "set v \<subseteq> set b" using set_trim [of "stripInlineComment r"] by (auto simp: v)
  then have "oneLine v" by (rule oneLine_subset [OF assms(2)])
  then show ?thesis using assms(3) stripInlineComment_trim [of "stripInlineComment r"]
    by (simp add: valueClean_def v)
qed

lemma classify_Key_value:
  assumes "classify sec t = (Key, k, v, sec')" "oneLine t" "v = [] \<or> \<not> is_comment_mark (hd v)"
  shows "valueClean v"
proof -
  have "splitKeyValue (trim t) = Some (k, v)"
    using assms(1) by (auto simp: classify_def Let_def split: if_splits option.splits prod.splits)
  moreover have "oneLine (trim t)" by (rule oneLine_subset [OF assms(2) set_trim])
  ultimately show ?thesis using splitKeyValue_value assms(3) by blast
qed

definition plainValue :: "IniLine \<Rightarrow> bool" where
  "plainValue l \<longleftrightarrow> il_value l = [] \<or> \<not> is_comment_mark (hd (il_value l))"

lemma parsed_value:
  assumes "l \<in> set (iniParse t)" "il_kind l = Key" "plainValue l"
  shows "valueClean (il_value l)"
proof -
  let ?rs = "rawLines (skipBom t)"
  obtain i where i: "i < length ?rs" "l = parseLines [] ?rs ! i"
    using assms(1) by (auto simp: iniParse_def in_set_conv_nth)
  have "oneLine (fst (?rs ! i))"
    using rawLines_ok [of "skipBom t"] i(1) by (auto simp: list_all_length rawLineOk_def)
  with parseLines_nth [OF i(1), of "[]"] assms(2,3) show ?thesis
    unfolding i(2) [symmetric] plainValue_def by (metis classify_Key_value)
qed

text \<open>
  The documents the merge theorems are about: a new file whose every line is terminated, a user's
  file whose live values do not begin with a comment mark, and no dot in a section or key.
\<close>

definition terminated :: "string \<Rightarrow> bool" where
  "terminated t \<longleftrightarrow> list_all fullLine (rawLines (skipBom t))"

definition plainValues :: "string \<Rightarrow> bool" where
  "plainValues t \<longleftrightarrow> list_all (\<lambda>l. il_kind l = Key \<longrightarrow> plainValue l) (iniParse t)"

definition undottedFile :: "string \<Rightarrow> bool" where
  "undottedFile t \<longleftrightarrow> list_all (\<lambda>l. isSetting l \<longrightarrow> undotted l) (iniParse t)"

lemma plainValues_clean:
  assumes "plainValues t" "eff_present (effectiveOf (iniParse t) s k)"
  shows "valueClean (eff_value (effectiveOf (iniParse t) s k))"
  using effective_value_mem [OF assms(2)] assms(1) parsed_value
  unfolding plainValues_def list_all_iff by metis

section \<open>The state of the merge\<close>

lemma mergeState_eq:
  "mergeState new user base forced =
     fold (forceKey (iniParse new)) forced
       (fold (mergeKey (iniParse new) (iniParse user) (iniParse (case base of None \<Rightarrow> new | Some b \<Rightarrow> b))
           (movedKeys (iniParse new)) (retiredDefaults (iniParse new)) (set (map (\<lambda>f. lower (fst f)) forced)))
         (userKeys (iniParse user) (map_option iniParse base))
         \<lparr>ms_replacements = Map.empty, ms_appended = [], ms_report = emptyReport\<lparr>rep_twoWay := (base = None)\<rparr>\<rparr>)"
  by (simp add: mergeState_def Let_def)

lemma userKeys_parsed:
  assumes "sk \<in> set (userKeys (iniParse user) (map_option iniParse base))"
  shows "oneLine (fst sk)" "CHR '']'' \<notin> set (fst sk)" "keyName (snd sk)"
    and "undottedFile user \<Longrightarrow> (\<And>b. base = Some b \<Longrightarrow> undottedFile b) \<Longrightarrow>
      CHR ''.'' \<notin> set (fst sk) \<and> CHR ''.'' \<notin> set (snd sk)"
proof -
  from subsetD [OF userKeys_facts(2) assms] obtain l t where
    l: "sk = (il_section l, il_key l)" "isSetting l" "l \<in> set (iniParse t)" "t = user \<or> base = Some t"
    by (auto split: option.splits)
  show "oneLine (fst sk)" "CHR '']'' \<notin> set (fst sk)" "keyName (snd sk)"
    using iniParse_sections [OF l(3)] l(1,2) by auto
  show "undottedFile user \<Longrightarrow> (\<And>b. base = Some b \<Longrightarrow> undottedFile b) \<Longrightarrow>
      CHR ''.'' \<notin> set (fst sk) \<and> CHR ''.'' \<notin> set (snd sk)"
    using l by (auto simp: undottedFile_def undotted_def list_all_iff)
qed

lemma parsed_terminated:
  "terminated new \<Longrightarrow> \<exists>rs. iniParse new = parseLines [] rs \<and> list_all fullLine rs"
  by (auto simp: terminated_def iniParse_def)

lemma mergeState_ok:
  assumes "terminated new" "plainValues user" "list_all forcedOk forced"
  shows "mergeOk (iniParse new) (mergeState new user base forced)"
proof -
  obtain rs where rs: "iniParse new = parseLines [] rs" "list_all fullLine rs"
    using parsed_terminated [OF assms(1)] by blast
  have "mergeOk (iniParse new) \<lparr>ms_replacements = Map.empty, ms_appended = [], ms_report = r\<rparr>" for r
    by (simp add: mergeOk_def replacementsOk_def appendedOk_def)
  then show ?thesis
    unfolding mergeState_eq using assms(3) plainValues_clean [OF assms(2)]
    by (intro fold_invariant [where P = "mergeOk (iniParse new)"] forceKey_ok [OF rs] mergeKey_ok [OF rs])
      (auto simp: list_all_iff dest: userKeys_parsed)
qed

lemma mergeState_avoids:
  assumes "eff_known (effectiveOf (iniParse new) s k)" "plainValues user" "list_all forcedOk forced"
  shows "appendedAvoids s k (ms_appended (mergeState new user base forced))"
proof -
  have "appendedAvoids s k []" by (simp add: appendedAvoids_def)
  then show ?thesis
    unfolding mergeState_eq using assms plainValues_clean [OF assms(2)]
    by (intro fold_invariant [where P = "\<lambda>st. appendedAvoids s k (ms_appended st)"]
        forceKey_avoids mergeKey_avoids) (auto simp: list_all_iff dest: userKeys_parsed)
qed

text \<open>What the merged file says of a setting the new file knows.\<close>

lemma merged_effective:
  assumes "terminated new" "plainValues user" "list_all forcedOk forced"
    "eff_known (effectiveOf (iniParse new) s k)" "\<not> hasBom (fst (mergeIni new user base forced))"
  shows "effectiveOf (iniParse (fst (mergeIni new user base forced))) s k =
    effectiveOf (map (patched (iniParse new) (mergeState new user base forced)) [0..<length (iniParse new)]) s k"
proof -
  obtain rs where rs: "iniParse new = parseLines [] rs" "list_all fullLine rs"
    using parsed_terminated [OF assms(1)] by blast
  show ?thesis
    using emit_effective [OF rs] mergeState_ok [OF assms(1-3), of base] mergeState_avoids [OF assms(4,2,3), of base]
      assms(5) by (simp add: mergeIni_def Let_def mergeOk_def)
qed

lemma keepsKey_effective:
  assumes "\<And>i. keyMatches s k (doc ! i) \<Longrightarrow> ms_replacements st i = None"
  shows "effectiveOf (map (patched doc st) [0..<length doc]) s k = effectiveOf doc s k"
proof -
  have "effectiveStep s k (patched doc st i) e = effectiveStep s k (doc ! i) e" for i e
    using assms [of i]
    by (cases "ms_replacements st i") (auto simp: patched_def effectiveStep_def keyMatches_def)
  then have "fold (effectiveStep s k) (map (patched doc st) is) e = fold (effectiveStep s k) (map ((!) doc) is) e" for "is" e
    by (induction "is" arbitrary: e) simp_all
  from this [of "[0..<length doc]"] show ?thesis by (simp add: effectiveOf_def map_nth)
qed

lemma replaced_effective:
  assumes doc: "doc = parseLines [] rs" and i: "settingIndex doc s k = Some i"
    and r: "ms_replacements st i = Some (rewriteAt doc i v)" and v: "valueClean v" and ok: "replacementsOk doc st"
  shows "effectiveOf (map (patched doc st) [0..<length doc]) s k = \<lparr>eff_present = True, eff_value = v, eff_known = True\<rparr>"
proof -
  note I = settingIndex_Some [OF i]
  have shape: "classify [] (rewriteAt doc i v) = (Key, il_key (doc ! i), v, [])"
    by (rule rewriteAt_shape [OF doc I(1,2) v])
  have p: "il_kind (patched doc st i) = Key" "il_value (patched doc st i) = v" "keyMatches s k (patched doc st i)"
    using I(3) by (auto simp: patched_def r shape keyMatches_def)
  have "\<not> keyMatches s k (patched doc st j)" if "i < j" "j < length doc" "isSetting (patched doc st j)" for j
  proof (cases "ms_replacements st j")
    case None
    then show ?thesis using that I(4) by (simp add: patched_def)
  next
    case (Some t)
    then have "isSetting (doc ! j)" using ok by (auto simp: replacementsOk_def)
    then show ?thesis using that I(4) Some by (simp add: patched_def keyMatches_def)
  qed
  from effective_last [where f = "patched doc st", OF I(1) p(1,3) this] p(2) show ?thesis by simp
qed

end
