(* ===== verification/IniMergeProps.thy ===== *)
theory IniMergeProps
  imports IniMergeLaws
begin

text \<open>
  The theorems of the ini editor and of the merge.
\<close>

section \<open>The editor\<close>

text \<open>
  Parsing a file and printing its lines gives back the file, byte for byte less a byte order mark,
  whatever line endings it mixes.
\<close>

theorem ini_round_trip: "docText (iniParse s) = skipBom s"
  by (rule docText_iniParse)

text \<open>
  Rewriting a live or commented-out setting leaves one live setting with the same key and the new
  value, in whatever section the line stands; commenting a setting out keeps its key and value.
\<close>

theorem rewrite_reads_back:
  assumes "classify sec line = (kind, key, old, sec)" "kind = Key \<or> kind = CommentedKey" "valueClean v"
  shows "classify sec (rewriteValue line v (kind = CommentedKey)) = (Key, key, v, sec) \<and>
    (kind = Key \<longrightarrow> classify sec (commentOut line) = (CommentedKey, key, old, sec))"
  using assms rewriteValue_Key [OF _ assms(3), of sec line key old]
    rewriteValue_CommentedKey [OF _ assms(3), of sec line key old] commentOut_Key [of sec line key old]
  by auto

theorem rewrite_reads_back_witness:
  "classify ''s'' (rewriteValue ''  ;x=1  # why'' ''2'' True) = (Key, ''x'', ''2'', ''s'') \<and>
   classify ''s'' (commentOut ''x=1'') = (CommentedKey, ''x'', ''1'', ''s'')"
proof -
  have "classify ''s'' ''  ;x=1  # why'' = (CommentedKey, ''x'', ''1'', ''s'')" "classify ''s'' ''x=1'' = (Key, ''x'', ''1'', ''s'')"
    "valueClean ''2''" by code_simp+
  then show ?thesis
    using rewrite_reads_back [of "''s''" "''  ;x=1  # why''" CommentedKey "''x''" "''1''" "''2''"]
      rewrite_reads_back [of "''s''" "''x=1''" Key "''x''" "''1''" "''2''"] by simp
qed

section \<open>The merge\<close>

definition unforced :: "(string \<times> string) list \<Rightarrow> string \<Rightarrow> string \<Rightarrow> bool" where
  "unforced forced s k \<longleftrightarrow> list_all (\<lambda>f. lower (fst f) \<noteq> lower (dottedName s k) \<and>
     \<not> (sameKey s (fst (splitDotted (fst f))) \<and> sameKey k (snd (splitDotted (fst f))))) forced"

lemma dotted_cong: "sameKey s s' \<Longrightarrow> sameKey k k' \<Longrightarrow> lower (dottedName s k) = lower (dottedName s' k')"
  using lower_Nil_iff [of s] lower_Nil_iff [of s']
  by (auto simp: sameKey_def dottedName_def lower_def simp del: lower_Nil_iff lower_append)

lemma distinct_split:
  assumes "distinct (map f xs)" "x \<in> set xs"
  shows "\<exists>a b. xs = a @ x # b \<and> (\<forall>y \<in> set a \<union> set b. f y \<noteq> f x)"
proof -
  obtain a b where "xs = a @ x # b" using assms(2) by (meson split_list)
  then show ?thesis using assms(1) by (intro exI [of _ a] exI [of _ b]) (auto simp: rev_image_eqI)
qed

lemma visited_once:
  assumes "eff_present (effectiveOf (iniParse user) s k)" "undottedFile user"
    "\<And>b. base = Some b \<Longrightarrow> undottedFile b"
  shows "\<exists>a sk b. userKeys (iniParse user) (map_option iniParse base) = a @ sk # b \<and>
    sameKey s (fst sk) \<and> sameKey k (snd sk) \<and>
    (\<forall>x \<in> set a \<union> set b. \<not> (sameKey s (fst x) \<and> sameKey k (snd x)))"
proof -
  let ?keys = "userKeys (iniParse user) (map_option iniParse base)"
  obtain l where l: "l \<in> set (iniParse user)" "isSetting l" "keyMatches s k l"
    using assms(1) by (auto simp: effective_present isSetting_def)
  from userKeys_facts(3) [OF l(1,2), of "map_option iniParse base"]
  obtain sk where sk: "sk \<in> set ?keys" "nameOf sk = nameOf (il_section l, il_key l)" by auto
  obtain a b where split: "?keys = a @ sk # b" "\<forall>x \<in> set a \<union> set b. nameOf x \<noteq> nameOf sk"
    using distinct_split [OF userKeys_facts(1) sk(1)] by blast
  have "undotted l" using assms(2) l by (auto simp: undottedFile_def list_all_iff)
  with dotted_same sk(2) userKeys_parsed(4) [OF sk(1) assms(2,3)]
  have "sameKey (fst sk) (il_section l) \<and> sameKey (snd sk) (il_key l)" by (auto simp: undotted_def)
  then have s: "sameKey s (fst sk)" "sameKey k (snd sk)"
    using l(3) by (auto simp: keyMatches_def sameKey_def)
  moreover have "\<not> (sameKey s (fst x) \<and> sameKey k (snd x))" if "x \<in> set a \<union> set b" for x
    using split(2) that dotted_cong [of "fst x" "fst sk" "snd x" "snd sk"] s by (auto simp: sameKey_def)
  ultimately show ?thesis using split(1) by blast
qed

text \<open>The one visit decides what is recorded for a setting the user has live.\<close>

lemma recorded_once:
  assumes u: "eff_present (effectiveOf (iniParse user) s k)" and n: "eff_known (effectiveOf (iniParse new) s k)"
    and "undottedFile user" "\<And>b. base = Some b \<Longrightarrow> undottedFile b" and f: "unforced forced s k"
  shows "\<exists>s' k' st. sameKey s s' \<and> sameKey k k' \<and>
    (\<forall>i. keyMatches s k (iniParse new ! i) \<longrightarrow> ms_replacements st i = None) \<and>
    keepsKey (iniParse new) s k
      (mergeKnown (iniParse new) (retiredDefaults (iniParse new)) s' k' (effectiveOf (iniParse user) s k)
         (effectiveOf (iniParse (case base of None \<Rightarrow> new | Some b \<Rightarrow> b)) s k) (effectiveOf (iniParse new) s k) st)
      (mergeState new user base forced)"
proof -
  let ?n = "iniParse new"
  let ?base = "iniParse (case base of None \<Rightarrow> new | Some b \<Rightarrow> b)"
  let ?F = "set (map (\<lambda>f. lower (fst f)) forced)"
  let ?mk = "mergeKey ?n (iniParse user) ?base (movedKeys ?n) (retiredDefaults ?n) ?F"
  let ?st0 = "\<lparr>ms_replacements = Map.empty, ms_appended = [], ms_report = emptyReport\<lparr>rep_twoWay := (base = None)\<rparr>\<rparr>"
  obtain a sk b where split: "userKeys (iniParse user) (map_option iniParse base) = a @ sk # b"
    "sameKey s (fst sk)" "sameKey k (snd sk)"
    "\<forall>x \<in> set a \<union> set b. \<not> (sameKey s (fst x) \<and> sameKey k (snd x))"
    using visited_once [OF u assms(3,4)] by blast
  have folds: "keepsKey ?n s k st (fold ?mk xs st)" if "set xs \<subseteq> set a \<union> set b" for xs st
    by (rule keepsKey_fold, rule mergeKey_keeps [OF u]) (use that split(4) in blast)
  define st where "st = fold ?mk a ?st0"
  have none: "\<forall>i. keyMatches s k (?n ! i) \<longrightarrow> ms_replacements st i = None"
    using folds [of a ?st0] by (simp add: st_def keepsKey_def)
  have eq: "effectiveOf doc (fst sk) (snd sk) = effectiveOf doc s k" for doc
    using effectiveOf_same [OF split(2,3), of doc] by simp
  have "nameOf sk \<notin> ?F"
    using f dotted_cong [OF split(2,3)] by (auto simp: unforced_def list_all_iff)
  then have visit: "?mk sk st = mergeKnown ?n (retiredDefaults ?n) (fst sk) (snd sk) (effectiveOf (iniParse user) s k)
      (effectiveOf ?base s k) (effectiveOf ?n s k) st"
    using n by (simp add: mergeKey_def eq Let_def case_prod_beta)
  have "keepsKey ?n s k (?mk sk st) (fold ?mk b (?mk sk st))" by (rule folds) simp
  moreover have "keepsKey ?n s k (fold ?mk b (?mk sk st)) (mergeState new user base forced)"
    unfolding mergeState_eq split(1)
    by (simp add: st_def keepsKey_fold forceKey_keeps f [unfolded unforced_def list_all_iff])
  ultimately have "keepsKey ?n s k (?mk sk st) (mergeState new user base forced)" by (rule keepsKey_trans)
  then show ?thesis
    using split(2,3) none unfolding visit
    by (intro exI [of _ "fst sk"] exI [of _ "snd sk"] exI [of _ st]) simp
qed

text \<open>
  C1: a setting the user has live and the new version knows, and that is not forced, survives the merge: it reads as the user's value
  when the user changed it, and as the new version's value when the user never touched it or the new version retired that
  value. The new file ends with a line break, no value of the user begins with a comment mark, no name of the user or the
  base holds a dot, forced values are clean, and the merged text does not begin with a byte order mark.
\<close>

theorem merge_keeps_or_adopts:
  assumes "terminated new" "plainValues user" "undottedFile user"
    "\<And>b. base = Some b \<Longrightarrow> undottedFile b" "list_all forcedOk forced" "unforced forced s k"
    "eff_present (effectiveOf (iniParse user) s k)" "eff_known (effectiveOf (iniParse new) s k)"
    "\<not> hasBom (fst (mergeIni new user base forced))"
  shows "effectiveOf (iniParse (fst (mergeIni new user base forced))) s k =
    (let u = effectiveOf (iniParse user) s k;
         b = effectiveOf (iniParse (case base of None \<Rightarrow> new | Some b \<Rightarrow> b)) s k
     in if isRetired (retiredDefaults (iniParse new)) (dottedName s k) u \<or> \<not> changedByUser u b
        then effectiveOf (iniParse new) s k
        else \<lparr>eff_present = True, eff_value = eff_value u, eff_known = True\<rparr>)"
proof -
  let ?n = "iniParse new" and ?st = "mergeState new user base forced"
  let ?u = "effectiveOf (iniParse user) s k"
  let ?b = "effectiveOf (iniParse (case base of None \<Rightarrow> new | Some b \<Rightarrow> b)) s k"
  obtain rs where rs: "?n = parseLines [] rs" using parsed_terminated [OF assms(1)] by blast
  obtain s' k' st where v: "sameKey s s'" "sameKey k k'"
    "\<forall>i. keyMatches s k (?n ! i) \<longrightarrow> ms_replacements st i = None"
    "keepsKey ?n s k (mergeKnown ?n (retiredDefaults ?n) s' k' ?u ?b (effectiveOf ?n s k) st) ?st"
    using recorded_once [OF assms(7,8,3,4,6)] by blast
  have dot: "lower (dottedName s' k') = lower (dottedName s k)" using dotted_cong [OF v(1,2)] by simp
  have ret: "isRetired R (dottedName s' k') ?u = isRetired R (dottedName s k) ?u" for R
    by (simp add: isRetired_def dot)
  obtain i where i: "settingIndex ?n s k = Some i" using assms(8) settingIndex_known by fastforce
  have si: "settingIndex ?n s' k' = Some i"
    using i v(1,2) by (simp add: settingIndex_def keyMatches_def [abs_def] sameKey_def)
  show ?thesis
  proof (cases "isRetired (retiredDefaults ?n) (dottedName s k) ?u \<or> \<not> changedByUser ?u ?b")
    case True
    then have "ms_replacements ?st j = None" if "keyMatches s k (?n ! j)" for j
      using v(3,4) that by (auto simp: keepsKey_def mergeKnown_def Let_def ret split: if_splits)
    from keepsKey_effective [OF this] True show ?thesis
      using merged_effective [OF assms(1,2,5,8,9)] by (simp add: Let_def)
  next
    case False
    then have "ms_replacements ?st i = Some (rewriteAt ?n i (eff_value ?u))"
      using v(4) settingIndex_Some(3) [OF i] assms(7) by (simp add: keepsKey_def mergeKnown_def Let_def ret si)
    from replaced_effective [OF rs i this plainValues_clean [OF assms(2,7)]] False show ?thesis
      using merged_effective [OF assms(1,2,5,8,9)] mergeState_ok [OF assms(1,2,5), of base]
      by (simp add: Let_def mergeOk_def)
  qed
qed

abbreviation nl :: string where "nl \<equiv> [CHR 0x0A]"

theorem merge_keeps_or_adopts_witness:
  "effectiveOf (iniParse (fst (mergeIni (''[a]'' @ nl @ ''x = 1'' @ nl) (''[A]'' @ nl @ ''X=2'') (Some (''[a]'' @ nl @ ''x = 1'' @ nl)) [])))
     ''a'' ''x'' = \<lparr>eff_present = True, eff_value = ''2'', eff_known = True\<rparr>"
proof -
  have "effectiveOf (iniParse (''[A]'' @ nl @ ''X=2'')) ''a'' ''x'' = \<lparr>eff_present = True, eff_value = ''2'', eff_known = True\<rparr>"
    by code_simp
  moreover have "effectiveOf (iniParse (''[a]'' @ nl @ ''x = 1'' @ nl)) ''a'' ''x'' = \<lparr>eff_present = True, eff_value = ''1'', eff_known = True\<rparr>"
    by code_simp
  moreover have "terminated (''[a]'' @ nl @ ''x = 1'' @ nl)" by code_simp
  moreover have "plainValues (''[A]'' @ nl @ ''X=2'')"  by code_simp
  moreover have "undottedFile (''[A]'' @ nl @ ''X=2'')"  by code_simp
  moreover have "undottedFile (''[a]'' @ nl @ ''x = 1'' @ nl)"  by code_simp
  moreover have "isRetired (retiredDefaults (iniParse (''[a]'' @ nl @ ''x = 1'' @ nl))) (dottedName ''a'' ''x'') 
   \<lparr>eff_present = True, eff_value = ''2'', eff_known = True\<rparr> = False"  by code_simp
  moreover have "\<not> hasBom (fst (mergeIni (''[a]'' @ nl @ ''x = 1'' @ nl) (''[A]'' @ nl @ ''X=2'') (Some (''[a]'' @ nl @ ''x = 1'' @ nl)) []))"
    by code_simp
  ultimately show ?thesis
    using merge_keeps_or_adopts [of "''[a]'' @ nl @ ''x = 1'' @ nl" "''[A]'' @ nl @ ''X=2''" "Some (''[a]'' @ nl @ ''x = 1'' @ nl)" "[]" "''a''" "''x''"]
    by (simp add: changedByUser_def unforced_def)
qed

section \<open>Forced keys\<close>

text \<open>
  A forced key that the new file knows reads back as the value the installer forced (the last one
  given for that key), whatever the user file and the base say.
\<close>

theorem merge_forces:
  assumes "terminated new" "plainValues user" "list_all forcedOk forced"
    "forced = pre @ (name, v) # post"
    "list_all (\<lambda>f. \<not> (sameKey (fst (splitDotted name)) (fst (splitDotted (fst f))) \<and>
        sameKey (snd (splitDotted name)) (snd (splitDotted (fst f))))) post"
    "eff_known (effectiveOf (iniParse new) (fst (splitDotted name)) (snd (splitDotted name)))"
    "\<not> hasBom (fst (mergeIni new user base forced))"
  shows "iniValue (fst (mergeIni new user base forced)) name fallback = v"
proof -
  obtain s k where sk: "splitDotted name = (s, k)" by fastforce
  let ?n = "iniParse new" and ?st = "mergeState new user base forced"
  obtain rs where rs: "?n = parseLines [] rs" using parsed_terminated [OF assms(1)] by blast
  obtain i where i: "settingIndex ?n s k = Some i" using assms(6) settingIndex_known sk by fastforce
  have v: "valueClean v" using assms(3,4) by (simp add: forcedOk_def)
  obtain st where st: "?st = fold (forceKey ?n) post (forceKey ?n (name, v) st)"
    unfolding mergeState_eq assms(4) by simp
  have "keepsKey ?n s k (forceKey ?n (name, v) st) ?st"
    unfolding st using assms(5) sk by (intro keepsKey_fold forceKey_keeps) (simp add: list_all_iff)
  then have "ms_replacements ?st i = Some (rewriteAt ?n i v)"
    using settingIndex_Some(3) [OF i] by (simp add: keepsKey_def forceKey_def sk i Let_def)
  from replaced_effective [OF rs i this v] show ?thesis
    using merged_effective [OF assms(1-3) _ assms(7), of s k] assms(6) mergeState_ok [OF assms(1-3), of base]
    by (simp add: sk iniValue_def mergeOk_def)
qed

theorem merge_forces_witness:
  "iniValue (fst (mergeIni (''[a]'' @ nl @ ''# x = 1'' @ nl) ''x = 9'' None [(''a.x'', ''2'')])) ''A.X'' [] = ''2'' \<and>
   iniValue (fst (mergeIni (''[a]'' @ nl @ ''# x = 1'' @ nl) ''x = 9'' None [(''a.x'', ''2'')])) ''a.x'' [] = ''2''"
proof -
  have "terminated (''[a]'' @ nl @ ''# x = 1'' @ nl)" "plainValues ''x = 9''" "forcedOk (''a.x'', ''2'')"
    "eff_known (effectiveOf (iniParse (''[a]'' @ nl @ ''# x = 1'' @ nl)) (fst (splitDotted ''a.x'')) (snd (splitDotted ''a.x'')))"
    "\<not> hasBom (fst (mergeIni (''[a]'' @ nl @ ''# x = 1'' @ nl) ''x = 9'' None [(''a.x'', ''2'')]))"
    by code_simp+
  then have "iniValue (fst (mergeIni (''[a]'' @ nl @ ''# x = 1'' @ nl) ''x = 9'' None [(''a.x'', ''2'')])) ''a.x'' [] = ''2''"
    using merge_forces [of "''[a]'' @ nl @ ''# x = 1'' @ nl" "''x = 9''" "[(''a.x'', ''2'')]" "[]" "''a.x''" "''2''" "[]" None]
    by simp
  moreover have "iniValue (fst (mergeIni (''[a]'' @ nl @ ''# x = 1'' @ nl) ''x = 9'' None [(''a.x'', ''2'')])) ''A.X'' [] = ''2''"
    by code_simp
  ultimately show ?thesis by blast
qed

section \<open>Installs that change nothing\<close>

lemma emitDoc_id:
  assumes "ms_replacements st = Map.empty" "ms_appended st = []"
  shows "emitDoc doc st = doc"
proof -
  have "emitLine doc eol st i out = out @ [doc ! i]" for eol i out
    using assms by (simp add: emitLine_def patchedLine_def appendAfter_def)
  then have "fold (emitLine doc eol st) is out = out @ map ((!) doc) is" for eol "is" out
    by (induction "is" arbitrary: out) simp_all
  then show ?thesis using assms by (simp add: emitDoc_def orphans_def map_nth Let_def)
qed

text \<open>
  With no user setting to carry and nothing forced, the merged file is the new file, byte for byte
  less a byte order mark.
\<close>

theorem merge_without_user_settings:
  assumes "\<not> haveUser (iniParse user)"
  shows "fst (mergeIni new user base []) = skipBom new"
proof -
  have "userKeys (iniParse user) b = []" for b
    using assms by (auto simp: userKeys_def haveUser_def list_ex_iff Let_def filter_empty_conv split: option.splits)
  then show ?thesis
    by (simp add: mergeIni_def mergeState_eq emitDoc_id docText_iniParse Let_def)
qed

theorem merge_without_user_settings_witness:
  "\<not> haveUser (iniParse ''only a remark'') \<and> fst (mergeIni ''a = 1'' ''only a remark'' None []) = ''a = 1''"
proof -
  have "\<not> haveUser (iniParse ''only a remark'')" "skipBom ''a = 1'' = ''a = 1''" by code_simp+
  then show ?thesis using merge_without_user_settings [of "''only a remark''" "''a = 1''" None] by simp
qed

lemma self_merge_idle:
  assumes "base = None \<or> base = Some new"
    "st = fold (mergeKey (iniParse new) (iniParse new) (iniParse new) moved retired F) (userKeys (iniParse new) (map_option iniParse base))
    \<lparr>ms_replacements = Map.empty, ms_appended = [], ms_report = r\<rparr>"
  shows "ms_replacements st = Map.empty \<and> ms_appended st = []"
proof -
  let ?n = "iniParse new" and ?inv = "\<lambda>st. ms_replacements st = Map.empty \<and> ms_appended st = []"
  have "?inv (mergeKey ?n ?n ?n moved retired F sk st)"
    if "sk \<in> set (userKeys ?n (map_option iniParse base))" "?inv st" for sk st
  proof -
    from subsetD [OF userKeys_facts(2) that(1)] assms(1) obtain l where
      "l \<in> set ?n" "isSetting l" "sk = (il_section l, il_key l)" by (auto split: option.splits)
    then have "eff_known (effectiveOf ?n (fst sk) (snd sk))"
      by (auto simp: effective_known keyMatches_def)
    then show ?thesis
      using that(2) by (simp add: mergeKey_def mergeKnown_def changedByUser_def Let_def case_prod_beta)
  qed
  then show ?thesis unfolding assms(2) by (rule fold_invariant [where P = ?inv]) auto
qed

text \<open>
  Merging a file with itself, with or without a base, changes nothing: the output is the new file
  byte for byte less a byte order mark.
\<close>

theorem merge_same_version:
  "fst (mergeIni new new (if twoWay then None else Some new) []) = skipBom new"
  using self_merge_idle [of None new, OF _ refl] self_merge_idle [of "Some new" new, OF _ refl]
  by (cases twoWay) (simp_all add: mergeIni_def mergeState_eq emitDoc_id docText_iniParse Let_def)

section \<open>Where the editor does not round trip\<close>

text \<open>
  C39: a value that begins with a comment mark is lost by every rewrite, although such a value can be read: whatever live or
  commented-out setting line is rewritten to hold it, and whatever follows the mark, the line then reads as the empty value,
  because the rewrite puts a blank after the equals sign. The merge and the settings window write through this function.
\<close>

theorem marked_value_is_lost:
  assumes "classify sec line = (kind, key, old, sec)" "kind = Key \<or> kind = CommentedKey" "is_comment_mark m"
  shows "classify sec (rewriteValue line (m # w) (kind = CommentedKey)) = (Key, key, [], sec)"
  using assms(1,2) rewriteValue_live [of sec line key old sec "m # w" "[]" sec]
    rewriteValue_commented [of sec line key old sec "m # w" "[]" sec] rewriteTail_marked [OF assms(3), of _ _ w]
  by auto

theorem marked_value_is_lost_witness:
  "classify [] ''colour=#ff'' = (Key, ''colour'', ''#ff'', []) \<and>
   classify [] (rewriteValue ''colour = red'' ''#ff'' False) = (Key, ''colour'', [], [])"
proof -
  have "classify [] ''colour = red'' = (Key, ''colour'', ''red'', [])" "classify [] ''colour=#ff'' = (Key, ''colour'', ''#ff'', [])"
    by code_simp+
  then show ?thesis using marked_value_is_lost [of "[]" "''colour = red''" Key "''colour''" "''red''" "CHR ''#''" "''ff''"]
    by (simp add: is_comment_mark_def)
qed

text \<open>The merge of such a value, on an example.\<close>

theorem hash_value_is_lost:
  "effectiveOf (iniParse ''colour=#ff'') [] ''colour'' = \<lparr>eff_present = True, eff_value = ''#ff'', eff_known = True\<rparr> \<and>
   effectiveOf (iniParse (fst (mergeIni (''colour = red'' @ nl) ''colour=#ff'' None []))) [] ''colour'' =
     \<lparr>eff_present = True, eff_value = [], eff_known = True\<rparr>"
  by (rule conjI; code_simp)

text \<open>
  Lines appended after a last line that has no terminator are glued to that line.
\<close>

theorem unterminated_line_is_glued:
  "fst (mergeIni ''x = 1'' ''y = 2'' None []) =
     ''x = 1# carried over from your edvr.ini; not an EDVR setting this version knows'' @ crlf @ ''y = 2'' @ crlf"
  by code_simp

end
