(* ===== verification/GameConfig.thy ===== *)
theory GameConfig
  imports IniMergeLaws
begin

text \<open>
  The run-time reader of \<^verbatim>\<open>edvr.ini\<close>, \<^verbatim>\<open>src/common/config.cpp\<close>: choosing the file and the log
  directory, the swap-on-success parse, the audit of moved and unread keys, and the getters. The file,
  the environment and the UTF-8 conversion are arguments. \<^verbatim>\<open>getFloat\<close> is not modelled.
\<close>

section \<open>Where the file and the logs are\<close>

definition maxPath :: nat where
  "maxPath = 260"

definition moduleDirectory :: "string \<Rightarrow> string" where
  "moduleDirectory s =
     (if s = [] \<or> maxPath \<le> length s then ''.''
      else if list_all (\<lambda>c. c \<noteq> CHR 0x5C \<and> c \<noteq> CHR ''/'') s then ''.''
      else rev (tl (dropWhile (\<lambda>c. c \<noteq> CHR 0x5C \<and> c \<noteq> CHR ''/'') (rev s))))"

definition environmentValue :: "string option \<Rightarrow> string" where
  "environmentValue v =
     (case v of None \<Rightarrow> [] | Some s \<Rightarrow> if s \<noteq> [] \<and> length s < maxPath then s else [])"

definition defaultLogDirectory :: "string \<Rightarrow> string option \<Rightarrow> string option \<Rightarrow> string" where
  "defaultLogDirectory exeDir logDirVar logDirFor =
     (let moved = environmentValue logDirVar; only = environmentValue logDirFor in
      if moved = [] then exeDir @ [CHR 0x5C] @ ''edvr_logs''
      else if only \<noteq> [] \<and> lower only \<noteq> lower exeDir then exeDir @ [CHR 0x5C] @ ''edvr_logs''
      else moved)"

definition configPath :: "(string \<Rightarrow> bool) \<Rightarrow> string \<Rightarrow> string \<Rightarrow> string" where
  "configPath exists moduleDir exeDir =
     (let a = moduleDir @ [CHR 0x5C] @ ''edvr.ini''; b = exeDir @ [CHR 0x5C] @ ''edvr.ini'' in
      if exists a then a else if exists b then b else a)"

section \<open>State\<close>

record Config =
  cf_values :: "string smap"
  cf_pending :: "string list"
  cf_noted :: "string set"
  cf_lastWrite :: nat
  cf_logOpen :: bool
  cf_log :: "string list"

record AuditTables =
  at_known :: "string list"
  at_moved :: "(string \<times> string \<times> string) list"

section \<open>The file\<close>

function configLines :: "string \<Rightarrow> string list" where
  "configLines s =
     (if s = [] then []
      else lineText s # configLines (dropWhile is_newline (lineRest s)))"
  by pat_completeness auto
termination
proof (relation "measure length", simp)
  fix s :: string assume s: "s \<noteq> []"
  have "length (dropWhile is_newline (lineRest s)) \<le> length (lineRest s)" by (rule length_dropWhile_le)
  moreover have "length (lineText s) + length (lineRest s) = length s"
    by (metis length_append lineText_lineRest)
  moreover have "lineText s = [] \<Longrightarrow> length (dropWhile is_newline (lineRest s)) < length s"
    using s by (cases s) (auto simp: lineText_def lineRest_def less_Suc_eq_le length_dropWhile_le split: if_splits)
  ultimately show "(dropWhile is_newline (lineRest s), s) \<in> measure length"
    by (cases "lineText s") auto
qed

declare configLines.simps [simp del]

definition configLine :: "string \<Rightarrow> string \<times> string smap \<Rightarrow> string \<times> string smap" where
  "configLine raw st = (case st of (section, parsed) \<Rightarrow>
     let line = dropWhile is_blank raw in
     if line = [] \<or> is_comment_mark (hd line) then (section, parsed)
     else if hd line = CHR ''['' then
       (if CHR '']'' \<in> set line then (takeWhile (\<lambda>c. c \<noteq> CHR '']'') (tl line), parsed)
        else (section, parsed))
     else if CHR ''='' \<notin> set line then (section, parsed)
     else
       let key = trim (takeWhile (\<lambda>c. c \<noteq> CHR ''='') line);
           val = trim (stripInlineComment (tl (dropWhile (\<lambda>c. c \<noteq> CHR ''='') line)))
       in if key = [] then (section, parsed)
          else (section, smapPut (lower (dottedName section key)) val parsed))"

definition configText :: "string \<Rightarrow> string smap" where
  "configText t = snd (fold configLine (configLines (skipBom t)) ([], []))"

section \<open>The audit\<close>

definition noteOnce :: "string \<Rightarrow> string \<Rightarrow> Config \<Rightarrow> Config" where
  "noteOnce tag msg c =
     (if tag \<in> cf_noted c then c
      else c\<lparr>cf_noted := insert tag (cf_noted c), cf_pending := cf_pending c @ [msg]\<rparr>)"

definition staleMessage :: "string \<Rightarrow> string \<Rightarrow> string \<Rightarrow> string" where
  "staleMessage oldK newK v =
     ''edvr.ini: '' @ oldK @ '' has moved to '' @ newK @
     '', and your line still carries the retired default ('' @ v @ ''), so it is ignored and '' @ newK @
     [CHR 0x27] @ ''s own default applies. The installer'' @ [CHR 0x27] @ ''s update tidies the file.''"

definition movedMessage :: "string \<Rightarrow> string \<Rightarrow> string \<Rightarrow> string" where
  "movedMessage oldK newK v =
     ''edvr.ini: '' @ oldK @ '' has moved to '' @ newK @ '' -- your value ('' @ v @
     '') is being read from the old line this session. The installer'' @ [CHR 0x27] @
     ''s update migrates the file, or move the line yourself.''"

definition bothMessage :: "string \<Rightarrow> string \<Rightarrow> string \<Rightarrow> string" where
  "bothMessage oldK newK v =
     ''edvr.ini: both '' @ oldK @ '' and '' @ newK @
     '' are set, with different values. The new name wins ('' @ v @ ''); delete the old line.''"

text \<open>One entry of the moved table, over the parsed map and the keys synthesized so far.\<close>

definition auditMove ::
  "string \<times> string \<times> string \<Rightarrow> string smap \<times> string list \<times> Config \<Rightarrow> string smap \<times> string list \<times> Config" where
  "auditMove entry st =
     (case entry of (oldK, newK, oldDefault) \<Rightarrow> case st of (parsed, synthesized, c) \<Rightarrow>
      case map_of parsed oldK of
        None \<Rightarrow> st
      | Some old \<Rightarrow>
          let staleDefault = (oldDefault \<noteq> [] \<and> old = oldDefault) in
          (case map_of parsed newK of
             None \<Rightarrow>
               (if staleDefault
                then (parsed, synthesized, noteOnce (''mv:'' @ oldK) (staleMessage oldK newK old) c)
                else (smapPut newK old parsed, newK # synthesized,
                      noteOnce (''mv:'' @ oldK) (movedMessage oldK newK old) c))
           | Some new \<Rightarrow>
               (if staleDefault then st
                else if new \<noteq> old \<and> newK \<notin> set synthesized
                then (parsed, synthesized, noteOnce (''mv2:'' @ oldK) (bothMessage oldK newK new) c)
                else st)))"

text \<open>The unread keys, in map order: the text so far, how many were shown and counted, what was noted.\<close>

record DeadKeys =
  dk_text :: string
  dk_count :: nat
  dk_shown :: nat

definition auditDead ::
  "string list \<Rightarrow> string list \<Rightarrow> string \<times> string \<Rightarrow> DeadKeys \<times> string set \<Rightarrow> DeadKeys \<times> string set" where
  "auditDead known movedOld kv st =
     (case st of (d, noted) \<Rightarrow>
      if fst kv \<in> set known \<or> fst kv \<in> set movedOld then st
      else if ''uk:'' @ fst kv \<in> noted then st
      else
        (let d' = (if length (dk_text d) < 900
                   then d\<lparr>dk_text := dk_text d @ (if 0 < dk_shown d then '', '' else []) @ fst kv,
                          dk_shown := Suc (dk_shown d)\<rparr>
                   else d)
         in (d'\<lparr>dk_count := Suc (dk_count d')\<rparr>, insert (''uk:'' @ fst kv) noted)))"

definition deadMessage :: "DeadKeys \<Rightarrow> string" where
  "deadMessage d =
     ''edvr.ini: '' @ showNat (dk_count d) @ '' line(s) name settings this build does not read: '' @
     dk_text d @ (if dk_shown d < dk_count d then '', ...'' else []) @
     ''. A typo or a retired setting -- those lines do nothing.''"

definition auditResolve ::
  "AuditTables option \<Rightarrow> string smap \<times> Config \<Rightarrow> string smap \<times> Config" where
  "auditResolve tables st =
     (case tables of
        None \<Rightarrow> st
      | Some t \<Rightarrow>
          (case fold auditMove (at_moved t) (fst st, [], snd st) of (parsed, _, c) \<Rightarrow>
           case fold (auditDead (at_known t) (map fst (at_moved t))) parsed
                  (\<lparr>dk_text = [], dk_count = 0, dk_shown = 0\<rparr>, cf_noted c) of (d, noted) \<Rightarrow>
             (parsed, c\<lparr>cf_noted := noted,
                        cf_pending := cf_pending c @ (if 0 < dk_count d then [deadMessage d] else [])\<rparr>)))"

definition auditFlush :: "Config \<Rightarrow> Config" where
  "auditFlush c =
     (if cf_pending c = [] \<or> \<not> cf_logOpen c then c
      else c\<lparr>cf_log := cf_log c @ cf_pending c, cf_pending := []\<rparr>)"

section \<open>Reading the file\<close>

text \<open>
  What the file system answers: no handle, a size that is refused, a failed or short read, or the
  whole text with its write time when that could be read too.
\<close>

datatype FileAnswer = NoFile | BadSize | ReadFailed | FileText string "nat option"

definition configParse :: "AuditTables option \<Rightarrow> FileAnswer \<Rightarrow> Config \<Rightarrow> Config" where
  "configParse tables ans c =
     (case ans of
        NoFile \<Rightarrow> c
      | BadSize \<Rightarrow> c
      | ReadFailed \<Rightarrow> c
      | FileText t stamp \<Rightarrow>
          if (1048576 :: int) < int (length t) then c
          else
            (case auditResolve tables (configText t, c) of (parsed, c1) \<Rightarrow>
               auditFlush (c1\<lparr>cf_values := parsed,
                              cf_lastWrite := (case stamp of None \<Rightarrow> cf_lastWrite c1 | Some w \<Rightarrow> w)\<rparr>)))"

definition reloadIfChanged :: "AuditTables option \<Rightarrow> nat option \<Rightarrow> FileAnswer \<Rightarrow> Config \<Rightarrow> bool \<times> Config" where
  "reloadIfChanged tables writeTime ans c =
     (case writeTime of
        None \<Rightarrow> (False, c)
      | Some w \<Rightarrow> if w = cf_lastWrite c then (False, c) else (True, configParse tables ans c))"

section \<open>The getters\<close>

definition logNote :: "string \<Rightarrow> Config \<Rightarrow> Config" where
  "logNote msg c = (if cf_logOpen c then c\<lparr>cf_log := cf_log c @ [msg]\<rparr> else c)"

definition getString :: "string \<Rightarrow> string \<Rightarrow> Config \<Rightarrow> string \<times> Config" where
  "getString key def c =
     (let c1 = auditFlush c in
      case map_of (cf_values c1) key of Some v \<Rightarrow> (v, c1) | None \<Rightarrow> (def, c1))"

definition getBool :: "string \<Rightarrow> bool \<Rightarrow> Config \<Rightarrow> bool \<times> Config" where
  "getBool key def c =
     (case getString key [] c of (v0, c1) \<Rightarrow>
        if v0 = [] then (def, c1)
        else
          let v = lower v0 in
          if v \<in> {''1'', ''true'', ''yes'', ''on''} then (True, c1)
          else if v \<in> {''0'', ''false'', ''no'', ''off''} then (False, c1)
          else (def, logNote (''edvr.ini: '' @ key @ '' = '' @ [CHR 0x22] @ v @ [CHR 0x22] @
             '' is not a yes/no value, so the default ('' @ (if def then ''on'' else ''off'') @
             '') is being used. Write 1/0, true/false, yes/no or on/off.'') c1))"

definition configSet :: "string \<Rightarrow> string \<Rightarrow> Config \<Rightarrow> Config" where
  "configSet key val c = c\<lparr>cf_values := smapPut (lower key) val (cf_values c)\<rparr>"

text \<open>\<^verbatim>\<open>strtol\<close> with base 0, over the text up to a terminating NUL, with a 32-bit \<^verbatim>\<open>long\<close>.\<close>

definition digitVal :: "char \<Rightarrow> nat" where
  "digitVal c = (let n = (of_char c :: nat) in
     if 48 \<le> n \<and> n \<le> 57 then n - 48
     else if 65 \<le> n \<and> n \<le> 90 then n - 55
     else if 97 \<le> n \<and> n \<le> 122 then n - 87
     else 36)"

definition cstr :: "string \<Rightarrow> string" where
  "cstr s = takeWhile (\<lambda>c. c \<noteq> CHR 0x00) s"

definition digitsValue :: "nat \<Rightarrow> string \<Rightarrow> nat" where
  "digitsValue b ds = fold (\<lambda>c n. n * b + digitVal c) ds 0"

definition longRange :: "int \<Rightarrow> int" where
  "longRange i = max (- (2 ^ 31)) (min (2 ^ 31 - 1) i)"

definition strtolBase :: "string \<Rightarrow> nat \<times> string" where
  "strtolBase s =
     (if take 2 (map to_lower s) = ''0x'' \<and> length s > 2 \<and> digitVal (s ! 2) < 16 then (16, drop 2 s)
      else if take 1 s = ''0'' then (8, s)
      else (10, s))"

text \<open>The value and the text that was not used; the whole text when there were no digits.\<close>

definition strtol :: "string \<Rightarrow> int \<times> string" where
  "strtol s =
     (let t = dropWhile is_space s;
          neg = (take 1 t = ''-'');
          body = (if neg \<or> take 1 t = ''+'' then tl t else t)
      in case strtolBase body of (b, ds) \<Rightarrow>
           let used = takeWhile (\<lambda>c. digitVal c < b) ds in
           if used = [] then (0, s)
           else (longRange ((if neg then - 1 else 1) * int (digitsValue b used)), dropWhile (\<lambda>c. digitVal c < b) ds))"

definition wholeValueParsed :: "string \<Rightarrow> string \<Rightarrow> bool" where
  "wholeValueParsed s rest \<longleftrightarrow> rest \<noteq> s \<and> dropWhile is_blank rest = []"

definition getInt :: "string \<Rightarrow> int \<Rightarrow> Config \<Rightarrow> int \<times> Config" where
  "getInt key def c =
     (case getString key [] c of (v, c1) \<Rightarrow>
        if v = [] then (def, c1)
        else case strtol (cstr v) of (raw, rest) \<Rightarrow>
          if \<not> wholeValueParsed (cstr v) rest
          then (def, logNote (key @ '' = '' @ [CHR 0x22] @ cstr v @ [CHR 0x22] @ '' is not a plain number; using '' @
             showInt def @ ''. Everything after the digits was ignored before this, which made a typo read as a deliberate setting.'') c1)
          else (raw, c1))"

definition getIntInRange :: "string \<Rightarrow> int \<Rightarrow> int \<Rightarrow> int \<Rightarrow> Config \<Rightarrow> int \<times> Config" where
  "getIntInRange key def lo hi c =
     (case getString key [] c of (v, c1) \<Rightarrow>
        if v = [] then (def, c1)
        else case strtol (cstr v) of (raw, rest) \<Rightarrow>
          if \<not> wholeValueParsed (cstr v) rest
          then (def, logNote (key @ '' = '' @ [CHR 0x22] @ cstr v @ [CHR 0x22] @ '' is not a number; using '' @
             showInt def @ ''.'') c1)
          else if raw < lo \<or> hi < raw then
            (let clamped = (if raw < lo then lo else hi) in
             (clamped, logNote (key @ '' = '' @ showInt raw @ '' is outside '' @ showInt lo @ ''..'' @ showInt hi @
               '', so '' @ showInt clamped @ '' is being used.'') c1))
          else (raw, c1))"

end
