(* ===== verification/GameConfigProps.thy ===== *)
theory GameConfigProps
  imports GameConfig IniMergeProps
begin

text \<open>
  The reader against the editor, and the properties of the audit and the getters.
\<close>

section \<open>The reader agrees with the editor\<close>

lemma lineText_Cons: "lineText (c # s) = (if is_newline c then [] else c # lineText s)"
  "lineRest (c # s) = (if is_newline c then c # s else lineRest s)"
  by (auto simp: lineText_def lineRest_def)

lemma configLine_Nil [simp]: "configLine [] st = st"
  by (simp add: configLine_def split: prod.splits)

lemma rawLines_Cons: "s \<noteq> [] \<Longrightarrow> rawLines s =
    (lineText s, takeEol (lineRest s)) # rawLines (drop (length (takeEol (lineRest s))) (lineRest s))"
  by (subst rawLines.simps) (simp add: Let_def)

text \<open>Any run of newline characters adds only empty lines.\<close>

lemma fold_newlines:
  assumes "\<And>st. f [] st = st"
  shows "fold f (map fst (rawLines s)) st = fold f (map fst (rawLines (dropWhile is_newline s))) st"
proof (induction s arbitrary: st rule: length_induct)
  case (1 s)
  show ?case
  proof (cases s)
    case (Cons c r)
    show ?thesis
    proof (cases "is_newline c")
      case True
      let ?r = "drop (length (takeEol (c # r))) (c # r)"
      have l: "lineText s = []" "lineRest s = c # r" using True by (auto simp: Cons lineText_Cons)
      have "length ?r < length s" using takeEol_nonempty [OF True, of r] by (simp add: Cons)
      moreover have "dropWhile is_newline ?r = dropWhile is_newline s"
        using True by (auto simp: Cons takeEol_def is_newline_def split: list.splits)
      moreover have "rawLines s = ([], takeEol (c # r)) # rawLines ?r"
        using rawLines_Cons [of s] l Cons by simp
      ultimately show ?thesis using 1 assms by simp
    qed (simp add: Cons)
  qed simp
qed

lemma configLines_rawLines:
  assumes "\<And>st. f [] st = st"
  shows "fold f (configLines s) st = fold f (map fst (rawLines s)) st"
proof (induction s arbitrary: st rule: length_induct)
  case (1 s)
  show ?case
  proof (cases "s = []")
    case False
    let ?r = "drop (length (takeEol (lineRest s))) (lineRest s)"
    have d: "dropWhile is_newline ?r = dropWhile is_newline (lineRest s)"
    proof (cases "lineRest s")
      case (Cons c r)
      then have "is_newline c" by (metis lineRest_def dropWhile_hd not_Cons_self2 list.sel(1))
      then show ?thesis by (auto simp: Cons takeEol_def is_newline_def split: list.splits)
    qed (simp add: takeEol_def)
    have "length (dropWhile is_newline (lineRest s)) < length s"
    proof (cases "lineText s")
      case Nil
      with False show ?thesis
        by (cases s) (auto simp: lineText_Cons less_Suc_eq_le length_dropWhile_le split: if_splits)
    next
      case (Cons c r)
      then have "length (lineRest s) < length s"
        by (metis length_append lineText_lineRest less_add_same_cancel2 length_greater_0_conv list.distinct(1))
      then show ?thesis using length_dropWhile_le le_less_trans by blast
    qed
    with 1 have "fold f (configLines (dropWhile is_newline (lineRest s))) st' =
        fold f (map fst (rawLines (dropWhile is_newline (lineRest s)))) st'" for st' by blast
    then show ?thesis
      using False fold_newlines [where f = f, OF assms, of ?r] rawLines_Cons [OF False] d
      by (subst configLines.simps) simp
  qed (simp add: configLines.simps)
qed

text \<open>
  A line the editor keeps as a comment although it is a setting for the reader: its key holds a blank
  or another character that is no part of a key token.
\<close>

definition tokenLine :: "string \<Rightarrow> bool" where
  "tokenLine raw \<longleftrightarrow>
     (let line = dropWhile is_blank raw in
      line \<noteq> [] \<and> \<not> is_comment_mark (hd line) \<and> hd line \<noteq> CHR ''['' \<and> CHR ''='' \<in> set line \<longrightarrow>
      isKeyToken (trim (takeWhile (\<lambda>c. c \<noteq> CHR ''='') line)) \<or> trim (takeWhile (\<lambda>c. c \<noteq> CHR ''='') line) = [])"

lemma trim_append_blanks: "list_all is_blank b \<Longrightarrow> trim (s @ b) = trim s"
proof -
  assume b: "list_all is_blank b"
  show ?thesis
  proof (cases "list_all is_blank s")
    case True
    then have "dropWhile is_blank (s @ b) = []" "dropWhile is_blank s = []" using b by (auto simp: list_all_iff dropWhile_eq_Nil_conv)
    then show ?thesis by (simp add: trim_def)
  next
    case False
    then have "dropWhile is_blank s \<noteq> []" by (auto simp: list_all_iff dropWhile_eq_Nil_conv)
    then show ?thesis using b by (simp add: trim_def dropWhile_append_ne rtrim_append)
  qed
qed

lemma trim_strip_blanks: "list_all is_blank b \<Longrightarrow> trim (stripInlineComment (s @ b)) = trim (stripInlineComment s)"
proof (cases s)
  case Nil
  assume b: "list_all is_blank b"
  then have "stripInlineComment b = b" by (cases b) (auto simp: strip_after_blanks)
  then show ?thesis using b trim_append_blanks [OF b, of "[]"] by (simp add: Nil)
next
  case (Cons c r)
  assume b: "list_all is_blank b"
  show ?thesis
  proof (cases "strip_after c r = r")
    case True
    then show ?thesis using b trim_append_blanks [OF b, of "c # r"] by (simp add: Cons strip_after_append strip_after_blanks)
  qed (simp add: Cons strip_after_append)
qed

lemma trim_dropWhile: "trim t = rtrim (dropWhile is_blank t)"
  by (simp add: trim_def)

lemma configLine_classify:
  assumes "tokenLine t"
  shows "configLine t (sec, m) = (case classify sec t of (kd, k, v, sec') \<Rightarrow>
    (sec', if kd = Key then smapPut (lower (dottedName sec k)) v m else m))"
proof -
  define line where "line = dropWhile is_blank t"
  obtain b where b: "list_all is_blank b" "line = trim t @ b"
    using dropWhile_blank_trim [of t] by (auto simp: line_def)
  have ne: "line = [] \<longleftrightarrow> trim t = []"
  proof
    assume "trim t = []"
    then have "list_all is_blank line" using b by simp
    then show "line = []" unfolding line_def
      by (metis dropWhile_eq_self_iff dropWhile_idem list_all_iff list.set_sel(1) dropWhile_eq_Nil_conv)
  qed (simp add: b)
  have hd: "hd line = hd (trim t)" if "trim t \<noteq> []" using that b(2) by simp
  have mem: "c \<in> set line \<longleftrightarrow> c \<in> set (trim t)" if "\<not> is_blank c" for c
    using that b by (auto simp: list_all_iff)
  have tok: "isKeyToken (trim (takeWhile (\<lambda>c. c \<noteq> CHR ''='') line)) \<or> trim (takeWhile (\<lambda>c. c \<noteq> CHR ''='') line) = []"
    if "line \<noteq> []" "\<not> is_comment_mark (hd line)" "hd line \<noteq> CHR ''[''" "CHR ''='' \<in> set line"
    using assms that by (simp add: tokenLine_def line_def Let_def)
  consider "trim t = []" | "trim t \<noteq> []" "is_comment_mark (hd (trim t))" | "trim t \<noteq> []" "hd (trim t) = CHR ''[''"
    | "trim t \<noteq> []" "\<not> is_comment_mark (hd (trim t))" "hd (trim t) \<noteq> CHR ''[''"
    by blast
  then show ?thesis
  proof cases
    case 1
    then show ?thesis using ne by (simp add: configLine_def line_def)
  next
    case 2
    then have "hd (trim t) \<noteq> CHR ''[''" by (auto simp: is_comment_mark_def)
    with 2 show ?thesis
      using ne hd by (auto simp: configLine_def line_def [symmetric] classify_def Let_def split: option.splits)
  next
    case 3
    obtain r where r: "trim t = CHR ''['' # r" using 3 by (cases "trim t") auto
    have "takeWhile (\<lambda>c. c \<noteq> CHR '']'') (r @ b) = takeWhile (\<lambda>c. c \<noteq> CHR '']'') r" if "CHR '']'' \<in> set r"
      using that by (rule takeWhile_append1) simp
    moreover have "CHR '']'' \<notin> set b"
    proof
      assume "CHR '']'' \<in> set b"
      with b(1) have "is_blank (CHR '']'')" by (metis list_all_iff)
      then show False by (simp add: is_blank_def)
    qed
    moreover have l: "dropWhile is_blank t = CHR ''['' # r @ b" using b(2) r by (simp add: line_def)
    ultimately show ?thesis
      by (simp add: configLine_def l classify_def Let_def r is_comment_mark_def)
  next
    case 4
    have eq: "CHR ''='' \<in> set line \<longleftrightarrow> CHR ''='' \<in> set (trim t)" by (rule mem) (simp add: is_blank_def)
    show ?thesis
    proof (cases "CHR ''='' \<in> set (trim t)")
      case False
      then have "splitKeyValue (trim t) = None" by (simp add: splitKeyValue_def)
      then show ?thesis
        using 4 False ne hd eq by (simp add: configLine_def line_def [symmetric] classify_def Let_def)
    next
      case True
      define k where "k = trim (takeWhile (\<lambda>c. c \<noteq> CHR ''='') (trim t))"
      define v where "v = trim (stripInlineComment (tl (dropWhile (\<lambda>c. c \<noteq> CHR ''='') (trim t))))"
      have tw: "takeWhile (\<lambda>c. c \<noteq> CHR ''='') line = takeWhile (\<lambda>c. c \<noteq> CHR ''='') (trim t)"
        unfolding b(2) using True by (rule takeWhile_append1) simp
      have dw: "dropWhile (\<lambda>c. c \<noteq> CHR ''='') (trim t) \<noteq> []" using True by (auto simp: dropWhile_eq_Nil_conv)
      then have "tl (dropWhile (\<lambda>c. c \<noteq> CHR ''='') line) = tl (dropWhile (\<lambda>c. c \<noteq> CHR ''='') (trim t)) @ b"
        by (simp add: b(2) dropWhile_append_ne)
      then have v: "trim (stripInlineComment (tl (dropWhile (\<lambda>c. c \<noteq> CHR ''='') line))) = v"
        by (simp add: trim_strip_blanks [OF b(1)] v_def)
      have k: "trim (takeWhile (\<lambda>c. c \<noteq> CHR ''='') line) = k" by (simp add: tw k_def)
      have kt: "isKeyToken k \<or> k = []" using tok 4 True ne hd eq k by simp
      have sp: "splitKeyValue (trim t) = (if isKeyToken k then Some (k, v) else None)"
        using True by (simp add: splitKeyValue_def k_def v_def Let_def)
      have "isKeyToken k \<longleftrightarrow> k \<noteq> []" using kt by (auto simp: isKeyToken_def)
      then show ?thesis
        using 4 True ne hd eq sp k v by (simp add: configLine_def line_def [symmetric] classify_def Let_def)
    qed
  qed
qed

definition tokenFile :: "string \<Rightarrow> bool" where
  "tokenFile t \<longleftrightarrow> list_all (\<lambda>r. tokenLine (fst r)) (rawLines (skipBom t))"

lemma configLines_parse:
  "list_all (\<lambda>r. tokenLine (fst r)) rs \<Longrightarrow>
   map_of (snd (fold configLine (map fst rs) (sec, m))) =
     fold (\<lambda>l f. if il_kind l = Key then f(lower (dottedName (il_section l) (il_key l)) \<mapsto> il_value l) else f)
       (parseLines sec rs) (map_of m)"
proof (induction rs arbitrary: sec m)
  case (Cons r rs)
  obtain t e where r: "r = (t, e)" by fastforce
  obtain kd k v sec' where c: "classify sec t = (kd, k, v, sec')" by (metis prod_cases4)
  have "kd = Key \<Longrightarrow> sec' = sec" using classify_keeps [OF c] by simp
  moreover have "configLine t (sec, m) = (sec', if kd = Key then smapPut (lower (dottedName sec k)) v m else m)"
    using configLine_classify [of t sec m] Cons.prems by (simp add: r c)
  ultimately show ?case using Cons by (auto simp: r c)
qed simp

lemma keys_effective:
  assumes "list_all (\<lambda>l. isSetting l \<longrightarrow> undotted l) doc" "CHR ''.'' \<notin> set s" "CHR ''.'' \<notin> set k"
    "f (lower (dottedName s k)) = (if eff_present e then Some (eff_value e) else None)"
  shows "fold (\<lambda>l f. if il_kind l = Key then f(lower (dottedName (il_section l) (il_key l)) \<mapsto> il_value l) else f)
      doc f (lower (dottedName s k)) =
    (let e' = fold (effectiveStep s k) doc e in if eff_present e' then Some (eff_value e') else None)"
  using assms
proof (induction doc arbitrary: f e)
  case (Cons l doc)
  let ?f' = "if il_kind l = Key then f(lower (dottedName (il_section l) (il_key l)) \<mapsto> il_value l) else f"
  have "il_kind l = Key \<Longrightarrow> lower (dottedName (il_section l) (il_key l)) = lower (dottedName s k) \<longleftrightarrow> keyMatches s k l"
    using dotted_same [of "il_section l" "il_key l" s k] Cons.prems by (auto simp: keyMatches_def undotted_def isSetting_def sameKey_def)
  then have n: "?f' (lower (dottedName s k)) =
      (if eff_present (effectiveStep s k l e) then Some (eff_value (effectiveStep s k l e)) else None)"
    using Cons.prems(4) by (auto simp: effectiveStep_def isSetting_def)
  from Cons.IH [where f = ?f' and e = "effectiveStep s k l e", OF _ Cons.prems(2,3) n] Cons.prems(1) show ?case by simp
qed simp

lemma configText_effective:
  assumes "tokenFile t" "undottedFile t" "CHR ''.'' \<notin> set s" "CHR ''.'' \<notin> set k"
  shows "map_of (configText t) (lower (dottedName s k)) =
    (let e = effectiveOf (iniParse t) s k in if eff_present e then Some (eff_value e) else None)"
proof -
  have "map_of (configText t) = fold (\<lambda>l f. if il_kind l = Key then f(lower (dottedName (il_section l) (il_key l)) \<mapsto> il_value l) else f)
      (iniParse t) Map.empty"
    using configLines_parse [of "rawLines (skipBom t)" "[]" "[]"] assms(1)
    by (simp add: configText_def iniParse_def tokenFile_def configLines_rawLines)
  then show ?thesis
    using keys_effective [of "iniParse t" s k Map.empty noEffective] assms(2-4)
    by (simp add: effectiveOf_def undottedFile_def noEffective_def)
qed

lemma splitDotted_dottedName:
  "CHR ''.'' \<notin> set s \<Longrightarrow> CHR ''.'' \<notin> set k \<Longrightarrow> splitDotted (dottedName s k) = (s, k)"
  by (induction s) (auto simp: splitDotted_def dottedName_def split: if_splits)

definition emptyConfig :: Config where
  "emptyConfig = \<lparr>cf_values = [], cf_pending = [], cf_noted = {}, cf_lastWrite = 0, cf_logOpen = False, cf_log = []\<rparr>"

section \<open>The audit\<close>

text \<open>
  \<open>fromMoves moved p q\<close>: \<open>q\<close> is \<open>p\<close> with absent new names filled in from old names.
\<close>

definition auditKeeps :: "string smap \<Rightarrow> string smap \<Rightarrow> bool" where
  "auditKeeps p q \<longleftrightarrow> (\<forall>k v. map_of p k = Some v \<longrightarrow> map_of q k = Some v)"

definition auditSound :: "(string \<times> string \<times> string) list \<Rightarrow> string smap \<Rightarrow> string smap \<Rightarrow> bool" where
  "auditSound moved p q \<longleftrightarrow> (\<forall>k v. map_of q k = Some v \<longrightarrow> map_of p k = Some v \<or>
     (\<exists>old d. (old, k, d) \<in> set moved \<and> map_of q old = Some v \<and> (d = [] \<or> v \<noteq> d)))"

lemma auditMove_cases:
  assumes "auditMove (oldK, newK, d) (p, syn, c) = (p', syn', c')"
  shows "p' = p \<or> (\<exists>v. map_of p newK = None \<and> map_of p oldK = Some v \<and> (d = [] \<or> v \<noteq> d) \<and> p' = smapPut newK v p)"
  using assms by (auto simp: auditMove_def Let_def split: option.splits if_splits)

lemma auditMoves_keep:
  assumes "fold auditMove ms (p, syn, c) = (q, syn', c')"
  shows "auditKeeps p q \<and> auditSound ms p q"
  using assms
proof (induction ms arbitrary: p syn c)
  case (Cons m ms)
  obtain oldK newK d where m: "m = (oldK, newK, d)" by (cases m) auto
  obtain p1 syn1 c1 where s: "auditMove m (p, syn, c) = (p1, syn1, c1)" by (metis prod_cases3)
  have IH: "auditKeeps p1 q" "auditSound ms p1 q" using Cons.IH [of p1 syn1 c1] Cons.prems s by auto
  from auditMove_cases [OF s [unfolded m]] show ?case
  proof
    assume "p1 = p"
    then show ?thesis using IH by (auto simp: auditSound_def)
  next
    assume "\<exists>v. map_of p newK = None \<and> map_of p oldK = Some v \<and> (d = [] \<or> v \<noteq> d) \<and> p1 = smapPut newK v p"
    then obtain v where v: "map_of p newK = None" "map_of p oldK = Some v" "d = [] \<or> v \<noteq> d" "p1 = smapPut newK v p" by blast
    have k: "auditKeeps p p1" using v(1,4) by (auto simp: auditKeeps_def)
    then have q: "map_of q oldK = Some v" using IH(1) v(2) by (auto simp: auditKeeps_def)
    have "auditSound (m # ms) p q" unfolding auditSound_def
    proof (intro allI impI)
      fix key w assume "map_of q key = Some w"
      then consider "map_of p1 key = Some w" | old d' where "(old, key, d') \<in> set ms" "map_of q old = Some w" "d' = [] \<or> w \<noteq> d'"
        using IH(2) unfolding auditSound_def by blast
      then show "map_of p key = Some w \<or>
          (\<exists>old d. (old, key, d) \<in> set (m # ms) \<and> map_of q old = Some w \<and> (d = [] \<or> w \<noteq> d))"
        by cases (use v q m in \<open>auto split: if_splits\<close>)
    qed
    moreover have "auditKeeps p q" using k IH(1) by (auto simp: auditKeeps_def)
    ultimately show ?thesis by blast
  qed
qed (auto simp: auditKeeps_def auditSound_def)

lemma auditResolve_fst:
  "fst (auditResolve (Some t) (p, c)) = fst (fold auditMove (at_moved t) (p, [], c))"
  by (simp add: auditResolve_def split: prod.splits)

text \<open>Whether the audit may file a value under a name the file has no line for.\<close>

definition movedInto :: "AuditTables option \<Rightarrow> string \<Rightarrow> bool" where
  "movedInto tables name \<longleftrightarrow> (case tables of None \<Rightarrow> False | Some a \<Rightarrow> list_ex (\<lambda>mv. fst (snd mv) = name) (at_moved a))"

lemma auditResolve_value:
  assumes "map_of p name = None \<Longrightarrow> \<not> movedInto tables name"
  shows "map_of (fst (auditResolve tables (p, c))) name = map_of p name"
proof (cases tables)
  case (Some a)
  obtain q syn c' where f: "fold auditMove (at_moved a) (p, [], c) = (q, syn, c')" by (metis prod_cases3)
  then have q: "fst (auditResolve tables (p, c)) = q" by (simp add: Some auditResolve_fst)
  show ?thesis
  proof (cases "map_of p name")
    case None
    then have "(old, name, d) \<notin> set (at_moved a)" for old d
      using assms Some by (auto simp: movedInto_def list_ex_iff)
    then show ?thesis
      using auditMoves_keep [OF f] None unfolding q auditSound_def by (cases "map_of q name") (fastforce, metis option.distinct(1))
  next
    case (Some v)
    then show ?thesis using auditMoves_keep [OF f] by (simp add: q auditKeeps_def)
  qed
qed (simp add: auditResolve_def)

lemma configParse_getString:
  assumes "length t \<le> 1048576"
  shows "fst (getString key fallback (configParse tables (FileText t stamp) c)) =
    (case map_of (fst (auditResolve tables (configText t, c))) key of None \<Rightarrow> fallback | Some v \<Rightarrow> v)"
proof -
  have "cf_values (auditFlush c') = cf_values c'" for c' by (simp add: auditFlush_def)
  then show ?thesis using assms by (simp add: getString_def configParse_def Let_def split: option.splits prod.splits)
qed

text \<open>
  C10: the game's reader, with or without its audit of moved names, and the installer's editor agree on every setting of a file of at
  most a megabyte whose keys are key tokens and whose sections and keys hold no dot, unless the file has no line of its own for
  the setting and the tables move another name to it.
\<close>

theorem config_reads_what_iniedit_reads:
  assumes "tokenFile t" "undottedFile t" "CHR ''.'' \<notin> set s" "CHR ''.'' \<notin> set k" "length t \<le> 1048576"
    "eff_present (effectiveOf (iniParse t) s k) \<or> \<not> movedInto tables (lower (dottedName s k))"
  shows "fst (getString (lower (dottedName s k)) fallback (configParse tables (FileText t stamp) c)) =
    iniValue t (dottedName s k) fallback"
proof -
  note e = configText_effective [OF assms(1-4)]
  have "map_of (fst (auditResolve tables (configText t, c))) (lower (dottedName s k)) = map_of (configText t) (lower (dottedName s k))"
    by (rule auditResolve_value) (use assms(6) e in \<open>auto simp: Let_def\<close>)
  then show ?thesis
    using e by (simp add: configParse_getString [OF assms(5)] iniValue_def splitDotted_dottedName [OF assms(3,4)] Let_def)
qed

text \<open>The old name is still in the file, and the setting has a line of its own.\<close>

theorem config_reads_what_iniedit_reads_witness:
  "fst (getString ''fix.x'' [] (configParse (Some \<lparr>at_known = [''fix.x''], at_moved = [(''fix.old'', ''fix.x'', ''3'')]\<rparr>)
      (FileText (''[Fix]'' @ [CHR 0x0A, CHR 0x0A] @ ''old = 5'' @ [CHR 0x0A] @ ''X = 7 ; on'') None) emptyConfig)) = ''7''"
proof -
  let ?t = "''[Fix]'' @ [CHR 0x0A, CHR 0x0A] @ ''old = 5'' @ [CHR 0x0A] @ ''X = 7 ; on''"
  have "tokenFile ?t" "undottedFile ?t" "iniValue ?t (dottedName ''fix'' ''x'') [] = ''7''"
    "lower (dottedName ''fix'' ''x'') = ''fix.x''" "eff_present (effectiveOf (iniParse ?t) ''fix'' ''x'')" by code_simp+
  then show ?thesis
    using config_reads_what_iniedit_reads [of ?t "''fix''" "''x''"
        "Some \<lparr>at_known = [''fix.x''], at_moved = [(''fix.old'', ''fix.x'', ''3'')]\<rparr>" "[]" None emptyConfig] by simp
qed

text \<open>
  The audit never overrides a line of the file, and every value it adds is an old line's value,
  filed under the name that line moved to and not the old name's shipped default.
\<close>

theorem audit_respects_file:
  "auditKeeps p (fst (auditResolve (Some t) (p, c))) \<and>
   auditSound (at_moved t) p (fst (auditResolve (Some t) (p, c)))"
  unfolding auditResolve_fst using auditMoves_keep by (metis prod.collapse)

text \<open>Notes: the parsed map and the synthesized keys evolve the same way whatever was noted before.\<close>

lemma noteOnce_noted: "cf_noted (noteOnce tag msg c) = insert tag (cf_noted c)"
  by (simp add: noteOnce_def insert_absorb)

lemma noteOnce_quiet: "tag \<in> cf_noted c \<Longrightarrow> noteOnce tag msg c = c"
  by (simp add: noteOnce_def)

lemma auditMove_noted:
  assumes "auditMove m (p, syn, c) = (p1, syn1, c1)" "auditMove m (p, syn, c2) = (p3, syn3, c3)"
  shows "p3 = p1" "syn3 = syn1" "cf_noted c1 = cf_noted c \<union> (cf_noted c1 - cf_noted c)"
    "cf_noted c \<subseteq> cf_noted c1" "cf_noted c1 \<subseteq> cf_noted c2 \<Longrightarrow> c3 = c2"
  using assms by (auto simp: auditMove_def Let_def noteOnce_noted noteOnce_quiet split: option.splits if_splits prod.splits)

lemma auditMoves_noted:
  assumes "fold auditMove ms (p, syn, c) = (p1, syn1, c1)" "fold auditMove ms (p, syn, c2) = (p3, syn3, c3)"
  shows "p3 = p1 \<and> cf_noted c \<subseteq> cf_noted c1 \<and> (cf_noted c1 \<subseteq> cf_noted c2 \<longrightarrow> c3 = c2)"
  using assms
proof (induction ms arbitrary: p syn c c2)
  case (Cons m ms)
  obtain p' syn' c' where s: "auditMove m (p, syn, c) = (p', syn', c')" by (metis prod_cases3)
  obtain p'' syn'' c'' where s2: "auditMove m (p, syn, c2) = (p'', syn'', c'')" by (metis prod_cases3)
  note n = auditMove_noted [OF s s2]
  have IH: "p3 = p1 \<and> cf_noted c' \<subseteq> cf_noted c1 \<and> (cf_noted c1 \<subseteq> cf_noted c'' \<longrightarrow> c3 = c'')"
    using Cons.IH [of p' syn' c' c''] Cons.prems s s2 n(1,2) by simp
  then show ?case using n(4,5) by auto
qed auto

lemma auditDead_noted:
  assumes "fold (auditDead known old) kvs (d, noted) = (d1, noted1)"
  shows "noted \<subseteq> noted1 \<and> (\<forall>kv \<in> set kvs. fst kv \<notin> set known \<and> fst kv \<notin> set old \<longrightarrow> ''uk:'' @ fst kv \<in> noted1)"
  using assms
proof (induction kvs arbitrary: d noted)
  case (Cons kv kvs)
  obtain d' n' where s: "auditDead known old kv (d, noted) = (d', n')" by fastforce
  have "noted \<subseteq> n'" "fst kv \<notin> set known \<and> fst kv \<notin> set old \<longrightarrow> ''uk:'' @ fst kv \<in> n'"
    using s by (auto simp: auditDead_def Let_def split: if_splits)
  then show ?case using Cons.IH [of d' n'] Cons.prems s by auto
qed auto

lemma auditDead_quiet:
  assumes "\<forall>kv \<in> set kvs. fst kv \<notin> set known \<and> fst kv \<notin> set old \<longrightarrow> ''uk:'' @ fst kv \<in> noted"
  shows "fold (auditDead known old) kvs (d, noted) = (d, noted)"
  using assms by (induction kvs) (auto simp: auditDead_def)

text \<open>
  Each finding is said once a session. Auditing the same file again, with whatever has been noted
  since, queues nothing and notes nothing new.
\<close>

theorem audit_says_once:
  assumes "auditResolve (Some t) (p, c) = (q, c1)" "cf_noted c1 \<subseteq> cf_noted c2"
  shows "auditResolve (Some t) (p, c2) = (q, c2)"
proof -
  obtain p1 syn1 b1 where f1: "fold auditMove (at_moved t) (p, [], c) = (p1, syn1, b1)" by (metis prod_cases3)
  obtain p2 syn2 b2 where f2: "fold auditMove (at_moved t) (p, [], c2) = (p2, syn2, b2)" by (metis prod_cases3)
  obtain d n where d: "fold (auditDead (at_known t) (map fst (at_moved t))) p1
      (\<lparr>dk_text = [], dk_count = 0, dk_shown = 0\<rparr>, cf_noted b1) = (d, n)" by fastforce
  have q: "q = p1" "cf_noted c1 = n" using assms(1) f1 d by (auto simp: auditResolve_def)
  note a = auditDead_noted [OF d]
  have "cf_noted b1 \<subseteq> cf_noted c2" using a q(2) assms(2) by auto
  with auditMoves_noted [OF f1 f2] have e: "p2 = p1" "b2 = c2" by auto
  have "fold (auditDead (at_known t) (map fst (at_moved t))) p1
      (\<lparr>dk_text = [], dk_count = 0, dk_shown = 0\<rparr>, cf_noted c2) =
      (\<lparr>dk_text = [], dk_count = 0, dk_shown = 0\<rparr>, cf_noted c2)"
    by (rule auditDead_quiet) (use a q(2) assms(2) in blast)
  then show ?thesis using f2 e q(1) by (simp add: auditResolve_def)
qed

theorem audit_says_once_witness:
  "auditResolve (Some \<lparr>at_known = [''new''], at_moved = [(''old'', ''new'', [])]\<rparr>)
     ([(''old'', ''1''), (''tpyo'', ''2'')],
      emptyConfig\<lparr>cf_noted := {''uk:tpyo'', ''mv:old''}\<rparr>) =
   ([(''new'', ''1''), (''old'', ''1''), (''tpyo'', ''2'')],
      emptyConfig\<lparr>cf_noted := {''uk:tpyo'', ''mv:old''}\<rparr>)"
proof -
  let ?t = "\<lparr>at_known = [''new''], at_moved = [(''old'', ''new'', [])]\<rparr>" and ?p = "[(''old'', ''1''), (''tpyo'', ''2'')]"
  have "fst (auditResolve (Some ?t) (?p, emptyConfig)) = [(''new'', ''1''), (''old'', ''1''), (''tpyo'', ''2'')]"
    "cf_noted (snd (auditResolve (Some ?t) (?p, emptyConfig))) = {''uk:tpyo'', ''mv:old''}"
    by code_simp+
  then show ?thesis
    using audit_says_once [of ?t ?p emptyConfig _ _ "emptyConfig\<lparr>cf_noted := {''uk:tpyo'', ''mv:old''}\<rparr>", OF prod.collapse [symmetric]]
    by simp
qed

section \<open>Getters and reloads\<close>

text \<open>
  A bounded setting is always within its bounds: whatever the file says, a number, a typo or a
  number that does not fit, the value handed out lies between the bounds when the default does.
\<close>

theorem getIntInRange_bounded:
  assumes "lo \<le> def" "def \<le> hi"
  shows "lo \<le> fst (getIntInRange key def lo hi c) \<and> fst (getIntInRange key def lo hi c) \<le> hi"
  using assms by (auto simp: getIntInRange_def Let_def split: prod.splits)

theorem getIntInRange_bounded_witness:
  "fst (getIntInRange ''a'' 3 0 10 (configParse None (FileText ''a = -0x20'' None) emptyConfig)) = 0 \<and>
   (0::int) \<le> fst (getIntInRange ''a'' 3 0 10 (configParse None (FileText ''a = 3w'' None) emptyConfig))"
proof
  show "fst (getIntInRange ''a'' 3 0 10 (configParse None (FileText ''a = -0x20'' None) emptyConfig)) = 0"
    by code_simp
  show "(0::int) \<le> fst (getIntInRange ''a'' 3 0 10 (configParse None (FileText ''a = 3w'' None) emptyConfig))"
    using getIntInRange_bounded [of 0 3 10 "''a''" "configParse None (FileText ''a = 3w'' None) emptyConfig"] by simp
qed

text \<open>
  A file that cannot be read at the wrong instant changes nothing: no value is lost, nothing is
  queued, and the write time is not stamped, so the next poll reads the file again.
\<close>

theorem unreadable_file_keeps_config:
  assumes "ans \<in> {NoFile, BadSize, ReadFailed}"
  shows "configParse tables ans c = c \<and>
    (w \<noteq> cf_lastWrite c \<longrightarrow> reloadIfChanged tables (Some w) (FileText t (Some w)) (configParse tables ans c) =
      (True, configParse tables (FileText t (Some w)) c))"
  using assms by (auto simp: configParse_def reloadIfChanged_def)

theorem unreadable_file_keeps_config_witness:
  "configParse None ReadFailed (emptyConfig\<lparr>cf_values := [(''a'', ''1'')]\<rparr>) = emptyConfig\<lparr>cf_values := [(''a'', ''1'')]\<rparr> \<and>
   fst (reloadIfChanged None (Some 7) (FileText ''a = 2'' (Some 7)) (configParse None ReadFailed emptyConfig))"
  using unreadable_file_keeps_config [of ReadFailed None "emptyConfig\<lparr>cf_values := [(''a'', ''1'')]\<rparr>" 7 "''a = 2''", THEN conjunct1]
    unreadable_file_keeps_config [of ReadFailed None emptyConfig 7 "''a = 2''", THEN conjunct2]
  by (simp add: emptyConfig_def)

end
