(* ===== verification/SessionState.thy ===== *)
theory SessionState
  imports Prelude
begin

text \<open>
  \<^verbatim>\<open>src/openxr/session_state.h\<close>: the policy for one borrowed OpenXR session. The runtime is not part of
  the program: it is an argument \<open>rt\<close> that answers each call from the whole history of calls made so
  far, so every theorem holds for every runtime. The history is kept in the state (\<open>ss_calls\<close>, newest
  first); binding and abandoning a session are marks in it.
\<close>

section \<open>OpenXR values\<close>

type_synonym XrResult = int
type_synonym XrTime = int
type_synonym XrHandle = nat

abbreviation XR_SUCCESS :: XrResult where "XR_SUCCESS \<equiv> 0"
abbreviation XR_SESSION_LOSS_PENDING :: XrResult where "XR_SESSION_LOSS_PENDING \<equiv> 3"
abbreviation XR_EVENT_UNAVAILABLE :: XrResult where "XR_EVENT_UNAVAILABLE \<equiv> 4"
abbreviation XR_FRAME_DISCARDED :: XrResult where "XR_FRAME_DISCARDED \<equiv> 9"
abbreviation XR_ERROR_VALIDATION_FAILURE :: XrResult where "XR_ERROR_VALIDATION_FAILURE \<equiv> - 1"
abbreviation XR_ERROR_RUNTIME_FAILURE :: XrResult where "XR_ERROR_RUNTIME_FAILURE \<equiv> - 2"
abbreviation XR_ERROR_FUNCTION_UNSUPPORTED :: XrResult where "XR_ERROR_FUNCTION_UNSUPPORTED \<equiv> - 7"
abbreviation XR_ERROR_HANDLE_INVALID :: XrResult where "XR_ERROR_HANDLE_INVALID \<equiv> - 12"
abbreviation XR_ERROR_INSTANCE_LOST :: XrResult where "XR_ERROR_INSTANCE_LOST \<equiv> - 13"
abbreviation XR_ERROR_SESSION_LOST :: XrResult where "XR_ERROR_SESSION_LOST \<equiv> - 17"
abbreviation XR_ERROR_CALL_ORDER_INVALID :: XrResult where "XR_ERROR_CALL_ORDER_INVALID \<equiv> - 37"
abbreviation XR_ERROR_ENVIRONMENT_BLEND_MODE_UNSUPPORTED :: XrResult
  where "XR_ERROR_ENVIRONMENT_BLEND_MODE_UNSUPPORTED \<equiv> - 42"

abbreviation XR_FAILED :: "XrResult \<Rightarrow> bool" where "XR_FAILED r \<equiv> r < 0"

datatype XrSessionState = StUnknown | StIdle | StReady | StSynchronized | StVisible | StFocused
  | StStopping | StLossPending | StExiting | StOther nat

datatype XrEvent = EvInstanceLossPending | EvSessionStateChanged XrHandle XrSessionState | EvOther nat

record XrFrameState =
  fs_time :: XrTime
  fs_period :: XrTime
  fs_shouldRender :: bool

record XrFrameEndInfo =
  ei_next :: bool
  ei_layerCount :: nat
  ei_layers :: bool

text \<open>Calls into the runtime, and the marks \<open>Bind\<close> (a session is bound) and \<open>Abandon\<close>.\<close>

datatype XrCall = PollEvent | BeginSession | EndSession | WaitFrame | BeginFrame
  | EndFrame XrTime nat XrFrameEndInfo | Bind | Abandon

record XrAnswer =
  an_result :: XrResult
  an_event :: XrEvent
  an_frame :: XrFrameState

type_synonym Runtime = "XrCall list \<Rightarrow> XrAnswer"

section \<open>State\<close>

datatype Lifecycle = Uninitialized | Idle | Ready | Synchronized | Visible | Focused | Stopping | Ended
  | Exiting | LossPending | SessionLost | InstanceLossPending | InstanceLost | LcFailed

datatype FrameStatus = FsNone | FsOpen | NoRender | Discarded | SessionLossPending | FsEnded | FsFailed

record RenderReady =
  rr_poseValid :: bool
  rr_renderReady :: bool

record Frame =
  fr_predictedDisplayTime :: XrTime
  fr_predictedDisplayPeriod :: XrTime
  fr_shouldRender :: bool
  fr_discarded :: bool
  fr_status :: FrameStatus
  fr_sequence :: u64
  fr_generation :: u64
  fr_owner :: u64

definition emptyFrame :: Frame where
  "emptyFrame = \<lparr>fr_predictedDisplayTime = 0, fr_predictedDisplayPeriod = 0, fr_shouldRender = False,
     fr_discarded = False, fr_status = FsNone, fr_sequence = 0, fr_generation = 0, fr_owner = 0\<rparr>"

text \<open>Which of the dispatch table's entries are set.\<close>

record Dispatch =
  dp_pollEvent :: bool
  dp_beginSession :: bool
  dp_endSession :: bool
  dp_waitFrame :: bool
  dp_beginFrame :: bool
  dp_endFrame :: bool

definition noDispatch :: Dispatch where
  "noDispatch = \<lparr>dp_pollEvent = False, dp_beginSession = False, dp_endSession = False,
     dp_waitFrame = False, dp_beginFrame = False, dp_endFrame = False\<rparr>"

record SessionState =
  ss_dispatch :: Dispatch
  ss_sink :: bool
  ss_unhandled :: "XrEvent list"
  ss_instance :: XrHandle
  ss_session :: XrHandle
  ss_blend :: nat
  ss_lifecycle :: Lifecycle
  ss_state :: XrSessionState
  ss_running :: bool
  ss_frameOpen :: bool
  ss_frameShouldRender :: bool
  ss_terminal :: bool
  ss_hardFailure :: bool
  ss_deferred :: bool
  ss_frameTime :: XrTime
  ss_sequence :: u64
  ss_generation :: u64
  ss_owner :: u64
  ss_lastResult :: XrResult
  ss_calls :: "XrCall list"

definition newSession :: "u64 \<Rightarrow> SessionState" where
  "newSession owner = \<lparr>ss_dispatch = noDispatch, ss_sink = False, ss_unhandled = [], ss_instance = 0,
     ss_session = 0, ss_blend = 1, ss_lifecycle = Uninitialized, ss_state = StUnknown, ss_running = False,
     ss_frameOpen = False, ss_frameShouldRender = False, ss_terminal = False, ss_hardFailure = False,
     ss_deferred = False, ss_frameTime = 0, ss_sequence = 0, ss_generation = 0, ss_owner = owner,
     ss_lastResult = XR_SUCCESS, ss_calls = []\<rparr>"

section \<open>Private helpers\<close>

definition logCall :: "XrCall \<Rightarrow> SessionState \<Rightarrow> SessionState" where
  "logCall c s = s\<lparr>ss_calls := c # ss_calls s\<rparr>"

definition unhandled :: "XrEvent \<Rightarrow> SessionState \<Rightarrow> SessionState" where
  "unhandled e s = (if ss_sink s then s\<lparr>ss_unhandled := ss_unhandled s @ [e]\<rparr> else s)"

definition clearFrame :: "SessionState \<Rightarrow> SessionState" where
  "clearFrame s = s\<lparr>ss_frameOpen := False, ss_frameShouldRender := False, ss_deferred := False, ss_frameTime := 0\<rparr>"

definition clear :: "SessionState \<Rightarrow> SessionState" where
  "clear s = (clearFrame s)\<lparr>ss_generation := ss_generation s + 1, ss_sequence := 0, ss_running := False,
     ss_terminal := False, ss_hardFailure := False, ss_lifecycle := Uninitialized, ss_state := StUnknown,
     ss_lastResult := XR_SUCCESS, ss_sink := False\<rparr>"

definition noteResult :: "XrResult \<Rightarrow> SessionState \<Rightarrow> XrResult \<times> SessionState" where
  "noteResult r s =
     (let s1 = (if r = XR_SESSION_LOSS_PENDING
                then s\<lparr>ss_terminal := True,
                       ss_lifecycle := (if ss_lifecycle s \<noteq> InstanceLossPending then LossPending else ss_lifecycle s)\<rparr>
                else s);
          r1 = (if ss_terminal s1 \<and> ss_lifecycle s1 = LossPending then XR_SESSION_LOSS_PENDING else r)
      in (r1, s1\<lparr>ss_lastResult := r1\<rparr>))"

definition fail :: "XrResult \<Rightarrow> SessionState \<Rightarrow> XrResult \<times> SessionState" where
  "fail r s = (r, s\<lparr>ss_hardFailure := True, ss_terminal := True, ss_lastResult := r,
     ss_lifecycle := (if r = XR_ERROR_INSTANCE_LOST then InstanceLost
                      else if r = XR_ERROR_SESSION_LOST then SessionLost else LcFailed)\<rparr>)"

definition finish :: "Runtime \<Rightarrow> XrFrameEndInfo \<Rightarrow> bool \<Rightarrow> SessionState \<Rightarrow> XrResult \<times> SessionState" where
  "finish rt supplied layers s =
     (let info = (if layers then supplied else \<lparr>ei_next = False, ei_layerCount = 0, ei_layers = False\<rparr>);
          s1 = logCall (EndFrame (ss_frameTime s) (ss_blend s) info) s;
          r = an_result (rt (ss_calls s1));
          s2 = clearFrame s1
      in if XR_FAILED r then fail r s2
         else if r \<noteq> XR_SUCCESS \<and> r \<noteq> XR_SESSION_LOSS_PENDING then fail XR_ERROR_RUNTIME_FAILURE s2
         else noteResult r s2)"

section \<open>Binding\<close>

definition dispatchComplete :: "Dispatch \<Rightarrow> bool" where
  "dispatchComplete d \<longleftrightarrow> dp_pollEvent d \<and> dp_beginSession d \<and> dp_endSession d \<and> dp_waitFrame d \<and>
     dp_beginFrame d \<and> dp_endFrame d"

definition reset ::
  "Dispatch \<Rightarrow> XrHandle \<Rightarrow> XrHandle \<Rightarrow> nat \<Rightarrow> SessionState \<Rightarrow> XrResult \<times> SessionState" where
  "reset d inst session blend s =
     (if ss_running s \<or> ss_frameOpen s then (XR_ERROR_CALL_ORDER_INVALID, s)
      else if inst = 0 \<or> session = 0 then (XR_ERROR_HANDLE_INVALID, s)
      else if \<not> dispatchComplete d then (XR_ERROR_FUNCTION_UNSUPPORTED, s)
      else if blend \<noteq> 1 \<and> blend \<noteq> 2 \<and> blend \<noteq> 3 then (XR_ERROR_ENVIRONMENT_BLEND_MODE_UNSUPPORTED, s)
      else (XR_SUCCESS, logCall Bind ((clear s)\<lparr>ss_dispatch := d, ss_instance := inst,
              ss_session := session, ss_blend := blend\<rparr>)))"

definition boundSession ::
  "u64 \<Rightarrow> Dispatch \<Rightarrow> XrHandle \<Rightarrow> XrHandle \<Rightarrow> nat \<Rightarrow> SessionState" where
  "boundSession owner d inst session blend =
     (case reset d inst session blend (newSession owner) of (r, s) \<Rightarrow>
        if XR_FAILED r then snd (fail r s) else s)"

definition abandonAfterOwnerDestruction :: "SessionState \<Rightarrow> SessionState" where
  "abandonAfterOwnerDestruction s =
     logCall Abandon ((clear s)\<lparr>ss_dispatch := noDispatch, ss_instance := 0, ss_session := 0\<rparr>)"

definition setUnhandledEventSink :: "bool \<Rightarrow> SessionState \<Rightarrow> SessionState" where
  "setUnhandledEventSink sink s = s\<lparr>ss_sink := sink\<rparr>"

section \<open>Events\<close>

fun pollLoop :: "Runtime \<Rightarrow> nat \<Rightarrow> SessionState \<Rightarrow> XrResult \<times> SessionState" where
  "pollLoop rt 0 s = (ss_lastResult s, s)"
| "pollLoop rt (Suc n) s0 =
     (let s = logCall PollEvent s0; a = rt (ss_calls s); r = an_result a in
      if r = XR_EVENT_UNAVAILABLE then (ss_lastResult s, s)
      else if r \<noteq> XR_SUCCESS then fail (if XR_FAILED r then r else XR_ERROR_RUNTIME_FAILURE) s
      else case an_event a of
        EvInstanceLossPending \<Rightarrow>
          (ss_lastResult s, s\<lparr>ss_terminal := True, ss_lifecycle := InstanceLossPending\<rparr>)
      | EvOther k \<Rightarrow> pollLoop rt n (unhandled (EvOther k) s)
      | EvSessionStateChanged h st \<Rightarrow>
          if h \<noteq> ss_session s then pollLoop rt n (unhandled (EvSessionStateChanged h st) s)
          else
            (let s1 = s\<lparr>ss_state := st\<rparr> in
             case st of
               StIdle \<Rightarrow> pollLoop rt n (s1\<lparr>ss_lifecycle := Idle\<rparr>)
             | StReady \<Rightarrow> (ss_lastResult s1, s1\<lparr>ss_lifecycle := Ready\<rparr>)
             | StSynchronized \<Rightarrow> pollLoop rt n (s1\<lparr>ss_lifecycle := Synchronized\<rparr>)
             | StVisible \<Rightarrow> pollLoop rt n (s1\<lparr>ss_lifecycle := Visible\<rparr>)
             | StFocused \<Rightarrow> pollLoop rt n (s1\<lparr>ss_lifecycle := Focused\<rparr>)
             | StStopping \<Rightarrow> (ss_lastResult s1, s1\<lparr>ss_lifecycle := Stopping\<rparr>)
             | StExiting \<Rightarrow> (ss_lastResult s1, s1\<lparr>ss_terminal := True, ss_lifecycle := Exiting\<rparr>)
             | StLossPending \<Rightarrow> noteResult XR_SESSION_LOSS_PENDING s1
             | _ \<Rightarrow> fail XR_ERROR_RUNTIME_FAILURE s1))"

definition kMaxEvents :: nat where
  "kMaxEvents = 32"

definition pollEvents :: "Runtime \<Rightarrow> nat \<Rightarrow> SessionState \<Rightarrow> XrResult \<times> SessionState" where
  "pollEvents rt budget s =
     (if ss_terminal s then (ss_lastResult s, s)
      else if ss_instance s = 0 \<or> ss_session s = 0 then fail XR_ERROR_HANDLE_INVALID s
      else if \<not> dp_pollEvent (ss_dispatch s) then fail XR_ERROR_FUNCTION_UNSUPPORTED s
      else if ss_state s = StStopping \<and> ss_running s then (ss_lastResult s, s)
      else pollLoop rt (min budget kMaxEvents) s)"

section \<open>Starting, frames, stopping\<close>

definition startIfReady :: "Runtime \<Rightarrow> SessionState \<Rightarrow> XrResult \<times> SessionState" where
  "startIfReady rt s =
     (if ss_terminal s then ((if ss_hardFailure s then ss_lastResult s else XR_ERROR_CALL_ORDER_INVALID), s)
      else if ss_state s \<noteq> StReady \<or> ss_running s then (XR_ERROR_CALL_ORDER_INVALID, s)
      else
        (let s1 = logCall BeginSession s; r = an_result (rt (ss_calls s1)) in
         if XR_FAILED r then fail r s1
         else if r \<noteq> XR_SUCCESS \<and> r \<noteq> XR_SESSION_LOSS_PENDING then fail XR_ERROR_RUNTIME_FAILURE s1
         else noteResult r (clearFrame (s1\<lparr>ss_running := True, ss_generation := ss_generation s1 + 1, ss_sequence := 0\<rparr>))))"

definition mayBegin :: "SessionState \<Rightarrow> bool" where
  "mayBegin s \<longleftrightarrow> \<not> (ss_terminal s \<or> ss_frameOpen s \<or> \<not> ss_running s \<or> ss_state s = StStopping \<or> ss_state s = StIdle)"

definition beginFromWait ::
  "Runtime \<Rightarrow> XrResult \<Rightarrow> XrFrameState \<Rightarrow> SessionState \<Rightarrow> XrResult \<times> Frame \<times> SessionState" where
  "beginFromWait rt waited fs s =
     (if XR_FAILED waited then
        (case fail waited s of (r, s') \<Rightarrow> (r, emptyFrame\<lparr>fr_status := FsFailed\<rparr>, s'))
      else if waited \<noteq> XR_SUCCESS \<and> waited \<noteq> XR_SESSION_LOSS_PENDING then
        (case fail XR_ERROR_RUNTIME_FAILURE s of (r, s') \<Rightarrow> (r, emptyFrame, s'))
      else
        (let s1 = logCall BeginFrame (snd (noteResult waited s)); r = an_result (rt (ss_calls s1)) in
         if XR_FAILED r then (case fail r s1 of (r', s') \<Rightarrow> (r', emptyFrame\<lparr>fr_status := FsFailed\<rparr>, s'))
         else if r \<noteq> XR_SUCCESS \<and> r \<noteq> XR_FRAME_DISCARDED \<and> r \<noteq> XR_SESSION_LOSS_PENDING then
           (case fail XR_ERROR_RUNTIME_FAILURE s1 of (r', s') \<Rightarrow> (r', emptyFrame, s'))
         else
           (let s2 = (snd (noteResult r s1))\<lparr>ss_frameOpen := True, ss_frameTime := fs_time fs,
                        ss_frameShouldRender := fs_shouldRender fs\<rparr>;
                s3 = s2\<lparr>ss_sequence := ss_sequence s2 + 1\<rparr>;
                render = (fs_shouldRender fs \<and> \<not> ss_terminal s3);
                disc = (r = XR_FRAME_DISCARDED)
            in (ss_lastResult s3,
                \<lparr>fr_predictedDisplayTime = fs_time fs, fr_predictedDisplayPeriod = fs_period fs,
                 fr_shouldRender = render, fr_discarded = disc,
                 fr_status = (if ss_terminal s3 then SessionLossPending else if disc then Discarded
                              else if render then FsOpen else NoRender),
                 fr_sequence = ss_sequence s3, fr_generation = ss_generation s3, fr_owner = ss_owner s3\<rparr>,
                s3))))"

definition waitAndBegin :: "Runtime \<Rightarrow> Frame \<Rightarrow> SessionState \<Rightarrow> XrResult \<times> Frame \<times> SessionState" where
  "waitAndBegin rt out s =
     (if ss_hardFailure s then (ss_lastResult s, out, s)
      else if \<not> mayBegin s then (XR_ERROR_CALL_ORDER_INVALID, out, s)
      else
        (let s1 = logCall WaitFrame s; a = rt (ss_calls s1) in beginFromWait rt (an_result a) (an_frame a) s1))"

definition beginWaited ::
  "Runtime \<Rightarrow> XrResult \<Rightarrow> XrFrameState \<Rightarrow> Frame \<Rightarrow> SessionState \<Rightarrow> XrResult \<times> Frame \<times> SessionState" where
  "beginWaited rt waited fs out s =
     (if ss_hardFailure s then (ss_lastResult s, out, s)
      else if \<not> mayBegin s then (XR_ERROR_CALL_ORDER_INVALID, out, s)
      else beginFromWait rt waited fs s)"

definition openDeferred ::
  "XrTime \<Rightarrow> XrTime \<Rightarrow> Frame \<Rightarrow> SessionState \<Rightarrow> XrResult \<times> Frame \<times> SessionState" where
  "openDeferred predictedTime period out s =
     (if ss_hardFailure s then (ss_lastResult s, out, s)
      else if \<not> mayBegin s then (XR_ERROR_CALL_ORDER_INVALID, out, s)
      else
        (let s1 = s\<lparr>ss_frameOpen := True, ss_deferred := True, ss_frameTime := predictedTime,
                    ss_frameShouldRender := True, ss_sequence := ss_sequence s + 1\<rparr>
         in (ss_lastResult s1,
             \<lparr>fr_predictedDisplayTime = predictedTime, fr_predictedDisplayPeriod = period,
              fr_shouldRender = (\<not> ss_terminal s1), fr_discarded = False,
              fr_status = (if ss_terminal s1 then SessionLossPending else FsOpen),
              fr_sequence = ss_sequence s1, fr_generation = ss_generation s1, fr_owner = ss_owner s1\<rparr>,
             s1)))"

definition beginDeferred :: "Runtime \<Rightarrow> XrResult \<Rightarrow> XrFrameState \<Rightarrow> SessionState \<Rightarrow> XrResult \<times> SessionState" where
  "beginDeferred rt waited fs s =
     (if ss_hardFailure s then (ss_lastResult s, s)
      else if \<not> ss_frameOpen s \<or> \<not> ss_deferred s then (XR_ERROR_CALL_ORDER_INVALID, s)
      else
        (let s0 = s\<lparr>ss_deferred := False\<rparr> in
         if XR_FAILED waited then fail waited (clearFrame s0)
         else if waited \<noteq> XR_SUCCESS \<and> waited \<noteq> XR_SESSION_LOSS_PENDING
         then fail XR_ERROR_RUNTIME_FAILURE (clearFrame s0)
         else
           (let s1 = logCall BeginFrame (snd (noteResult waited s0)); r = an_result (rt (ss_calls s1)) in
            if XR_FAILED r then fail r (clearFrame s1)
            else if r \<noteq> XR_SUCCESS \<and> r \<noteq> XR_FRAME_DISCARDED \<and> r \<noteq> XR_SESSION_LOSS_PENDING
            then fail XR_ERROR_RUNTIME_FAILURE (clearFrame s1)
            else
              (let s2 = (snd (noteResult r s1))\<lparr>ss_frameTime := fs_time fs, ss_frameShouldRender := fs_shouldRender fs\<rparr>
               in (ss_lastResult s2, s2)))))"

definition tokenOpen :: "Frame \<Rightarrow> SessionState \<Rightarrow> bool" where
  "tokenOpen f s \<longleftrightarrow> ss_frameOpen s \<and> fr_sequence f = ss_sequence s \<and> fr_generation f = ss_generation s \<and>
     fr_owner f = ss_owner s"

definition endFrame ::
  "Runtime \<Rightarrow> Frame \<Rightarrow> XrFrameEndInfo \<Rightarrow> RenderReady \<Rightarrow> SessionState \<Rightarrow> XrResult \<times> Frame \<times> SessionState" where
  "endFrame rt frame supplied ready s =
     (if ss_hardFailure s then (ss_lastResult s, frame, s)
      else if \<not> tokenOpen frame s then (XR_ERROR_CALL_ORDER_INVALID, frame, s)
      else if ss_deferred s then (XR_ERROR_CALL_ORDER_INVALID, frame, s)
      else
        (let layers = (ss_frameShouldRender s \<and> \<not> ss_terminal s \<and> ss_state s \<noteq> StStopping \<and>
                       rr_poseValid ready \<and> rr_renderReady ready) in
         if layers \<and> 0 < ei_layerCount supplied \<and> \<not> ei_layers supplied
         then (XR_ERROR_VALIDATION_FAILURE, frame, s)
         else
           (case finish rt supplied layers s of (r, s1) \<Rightarrow>
              (r, frame\<lparr>fr_shouldRender := False,
                        fr_status := (if XR_FAILED r then FsFailed else if ss_terminal s1 then SessionLossPending
                                      else if layers \<and> 0 < ei_layerCount supplied then FsEnded else NoRender)\<rparr>,
               s1))))"

definition stop :: "Runtime \<Rightarrow> SessionState \<Rightarrow> XrResult \<times> SessionState" where
  "stop rt s =
     (if ss_hardFailure s then (ss_lastResult s, s)
      else if ss_state s \<noteq> StStopping \<or> \<not> ss_running s then (XR_ERROR_CALL_ORDER_INVALID, s)
      else if ss_frameOpen s \<and> ss_deferred s then (XR_ERROR_CALL_ORDER_INVALID, s)
      else
        (case (if ss_frameOpen s
               then finish rt \<lparr>ei_next = False, ei_layerCount = 0, ei_layers = False\<rparr> False s
               else (XR_SUCCESS, s)) of (r0, s0) \<Rightarrow>
           if ss_frameOpen s \<and> XR_FAILED r0 then (r0, s0)
           else
             (let s1 = logCall EndSession s0; r = an_result (rt (ss_calls s1)) in
              if XR_FAILED r then fail r s1
              else if r \<noteq> XR_SUCCESS \<and> r \<noteq> XR_SESSION_LOSS_PENDING then fail XR_ERROR_RUNTIME_FAILURE s1
              else
                (let s2 = clearFrame (s1\<lparr>ss_running := False\<rparr>);
                     s3 = (if ss_terminal s2 then s2 else s2\<lparr>ss_lifecycle := Ended\<rparr>)
                 in noteResult r s3))))"

end
