(* ===== verification/SessionProps.thy ===== *)
theory SessionProps
  imports SessionState
begin

text \<open>
  Every run of \<^verbatim>\<open>SessionState\<close>'s operations, against every runtime, calls the runtime in an order OpenXR
  allows, and a frame token ends at most one frame.
\<close>

section \<open>Fields the helpers leave alone\<close>

lemma logCall_fields [simp]:
  "ss_calls (logCall c s) = c # ss_calls s"
  "ss_dispatch (logCall c s) = ss_dispatch s" "ss_sink (logCall c s) = ss_sink s" "ss_unhandled (logCall c s) = ss_unhandled s" "ss_instance (logCall c s) = ss_instance s" "ss_session (logCall c s) = ss_session s" "ss_blend (logCall c s) = ss_blend s" "ss_lifecycle (logCall c s) = ss_lifecycle s" "ss_state (logCall c s) = ss_state s" "ss_running (logCall c s) = ss_running s" "ss_frameOpen (logCall c s) = ss_frameOpen s" "ss_frameShouldRender (logCall c s) = ss_frameShouldRender s" "ss_terminal (logCall c s) = ss_terminal s" "ss_hardFailure (logCall c s) = ss_hardFailure s" "ss_deferred (logCall c s) = ss_deferred s" "ss_frameTime (logCall c s) = ss_frameTime s" "ss_sequence (logCall c s) = ss_sequence s" "ss_generation (logCall c s) = ss_generation s" "ss_owner (logCall c s) = ss_owner s" "ss_lastResult (logCall c s) = ss_lastResult s"
  by (simp_all add: logCall_def)

lemma clearFrame_fields [simp]:
  "\<not> ss_frameOpen (clearFrame s)" "\<not> ss_deferred (clearFrame s)"
  "ss_dispatch (clearFrame s) = ss_dispatch s" "ss_sink (clearFrame s) = ss_sink s" "ss_unhandled (clearFrame s) = ss_unhandled s" "ss_instance (clearFrame s) = ss_instance s" "ss_session (clearFrame s) = ss_session s" "ss_blend (clearFrame s) = ss_blend s" "ss_lifecycle (clearFrame s) = ss_lifecycle s" "ss_state (clearFrame s) = ss_state s" "ss_running (clearFrame s) = ss_running s" "ss_terminal (clearFrame s) = ss_terminal s" "ss_hardFailure (clearFrame s) = ss_hardFailure s" "ss_sequence (clearFrame s) = ss_sequence s" "ss_generation (clearFrame s) = ss_generation s" "ss_owner (clearFrame s) = ss_owner s" "ss_lastResult (clearFrame s) = ss_lastResult s" "ss_calls (clearFrame s) = ss_calls s"
  by (simp_all add: clearFrame_def)

lemma noteResult_fields [simp]:
  "ss_dispatch (snd (noteResult r s)) = ss_dispatch s" "ss_sink (snd (noteResult r s)) = ss_sink s" "ss_unhandled (snd (noteResult r s)) = ss_unhandled s" "ss_instance (snd (noteResult r s)) = ss_instance s" "ss_session (snd (noteResult r s)) = ss_session s" "ss_blend (snd (noteResult r s)) = ss_blend s" "ss_state (snd (noteResult r s)) = ss_state s" "ss_running (snd (noteResult r s)) = ss_running s" "ss_frameOpen (snd (noteResult r s)) = ss_frameOpen s" "ss_frameShouldRender (snd (noteResult r s)) = ss_frameShouldRender s" "ss_hardFailure (snd (noteResult r s)) = ss_hardFailure s" "ss_deferred (snd (noteResult r s)) = ss_deferred s" "ss_frameTime (snd (noteResult r s)) = ss_frameTime s" "ss_sequence (snd (noteResult r s)) = ss_sequence s" "ss_generation (snd (noteResult r s)) = ss_generation s" "ss_owner (snd (noteResult r s)) = ss_owner s" "ss_calls (snd (noteResult r s)) = ss_calls s"
  by (simp_all add: noteResult_def Let_def)

lemma fail_fields [simp]:
  "fst (fail r s) = r" "ss_hardFailure (snd (fail r s))" "ss_terminal (snd (fail r s))"
  "ss_dispatch (snd (fail r s)) = ss_dispatch s" "ss_sink (snd (fail r s)) = ss_sink s" "ss_unhandled (snd (fail r s)) = ss_unhandled s" "ss_instance (snd (fail r s)) = ss_instance s" "ss_session (snd (fail r s)) = ss_session s" "ss_blend (snd (fail r s)) = ss_blend s" "ss_state (snd (fail r s)) = ss_state s" "ss_running (snd (fail r s)) = ss_running s" "ss_frameOpen (snd (fail r s)) = ss_frameOpen s" "ss_frameShouldRender (snd (fail r s)) = ss_frameShouldRender s" "ss_deferred (snd (fail r s)) = ss_deferred s" "ss_frameTime (snd (fail r s)) = ss_frameTime s" "ss_sequence (snd (fail r s)) = ss_sequence s" "ss_generation (snd (fail r s)) = ss_generation s" "ss_owner (snd (fail r s)) = ss_owner s" "ss_calls (snd (fail r s)) = ss_calls s"
  by (simp_all add: fail_def)

lemma unhandled_fields [simp]:
  "ss_dispatch (unhandled e s) = ss_dispatch s" "ss_sink (unhandled e s) = ss_sink s" "ss_instance (unhandled e s) = ss_instance s" "ss_session (unhandled e s) = ss_session s" "ss_blend (unhandled e s) = ss_blend s" "ss_lifecycle (unhandled e s) = ss_lifecycle s" "ss_state (unhandled e s) = ss_state s" "ss_running (unhandled e s) = ss_running s" "ss_frameOpen (unhandled e s) = ss_frameOpen s" "ss_frameShouldRender (unhandled e s) = ss_frameShouldRender s" "ss_terminal (unhandled e s) = ss_terminal s" "ss_hardFailure (unhandled e s) = ss_hardFailure s" "ss_deferred (unhandled e s) = ss_deferred s" "ss_frameTime (unhandled e s) = ss_frameTime s" "ss_sequence (unhandled e s) = ss_sequence s" "ss_generation (unhandled e s) = ss_generation s" "ss_owner (unhandled e s) = ss_owner s" "ss_lastResult (unhandled e s) = ss_lastResult s" "ss_calls (unhandled e s) = ss_calls s"
  by (simp_all add: unhandled_def)

section \<open>The protocol\<close>

text \<open>
  Where a session stands, read off the calls and the runtime's answers. \<open>None\<close> is a call out of order.
  A call that did not succeed leaves the session \<open>Broken\<close>: from there it may only be bound anew or abandoned.
\<close>

datatype XrPhase = Unbound | Bound | InSession | InFrame | Broken

definition phaseStep :: "XrPhase \<Rightarrow> XrCall \<Rightarrow> XrResult \<Rightarrow> XrPhase option" where
  "phaseStep p c r =
     (case c of
        Bind \<Rightarrow> if p \<in> {Unbound, Bound, Broken} then Some Bound else None
      | Abandon \<Rightarrow> Some Unbound
      | PollEvent \<Rightarrow> if p \<in> {Bound, InSession, InFrame}
                     then Some (if r \<in> {XR_SUCCESS, XR_EVENT_UNAVAILABLE} then p else Broken) else None
      | BeginSession \<Rightarrow> if p = Bound
                     then Some (if r \<in> {XR_SUCCESS, XR_SESSION_LOSS_PENDING} then InSession else Broken) else None
      | EndSession \<Rightarrow> if p = InSession
                     then Some (if r \<in> {XR_SUCCESS, XR_SESSION_LOSS_PENDING} then Bound else Broken) else None
      | WaitFrame \<Rightarrow> if p = InSession
                     then Some (if r \<in> {XR_SUCCESS, XR_SESSION_LOSS_PENDING} then InSession else Broken) else None
      | BeginFrame \<Rightarrow> if p = InSession
                     then Some (if r \<in> {XR_SUCCESS, XR_FRAME_DISCARDED, XR_SESSION_LOSS_PENDING} then InFrame else Broken) else None
      | EndFrame t b i \<Rightarrow> if p = InFrame
                     then Some (if r \<in> {XR_SUCCESS, XR_SESSION_LOSS_PENDING} then InSession else Broken) else None)"

fun phaseOf :: "Runtime \<Rightarrow> XrCall list \<Rightarrow> XrPhase option" where
  "phaseOf rt [] = Some Unbound"
| "phaseOf rt (c # cs) =
     (case phaseOf rt cs of None \<Rightarrow> None | Some p \<Rightarrow> phaseStep p c (an_result (rt (c # cs))))"

text \<open>The invariant, over the fields it depends on.\<close>

definition phaseInv ::
  "XrPhase option \<Rightarrow> bool \<Rightarrow> bool \<Rightarrow> bool \<Rightarrow> bool \<Rightarrow> bool \<Rightarrow> bool \<Rightarrow> bool \<Rightarrow> bool" where
  "phaseInv p hard term run open' def bnd quiet \<longleftrightarrow>
     (if hard then p \<noteq> None \<and> (run \<or> p \<in> {Some Unbound, Some Bound, Some Broken}) \<and> term
      else p = Some (if open' \<and> \<not> def then InFrame else if run then InSession else if bnd then Bound else Unbound)) \<and>
     (open' \<longrightarrow> run) \<and> (def \<longrightarrow> open') \<and> (run \<longrightarrow> bnd) \<and> (\<not> bnd \<longrightarrow> quiet)"

definition sessInv :: "Runtime \<Rightarrow> SessionState \<Rightarrow> bool" where
  "sessInv rt s \<longleftrightarrow> phaseInv (phaseOf rt (ss_calls s)) (ss_hardFailure s) (ss_terminal s) (ss_running s)
     (ss_frameOpen s) (ss_deferred s) (ss_session s \<noteq> 0) (ss_state s = StUnknown)"

lemma phaseInv_fail:
  "phaseInv p hard term run op' def bnd quiet \<Longrightarrow> phaseInv p True True run op' def bnd quiet"
  by (cases hard; cases op'; cases def; cases run; cases bnd) (simp_all add: phaseInv_def)

lemma phaseInv_broken:
  "phaseInv p hard term run op' def bnd quiet \<Longrightarrow> phaseInv (Some Broken) True True run op' def bnd quiet"
  by (simp add: phaseInv_def)

lemma phaseInv_close:
  "phaseInv p True term run op' def bnd quiet \<Longrightarrow> phaseInv p True term run False False bnd quiet"
  by (simp add: phaseInv_def)

lemma phaseInv_live:
  "phaseInv p False term run op' def bnd quiet \<longleftrightarrow>
   p = Some (if op' \<and> \<not> def then InFrame else if run then InSession else if bnd then Bound else Unbound) \<and>
   (op' \<longrightarrow> run) \<and> (def \<longrightarrow> op') \<and> (run \<longrightarrow> bnd) \<and> (\<not> bnd \<longrightarrow> quiet)"
  by (simp add: phaseInv_def)

lemma newSession_inv: "sessInv rt (newSession owner)"
  by (simp add: sessInv_def phaseInv_def newSession_def)

lemma reset_inv: "sessInv rt s \<Longrightarrow> sessInv rt (snd (reset d i h b s))"
  by (auto simp: sessInv_def phaseInv_def phaseStep_def reset_def SessionState.clear_def split: if_splits)

lemma fail_inv: "sessInv rt s \<Longrightarrow> sessInv rt (snd (fail r s))"
  using phaseInv_fail by (simp add: sessInv_def)

lemma abandon_inv: "sessInv rt s \<Longrightarrow> sessInv rt (abandonAfterOwnerDestruction s)"
  by (auto simp: sessInv_def phaseInv_def phaseStep_def abandonAfterOwnerDestruction_def SessionState.clear_def split: if_splits)

lemma sink_inv: "sessInv rt s \<Longrightarrow> sessInv rt (setUnhandledEventSink b s)"
  by (simp add: sessInv_def setUnhandledEventSink_def)

lemma noteResult_inv: "\<not> ss_hardFailure s \<Longrightarrow> sessInv rt s \<Longrightarrow> sessInv rt (snd (noteResult r s))"
  by (simp add: sessInv_def phaseInv_live)

lemma quiet_inv:
  assumes "sessInv rt s" "\<not> ss_hardFailure s" "ss_session s \<noteq> 0"
  shows "sessInv rt (s\<lparr>ss_state := st, ss_lifecycle := lc\<rparr>)"
    "sessInv rt (s\<lparr>ss_state := st\<rparr>)"
    "sessInv rt (s\<lparr>ss_state := st, ss_terminal := True, ss_lifecycle := lc\<rparr>)"
    "sessInv rt (s\<lparr>ss_terminal := True, ss_lifecycle := lc\<rparr>)"
    "sessInv rt (unhandled e s)"
  using assms by (simp_all add: sessInv_def phaseInv_live)

lemma pollCall_inv:
  assumes "sessInv rt s" "\<not> ss_hardFailure s" "ss_session s \<noteq> 0"
  shows "sessInv rt (if an_result (rt (PollEvent # ss_calls s)) \<in> {XR_SUCCESS, XR_EVENT_UNAVAILABLE}
    then logCall PollEvent s else snd (fail r (logCall PollEvent s)))"
  using assms by (auto simp: sessInv_def phaseInv_def phaseStep_def)

lemma pollLoop_inv:
  "sessInv rt s \<Longrightarrow> \<not> ss_hardFailure s \<Longrightarrow> ss_session s \<noteq> 0 \<Longrightarrow> sessInv rt (snd (pollLoop rt n s))"
proof (induction n arbitrary: s)
  case (Suc n)
  let ?s = "logCall PollEvent s" and ?r = "an_result (rt (PollEvent # ss_calls s))"
  note P = pollCall_inv [OF Suc.prems]
  show ?case
  proof (cases "?r = XR_SUCCESS")
    case True
    then have "sessInv rt ?s" using P by simp
    note q = quiet_inv [OF this] and f = noteResult_inv [of ?s] fail_inv [OF this]
    show ?thesis
      using True q f Suc.prems Suc.IH [OF q(1)] Suc.IH [OF q(5)]
      by (auto simp: Let_def noteResult_inv fail_inv split: XrEvent.split XrSessionState.split)
  next
    case False
    then show ?thesis using P by (auto simp: Let_def split: if_splits)
  qed
qed simp

lemma pollEvents_inv: "sessInv rt s \<Longrightarrow> sessInv rt (snd (pollEvents rt b s))"
proof -
  assume inv: "sessInv rt s"
  then have "\<not> ss_terminal s \<Longrightarrow> \<not> ss_hardFailure s" by (auto simp: sessInv_def phaseInv_def)
  then show ?thesis using inv fail_inv [OF inv] pollLoop_inv [OF inv] by (simp add: pollEvents_def)
qed

lemma startIfReady_inv: "sessInv rt s \<Longrightarrow> sessInv rt (snd (startIfReady rt s))"
  by (auto simp: startIfReady_def Let_def sessInv_def phaseInv_def phaseStep_def split: if_splits)

lemma beginFromWait_inv:
  assumes "sessInv rt s" "\<not> ss_hardFailure s" "ss_running s" "\<not> ss_frameOpen s"
  shows "sessInv rt (snd (snd (beginFromWait rt w fs s)))"
  using assms by (auto simp: beginFromWait_def Let_def sessInv_def phaseInv_def phaseStep_def case_prod_beta split: if_splits)

lemma waitAndBegin_inv: "sessInv rt s \<Longrightarrow> sessInv rt (snd (snd (waitAndBegin rt out s)))"
proof -
  assume inv: "sessInv rt s"
  let ?s = "logCall WaitFrame s" and ?r = "an_result (rt (WaitFrame # ss_calls s))"
  have "sessInv rt (snd (snd (beginFromWait rt ?r fs ?s)))" if "\<not> ss_hardFailure s" "mayBegin s" for fs
  proof (cases "?r \<in> {XR_SUCCESS, XR_SESSION_LOSS_PENDING}")
    case True
    then have "sessInv rt ?s"
      using inv that by (auto simp: mayBegin_def sessInv_def phaseInv_def phaseStep_def)
    then show ?thesis using that by (intro beginFromWait_inv) (auto simp: mayBegin_def)
  next
    case False
    then show ?thesis
      using inv that by (auto simp: beginFromWait_def mayBegin_def case_prod_beta sessInv_def phaseInv_def phaseStep_def)
  qed
  then show ?thesis using inv by (simp add: waitAndBegin_def Let_def)
qed

lemma beginWaited_inv: "sessInv rt s \<Longrightarrow> sessInv rt (snd (snd (beginWaited rt w fs out s)))"
  using beginFromWait_inv by (auto simp: beginWaited_def mayBegin_def)

lemma openDeferred_inv: "sessInv rt s \<Longrightarrow> sessInv rt (snd (snd (openDeferred t p out s)))"
  by (auto simp: openDeferred_def mayBegin_def Let_def sessInv_def phaseInv_def)

lemma beginDeferred_inv: "sessInv rt s \<Longrightarrow> sessInv rt (snd (beginDeferred rt w fs s))"
  by (auto simp: beginDeferred_def Let_def sessInv_def phaseInv_def phaseStep_def split: if_splits)

lemma finish_inv:
  assumes "sessInv rt s" "\<not> ss_hardFailure s" "ss_frameOpen s" "\<not> ss_deferred s"
  shows "sessInv rt (snd (finish rt i l s))"
  using assms by (auto simp: finish_def Let_def sessInv_def phaseInv_def phaseStep_def split: if_splits)

lemma endFrame_inv: "sessInv rt s \<Longrightarrow> sessInv rt (snd (snd (endFrame rt f i rr s)))"
  using finish_inv by (auto simp: endFrame_def Let_def tokenOpen_def case_prod_beta split: if_splits)

lemma finish_result:
  assumes "\<not> ss_hardFailure s"
  shows "XR_FAILED (fst (finish rt i l s)) \<longleftrightarrow> ss_hardFailure (snd (finish rt i l s))"
    "\<not> ss_frameOpen (snd (finish rt i l s))" "ss_running (snd (finish rt i l s)) = ss_running s"
  using assms by (auto simp: finish_def Let_def noteResult_def)

lemma stop_inv:
  assumes inv: "sessInv rt s"
  shows "sessInv rt (snd (stop rt s))"
proof -
  let ?info = "\<lparr>ei_next = False, ei_layerCount = 0, ei_layers = False\<rparr>"
  let ?s0 = "if ss_frameOpen s then snd (finish rt ?info False s) else s"
  have end': "sessInv rt (snd (let s1 = logCall EndSession s0; r = an_result (rt (ss_calls s1)) in
      if XR_FAILED r then fail r s1
      else if r \<noteq> XR_SUCCESS \<and> r \<noteq> XR_SESSION_LOSS_PENDING then fail XR_ERROR_RUNTIME_FAILURE s1
      else (let s2 = clearFrame (s1\<lparr>ss_running := False\<rparr>);
                s3 = (if ss_terminal s2 then s2 else s2\<lparr>ss_lifecycle := Ended\<rparr>)
            in noteResult r s3)))"
    if "sessInv rt s0" "\<not> ss_hardFailure s0" "ss_running s0" "\<not> ss_frameOpen s0" for s0
    using that by (auto simp: Let_def sessInv_def phaseInv_def phaseStep_def)
  show ?thesis
  proof (cases "ss_hardFailure s \<or> ss_state s \<noteq> StStopping \<or> \<not> ss_running s \<or> ss_frameOpen s \<and> ss_deferred s")
    case False
    then have live: "\<not> ss_hardFailure s" "ss_running s" and d: "ss_frameOpen s \<Longrightarrow> \<not> ss_deferred s" by auto
    have fin: "ss_frameOpen s \<Longrightarrow> sessInv rt (snd (finish rt ?info False s))"
      using finish_inv [OF inv live(1)] d by blast
    show ?thesis
      using False fin end' [of ?s0] inv live finish_result [OF live(1), of rt ?info False]
      by (auto simp: stop_def case_prod_beta split: if_splits)
  qed (use inv in \<open>auto simp: stop_def\<close>)
qed

section \<open>Runs\<close>

text \<open>Everything an owner can do with a session, in any order.\<close>

datatype SessionOp = OpReset Dispatch XrHandle XrHandle nat | OpAbandon | OpSink bool | OpPoll nat | OpStart
  | OpWaitAndBegin | OpBeginWaited XrResult XrFrameState | OpOpenDeferred XrTime XrTime
  | OpBeginDeferred XrResult XrFrameState | OpEnd Frame XrFrameEndInfo RenderReady | OpStop

definition execSession :: "Runtime \<Rightarrow> SessionOp \<Rightarrow> SessionState \<Rightarrow> SessionState" where
  "execSession rt a s =
     (case a of
        OpReset d i h b \<Rightarrow> snd (reset d i h b s)
      | OpAbandon \<Rightarrow> abandonAfterOwnerDestruction s
      | OpSink b \<Rightarrow> setUnhandledEventSink b s
      | OpPoll n \<Rightarrow> snd (pollEvents rt n s)
      | OpStart \<Rightarrow> snd (startIfReady rt s)
      | OpWaitAndBegin \<Rightarrow> snd (snd (waitAndBegin rt emptyFrame s))
      | OpBeginWaited w fs \<Rightarrow> snd (snd (beginWaited rt w fs emptyFrame s))
      | OpOpenDeferred t p \<Rightarrow> snd (snd (openDeferred t p emptyFrame s))
      | OpBeginDeferred w fs \<Rightarrow> snd (beginDeferred rt w fs s)
      | OpEnd f i rr \<Rightarrow> snd (snd (endFrame rt f i rr s))
      | OpStop \<Rightarrow> snd (stop rt s))"

lemmas session_op_invs = reset_inv abandon_inv sink_inv pollEvents_inv startIfReady_inv waitAndBegin_inv
  beginWaited_inv openDeferred_inv beginDeferred_inv endFrame_inv stop_inv

interpretation session: op_machine "execSession rt" "\<lambda>_. True" "sessInv rt" for rt
  by unfold_locales (auto simp: execSession_def session_op_invs split: SessionOp.split)

text \<open>
  C2: whatever the runtime answers and whatever the owner calls, in whatever order, the runtime only sees
  calls in the order OpenXR allows: a frame is begun inside a running session, ended only after it was
  begun and before the next is begun, the session is ended with no frame open, and after a call that did
  not succeed the session gets no further call until it is bound anew.
\<close>

theorem session_calls_in_order:
  "phaseOf rt (ss_calls (fold (execSession rt) ops (newSession owner))) \<noteq> None"
proof -
  have "sessInv rt (fold (execSession rt) ops (newSession owner))"
    using session.run_inv [of ops rt "newSession owner"] newSession_inv by (simp add: list_all_iff)
  then show ?thesis by (auto simp: sessInv_def phaseInv_def split: if_splits)
qed

text \<open>
  A frame token ends at most one frame: once an end was dispatched for it, ending it again is refused
  (or answered with the recorded failure) and changes nothing, so the runtime is not called a second time.
\<close>

theorem frame_token_ends_once:
  assumes "\<not> ss_hardFailure s" "tokenOpen f s" "\<not> ss_deferred s"
    "ei_layerCount i = 0 \<or> ei_layers i"
  shows "let s' = snd (snd (endFrame rt f i rr s)) in
    length (ss_calls s') = Suc (length (ss_calls s)) \<and>
    snd (snd (endFrame rt f i2 rr2 s')) = s' \<and>
    fst (endFrame rt f i2 rr2 s') = (if ss_hardFailure s' then ss_lastResult s' else XR_ERROR_CALL_ORDER_INVALID)"
proof -
  let ?layers = "ss_frameShouldRender s \<and> \<not> ss_terminal s \<and> ss_state s \<noteq> StStopping \<and> rr_poseValid rr \<and> rr_renderReady rr"
  have "\<not> (?layers \<and> 0 < ei_layerCount i \<and> \<not> ei_layers i)"
    using assms(4) by auto
  then have e: "snd (snd (endFrame rt f i rr s)) = snd (finish rt i ?layers s)"
    using assms(1-3) by (auto simp: endFrame_def Let_def case_prod_beta)
  have "length (ss_calls (snd (finish rt i ?layers s))) = Suc (length (ss_calls s))"
    by (auto simp: finish_def Let_def)
  moreover have "endFrame rt f i2 rr2 s' =
      (if ss_hardFailure s' then (ss_lastResult s', f, s') else (XR_ERROR_CALL_ORDER_INVALID, f, s'))"
    if "\<not> ss_frameOpen s'" for s'
    using that by (simp add: endFrame_def tokenOpen_def)
  note this [OF finish_result(2) [OF assms(1), of rt i ?layers]]
  ultimately show ?thesis unfolding Let_def e by simp
qed

definition agreeable :: Runtime where
  "agreeable cs = \<lparr>an_result = XR_SUCCESS, an_event = EvSessionStateChanged 2 StReady,
     an_frame = \<lparr>fs_time = 100, fs_period = 11, fs_shouldRender = True\<rparr>\<rparr>"

definition fullDispatch :: Dispatch where
  "fullDispatch = \<lparr>dp_pollEvent = True, dp_beginSession = True, dp_endSession = True, dp_waitFrame = True,
     dp_beginFrame = True, dp_endFrame = True\<rparr>"

definition openedSession :: SessionState where
  "openedSession = fold (execSession agreeable) [OpReset fullDispatch 1 2 1, OpPoll 8, OpStart, OpWaitAndBegin] (newSession 7)"

theorem frame_token_ends_once_witness:
  "let f = \<lparr>fr_predictedDisplayTime = 100, fr_predictedDisplayPeriod = 11, fr_shouldRender = True, fr_discarded = False,
         fr_status = FsOpen, fr_sequence = 1, fr_generation = 2, fr_owner = 7\<rparr>;
       i = \<lparr>ei_next = False, ei_layerCount = 1, ei_layers = True\<rparr>;
       rr = \<lparr>rr_poseValid = True, rr_renderReady = True\<rparr>;
       s' = snd (snd (endFrame agreeable f i rr openedSession))
   in length (ss_calls s') = 6 \<and> fst (endFrame agreeable f i rr s') = XR_ERROR_CALL_ORDER_INVALID"
proof -
  let ?f = "\<lparr>fr_predictedDisplayTime = 100, fr_predictedDisplayPeriod = 11, fr_shouldRender = True, fr_discarded = False,
         fr_status = FsOpen, fr_sequence = 1, fr_generation = 2, fr_owner = 7\<rparr> :: Frame"
  let ?i = "\<lparr>ei_next = False, ei_layerCount = 1, ei_layers = True\<rparr>" and ?rr = "\<lparr>rr_poseValid = True, rr_renderReady = True\<rparr>"
  have "\<not> ss_hardFailure openedSession" "tokenOpen ?f openedSession" "\<not> ss_deferred openedSession"
    "length (ss_calls openedSession) = 5" "\<not> ss_hardFailure (snd (snd (endFrame agreeable ?f ?i ?rr openedSession)))"
    by code_simp+
  then show ?thesis
    using frame_token_ends_once [of openedSession ?f ?i agreeable ?rr ?i ?rr] by (simp add: Let_def)
qed

end
