(* ===== verification/FramePacer.thy ===== *)
theory FramePacer
  imports SessionState
begin

text \<open>
  \<^verbatim>\<open>src/openxr/frame_pacer.h\<close>: one \<^verbatim>\<open>xrWaitFrame\<close> at a time on a worker thread. The owner's calls and the
  worker's passes through its loop are the steps of a relation; a step is what happens under one hold of
  the mutex, and the call of \<^verbatim>\<open>xrWaitFrame\<close> lies between two of them. The sequential view that the frame
  boundary uses is at the end, with the proof that the threads implement it.
\<close>

datatype Worker = NoThread | Looping | Waiting | Exited

text \<open>What the owner thread is in the middle of: \<open>Joining\<close> is \<^verbatim>\<open>stop\<close> between its two lock holds.\<close>

datatype OwnerAt = Free | Joining

record FramePacer =
  fp_bound :: bool
  fp_pending :: bool
  fp_done :: bool
  fp_quit :: bool
  fp_result :: "XrResult \<times> XrFrameState"
  fp_worker :: Worker
  fp_owner :: OwnerAt
  fp_started :: nat
  fp_kicked :: nat
  fp_taken :: nat
  fp_dropped :: nat

definition newPacer :: FramePacer where
  "newPacer = \<lparr>fp_bound = False, fp_pending = False, fp_done = False, fp_quit = False,
     fp_result = (XR_SUCCESS, \<lparr>fs_time = 0, fs_period = 0, fs_shouldRender = False\<rparr>), fp_worker = NoThread,
     fp_owner = Free, fp_started = 0, fp_kicked = 0, fp_taken = 0, fp_dropped = 0\<rparr>"

section \<open>The owner\<close>

definition kick :: "FramePacer \<Rightarrow> bool \<times> FramePacer" where
  "kick p =
     (if \<not> fp_bound p then (False, p)
      else if fp_pending p then (False, p)
      else
        (let p1 = p\<lparr>fp_pending := True, fp_done := False, fp_kicked := Suc (fp_kicked p)\<rparr>
         in (True, if fp_worker p1 = NoThread then p1\<lparr>fp_quit := False, fp_worker := Looping\<rparr> else p1)))"

definition pacerReady :: "FramePacer \<Rightarrow> bool" where
  "pacerReady p \<longleftrightarrow> fp_pending p \<and> fp_done p"

text \<open>\<open>None\<close> when nothing is pending; the caller blocks while the wait is in flight (no step).\<close>

definition takeWait :: "FramePacer \<Rightarrow> (XrResult \<times> XrFrameState) option \<times> FramePacer" where
  "takeWait p =
     (if \<not> fp_pending p then (None, p)
      else (Some (fp_result p), p\<lparr>fp_pending := False, fp_done := False, fp_taken := Suc (fp_taken p)\<rparr>))"

definition stopRequest :: "FramePacer \<Rightarrow> FramePacer" where
  "stopRequest p = p\<lparr>fp_quit := True, fp_owner := Joining\<rparr>"

definition stopJoined :: "FramePacer \<Rightarrow> FramePacer" where
  "stopJoined p = p\<lparr>fp_worker := NoThread, fp_owner := Free, fp_pending := False, fp_done := False, fp_quit := False,
     fp_dropped := (if fp_pending p then Suc (fp_dropped p) else fp_dropped p)\<rparr>"

section \<open>The worker\<close>

definition workerEnters :: "FramePacer \<Rightarrow> FramePacer" where
  "workerEnters p = p\<lparr>fp_worker := Waiting, fp_started := Suc (fp_started p)\<rparr>"

definition workerReturns :: "XrResult \<times> XrFrameState \<Rightarrow> FramePacer \<Rightarrow> FramePacer" where
  "workerReturns r p = p\<lparr>fp_worker := Looping, fp_result := r, fp_done := True\<rparr>"

inductive pacerStep :: "FramePacer \<Rightarrow> FramePacer \<Rightarrow> bool" where
  bind: "fp_owner p = Free \<Longrightarrow> fp_worker p = NoThread \<Longrightarrow> pacerStep p (p\<lparr>fp_bound := b\<rparr>)"
| kick: "fp_owner p = Free \<Longrightarrow> pacerStep p (snd (kick p))"
| take: "fp_owner p = Free \<Longrightarrow> fp_pending p \<longrightarrow> fp_done p \<Longrightarrow> pacerStep p (snd (takeWait p))"
| stop: "fp_owner p = Free \<Longrightarrow> pacerStep p (stopRequest p)"
| joined: "fp_owner p = Joining \<Longrightarrow> fp_worker p \<in> {NoThread, Exited} \<Longrightarrow> pacerStep p (stopJoined p)"
| enters: "fp_worker p = Looping \<Longrightarrow> \<not> fp_quit p \<Longrightarrow> fp_pending p \<Longrightarrow> \<not> fp_done p \<Longrightarrow> pacerStep p (workerEnters p)"
| returns: "fp_worker p = Waiting \<Longrightarrow> pacerStep p (workerReturns r p)"
| quits: "fp_worker p = Looping \<Longrightarrow> fp_quit p \<Longrightarrow> pacerStep p (p\<lparr>fp_worker := Exited\<rparr>)"

inductive_cases pacerStep_cases: "pacerStep p q"

text \<open>
  One wait at a time: a wait is in flight only for the pending kick, every result handed over was produced
  by a wait started for that kick, and while the owner is not stopping a pending kick always has a worker.
\<close>

definition pacerInv :: "FramePacer \<Rightarrow> bool" where
  "pacerInv p \<longleftrightarrow>
     fp_kicked p = fp_taken p + fp_dropped p + (if fp_pending p then 1 else 0) \<and>
     (fp_done p \<longrightarrow> fp_pending p) \<and>
     (fp_worker p = Waiting \<longrightarrow> fp_pending p \<and> \<not> fp_done p) \<and>
     fp_started p \<le> fp_kicked p \<and>
     fp_taken p + (if fp_done p \<or> fp_worker p = Waiting then 1 else 0) \<le> fp_started p \<and>
     fp_started p \<le> fp_taken p + fp_dropped p + (if fp_done p \<or> fp_worker p = Waiting then 1 else 0) \<and>
     (fp_quit p \<longleftrightarrow> fp_owner p = Joining) \<and> (fp_worker p = Exited \<longrightarrow> fp_quit p) \<and>
     (fp_pending p \<longrightarrow> fp_bound p \<and> fp_worker p \<noteq> NoThread)"

lemmas pacer_defs = kick_def takeWait_def stopRequest_def stopJoined_def workerEnters_def workerReturns_def Let_def

lemma pacerStep_inv: "pacerInv p \<Longrightarrow> pacerStep p q \<Longrightarrow> pacerInv q"
proof -
  assume inv: "pacerInv p" and "pacerStep p q"
  from this(2) show ?thesis
  proof cases
    case kick
    then show ?thesis using inv by (cases "fp_pending p"; cases "fp_worker p") (simp_all add: pacerInv_def pacer_defs)
  next
    case take
    then show ?thesis using inv by (cases "fp_pending p") (auto simp: pacerInv_def pacer_defs)
  next
    case joined
    then show ?thesis using inv by (cases "fp_pending p"; cases "fp_done p") (auto simp: pacerInv_def pacer_defs)
  next
    case (returns r)
    then show ?thesis using inv by (simp add: pacerInv_def pacer_defs)
  qed (use inv in \<open>auto simp: pacerInv_def pacer_defs split: if_splits\<close>)
qed

interpretation pacer: step_machine "\<lambda>p. p = newPacer" pacerStep pacerInv
proof unfold_locales
  show "p = newPacer \<Longrightarrow> pacerInv p" for p by (simp add: pacerInv_def newPacer_def)
  show "pacerInv p \<Longrightarrow> pacerStep p q \<Longrightarrow> pacerInv q" for p q by (rule pacerStep_inv)
qed

text \<open>
  At most one \<^verbatim>\<open>xrWaitFrame\<close> is in flight, every result the owner takes came from its own wait, and
  waits never outnumber kicks, in every interleaving of the owner and the worker.
\<close>

theorem pacer_one_wait_at_a_time:
  assumes "reach (\<lambda>p. p = newPacer) pacerStep p"
  shows "fp_taken p \<le> fp_started p \<and> fp_started p \<le> fp_kicked p \<and> fp_kicked p \<le> Suc (fp_taken p + fp_dropped p) \<and>
    (fp_worker p = Waiting \<longrightarrow> fp_pending p \<and> \<not> fp_done p \<and> fst (kick p) = False)"
  using pacer.reach_inv [OF assms] by (auto simp: pacerInv_def kick_def split: if_splits)

text \<open>
  C18: the owner never blocks in \<^verbatim>\<open>take\<close> or \<^verbatim>\<open>stop\<close> with nobody to wake it: with a wait pending and not
  done, or a stop waiting for its join, some worker step is always possible.
\<close>

theorem pacer_never_stuck:
  assumes "reach (\<lambda>p. p = newPacer) pacerStep p"
    and "fp_owner p = Free \<and> fp_pending p \<and> \<not> fp_done p \<or>
         fp_owner p = Joining \<and> fp_worker p \<notin> {NoThread, Exited}"
  shows "\<exists>q. pacerStep p q \<and> fp_worker q \<noteq> fp_worker p"
proof -
  have inv: "pacerInv p" by (rule pacer.reach_inv [OF assms(1)])
  show ?thesis
  proof (cases "fp_worker p")
    case Looping
    show ?thesis
    proof (cases "fp_quit p")
      case True
      then show ?thesis using Looping pacerStep.quits by fastforce
    next
      case False
      then have "fp_pending p" "\<not> fp_done p" using inv assms(2) by (auto simp: pacerInv_def)
      then show ?thesis
        using Looping False pacerStep.enters [of p] by (intro exI [of _ "workerEnters p"]) (simp add: workerEnters_def)
    qed
  next
    case Waiting
    then show ?thesis
      using pacerStep.returns [of p "fp_result p"]
      by (intro exI [of _ "workerReturns (fp_result p) p"]) (simp add: workerReturns_def)
  qed (use inv assms(2) in \<open>auto simp: pacerInv_def\<close>)
qed

definition kickedPacer :: FramePacer where
  "kickedPacer = snd (kick (newPacer\<lparr>fp_bound := True\<rparr>))"

lemma kickedPacer_reach: "reach (\<lambda>p. p = newPacer) pacerStep kickedPacer"
proof -
  have "reach (\<lambda>p. p = newPacer) pacerStep (newPacer\<lparr>fp_bound := True\<rparr>)"
    by (rule reach_step [OF reach_init [of _ newPacer]], simp, rule pacerStep.bind) (simp_all add: newPacer_def)
  then show ?thesis
    unfolding kickedPacer_def by (rule reach_step) (rule pacerStep.kick, simp add: newPacer_def)
qed

theorem pacer_one_wait_at_a_time_witness:
  "fp_kicked kickedPacer = 1 \<and> fp_kicked (workerEnters kickedPacer) \<le> 1 \<and> fst (kick (workerEnters kickedPacer)) = False"
proof -
  have k: "fp_kicked kickedPacer = 1" "fp_worker (workerEnters kickedPacer) = Waiting"
    "fp_taken (workerEnters kickedPacer) + fp_dropped (workerEnters kickedPacer) = 0" by code_simp+
  have "pacerStep kickedPacer (workerEnters kickedPacer)"
    by (rule pacerStep.enters) (simp_all add: kickedPacer_def kick_def newPacer_def)
  from pacer_one_wait_at_a_time [OF reach_step [OF kickedPacer_reach this]] k show ?thesis by simp
qed

theorem pacer_never_stuck_witness: "\<exists>q. pacerStep kickedPacer q \<and> fp_worker q \<noteq> Looping"
proof -
  have "fp_owner kickedPacer = Free" "fp_pending kickedPacer" "\<not> fp_done kickedPacer" "fp_worker kickedPacer = Looping"
    by (simp_all add: kickedPacer_def kick_def newPacer_def)
  then show ?thesis using pacer_never_stuck [OF kickedPacer_reach] by auto
qed

section \<open>The sequential view\<close>

text \<open>What the frame boundary sees of a pacer between two of its calls.\<close>

record PacerView =
  pv_bound :: bool
  pv_pending :: bool

definition viewOf :: "FramePacer \<Rightarrow> PacerView" where
  "viewOf p = \<lparr>pv_bound = fp_bound p, pv_pending = fp_pending p\<rparr>"

definition viewKick :: "PacerView \<Rightarrow> bool \<times> PacerView" where
  "viewKick v = (if pv_bound v \<and> \<not> pv_pending v then (True, v\<lparr>pv_pending := True\<rparr>) else (False, v))"

definition viewTake :: "PacerView \<Rightarrow> bool \<times> PacerView" where
  "viewTake v = (pv_pending v, v\<lparr>pv_pending := False\<rparr>)"

text \<open>
  The threaded pacer implements its sequential view: the owner's calls act on the view as specified,
  and no step of the worker is visible in it.
\<close>

theorem pacer_refines_view:
  "map_prod id viewOf (kick p) = viewKick (viewOf p) \<and>
   map_prod (\<lambda>r. r \<noteq> None) viewOf (takeWait p) = viewTake (viewOf p) \<and>
   viewOf (workerEnters p) = viewOf p \<and> viewOf (workerReturns r p) = viewOf p \<and>
   viewOf (p\<lparr>fp_worker := w\<rparr>) = viewOf p"
  by (auto simp: viewOf_def viewKick_def viewTake_def kick_def takeWait_def workerEnters_def workerReturns_def Let_def)

end
