(* ===== verification/FrameBoundary.thy ===== *)
theory FrameBoundary
  imports FramePacer
begin

text \<open>
  \<^verbatim>\<open>src/openxr/frame_boundary.h\<close>: pairing the game's eye submits with OpenXR frames, in both pacings. Everything
  outside the boundary is a \<open>World\<close>: the runtime, the steady clock, the pacer's waits and the frame sink.
  Each question put to the world has its own number (\<open>fb_tick\<close>), so its answers are arbitrary. The wall
  clock measurements (\<^verbatim>\<open>endFrameMs\<close> and the like) are not modelled.
\<close>

section \<open>World and state\<close>

text \<open>Is the layer a sink composed one that may be submitted: type, next, space, two views.\<close>

record World =
  wd_runtime :: Runtime
  wd_clock :: "nat \<Rightarrow> int"
  wd_ready :: "nat \<Rightarrow> bool"
  wd_wait :: "nat \<Rightarrow> XrResult \<times> XrFrameState"
  wd_capture :: "nat \<Rightarrow> nat"
  wd_compose :: "nat \<Rightarrow> XrResult \<times> bool"
  wd_sceneLayer :: "nat \<Rightarrow> bool"

datatype FramePacing = PacingRuntime | PacingDeferred

text \<open>Calls of the sink that only tell it something.\<close>

datatype SinkNote = SceneFinished bool XrResult

record FrameBoundary =
  fb_session :: SessionState
  fb_pacer :: "PacerView option"
  fb_frame :: Frame
  fb_left :: bool
  fb_right :: bool
  fb_geometryReady :: bool
  fb_failed :: bool
  fb_lastResult :: XrResult
  fb_turbo :: bool
  fb_deferred :: bool
  fb_lastReal :: XrTime
  fb_lastPeriod :: XrTime
  fb_waitEntry :: int
  fb_lastRealAt :: int
  fb_lastHandedOut :: XrTime
  fb_deferredFrames :: u64
  fb_synthesized :: u64
  fb_readyAtWait :: u64
  fb_kicks :: u64
  fb_drainedFrames :: u64
  fb_drainedWaits :: u64
  fb_lateTotal :: u64
  fb_lateWindow :: u64
  fb_tick :: nat
  fb_notes :: "SinkNote list"

definition newBoundary :: "SessionState \<Rightarrow> PacerView option \<Rightarrow> FrameBoundary" where
  "newBoundary s p = \<lparr>fb_session = s, fb_pacer = p, fb_frame = emptyFrame, fb_left = False, fb_right = False,
     fb_geometryReady = False, fb_failed = False, fb_lastResult = XR_SUCCESS, fb_turbo = False, fb_deferred = False,
     fb_lastReal = 0, fb_lastPeriod = 0, fb_waitEntry = 0, fb_lastRealAt = 0, fb_lastHandedOut = 0,
     fb_deferredFrames = 0, fb_synthesized = 0, fb_readyAtWait = 0, fb_kicks = 0, fb_drainedFrames = 0,
     fb_drainedWaits = 0, fb_lateTotal = 0, fb_lateWindow = 0, fb_tick = 0, fb_notes = []\<rparr>"

definition ticked :: "FrameBoundary \<Rightarrow> FrameBoundary" where
  "ticked b = b\<lparr>fb_tick := Suc (fb_tick b)\<rparr>"

definition pacerPending :: "FrameBoundary \<Rightarrow> bool" where
  "pacerPending b \<longleftrightarrow> (case fb_pacer b of None \<Rightarrow> False | Some v \<Rightarrow> pv_pending v)"

definition pacerBound :: "FrameBoundary \<Rightarrow> bool" where
  "pacerBound b \<longleftrightarrow> (case fb_pacer b of None \<Rightarrow> False | Some v \<Rightarrow> pv_bound v)"

definition pacerTake :: "World \<Rightarrow> FrameBoundary \<Rightarrow> (XrResult \<times> XrFrameState) option \<times> FrameBoundary" where
  "pacerTake w b =
     (case fb_pacer b of
        None \<Rightarrow> (None, b)
      | Some v \<Rightarrow>
          (case viewTake v of (taken, v') \<Rightarrow>
             (if taken then (Some (wd_wait w (fb_tick b)), (ticked b)\<lparr>fb_pacer := Some v'\<rparr>) else (None, b))))"

definition pacerKick :: "FrameBoundary \<Rightarrow> bool \<times> FrameBoundary" where
  "pacerKick b =
     (case fb_pacer b of
        None \<Rightarrow> (False, b)
      | Some v \<Rightarrow> (case viewKick v of (ok, v') \<Rightarrow> (ok, b\<lparr>fb_pacer := Some v'\<rparr>)))"

section \<open>Predicted times\<close>

text \<open>
  The quotient is rounded to the nearest period. The code divides doubles; the model divides exactly,
  which is the same for any gap below \<open>2 ^ 53\<close> nanoseconds.
\<close>

definition missedPeriods :: "XrTime \<Rightarrow> XrTime \<Rightarrow> int" where
  "missedPeriods gap period = max 0 ((2 * gap + period) div (2 * period) - 1)"

definition noteReal :: "World \<Rightarrow> XrResult \<Rightarrow> XrTime \<Rightarrow> XrTime \<Rightarrow> FrameBoundary \<Rightarrow> FrameBoundary" where
  "noteReal w waited predicted period b =
     (if (waited = XR_SUCCESS \<or> waited = XR_SESSION_LOSS_PENDING) \<and> 0 < predicted then
        (let missed = (if 0 < fb_lastReal b \<and> 0 < period
                       then word_of_int (missedPeriods (predicted - fb_lastReal b) period) else 0)
         in (ticked b)\<lparr>fb_lateTotal := fb_lateTotal b + missed, fb_lateWindow := fb_lateWindow b + missed,
                       fb_lastReal := predicted, fb_lastPeriod := period,
                       fb_lastRealAt := wd_clock w (fb_tick b)\<rparr>)
      else b)"

definition canSynthesize :: "FrameBoundary \<Rightarrow> bool" where
  "canSynthesize b \<longleftrightarrow> 0 < fb_lastReal b \<and> 0 < fb_lastPeriod b \<and> fb_lastRealAt b \<noteq> 0"

definition synthesizedTime :: "FrameBoundary \<Rightarrow> XrTime" where
  "synthesizedTime b =
     (let elapsed = fb_waitEntry b - fb_lastRealAt b;
          step = (if elapsed < fb_lastPeriod b then fb_lastPeriod b else elapsed);
          cap = fb_lastPeriod b * 2
      in fb_lastReal b + (if step > cap then cap else step))"

definition admitFrame :: "FrameBoundary \<Rightarrow> FrameBoundary" where
  "admitFrame b =
     (let t = (if fr_predictedDisplayTime (fb_frame b) < fb_lastHandedOut b
               then fb_lastHandedOut b else fr_predictedDisplayTime (fb_frame b))
      in b\<lparr>fb_frame := (fb_frame b)\<lparr>fr_predictedDisplayTime := t\<rparr>, fb_lastHandedOut := t\<rparr>)"

definition estimateNow :: "World \<Rightarrow> FrameBoundary \<Rightarrow> XrTime" where
  "estimateNow w b =
     (if \<not> canSynthesize b then 0 else fb_lastReal b + (wd_clock w (fb_tick b) - fb_lastRealAt b))"

section \<open>Closing a frame\<close>

definition failWith :: "XrResult \<Rightarrow> FrameBoundary \<Rightarrow> XrResult \<times> FrameBoundary" where
  "failWith r b = (r, b\<lparr>fb_failed := True, fb_lastResult := r\<rparr>)"

definition usable :: "XrResult \<Rightarrow> bool" where
  "usable r \<longleftrightarrow> r = XR_SUCCESS \<or> r = XR_FRAME_DISCARDED \<or> r = XR_SESSION_LOSS_PENDING"

text \<open>
  The real begin of a deferred frame, as \<^verbatim>\<open>finish\<close> and \<^verbatim>\<open>clear\<close> both do it: take the pacer's result, record it,
  and begin.
\<close>

datatype DeferredBegin = NotTaken | BeginFailed XrResult | Began XrResult

definition completeDeferred :: "World \<Rightarrow> FrameBoundary \<Rightarrow> DeferredBegin \<times> FrameBoundary" where
  "completeDeferred w b =
     (case pacerTake w b of
        (None, b1) \<Rightarrow>
          (NotTaken, b1\<lparr>fb_deferred := False, fb_failed := True, fb_lastResult := XR_ERROR_CALL_ORDER_INVALID\<rparr>)
      | (Some (waited, fs), b1) \<Rightarrow>
          (let b2 = noteReal w waited (fs_time fs) (fs_period fs) (b1\<lparr>fb_deferred := False\<rparr>) in
           case beginDeferred (wd_runtime w) waited fs (fb_session b2) of (r, s) \<Rightarrow>
             (let b3 = b2\<lparr>fb_session := s, fb_lastResult := r\<rparr> in
              if usable r then (Began r, b3) else (BeginFailed r, b3\<lparr>fb_failed := True\<rparr>))))"

definition endEmpty :: "World \<Rightarrow> FrameBoundary \<Rightarrow> XrResult \<times> FrameBoundary" where
  "endEmpty w b =
     (case endFrame (wd_runtime w) (fb_frame b) \<lparr>ei_next = False, ei_layerCount = 0, ei_layers = False\<rparr>
             \<lparr>rr_poseValid = False, rr_renderReady = False\<rparr> (fb_session b) of (r, f, s) \<Rightarrow>
        (let b1 = b\<lparr>fb_session := s, fb_frame := f, fb_lastResult := r\<rparr> in
         (r, if r \<noteq> XR_SUCCESS then b1\<lparr>fb_failed := True\<rparr> else b1)))"

definition resetPair :: "FrameBoundary \<Rightarrow> FrameBoundary" where
  "resetPair b = b\<lparr>fb_left := False, fb_right := False, fb_geometryReady := False\<rparr>"

text \<open>Every operation is refused off the owner thread; the flag says which thread calls.\<close>

definition clearBoundary :: "World \<Rightarrow> bool \<Rightarrow> FrameBoundary \<Rightarrow> XrResult \<times> FrameBoundary" where
  "clearBoundary w ownerThread b =
     (if \<not> ownerThread then (XR_ERROR_CALL_ORDER_INVALID, b)
      else if fb_failed b then (fb_lastResult b, b)
      else if ss_frameOpen (fb_session b) then
        (case (if fb_deferred b then completeDeferred w b else (Began XR_SUCCESS, b)) of
           (NotTaken, b1) \<Rightarrow> (XR_ERROR_CALL_ORDER_INVALID, b1)
         | (BeginFailed r, b1) \<Rightarrow> (r, b1)
         | (Began _, b1) \<Rightarrow>
             (let b2 = (if fb_deferred b then b1\<lparr>fb_drainedFrames := fb_drainedFrames b1 + 1\<rparr> else b1) in
              case endEmpty w b2 of (r, b3) \<Rightarrow>
                if r \<noteq> XR_SUCCESS then (r, b3) else (XR_SUCCESS, resetPair b3)))
      else (XR_SUCCESS, resetPair b))"

text \<open>
  The kick after a successful end, and the scene note. \<open>finishBoundary\<close> is \<^verbatim>\<open>finish\<close>, for a game pair or a
  background frame.
\<close>

definition kickNext :: "FrameBoundary \<Rightarrow> FrameBoundary" where
  "kickNext b =
     (if fb_turbo b \<and> fb_lastResult b = XR_SUCCESS \<and> \<not> ss_terminal (fb_session b)
      then (case pacerKick b of (ok, b1) \<Rightarrow> if ok then b1\<lparr>fb_kicks := fb_kicks b1 + 1\<rparr> else b1)
      else b)"

definition sceneFinished :: "bool \<Rightarrow> bool \<Rightarrow> XrResult \<Rightarrow> FrameBoundary \<Rightarrow> FrameBoundary" where
  "sceneFinished background pixels r b =
     (if background then b else b\<lparr>fb_notes := fb_notes b @ [SceneFinished pixels r]\<rparr>)"

definition endWithLayers :: "World \<Rightarrow> bool \<Rightarrow> bool \<Rightarrow> FrameBoundary \<Rightarrow> XrResult \<times> FrameBoundary" where
  "endWithLayers w background pixels b =
     (case endFrame (wd_runtime w) (fb_frame b)
             \<lparr>ei_next = False, ei_layerCount = (if pixels then 1 else 0), ei_layers = pixels\<rparr>
             \<lparr>rr_poseValid = fb_geometryReady b, rr_renderReady = pixels\<rparr> (fb_session b) of (r, f, s) \<Rightarrow>
        (let b1 = sceneFinished background pixels r (b\<lparr>fb_session := s, fb_frame := f, fb_lastResult := r\<rparr>);
             b2 = (if r \<noteq> XR_SUCCESS then b1\<lparr>fb_failed := True\<rparr> else b1)
         in (r, kickNext b2)))"

definition composeAndEnd :: "World \<Rightarrow> bool \<Rightarrow> bool \<Rightarrow> FrameBoundary \<Rightarrow> XrResult \<times> FrameBoundary" where
  "composeAndEnd w ownerThread background b0 =
     (let asked = (fb_geometryReady b0 \<and> fr_shouldRender (fb_frame b0) \<and> \<not> ss_terminal (fb_session b0));
          pixels = (asked \<and> (background \<or> wd_sceneLayer w (fb_tick b0)));
          b = ticked b0
      in if pixels then
           (case wd_compose w (fb_tick b) of (composed, layerOk) \<Rightarrow>
              let b1 = ticked b in
              if composed \<noteq> XR_SUCCESS
              then failWith composed (if XR_FAILED composed then b1 else snd (clearBoundary w ownerThread b1))
              else if \<not> layerOk
              then failWith XR_ERROR_VALIDATION_FAILURE (snd (clearBoundary w ownerThread b1))
              else endWithLayers w background True b1)
         else endWithLayers w background False b)"

definition finishBoundary :: "World \<Rightarrow> bool \<Rightarrow> bool \<Rightarrow> FrameBoundary \<Rightarrow> XrResult \<times> FrameBoundary" where
  "finishBoundary w ownerThread background b =
     (if fb_deferred b then
        (case completeDeferred w b of
           (NotTaken, b1) \<Rightarrow> (XR_ERROR_CALL_ORDER_INVALID, b1)
         | (BeginFailed r, b1) \<Rightarrow> (r, sceneFinished background False r b1)
         | (Began r, b1) \<Rightarrow>
             composeAndEnd w ownerThread background
               (b1\<lparr>fb_frame := (fb_frame b1)\<lparr>fr_shouldRender := ss_frameShouldRender (fb_session b1),
                                             fr_discarded := (r = XR_FRAME_DISCARDED)\<rparr>,
                   fb_deferredFrames := fb_deferredFrames b1 + 1\<rparr>))
      else composeAndEnd w ownerThread background b)"

section \<open>Waiting\<close>

definition admitOrFail :: "XrResult \<Rightarrow> FrameBoundary \<Rightarrow> XrResult \<times> FrameBoundary" where
  "admitOrFail r b = (if XR_FAILED r then (r, b\<lparr>fb_failed := True\<rparr>) else (r, admitFrame b))"

definition openSynthesized :: "FrameBoundary \<Rightarrow> XrResult \<times> FrameBoundary" where
  "openSynthesized b =
     (case openDeferred (synthesizedTime b) (fb_lastPeriod b) (fb_frame b) (fb_session b) of (r, f, s) \<Rightarrow>
        (let b1 = b\<lparr>fb_session := s, fb_frame := f, fb_lastResult := r\<rparr> in
         admitOrFail r (if XR_FAILED r then b1
                        else b1\<lparr>fb_deferred := True, fb_synthesized := fb_synthesized b1 + 1\<rparr>)))"

definition waitTaken :: "World \<Rightarrow> FrameBoundary \<Rightarrow> XrResult \<times> FrameBoundary" where
  "waitTaken w b0 =
     (case pacerTake w b0 of (took, b) \<Rightarrow>
      case (case took of None \<Rightarrow> (XR_SUCCESS, \<lparr>fs_time = 0, fs_period = 0, fs_shouldRender = False\<rparr>) | Some x \<Rightarrow> x) of
        (waited, fs) \<Rightarrow>
          (let b1 = noteReal w waited (fs_time fs) (fs_period fs) b in
           case beginWaited (wd_runtime w) waited fs (fb_frame b1) (fb_session b1) of (r, f, s) \<Rightarrow>
             (let b2 = b1\<lparr>fb_session := s, fb_frame := f, fb_lastResult := r\<rparr> in
              admitOrFail r (if \<not> XR_FAILED r \<and> fb_turbo b2 then b2\<lparr>fb_readyAtWait := fb_readyAtWait b2 + 1\<rparr> else b2))))"

definition waitBlocking :: "World \<Rightarrow> FrameBoundary \<Rightarrow> XrResult \<times> FrameBoundary" where
  "waitBlocking w b =
     (case waitAndBegin (wd_runtime w) (fb_frame b) (fb_session b) of (r, f, s) \<Rightarrow>
        (let b1 = b\<lparr>fb_session := s, fb_frame := f, fb_lastResult := r\<rparr> in
         admitOrFail r (if XR_FAILED r then b1
           else noteReal w XR_SUCCESS (fr_predictedDisplayTime f) (fr_predictedDisplayPeriod f) b1)))"

text \<open>The wait proper, once the preceding frame is closed.\<close>

definition waitPaced :: "World \<Rightarrow> FrameBoundary \<Rightarrow> XrResult \<times> FrameBoundary" where
  "waitPaced w b =
     (if pacerPending b then
        (if fb_turbo b \<and> \<not> wd_ready w (fb_tick b) \<and> canSynthesize b then openSynthesized (ticked b)
         else waitTaken w (ticked b))
      else if fb_turbo b \<and> canSynthesize b then
        (case pacerKick b of (ok, b1) \<Rightarrow>
           if ok then openSynthesized (b1\<lparr>fb_kicks := fb_kicks b1 + 1\<rparr>) else waitBlocking w b1)
      else waitBlocking w b)"

definition boundaryWait :: "World \<Rightarrow> bool \<Rightarrow> FramePacing \<Rightarrow> FrameBoundary \<Rightarrow> XrResult \<times> FrameBoundary" where
  "boundaryWait w ownerThread pacing b0 =
     (if \<not> ownerThread then (XR_ERROR_CALL_ORDER_INVALID, b0)
      else if fb_failed b0 then (fb_lastResult b0, b0)
      else
        (case clearBoundary w ownerThread b0 of (closed, b1) \<Rightarrow>
           if closed \<noteq> XR_SUCCESS then (closed, b1)
           else waitPaced w ((ticked b1)\<lparr>fb_frame := emptyFrame, fb_waitEntry := wd_clock w (fb_tick b1),
                               fb_turbo := (pacing = PacingDeferred \<and> pacerBound b1)\<rparr>)))"

section \<open>Submitting\<close>

abbreviation VRCompositorError_None :: nat where "VRCompositorError_None \<equiv> 0"
abbreviation VRCompositorError_IndexOutOfRange :: nat where "VRCompositorError_IndexOutOfRange \<equiv> 107"
abbreviation VRCompositorError_InvalidTexture :: nat where "VRCompositorError_InvalidTexture \<equiv> 102"

definition setGeometryReady :: "bool \<Rightarrow> bool \<Rightarrow> FrameBoundary \<Rightarrow> FrameBoundary" where
  "setGeometryReady ownerThread ready b =
     (if ownerThread \<and> ss_frameOpen (fb_session b) \<and> \<not> fb_left b \<and> \<not> fb_right b
      then b\<lparr>fb_geometryReady := ready\<rparr> else b)"

text \<open>Eye 0 is left, 1 is right; the Boolean of the result says whether the pair is complete.\<close>

definition publish :: "World \<Rightarrow> bool \<Rightarrow> nat \<Rightarrow> FrameBoundary \<Rightarrow> nat \<times> bool \<times> FrameBoundary" where
  "publish w ownerThread eye b =
     (if \<not> ownerThread then (VRCompositorError_InvalidTexture, False, b)
      else if eye \<noteq> 0 \<and> eye \<noteq> 1 then (VRCompositorError_IndexOutOfRange, False, b)
      else if fb_failed b \<or> \<not> ss_frameOpen (fb_session b) \<or> (if eye = 0 then fb_left b else fb_right b)
      then (VRCompositorError_InvalidTexture, False, b)
      else
        (let captured = wd_capture w (fb_tick b); b1 = ticked b in
         if captured \<noteq> VRCompositorError_None then (captured, False, b1)
         else
           (let b2 = (if eye = 0 then b1\<lparr>fb_left := True\<rparr> else b1\<lparr>fb_right := True\<rparr>) in
            (VRCompositorError_None, fb_left b2 \<and> fb_right b2, b2))))"

definition finishPair :: "World \<Rightarrow> bool \<Rightarrow> FrameBoundary \<Rightarrow> XrResult \<times> FrameBoundary" where
  "finishPair w ownerThread b = finishBoundary w ownerThread False b"

definition submit :: "World \<Rightarrow> bool \<Rightarrow> nat \<Rightarrow> FrameBoundary \<Rightarrow> nat \<times> FrameBoundary" where
  "submit w ownerThread eye b =
     (case publish w ownerThread eye b of (captured, pairReady, b1) \<Rightarrow>
        if captured \<noteq> VRCompositorError_None \<or> \<not> pairReady then (captured, b1)
        else (case finishPair w ownerThread b1 of (r, b2) \<Rightarrow>
                (if r = XR_SUCCESS then VRCompositorError_None else VRCompositorError_InvalidTexture, b2)))"

definition background :: "World \<Rightarrow> bool \<Rightarrow> FrameBoundary \<Rightarrow> XrResult \<times> FrameBoundary" where
  "background w ownerThread b =
     (if \<not> ownerThread then (XR_ERROR_CALL_ORDER_INVALID, b)
      else if fb_failed b then (fb_lastResult b, b)
      else if \<not> ss_frameOpen (fb_session b) \<or> fb_left b \<or> fb_right b then (XR_ERROR_CALL_ORDER_INVALID, b)
      else finishBoundary w ownerThread True b)"

section \<open>Draining\<close>

definition drain :: "World \<Rightarrow> bool \<Rightarrow> FrameBoundary \<Rightarrow> XrResult \<times> FrameBoundary" where
  "drain w ownerThread b =
     (if \<not> ownerThread then (XR_ERROR_CALL_ORDER_INVALID, b)
      else if fb_failed b then (fb_lastResult b, b)
      else
        (case clearBoundary w ownerThread b of (cleared, b1) \<Rightarrow>
           if cleared \<noteq> XR_SUCCESS then (cleared, b1)
           else
             (case pacerTake w b1 of
                (None, b2) \<Rightarrow> (fb_lastResult b2, b2)
              | (Some (waited, fs), b2) \<Rightarrow>
                  (let b3 = b2\<lparr>fb_drainedWaits := fb_drainedWaits b2 + 1\<rparr> in
                   if ss_running (fb_session b3) \<and> \<not> ss_terminal (fb_session b3) \<and>
                      (waited = XR_SUCCESS \<or> waited = XR_SESSION_LOSS_PENDING) then
                     (let b4 = noteReal w waited (fs_time fs) (fs_period fs) b3 in
                      case beginWaited (wd_runtime w) waited fs emptyFrame (fb_session b4) of (r, scratch, s) \<Rightarrow>
                        (let b5 = b4\<lparr>fb_session := s\<rparr> in
                         if r = XR_SUCCESS then
                           (case endFrame (wd_runtime w) scratch \<lparr>ei_next = False, ei_layerCount = 0, ei_layers = False\<rparr>
                                   \<lparr>rr_poseValid = False, rr_renderReady = False\<rparr> s of (ended, f, s2) \<Rightarrow>
                              (ended, b5\<lparr>fb_session := s2, fb_lastResult := ended,
                                         fb_failed := (fb_failed b5 \<or> XR_FAILED ended)\<rparr>))
                         else (fb_lastResult b5, b5)))
                   else (fb_lastResult b3, b3)))))"

definition takeLateFramesWindow :: "FrameBoundary \<Rightarrow> u64 \<times> FrameBoundary" where
  "takeLateFramesWindow b = (fb_lateWindow b, b\<lparr>fb_lateWindow := 0\<rparr>)"

end
