(* ===== verification/BoundaryProps.thy ===== *)
theory BoundaryProps
  imports FrameBoundary SessionProps
begin

text \<open>
  The frame boundary: times handed out never decrease, a successful wait leaves exactly its own frame open,
  and the session below sees its calls in order.
\<close>

section \<open>What each helper leaves alone\<close>

lemma ticked_fields [simp]:
  "fb_session (ticked b) = fb_session b" "fb_frame (ticked b) = fb_frame b" "fb_failed (ticked b) = fb_failed b"
  "fb_deferred (ticked b) = fb_deferred b" "fb_lastHandedOut (ticked b) = fb_lastHandedOut b"
  "fb_lastResult (ticked b) = fb_lastResult b" "fb_pacer (ticked b) = fb_pacer b" "fb_turbo (ticked b) = fb_turbo b"
  "fb_left (ticked b) = fb_left b" "fb_right (ticked b) = fb_right b" "fb_geometryReady (ticked b) = fb_geometryReady b"
  by (simp_all add: ticked_def)

lemma noteReal_fields [simp]:
  "fb_session (noteReal w r t p b) = fb_session b" "fb_frame (noteReal w r t p b) = fb_frame b"
  "fb_failed (noteReal w r t p b) = fb_failed b" "fb_deferred (noteReal w r t p b) = fb_deferred b"
  "fb_lastHandedOut (noteReal w r t p b) = fb_lastHandedOut b" "fb_lastResult (noteReal w r t p b) = fb_lastResult b"
  "fb_pacer (noteReal w r t p b) = fb_pacer b" "fb_turbo (noteReal w r t p b) = fb_turbo b"
  "fb_left (noteReal w r t p b) = fb_left b" "fb_right (noteReal w r t p b) = fb_right b"
  by (simp_all add: noteReal_def Let_def)

lemma pacerTake_fields [simp]:
  "fb_session (snd (pacerTake w b)) = fb_session b" "fb_frame (snd (pacerTake w b)) = fb_frame b"
  "fb_failed (snd (pacerTake w b)) = fb_failed b" "fb_deferred (snd (pacerTake w b)) = fb_deferred b"
  "fb_lastHandedOut (snd (pacerTake w b)) = fb_lastHandedOut b" "fb_lastResult (snd (pacerTake w b)) = fb_lastResult b"
  "fb_turbo (snd (pacerTake w b)) = fb_turbo b"
  "fb_left (snd (pacerTake w b)) = fb_left b" "fb_right (snd (pacerTake w b)) = fb_right b"
  by (simp_all add: pacerTake_def split: option.splits prod.splits)

lemma pacerKick_fields [simp]:
  "fb_session (snd (pacerKick b)) = fb_session b" "fb_frame (snd (pacerKick b)) = fb_frame b"
  "fb_failed (snd (pacerKick b)) = fb_failed b" "fb_deferred (snd (pacerKick b)) = fb_deferred b"
  "fb_lastHandedOut (snd (pacerKick b)) = fb_lastHandedOut b" "fb_lastResult (snd (pacerKick b)) = fb_lastResult b"
  "fb_left (snd (pacerKick b)) = fb_left b" "fb_right (snd (pacerKick b)) = fb_right b"
  by (simp_all add: pacerKick_def split: option.splits prod.splits)

lemma kickNext_fields [simp]:
  "fb_session (kickNext b) = fb_session b" "fb_frame (kickNext b) = fb_frame b" "fb_failed (kickNext b) = fb_failed b"
  "fb_deferred (kickNext b) = fb_deferred b" "fb_lastHandedOut (kickNext b) = fb_lastHandedOut b"
  "fb_left (kickNext b) = fb_left b" "fb_right (kickNext b) = fb_right b"
  by (simp_all add: kickNext_def case_prod_beta)

lemma sceneFinished_fields [simp]:
  "fb_session (sceneFinished bg px r b) = fb_session b" "fb_frame (sceneFinished bg px r b) = fb_frame b"
  "fb_failed (sceneFinished bg px r b) = fb_failed b" "fb_deferred (sceneFinished bg px r b) = fb_deferred b"
  "fb_lastHandedOut (sceneFinished bg px r b) = fb_lastHandedOut b"
  "fb_left (sceneFinished bg px r b) = fb_left b" "fb_right (sceneFinished bg px r b) = fb_right b"
  by (simp_all add: sceneFinished_def)

lemma resetPair_fields [simp]:
  "fb_session (resetPair b) = fb_session b" "fb_frame (resetPair b) = fb_frame b" "fb_failed (resetPair b) = fb_failed b"
  "fb_deferred (resetPair b) = fb_deferred b" "fb_lastHandedOut (resetPair b) = fb_lastHandedOut b"
  "\<not> fb_left (resetPair b)" "\<not> fb_right (resetPair b)"
  by (simp_all add: resetPair_def)

section \<open>Handed-out times\<close>

lemma completeDeferred_handed [simp]: "fb_lastHandedOut (snd (completeDeferred w b)) = fb_lastHandedOut b"
  by (simp add: completeDeferred_def Let_def case_prod_beta split: option.split)

lemma endEmpty_handed [simp]: "fb_lastHandedOut (snd (endEmpty w b)) = fb_lastHandedOut b"
  by (simp add: endEmpty_def Let_def case_prod_beta)

lemma clearBoundary_handed [simp]: "fb_lastHandedOut (snd (clearBoundary w own b)) = fb_lastHandedOut b"
  using completeDeferred_handed [of w b]
  by (auto simp: clearBoundary_def Let_def case_prod_beta split: DeferredBegin.split)

lemma endWithLayers_handed [simp]: "fb_lastHandedOut (snd (endWithLayers w bg px b)) = fb_lastHandedOut b"
  by (simp add: endWithLayers_def Let_def case_prod_beta)

lemma composeAndEnd_handed [simp]: "fb_lastHandedOut (snd (composeAndEnd w own bg b)) = fb_lastHandedOut b"
  by (simp add: composeAndEnd_def Let_def failWith_def case_prod_beta)

lemma finishBoundary_handed [simp]: "fb_lastHandedOut (snd (finishBoundary w own bg b)) = fb_lastHandedOut b"
  using completeDeferred_handed [of w b]
  by (auto simp: finishBoundary_def case_prod_beta split: DeferredBegin.split)

lemma admit_handed:
  "fb_lastHandedOut b \<le> fb_lastHandedOut (snd (admitOrFail r b))"
  "\<not> XR_FAILED r \<Longrightarrow> fb_lastHandedOut (snd (admitOrFail r b)) = fr_predictedDisplayTime (fb_frame (snd (admitOrFail r b)))"
  "fst (admitOrFail r b) = r"
  by (simp_all add: admitOrFail_def admitFrame_def Let_def)

definition handsOut :: "FrameBoundary \<Rightarrow> XrResult \<times> FrameBoundary \<Rightarrow> bool" where
  "handsOut b x \<longleftrightarrow> fb_lastHandedOut b \<le> fb_lastHandedOut (snd x) \<and>
     (\<not> XR_FAILED (fst x) \<longrightarrow> fb_lastHandedOut (snd x) = fr_predictedDisplayTime (fb_frame (snd x)))"

lemma admit_handsOut: "fb_lastHandedOut b = fb_lastHandedOut b' \<Longrightarrow> handsOut b (admitOrFail r b')"
  using admit_handed(1) [of b' r] admit_handed(2,3) [of r b'] by (simp add: handsOut_def)

lemma waits_handsOut: "handsOut b (openSynthesized b)" "handsOut b (waitTaken w b)" "handsOut b (waitBlocking w b)"
  by (auto simp: openSynthesized_def waitTaken_def waitBlocking_def Let_def case_prod_beta intro!: admit_handsOut)

lemma handsOut_same: "fb_lastHandedOut b = fb_lastHandedOut b' \<Longrightarrow> handsOut b' x \<Longrightarrow> handsOut b x"
  by (simp add: handsOut_def)

lemma waitPaced_handsOut: "handsOut b (waitPaced w b)"
  using waits_handsOut(1) [of "ticked b"] waits_handsOut(2) [of "ticked b" w] waits_handsOut(3) [of b w]
    waits_handsOut(1) [of "(snd (pacerKick b))\<lparr>fb_kicks := fb_kicks (snd (pacerKick b)) + 1\<rparr>"]
    waits_handsOut(3) [of "snd (pacerKick b)" w]
  by (simp add: waitPaced_def case_prod_beta handsOut_def)

lemma boundaryWait_eq:
  assumes "\<not> fb_failed b" "clearBoundary w True b = (XR_SUCCESS, b1)"
  shows "boundaryWait w True pacing b = waitPaced w ((ticked b1)\<lparr>fb_frame := emptyFrame,
    fb_waitEntry := wd_clock w (fb_tick b1), fb_turbo := (pacing = PacingDeferred \<and> pacerBound b1)\<rparr>)"
  using assms by (simp add: boundaryWait_def)

lemma boundaryWait_handsOut:
  assumes "own" "\<not> fb_failed b" "fst (clearBoundary w own b) = XR_SUCCESS"
  shows "handsOut b (boundaryWait w own pacing b)"
proof -
  have own: "own = True" using assms(1) by simp
  obtain b1 where c: "clearBoundary w True b = (XR_SUCCESS, b1)" using assms(3) own by (metis prod.collapse)
  then have h: "fb_lastHandedOut b = fb_lastHandedOut b1" using clearBoundary_handed [of w True b] by simp
  show ?thesis
    unfolding own boundaryWait_eq [OF assms(2) c] by (rule handsOut_same [OF _ waitPaced_handsOut]) (simp add: h)
qed

lemma boundaryWait_mono: "fb_lastHandedOut b \<le> fb_lastHandedOut (snd (boundaryWait w own pacing b))"
proof (cases "own \<and> \<not> fb_failed b \<and> fst (clearBoundary w own b) = XR_SUCCESS")
  case True
  then show ?thesis using boundaryWait_handsOut by (auto simp: handsOut_def)
next
  case False
  then show ?thesis using clearBoundary_handed [of w own b] by (auto simp: boundaryWait_def case_prod_beta)
qed

lemma drain_handed: "fb_lastHandedOut (snd (drain w own b)) = fb_lastHandedOut b"
  by (auto simp: drain_def Let_def case_prod_beta split: option.split)

lemma publish_handed: "fb_lastHandedOut (snd (snd (publish w own eye b))) = fb_lastHandedOut b"
  by (simp add: publish_def Let_def)

section \<open>A failed session answers with an error\<close>

definition hardInv :: "SessionState \<Rightarrow> bool" where
  "hardInv s \<longleftrightarrow> (ss_hardFailure s \<longrightarrow> XR_FAILED (ss_lastResult s))"

lemma fail_hard: "XR_FAILED r \<Longrightarrow> hardInv (snd (fail r s))"
  by (simp add: hardInv_def fail_def)

lemma soft_hard: "\<not> ss_hardFailure s \<Longrightarrow> hardInv s"
  by (simp add: hardInv_def)

lemma pollLoop_hard: "\<not> ss_hardFailure s \<Longrightarrow> hardInv (snd (pollLoop rt n s))"
proof (induction n arbitrary: s)
  case (Suc n)
  then show ?case
    by (auto simp: Let_def fail_hard soft_hard split: XrEvent.split XrSessionState.split)
qed (simp add: soft_hard)

lemma finish_hard: "\<not> ss_hardFailure s \<Longrightarrow> hardInv (snd (finish rt i l s))"
  by (auto simp: finish_def Let_def fail_hard soft_hard)

lemma beginFromWait_hard: "\<not> ss_hardFailure s \<Longrightarrow> hardInv (snd (snd (beginFromWait rt w fs s)))"
  by (auto simp: beginFromWait_def Let_def case_prod_beta fail_hard soft_hard)

lemma waitAndBegin_hard: "hardInv s \<Longrightarrow> hardInv (snd (snd (waitAndBegin rt out s)))"
  by (auto simp: waitAndBegin_def Let_def beginFromWait_hard)

lemma beginWaited_hard: "hardInv s \<Longrightarrow> hardInv (snd (snd (beginWaited rt w fs out s)))"
  by (auto simp: beginWaited_def beginFromWait_hard)

lemma openDeferred_hard: "hardInv s \<Longrightarrow> hardInv (snd (snd (openDeferred t p out s)))"
  by (auto simp: openDeferred_def Let_def hardInv_def)

lemma beginDeferred_hard: "hardInv s \<Longrightarrow> hardInv (snd (beginDeferred rt w fs s))"
  by (auto simp: beginDeferred_def Let_def fail_hard soft_hard)

lemma endFrame_hard: "hardInv s \<Longrightarrow> hardInv (snd (snd (endFrame rt f i rr s)))"
  by (auto simp: endFrame_def Let_def case_prod_beta finish_hard)

lemma sessInv_phase: "sessInv rt s \<Longrightarrow> phaseOf rt (ss_calls s) \<noteq> None"
  by (auto simp: sessInv_def phaseInv_def split: if_splits)

lemma sessInv_terminal: "sessInv rt s \<Longrightarrow> \<not> ss_terminal s \<Longrightarrow> \<not> ss_hardFailure s"
  by (auto simp: sessInv_def phaseInv_def)

lemma sessInv_deferred: "sessInv rt s \<Longrightarrow> ss_deferred s \<Longrightarrow> ss_frameOpen s \<and> ss_running s"
  by (auto simp: sessInv_def phaseInv_def)

lemma startIfReady_hard: "hardInv s \<Longrightarrow> sessInv rt s \<Longrightarrow> hardInv (snd (startIfReady rt s))"
  using sessInv_terminal [of rt s] by (auto simp: startIfReady_def Let_def fail_hard soft_hard)

lemma pollEvents_hard: "hardInv s \<Longrightarrow> sessInv rt s \<Longrightarrow> hardInv (snd (pollEvents rt n s))"
  using sessInv_terminal [of rt s] by (auto simp: pollEvents_def fail_hard intro!: pollLoop_hard)

lemma stop_hard: "hardInv s \<Longrightarrow> hardInv (snd (stop rt s))"
  using finish_hard [of s rt "\<lparr>ei_next = False, ei_layerCount = 0, ei_layers = False\<rparr>" False]
    finish_result(1) [of s rt "\<lparr>ei_next = False, ei_layerCount = 0, ei_layers = False\<rparr>" False]
  by (auto simp: stop_def Let_def case_prod_beta fail_hard soft_hard)

section \<open>Runs of the boundary\<close>

datatype BoundaryOp = BWait bool FramePacing | BGeometry bool bool | BPublish bool nat | BFinishPair bool
  | BSubmit bool nat | BBackground bool | BClear bool | BDrain bool | BLateWindow | BPoll nat | BStart | BStop

definition onSession :: "(SessionState \<Rightarrow> XrResult \<times> SessionState) \<Rightarrow> FrameBoundary \<Rightarrow> FrameBoundary" where
  "onSession f b = b\<lparr>fb_session := snd (f (fb_session b))\<rparr>"

definition execBoundary :: "World \<Rightarrow> BoundaryOp \<Rightarrow> FrameBoundary \<Rightarrow> FrameBoundary" where
  "execBoundary w a b =
     (case a of
        BWait own pacing \<Rightarrow> snd (boundaryWait w own pacing b)
      | BGeometry own r \<Rightarrow> setGeometryReady own r b
      | BPublish own eye \<Rightarrow> snd (snd (publish w own eye b))
      | BFinishPair own \<Rightarrow> snd (finishPair w own b)
      | BSubmit own eye \<Rightarrow> snd (submit w own eye b)
      | BBackground own \<Rightarrow> snd (background w own b)
      | BClear own \<Rightarrow> snd (clearBoundary w own b)
      | BDrain own \<Rightarrow> snd (drain w own b)
      | BLateWindow \<Rightarrow> snd (takeLateFramesWindow b)
      | BPoll n \<Rightarrow> onSession (pollEvents (wd_runtime w) n) b
      | BStart \<Rightarrow> onSession (startIfReady (wd_runtime w)) b
      | BStop \<Rightarrow> onSession (stop (wd_runtime w)) b)"

lemma exec_handed: "fb_lastHandedOut b \<le> fb_lastHandedOut (execBoundary w a b)"
  by (auto simp: execBoundary_def boundaryWait_mono setGeometryReady_def publish_handed finishPair_def submit_def
      background_def drain_handed takeLateFramesWindow_def onSession_def case_prod_beta split: BoundaryOp.split)

lemma run_handed: "fb_lastHandedOut b \<le> fb_lastHandedOut (fold (execBoundary w) ops b)"
proof (induction ops arbitrary: b)
  case (Cons a ops)
  show ?case using exec_handed [of b w a] Cons [of "execBoundary w a b"] by simp
qed simp

definition waitSucceeds :: "World \<Rightarrow> FramePacing \<Rightarrow> FrameBoundary \<Rightarrow> bool" where
  "waitSucceeds w pacing b \<longleftrightarrow> \<not> fb_failed b \<and> fst (clearBoundary w True b) = XR_SUCCESS \<and>
     \<not> XR_FAILED (fst (boundaryWait w True pacing b))"

text \<open>
  C13: the predicted display times handed to the game never decrease, whatever the runtime predicts, in
  either pacing and with anything in between: a later successful wait hands out a time no earlier.
\<close>

theorem handed_out_times_monotone:
  assumes "waitSucceeds w p1 b" and "b1 = snd (boundaryWait w True p1 b)"
    and "b2 = fold (execBoundary w) ops b1" and "waitSucceeds w p2 b2"
  shows "fr_predictedDisplayTime (fb_frame b1) \<le> fr_predictedDisplayTime (fb_frame (snd (boundaryWait w True p2 b2)))"
proof -
  have "handsOut b (boundaryWait w True p1 b)" "handsOut b2 (boundaryWait w True p2 b2)"
    using assms(1,4) by (auto simp: waitSucceeds_def intro: boundaryWait_handsOut)
  then have "fb_lastHandedOut b1 = fr_predictedDisplayTime (fb_frame b1)"
    "fb_lastHandedOut b2 \<le> fr_predictedDisplayTime (fb_frame (snd (boundaryWait w True p2 b2)))"
    using assms(1,2,4) by (auto simp: handsOut_def waitSucceeds_def)
  moreover have "fb_lastHandedOut b1 \<le> fb_lastHandedOut b2" unfolding assms(3) by (rule run_handed)
  ultimately show ?thesis by simp
qed

text \<open>
  A synthesized time lies between one and two periods after the last real prediction.
\<close>

theorem synthesized_time_bounds:
  assumes "canSynthesize b"
  shows "fb_lastReal b + fb_lastPeriod b \<le> synthesizedTime b \<and> synthesizedTime b \<le> fb_lastReal b + 2 * fb_lastPeriod b"
  using assms by (auto simp: canSynthesize_def synthesizedTime_def Let_def)

section \<open>The session below\<close>

definition bInv :: "World \<Rightarrow> FrameBoundary \<Rightarrow> bool" where
  "bInv w b \<longleftrightarrow> sessInv (wd_runtime w) (fb_session b) \<and> hardInv (fb_session b) \<and>
     (\<not> fb_failed b \<and> \<not> ss_hardFailure (fb_session b) \<longrightarrow> fb_deferred b = ss_deferred (fb_session b))"

lemma bInv_cong:
  "fb_session b = fb_session b' \<Longrightarrow> fb_deferred b = fb_deferred b' \<Longrightarrow> (fb_failed b' \<longrightarrow> fb_failed b) \<Longrightarrow>
   bInv w b' \<Longrightarrow> bInv w b"
  by (auto simp: bInv_def)


lemma pollLoop_deferred: "ss_deferred (snd (pollLoop rt n s)) = ss_deferred s"
  by (induction n arbitrary: s) (auto simp: Let_def split: XrEvent.split XrSessionState.split)

lemma endFrame_deferred [simp]: "ss_deferred (snd (snd (endFrame rt f i rr s))) = ss_deferred s"
  by (auto simp: endFrame_def finish_def Let_def case_prod_beta)

lemma beginFromWait_deferred [simp]: "ss_deferred (snd (snd (beginFromWait rt w fs s))) = ss_deferred s"
  by (auto simp: beginFromWait_def Let_def case_prod_beta)

lemma waits_deferred [simp]:
  "ss_deferred (snd (snd (waitAndBegin rt out s))) = ss_deferred s"
  "ss_deferred (snd (snd (beginWaited rt w fs out s))) = ss_deferred s"
  by (auto simp: waitAndBegin_def beginWaited_def Let_def)

lemma beginDeferred_deferred:
  "ss_deferred s \<Longrightarrow> ss_frameOpen s \<Longrightarrow> \<not> ss_hardFailure (snd (beginDeferred rt w fs s)) \<Longrightarrow>
   \<not> ss_deferred (snd (beginDeferred rt w fs s)) \<and> \<not> ss_hardFailure s"
  by (auto simp: beginDeferred_def Let_def split: if_splits)

lemma hard_sticky:
  "ss_hardFailure s \<Longrightarrow> ss_hardFailure (snd (snd (endFrame rt f i rr s)))"
  "ss_hardFailure s \<Longrightarrow> ss_hardFailure (snd (snd (waitAndBegin rt out s)))"
  "ss_hardFailure s \<Longrightarrow> ss_hardFailure (snd (snd (beginWaited rt w fs out s)))"
  "ss_hardFailure s \<Longrightarrow> ss_hardFailure (snd (beginDeferred rt w fs s))"
  by (simp_all add: endFrame_def waitAndBegin_def beginWaited_def beginDeferred_def)

lemma polls_keep:
  assumes "sessInv rt s"
  shows "ss_deferred (snd (pollEvents rt n s)) = ss_deferred s"
    "ss_deferred (snd (startIfReady rt s)) = ss_deferred s"
    "ss_deferred (snd (stop rt s)) = ss_deferred s"
    "ss_hardFailure s \<Longrightarrow> ss_hardFailure (snd (pollEvents rt n s)) \<and> ss_hardFailure (snd (startIfReady rt s)) \<and>
      ss_hardFailure (snd (stop rt s))"
proof -
  note i = sessInv_terminal [OF assms] sessInv_deferred [OF assms]
  show "ss_deferred (snd (pollEvents rt n s)) = ss_deferred s"
    by (simp add: pollEvents_def pollLoop_deferred)
  show "ss_deferred (snd (startIfReady rt s)) = ss_deferred s"
    using i(2) by (auto simp: startIfReady_def Let_def)
  show "ss_deferred (snd (stop rt s)) = ss_deferred s"
    using i(2) by (auto simp: stop_def finish_def Let_def case_prod_beta)
  show "ss_hardFailure s \<Longrightarrow> ss_hardFailure (snd (pollEvents rt n s)) \<and> ss_hardFailure (snd (startIfReady rt s)) \<and>
      ss_hardFailure (snd (stop rt s))"
    using i(1) by (auto simp: pollEvents_def startIfReady_def stop_def)
qed

lemmas session_hards = waitAndBegin_hard beginWaited_hard openDeferred_hard beginDeferred_hard endFrame_hard

lemma completeDeferred_inv:
  assumes "bInv w b" "fb_deferred b"
  shows "bInv w (snd (completeDeferred w b))"
proof (cases "fst (pacerTake w b)")
  case None
  then obtain b1 where t: "pacerTake w b = (None, b1)" by (metis prod.collapse)
  then have "fb_session b1 = fb_session b" using pacerTake_fields(1) [of w b] by simp
  then show ?thesis using assms by (simp add: completeDeferred_def t bInv_def)
next
  case (Some x)
  then obtain b1 waited fs where t: "pacerTake w b = (Some (waited, fs), b1)" by (metis prod.collapse surj_pair)
  then have b1: "fb_session b1 = fb_session b" "fb_failed b1 = fb_failed b"
    using pacerTake_fields(1,3) [of w b] by simp_all
  let ?s = "snd (beginDeferred (wd_runtime w) waited fs (fb_session b))"
  have "sessInv (wd_runtime w) ?s" "hardInv ?s"
    using assms(1) by (simp_all add: bInv_def beginDeferred_inv beginDeferred_hard)
  moreover have "\<not> ss_deferred ?s" if "\<not> fb_failed b" "\<not> ss_hardFailure ?s"
  proof -
    have "\<not> ss_hardFailure (fb_session b)" using hard_sticky(4) that(2) by blast
    then have "ss_deferred (fb_session b)" using assms that(1) by (simp add: bInv_def)
    then show ?thesis
      using beginDeferred_deferred that(2) sessInv_deferred assms(1) unfolding bInv_def by blast
  qed
  ultimately show ?thesis by (simp add: completeDeferred_def t Let_def case_prod_beta bInv_def b1)
qed

lemma completeDeferred_fields [simp]:
  "\<not> fb_deferred (snd (completeDeferred w b))"
  "fb_failed b \<Longrightarrow> fb_failed (snd (completeDeferred w b))"
  "fst (completeDeferred w b) = NotTaken \<or> fst (completeDeferred w b) = BeginFailed r \<Longrightarrow> fb_failed (snd (completeDeferred w b))"
  using pacerTake_fields(3) [of w b]
  by (auto simp: completeDeferred_def Let_def case_prod_beta split: option.splits if_splits)

lemma endEmpty_inv: "bInv w b \<Longrightarrow> bInv w (snd (endEmpty w b))"
  using hard_sticky(1) by (auto simp: endEmpty_def Let_def case_prod_beta bInv_def endFrame_inv endFrame_hard)

lemma clearBoundary_inv:
  assumes "bInv w b"
  shows "bInv w (snd (clearBoundary w own b))"
proof -
  let ?c = "if fb_deferred b then completeDeferred w b else (Began XR_SUCCESS, b)"
  have c: "bInv w (snd ?c)" using assms completeDeferred_inv by simp
  have "bInv w (if fb_deferred b then (snd ?c)\<lparr>fb_drainedFrames := fb_drainedFrames (snd ?c) + 1\<rparr> else snd ?c)"
    using c by (auto intro: bInv_cong)
  from endEmpty_inv [OF this] c assms show ?thesis
    by (auto simp: clearBoundary_def Let_def case_prod_beta intro: bInv_cong split: DeferredBegin.split)
qed

lemma endWithLayers_inv: "bInv w b \<Longrightarrow> bInv w (snd (endWithLayers w bg px b))"
  using hard_sticky(1) by (auto simp: endWithLayers_def Let_def case_prod_beta bInv_def endFrame_inv endFrame_hard)

lemma composeAndEnd_inv:
  assumes "bInv w b"
  shows "bInv w (snd (composeAndEnd w own bg b))"
proof -
  have t: "bInv w (ticked b')" if "bInv w b'" for b' using that by (rule bInv_cong [rotated 3]) simp_all
  have f: "bInv w (snd (failWith r b'))" if "bInv w b'" for b' r
    using that by (auto simp: failWith_def bInv_def)
  note t1 = t [OF assms] and t2 = t [OF t [OF assms]]
  show ?thesis
    using f [OF t2] f [OF clearBoundary_inv [OF t2, of own]] endWithLayers_inv [OF t2] endWithLayers_inv [OF t1]
    by (simp add: composeAndEnd_def Let_def case_prod_beta)
qed

lemma finishBoundary_inv:
  assumes "bInv w b"
  shows "bInv w (snd (finishBoundary w own bg b))"
proof (cases "fb_deferred b")
  case True
  let ?b = "snd (completeDeferred w b)"
  have c: "bInv w ?b" by (rule completeDeferred_inv [OF assms True])
  have "bInv w (sceneFinished bg False r ?b)" for r using c by (rule bInv_cong [rotated 3]) simp_all
  moreover have "bInv w (?b\<lparr>fb_frame := f, fb_deferredFrames := n\<rparr>)" for f n using c by (rule bInv_cong [rotated 3]) simp_all
  note composeAndEnd_inv [OF this]
  ultimately show ?thesis
    using True c by (auto simp: finishBoundary_def case_prod_beta split: DeferredBegin.split)
qed (simp add: finishBoundary_def composeAndEnd_inv [OF assms])

lemma admitOrFail_fields [simp]:
  "fb_session (snd (admitOrFail r b)) = fb_session b" "fb_deferred (snd (admitOrFail r b)) = fb_deferred b"
  "fb_failed (snd (admitOrFail r b)) = (fb_failed b \<or> XR_FAILED r)"
  "fb_left (snd (admitOrFail r b)) = fb_left b" "fb_right (snd (admitOrFail r b)) = fb_right b"
  by (simp_all add: admitOrFail_def admitFrame_def Let_def)

lemma openDeferred_result:
  assumes "hardInv s"
  shows "XR_FAILED (fst (openDeferred t p out s)) \<or>
    ss_deferred (snd (snd (openDeferred t p out s))) \<and> tokenOpen (fst (snd (openDeferred t p out s))) (snd (snd (openDeferred t p out s)))"
  using assms by (auto simp: openDeferred_def hardInv_def tokenOpen_def Let_def)

lemma openSynthesized_inv: "bInv w b \<Longrightarrow> bInv w (snd (openSynthesized b))"
  using openDeferred_result [of "fb_session b" "synthesizedTime b" "fb_lastPeriod b" "fb_frame b"]
  by (auto simp: openSynthesized_def Let_def case_prod_beta bInv_def openDeferred_inv openDeferred_hard)

lemma waitTaken_inv: "bInv w b \<Longrightarrow> bInv w (snd (waitTaken w b))"
  using hard_sticky(3)
  by (auto simp: waitTaken_def Let_def case_prod_beta bInv_def beginWaited_inv beginWaited_hard)

lemma waitBlocking_inv: "bInv w b \<Longrightarrow> bInv w (snd (waitBlocking w b))"
  using hard_sticky(2)
  by (auto simp: waitBlocking_def Let_def case_prod_beta bInv_def waitAndBegin_inv waitAndBegin_hard)

lemma waitPaced_inv:
  assumes "bInv w b"
  shows "bInv w (snd (waitPaced w b))"
proof -
  have t: "bInv w (ticked b)" using assms by (rule bInv_cong [rotated 3]) simp_all
  have k: "bInv w (snd (pacerKick b))" using assms by (rule bInv_cong [rotated 3]) simp_all
  have k2: "bInv w ((snd (pacerKick b))\<lparr>fb_kicks := n\<rparr>)" for n using k by (rule bInv_cong [rotated 3]) simp_all
  show ?thesis
    using openSynthesized_inv [OF t] openSynthesized_inv [OF k2] waitTaken_inv [OF t] waitBlocking_inv [OF k] waitBlocking_inv [OF assms]
    by (simp add: waitPaced_def case_prod_beta)
qed

lemma boundaryWait_inv:
  assumes "bInv w b"
  shows "bInv w (snd (boundaryWait w own pacing b))"
proof -
  have c: "bInv w (snd (clearBoundary w own b))" by (rule clearBoundary_inv [OF assms])
  have "bInv w ((ticked (snd (clearBoundary w own b)))\<lparr>fb_frame := f, fb_waitEntry := e, fb_turbo := t\<rparr>)" for f e t
    using c by (rule bInv_cong [rotated 3]) simp_all
  from waitPaced_inv [OF this] c assms show ?thesis by (cases own) (simp_all add: boundaryWait_def case_prod_beta)
qed

lemma publish_inv: "bInv w b \<Longrightarrow> bInv w (snd (snd (publish w own eye b)))"
  by (simp add: publish_def Let_def bInv_def)

lemma drain_inv:
  assumes "bInv w b"
  shows "bInv w (snd (drain w own b))"
proof -
  let ?b1 = "snd (clearBoundary w own b)"
  have c: "bInv w ?b1" by (rule clearBoundary_inv [OF assms])
  have t: "bInv w (snd (pacerTake w ?b1))" using c by (rule bInv_cong [rotated 3]) simp_all
  have "bInv w (let b5 = b4\<lparr>fb_session := s\<rparr> in
      if fst (beginWaited (wd_runtime w) r fs emptyFrame (fb_session b4)) = XR_SUCCESS then b5 else b5)"
    if "bInv w b4" "s = snd (snd (beginWaited (wd_runtime w) r fs emptyFrame (fb_session b4)))" for b4 r fs s
    using that hard_sticky(3) by (auto simp: bInv_def beginWaited_inv beginWaited_hard)
  then have w: "bInv w (b4\<lparr>fb_session := snd (snd (beginWaited (wd_runtime w) r fs emptyFrame (fb_session b4)))\<rparr>)"
    if "bInv w b4" for b4 r fs using that by (simp add: Let_def)
  have e: "bInv w (b5\<lparr>fb_session := snd (snd (endFrame (wd_runtime w) f i rr (fb_session b5))), fb_lastResult := r, fb_failed := (fb_failed b5 \<or> x)\<rparr>)"
    if "bInv w b5" for b5 f i rr r x
    using that hard_sticky(1) by (auto simp: bInv_def endFrame_inv endFrame_hard)
  have n: "bInv w (noteReal w r tm p b3)" if "bInv w b3" for b3 r tm p using that by (rule bInv_cong [rotated 3]) simp_all
  have d: "bInv w (b2\<lparr>fb_drainedWaits := k\<rparr>)" if "bInv w b2" for b2 k using that by (rule bInv_cong [rotated 3]) simp_all
  note s4 = n [OF d [OF t]]
  show ?thesis
    using c t d [OF t] w [OF s4] e [OF w [OF s4]] assms
    by (auto simp: drain_def Let_def case_prod_beta split: option.split)
qed

lemma onSession_inv:
  assumes "bInv w b"
  shows "bInv w (onSession (pollEvents (wd_runtime w) n) b)" "bInv w (onSession (startIfReady (wd_runtime w)) b)"
    "bInv w (onSession (stop (wd_runtime w)) b)"
  using assms polls_keep [of "wd_runtime w" "fb_session b"]
  by (auto simp: onSession_def bInv_def pollEvents_inv pollEvents_hard startIfReady_inv startIfReady_hard stop_inv stop_hard)

lemma submit_inv: "bInv w b \<Longrightarrow> bInv w (snd (submit w own eye b))"
  using publish_inv [of w b own eye] finishBoundary_inv by (simp add: submit_def finishPair_def case_prod_beta)

interpretation boundary: op_machine "execBoundary w" "\<lambda>_. True" "bInv w" for w
proof unfold_locales
  fix a b assume b: "bInv w b"
  then show "bInv w (execBoundary w a b)"
    using onSession_inv [OF b] boundaryWait_inv [OF b] publish_inv [OF b] finishBoundary_inv [OF b] submit_inv [OF b]
      clearBoundary_inv [OF b] drain_inv [OF b]
    by (cases a) (auto simp: execBoundary_def setGeometryReady_def finishPair_def background_def takeLateFramesWindow_def bInv_def)
qed

lemma newBoundary_inv: "bInv w (newBoundary (boundSession owner d inst h blend) pacer)"
proof -
  let ?r = "reset d inst h blend (newSession owner)"
  have "sessInv rt (snd ?r)" for rt by (rule reset_inv [OF newSession_inv])
  moreover have "\<not> ss_hardFailure (snd ?r)" "\<not> ss_deferred (snd ?r)"
    by (simp_all add: reset_def SessionState.clear_def newSession_def)
  ultimately show ?thesis
    by (auto simp: bInv_def newBoundary_def boundSession_def case_prod_beta fail_inv fail_hard soft_hard)
qed

text \<open>
  C7: a boundary over a well-formed session never makes the session break the OpenXR call order: in every run
  of waits, submits, clears, drains, loading frames and session events, in either pacing, against every
  runtime, pacer timing and sink, begins and ends alternate and every deferred frame gets its begin first.
\<close>

theorem boundary_calls_in_order:
  "phaseOf (wd_runtime w) (ss_calls (fb_session (fold (execBoundary w) ops (newBoundary (boundSession owner d inst h blend) pacer)))) \<noteq> None"
proof -
  have "bInv w (fold (execBoundary w) ops (newBoundary (boundSession owner d inst h blend) pacer))"
    by (rule boundary.run_inv [OF _ newBoundary_inv]) (simp add: list_all_iff)
  then show ?thesis by (simp add: bInv_def sessInv_phase)
qed

section \<open>What a successful wait leaves open\<close>

lemma beginFromWait_result:
  "XR_FAILED (fst (beginFromWait rt r fs s)) \<or>
   tokenOpen (fst (snd (beginFromWait rt r fs s))) (snd (snd (beginFromWait rt r fs s)))"
  by (auto simp: beginFromWait_def tokenOpen_def Let_def case_prod_beta)

lemma begins_result:
  assumes "hardInv s"
  shows "XR_FAILED (fst (waitAndBegin rt out s)) \<or>
      tokenOpen (fst (snd (waitAndBegin rt out s))) (snd (snd (waitAndBegin rt out s)))"
    and "XR_FAILED (fst (beginWaited rt r fs out s)) \<or>
      tokenOpen (fst (snd (beginWaited rt r fs out s))) (snd (snd (beginWaited rt r fs out s)))"
  using assms beginFromWait_result
  by (auto simp: waitAndBegin_def beginWaited_def hardInv_def Let_def)

lemma admitOrFail_token:
  "tokenOpen (fb_frame (snd (admitOrFail r b))) s = tokenOpen (fb_frame b) s"
  by (simp add: admitOrFail_def admitFrame_def tokenOpen_def Let_def)

definition opens :: "FrameBoundary \<Rightarrow> XrResult \<times> FrameBoundary \<Rightarrow> bool" where
  "opens b x \<longleftrightarrow> fb_left (snd x) = fb_left b \<and> fb_right (snd x) = fb_right b \<and>
     (\<not> XR_FAILED (fst x) \<longrightarrow> tokenOpen (fb_frame (snd x)) (fb_session (snd x)) \<and> fb_failed (snd x) = fb_failed b)"

lemma waits_open:
  assumes "hardInv (fb_session b)"
  shows "opens b (openSynthesized b)" "opens b (waitTaken w b)" "opens b (waitBlocking w b)"
proof -
  have ok: "\<not> XR_FAILED (fst (waitAndBegin rt out s)) \<Longrightarrow>
      tokenOpen (fst (snd (waitAndBegin rt out s))) (snd (snd (waitAndBegin rt out s)))"
    "\<not> XR_FAILED (fst (beginWaited rt r fs out s)) \<Longrightarrow>
      tokenOpen (fst (snd (beginWaited rt r fs out s))) (snd (snd (beginWaited rt r fs out s)))"
    "\<not> XR_FAILED (fst (openDeferred t p out s)) \<Longrightarrow>
      tokenOpen (fst (snd (openDeferred t p out s))) (snd (snd (openDeferred t p out s)))"
    if "s = fb_session b" for s rt r fs t p out
    using begins_result [OF assms] openDeferred_result [OF assms] that by blast+
  show "opens b (openSynthesized b)" "opens b (waitTaken w b)" "opens b (waitBlocking w b)"
    by (simp_all add: opens_def openSynthesized_def waitTaken_def waitBlocking_def admit_handed(3) admitOrFail_token ok
        Let_def case_prod_beta)
qed

lemma waitPaced_opens:
  assumes "hardInv (fb_session b)"
  shows "opens b (waitPaced w b)"
  using assms waits_open(1) [of "ticked b"] waits_open(2) [of "ticked b" w] waits_open(3) [of b w]
    waits_open(1) [of "(snd (pacerKick b))\<lparr>fb_kicks := fb_kicks (snd (pacerKick b)) + 1\<rparr>"]
    waits_open(3) [of "snd (pacerKick b)" w]
  by (simp add: waitPaced_def case_prod_beta opens_def)

lemma endEmpty_failed: "fst (endEmpty w b) = XR_SUCCESS \<Longrightarrow> fb_failed (snd (endEmpty w b)) = fb_failed b"
  by (auto simp: endEmpty_def Let_def case_prod_beta)

lemma clearBoundary_success:
  assumes "\<not> fb_failed b" "clearBoundary w True b = (XR_SUCCESS, b1)"
  shows "\<not> fb_left b1 \<and> \<not> fb_right b1 \<and> \<not> fb_failed b1"
proof (cases "ss_frameOpen (fb_session b)")
  case True
  let ?c = "if fb_deferred b then completeDeferred w b else (Began XR_SUCCESS, b)"
  show ?thesis
  proof (cases "fst ?c")
    case (Began r)
    have "\<not> fb_failed (snd ?c)"
      using Began assms(1) pacerTake_fields(3) [of w b]
      by (auto simp: completeDeferred_def Let_def case_prod_beta split: option.splits if_splits)
    then show ?thesis
      using assms True Began endEmpty_failed
      by (auto simp: clearBoundary_def Let_def case_prod_beta split: if_splits)
  next
    case (BeginFailed r)
    have "r \<noteq> XR_SUCCESS"
      using BeginFailed by (auto simp: completeDeferred_def Let_def case_prod_beta usable_def split: option.splits if_splits)
    then show ?thesis using assms True BeginFailed by (auto simp: clearBoundary_def case_prod_beta split: if_splits)
  qed (use assms True in \<open>auto simp: clearBoundary_def case_prod_beta split: if_splits\<close>)
qed (use assms in \<open>auto simp: clearBoundary_def\<close>)

text \<open>
  After any run, a wait that succeeds leaves exactly its own frame open: the token it stored is the one
  the session will accept, no eye counts as submitted, and whatever frame was open before has been closed.
\<close>

theorem wait_opens_its_frame:
  assumes "b = fold (execBoundary w) ops (newBoundary (boundSession owner d inst h blend) pacer)" "waitSucceeds w pacing b"
    "b' = snd (boundaryWait w True pacing b)"
  shows "tokenOpen (fb_frame b') (fb_session b') \<and> \<not> fb_left b' \<and> \<not> fb_right b' \<and> \<not> fb_failed b'"
proof -
  have inv: "bInv w b" using boundary.run_inv [of ops w, OF _ newBoundary_inv] assms(1) by (simp add: list_all_iff)
  obtain b1 where c: "clearBoundary w True b = (XR_SUCCESS, b1)"
    using assms(2) by (metis prod.collapse waitSucceeds_def)
  have nf: "\<not> fb_failed b" using assms(2) by (simp add: waitSucceeds_def)
  have "hardInv (fb_session b1)" using clearBoundary_inv [OF inv, of True] c by (simp add: bInv_def)
  with waitPaced_opens [of "(ticked b1)\<lparr>fb_frame := emptyFrame,
    fb_waitEntry := wd_clock w (fb_tick b1), fb_turbo := (pacing = PacingDeferred \<and> pacerBound b1)\<rparr>" w]
  show ?thesis
    using assms(2,3) clearBoundary_success [OF nf c] boundaryWait_eq [OF nf c, of pacing]
    by (simp add: opens_def waitSucceeds_def)
qed

section \<open>A sample run\<close>

definition sampleWorld :: World where
  "sampleWorld = \<lparr>wd_runtime = agreeable, wd_clock = (\<lambda>n. 1000 + int n), wd_ready = (\<lambda>_. False),
     wd_wait = (\<lambda>_. (XR_SUCCESS, \<lparr>fs_time = 90, fs_period = 11, fs_shouldRender = True\<rparr>)), wd_capture = (\<lambda>_. 0),
     wd_compose = (\<lambda>_. (XR_SUCCESS, True)), wd_sceneLayer = (\<lambda>_. True)\<rparr>"

definition sampleStart :: FrameBoundary where
  "sampleStart = newBoundary (boundSession 7 fullDispatch 1 2 1) (Some \<lparr>pv_bound = True, pv_pending = False\<rparr>)"

definition sampleBoundary :: FrameBoundary where
  "sampleBoundary = fold (execBoundary sampleWorld) [BPoll 1, BStart] sampleStart"

theorem wait_opens_its_frame_witness:
  "tokenOpen (fb_frame (snd (boundaryWait sampleWorld True PacingRuntime sampleBoundary)))
     (fb_session (snd (boundaryWait sampleWorld True PacingRuntime sampleBoundary)))"
proof -
  have "waitSucceeds sampleWorld PacingRuntime sampleBoundary" by code_simp
  from wait_opens_its_frame [OF sampleBoundary_def [unfolded sampleStart_def] this refl] show ?thesis by blast
qed

theorem handed_out_times_monotone_witness:
  "fr_predictedDisplayTime (fb_frame (snd (boundaryWait sampleWorld True PacingRuntime sampleBoundary))) \<le>
   fr_predictedDisplayTime (fb_frame (snd (boundaryWait sampleWorld True PacingDeferred
     (fold (execBoundary sampleWorld) [BGeometry True True, BSubmit True 0, BSubmit True 1]
       (snd (boundaryWait sampleWorld True PacingRuntime sampleBoundary))))))"
proof (rule handed_out_times_monotone [OF _ refl refl])
  show "waitSucceeds sampleWorld PacingRuntime sampleBoundary" by code_simp
  show "waitSucceeds sampleWorld PacingDeferred (fold (execBoundary sampleWorld) [BGeometry True True, BSubmit True 0, BSubmit True 1]
       (snd (boundaryWait sampleWorld True PacingRuntime sampleBoundary)))" by code_simp
qed

theorem synthesized_time_bounds_witness:
  "let b = snd (boundaryWait sampleWorld True PacingRuntime sampleBoundary) in
   canSynthesize b \<and> 111 \<le> synthesizedTime b \<and> synthesizedTime b \<le> 122"
proof -
  let ?b = "snd (boundaryWait sampleWorld True PacingRuntime sampleBoundary)"
  have "canSynthesize ?b" "fb_lastReal ?b = 100" "fb_lastPeriod ?b = 11" by code_simp+
  then show ?thesis using synthesized_time_bounds [of ?b] by (simp add: Let_def)
qed

end
