(* ===== verification/PresentQueue.thy ===== *)
theory PresentQueue
  imports Prelude
begin

text \<open>
  \<^verbatim>\<open>src/openxr/present_work_queue.h\<close>: work handed to the render thread by callers that wait for it. A step is
  what happens under one hold of the mutex; callbacks run, and their captures are released, between steps.
  Requests are numbered in the order they are admitted. The state also keeps who is in the middle of what:
  the request a pump is running (\<open>wq_pumping\<close>), those a deadline or a close has removed and not yet finished
  (\<open>wq_retiring\<close>), the callers still waiting (\<open>wq_waiting\<close>), and the callbacks that were run (\<open>wq_ran\<close>,
  newest first).
\<close>

record Request =
  rq_running :: bool
  rq_cancelled :: bool
  rq_done :: bool
  rq_success :: bool

definition newRequest :: Request where
  "newRequest = \<lparr>rq_running = False, rq_cancelled = False, rq_done = False, rq_success = False\<rparr>"

record PresentWorkQueue =
  wq_queue :: "nat list"
  wq_requests :: "nat \<Rightarrow> Request"
  wq_bound :: bool
  wq_closed :: bool
  wq_active :: bool
  wq_activeInvokers :: nat
  wq_next :: nat
  wq_pumping :: "nat option"
  wq_retiring :: "nat list"
  wq_waiting :: "nat list"
  wq_ran :: "nat list"

definition kQueueCapacity :: nat where
  "kQueueCapacity = 16"

definition newWorkQueue :: PresentWorkQueue where
  "newWorkQueue = \<lparr>wq_queue = [], wq_requests = (\<lambda>_. newRequest), wq_bound = False, wq_closed = False, wq_active = False,
     wq_activeInvokers = 0, wq_next = 0, wq_pumping = None, wq_retiring = [], wq_waiting = [], wq_ran = []\<rparr>"

section \<open>The holds of the mutex\<close>

definition bindCurrentThread :: "PresentWorkQueue \<Rightarrow> bool \<times> PresentWorkQueue" where
  "bindCurrentThread q = (if wq_bound q \<or> wq_closed q then (False, q) else (True, q\<lparr>wq_bound := True\<rparr>))"

text \<open>\<^verbatim>\<open>invoke\<close> up to its wait; the flag says whether the render thread calls.\<close>

definition invokeAdmit :: "bool \<Rightarrow> PresentWorkQueue \<Rightarrow> nat option \<times> PresentWorkQueue" where
  "invokeAdmit onRenderThread q =
     (if \<not> wq_bound q \<or> wq_closed q \<or> onRenderThread \<or> kQueueCapacity \<le> length (wq_queue q) then (None, q)
      else (Some (wq_next q),
            q\<lparr>wq_queue := wq_queue q @ [wq_next q], wq_requests := (wq_requests q)(wq_next q := newRequest),
              wq_activeInvokers := Suc (wq_activeInvokers q), wq_next := Suc (wq_next q),
              wq_waiting := wq_next q # wq_waiting q\<rparr>))"

definition invokeReturn :: "nat \<Rightarrow> PresentWorkQueue \<Rightarrow> bool \<times> PresentWorkQueue" where
  "invokeReturn r q =
     (rq_success (wq_requests q r),
      q\<lparr>wq_activeInvokers := wq_activeInvokers q - 1, wq_waiting := remove1 r (wq_waiting q)\<rparr>)"

text \<open>The deadline has passed: claim cancellation only while the request is still queued.\<close>

definition invokeDeadline :: "nat \<Rightarrow> PresentWorkQueue \<Rightarrow> bool \<times> PresentWorkQueue" where
  "invokeDeadline r q =
     (if \<not> rq_running (wq_requests q r) \<and> \<not> rq_done (wq_requests q r) \<and> r \<in> set (wq_queue q)
      then (True, q\<lparr>wq_queue := remove1 r (wq_queue q), wq_retiring := r # wq_retiring q,
                    wq_requests := (wq_requests q)(r := (wq_requests q r)\<lparr>rq_cancelled := True\<rparr>)\<rparr>)
      else (False, q))"

definition retired :: "nat \<Rightarrow> PresentWorkQueue \<Rightarrow> PresentWorkQueue" where
  "retired r q = q\<lparr>wq_retiring := remove1 r (wq_retiring q),
     wq_requests := (wq_requests q)(r := (wq_requests q r)\<lparr>rq_done := True, rq_success := False\<rparr>)\<rparr>"

definition pumpTake :: "bool \<Rightarrow> PresentWorkQueue \<Rightarrow> bool \<times> PresentWorkQueue" where
  "pumpTake onRenderThread q =
     (if \<not> wq_bound q \<or> wq_closed q \<or> \<not> onRenderThread \<or> wq_active q then (False, q)
      else case wq_queue q of
        [] \<Rightarrow> (False, q)
      | r # rest \<Rightarrow>
          (True, q\<lparr>wq_queue := rest, wq_requests := (wq_requests q)(r := (wq_requests q r)\<lparr>rq_running := True\<rparr>),
                   wq_active := True, wq_pumping := Some r, wq_ran := r # wq_ran q\<rparr>))"

definition pumpFinish :: "nat \<Rightarrow> bool \<Rightarrow> PresentWorkQueue \<Rightarrow> PresentWorkQueue" where
  "pumpFinish r success q =
     q\<lparr>wq_requests := (wq_requests q)(r := (wq_requests q r)\<lparr>rq_success := success, rq_running := False, rq_done := True\<rparr>),
       wq_active := False, wq_pumping := None\<rparr>"

text \<open>One turn of \<^verbatim>\<open>close\<close>'s loop: the request taken out, if any.\<close>

definition closeTake :: "PresentWorkQueue \<Rightarrow> nat option \<times> PresentWorkQueue" where
  "closeTake q =
     (let q1 = q\<lparr>wq_closed := True\<rparr> in
      case wq_queue q of
        [] \<Rightarrow> (None, q1)
      | r # rest \<Rightarrow>
          (Some r, q1\<lparr>wq_queue := rest, wq_retiring := r # wq_retiring q,
                      wq_requests := (wq_requests q)(r := (wq_requests q r)\<lparr>rq_cancelled := True\<rparr>)\<rparr>))"

text \<open>The destructor's condition; anything else terminates the process.\<close>

definition mayDestroy :: "PresentWorkQueue \<Rightarrow> bool" where
  "mayDestroy q \<longleftrightarrow> wq_closed q \<and> wq_queue q = [] \<and> \<not> wq_active q \<and> wq_activeInvokers q = 0"

section \<open>All threads together\<close>

inductive queueStep :: "PresentWorkQueue \<Rightarrow> PresentWorkQueue \<Rightarrow> bool" where
  bind: "queueStep q (snd (bindCurrentThread q))"
| admit: "queueStep q (snd (invokeAdmit onRender q))"
| returns: "r \<in> set (wq_waiting q) \<Longrightarrow> rq_done (wq_requests q r) \<Longrightarrow> queueStep q (snd (invokeReturn r q))"
| deadline: "r \<in> set (wq_waiting q) \<Longrightarrow> queueStep q (snd (invokeDeadline r q))"
| retires: "r \<in> set (wq_retiring q) \<Longrightarrow> queueStep q (retired r q)"
| takes: "queueStep q (snd (pumpTake onRender q))"
| finishes: "wq_pumping q = Some r \<Longrightarrow> queueStep q (pumpFinish r ok q)"
| closes: "queueStep q (snd (closeTake q))"

inductive_cases queueStep_cases: "queueStep q q'"

text \<open>
  The two halves of the invariant: the order of the queue, and where each request stands. A request is
  queued, being run, being retired, or done; done means run, or else cancelled and unsuccessful.
\<close>

definition orderInv :: "PresentWorkQueue \<Rightarrow> bool" where
  "orderInv q \<longleftrightarrow> sorted_wrt (<) (wq_queue q) \<and> sorted_wrt (>) (wq_ran q) \<and> length (wq_queue q) \<le> kQueueCapacity \<and>
     (\<forall>r \<in> set (wq_queue q). r < wq_next q \<and> (\<forall>x \<in> set (wq_ran q). x < r)) \<and> (\<forall>x \<in> set (wq_ran q). x < wq_next q)"

definition placeOk :: "Request \<Rightarrow> bool \<Rightarrow> bool \<Rightarrow> bool \<Rightarrow> bool \<Rightarrow> bool" where
  "placeOk rq queued pumped retiring wasRun \<longleftrightarrow>
     queued \<and> \<not> pumped \<and> \<not> retiring \<and> \<not> wasRun \<and> rq = newRequest \<or>
     \<not> queued \<and> pumped \<and> \<not> retiring \<and> wasRun \<and> rq_running rq \<and> \<not> rq_cancelled rq \<and> \<not> rq_done rq \<or>
     \<not> queued \<and> \<not> pumped \<and> retiring \<and> \<not> wasRun \<and> rq_cancelled rq \<and> \<not> rq_done rq \<or>
     \<not> queued \<and> \<not> pumped \<and> \<not> retiring \<and> rq_done rq \<and> (rq_cancelled rq \<longleftrightarrow> \<not> wasRun) \<and> (rq_cancelled rq \<longrightarrow> \<not> rq_success rq)"

abbreviation placed :: "PresentWorkQueue \<Rightarrow> nat \<Rightarrow> bool" where
  "placed q r \<equiv> placeOk (wq_requests q r) (r \<in> set (wq_queue q)) (wq_pumping q = Some r)
     (r \<in> set (wq_retiring q)) (r \<in> set (wq_ran q))"

definition countInv :: "PresentWorkQueue \<Rightarrow> bool" where
  "countInv q \<longleftrightarrow> wq_active q = (wq_pumping q \<noteq> None) \<and> wq_activeInvokers q = length (wq_waiting q) \<and>
     distinct (wq_waiting q) \<and> distinct (wq_retiring q) \<and> (\<forall>r \<in> set (wq_waiting q). r < wq_next q) \<and>
     (\<forall>r \<in> set (wq_retiring q). r < wq_next q) \<and> (\<forall>r. wq_pumping q = Some r \<longrightarrow> r < wq_next q)"

definition queueInv :: "PresentWorkQueue \<Rightarrow> bool" where
  "queueInv q \<longleftrightarrow> orderInv q \<and> countInv q \<and> (\<forall>r < wq_next q. placed q r)"

lemmas queue_defs = bindCurrentThread_def invokeAdmit_def invokeReturn_def invokeDeadline_def retired_def pumpTake_def
  pumpFinish_def closeTake_def Let_def

lemma sorted_remove1: "sorted_wrt (<) (xs :: nat list) \<Longrightarrow> sorted_wrt (<) (remove1 r xs)"
proof (induction xs)
  case (Cons x xs)
  have "set (remove1 r xs) \<subseteq> set xs" by (rule set_remove1_subset)
  then show ?case using Cons by auto
qed simp

lemma orderInv_step:
  assumes "orderInv q" "queueStep q q'"
  shows "orderInv q'"
  using assms(2)
proof cases
  case (deadline r)
  have "length (remove1 r (wq_queue q)) \<le> length (wq_queue q)" "set (remove1 r (wq_queue q)) \<subseteq> set (wq_queue q)"
    by (simp_all add: length_remove1 set_remove1_subset)
  with assms(1) show ?thesis
    unfolding deadline by (auto simp: orderInv_def invokeDeadline_def sorted_remove1)
next
  case (admit onRender)
  then show ?thesis using assms(1) by (simp add: orderInv_def invokeAdmit_def sorted_wrt_append less_Suc_eq not_le)
next
  case (takes onRender)
  then show ?thesis using assms(1) by (cases "wq_queue q") (auto simp: orderInv_def pumpTake_def)
next
  case closes
  then show ?thesis using assms(1) by (cases "wq_queue q") (auto simp: orderInv_def closeTake_def Let_def)
qed (use assms(1) in \<open>simp_all add: orderInv_def bindCurrentThread_def invokeReturn_def retired_def pumpFinish_def\<close>)

lemma countInv_step:
  assumes "orderInv q" "countInv q" "\<forall>r < wq_next q. placed q r" "queueStep q q'"
  shows "countInv q'"
  using assms(4)
proof cases
  case (returns r)
  then have "length (remove1 r (wq_waiting q)) = length (wq_waiting q) - 1" "set (remove1 r (wq_waiting q)) \<subseteq> set (wq_waiting q)"
    by (simp_all add: length_remove1 set_remove1_subset)
  then show ?thesis using assms(2) returns by (auto simp: countInv_def invokeReturn_def)
next
  case (retires r)
  have "set (remove1 r (wq_retiring q)) \<subseteq> set (wq_retiring q)" by (rule set_remove1_subset)
  then show ?thesis using assms(2) retires by (auto simp: countInv_def retired_def)
next
  case (admit onRender)
  then show ?thesis using assms(2) by (auto simp: countInv_def invokeAdmit_def)
next
  case (deadline r)
  have "r \<in> set (wq_queue q) \<Longrightarrow> r < wq_next q \<and> r \<notin> set (wq_retiring q)"
    using assms(1,3) by (auto simp: orderInv_def placeOk_def)
  then show ?thesis using assms(2) deadline by (auto simp: countInv_def invokeDeadline_def)
next
  case (takes onRender)
  have "r \<in> set (wq_queue q) \<Longrightarrow> r < wq_next q" for r using assms(1) by (auto simp: orderInv_def)
  then show ?thesis using assms(2) takes by (cases "wq_queue q") (auto simp: countInv_def pumpTake_def)
next
  case closes
  have "r \<in> set (wq_queue q) \<Longrightarrow> r < wq_next q \<and> r \<notin> set (wq_retiring q)" for r
    using assms(1,3) by (auto simp: orderInv_def placeOk_def)
  then show ?thesis using assms(2) closes by (cases "wq_queue q") (auto simp: countInv_def closeTake_def Let_def)
qed (use assms(2) in \<open>simp_all add: countInv_def bindCurrentThread_def pumpFinish_def\<close>)


lemma placed_step:
  assumes "orderInv q" "countInv q" "\<forall>r < wq_next q. placed q r" "queueStep q q'" "r < wq_next q'"
  shows "placed q' r"
  using assms(4)
proof cases
  case (admit onRender)
  show ?thesis
  proof (cases "fst (invokeAdmit onRender q) = None")
    case False
    then have q': "q' = q\<lparr>wq_queue := wq_queue q @ [wq_next q], wq_requests := (wq_requests q)(wq_next q := newRequest),
        wq_activeInvokers := Suc (wq_activeInvokers q), wq_next := Suc (wq_next q), wq_waiting := wq_next q # wq_waiting q\<rparr>"
      using admit by (simp add: invokeAdmit_def split: if_splits)
    have "wq_next q \<notin> set (wq_ran q)" "wq_next q \<notin> set (wq_retiring q)" "wq_pumping q \<noteq> Some (wq_next q)"
      using assms(1,2) by (auto simp: orderInv_def countInv_def)
    then show ?thesis using assms(3,5) by (cases "r = wq_next q") (simp_all add: q' placeOk_def)
  next
    case True
    then have "snd (invokeAdmit onRender q) = q" by (auto simp: invokeAdmit_def)
    then show ?thesis using admit assms(3,5) by simp
  qed
next
  case (deadline r0)
  show ?thesis
  proof (cases "fst (invokeDeadline r0 q)")
    case True
    have d: "distinct (wq_queue q)" using assms(1) strict_sorted_iff by (auto simp: orderInv_def)
    have "r0 \<in> set (wq_queue q)" using True by (simp add: invokeDeadline_def split: if_splits)
    moreover from this have "placed q r0" using assms(1,3) by (auto simp: orderInv_def)
    ultimately show ?thesis
      using True deadline assms(3,5) d
      by (cases "r = r0") (auto simp: invokeDeadline_def placeOk_def newRequest_def set_remove1_eq split: if_splits)
  next
    case False
    then have "snd (invokeDeadline r0 q) = q" by (auto simp: invokeDeadline_def)
    then show ?thesis using deadline assms(3,5) by simp
  qed
next
  case (retires r0)
  have d: "distinct (wq_retiring q)" "r0 < wq_next q" using assms(2) retires(2) by (auto simp: countInv_def)
  then have "placed q r0" using assms(3) by blast
  then show ?thesis
    using retires assms(3,5) d by (cases "r = r0") (auto simp: retired_def placeOk_def newRequest_def set_remove1_eq)
next
  case (takes onRender)
  have d: "distinct (wq_queue q)" using assms(1) strict_sorted_iff by (auto simp: orderInv_def)
  show ?thesis
  proof (cases "fst (pumpTake onRender q)")
    case True
    then obtain r0 rest where q0: "wq_queue q = r0 # rest" "\<not> wq_active q" by (auto simp: pumpTake_def split: if_splits list.splits)
    then have "placed q r0" "wq_pumping q = None" using assms(1-3) by (auto simp: orderInv_def countInv_def)
    then show ?thesis
      using True takes q0 assms(3,5) d by (cases "r = r0") (auto simp: pumpTake_def placeOk_def newRequest_def split: if_splits)
  next
    case False
    then have "snd (pumpTake onRender q) = q" by (auto simp: pumpTake_def split: list.splits)
    then show ?thesis using takes assms(3,5) by simp
  qed
next
  case (finishes r0 ok)
  then have "placed q r0" using assms(2,3) by (auto simp: countInv_def)
  then show ?thesis
    using finishes assms(3,5) by (cases "r = r0") (auto simp: pumpFinish_def placeOk_def newRequest_def)
next
  case closes
  have d: "distinct (wq_queue q)" using assms(1) strict_sorted_iff by (auto simp: orderInv_def)
  show ?thesis
  proof (cases "wq_queue q")
    case (Cons r0 rest)
    then have p0: "placed q r0" using assms(1,3) by (auto simp: orderInv_def)
    have q': "q' = q\<lparr>wq_closed := True, wq_queue := rest, wq_retiring := r0 # wq_retiring q,
        wq_requests := (wq_requests q)(r0 := (wq_requests q r0)\<lparr>rq_cancelled := True\<rparr>)\<rparr>"
      using closes Cons by (simp add: closeTake_def)
    have p: "placed q r" using assms(3,5) by (simp add: q')
    show ?thesis
    proof (cases "r = r0")
      case True
      then show ?thesis using p0 d Cons by (simp add: q' placeOk_def newRequest_def)
    next
      case False
      then show ?thesis using p Cons by (simp add: q')
    qed
  qed (use closes assms(3,5) in \<open>simp add: closeTake_def Let_def\<close>)
qed (use assms(3,5) in \<open>simp_all add: bindCurrentThread_def invokeReturn_def split: if_splits\<close>)

interpretation workQueue: step_machine "\<lambda>q. q = newWorkQueue" queueStep queueInv
proof unfold_locales
  show "q = newWorkQueue \<Longrightarrow> queueInv q" for q
    by (simp add: queueInv_def orderInv_def countInv_def newWorkQueue_def)
  fix q q'
  assume inv: "queueInv q" and st: "queueStep q q'"
  have o: "orderInv q" and c: "countInv q" and p: "\<forall>r < wq_next q. placed q r"
    using inv by (simp_all add: queueInv_def)
  show "queueInv q'"
    unfolding queueInv_def using orderInv_step [OF o st] countInv_step [OF o c p st] placed_step [OF o c p st] by blast
qed

text \<open>
  C12: in every interleaving of callers, deadlines, the pump and a close, callbacks run at most once each and
  in the order they were admitted, at most sixteen wait, a request that was cancelled never runs, and one
  that finished successfully did run.
\<close>

theorem queue_runs_in_order_once:
  assumes "reach (\<lambda>q. q = newWorkQueue) queueStep q"
  shows "sorted_wrt (>) (wq_ran q) \<and> distinct (wq_ran q) \<and> length (wq_queue q) \<le> kQueueCapacity \<and>
    (r < wq_next q \<longrightarrow> (rq_cancelled (wq_requests q r) \<longrightarrow> r \<notin> set (wq_ran q)) \<and>
       (rq_done (wq_requests q r) \<and> rq_success (wq_requests q r) \<longrightarrow> r \<in> set (wq_ran q)))"
proof -
  have inv: "queueInv q" by (rule workQueue.reach_inv [OF assms])
  have "distinct (rev (wq_ran q))" using inv strict_sorted_iff [of "rev (wq_ran q)"]
    by (simp add: queueInv_def orderInv_def sorted_wrt_rev)
  then show ?thesis using inv by (auto simp: queueInv_def orderInv_def placeOk_def newRequest_def)
qed

text \<open>
  No caller is left behind: as long as a caller waits, its request is queued (so a pump, its deadline or a
  close can take it), or some thread is in the middle of finishing it, or it is done and the caller returns;
  and while one waits, the destructor's condition does not hold.
\<close>

theorem queue_no_caller_lost:
  assumes "reach (\<lambda>q. q = newWorkQueue) queueStep q" "r \<in> set (wq_waiting q)"
  shows "(r \<in> set (wq_queue q) \<or> wq_pumping q = Some r \<or> r \<in> set (wq_retiring q) \<or> rq_done (wq_requests q r)) \<and>
    0 < wq_activeInvokers q \<and> \<not> mayDestroy q"
proof -
  have inv: "queueInv q" by (rule workQueue.reach_inv [OF assms(1)])
  then have "placed q r" "0 < wq_activeInvokers q"
    using assms(2) by (auto simp: queueInv_def countInv_def dest: length_pos_if_in_set)
  then show ?thesis by (auto simp: placeOk_def mayDestroy_def)
qed

definition admittedQueue :: PresentWorkQueue where
  "admittedQueue = snd (invokeAdmit False (snd (bindCurrentThread newWorkQueue)))"

lemma admittedQueue_reach: "reach (\<lambda>q. q = newWorkQueue) queueStep admittedQueue"
proof -
  have "reach (\<lambda>q. q = newWorkQueue) queueStep newWorkQueue" by (rule reach_init) simp
  from reach_step [OF reach_step [OF this queueStep.bind] queueStep.admit] show ?thesis by (simp add: admittedQueue_def)
qed

theorem queue_runs_in_order_once_witness:
  "wq_ran (snd (pumpTake True admittedQueue)) = [0] \<and> distinct (wq_ran (snd (pumpTake True admittedQueue)))"
proof -
  have "wq_ran (snd (pumpTake True admittedQueue)) = [0]" by code_simp
  then show ?thesis using queue_runs_in_order_once [OF reach_step [OF admittedQueue_reach queueStep.takes [of _ True]]] by blast
qed

theorem queue_no_caller_lost_witness: "0 \<in> set (wq_waiting admittedQueue) \<and> \<not> mayDestroy admittedQueue"
proof -
  have "0 \<in> set (wq_waiting admittedQueue)" by code_simp
  then show ?thesis using queue_no_caller_lost [OF admittedQueue_reach] by blast
qed

end
