(* ===== verification/ReferenceChanges.thy ===== *)
theory ReferenceChanges
  imports SessionState "HOL-Library.Multiset"
begin

text \<open>
  \<^verbatim>\<open>src/openxr/reference_changes.h\<close> and \<^verbatim>\<open>src/openxr/loading_state.h\<close>: the pending origin changes of the LOCAL
  reference space, and what to show while no game frame is open. The array and its count are a list; whether
  a pose is usable (\<^verbatim>\<open>detail::poseValid\<close>, floating point) is part of the event.
\<close>

section \<open>Reference-space changes\<close>

record ReferenceChanges =
  rc_session :: XrHandle
  rc_pending :: "XrTime list"
  rc_epoch :: u64
  rc_lastTarget :: XrTime
  rc_advanced :: bool
  rc_active :: bool

text \<open>\<open>cv_flag\<close> is \<^verbatim>\<open>poseValid\<close> as the runtime wrote it: 0, 1, or something else.\<close>

record ChangeEvent =
  cv_session :: XrHandle
  cv_local :: bool
  cv_typeOk :: bool
  cv_flag :: nat
  cv_poseUsable :: bool
  cv_changeTime :: XrTime

definition cleared :: ReferenceChanges where
  "cleared = \<lparr>rc_session = 0, rc_pending = [], rc_epoch = 0, rc_lastTarget = 0, rc_advanced = False, rc_active = False\<rparr>"

definition kCapacity :: nat where
  "kCapacity = 16"

definition rcBegin :: "XrHandle \<Rightarrow> ReferenceChanges \<Rightarrow> bool \<times> ReferenceChanges" where
  "rcBegin session r =
     (if rc_active r \<or> session = 0 then (False, r)
      else (True, cleared\<lparr>rc_active := True, rc_session := session, rc_epoch := 1\<rparr>))"

text \<open>The loop that shifts later changes up: scanning from the end, past every later time.\<close>

fun insertBack :: "XrTime \<Rightarrow> XrTime list \<Rightarrow> XrTime list" where
  "insertBack t [] = [t]"
| "insertBack t (p # ps) = (if t < p then p # insertBack t ps else t # p # ps)"

definition insertPending :: "XrTime \<Rightarrow> XrTime list \<Rightarrow> XrTime list" where
  "insertPending t ps = rev (insertBack t (rev ps))"

definition rcNote :: "ChangeEvent \<Rightarrow> ReferenceChanges \<Rightarrow> bool \<times> ReferenceChanges" where
  "rcNote e r =
     (if \<not> rc_active r then (False, r)
      else if cv_session e \<noteq> rc_session r \<or> \<not> cv_local e then (True, r)
      else if \<not> cv_typeOk e \<or> (cv_flag e \<noteq> 0 \<and> cv_flag e \<noteq> 1) then (False, cleared)
      else if cv_flag e = 1 \<and> \<not> cv_poseUsable e then (False, cleared)
      else if length (rc_pending r) = kCapacity then (False, cleared)
      else (True, r\<lparr>rc_pending := insertPending (cv_changeTime e) (rc_pending r)\<rparr>))"

text \<open>\<open>Some n\<close> is success with \<open>n\<close> changes applied.\<close>

definition rcAdvance :: "XrTime \<Rightarrow> ReferenceChanges \<Rightarrow> nat option \<times> ReferenceChanges" where
  "rcAdvance target r =
     (if \<not> rc_active r \<or> (rc_advanced r \<and> target < rc_lastTarget r) then (None, cleared)
      else
        (let n = length (takeWhile (\<lambda>t. t \<le> target) (rc_pending r)) in
         if of_nat n > - 1 - rc_epoch r then (None, cleared)
         else (Some n, r\<lparr>rc_epoch := rc_epoch r + of_nat n, rc_pending := drop n (rc_pending r),
                         rc_lastTarget := target, rc_advanced := True\<rparr>)))"

definition crosses :: "XrTime \<Rightarrow> XrTime \<Rightarrow> ReferenceChanges \<Rightarrow> bool" where
  "crosses from until r \<longleftrightarrow> rc_active r \<and> from < until \<and> list_ex (\<lambda>t. from < t \<and> t \<le> until) (rc_pending r)"

definition rcEpoch :: "ReferenceChanges \<Rightarrow> u64" where
  "rcEpoch r = (if rc_active r then rc_epoch r else 0)"

section \<open>Order\<close>

definition rcInv :: "ReferenceChanges \<Rightarrow> bool" where
  "rcInv r \<longleftrightarrow> sorted (rc_pending r) \<and> length (rc_pending r) \<le> kCapacity \<and> (\<not> rc_active r \<longrightarrow> r = cleared)"

lemma insertBack_facts:
  "mset (insertBack t ps) = add_mset t (mset ps)"
  "sorted_wrt (\<ge>) ps \<Longrightarrow> sorted_wrt (\<ge>) (insertBack t ps)"
  "length (insertBack t ps) = Suc (length ps)"
proof -
  have m: "mset (insertBack t ps) = add_mset t (mset ps)" for ps by (induction ps) auto
  then show "mset (insertBack t ps) = add_mset t (mset ps)" .
  show "length (insertBack t ps) = Suc (length ps)" using m [of ps] by (metis size_add_mset size_mset)
  show "sorted_wrt (\<ge>) ps \<Longrightarrow> sorted_wrt (\<ge>) (insertBack t ps)"
  proof (induction ps)
    case (Cons p ps)
    have "set (insertBack t ps) = insert t (set ps)" using m [of ps] by (metis set_mset_add_mset_insert set_mset_mset)
    then show ?case using Cons by auto
  qed simp
qed

lemma insertPending_facts:
  "mset (insertPending t ps) = add_mset t (mset ps)"
  "sorted ps \<Longrightarrow> sorted (insertPending t ps)"
  "length (insertPending t ps) = Suc (length ps)"
  using insertBack_facts [where t = t and ps = "rev ps"] by (simp_all add: insertPending_def sorted_wrt_rev)

lemma takeWhile_sorted: "sorted ps \<Longrightarrow> takeWhile (\<lambda>t. t \<le> b) ps = filter (\<lambda>t. t \<le> (b :: int)) ps"
  by (induction ps) (auto simp: filter_empty_conv intro!: filter_False [symmetric])

datatype ChangeOp = RcBegin XrHandle | RcNote ChangeEvent | RcAdvance XrTime | RcClear

definition execChanges :: "ChangeOp \<Rightarrow> ReferenceChanges \<Rightarrow> ReferenceChanges" where
  "execChanges a r =
     (case a of RcBegin s \<Rightarrow> snd (rcBegin s r) | RcNote e \<Rightarrow> snd (rcNote e r)
      | RcAdvance t \<Rightarrow> snd (rcAdvance t r) | RcClear \<Rightarrow> cleared)"

lemma execChanges_inv: "rcInv r \<Longrightarrow> rcInv (execChanges a r)"
  by (cases a)
    (auto simp: rcInv_def execChanges_def rcBegin_def rcNote_def rcAdvance_def cleared_def Let_def kCapacity_def
      insertPending_facts sorted_wrt_drop)

interpretation changes: op_machine execChanges "\<lambda>_. True" rcInv
  by unfold_locales (rule execChanges_inv)

text \<open>
  Advancing applies exactly the pending changes that are due, whatever order the notifications came in:
  the number applied is the number of due changes, the epoch moves by it, and no due change stays pending.
\<close>

theorem advance_applies_due_changes:
  assumes "r = fold execChanges ops cleared" "rcAdvance target r = (Some n, r')"
  shows "n = size (filter_mset (\<lambda>t. t \<le> target) (mset (rc_pending r))) \<and>
    mset (rc_pending r') = filter_mset (\<lambda>t. target < t) (mset (rc_pending r)) \<and>
    unat (rc_epoch r') = unat (rc_epoch r) + n \<and> \<not> crosses from target r'"
proof -
  have inv: "rcInv r"
    unfolding assms(1) by (rule changes.run_inv) (simp_all add: list_all_iff rcInv_def cleared_def)
  let ?due = "takeWhile (\<lambda>t. t \<le> target) (rc_pending r)"
  have due: "?due = filter (\<lambda>t. t \<le> target) (rc_pending r)" using inv by (simp add: rcInv_def takeWhile_sorted)
  have n: "n = length ?due" and r': "rc_pending r' = drop n (rc_pending r)" "rc_epoch r' = rc_epoch r + of_nat n"
    and room': "of_nat n \<le> - 1 - rc_epoch r"
    using assms(2) by (auto simp: rcAdvance_def Let_def not_less split: if_splits)
  have "n \<le> 16" using n inv length_takeWhile_le [of "\<lambda>t. t \<le> target" "rc_pending r"] by (simp add: rcInv_def kCapacity_def)
  then have "unat (of_nat n :: u64) = n" by (simp add: unat_of_nat take_bit_nat_eq_self)
  then have room: "n \<le> unat (- 1 - rc_epoch r)" using room' by (simp add: word_le_nat_alt)
  have "rc_pending r = ?due @ drop n (rc_pending r)" unfolding n by (metis takeWhile_eq_take append_take_drop_id length_takeWhile_le take_all_iff)
  then have split: "mset (rc_pending r) = mset ?due + mset (drop n (rc_pending r))" by (metis mset_append)
  have "mset (rc_pending r) = filter_mset (\<lambda>t. t \<le> target) (mset (rc_pending r)) + filter_mset (\<lambda>t. \<not> t \<le> target) (mset (rc_pending r))"
    by (rule multiset_partition)
  with split due have rest: "mset (drop n (rc_pending r)) = filter_mset (\<lambda>t. \<not> t \<le> target) (mset (rc_pending r))"
    by (metis add_left_cancel mset_filter)
  have "unat (rc_epoch r) + n < 2 ^ 64"
  proof -
    have "unat (- 1 :: u64) = 2 ^ 64 - 1" by (simp add: unsigned_minus_1_eq_mask mask_eq_exp_minus_1)
    moreover have "rc_epoch r \<le> - 1" by simp
    ultimately have "unat (- 1 - rc_epoch r) = 2 ^ 64 - 1 - unat (rc_epoch r)" by (simp only: unat_sub)
    moreover have "unat (rc_epoch r) < 2 ^ LENGTH(64)" by (rule unsigned_less)
    ultimately show ?thesis using room by simp
  qed
  then have "unat (rc_epoch r + of_nat n) = unat (rc_epoch r) + n"
    by (simp add: unat_word_ariths unat_of_nat take_bit_nat_eq_self mod_less)
  moreover have "\<not> crosses from target r'"
  proof -
    have "\<forall>t \<in> set (rc_pending r'). \<not> t \<le> target" using rest r'(1) by (metis (no_types, lifting) mem_Collect_eq set_mset_filter set_mset_mset)
    then show ?thesis by (auto simp: crosses_def list_ex_iff)
  qed
  moreover have "n = size (filter_mset (\<lambda>t. t \<le> target) (mset (rc_pending r)))"
    using n due by (metis mset_filter size_mset)
  ultimately show ?thesis using rest r' by (simp add: not_le)
qed

text \<open>
  \<open>roomFor r\<close>: the epoch counter has room for every change that is pending.
\<close>

definition roomFor :: "ReferenceChanges \<Rightarrow> bool" where
  "roomFor r \<longleftrightarrow> length (rc_pending r) \<le> unat (- 1 - rc_epoch r)"

lemma advance_later_succeeds:
  assumes "rc_active r" "rc_advanced r \<longrightarrow> rc_lastTarget r \<le> target" "roomFor r"
  shows "\<exists>n r'. rcAdvance target r = (Some n, r') \<and> rc_active r' \<and> rc_lastTarget r' = target"
proof -
  have "length (takeWhile (\<lambda>t. t \<le> target) (rc_pending r)) \<le> unat (- 1 - rc_epoch r)"
    using assms(3) length_takeWhile_le order_trans unfolding roomFor_def by blast
  then have "unat (of_nat (length (takeWhile (\<lambda>t. t \<le> target) (rc_pending r))) :: u64) \<le> unat (- 1 - rc_epoch r)"
    by (metis mod_less_eq_dividend order_trans unat_of_nat)
  then show ?thesis using assms by (auto simp: rcAdvance_def Let_def not_le word_le_nat_alt [symmetric] not_less)
qed

definition noteAt :: "XrTime \<Rightarrow> ChangeOp" where
  "noteAt t = RcNote \<lparr>cv_session = 5, cv_local = True, cv_typeOk = True, cv_flag = 0, cv_poseUsable = False, cv_changeTime = t\<rparr>"

theorem advance_applies_due_changes_witness:
  "rcAdvance 20 (fold execChanges [RcBegin 5, noteAt 30, noteAt 10, noteAt 20] cleared) =
     (Some 2, snd (rcAdvance 20 (fold execChanges [RcBegin 5, noteAt 30, noteAt 10, noteAt 20] cleared))) \<and>
   \<not> crosses 0 20 (snd (rcAdvance 20 (fold execChanges [RcBegin 5, noteAt 30, noteAt 10, noteAt 20] cleared)))"
proof -
  let ?r = "fold execChanges [RcBegin 5, noteAt 30, noteAt 10, noteAt 20] cleared"
  have "rcAdvance 20 ?r = (Some 2, snd (rcAdvance 20 ?r))" by code_simp
  with advance_applies_due_changes [OF refl this] show ?thesis by blast
qed

section \<open>Loading\<close>

datatype LoadingWork = LoadingNone | LoadingSkybox | LoadingEmpty

record LoadingState =
  ld_hasOverride :: bool
  ld_visible :: bool
  ld_clearPending :: bool
  ld_sceneSeen :: bool

definition newLoading :: LoadingState where
  "newLoading = \<lparr>ld_hasOverride = False, ld_visible = False, ld_clearPending = False, ld_sceneSeen = False\<rparr>"

definition overrideSet :: "LoadingState \<Rightarrow> LoadingState" where
  "overrideSet l = l\<lparr>ld_hasOverride := True, ld_visible := (if \<not> ld_sceneSeen l then True else ld_visible l), ld_clearPending := False\<rparr>"

definition overrideCleared :: "LoadingState \<Rightarrow> LoadingState" where
  "overrideCleared l = l\<lparr>ld_clearPending := (ld_clearPending l \<or> ld_visible l), ld_hasOverride := False, ld_visible := False\<rparr>"

definition sceneCleared :: "LoadingState \<Rightarrow> LoadingState" where
  "sceneCleared l = l\<lparr>ld_visible := ld_hasOverride l, ld_clearPending := (\<not> ld_hasOverride l)\<rparr>"

definition sceneWaited :: "LoadingState \<Rightarrow> LoadingState" where
  "sceneWaited l = l\<lparr>ld_clearPending := False\<rparr>"

definition sceneSubmitted :: "LoadingState \<Rightarrow> bool \<times> LoadingState" where
  "sceneSubmitted l = (ld_visible l, l\<lparr>ld_sceneSeen := True, ld_visible := False, ld_clearPending := False\<rparr>)"

definition loadingWork :: "bool \<Rightarrow> LoadingState \<Rightarrow> LoadingWork" where
  "loadingWork gameFrameOpen l =
     (if gameFrameOpen then LoadingNone
      else if ld_clearPending l then LoadingEmpty
      else if ld_visible l \<and> ld_hasOverride l then LoadingSkybox else LoadingNone)"

definition emptyCompleted :: "LoadingState \<Rightarrow> LoadingState" where
  "emptyCompleted l = l\<lparr>ld_clearPending := False\<rparr>"

datatype LoadingOp = OverrideSet | OverrideCleared | SceneCleared | SceneWaited | SceneSubmitted | EmptyCompleted

definition execLoading :: "LoadingOp \<Rightarrow> LoadingState \<Rightarrow> LoadingState" where
  "execLoading a l =
     (case a of OverrideSet \<Rightarrow> overrideSet l | OverrideCleared \<Rightarrow> overrideCleared l | SceneCleared \<Rightarrow> sceneCleared l
      | SceneWaited \<Rightarrow> sceneWaited l | SceneSubmitted \<Rightarrow> snd (sceneSubmitted l) | EmptyCompleted \<Rightarrow> emptyCompleted l)"

definition loadingInv :: "LoadingState \<Rightarrow> bool" where
  "loadingInv l \<longleftrightarrow> (ld_visible l \<longrightarrow> ld_hasOverride l \<and> \<not> ld_clearPending l)"

interpretation loading: op_machine execLoading "\<lambda>_. True" loadingInv
  by unfold_locales
    (auto simp: loadingInv_def execLoading_def overrideSet_def overrideCleared_def sceneCleared_def sceneWaited_def
      sceneSubmitted_def emptyCompleted_def split: LoadingOp.split)

text \<open>
  The skybox is drawn exactly while it is visible and no game frame is open, never when the game has no
  override, never in place of a pending empty frame, and not after a scene until the scene is cleared.
\<close>

theorem loading_work_decided:
  fixes ops
  defines "l \<equiv> fold execLoading ops newLoading"
  shows "(loadingWork open' l = LoadingSkybox) = (ld_visible l \<and> \<not> open') \<and>
    (loadingWork open' l = LoadingSkybox \<longrightarrow> ld_hasOverride l \<and> \<not> ld_clearPending l) \<and>
    (SceneCleared \<notin> set rest \<longrightarrow>
       loadingWork open' (fold execLoading rest (snd (sceneSubmitted l))) \<noteq> LoadingSkybox)"
proof -
  have inv: "loadingInv l"
    unfolding l_def by (rule loading.run_inv) (simp_all add: list_all_iff loadingInv_def newLoading_def)
  have hidden: "ld_sceneSeen s \<Longrightarrow> \<not> ld_visible s \<Longrightarrow> SceneCleared \<notin> set rest \<Longrightarrow> \<not> ld_visible (fold execLoading rest s)" for s rest
  proof (induction rest arbitrary: s)
    case (Cons a rest)
    then have "ld_sceneSeen (execLoading a s) \<and> \<not> ld_visible (execLoading a s)"
      by (cases a) (auto simp: execLoading_def overrideSet_def overrideCleared_def sceneCleared_def sceneWaited_def
          sceneSubmitted_def emptyCompleted_def)
    then show ?case using Cons by simp
  qed simp
  show ?thesis
    using inv hidden [of "snd (sceneSubmitted l)" rest] by (auto simp: loadingInv_def loadingWork_def sceneSubmitted_def)
qed

theorem loading_work_decided_witness:
  "loadingWork False (fold execLoading [OverrideSet] newLoading) = LoadingSkybox \<and>
   loadingWork False (fold execLoading [OverrideSet] (snd (sceneSubmitted (fold execLoading [OverrideSet] newLoading)))) \<noteq> LoadingSkybox"
proof -
  have "loadingWork False (fold execLoading [OverrideSet] newLoading) = LoadingSkybox" by code_simp
  then show ?thesis using loading_work_decided [of False "[OverrideSet]" "[OverrideSet]"] by auto
qed

end
