(* ===== verification/ResetEvents.thy ===== *)
theory ResetEvents
  imports Prelude
begin

text \<open>
  \<^verbatim>\<open>src/openxr/reset_events.h\<close>: the ring of application seated resets. A tracked pose is of an arbitrary type
  \<open>'p\<close>, with the invalid pose \<open>bad\<close> as an argument; the age of an event is kept in milliseconds (the code
  divides it by 1000 into a float).
\<close>

record 'p ResetItem =
  it_originGeneration :: u64
  it_nowMs :: u64
  it_pose :: 'p

record 'p ResetEvents =
  re_items :: "'p ResetItem list"
  re_head :: nat
  re_count :: nat
  re_generation :: u64

definition capacity :: nat where
  "capacity = 16"

definition newResetEvents :: "'p \<Rightarrow> 'p ResetEvents" where
  "newResetEvents p = \<lparr>re_items = replicate capacity \<lparr>it_originGeneration = 0, it_nowMs = 0, it_pose = p\<rparr>,
     re_head = 0, re_count = 0, re_generation = 0\<rparr>"

definition resetBegin :: "u64 \<Rightarrow> 'p ResetEvents \<Rightarrow> bool \<times> 'p ResetEvents" where
  "resetBegin generation r =
     (if re_generation r \<noteq> 0 \<or> generation = 0 then (False, r)
      else (True, r\<lparr>re_generation := generation, re_head := 0, re_count := 0\<rparr>))"

definition resetRoom :: "u64 \<Rightarrow> 'p ResetEvents \<Rightarrow> bool" where
  "resetRoom generation r \<longleftrightarrow> generation \<noteq> 0 \<and> generation = re_generation r \<and> re_count r < capacity"

definition resetPush :: "u64 \<Rightarrow> 'p ResetItem \<Rightarrow> 'p ResetEvents \<Rightarrow> bool \<times> 'p ResetEvents" where
  "resetPush generation item r =
     (if generation = 0 \<or> generation \<noteq> re_generation r \<or> it_originGeneration item = 0 \<or> re_count r = capacity then (False, r)
      else (True, r\<lparr>re_items := (re_items r)[(re_head r + re_count r) mod capacity := item], re_count := Suc (re_count r)\<rparr>))"

definition takeItem :: "u64 \<Rightarrow> 'p ResetEvents \<Rightarrow> 'p ResetItem option \<times> 'p ResetEvents" where
  "takeItem generation r =
     (if generation = 0 \<or> generation \<noteq> re_generation r \<or> re_count r = 0 then (None, r)
      else (Some (re_items r ! re_head r), r\<lparr>re_head := (re_head r + 1) mod capacity, re_count := re_count r - 1\<rparr>))"

text \<open>The event's age and the pose that goes with it.\<close>

definition resetPop ::
  "'p \<Rightarrow> u64 \<Rightarrow> u64 \<Rightarrow> bool \<Rightarrow> u64 \<Rightarrow> 'p ResetEvents \<Rightarrow> (u64 \<times> 'p) option \<times> 'p ResetEvents" where
  "resetPop bad generation originGeneration seated nowMs r =
     (case takeItem generation r of
        (None, r1) \<Rightarrow> (None, r1)
      | (Some item, r1) \<Rightarrow>
          (Some (if it_nowMs item \<le> nowMs then nowMs - it_nowMs item else 0,
                 if seated \<and> originGeneration = it_originGeneration item then it_pose item else bad), r1))"

definition resetRetire :: "'p \<Rightarrow> u64 \<Rightarrow> 'p ResetEvents \<Rightarrow> 'p ResetEvents" where
  "resetRetire p generation r = (if generation \<noteq> 0 \<and> generation = re_generation r then newResetEvents p else r)"

section \<open>The ring is a queue\<close>

definition ringContents :: "'p ResetEvents \<Rightarrow> 'p ResetItem list" where
  "ringContents r = map (\<lambda>i. re_items r ! ((re_head r + i) mod capacity)) [0..<re_count r]"

definition ringInv :: "u64 \<Rightarrow> 'p ResetEvents \<Rightarrow> bool" where
  "ringInv g r \<longleftrightarrow> re_generation r = g \<and> g \<noteq> 0 \<and> length (re_items r) = capacity \<and> re_head r < capacity \<and> re_count r \<le> capacity"

lemma ring_slot_free:
  "i < c \<Longrightarrow> c < capacity \<Longrightarrow> (h + i) mod capacity \<noteq> (h + c) mod capacity"
proof
  assume i: "i < c" "c < capacity" and "(h + i) mod capacity = (h + c) mod capacity"
  then have "(c - i) mod capacity = 0"
    by (metis add_diff_cancel_left less_imp_le mod_eq_dvd_iff_nat nat_add_left_cancel_le dvd_imp_mod_0)
  then show False using i by (simp add: capacity_def)
qed

lemma ringContents_push:
  assumes "ringInv g r" "re_count r < capacity"
  shows "ringContents (r\<lparr>re_items := (re_items r)[(re_head r + re_count r) mod capacity := x], re_count := Suc (re_count r)\<rparr>) =
    ringContents r @ [x]"
proof -
  have "(re_items r)[(re_head r + re_count r) mod capacity := x] ! ((re_head r + i) mod capacity) =
      re_items r ! ((re_head r + i) mod capacity)" if "i < re_count r" for i
    using ring_slot_free [OF that assms(2), of "re_head r"] by (simp add: nth_list_update_neq)
  moreover have "(re_head r + re_count r) mod capacity < length (re_items r)"
    using assms(1) by (simp add: ringInv_def capacity_def)
  ultimately show ?thesis by (simp add: ringContents_def)
qed

lemma ringContents_pop:
  assumes "re_head r < capacity" "re_count r = Suc n"
  shows "ringContents r = re_items r ! re_head r # ringContents (r\<lparr>re_head := (re_head r + 1) mod capacity, re_count := n\<rparr>)"
proof -
  have "((re_head r + 1) mod capacity + i) mod capacity = (re_head r + Suc i) mod capacity" for i
    by (simp add: mod_simps)
  moreover have "[0..<Suc n] = 0 # map Suc [0..<n]" by (simp add: upt_conv_Cons map_Suc_upt del: upt_Suc)
  ultimately show ?thesis using assms by (simp add: ringContents_def comp_def)
qed

interpretation ring: bounded_fifo ringContents "resetPush g" "takeItem g" "\<lambda>it. it_originGeneration it \<noteq> 0" capacity "ringInv g" for g
proof unfold_locales
  fix s :: "'b ResetEvents" and x :: "'b ResetItem" and xs
  assume inv: "ringInv g s"
  have len: "length (ringContents s) = re_count s" by (simp add: ringContents_def)
  show "it_originGeneration x \<noteq> 0 \<Longrightarrow> length (ringContents s) < capacity \<Longrightarrow>
      fst (resetPush g x s) \<and> ringContents (snd (resetPush g x s)) = ringContents s @ [x] \<and> ringInv g (snd (resetPush g x s))"
    using inv len ringContents_push [OF inv, of x] by (auto simp: resetPush_def ringInv_def)
  show "\<not> it_originGeneration x \<noteq> 0 \<or> capacity \<le> length (ringContents s) \<Longrightarrow> resetPush g x s = (False, s)"
    using inv len by (auto simp: resetPush_def ringInv_def)
  show "ringContents s = x # xs \<Longrightarrow>
      fst (takeItem g s) = Some x \<and> ringContents (snd (takeItem g s)) = xs \<and> ringInv g (snd (takeItem g s))"
    using inv len ringContents_pop [of s] by (cases "re_count s") (auto simp: takeItem_def ringInv_def capacity_def)
  show "ringContents s = [] \<Longrightarrow> takeItem g s = (None, s)"
    using len by (auto simp: takeItem_def)
qed

text \<open>
  The ring is a bounded first-in first-out queue: over any run of pushes and pops of one generation, the
  events that came out and those still held are, in order, exactly the accepted ones, and never more than
  sixteen are held.
\<close>

theorem reset_events_fifo:
  assumes "generation \<noteq> 0" "ring.fifoRun generation ops (snd (resetBegin generation (newResetEvents p))) = (t, ins, outs)"
  shows "ins = outs @ ringContents t \<and> length (ringContents t) \<le> capacity"
proof -
  let ?s = "snd (resetBegin generation (newResetEvents p))"
  have "ringInv generation ?s" "ringContents ?s = []"
    using assms(1) by (simp_all add: ringInv_def ringContents_def resetBegin_def newResetEvents_def capacity_def)
  from ring.fifo_order [OF this(1) _ assms(2)] this(2) show ?thesis by simp
qed

theorem reset_events_fifo_witness:
  "fst (snd (ring.fifoRun 3 [Some \<lparr>it_originGeneration = 1, it_nowMs = 5, it_pose = ()\<rparr>, None, None]
       (snd (resetBegin 3 (newResetEvents ()))))) = [\<lparr>it_originGeneration = 1, it_nowMs = 5, it_pose = ()\<rparr>] \<and>
   snd (snd (ring.fifoRun 3 [Some \<lparr>it_originGeneration = 1, it_nowMs = 5, it_pose = ()\<rparr>, None, None]
       (snd (resetBegin 3 (newResetEvents ()))))) = [\<lparr>it_originGeneration = 1, it_nowMs = 5, it_pose = ()\<rparr>]"
proof -
  let ?ops = "[Some \<lparr>it_originGeneration = 1, it_nowMs = 5, it_pose = ()\<rparr>, None, None]"
  let ?s = "snd (resetBegin 3 (newResetEvents ()))"
  obtain t ins outs where r: "ring.fifoRun 3 ?ops ?s = (t, ins, outs)" by (metis prod_cases3)
  then have i: "ins = [\<lparr>it_originGeneration = 1, it_nowMs = 5, it_pose = ()\<rparr>]" "ringContents t = []"
    by (auto simp: resetPush_def takeItem_def resetBegin_def newResetEvents_def ringContents_def capacity_def split: prod.splits)
  with reset_events_fifo [OF _ r] r show ?thesis by simp
qed

end
