(* ===== verification/RuntimeGate.thy ===== *)
theory RuntimeGate
  imports Prelude
begin

text \<open>
  \<^verbatim>\<open>src/openxr/runtime_gate.h\<close> and \<^verbatim>\<open>src/openxr/present_quiescence.h\<close>: the gate that keeps the runtime's
  resources alive while an operation is inside it, and the render thread's one acknowledgement of a stop.
  Each method holds the mutex throughout, so it is one step; the leases clients hold are part of the system
  the steps act on.
\<close>

section \<open>The gate\<close>

datatype GateState = GateInactive | GateRunning | GateStopping

record RuntimeGate =
  gt_generation :: u64
  gt_activeLeases :: nat
  gt_state :: GateState

definition newGate :: RuntimeGate where
  "newGate = \<lparr>gt_generation = 0, gt_activeLeases = 0, gt_state = GateInactive\<rparr>"

definition beginGeneration :: "RuntimeGate \<Rightarrow> u64 \<times> RuntimeGate" where
  "beginGeneration g =
     (if gt_state g \<noteq> GateInactive \<or> gt_activeLeases g \<noteq> 0 \<or> gt_generation g = - 1 then (0, g)
      else (gt_generation g + 1, g\<lparr>gt_generation := gt_generation g + 1, gt_state := GateRunning\<rparr>))"

text \<open>A lease is the generation it was granted for; \<open>None\<close> is an invalid lease.\<close>

definition tryEnter :: "u64 \<Rightarrow> RuntimeGate \<Rightarrow> u64 option \<times> RuntimeGate" where
  "tryEnter generation g =
     (if gt_state g \<noteq> GateRunning \<or> generation = 0 \<or> generation \<noteq> gt_generation g \<or> gt_activeLeases g \<noteq> 0
      then (None, g)
      else (Some generation, g\<lparr>gt_activeLeases := 1\<rparr>))"

definition requestStop :: "u64 \<Rightarrow> RuntimeGate \<Rightarrow> bool \<times> RuntimeGate" where
  "requestStop generation g =
     (if gt_state g \<noteq> GateRunning \<or> generation = 0 \<or> generation \<noteq> gt_generation g then (False, g)
      else (True, g\<lparr>gt_state := GateStopping\<rparr>))"

definition canDestroy :: "u64 \<Rightarrow> RuntimeGate \<Rightarrow> bool" where
  "canDestroy generation g \<longleftrightarrow> generation \<noteq> 0 \<and> generation = gt_generation g \<and> gt_state g = GateStopping \<and>
     gt_activeLeases g = 0"

definition finishGeneration :: "u64 \<Rightarrow> RuntimeGate \<Rightarrow> bool \<times> RuntimeGate" where
  "finishGeneration generation g =
     (if generation = 0 \<or> generation \<noteq> gt_generation g \<or> gt_state g \<noteq> GateStopping \<or> gt_activeLeases g \<noteq> 0
      then (False, g)
      else (True, g\<lparr>gt_state := GateInactive\<rparr>))"

definition releaseLease :: "u64 \<Rightarrow> RuntimeGate \<Rightarrow> RuntimeGate" where
  "releaseLease generation g =
     (if generation = gt_generation g \<and> gt_activeLeases g \<noteq> 0 then g\<lparr>gt_activeLeases := 0\<rparr> else g)"

text \<open>The gate with the leases its clients hold, the generations begun, and the ones finished.\<close>

record GateSystem =
  gs_gate :: RuntimeGate
  gs_held :: "u64 list"
  gs_begun :: "u64 list"

inductive gateStep :: "GateSystem \<Rightarrow> GateSystem \<Rightarrow> bool" where
  beginGen: "beginGeneration (gs_gate s) = (n, g) \<Longrightarrow>
     gateStep s (s\<lparr>gs_gate := g, gs_begun := (if n = 0 then gs_begun s else n # gs_begun s)\<rparr>)"
| enter: "tryEnter n (gs_gate s) = (l, g) \<Longrightarrow>
     gateStep s (s\<lparr>gs_gate := g, gs_held := (case l of None \<Rightarrow> gs_held s | Some k \<Rightarrow> k # gs_held s)\<rparr>)"
| release: "gs_held s = a @ n # b \<Longrightarrow> gateStep s (s\<lparr>gs_gate := releaseLease n (gs_gate s), gs_held := a @ b\<rparr>)"
| requestStop: "gateStep s (s\<lparr>gs_gate := snd (requestStop n (gs_gate s))\<rparr>)"
| finishGen: "gateStep s (s\<lparr>gs_gate := snd (finishGeneration n (gs_gate s))\<rparr>)"

inductive_cases gateStep_cases: "gateStep s t"

definition newGateSystem :: GateSystem where
  "newGateSystem = \<lparr>gs_gate = newGate, gs_held = [], gs_begun = []\<rparr>"

definition gateInv :: "GateSystem \<Rightarrow> bool" where
  "gateInv s \<longleftrightarrow>
     gs_held s = (if gt_activeLeases (gs_gate s) = 0 then [] else [gt_generation (gs_gate s)]) \<and>
     (gt_state (gs_gate s) = GateInactive \<longrightarrow> gt_activeLeases (gs_gate s) = 0) \<and>
     (\<forall>n \<in> set (gs_begun s). n \<le> gt_generation (gs_gate s)) \<and> sorted_wrt (>) (gs_begun s) \<and>
     (gt_state (gs_gate s) \<noteq> GateInactive \<longrightarrow> gt_generation (gs_gate s) \<noteq> 0)"

lemma gateStep_inv: "gateInv s \<Longrightarrow> gateStep s t \<Longrightarrow> gateInv t"
proof -
  assume inv: "gateInv s" and "gateStep s t"
  from this(2) show ?thesis
  proof cases
    case (beginGen n g)
    then show ?thesis
      using inv succ_word [of "gt_generation (gs_gate s)"]
      by (auto simp: gateInv_def beginGeneration_def split: if_splits dest: order.strict_trans1 intro: less_imp_le order_trans)
  next
    case (release a n b)
    then show ?thesis using inv by (auto simp: gateInv_def releaseLease_def append_eq_Cons_conv split: if_splits)
  qed (use inv in \<open>auto simp: gateInv_def tryEnter_def requestStop_def finishGeneration_def split: if_splits\<close>)
qed

interpretation gate: step_machine "\<lambda>s. s = newGateSystem" gateStep gateInv
proof unfold_locales
  show "s = newGateSystem \<Longrightarrow> gateInv s" for s by (simp add: gateInv_def newGateSystem_def newGate_def)
  show "gateInv s \<Longrightarrow> gateStep s t \<Longrightarrow> gateInv t" for s t by (rule gateStep_inv)
qed

text \<open>
  While any operation holds a lease the runtime cannot be torn down or replaced: at most one lease is
  held, it is for the current generation, \<^verbatim>\<open>canDestroy\<close> is false for every generation, a generation cannot be
  finished, and no new one can begin.
\<close>

theorem gate_lease_pins_generation:
  assumes "reach (\<lambda>s. s = newGateSystem) gateStep s" "gs_held s \<noteq> []"
  shows "gs_held s = [gt_generation (gs_gate s)] \<and> \<not> canDestroy n (gs_gate s) \<and>
    finishGeneration n (gs_gate s) = (False, gs_gate s) \<and> beginGeneration (gs_gate s) = (0, gs_gate s)"
  using gate.reach_inv [OF assms(1)] assms(2)
  by (auto simp: gateInv_def canDestroy_def finishGeneration_def beginGeneration_def split: if_splits)

text \<open>
  Generation numbers are never reused: the generations begun are strictly increasing, so a stale
  generation can neither enter nor stop nor finish a later one.
\<close>

theorem gate_generations_fresh:
  assumes "reach (\<lambda>s. s = newGateSystem) gateStep s"
  shows "sorted_wrt (>) (gs_begun s) \<and>
    (n \<noteq> gt_generation (gs_gate s) \<longrightarrow> tryEnter n (gs_gate s) = (None, gs_gate s) \<and>
       requestStop n (gs_gate s) = (False, gs_gate s) \<and> finishGeneration n (gs_gate s) = (False, gs_gate s))"
  using gate.reach_inv [OF assms] by (auto simp: gateInv_def tryEnter_def requestStop_def finishGeneration_def)

definition leasedSystem :: GateSystem where
  "leasedSystem = \<lparr>gs_gate = \<lparr>gt_generation = 1, gt_activeLeases = 1, gt_state = GateRunning\<rparr>, gs_held = [1], gs_begun = [1]\<rparr>"

lemma leasedSystem_reach: "reach (\<lambda>s. s = newGateSystem) gateStep leasedSystem"
proof -
  let ?s1 = "newGateSystem\<lparr>gs_gate := \<lparr>gt_generation = 1, gt_activeLeases = 0, gt_state = GateRunning\<rparr>, gs_begun := [1]\<rparr>"
  have "gateStep newGateSystem ?s1"
    using gateStep.beginGen [of newGateSystem 1 "\<lparr>gt_generation = 1, gt_activeLeases = 0, gt_state = GateRunning\<rparr>"]
    by (simp add: beginGeneration_def newGateSystem_def newGate_def)
  moreover have "gateStep ?s1 leasedSystem"
    using gateStep.enter [of 1 ?s1 "Some 1" "\<lparr>gt_generation = 1, gt_activeLeases = 1, gt_state = GateRunning\<rparr>"]
    by (simp add: tryEnter_def newGateSystem_def leasedSystem_def)
  ultimately show ?thesis by (blast intro: reach_init reach_step)
qed

theorem gate_lease_pins_generation_witness: "gs_held leasedSystem = [1] \<and> \<not> canDestroy 1 (gs_gate leasedSystem)"
  using gate_lease_pins_generation [OF leasedSystem_reach] by (simp add: leasedSystem_def)

theorem gate_generations_fresh_witness: "tryEnter 7 (gs_gate leasedSystem) = (None, gs_gate leasedSystem)"
  using gate_generations_fresh [OF leasedSystem_reach, of 7] by (simp add: leasedSystem_def)

section \<open>Present quiescence\<close>

record PresentQuiescence =
  pq_renderThread :: nat
  pq_stopRequested :: bool
  pq_acknowledged :: bool
  pq_succeeded :: bool
  pq_stopped :: bool

definition newQuiescence :: "nat \<Rightarrow> PresentQuiescence" where
  "newQuiescence thread = \<lparr>pq_renderThread = thread, pq_stopRequested = False, pq_acknowledged = False,
     pq_succeeded = False, pq_stopped = False\<rparr>"

text \<open>
  The request, and what the caller returns at once; \<open>None\<close> means it goes on to wait. \<open>waitResult\<close> is what it
  returns when it wakes or its deadline passes.
\<close>

definition requestQuiescence :: "nat \<Rightarrow> int \<Rightarrow> PresentQuiescence \<Rightarrow> bool option \<times> PresentQuiescence" where
  "requestQuiescence thread timeout q =
     (if thread = pq_renderThread q then (Some False, q)
      else
        (let q1 = q\<lparr>pq_stopRequested := True\<rparr> in
         if pq_acknowledged q1 then (Some (pq_succeeded q1), q1)
         else if timeout \<le> 0 then (Some False, q1)
         else (None, q1)))"

definition waitResult :: "PresentQuiescence \<Rightarrow> bool" where
  "waitResult q = (if pq_acknowledged q then pq_succeeded q else False)"

definition acknowledge :: "nat \<Rightarrow> bool \<Rightarrow> PresentQuiescence \<Rightarrow> bool \<times> PresentQuiescence" where
  "acknowledge thread success q =
     (if thread \<noteq> pq_renderThread q then (False, q)
      else if \<not> pq_stopRequested q \<or> pq_acknowledged q then (False, q)
      else (True, q\<lparr>pq_acknowledged := True, pq_succeeded := success, pq_stopped := success\<rparr>))"

datatype QuiescenceOp = QRequest nat int | QAcknowledge nat bool

definition execQuiescence :: "QuiescenceOp \<Rightarrow> PresentQuiescence \<Rightarrow> PresentQuiescence" where
  "execQuiescence a q =
     (case a of QRequest t d \<Rightarrow> snd (requestQuiescence t d q) | QAcknowledge t ok \<Rightarrow> snd (acknowledge t ok q))"

definition quiescenceInv :: "PresentQuiescence \<Rightarrow> bool" where
  "quiescenceInv q \<longleftrightarrow> (pq_acknowledged q \<longrightarrow> pq_stopRequested q) \<and> pq_stopped q = (pq_acknowledged q \<and> pq_succeeded q)"

interpretation quiescence: op_machine execQuiescence "\<lambda>_. True" quiescenceInv
  by unfold_locales
    (auto simp: quiescenceInv_def execQuiescence_def requestQuiescence_def acknowledge_def Let_def split: QuiescenceOp.split)

text \<open>
  The first acknowledgement is final: after it, no sequence of requests and acknowledgements, by any
  thread, changes the answer, and every caller reads that same answer.
\<close>

theorem quiescence_answer_final:
  assumes "acknowledge (pq_renderThread q) ok q = (True, q1)"
  shows "fold execQuiescence ops q1 = q1 \<and> waitResult q1 = ok \<and>
    (t \<noteq> pq_renderThread q \<longrightarrow> requestQuiescence t d q1 = (Some ok, q1))"
proof -
  have q1: "pq_stopRequested q1" "pq_acknowledged q1" "pq_succeeded q1 = ok" "pq_renderThread q1 = pq_renderThread q"
    using assms by (auto simp: acknowledge_def split: if_splits)
  then have r: "q1\<lparr>pq_stopRequested := True\<rparr> = q1" by (cases q1) simp
  have "execQuiescence a q1 = q1" for a
    using q1 r by (cases a) (auto simp: execQuiescence_def requestQuiescence_def acknowledge_def Let_def)
  then have "fold execQuiescence ops q1 = q1" by (induction ops) simp_all
  then show ?thesis using q1 r by (simp add: waitResult_def requestQuiescence_def Let_def)
qed

theorem quiescence_answer_final_witness:
  "let q1 = snd (acknowledge 1 True (snd (requestQuiescence 2 5000 (newQuiescence 1)))) in
   fold execQuiescence [QAcknowledge 1 False, QRequest 3 0] q1 = q1 \<and> waitResult q1"
proof -
  let ?q = "snd (requestQuiescence 2 5000 (newQuiescence 1))"
  have "acknowledge (pq_renderThread ?q) True ?q = (True, snd (acknowledge 1 True ?q))" by code_simp
  from quiescence_answer_final [OF this, of "[QAcknowledge 1 False, QRequest 3 0]"] show ?thesis unfolding Let_def by blast
qed

end
