(* ===== verification/RuntimeLifecycle.thy ===== *)
theory RuntimeLifecycle
  imports Prelude
begin

text \<open>
  \<^verbatim>\<open>src/openxr/runtime_lifecycle.h\<close>: starting and stopping the backend behind \<^verbatim>\<open>VR_Init\<close> and \<^verbatim>\<open>VR_Shutdown\<close>, with
  callers on any number of threads. A step is what happens under one hold of the mutex; the backend's
  \<^verbatim>\<open>start\<close> and \<^verbatim>\<open>stop\<close> run between steps, and what they return is arbitrary. The interfaces are the four
  pointers, present or absent.
\<close>

datatype LifecycleState = LsIdle | LsStarting | LsRunning | LsStopping | LsFailed

abbreviation VRInitError_None :: nat where "VRInitError_None \<equiv> 0"
abbreviation VRInitError_Init_InterfaceNotFound :: nat where "VRInitError_Init_InterfaceNotFound \<equiv> 105"
abbreviation VRInitError_Init_InvalidInterface :: nat where "VRInitError_Init_InvalidInterface \<equiv> 106"
abbreviation VRInitError_Init_NotInitialized :: nat where "VRInitError_Init_NotInitialized \<equiv> 109"
abbreviation VRInitError_Init_TooManyObjects :: nat where "VRInitError_Init_TooManyObjects \<equiv> 120"
abbreviation VRInitError_Init_NotSupportedWithCompositor :: nat where "VRInitError_Init_NotSupportedWithCompositor \<equiv> 122"
abbreviation VRInitError_Init_Internal :: nat where "VRInitError_Init_Internal \<equiv> 124"
abbreviation VRInitError_Init_ShuttingDown :: nat where "VRInitError_Init_ShuttingDown \<equiv> 119"
abbreviation VRInitError_Init_Retry :: nat where "VRInitError_Init_Retry \<equiv> 115"

record RuntimeInterfaces =
  ri_system :: "nat option"
  ri_compositor :: "nat option"
  ri_chaperone :: "nat option"
  ri_display :: "nat option"

definition noInterfaces :: RuntimeInterfaces where
  "noInterfaces = \<lparr>ri_system = None, ri_compositor = None, ri_chaperone = None, ri_display = None\<rparr>"

definition interfacesComplete :: "RuntimeInterfaces \<Rightarrow> bool" where
  "interfacesComplete i \<longleftrightarrow> ri_system i \<noteq> None \<and> ri_compositor i \<noteq> None \<and> ri_chaperone i \<noteq> None \<and> ri_display i \<noteq> None"

record RuntimeLifecycle =
  rl_interfaces :: RuntimeInterfaces
  rl_state :: LifecycleState
  rl_token :: u32
  rl_cancelled :: bool

definition newLifecycle :: "u32 \<Rightarrow> RuntimeLifecycle" where
  "newLifecycle initialToken = \<lparr>rl_interfaces = noInterfaces, rl_state = LsIdle, rl_token = initialToken, rl_cancelled = False\<rparr>"

section \<open>init\<close>

text \<open>Either \<^verbatim>\<open>init\<close> returns at once, with an error and a token, or it goes on to start the backend.\<close>

datatype InitEntry = InitReturns nat u32 | InitStarts u32

definition initEnter :: "nat \<Rightarrow> RuntimeLifecycle \<Rightarrow> InitEntry \<times> RuntimeLifecycle" where
  "initEnter application l =
     (if application \<noteq> 1 then (InitReturns VRInitError_Init_NotSupportedWithCompositor 0, l)
      else if rl_state l = LsRunning then (InitReturns VRInitError_None (rl_token l), l)
      else if rl_state l = LsStarting then (InitReturns VRInitError_Init_Retry 0, l)
      else if rl_state l = LsStopping then (InitReturns VRInitError_Init_ShuttingDown 0, l)
      else if rl_state l = LsFailed then (InitReturns VRInitError_Init_Internal 0, l)
      else if rl_token l > - 3 then (InitReturns VRInitError_Init_TooManyObjects 0, l)
      else (InitStarts (rl_token l + 1),
            l\<lparr>rl_token := rl_token l + 1, rl_cancelled := False, rl_state := LsStarting\<rparr>))"

text \<open>After the backend's \<^verbatim>\<open>start\<close>: done with a token, or an error whose caller must stop the backend.\<close>

datatype StartEnd = StartSucceeded u32 | StartCleansUp nat

definition initStarted :: "nat \<Rightarrow> RuntimeInterfaces \<Rightarrow> RuntimeLifecycle \<Rightarrow> StartEnd \<times> RuntimeLifecycle" where
  "initStarted result candidate l =
     (if rl_state l = LsStarting \<and> result = VRInitError_None \<and> interfacesComplete candidate
      then (StartSucceeded (rl_token l), l\<lparr>rl_interfaces := candidate, rl_state := LsRunning\<rparr>)
      else
        (StartCleansUp (if rl_cancelled l then VRInitError_Init_ShuttingDown
                        else if result = VRInitError_None then VRInitError_Init_InterfaceNotFound else result),
         l\<lparr>rl_state := LsStopping, rl_interfaces := noInterfaces\<rparr>))"

definition stopReturned :: "bool \<Rightarrow> RuntimeLifecycle \<Rightarrow> RuntimeLifecycle" where
  "stopReturned stopped l = l\<lparr>rl_state := (if stopped then LsIdle else LsFailed)\<rparr>"

section \<open>shutdown and queries\<close>

text \<open>The Boolean says whether this caller must stop the backend.\<close>

definition shutdownEnter :: "RuntimeLifecycle \<Rightarrow> bool \<times> RuntimeLifecycle" where
  "shutdownEnter l =
     (if rl_state l = LsIdle \<or> rl_state l = LsFailed \<or> rl_state l = LsStopping then (False, l)
      else (rl_state l \<noteq> LsStarting,
            l\<lparr>rl_state := LsStopping, rl_interfaces := noInterfaces, rl_token := rl_token l + 1, rl_cancelled := True\<rparr>))"

definition slot :: "string option \<Rightarrow> nat option" where
  "slot version =
     (case version of
        None \<Rightarrow> None
      | Some v \<Rightarrow>
          if v = ''IVRSystem_012'' then Some 0
          else if v = ''IVRCompositor_014'' then Some 1
          else if v = ''IVRChaperone_003'' then Some 2
          else if v = ''IVRExtendedDisplay_001'' then Some 3
          else None)"

definition getInterface :: "string option \<Rightarrow> RuntimeLifecycle \<Rightarrow> nat \<times> nat option" where
  "getInterface version l =
     (case slot version of
        None \<Rightarrow> (if version = None then VRInitError_Init_InvalidInterface else VRInitError_Init_InterfaceNotFound, None)
      | Some i \<Rightarrow>
          if rl_state l \<noteq> LsRunning then (VRInitError_Init_NotInitialized, None)
          else (VRInitError_None,
                if i = 0 then ri_system (rl_interfaces l)
                else if i = 1 then ri_compositor (rl_interfaces l)
                else if i = 2 then ri_chaperone (rl_interfaces l)
                else ri_display (rl_interfaces l)))"

section \<open>All threads together\<close>

text \<open>
  The coordinator with the number of threads inside the backend's \<^verbatim>\<open>start\<close> and \<^verbatim>\<open>stop\<close>, and the number of
  starts that have returned without a stop having been called for them.
\<close>

record LifecycleSystem =
  ly_lifecycle :: RuntimeLifecycle
  ly_inStart :: nat
  ly_inStop :: nat
  ly_unstopped :: nat

inductive lifecycleStep :: "LifecycleSystem \<Rightarrow> LifecycleSystem \<Rightarrow> bool" where
  initReturns: "initEnter app (ly_lifecycle s) = (InitReturns e t, l) \<Longrightarrow> lifecycleStep s (s\<lparr>ly_lifecycle := l\<rparr>)"
| initStarts: "initEnter app (ly_lifecycle s) = (InitStarts t, l) \<Longrightarrow>
     lifecycleStep s (s\<lparr>ly_lifecycle := l, ly_inStart := Suc (ly_inStart s)\<rparr>)"
| startOk: "0 < ly_inStart s \<Longrightarrow> initStarted r c (ly_lifecycle s) = (StartSucceeded t, l) \<Longrightarrow>
     lifecycleStep s (s\<lparr>ly_lifecycle := l, ly_inStart := ly_inStart s - 1, ly_unstopped := Suc (ly_unstopped s)\<rparr>)"
| startFails: "0 < ly_inStart s \<Longrightarrow> initStarted r c (ly_lifecycle s) = (StartCleansUp e, l) \<Longrightarrow>
     lifecycleStep s (s\<lparr>ly_lifecycle := l, ly_inStart := ly_inStart s - 1, ly_inStop := Suc (ly_inStop s)\<rparr>)"
| shutdownWaits: "shutdownEnter (ly_lifecycle s) = (False, l) \<Longrightarrow> lifecycleStep s (s\<lparr>ly_lifecycle := l\<rparr>)"
| shutdownStops: "shutdownEnter (ly_lifecycle s) = (True, l) \<Longrightarrow>
     lifecycleStep s (s\<lparr>ly_lifecycle := l, ly_inStop := Suc (ly_inStop s), ly_unstopped := ly_unstopped s - 1\<rparr>)"
| stopReturns: "0 < ly_inStop s \<Longrightarrow>
     lifecycleStep s (s\<lparr>ly_lifecycle := stopReturned ok (ly_lifecycle s), ly_inStop := ly_inStop s - 1\<rparr>)"

inductive_cases lifecycleStep_cases: "lifecycleStep s t"

definition newLifecycleSystem :: "u32 \<Rightarrow> LifecycleSystem" where
  "newLifecycleSystem t = \<lparr>ly_lifecycle = newLifecycle t, ly_inStart = 0, ly_inStop = 0, ly_unstopped = 0\<rparr>"

definition lifecycleInv :: "LifecycleSystem \<Rightarrow> bool" where
  "lifecycleInv s \<longleftrightarrow>
     (let l = ly_lifecycle s in
      ly_unstopped s = (if rl_state l = LsRunning then 1 else 0) \<and>
      ly_inStart s + ly_inStop s = (if rl_state l \<in> {LsStarting, LsStopping} then 1 else 0) \<and>
      (rl_state l = LsStarting \<longrightarrow> ly_inStart s = 1 \<and> \<not> rl_cancelled l) \<and>
      (rl_state l = LsStopping \<and> ly_inStart s = 1 \<longrightarrow> rl_cancelled l) \<and>
      (if rl_state l = LsRunning then interfacesComplete (rl_interfaces l) else rl_interfaces l = noInterfaces) \<and>
      (rl_state l \<in> {LsStarting, LsRunning} \<longrightarrow> rl_token l \<noteq> - 1))"

lemma token_room: "\<not> (- 3 :: u32) < t \<Longrightarrow> t + 1 \<noteq> - 1"
proof
  assume "\<not> (- 3 :: u32) < t" "t + 1 = - 1"
  then have "t = - 1 - 1" by (metis add_diff_cancel_right')
  then have "t = - 2" by simp
  with \<open>\<not> (- 3 :: u32) < t\<close> show False by simp
qed

lemma lifecycleStep_inv: "lifecycleInv s \<Longrightarrow> lifecycleStep s t \<Longrightarrow> lifecycleInv t"
proof -
  assume inv: "lifecycleInv s" and "lifecycleStep s t"
  from this(2) show ?thesis
  proof cases
    case (initStarts app t l)
    then show ?thesis
      using inv token_room by (auto simp: lifecycleInv_def initEnter_def Let_def split: if_splits)
  qed (use inv in \<open>auto simp: lifecycleInv_def initEnter_def initStarted_def shutdownEnter_def stopReturned_def Let_def
      split: if_splits\<close>)
qed

interpretation lifecycle: step_machine "\<lambda>s. \<exists>t. s = newLifecycleSystem t" lifecycleStep lifecycleInv
proof unfold_locales
  show "\<exists>t. s = newLifecycleSystem t \<Longrightarrow> lifecycleInv s" for s
    by (auto simp: lifecycleInv_def newLifecycleSystem_def newLifecycle_def)
  show "lifecycleInv s \<Longrightarrow> lifecycleStep s t \<Longrightarrow> lifecycleInv t" for s t by (rule lifecycleStep_inv)
qed

text \<open>
  With any number of threads calling \<^verbatim>\<open>VR_Init\<close> and \<^verbatim>\<open>VR_Shutdown\<close>, the backend's start and stop never overlap:
  at most one thread is inside either, a new start is possible only when every earlier one has been stopped,
  and interfaces are handed out only while the backend is running, all four of them.
\<close>

theorem lifecycle_backend_exclusive:
  assumes "reach (\<lambda>s. \<exists>t. s = newLifecycleSystem t) lifecycleStep s"
  shows "ly_inStart s + ly_inStop s \<le> 1 \<and>
    (initEnter app (ly_lifecycle s) = (InitStarts t, l) \<longrightarrow> ly_inStart s + ly_inStop s + ly_unstopped s = 0) \<and>
    (getInterface v (ly_lifecycle s) = (VRInitError_None, p) \<longrightarrow>
       p \<noteq> None \<and> ly_unstopped s = 1 \<and> ly_inStart s + ly_inStop s = 0)"
  using lifecycle.reach_inv [OF assms]
  by (auto simp: lifecycleInv_def initEnter_def getInterface_def interfacesComplete_def Let_def split: if_splits option.splits)

text \<open>
  The token never wraps: whenever a shutdown would advance it, there is room, so a token that was handed
  out is never handed out again.
\<close>

theorem lifecycle_token_never_wraps:
  assumes "reach (\<lambda>s. \<exists>t. s = newLifecycleSystem t) lifecycleStep s" "lifecycleStep s s'"
  shows "rl_token (ly_lifecycle s) \<le> rl_token (ly_lifecycle s')"
proof -
  have inv: "lifecycleInv s" by (rule lifecycle.reach_inv [OF assms(1)])
  have up: "(t :: u32) \<noteq> - 1 \<Longrightarrow> t \<le> t + 1" for t
  proof -
    assume "t \<noteq> - 1"
    then have "1 + t \<noteq> 0" by (metis add.commute eq_neg_iff_add_eq_0)
    then show "t \<le> t + 1" using unatSuc [of t] by (simp add: word_le_nat_alt add.commute)
  qed
  have room: "\<not> (- 3 :: u32) < t \<Longrightarrow> t \<noteq> - 1" for t by auto
  from assms(2) show ?thesis
  proof cases
    case (initStarts app t l)
    then show ?thesis using up room by (auto simp: initEnter_def split: if_splits)
  next
    case (shutdownStops l)
    then show ?thesis
      using inv up by (cases "rl_state (ly_lifecycle s)") (auto simp: lifecycleInv_def shutdownEnter_def Let_def split: if_splits)
  next
    case (shutdownWaits l)
    then show ?thesis
      using inv up by (cases "rl_state (ly_lifecycle s)") (auto simp: lifecycleInv_def shutdownEnter_def Let_def split: if_splits)
  qed (auto simp: initEnter_def initStarted_def stopReturned_def split: if_splits)
qed

theorem lifecycle_backend_exclusive_witness:
  "initEnter 1 (ly_lifecycle (newLifecycleSystem 0)) = (InitStarts 1, (newLifecycle 0)\<lparr>rl_token := 1, rl_state := LsStarting\<rparr>) \<and>
   ly_inStart (newLifecycleSystem 0) + ly_inStop (newLifecycleSystem 0) \<le> 1"
proof -
  have r: "reach (\<lambda>s. \<exists>t. s = newLifecycleSystem t) lifecycleStep (newLifecycleSystem 0)" by (rule reach_init) blast
  show ?thesis
    using lifecycle_backend_exclusive [OF r] by (simp add: newLifecycleSystem_def newLifecycle_def initEnter_def)
qed

theorem lifecycle_token_never_wraps_witness:
  "(5 :: u32) \<le> rl_token (snd (initEnter 1 (newLifecycle 5)))"
proof -
  have r: "reach (\<lambda>s. \<exists>t. s = newLifecycleSystem t) lifecycleStep (newLifecycleSystem 5)" by (rule reach_init) blast
  have e: "initEnter 1 (ly_lifecycle (newLifecycleSystem 5)) = (InitStarts 6, snd (initEnter 1 (newLifecycle 5)))"
    by (simp add: newLifecycleSystem_def newLifecycle_def initEnter_def)
  from lifecycle_token_never_wraps [OF r lifecycleStep.initStarts [OF e]] show ?thesis
    by (simp add: newLifecycleSystem_def newLifecycle_def)
qed

end
