(* ===== verification/InstallRecord.thy ===== *)
theory InstallRecord
  imports IniMerge
begin

text \<open>
  \<^verbatim>\<open>src/installer/state.cpp\<close> and the path helpers of \<^verbatim>\<open>src/installer/detect.cpp\<close>: the record the installer leaves
  beside the game, written in the ini dialect and read back through \<^verbatim>\<open>iniParse\<close>. A wide string is modelled by
  its UTF-8 text, so \<^verbatim>\<open>toUtf8\<close> and \<^verbatim>\<open>fromUtf8\<close> are the identity.
\<close>

section \<open>Paths\<close>

definition isSlash :: "char \<Rightarrow> bool" where
  "isSlash c \<longleftrightarrow> c = CHR 0x5C \<or> c = CHR ''/''"

definition joinPath :: "string \<Rightarrow> string \<Rightarrow> string" where
  "joinPath dir leaf =
     (if dir = [] then leaf
      else if leaf = [] then dir
      else (if isSlash (last dir) then dir else dir @ [CHR 0x5C]) @ leaf)"

definition leafOf :: "string \<Rightarrow> string" where
  "leafOf path = rev (takeWhile (\<lambda>c. \<not> isSlash c) (rev path))"

definition stateDirPath :: "string \<Rightarrow> string" where
  "stateDirPath gameDir = joinPath gameDir ''edvr_install''"

definition statePath :: "string \<Rightarrow> string" where
  "statePath gameDir = joinPath (stateDirPath gameDir) ''state.ini''"

definition baseIniPath :: "string \<Rightarrow> string" where
  "baseIniPath gameDir = joinPath (stateDirPath gameDir) ''edvr.ini.base''"

definition backupRootPath :: "string \<Rightarrow> string" where
  "backupRootPath gameDir = joinPath gameDir ''edvr_backup''"

lemma leafOf_joinPath:
  assumes "list_all (\<lambda>c. \<not> isSlash c) leaf" "leaf \<noteq> []"
  shows "leafOf (joinPath dir leaf) = leaf"
proof -
  have t: "takeWhile (\<lambda>c. \<not> isSlash c) (rev leaf @ xs) = rev leaf @ takeWhile (\<lambda>c. \<not> isSlash c) xs" for xs
    using assms(1) by (intro takeWhile_append2) (simp add: list_all_iff)
  show ?thesis
  proof (cases "dir = []")
    case True
    have "takeWhile (\<lambda>c. \<not> isSlash c) (rev leaf) = rev leaf" using t [of "[]"] by (simp del: takeWhile_eq_all_conv)
    with True show ?thesis by (simp add: joinPath_def leafOf_def del: takeWhile_eq_all_conv)
  next
    case False
    then have "isSlash (last dir) \<Longrightarrow> takeWhile (\<lambda>c. \<not> isSlash c) (rev dir) = []"
      by (metis hd_rev list.collapse rev_is_Nil_conv takeWhile.simps(2))
    moreover have "isSlash CHR 0x5C" by (simp add: isSlash_def)
    ultimately show ?thesis using False assms(2) t by (simp add: joinPath_def leafOf_def)
  qed
qed

section \<open>The record\<close>

record InstallState =
  st_present :: bool
  st_edvrVersion :: string
  st_installedUtc :: string
  st_openvrDir :: string
  st_d3d11Installed :: bool
  st_d3d11Sha :: string
  st_chainTarget :: string
  st_chainMod :: string
  st_openvrInstalled :: bool
  st_openvrSha :: string
  st_openvrOrigName :: string
  st_openvrOrigSha :: string
  st_ngxInstalled :: bool
  st_ngxSha :: string
  st_iniSha :: string
  st_hasBaseIni :: bool
  st_nativeInstalled :: bool
  st_nativeGraphicsSha :: string
  st_nativeRuntimeSha :: string
  st_openxrLoaderSha :: string
  st_openxrLicenseSha :: string
  st_nativeConfigSha :: string
  st_nativeOriginalName :: string
  st_nativeOriginalSha :: string

definition noState :: InstallState where
  "noState = \<lparr>st_present = False, st_edvrVersion = [], st_installedUtc = [], st_openvrDir = [],
     st_d3d11Installed = False, st_d3d11Sha = [], st_chainTarget = [], st_chainMod = [],
     st_openvrInstalled = False, st_openvrSha = [], st_openvrOrigName = [], st_openvrOrigSha = [],
     st_ngxInstalled = False, st_ngxSha = [], st_iniSha = [], st_hasBaseIni = False,
     st_nativeInstalled = False, st_nativeGraphicsSha = [], st_nativeRuntimeSha = [], st_openxrLoaderSha = [],
     st_openxrLicenseSha = [], st_nativeConfigSha = [], st_nativeOriginalName = [], st_nativeOriginalSha = []\<rparr>"

definition recordValue :: "IniDoc \<Rightarrow> string \<Rightarrow> string \<Rightarrow> string" where
  "recordValue doc section key = (case findKey doc section key of Some l \<Rightarrow> il_value l | None \<Rightarrow> [])"

definition stateOfValues :: "(string \<Rightarrow> string \<Rightarrow> string) \<Rightarrow> InstallState" where
  "stateOfValues get =
     (let version = get ''edvr'' ''version'';
          d3d11Sha = get ''d3d11'' ''sha256'';
          openvrSha = get ''openvr'' ''sha256'';
          ngxSha = get ''ngx'' ''sha256'';
          graphicsSha = get ''native'' ''graphics_sha256'';
          runtimeSha = get ''native'' ''runtime_sha256'';
          nativeInstalled = (runtimeSha \<noteq> [] \<or> graphicsSha \<noteq> [])
      in \<lparr>st_present = (version \<noteq> [] \<or> d3d11Sha \<noteq> [] \<or> openvrSha \<noteq> [] \<or> nativeInstalled),
          st_edvrVersion = version, st_installedUtc = get ''edvr'' ''installed_utc'',
          st_openvrDir = get ''edvr'' ''openvr_dir'',
          st_d3d11Installed = (d3d11Sha \<noteq> []), st_d3d11Sha = d3d11Sha,
          st_chainTarget = get ''d3d11'' ''chain_target'', st_chainMod = get ''d3d11'' ''chain_mod'',
          st_openvrInstalled = (openvrSha \<noteq> []), st_openvrSha = openvrSha,
          st_openvrOrigName = get ''openvr'' ''orig_name'', st_openvrOrigSha = get ''openvr'' ''orig_sha256'',
          st_ngxInstalled = (ngxSha \<noteq> []), st_ngxSha = ngxSha,
          st_iniSha = get ''ini'' ''sha256'', st_hasBaseIni = False,
          st_nativeInstalled = nativeInstalled, st_nativeGraphicsSha = graphicsSha,
          st_nativeRuntimeSha = runtimeSha, st_openxrLoaderSha = get ''native'' ''loader_sha256'',
          st_openxrLicenseSha = get ''native'' ''license_sha256'', st_nativeConfigSha = get ''native'' ''config_sha256'',
          st_nativeOriginalName = get ''native'' ''original_name'',
          st_nativeOriginalSha = get ''native'' ''original_sha256''\<rparr>)"

definition parseState :: "string \<Rightarrow> InstallState" where
  "parseState s = (if s = [] then noState else stateOfValues (recordValue (iniParse s)))"

text \<open>The two arguments are what reading the record gives and whether the base ini exists.\<close>

definition readState :: "string \<Rightarrow> bool \<Rightarrow> InstallState" where
  "readState recordText baseExists = (parseState recordText)\<lparr>st_hasBaseIni := baseExists\<rparr>"

definition rowText :: "string \<Rightarrow> string \<Rightarrow> string" where
  "rowText key value = key @ '' = '' @ value @ crlf"

definition headText :: "string \<Rightarrow> string" where
  "headText section = crlf @ ''['' @ section @ '']'' @ crlf"

definition recordHeader :: string where
  "recordHeader =
     ''# EDVR install record. Written by the installer; read by it on the next run.'' @ crlf @
     ''# Deleting this file loses nothing the game needs -- it only makes the'' @ crlf @
     ''# installer fall back to guessing what a previous run did.'' @ crlf"

definition serializeState :: "InstallState \<Rightarrow> string" where
  "serializeState state =
     recordHeader @
     headText ''edvr'' @
     rowText ''version'' (st_edvrVersion state) @
     rowText ''installed_utc'' (st_installedUtc state) @
     rowText ''openvr_dir'' (st_openvrDir state) @
     headText ''d3d11'' @
     rowText ''sha256'' (if st_d3d11Installed state then st_d3d11Sha state else []) @
     rowText ''chain_target'' (st_chainTarget state) @
     rowText ''chain_mod'' (st_chainMod state) @
     headText ''openvr'' @
     rowText ''sha256'' (if st_openvrInstalled state then st_openvrSha state else []) @
     rowText ''orig_name'' (st_openvrOrigName state) @
     rowText ''orig_sha256'' (st_openvrOrigSha state) @
     headText ''ngx'' @
     rowText ''sha256'' (if st_ngxInstalled state then st_ngxSha state else []) @
     headText ''ini'' @
     rowText ''sha256'' (st_iniSha state) @
     headText ''native'' @
     rowText ''graphics_sha256'' (st_nativeGraphicsSha state) @
     rowText ''runtime_sha256'' (st_nativeRuntimeSha state) @
     rowText ''loader_sha256'' (st_openxrLoaderSha state) @
     rowText ''license_sha256'' (st_openxrLicenseSha state) @
     rowText ''config_sha256'' (st_nativeConfigSha state) @
     rowText ''original_name'' (st_nativeOriginalName state) @
     rowText ''original_sha256'' (st_nativeOriginalSha state)"

section \<open>What a written row reads as\<close>

text \<open>
  The values a row can carry: one line, no blanks around it, and no comment mark at the front or behind a
  blank.
\<close>

definition recordable :: "string \<Rightarrow> bool" where
  "recordable v \<longleftrightarrow> list_all (\<lambda>c. \<not> is_newline c) v \<and> trim v = v \<and> strip_after CHR '' '' v = v"

lemma row_full:
  assumes "list_all (\<lambda>c. \<not> is_newline c) key" "recordable v"
  shows "fullLine (key @ '' = '' @ v, crlf)"
  using assms by (simp add: fullLine_def recordable_def is_newline_def)

lemma classify_row:
  assumes "keyHead (key @ '' '')" "trim (key @ '' '') = key" "recordable v"
  shows "classify sec (key @ '' = '' @ v) = (Key, key, v, sec)"
proof -
  have "trim (stripInlineComment (rtrim ('' '' @ v))) = v"
  proof (cases "v = []")
    case False
    then have "rtrim ('' '' @ v) = '' '' @ v"
      using assms(3) last_trim [of v] by (intro rtrim_id) (auto simp: recordable_def)
    moreover have "trim ('' '' @ v) = v" using assms(3) by (simp add: recordable_def trim_def is_blank_def)
    ultimately show ?thesis using assms(3) by (simp add: recordable_def)
  qed (simp add: rtrim_def trim_def is_blank_def)
  then show ?thesis
    using classify_keyLine [of "[]" "key @ '' ''" sec "'' '' @ v"] assms(1,2) by simp
qed

text \<open>The body of a record, as section heads and rows, and what a lookup finds in it.\<close>

datatype RecordItem = RHead string | RRow string string

fun itemText :: "RecordItem \<Rightarrow> string" where
  "itemText (RHead s) = headText s"
| "itemText (RRow k v) = rowText k v"

definition rowKeyOk :: "string \<Rightarrow> bool" where
  "rowKeyOk k \<longleftrightarrow> keyHead (k @ '' '') \<and> trim (k @ '' '') = k \<and> list_all (\<lambda>c. \<not> is_newline c) k"

definition headOk :: "string \<Rightarrow> bool" where
  "headOk s \<longleftrightarrow> list_all (\<lambda>c. \<not> is_newline c \<and> c \<noteq> CHR '']'') s"

fun itemOk :: "RecordItem \<Rightarrow> bool" where
  "itemOk (RHead s) \<longleftrightarrow> headOk s"
| "itemOk (RRow k v) \<longleftrightarrow> rowKeyOk k \<and> recordable v"

fun itemsGet :: "string \<Rightarrow> string \<Rightarrow> string \<Rightarrow> RecordItem list \<Rightarrow> string option \<Rightarrow> string option" where
  "itemsGet section key sec [] found = found"
| "itemsGet section key sec (RHead s # items) found = itemsGet section key s items found"
| "itemsGet section key sec (RRow k v # items) found =
     itemsGet section key sec items (if sameKey sec section \<and> sameKey k key then Some v else found)"

lemma classify_head:
  assumes "headOk s"
  shows "classify sec (''['' @ s @ '']'') = (Section, [], [], s)"
proof -
  have "trim (''['' @ s @ '']'') = ''['' @ s @ '']''" by (rule trim_id) (simp add: is_blank_def)
  moreover have "takeWhile (\<lambda>c. c \<noteq> CHR '']'') (s @ '']'') = s"
    using assms by (subst takeWhile_append2) (auto simp: list_all_iff headOk_def)
  ultimately show ?thesis by (simp add: classify_def)
qed

lemma items_lookup:
  assumes "list_all itemOk items"
  shows "map_option il_value
      (fold (\<lambda>l found. if il_kind l \<noteq> Key then found else if keyMatches section key l then Some l else found)
         (parseLines sec (rawLines (concat (map itemText items)))) found) =
    itemsGet section key sec items (map_option il_value found)"
  using assms
proof (induction items arbitrary: sec found)
  case (Cons item items)
  show ?case
  proof (cases item)
    case (RHead s)
    have b: "fullLine ([], crlf)" by (simp add: fullLine_def)
    have h: "fullLine (''['' @ s @ '']'', crlf)"
      using Cons.prems RHead by (auto simp: fullLine_def is_newline_def list_all_iff headOk_def)
    have "rawLines (itemText item @ xs) = ([], crlf) # (''['' @ s @ '']'', crlf) # rawLines xs" for xs
      using rawLines_full_Cons [OF b, of "(''['' @ s @ '']'') @ crlf @ xs"] rawLines_full_Cons [OF h, of xs]
      by (simp add: RHead headText_def)
    moreover have "classify sec [] = (Blank, [], [], sec)" by (simp add: classify_def trim_def rtrim_def)
    ultimately show ?thesis
      using Cons.IH [of s found] Cons.prems RHead classify_head [of s sec] by simp
  next
    case (RRow k v)
    have r: "fullLine (k @ '' = '' @ v, crlf)" using Cons.prems RRow by (intro row_full) (simp_all add: rowKeyOk_def)
    have "rawLines (itemText item @ xs) = (k @ '' = '' @ v, crlf) # rawLines xs" for xs
      using rawLines_full_Cons [OF r, of xs] by (simp add: RRow rowText_def)
    moreover have "classify sec (k @ '' = '' @ v) = (Key, k, v, sec)"
      using Cons.prems RRow by (intro classify_row) (simp_all add: rowKeyOk_def)
    ultimately show ?thesis
      using Cons.IH [of sec] Cons.prems RRow by (simp add: keyMatches_def)
  qed
qed simp

definition stateItems :: "InstallState \<Rightarrow> RecordItem list" where
  "stateItems s =
     [RHead ''edvr'', RRow ''version'' (st_edvrVersion s), RRow ''installed_utc'' (st_installedUtc s),
      RRow ''openvr_dir'' (st_openvrDir s),
      RHead ''d3d11'', RRow ''sha256'' (if st_d3d11Installed s then st_d3d11Sha s else []),
      RRow ''chain_target'' (st_chainTarget s), RRow ''chain_mod'' (st_chainMod s),
      RHead ''openvr'', RRow ''sha256'' (if st_openvrInstalled s then st_openvrSha s else []),
      RRow ''orig_name'' (st_openvrOrigName s), RRow ''orig_sha256'' (st_openvrOrigSha s),
      RHead ''ngx'', RRow ''sha256'' (if st_ngxInstalled s then st_ngxSha s else []),
      RHead ''ini'', RRow ''sha256'' (st_iniSha s),
      RHead ''native'', RRow ''graphics_sha256'' (st_nativeGraphicsSha s), RRow ''runtime_sha256'' (st_nativeRuntimeSha s),
      RRow ''loader_sha256'' (st_openxrLoaderSha s), RRow ''license_sha256'' (st_openxrLicenseSha s),
      RRow ''config_sha256'' (st_nativeConfigSha s), RRow ''original_name'' (st_nativeOriginalName s),
      RRow ''original_sha256'' (st_nativeOriginalSha s)]"

lemma serializeState_items: "serializeState s = recordHeader @ concat (map itemText (stateItems s))"
  by (simp add: serializeState_def stateItems_def)

section \<open>The round trip\<close>

definition cleanState :: "InstallState \<Rightarrow> bool" where
  "cleanState s \<longleftrightarrow> list_all recordable
     [st_edvrVersion s, st_installedUtc s, st_openvrDir s, st_d3d11Sha s, st_chainTarget s, st_chainMod s, st_openvrSha s,
      st_openvrOrigName s, st_openvrOrigSha s, st_ngxSha s, st_iniSha s, st_nativeGraphicsSha s, st_nativeRuntimeSha s,
      st_openxrLoaderSha s, st_openxrLicenseSha s, st_nativeConfigSha s, st_nativeOriginalName s, st_nativeOriginalSha s]"

text \<open>The flags a record does not hold follow from its hashes and version.\<close>

definition impliedFlags :: "InstallState \<Rightarrow> bool" where
  "impliedFlags s \<longleftrightarrow> st_d3d11Installed s = (st_d3d11Sha s \<noteq> []) \<and> st_openvrInstalled s = (st_openvrSha s \<noteq> []) \<and>
     st_ngxInstalled s = (st_ngxSha s \<noteq> []) \<and> \<not> st_hasBaseIni s \<and>
     st_nativeInstalled s = (st_nativeRuntimeSha s \<noteq> [] \<or> st_nativeGraphicsSha s \<noteq> []) \<and>
     st_present s = (st_edvrVersion s \<noteq> [] \<or> st_d3d11Installed s \<or> st_openvrInstalled s \<or> st_nativeInstalled s)"

definition headerLines :: "(string \<times> string) list" where
  "headerLines = map (\<lambda>t. (t, crlf))
     [''# EDVR install record. Written by the installer; read by it on the next run.'',
      ''# Deleting this file loses nothing the game needs -- it only makes the'',
      ''# installer fall back to guessing what a previous run did.'']"

lemma header_parsed:
  "parseLines [] (rawLines (recordHeader @ s)) =
     map (\<lambda>l. plainLine Comment (fst l) (snd l)) headerLines @ parseLines [] (rawLines s)"
proof -
  have "list_all fullLine headerLines" by code_simp
  moreover have "recordHeader = concat (map (\<lambda>(t, e). t @ e) headerLines)"
    by (simp add: recordHeader_def headerLines_def)
  ultimately have "rawLines (recordHeader @ s) = headerLines @ rawLines s" using rawLines_full by metis
  moreover have "list_all (\<lambda>l. classify [] (fst l) = (Comment, [], [], [])) headerLines" by code_simp
  ultimately show ?thesis by (simp add: headerLines_def plainLine_def)
qed

lemma recordable_Nil: "recordable []"
  by (simp add: recordable_def trim_def rtrim_def)

lemma stateItems_ok: "cleanState s \<Longrightarrow> list_all itemOk (stateItems s)"
proof -
  have keys: "list_all rowKeyOk
    [''version'', ''installed_utc'', ''openvr_dir'', ''sha256'', ''chain_target'', ''chain_mod'', ''orig_name'', ''orig_sha256'',
     ''graphics_sha256'', ''runtime_sha256'', ''loader_sha256'', ''license_sha256'', ''config_sha256'', ''original_name'',
     ''original_sha256'']"
    by code_simp
  have heads: "list_all headOk [''edvr'', ''d3d11'', ''openvr'', ''ngx'', ''ini'', ''native'']" by code_simp
  assume "cleanState s"
  with keys heads show ?thesis
    by (simp add: stateItems_def cleanState_def recordable_Nil)
qed

lemma recordValue_items:
  assumes "cleanState s"
  shows "recordValue (iniParse (serializeState s)) section key =
    (case itemsGet section key [] (stateItems s) None of Some v \<Rightarrow> v | None \<Rightarrow> [])"
proof -
  have bom: "skipBom (serializeState s) = serializeState s"
    by (simp add: serializeState_def recordHeader_def skipBom_def hasBom_def)
  have "iniParse (serializeState s) = map (\<lambda>l. plainLine Comment (fst l) (snd l)) headerLines @
      parseLines [] (rawLines (concat (map itemText (stateItems s))))"
    unfolding iniParse_def bom by (simp only: serializeState_items header_parsed)
  then have "map_option il_value (findKey (iniParse (serializeState s)) section key) = itemsGet section key [] (stateItems s) None"
    using items_lookup [OF stateItems_ok [OF assms], of "section" key "[]" None]
    by (simp add: findKey_def headerLines_def plainLine_def)
  then show ?thesis by (auto simp: recordValue_def split: option.splits)
qed

lemma stateItems_get:
  "itemsGet ''edvr'' ''version'' [] (stateItems s) None = Some (st_edvrVersion s)"
  "itemsGet ''edvr'' ''installed_utc'' [] (stateItems s) None = Some (st_installedUtc s)"
  "itemsGet ''edvr'' ''openvr_dir'' [] (stateItems s) None = Some (st_openvrDir s)"
  "itemsGet ''d3d11'' ''sha256'' [] (stateItems s) None = Some ((if st_d3d11Installed s then st_d3d11Sha s else []))"
  "itemsGet ''d3d11'' ''chain_target'' [] (stateItems s) None = Some (st_chainTarget s)"
  "itemsGet ''d3d11'' ''chain_mod'' [] (stateItems s) None = Some (st_chainMod s)"
  "itemsGet ''openvr'' ''sha256'' [] (stateItems s) None = Some ((if st_openvrInstalled s then st_openvrSha s else []))"
  "itemsGet ''openvr'' ''orig_name'' [] (stateItems s) None = Some (st_openvrOrigName s)"
  "itemsGet ''openvr'' ''orig_sha256'' [] (stateItems s) None = Some (st_openvrOrigSha s)"
  "itemsGet ''ngx'' ''sha256'' [] (stateItems s) None = Some ((if st_ngxInstalled s then st_ngxSha s else []))"
  "itemsGet ''ini'' ''sha256'' [] (stateItems s) None = Some (st_iniSha s)"
  "itemsGet ''native'' ''graphics_sha256'' [] (stateItems s) None = Some (st_nativeGraphicsSha s)"
  "itemsGet ''native'' ''runtime_sha256'' [] (stateItems s) None = Some (st_nativeRuntimeSha s)"
  "itemsGet ''native'' ''loader_sha256'' [] (stateItems s) None = Some (st_openxrLoaderSha s)"
  "itemsGet ''native'' ''license_sha256'' [] (stateItems s) None = Some (st_openxrLicenseSha s)"
  "itemsGet ''native'' ''config_sha256'' [] (stateItems s) None = Some (st_nativeConfigSha s)"
  "itemsGet ''native'' ''original_name'' [] (stateItems s) None = Some (st_nativeOriginalName s)"
  "itemsGet ''native'' ''original_sha256'' [] (stateItems s) None = Some (st_nativeOriginalSha s)"
  by (simp_all add: stateItems_def sameKey_def lower_def to_lower_def)

text \<open>
  C11: the record the installer writes reads back as the state it was written from, for every state whose
  values fit on a row and whose flags are the ones its hashes imply.
\<close>

theorem state_round_trip:
  assumes "cleanState s" "impliedFlags s"
  shows "parseState (serializeState s) = s"
proof -
  have "serializeState s \<noteq> []" by (simp add: serializeState_def recordHeader_def)
  then have "parseState (serializeState s) =
      stateOfValues (\<lambda>section key. case itemsGet section key [] (stateItems s) None of Some v \<Rightarrow> v | None \<Rightarrow> [])"
    by (simp add: parseState_def recordValue_items [OF assms(1), abs_def])
  also have "\<dots> = s"
  proof -
    have sha: "(if st_d3d11Installed s then st_d3d11Sha s else []) = st_d3d11Sha s"
      "(if st_openvrInstalled s then st_openvrSha s else []) = st_openvrSha s"
      "(if st_ngxInstalled s then st_ngxSha s else []) = st_ngxSha s"
      using assms(2) by (auto simp: impliedFlags_def)
    have flags: "(st_d3d11Sha s \<noteq> []) = st_d3d11Installed s" "(st_openvrSha s \<noteq> []) = st_openvrInstalled s"
      "(st_ngxSha s \<noteq> []) = st_ngxInstalled s" "(st_nativeRuntimeSha s \<noteq> [] \<or> st_nativeGraphicsSha s \<noteq> []) = st_nativeInstalled s"
      "(st_edvrVersion s \<noteq> [] \<or> st_d3d11Installed s \<or> st_openvrInstalled s \<or> st_nativeInstalled s) = st_present s"
      using assms(2) unfolding impliedFlags_def by blast+
    have "st_hasBaseIni s = False" using assms(2) by (simp add: impliedFlags_def)
    then show ?thesis
      unfolding stateOfValues_def stateItems_get option.case sha Let_def flags
      by (intro InstallState.equality) simp_all
  qed
  finally show ?thesis .
qed

definition sampleState :: InstallState where
  "sampleState = noState\<lparr>st_present := True, st_edvrVersion := ''1.4'', st_openvrDir := ''Openvr'' @ [CHR 0x5C] @ ''win64'',
     st_d3d11Installed := True, st_d3d11Sha := ''aa'', st_chainTarget := ''d3d11_edhm.dll'', st_chainMod := ''Special K''\<rparr>"

theorem state_round_trip_witness:
  "cleanState sampleState \<and> impliedFlags sampleState \<and> parseState (serializeState sampleState) = sampleState"
proof -
  have "cleanState sampleState" "impliedFlags sampleState" by code_simp+
  then show ?thesis using state_round_trip [of sampleState] by simp
qed

end
