(* ===== verification/InstallPlan.thy ===== *)
theory InstallPlan
  imports InstallRecord
begin

text \<open>
  \<^verbatim>\<open>src/installer/plan.cpp\<close>: what the installer will do, worked out from a survey of the game folder, the record of
  the last run and what this installer carries. \<^verbatim>\<open>sha256Bytes\<close> is a parameter. The sentences shown to the user
  are constructors named after what they say, with the values put into them; the per-step \<^verbatim>\<open>why\<close> texts are
  left out. Fields the planner never reads are left out of the records.
\<close>

section \<open>Data\<close>

datatype DllKind = Absent | Unreadable | Edvr | OpenVrRuntime | D3d11Provider | Foreign

record DllInfo =
  di_kind :: DllKind
  di_path :: string
  di_is64 :: bool
  di_nativeRuntimeExports :: bool
  di_product :: string
  di_description :: string
  di_company :: string
  di_sha256 :: string

record PayloadInfo =
  pi_version :: string
  pi_haveD3d11 :: bool
  pi_d3d11Sha :: string
  pi_haveOpenvr :: bool
  pi_openvrSha :: string
  pi_haveNgx :: bool
  pi_ngxSha :: string
  pi_nativePairValid :: bool
  pi_haveOpenxrLoader :: bool
  pi_openxrLoaderSha :: string
  pi_haveOpenxrLicense :: bool
  pi_openxrLicenseSha :: string
  pi_iniText :: string

record Survey =
  sv_gameDir :: string
  sv_openvrDir :: string
  sv_gameRunningHere :: bool
  sv_gameRunningElsewhere :: bool
  sv_d3d11 :: DllInfo
  sv_openxrLoader :: DllInfo
  sv_nativeConfig :: DllInfo
  sv_openxrLicense :: DllInfo
  sv_otherD3d11 :: "DllInfo list"
  sv_iniPresent :: bool
  sv_iniText :: string
  sv_baseIniText :: string
  sv_ngx :: DllInfo
  sv_nvidiaAdapter :: bool
  sv_haveOpenvrDir :: bool
  sv_openvrCurrent :: DllInfo
  sv_openvrOrig :: DllInfo
  sv_openvrOrigName :: string
  sv_openvrOrigInBackups :: "string list"
  sv_state :: InstallState
  sv_eliteProfileValid :: bool

record Options =
  op_keepSettings :: bool
  op_repair :: bool
  op_removeSettings :: bool
  op_backupStamp :: string
  op_nowUtc :: string

datatype Action = MakeDir | Backup | Rename | WritePayload | WriteText | Delete

record Step =
  sp_action :: Action
  sp_from :: string
  sp_to :: string
  sp_item :: string
  sp_text :: string
  sp_expectSha :: string
  sp_required :: bool

definition noStep :: Step where
  "noStep = \<lparr>sp_action = MakeDir, sp_from = [], sp_to = [], sp_item = [], sp_text = [], sp_expectSha = [],
     sp_required = False\<rparr>"

datatype Note =
    RunningElsewhere | D3d11AlreadyThisBuild | D3d11Replaced bool | D3d11Restored | D3d11New
  | ModHasReplaced string string | ModIsInstalled string string | ChainKept string | ChainGone string
  | NgxAlready | NgxDifferent | NgxNoAdapter | NgxPlaced bool | NgxCarriesNone
  | RuntimeAlready | OriginalUpdated | RuntimeInstalled
  | IniDefaults | IniReplaced | IniUpdated nat nat bool | IniRetired | IniLeftAlone | InstallNothingToDo
  | ModRestored string | D3d11Removed | D3d11NoneHere | D3d11NotOurs | RuntimeRenamedBack | RuntimeFromBackup
  | RuntimeAlreadyBack | RuntimeNoneHere | KeepingChanged string | NgxRemoved | NgxNotOurs | IniRemoved | IniLeft
  | NotInstalledHere | LogsLeft

datatype Problem =
    NoGameFolder | GameRunning | PackageInvalid | ExecutableUnsupported | DestinationUnreadable
  | D3d11Unreadable | ParkedOtherMod string | ChainMoved string string string | D3d11Is32Bit | NgxUnreadable
  | NoIniCarried | OriginalMissing | ChainTargetMissing string | RuntimeLeftInPlace

record Plan =
  pl_steps :: "Step list"
  pl_notes :: "Note list"
  pl_problems :: "Problem list"
  pl_blocked :: bool
  pl_nothingToDo :: bool
  pl_merge :: MergeReport
  pl_nextState :: InstallState
  pl_backupDir :: string

definition newPlan :: Plan where
  "newPlan = \<lparr>pl_steps = [], pl_notes = [], pl_problems = [], pl_blocked = False, pl_nothingToDo = False,
     pl_merge = emptyReport, pl_nextState = noState, pl_backupDir = []\<rparr>"

abbreviation kD3d11 :: string where "kD3d11 \<equiv> ''d3d11.dll''"
abbreviation kIni :: string where "kIni \<equiv> ''edvr.ini''"
abbreviation kOpenvr :: string where "kOpenvr \<equiv> ''openvr_api.dll''"
abbreviation kOpenvrOrig :: string where "kOpenvrOrig \<equiv> ''openvr_api_orig.dll''"
abbreviation kNgx :: string where "kNgx \<equiv> ''nvngx_dlss.dll''"

section \<open>Names\<close>

text \<open>\<^verbatim>\<open>_wcsicmp\<close> of the C locale.\<close>

definition sameName :: "string \<Rightarrow> string \<Rightarrow> bool" where
  "sameName a b \<longleftrightarrow> lower a = lower b"

definition containsNoCase :: "string \<Rightarrow> string \<Rightarrow> bool" where
  "containsNoCase hay needle \<longleftrightarrow> hay \<noteq> [] \<and> findSub (lower needle) (lower hay) \<noteq> None"

definition modOfField :: "string \<Rightarrow> string option" where
  "modOfField s =
     (if containsNoCase s ''reshade'' then Some ''ReShade''
      else if containsNoCase s ''3dmigoto'' then Some ''EDHM''
      else if containsNoCase s ''edhm'' then Some ''EDHM''
      else if containsNoCase s ''dxvk'' then Some ''DXVK''
      else if containsNoCase s ''opencomposite'' then Some ''OpenComposite''
      else if containsNoCase s ''special k'' then Some ''Special K''
      else None)"

definition modNameOf :: "DllInfo \<Rightarrow> string" where
  "modNameOf info =
     (case modOfField (di_product info) of
        Some m \<Rightarrow> m
      | None \<Rightarrow> (case modOfField (di_description info) of
          Some m \<Rightarrow> m
        | None \<Rightarrow> (case modOfField (di_company info) of Some m \<Rightarrow> m | None \<Rightarrow> [])))"

definition chainNameFor :: "DllInfo \<Rightarrow> string" where
  "chainNameFor info =
     (let m = modNameOf info in
      if m = ''ReShade'' then ''d3d11_reshade.dll''
      else if m = ''EDHM'' then ''d3d11_edhm.dll''
      else if m = ''DXVK'' then ''d3d11_dxvk.dll''
      else if m = ''Special K'' then ''d3d11_specialk.dll''
      else ''d3d11_other.dll'')"

definition siblingNamed :: "DllInfo list \<Rightarrow> string \<Rightarrow> DllInfo option" where
  "siblingNamed siblings leaf = find (\<lambda>d. sameName (leafOf (di_path d)) leaf) siblings"

definition badNameChar :: "char \<Rightarrow> bool" where
  "badNameChar c \<longleftrightarrow> isSlash c \<or> c = CHR '':'' \<or> c = CHR ''*'' \<or> c = CHR ''?'' \<or> c = CHR 0x22 \<or> c = CHR ''<'' \<or>
     c = CHR ''>'' \<or> c = CHR ''|''"

definition safeSiblingName :: "string \<Rightarrow> string \<Rightarrow> string" where
  "safeSiblingName value mustNotEqual =
     (if value = [] then []
      else if list_ex badNameChar value then []
      else if value = ''.'' \<or> value = ''..'' \<or> findSub ''..'' value \<noteq> None then []
      else if sameName value mustNotEqual then []
      else if length value < 5 \<or> \<not> sameName (drop (length value - 4) value) ''.dll'' then []
      else value)"

definition relativeOpenvr :: "string \<Rightarrow> string \<Rightarrow> string" where
  "relativeOpenvr gameDir openvrDir =
     (if openvrDir = [] then []
      else if length openvrDir > length gameDir \<and> sameName (take (length gameDir) openvrDir) gameDir
      then dropWhile isSlash (drop (length gameDir) openvrDir)
      else openvrDir)"

definition backupDirFor :: "Survey \<Rightarrow> Options \<Rightarrow> string" where
  "backupDirFor s o' =
     joinPath (backupRootPath (sv_gameDir s)) (if op_backupStamp o' = [] then ''backup'' else op_backupStamp o')"

section \<open>The survey\<close>

text \<open>
  What the survey asks of the machine: \<^verbatim>\<open>probeDll\<close>, \<^verbatim>\<open>fileExists\<close>, \<^verbatim>\<open>dirExists\<close>, \<^verbatim>\<open>readTextFile\<close>, \<^verbatim>\<open>sha256File\<close>, the
  directory listings, and the checks of the executable, the running processes and the adapters.
\<close>

datatype GameRunState = NotRunning | OtherFolder | ThisFolder

record Folder =
  fo_probe :: "string \<Rightarrow> DllInfo"
  fo_exists :: "string \<Rightarrow> bool"
  fo_dirExists :: "string \<Rightarrow> bool"
  fo_text :: "string \<Rightarrow> string"
  fo_sha :: "string \<Rightarrow> string"
  fo_filesLike :: "string \<Rightarrow> string \<Rightarrow> string list"
  fo_subdirs :: "string \<Rightarrow> string list"
  fo_runState :: "string \<Rightarrow> GameRunState"
  fo_nvidia :: bool
  fo_qualified :: "string \<Rightarrow> bool"

definition noDll :: DllInfo where
  "noDll = \<lparr>di_kind = Absent, di_path = [], di_is64 = False, di_nativeRuntimeExports = False, di_product = [],
     di_description = [], di_company = [], di_sha256 = []\<rparr>"

definition findOpenvrDir :: "Folder \<Rightarrow> string \<Rightarrow> string" where
  "findOpenvrDir f gameDir =
     (case find (\<lambda>c. fo_dirExists f c \<and> (fo_exists f (joinPath c kOpenvr) \<or> fo_exists f (joinPath c kOpenvrOrig)))
             [joinPath gameDir (''Openvr'' @ [CHR 0x5C] @ ''win64''), joinPath gameDir ''Openvr'', gameDir] of
        Some c \<Rightarrow> c
      | None \<Rightarrow> [])"

definition surveyText :: "Folder \<Rightarrow> string \<Rightarrow> DllInfo" where
  "surveyText f path =
     (if fo_exists f path
      then noDll\<lparr>di_path := path, di_sha256 := fo_sha f path, di_kind := (if fo_sha f path = [] then Unreadable else Foreign)\<rparr>
      else noDll\<lparr>di_path := path\<rparr>)"

definition backupRuntimes :: "Folder \<Rightarrow> string \<Rightarrow> string list" where
  "backupRuntimes f gameDir =
     (let backups = backupRootPath gameDir in
      if \<not> fo_dirExists f backups then []
      else filter (\<lambda>c. fo_exists f c \<and> di_kind (fo_probe f c) = OpenVrRuntime)
             (map (\<lambda>stamp. joinPath (joinPath backups stamp) kOpenvr) (rev (sort (fo_subdirs f backups)))))"

definition surveyTarget :: "Folder \<Rightarrow> string \<Rightarrow> string \<Rightarrow> Survey" where
  "surveyTarget f gameDir openvrDir =
     (let found = (if openvrDir = [] then findOpenvrDir f gameDir else openvrDir);
          odir = (if found = [] then joinPath gameDir (''Openvr'' @ [CHR 0x5C] @ ''win64'') else found);
          iniPath = joinPath gameDir kIni;
          have = (odir \<noteq> [])
      in \<lparr>sv_gameDir = gameDir, sv_openvrDir = odir,
          sv_gameRunningHere = (fo_runState f gameDir = ThisFolder),
          sv_gameRunningElsewhere = (fo_runState f gameDir = OtherFolder),
          sv_d3d11 = fo_probe f (joinPath gameDir kD3d11),
          sv_openxrLoader = (if have then fo_probe f (joinPath odir ''openxr_loader.dll'') else noDll),
          sv_nativeConfig = (if have then surveyText f (joinPath odir ''edvr_openxr.ini'') else noDll),
          sv_openxrLicense = (if have then surveyText f (joinPath odir ''OPENXR-LOADER-LICENSE.txt'') else noDll),
          sv_otherD3d11 = map (\<lambda>name. fo_probe f (joinPath gameDir name)) (fo_filesLike f gameDir ''d3d11_*.dll''),
          sv_iniPresent = fo_exists f iniPath,
          sv_iniText = (if fo_exists f iniPath then fo_text f iniPath else []),
          sv_baseIniText = fo_text f (baseIniPath gameDir),
          sv_ngx = fo_probe f (joinPath gameDir kNgx),
          sv_nvidiaAdapter = fo_nvidia f,
          sv_haveOpenvrDir = (have \<and> fo_dirExists f odir),
          sv_openvrCurrent = (if have then fo_probe f (joinPath odir kOpenvr) else noDll),
          sv_openvrOrig = (if have then fo_probe f (joinPath odir kOpenvrOrig) else noDll),
          sv_openvrOrigName = (if have then kOpenvrOrig else []),
          sv_openvrOrigInBackups = backupRuntimes f gameDir,
          sv_state = readState (fo_text f (statePath gameDir)) (fo_exists f (baseIniPath gameDir)),
          sv_eliteProfileValid = fo_qualified f (joinPath gameDir ''EliteDangerous64.exe'')\<rparr>)"

section \<open>A plan being built\<close>

record PlanBuild =
  pb_body :: "Step list"
  pb_forced :: "(string \<times> string) list"
  pb_wantBackupDir :: bool
  pb_changed :: bool
  pb_next :: InstallState
  pb_notes :: "Note list"
  pb_problems :: "Problem list"
  pb_merge :: MergeReport

definition startBuild :: "InstallState \<Rightarrow> bool \<Rightarrow> PlanBuild" where
  "startBuild next elsewhere = \<lparr>pb_body = [], pb_forced = [], pb_wantBackupDir = False, pb_changed = False, pb_next = next,
     pb_notes = (if elsewhere then [RunningElsewhere] else []), pb_problems = [], pb_merge = emptyReport\<rparr>"

definition addNote :: "Note \<Rightarrow> PlanBuild \<Rightarrow> PlanBuild" where
  "addNote n b = b\<lparr>pb_notes := pb_notes b @ [n]\<rparr>"

definition addProblem :: "Problem \<Rightarrow> PlanBuild \<Rightarrow> PlanBuild" where
  "addProblem p b = b\<lparr>pb_problems := pb_problems b @ [p]\<rparr>"

definition addBackup :: "string \<Rightarrow> string \<Rightarrow> PlanBuild \<Rightarrow> PlanBuild" where
  "addBackup backupDir path b =
     b\<lparr>pb_body := pb_body b @ [noStep\<lparr>sp_action := Backup, sp_from := path, sp_to := joinPath backupDir (leafOf path)\<rparr>],
       pb_wantBackupDir := True\<rparr>"

text \<open>\<^verbatim>\<open>backup\<close> followed by \<^verbatim>\<open>body.back().required=true; body.back().expectSha=...\<close>\<close>

definition addGuardedBackup :: "string \<Rightarrow> string \<Rightarrow> string \<Rightarrow> PlanBuild \<Rightarrow> PlanBuild" where
  "addGuardedBackup backupDir path sha b =
     b\<lparr>pb_body := pb_body b @ [noStep\<lparr>sp_action := Backup, sp_from := path, sp_to := joinPath backupDir (leafOf path),
                                      sp_expectSha := sha, sp_required := True\<rparr>],
       pb_wantBackupDir := True\<rparr>"

definition addRename :: "string \<Rightarrow> string \<Rightarrow> string \<Rightarrow> PlanBuild \<Rightarrow> PlanBuild" where
  "addRename from to' sha b =
     b\<lparr>pb_body := pb_body b @ [noStep\<lparr>sp_action := Rename, sp_from := from, sp_to := to', sp_expectSha := sha,
                                      sp_required := True\<rparr>],
       pb_changed := True\<rparr>"

definition addWritePayload :: "string \<Rightarrow> string \<Rightarrow> PlanBuild \<Rightarrow> PlanBuild" where
  "addWritePayload item to' b =
     b\<lparr>pb_body := pb_body b @ [noStep\<lparr>sp_action := WritePayload, sp_item := item, sp_to := to'\<rparr>], pb_changed := True\<rparr>"

definition addWriteText :: "string \<Rightarrow> string \<Rightarrow> PlanBuild \<Rightarrow> PlanBuild" where
  "addWriteText txt to' b =
     b\<lparr>pb_body := pb_body b @ [noStep\<lparr>sp_action := WriteText, sp_text := txt, sp_to := to'\<rparr>]\<rparr>"

definition addRemove :: "string \<Rightarrow> string \<Rightarrow> PlanBuild \<Rightarrow> PlanBuild" where
  "addRemove path sha b =
     b\<lparr>pb_body := pb_body b @ [noStep\<lparr>sp_action := Delete, sp_from := path, sp_expectSha := sha\<rparr>], pb_changed := True\<rparr>"

definition addRestore :: "string \<Rightarrow> string \<Rightarrow> PlanBuild \<Rightarrow> PlanBuild" where
  "addRestore from to' b =
     b\<lparr>pb_body := pb_body b @ [noStep\<lparr>sp_action := Backup, sp_from := from, sp_to := to', sp_required := True\<rparr>],
       pb_changed := True\<rparr>"

section \<open>Installing\<close>

definition installBlocked :: "Survey \<Rightarrow> PayloadInfo \<Rightarrow> Problem option" where
  "installBlocked s p =
     (if sv_gameDir s = [] then Some NoGameFolder
      else if sv_gameRunningHere s then Some GameRunning
      else if \<not> pi_haveD3d11 p \<or> \<not> pi_haveOpenvr p \<or> \<not> pi_haveOpenxrLoader p \<or> \<not> pi_haveOpenxrLicense p \<or>
              \<not> pi_nativePairValid p \<or> pi_iniText p = [] then Some PackageInvalid
      else if \<not> sv_eliteProfileValid s then Some ExecutableUnsupported
      else if list_ex (\<lambda>d. di_kind d = Unreadable)
                [sv_d3d11 s, sv_openvrCurrent s, sv_openxrLoader s, sv_nativeConfig s, sv_openxrLicense s]
      then Some DestinationUnreadable
      else None)"

definition nativeDirOf :: "Survey \<Rightarrow> string" where
  "nativeDirOf s =
     (if sv_openvrDir s = [] then joinPath (sv_gameDir s) (''Openvr'' @ [CHR 0x5C] @ ''win64'') else sv_openvrDir s)"

definition nextStart :: "Survey \<Rightarrow> Options \<Rightarrow> PayloadInfo \<Rightarrow> InstallState" where
  "nextStart s o' p = (sv_state s)\<lparr>st_present := True, st_edvrVersion := pi_version p, st_installedUtc := op_nowUtc o',
     st_openvrDir := relativeOpenvr (sv_gameDir s) (nativeDirOf s), st_nativeInstalled := True,
     st_chainTarget := [], st_chainMod := []\<rparr>"

definition noteD3d11 :: "PayloadInfo \<Rightarrow> PlanBuild \<Rightarrow> PlanBuild" where
  "noteD3d11 p b = b\<lparr>pb_next := (pb_next b)\<lparr>st_d3d11Installed := True, st_d3d11Sha := pi_d3d11Sha p\<rparr>\<rparr>"

text \<open>Somebody else's \<^verbatim>\<open>d3d11.dll\<close> is in the slot: it is renamed, ours takes the name, and the ini points at it.\<close>

definition parkExisting :: "string \<Rightarrow> Survey \<Rightarrow> PlanBuild \<Rightarrow> PlanBuild" where
  "parkExisting bdir s b =
     (let cur = sv_d3d11 s; chainLeaf = chainNameFor cur; modName = modNameOf cur in
      case siblingNamed (sv_otherD3d11 s) chainLeaf of
        None \<Rightarrow> b
      | Some existing \<Rightarrow>
          (if di_kind existing = Absent then b
           else
             (let sameMod = (modName \<noteq> [] \<and> modNameOf existing = modName);
                  b1 = addBackup bdir (joinPath (sv_gameDir s) chainLeaf) b
              in if \<not> sameMod then addProblem (ParkedOtherMod chainLeaf) b1 else b1)))"

definition modSay :: "DllInfo \<Rightarrow> string" where
  "modSay d = (if modNameOf d = [] then ''That mod'' else modNameOf d)"

definition noteChainMoved :: "Survey \<Rightarrow> PlanBuild \<Rightarrow> PlanBuild" where
  "noteChainMoved s b =
     (let old = st_chainTarget (sv_state s); chainLeaf = chainNameFor (sv_d3d11 s) in
      if old \<noteq> [] \<and> \<not> sameName old chainLeaf then
        (case siblingNamed (sv_otherD3d11 s) old of
           None \<Rightarrow> b
         | Some previous \<Rightarrow>
             (if di_kind previous = Absent then b
              else addProblem (ChainMoved old (st_chainMod (sv_state s)) (modSay (sv_d3d11 s))) b))
      else b)"

definition takeSlot :: "string \<Rightarrow> Survey \<Rightarrow> PayloadInfo \<Rightarrow> PlanBuild \<Rightarrow> PlanBuild" where
  "takeSlot bdir s p b =
     (let dst = joinPath (sv_gameDir s) kD3d11;
          cur = sv_d3d11 s;
          chainLeaf = chainNameFor cur;
          b1 = addWritePayload ''d3d11'' dst
                 (addRename dst (joinPath (sv_gameDir s) chainLeaf) (di_sha256 cur)
                   (addBackup bdir dst (parkExisting bdir s b)));
          b2 = b1\<lparr>pb_forced := pb_forced b1 @ [(''advanced.real_dll'', chainLeaf)],
                  pb_next := (pb_next b1)\<lparr>st_chainTarget := chainLeaf, st_chainMod := modNameOf cur\<rparr>\<rparr>;
          b3 = noteD3d11 p (noteChainMoved s b2);
          b4 = addNote (if st_d3d11Installed (sv_state s) then ModHasReplaced (modSay cur) chainLeaf
                        else ModIsInstalled (modSay cur) chainLeaf) b3
      in if \<not> di_is64 cur then addProblem D3d11Is32Bit b4 else b4)"

definition planD3d11 :: "string \<Rightarrow> Survey \<Rightarrow> Options \<Rightarrow> PayloadInfo \<Rightarrow> PlanBuild \<Rightarrow> PlanBuild" where
  "planD3d11 bdir s o' p b =
     (let dst = joinPath (sv_gameDir s) kD3d11; cur = sv_d3d11 s in
      if \<not> pi_haveD3d11 p then b
      else if di_kind cur = Unreadable then addProblem D3d11Unreadable b
      else if di_kind cur = Edvr then
        noteD3d11 p
          (if di_sha256 cur = pi_d3d11Sha p \<and> \<not> op_repair o' then addNote D3d11AlreadyThisBuild b
           else addNote (D3d11Replaced (op_repair o')) (addWritePayload ''d3d11'' dst (addBackup bdir dst b)))
      else if di_kind cur = Absent then
        noteD3d11 p (addNote (if st_d3d11Installed (sv_state s) then D3d11Restored else D3d11New)
                       (addWritePayload ''d3d11'' dst b))
      else takeSlot bdir s p b)"

definition planChain :: "Survey \<Rightarrow> PlanBuild \<Rightarrow> PlanBuild" where
  "planChain s b =
     (let old = st_chainTarget (sv_state s) in
      if st_chainTarget (pb_next b) = [] \<and> old \<noteq> [] then
        (if (case siblingNamed (sv_otherD3d11 s) old of Some t \<Rightarrow> di_kind t \<noteq> Absent | None \<Rightarrow> False)
         then addNote (ChainKept old)
                (b\<lparr>pb_next := (pb_next b)\<lparr>st_chainTarget := old, st_chainMod := st_chainMod (sv_state s)\<rparr>\<rparr>)
         else addNote (ChainGone old) (b\<lparr>pb_forced := pb_forced b @ [(''advanced.real_dll'', [])]\<rparr>))
      else b)"

definition noteNgx :: "bool \<Rightarrow> string \<Rightarrow> PlanBuild \<Rightarrow> PlanBuild" where
  "noteNgx installed sha b = b\<lparr>pb_next := (pb_next b)\<lparr>st_ngxInstalled := installed, st_ngxSha := sha\<rparr>\<rparr>"

definition planNgx :: "string \<Rightarrow> Survey \<Rightarrow> Options \<Rightarrow> PayloadInfo \<Rightarrow> PlanBuild \<Rightarrow> PlanBuild" where
  "planNgx bdir s o' p b0 =
     (let dst = joinPath (sv_gameDir s) kNgx;
          cur = sv_ngx s;
          present = (di_kind cur \<noteq> Absent \<and> di_kind cur \<noteq> Unreadable);
          ours = (present \<and> st_ngxInstalled (sv_state s) \<and> st_ngxSha (sv_state s) \<noteq> [] \<and>
                  di_sha256 cur = st_ngxSha (sv_state s));
          b = noteNgx False [] b0
      in if \<not> pi_haveNgx p then
           (if st_ngxInstalled (sv_state s) then addNote NgxCarriesNone b0 else b0)
         else if di_kind cur = Unreadable then addProblem NgxUnreadable b
         else if present \<and> di_sha256 cur = pi_ngxSha p \<and> \<not> op_repair o' then
           noteNgx True (pi_ngxSha p) (addNote NgxAlready b)
         else if present \<and> \<not> ours \<and> di_sha256 cur \<noteq> pi_ngxSha p then addNote NgxDifferent b
         else if \<not> sv_nvidiaAdapter s then
           (let b1 = addNote NgxNoAdapter b in if ours then noteNgx True (st_ngxSha (sv_state s)) b1 else b1)
         else
           noteNgx True (pi_ngxSha p)
             (addNote (NgxPlaced present)
               (addWritePayload ''ngx'' dst (if present then addBackup bdir dst b else b))))"

definition originalNameOf :: "Survey \<Rightarrow> string" where
  "originalNameOf s =
     (let n = safeSiblingName (sv_openvrOrigName s) kOpenvr in if n = [] then kOpenvrOrig else n)"

text \<open>The part that keeps the game's own runtime, when it is what stands in our place.\<close>

definition keepOriginal :: "string \<Rightarrow> Survey \<Rightarrow> PlanBuild \<Rightarrow> PlanBuild" where
  "keepOriginal bdir s b =
     (let runtime = joinPath (nativeDirOf s) kOpenvr;
          original = joinPath (nativeDirOf s) (originalNameOf s);
          current = sv_openvrCurrent s;
          saved = sv_openvrOrig s
      in if di_kind current = OpenVrRuntime \<and>
            (di_kind saved = Absent \<or> di_kind saved = OpenVrRuntime \<and> di_sha256 saved \<noteq> di_sha256 current)
         then
           (let b1 = (if di_kind saved = OpenVrRuntime
                      then addNote OriginalUpdated (addGuardedBackup bdir original (di_sha256 saved) b) else b);
                b2 = addRename runtime original (di_sha256 current) b1
            in b2\<lparr>pb_next := (pb_next b2)\<lparr>st_openvrOrigSha := di_sha256 current\<rparr>\<rparr>)
         else b)"

definition planRuntime :: "string \<Rightarrow> Survey \<Rightarrow> Options \<Rightarrow> PayloadInfo \<Rightarrow> PlanBuild \<Rightarrow> PlanBuild" where
  "planRuntime bdir s o' p b0 =
     (let runtime = joinPath (nativeDirOf s) kOpenvr;
          current = sv_openvrCurrent s;
          saved = sv_openvrOrig s;
          b = b0\<lparr>pb_next := (pb_next b0)\<lparr>st_openvrOrigName := originalNameOf s,
                   st_openvrOrigSha := (if di_kind saved = OpenVrRuntime then di_sha256 saved else [])\<rparr>\<rparr>;
          b1 = (if di_kind current = Edvr \<and> di_sha256 current = pi_openvrSha p \<and> \<not> op_repair o'
                then addNote RuntimeAlready b
                else
                  addNote RuntimeInstalled
                    (addWritePayload ''openvr'' runtime
                      (if di_kind current \<noteq> Absent
                       then keepOriginal bdir s (addGuardedBackup bdir runtime (di_sha256 current) b) else b)))
      in b1\<lparr>pb_next := (pb_next b1)\<lparr>st_openvrInstalled := True, st_openvrSha := pi_openvrSha p,
              st_nativeGraphicsSha := pi_d3d11Sha p, st_nativeRuntimeSha := pi_openvrSha p,
              st_nativeOriginalName := st_openvrOrigName (pb_next b1),
              st_nativeOriginalSha := st_openvrOrigSha (pb_next b1)\<rparr>\<rparr>)"

definition planAsset :: "string \<Rightarrow> Survey \<Rightarrow> Options \<Rightarrow> DllInfo \<Rightarrow> string \<Rightarrow> string \<Rightarrow> string \<Rightarrow> PlanBuild \<Rightarrow> PlanBuild" where
  "planAsset bdir s o' current name item wanted b =
     (let destination = joinPath (nativeDirOf s) name in
      if di_kind current \<noteq> Absent \<and> di_sha256 current = wanted \<and> \<not> op_repair o' then b
      else addWritePayload item destination
             (if di_kind current \<noteq> Absent then addGuardedBackup bdir destination (di_sha256 current) b else b))"

definition nativeConfigText :: "Survey \<Rightarrow> string" where
  "nativeConfigText s =
     ''[openxr]'' @ crlf @ ''version=1'' @ crlf @ ''loader='' @ joinPath (nativeDirOf s) ''openxr_loader.dll'' @ crlf @
     ''graphics='' @ joinPath (sv_gameDir s) kD3d11 @ crlf @ ''runtime=system'' @ crlf @ ''separate_device=1'' @ crlf"

definition planNative :: "(string \<Rightarrow> string) \<Rightarrow> string \<Rightarrow> Survey \<Rightarrow> Options \<Rightarrow> PayloadInfo \<Rightarrow> PlanBuild \<Rightarrow> PlanBuild" where
  "planNative sha256Bytes bdir s o' p b0 =
     (let b1 = planAsset bdir s o' (sv_openxrLoader s) ''openxr_loader.dll'' ''openxr_loader'' (pi_openxrLoaderSha p) b0;
          b2 = planAsset bdir s o' (sv_openxrLicense s) ''OPENXR-LOADER-LICENSE.txt'' ''openxr_license''
                 (pi_openxrLicenseSha p) b1;
          configSha = sha256Bytes (nativeConfigText s);
          b3 = b2\<lparr>pb_next := (pb_next b2)\<lparr>st_openxrLoaderSha := pi_openxrLoaderSha p,
                    st_openxrLicenseSha := pi_openxrLicenseSha p, st_nativeConfigSha := configSha\<rparr>\<rparr>;
          destination = joinPath (nativeDirOf s) ''edvr_openxr.ini'';
          config = sv_nativeConfig s
      in if di_sha256 config \<noteq> configSha \<or> op_repair o' then
           (addWriteText (nativeConfigText s) destination
             (if di_kind config \<noteq> Absent then addGuardedBackup bdir destination (di_sha256 config) b3 else b3))
             \<lparr>pb_changed := True\<rparr>
         else b3)"

text \<open>The merged \<^verbatim>\<open>edvr.ini\<close> and the notes that go with it.\<close>

definition mergeSettings :: "string \<Rightarrow> Survey \<Rightarrow> Options \<Rightarrow> PayloadInfo \<Rightarrow> PlanBuild \<Rightarrow> string \<times> PlanBuild" where
  "mergeSettings bdir s o' p b =
     (let iniPath = joinPath (sv_gameDir s) kIni in
      if \<not> sv_iniPresent s then
        (case mergeIni (pi_iniText p) [] None (pb_forced b) of (merged, rep) \<Rightarrow>
           (merged, addNote IniDefaults (b\<lparr>pb_merge := rep\<rparr>)))
      else if \<not> op_keepSettings o' then
        (case mergeIni (pi_iniText p) [] None (pb_forced b) of (merged, rep) \<Rightarrow>
           (merged, addNote IniReplaced (addBackup bdir iniPath (b\<lparr>pb_merge := rep\<rparr>))))
      else
        (case mergeIni (pi_iniText p) (sv_iniText s)
                (if sv_baseIniText s = [] then None else Some (sv_baseIniText s)) (pb_forced b) of (merged, rep) \<Rightarrow>
           (let b1 = b\<lparr>pb_merge := rep\<rparr> in
            (merged,
             if merged \<noteq> sv_iniText s then
               (let b2 = addNote (IniUpdated (length (rep_kept rep)) (length (rep_adopted rep)) (rep_twoWay rep))
                           (addBackup bdir iniPath b1)
                in if rep_retired rep \<noteq> [] then addNote IniRetired b2 else b2)
             else b1))))"

definition planIni :: "(string \<Rightarrow> string) \<Rightarrow> string \<Rightarrow> Survey \<Rightarrow> Options \<Rightarrow> PayloadInfo \<Rightarrow> PlanBuild \<Rightarrow> PlanBuild" where
  "planIni sha256Bytes bdir s o' p b =
     (if pi_iniText p = [] then addProblem NoIniCarried b
      else
        (case mergeSettings bdir s o' p b of (merged, b1) \<Rightarrow>
           (let b2 = (if merged \<noteq> sv_iniText s
                      then (addWriteText merged (joinPath (sv_gameDir s) kIni) b1)\<lparr>pb_changed := True\<rparr>
                      else addNote IniLeftAlone b1)
            in b2\<lparr>pb_next := (pb_next b2)\<lparr>st_iniSha := sha256Bytes merged\<rparr>\<rparr>)))"

definition planBody :: "(string \<Rightarrow> string) \<Rightarrow> Survey \<Rightarrow> Options \<Rightarrow> PayloadInfo \<Rightarrow> PlanBuild" where
  "planBody sha256Bytes s o' p =
     (let bdir = backupDirFor s o' in
      planIni sha256Bytes bdir s o' p
        (planNative sha256Bytes bdir s o' p
          (planRuntime bdir s o' p
            (planNgx bdir s o' p
              (planChain s
                (planD3d11 bdir s o' p
                  (startBuild (nextStart s o' p) (sv_gameRunningElsewhere s))))))))"

definition mkDir :: "string \<Rightarrow> Step" where
  "mkDir d = noStep\<lparr>sp_action := MakeDir, sp_to := d\<rparr>"

definition installSteps :: "Survey \<Rightarrow> Options \<Rightarrow> PayloadInfo \<Rightarrow> PlanBuild \<Rightarrow> Step list" where
  "installSteps s o' p b =
     (if pb_wantBackupDir b then [mkDir (backupDirFor s o')] else []) @
     [mkDir (nativeDirOf s)] @ pb_body b @
     [mkDir (stateDirPath (sv_gameDir s)),
      noStep\<lparr>sp_action := WriteText, sp_text := pi_iniText p, sp_to := baseIniPath (sv_gameDir s)\<rparr>,
      noStep\<lparr>sp_action := WriteText, sp_text := serializeState (pb_next b), sp_to := statePath (sv_gameDir s)\<rparr>]"

definition planInstall :: "(string \<Rightarrow> string) \<Rightarrow> Survey \<Rightarrow> Options \<Rightarrow> PayloadInfo \<Rightarrow> Plan" where
  "planInstall sha256Bytes s o' p =
     (case installBlocked s p of
        Some problem \<Rightarrow> newPlan\<lparr>pl_blocked := True, pl_problems := [problem], pl_backupDir := backupDirFor s o'\<rparr>
      | None \<Rightarrow>
          (let b = planBody sha256Bytes s o' p;
               nothing = (\<not> pb_changed b \<and> \<not> op_repair o')
           in \<lparr>pl_steps = (if nothing then [] else installSteps s o' p b),
               pl_notes = pb_notes b @ (if nothing then [InstallNothingToDo] else []),
               pl_problems = pb_problems b, pl_blocked = False, pl_nothingToDo = nothing, pl_merge = pb_merge b,
               pl_nextState = pb_next b, pl_backupDir = backupDirFor s o'\<rparr>))"

section \<open>Uninstalling\<close>

definition unplanD3d11 :: "string \<Rightarrow> Survey \<Rightarrow> PlanBuild \<Rightarrow> PlanBuild" where
  "unplanD3d11 bdir s b =
     (let path = joinPath (sv_gameDir s) kD3d11 in
      if di_kind (sv_d3d11 s) = Edvr then
        (let b1 = addRemove path (di_sha256 (sv_d3d11 s)) (addBackup bdir path b);
             chain0 = safeSiblingName (st_chainTarget (sv_state s)) kD3d11;
             chain = (if chain0 = [] then safeSiblingName (iniValue (sv_iniText s) ''advanced.real_dll'' []) kD3d11
                      else chain0);
             target = (if chain = [] then None else siblingNamed (sv_otherD3d11 s) chain);
             gone = (let b2 = addNote D3d11Removed b1 in
                     if chain \<noteq> [] then addProblem (ChainTargetMissing chain) b2 else b2)
         in case target of
              None \<Rightarrow> gone
            | Some t \<Rightarrow>
                (if di_kind t = Absent then gone
                 else addNote (ModRestored chain) (addRename (di_path t) path (di_sha256 t) b1)))
      else if di_kind (sv_d3d11 s) = Absent then addNote D3d11NoneHere b
      else addNote D3d11NotOurs b)"

definition unplanRuntime :: "string \<Rightarrow> Survey \<Rightarrow> PlanBuild \<Rightarrow> PlanBuild" where
  "unplanRuntime bdir s b =
     (let dst = joinPath (sv_openvrDir s) kOpenvr;
          origPath = joinPath (sv_openvrDir s) (originalNameOf s);
          current = sv_openvrCurrent s;
          orig = sv_openvrOrig s
      in if \<not> sv_haveOpenvrDir s then b
         else if di_kind current = Edvr then
           (if di_kind orig = OpenVrRuntime then
              addNote RuntimeRenamedBack
                (addRename origPath dst (di_sha256 orig) (addRemove dst (di_sha256 current) (addBackup bdir dst b)))
            else
              (case sv_openvrOrigInBackups s of
                 copy # _ \<Rightarrow> addNote RuntimeFromBackup (addRestore copy dst (addBackup bdir dst b))
               | [] \<Rightarrow> addProblem RuntimeLeftInPlace b))
         else if di_kind current = OpenVrRuntime \<and> di_kind orig = OpenVrRuntime then addNote RuntimeAlreadyBack b
         else addNote RuntimeNoneHere b)"

definition retireFile :: "string \<Rightarrow> DllInfo \<Rightarrow> string \<Rightarrow> PlanBuild \<Rightarrow> PlanBuild" where
  "retireFile bdir info owned b =
     (if di_kind info = Absent then b
      else if owned = [] \<or> di_sha256 info \<noteq> owned then addNote (KeepingChanged (leafOf (di_path info))) b
      else addRemove (di_path info) (di_sha256 info) (addBackup bdir (di_path info) b))"

definition unplanNative :: "string \<Rightarrow> Survey \<Rightarrow> PlanBuild \<Rightarrow> PlanBuild" where
  "unplanNative bdir s b =
     (if st_nativeInstalled (sv_state s) then
        retireFile bdir (sv_nativeConfig s) (st_nativeConfigSha (sv_state s))
          (retireFile bdir (sv_openxrLicense s) (st_openxrLicenseSha (sv_state s))
            (retireFile bdir (sv_openxrLoader s) (st_openxrLoaderSha (sv_state s)) b))
      else b)"

definition unplanNgx :: "Survey \<Rightarrow> PlanBuild \<Rightarrow> PlanBuild" where
  "unplanNgx s b =
     (let cur = sv_ngx s; st = sv_state s in
      if st_ngxInstalled st \<and> st_ngxSha st \<noteq> [] \<and> di_kind cur \<noteq> Absent \<and> di_kind cur \<noteq> Unreadable \<and>
         di_sha256 cur = st_ngxSha st
      then addNote NgxRemoved (addRemove (joinPath (sv_gameDir s) kNgx) (di_sha256 cur) b)
      else if di_kind cur \<noteq> Absent then addNote NgxNotOurs b
      else b)"

text \<open>The flags say whether the record and the kept default ini exist on disk.\<close>

definition unplanSettings :: "string \<Rightarrow> bool \<Rightarrow> bool \<Rightarrow> Survey \<Rightarrow> Options \<Rightarrow> PlanBuild \<Rightarrow> PlanBuild" where
  "unplanSettings bdir recordExists baseExists s o' b =
     (let iniPath = joinPath (sv_gameDir s) kIni;
          b1 = (if sv_iniPresent s then
                  (if op_removeSettings o' then addNote IniRemoved (addRemove iniPath [] (addBackup bdir iniPath b))
                   else addNote IniLeft b)
                else b);
          b2 = (if recordExists then addRemove (statePath (sv_gameDir s)) [] b1 else b1)
      in if baseExists then addRemove (baseIniPath (sv_gameDir s)) [] b2 else b2)"

definition uninstallBody :: "bool \<Rightarrow> bool \<Rightarrow> Survey \<Rightarrow> Options \<Rightarrow> PlanBuild" where
  "uninstallBody recordExists baseExists s o' =
     (let bdir = backupDirFor s o' in
      unplanSettings bdir recordExists baseExists s o'
        (unplanNgx s
          (unplanNative bdir s
            (unplanRuntime bdir s
              (unplanD3d11 bdir s (startBuild noState (sv_gameRunningElsewhere s)))))))"

definition originalLost :: "Survey \<Rightarrow> bool" where
  "originalLost s \<longleftrightarrow> (st_nativeInstalled (sv_state s) \<or> di_nativeRuntimeExports (sv_openvrCurrent s)) \<and>
     di_kind (sv_openvrCurrent s) = Edvr \<and> di_kind (sv_openvrOrig s) \<noteq> OpenVrRuntime \<and> sv_openvrOrigInBackups s = []"

definition planUninstall :: "bool \<Rightarrow> bool \<Rightarrow> Survey \<Rightarrow> Options \<Rightarrow> Plan" where
  "planUninstall recordExists baseExists s o' =
     (if originalLost s then newPlan\<lparr>pl_blocked := True, pl_problems := [OriginalMissing]\<rparr>
      else if sv_gameRunningHere s
      then newPlan\<lparr>pl_blocked := True, pl_problems := [GameRunning], pl_backupDir := backupDirFor s o'\<rparr>
      else
        (let b = uninstallBody recordExists baseExists s o' in
         newPlan\<lparr>pl_steps := (if pb_changed b
                               then (if pb_wantBackupDir b then [mkDir (backupDirFor s o')] else []) @ pb_body b else []),
                  pl_notes := pb_notes b @ (if pb_changed b then [LogsLeft] else [NotInstalledHere]),
                  pl_problems := pb_problems b, pl_nothingToDo := (\<not> pb_changed b),
                  pl_backupDir := backupDirFor s o'\<rparr>))"

end
