(* ===== verification/InstallApply.thy ===== *)
theory InstallApply
  imports InstallPlan
begin

text \<open>
  \<^verbatim>\<open>src/installer/apply.cpp\<close>: carrying a plan out, and walking it back when a step fails. The disk holds the bytes of
  every file and the folders that exist; file attributes (\<^verbatim>\<open>clearReadOnly\<close>) are not modelled. Windows is an
  arbitrary \<open>Os\<close>: every call has a number, whether it succeeds is up to the \<open>Os\<close>, a copy may leave any bytes in
  its target whether or not it reports success, a read may fail, and a write may be short. A move and a delete
  either do what they say or nothing.
\<close>

section \<open>The disk and the system calls\<close>

datatype CopyOutcome = Copied string | CopyLeft "string option"

record Os =
  os_ok :: "nat \<Rightarrow> bool"
  os_err :: "nat \<Rightarrow> nat"
  os_copy :: "nat \<Rightarrow> string \<Rightarrow> CopyOutcome"
  os_readable :: "nat \<Rightarrow> bool"
  os_written :: "nat \<Rightarrow> nat"
  os_temp :: "nat \<Rightarrow> string \<Rightarrow> string option"

record Disk =
  dk_files :: "string \<Rightarrow> string option"
  dk_dirs :: "string \<Rightarrow> bool"
  dk_calls :: nat

definition called :: "Disk \<Rightarrow> Disk" where
  "called d = d\<lparr>dk_calls := Suc (dk_calls d)\<rparr>"

definition setFile :: "string \<Rightarrow> string option \<Rightarrow> Disk \<Rightarrow> Disk" where
  "setFile path c d = d\<lparr>dk_files := (dk_files d)(path := c)\<rparr>"

definition fileExists :: "string \<Rightarrow> Disk \<Rightarrow> bool" where
  "fileExists path d \<longleftrightarrow> dk_files d path \<noteq> None"

definition getLastError :: "Os \<Rightarrow> Disk \<Rightarrow> nat" where
  "getLastError os d = os_err os (dk_calls d)"

text \<open>Every call returns what it answered and the disk after it; a failed one leaves its error behind.\<close>

definition sha256File :: "Os \<Rightarrow> (string \<Rightarrow> string) \<Rightarrow> string \<Rightarrow> Disk \<Rightarrow> string \<times> Disk" where
  "sha256File os sha path d =
     ((case dk_files d path of None \<Rightarrow> [] | Some c \<Rightarrow> if os_readable os (dk_calls d) then sha c else []), called d)"

definition copyFile :: "Os \<Rightarrow> string \<Rightarrow> string \<Rightarrow> Disk \<Rightarrow> bool \<times> Disk" where
  "copyFile os from to' d =
     (case dk_files d from of
        None \<Rightarrow> (False, called d)
      | Some c \<Rightarrow>
          (case os_copy os (dk_calls d) c of
             Copied c' \<Rightarrow> (True, setFile to' (Some c') (called d))
           | CopyLeft None \<Rightarrow> (False, called d)
           | CopyLeft (Some c') \<Rightarrow> (False, setFile to' (Some c') (called d))))"

definition moveFile :: "Os \<Rightarrow> string \<Rightarrow> string \<Rightarrow> Disk \<Rightarrow> bool \<times> Disk" where
  "moveFile os from to' d =
     (case dk_files d from of
        None \<Rightarrow> (False, called d)
      | Some c \<Rightarrow>
          (if os_ok os (dk_calls d) then (True, setFile to' (Some c) (setFile from None (called d)))
           else (False, called d)))"

definition deleteFile :: "Os \<Rightarrow> string \<Rightarrow> Disk \<Rightarrow> bool \<times> Disk" where
  "deleteFile os path d =
     (if dk_files d path \<noteq> None \<and> os_ok os (dk_calls d) then (True, setFile path None (called d)) else (False, called d))"

text \<open>
  \<^verbatim>\<open>writeWholeFile\<close> writes beside the target and moves into place. \<open>writeLoop\<close> is its loop over chunks of at most
  a megabyte: what is still to be written shrinks with every successful \<^verbatim>\<open>WriteFile\<close>.
\<close>

abbreviation ERROR_WRITE_FAULT :: nat where "ERROR_WRITE_FAULT \<equiv> 29"
abbreviation ERROR_FILE_NOT_FOUND :: nat where "ERROR_FILE_NOT_FOUND \<equiv> 2"
abbreviation ERROR_CRC :: nat where "ERROR_CRC \<equiv> 23"
abbreviation ERROR_ALREADY_EXISTS :: nat where "ERROR_ALREADY_EXISTS \<equiv> 183"
abbreviation ERROR_RESOURCE_DATA_NOT_FOUND :: nat where "ERROR_RESOURCE_DATA_NOT_FOUND \<equiv> 1812"

definition chunkSize :: int where
  "chunkSize = 1048576"

definition chunkOf :: "string \<Rightarrow> nat" where
  "chunkOf left = (if int (length left) > chunkSize then nat chunkSize else length left)"

function writeLoop :: "Os \<Rightarrow> string \<Rightarrow> string \<Rightarrow> string \<Rightarrow> Disk \<Rightarrow> nat option \<times> Disk" where
  "writeLoop os temp sofar left d =
     (if left = [] then (None, d)
      else
        (let n = min (os_written os (dk_calls d)) (chunkOf left) in
         if \<not> os_ok os (dk_calls d) \<or> n = 0 then
           (Some (if getLastError os d = 0 then ERROR_WRITE_FAULT else getLastError os d),
            snd (deleteFile os temp (called d)))
         else writeLoop os temp (sofar @ take n left) (drop n left)
                (setFile temp (Some (sofar @ take n left)) (called d))))"
  by pat_completeness auto
termination
  by (relation "measure (\<lambda>(os, temp, sofar, left, d). length left)") auto

declare writeLoop.simps [simp del]

definition tempOf :: "string \<Rightarrow> string" where
  "tempOf path = path @ ''.edvrnew''"

definition writeWholeFile :: "Os \<Rightarrow> string \<Rightarrow> string \<Rightarrow> Disk \<Rightarrow> nat option \<times> Disk" where
  "writeWholeFile os path content d =
     (let temp = tempOf path in
      if \<not> os_ok os (dk_calls d) then (Some (getLastError os d), called d)
      else
        (case writeLoop os temp [] content (setFile temp (Some []) (called d)) of
           (Some err, d1) \<Rightarrow> (Some err, d1)
         | (None, d1) \<Rightarrow>
             (case moveFile os temp path d1 of (moved, d2) \<Rightarrow>
                if moved then (None, d2) else (Some (getLastError os d1), snd (deleteFile os temp d2)))))"

section \<open>Folders and snapshots\<close>

datatype Undo = URemoveDir string | UDeleteFile string | UMoveBack string string string | URestoreFile string string string

definition parentOf :: "string \<Rightarrow> string option" where
  "parentOf path =
     (if list_ex isSlash path then Some (take (length path - length (leafOf path) - 1) path) else None)"

lemma parentOf_shorter: "parentOf path = Some q \<Longrightarrow> length q < length path"
proof -
  assume "parentOf path = Some q"
  then have "path \<noteq> []" "q = take (length path - length (leafOf path) - 1) path"
    by (auto simp: parentOf_def split: if_splits)
  then show ?thesis by simp
qed

function ensureDirTree :: "Os \<Rightarrow> string \<Rightarrow> Undo list \<Rightarrow> Disk \<Rightarrow> bool \<times> Undo list \<times> Disk" where
  "ensureDirTree os path undo d =
     (if path = [] \<or> dk_dirs d path then (True, undo, d)
      else
        (case (case parentOf path of
                 Some q \<Rightarrow> if length q > 2 then ensureDirTree os q undo d else (True, undo, d)
               | None \<Rightarrow> (True, undo, d)) of
           (ok, undo1, d1) \<Rightarrow>
             if \<not> ok then (False, undo1, d1)
             else if os_ok os (dk_calls d1)
             then (True, URemoveDir path # undo1, (called d1)\<lparr>dk_dirs := (dk_dirs d1)(path := True)\<rparr>)
             else (getLastError os d1 = ERROR_ALREADY_EXISTS \<and> dk_dirs d1 path, undo1, called d1)))"
  by pat_completeness auto
termination
  by (relation "measure (\<lambda>(os, path, undo, d). length path)") (auto simp: parentOf_shorter)

declare ensureDirTree.simps [simp del]

text \<open>The snapshot's path, or an error. Nothing to do when the source is not there.\<close>

definition snapshotFile ::
    "Os \<Rightarrow> (string \<Rightarrow> string) \<Rightarrow> string \<Rightarrow> string \<Rightarrow> Disk \<Rightarrow> (nat + string) \<times> Disk" where
  "snapshotFile os sha source backupDir d =
     (if \<not> fileExists source d then (Inr [], d)
      else
        (let dir = (if backupDir \<noteq> [] then backupDir
                    else case parentOf source of None \<Rightarrow> ''.'' | Some q \<Rightarrow> q) in
         case ensureDirTree os dir [] d of (ok, _, d1) \<Rightarrow>
           if \<not> ok then (Inl (getLastError os d1), d1)
           else
             (case os_temp os (dk_calls d1) dir of
                None \<Rightarrow> (Inl (getLastError os d1), called d1)
              | Some snapshot \<Rightarrow>
                  (let d2 = setFile snapshot (Some []) (called d1) in
                   case copyFile os source snapshot d2 of (copied, d3) \<Rightarrow>
                     if \<not> copied then (Inl (getLastError os d2), snd (deleteFile os snapshot d3))
                     else
                       (case sha256File os sha source d3 of (expected, d4) \<Rightarrow>
                        case sha256File os sha snapshot d4 of (got, d5) \<Rightarrow>
                          if expected = [] \<or> got \<noteq> expected
                          then (Inl ERROR_CRC, snd (deleteFile os snapshot d5))
                          else (Inr snapshot, d5))))))"

section \<open>Steps\<close>

datatype DoneLine = DoneCopied string string | DoneRenamed string string | DoneWrote string | DoneRemoved string

record Applying =
  ap_disk :: Disk
  ap_undo :: "Undo list"
  ap_overwrote :: bool
  ap_done :: "DoneLine list"
  ap_failed :: "(string \<times> nat) option"

definition failStep :: "string \<Rightarrow> nat \<Rightarrow> Applying \<Rightarrow> Applying" where
  "failStep what code a = a\<lparr>ap_failed := Some (what, code)\<rparr>"

definition onDisk :: "Disk \<Rightarrow> Applying \<Rightarrow> Applying" where
  "onDisk d a = a\<lparr>ap_disk := d\<rparr>"

definition pushUndo :: "Undo \<Rightarrow> Applying \<Rightarrow> Applying" where
  "pushUndo u a = a\<lparr>ap_undo := u # ap_undo a\<rparr>"

definition finished :: "DoneLine \<Rightarrow> Applying \<Rightarrow> Applying" where
  "finished l a = a\<lparr>ap_done := ap_done a @ [l]\<rparr>"

text \<open>\<^verbatim>\<open>protectTarget\<close>: a snapshot of what is there, with its undo entry; failing it fails the step.\<close>

definition protectTarget :: "Os \<Rightarrow> (string \<Rightarrow> string) \<Rightarrow> string \<Rightarrow> string \<Rightarrow> Applying \<Rightarrow> Applying" where
  "protectTarget os sha backupDir target a =
     (if \<not> fileExists target (ap_disk a) then a
      else
        (case snapshotFile os sha target backupDir (ap_disk a) of
           (Inl err, d) \<Rightarrow> failStep target err (onDisk d a)
         | (Inr snapshot, d) \<Rightarrow>
             (case sha256File os sha snapshot d of (h, d1) \<Rightarrow>
                pushUndo (URestoreFile snapshot target h) (onDisk d1 a))))"

definition stepMakeDir :: "Os \<Rightarrow> Step \<Rightarrow> Applying \<Rightarrow> Applying" where
  "stepMakeDir os st a =
     (case ensureDirTree os (sp_to st) (ap_undo a) (ap_disk a) of (ok, undo, d) \<Rightarrow>
        (let a1 = a\<lparr>ap_undo := undo, ap_disk := d\<rparr> in
         if ok then a1 else failStep (sp_to st) (getLastError os d) a1))"

definition stepBackup :: "Os \<Rightarrow> (string \<Rightarrow> string) \<Rightarrow> string \<Rightarrow> Step \<Rightarrow> Applying \<Rightarrow> Applying" where
  "stepBackup os sha backupDir st a0 =
     (let a = (case parentOf (sp_to st) of
                 None \<Rightarrow> a0
               | Some q \<Rightarrow>
                   (case ensureDirTree os q (ap_undo a0) (ap_disk a0) of (_, undo, d) \<Rightarrow>
                      a0\<lparr>ap_undo := undo, ap_disk := d\<rparr>))
      in if \<not> fileExists (sp_from st) (ap_disk a) then
           (if sp_required st then failStep (sp_from st) ERROR_FILE_NOT_FOUND a else a)
         else
           (let a1 = protectTarget os sha backupDir (sp_to st) a in
            if ap_failed a1 \<noteq> None then a1
            else
              (case copyFile os (sp_from st) (sp_to st) (ap_disk a1) of (copied, d) \<Rightarrow>
                 if copied then finished (DoneCopied (leafOf (sp_from st)) (sp_to st)) (onDisk d a1)
                 else failStep (sp_to st) (getLastError os (ap_disk a1)) (onDisk d a1))))"

definition stepRename :: "Os \<Rightarrow> (string \<Rightarrow> string) \<Rightarrow> string \<Rightarrow> Step \<Rightarrow> Applying \<Rightarrow> Applying" where
  "stepRename os sha backupDir st a =
     (if \<not> fileExists (sp_from st) (ap_disk a) then
        (if sp_required st then failStep (sp_from st) ERROR_FILE_NOT_FOUND a else a)
      else
        (let a1 = protectTarget os sha backupDir (sp_to st) a in
         if ap_failed a1 \<noteq> None then a1
         else
           (case sha256File os sha (sp_from st) (ap_disk a1) of (was, d1) \<Rightarrow>
              if was = [] then failStep (sp_from st) ERROR_CRC (onDisk d1 a1)
              else
                (case moveFile os (sp_from st) (sp_to st) d1 of (moved, d2) \<Rightarrow>
                   if moved then
                     finished (DoneRenamed (leafOf (sp_from st)) (leafOf (sp_to st)))
                       (pushUndo (UMoveBack (sp_to st) (sp_from st) was) (onDisk d2 a1))
                   else failStep (sp_from st) (getLastError os d1) (onDisk d2 a1)))))"

text \<open>The common tail of \<^verbatim>\<open>WritePayload\<close> and \<^verbatim>\<open>WriteText\<close>.\<close>

definition stepWrite :: "Os \<Rightarrow> (string \<Rightarrow> string) \<Rightarrow> string \<Rightarrow> string \<Rightarrow> string \<Rightarrow> Applying \<Rightarrow> Applying" where
  "stepWrite os sha backupDir to' content a =
     (let existed = fileExists to' (ap_disk a);
          a1 = (if existed then protectTarget os sha backupDir to' a else a)
      in if ap_failed a1 \<noteq> None then a1
         else
           (case writeWholeFile os to' content (ap_disk a1) of
              (Some err, d) \<Rightarrow> failStep to' err (onDisk d a1)
            | (None, d) \<Rightarrow>
                (let a2 = onDisk d a1;
                     a3 = (if existed then a2\<lparr>ap_overwrote := True\<rparr> else pushUndo (UDeleteFile to') a2)
                 in finished (DoneWrote (leafOf to')) a3)))"

definition stepDelete :: "Os \<Rightarrow> (string \<Rightarrow> string) \<Rightarrow> string \<Rightarrow> Step \<Rightarrow> Applying \<Rightarrow> Applying" where
  "stepDelete os sha backupDir st a =
     (if \<not> fileExists (sp_from st) (ap_disk a) then a
      else
        (let a1 = protectTarget os sha backupDir (sp_from st) a in
         if ap_failed a1 \<noteq> None then a1
         else
           (case deleteFile os (sp_from st) (ap_disk a1) of (deleted, d) \<Rightarrow>
              if deleted then finished (DoneRemoved (leafOf (sp_from st))) (onDisk d a1)
              else failStep (sp_from st) (getLastError os (ap_disk a1)) (onDisk d a1))))"

text \<open>What the payload provider hands back; no bytes is no item.\<close>

type_synonym Provider = "string \<Rightarrow> string option"

definition applyStep :: "Os \<Rightarrow> (string \<Rightarrow> string) \<Rightarrow> Provider \<Rightarrow> string \<Rightarrow> Step \<Rightarrow> Applying \<Rightarrow> Applying" where
  "applyStep os sha payload backupDir st a =
     (if ap_failed a \<noteq> None then a
      else case sp_action st of
        MakeDir \<Rightarrow> stepMakeDir os st a
      | Backup \<Rightarrow> stepBackup os sha backupDir st a
      | Rename \<Rightarrow> stepRename os sha backupDir st a
      | WritePayload \<Rightarrow>
          (case payload (sp_item st) of
             None \<Rightarrow> failStep (sp_to st) ERROR_RESOURCE_DATA_NOT_FOUND a
           | Some content \<Rightarrow>
               (if content = [] then failStep (sp_to st) ERROR_RESOURCE_DATA_NOT_FOUND a
                else stepWrite os sha backupDir (sp_to st) content a))
      | WriteText \<Rightarrow> stepWrite os sha backupDir (sp_to st) (sp_text st) a
      | Delete \<Rightarrow> stepDelete os sha backupDir st a)"

section \<open>Walking back\<close>

record Rollback =
  rb_disk :: Disk
  rb_ok :: bool
  rb_retained :: "string list"

definition rollbackOne :: "Os \<Rightarrow> (string \<Rightarrow> string) \<Rightarrow> Undo \<Rightarrow> Rollback \<Rightarrow> Rollback" where
  "rollbackOne os sha u r =
     (case u of
        URemoveDir path \<Rightarrow>
          r\<lparr>rb_disk := (called (rb_disk r))
             \<lparr>dk_dirs := (if os_ok os (dk_calls (rb_disk r)) then (dk_dirs (rb_disk r))(path := False)
                          else dk_dirs (rb_disk r))\<rparr>\<rparr>
      | UDeleteFile path \<Rightarrow>
          (if fileExists path (rb_disk r) then
             (case deleteFile os path (rb_disk r) of (deleted, d) \<Rightarrow>
                r\<lparr>rb_disk := d, rb_ok := (rb_ok r \<and> deleted)\<rparr>)
           else r)
      | UMoveBack a b h \<Rightarrow>
          (case moveFile os a b (rb_disk r) of (moved, d) \<Rightarrow>
             if \<not> moved then r\<lparr>rb_disk := d, rb_ok := False, rb_retained := rb_retained r @ [a]\<rparr>
             else
               (case sha256File os sha b d of (got, d1) \<Rightarrow>
                  if got \<noteq> h then r\<lparr>rb_disk := d1, rb_ok := False, rb_retained := rb_retained r @ [a]\<rparr>
                  else r\<lparr>rb_disk := d1\<rparr>))
      | URestoreFile snapshot target h \<Rightarrow>
          (if target \<in> set (rb_retained r) then r\<lparr>rb_ok := False\<rparr>
           else
             (case copyFile os snapshot target (rb_disk r) of (copied, d) \<Rightarrow>
                if \<not> copied then r\<lparr>rb_disk := d, rb_ok := False\<rparr>
                else
                  (case sha256File os sha target d of (got, d1) \<Rightarrow>
                     if got \<noteq> h then r\<lparr>rb_disk := d1, rb_ok := False\<rparr>
                     else r\<lparr>rb_disk := snd (deleteFile os snapshot d1)\<rparr>))))"

section \<open>The whole plan\<close>

datatype ApplyError = PlanBlocked | NotThere string | NotTheFile string | CouldNotFinish nat string bool

record ApplyResult =
  ar_ok :: bool
  ar_rolledBack :: bool
  ar_overwrote :: bool
  ar_done :: "DoneLine list"
  ar_error :: "ApplyError option"

definition refused :: "ApplyError \<Rightarrow> ApplyResult" where
  "refused e = \<lparr>ar_ok = False, ar_rolledBack = False, ar_overwrote = False, ar_done = [], ar_error = Some e\<rparr>"

text \<open>The folder still has to be the one the plan was made for.\<close>

fun preflight :: "Os \<Rightarrow> (string \<Rightarrow> string) \<Rightarrow> Step list \<Rightarrow> Disk \<Rightarrow> ApplyError option \<times> Disk" where
  "preflight os sha [] d = (None, d)"
| "preflight os sha (st # sts) d =
     (if sp_from st = [] then preflight os sha sts d
      else if \<not> fileExists (sp_from st) d \<and> (sp_required st \<or> sp_expectSha st \<noteq> [])
      then (Some (NotThere (leafOf (sp_from st))), d)
      else if fileExists (sp_from st) d \<and> sp_expectSha st \<noteq> [] then
        (case sha256File os sha (sp_from st) d of (got, d1) \<Rightarrow>
           if got \<noteq> sp_expectSha st then (Some (NotTheFile (leafOf (sp_from st))), d1) else preflight os sha sts d1)
      else preflight os sha sts d)"

definition dropSnapshot :: "Os \<Rightarrow> Undo \<Rightarrow> Disk \<Rightarrow> Disk" where
  "dropSnapshot os u d = (case u of URestoreFile snapshot _ _ \<Rightarrow> snd (deleteFile os snapshot d) | _ \<Rightarrow> d)"

text \<open>The end of a run: the snapshots are dropped, or everything is walked back, newest first.\<close>

definition afterRollback :: "Applying \<Rightarrow> string \<Rightarrow> nat \<Rightarrow> Rollback \<Rightarrow> ApplyResult \<times> Disk" where
  "afterRollback a what err r =
     (\<lparr>ar_ok = False, ar_rolledBack = rb_ok r, ar_overwrote = ap_overwrote a, ar_done = ap_done a,
       ar_error = Some (CouldNotFinish err what (\<not> rb_ok r))\<rparr>, rb_disk r)"

definition concludeRun :: "Os \<Rightarrow> (string \<Rightarrow> string) \<Rightarrow> Applying \<Rightarrow> ApplyResult \<times> Disk" where
  "concludeRun os sha a =
     (case ap_failed a of
        None \<Rightarrow>
          (\<lparr>ar_ok = True, ar_rolledBack = False, ar_overwrote = False, ar_done = ap_done a, ar_error = None\<rparr>,
           fold (dropSnapshot os) (rev (ap_undo a)) (ap_disk a))
      | Some (what, err) \<Rightarrow>
          afterRollback a what err
            (fold (rollbackOne os sha) (ap_undo a) \<lparr>rb_disk = ap_disk a, rb_ok = True, rb_retained = []\<rparr>))"

definition startRun :: "Disk \<Rightarrow> Applying" where
  "startRun d = \<lparr>ap_disk = d, ap_undo = [], ap_overwrote = False, ap_done = [], ap_failed = None\<rparr>"

fun proceed :: "Os \<Rightarrow> (string \<Rightarrow> string) \<Rightarrow> Provider \<Rightarrow> Plan \<Rightarrow> ApplyError option \<times> Disk \<Rightarrow> ApplyResult \<times> Disk" where
  "proceed os sha payload plan (Some e, d) = (refused e, d)"
| "proceed os sha payload plan (None, d) =
     concludeRun os sha (fold (applyStep os sha payload (pl_backupDir plan)) (pl_steps plan) (startRun d))"

definition applyPlan :: "Os \<Rightarrow> (string \<Rightarrow> string) \<Rightarrow> Provider \<Rightarrow> Plan \<Rightarrow> Disk \<Rightarrow> ApplyResult \<times> Disk" where
  "applyPlan os sha payload plan d0 =
     (if pl_blocked plan then (refused PlanBlocked, d0)
      else proceed os sha payload plan (preflight os sha (pl_steps plan) d0))"

end
