(* ===== verification/InstallCopies.thy ===== *)
theory InstallCopies
  imports InstallApply "HOL-Library.Sublist"
begin

text \<open>
  What the planner of an install guarantees about the files it finds: each is copied into the backup folder
  before a step replaces, moves or removes it, and no two copies share a name.
\<close>

section \<open>Nothing is replaced without a copy\<close>

text \<open>The files a step replaces, moves away or removes.\<close>

definition destroys :: "Step \<Rightarrow> string list" where
  "destroys st =
     (case sp_action st of
        MakeDir \<Rightarrow> [] | Backup \<Rightarrow> [sp_to st] | Rename \<Rightarrow> [sp_from st, sp_to st] | WritePayload \<Rightarrow> [sp_to st]
      | WriteText \<Rightarrow> [sp_to st] | Delete \<Rightarrow> [sp_from st])"

definition copies :: "Step \<Rightarrow> string list" where
  "copies st = (if sp_action st = Backup then [sp_from st] else [])"

fun copiedFirst :: "string list \<Rightarrow> string list \<Rightarrow> Step list \<Rightarrow> bool" where
  "copiedFirst here copied [] \<longleftrightarrow> True"
| "copiedFirst here copied (st # sts) \<longleftrightarrow>
     list_all (\<lambda>p. p \<in> set here \<longrightarrow> p \<in> set copied) (destroys st) \<and> copiedFirst here (copies st @ copied) sts"

lemma copiedFirst_append:
  "copiedFirst here copied (xs @ ys) \<longleftrightarrow>
     copiedFirst here copied xs \<and> copiedFirst here (concat (map copies (rev xs)) @ copied) ys"
  by (induction xs arbitrary: copied) auto

lemma copiedFirst_cong: "set here = set here' \<Longrightarrow> set copied = set copied' \<Longrightarrow> copiedFirst here copied xs = copiedFirst here' copied' xs"
  by (induction xs arbitrary: copied copied') (simp_all, metis set_append)

text \<open>What the survey found on the disk, by path.\<close>

definition present :: "DllInfo \<Rightarrow> string \<Rightarrow> string list" where
  "present d path = (if di_kind d = Absent then [] else [path])"

definition parked :: "Survey \<Rightarrow> bool" where
  "parked s \<longleftrightarrow>
     (case siblingNamed (sv_otherD3d11 s) (chainNameFor (sv_d3d11 s)) of None \<Rightarrow> False | Some d \<Rightarrow> di_kind d \<noteq> Absent)"

definition foundFiles :: "Survey \<Rightarrow> string list" where
  "foundFiles s =
     present (sv_d3d11 s) (joinPath (sv_gameDir s) kD3d11) @
     (if parked s then [joinPath (sv_gameDir s) (chainNameFor (sv_d3d11 s))] else []) @
     present (sv_ngx s) (joinPath (sv_gameDir s) kNgx) @
     present (sv_openvrCurrent s) (joinPath (nativeDirOf s) kOpenvr) @
     present (sv_openvrOrig s) (joinPath (nativeDirOf s) (originalNameOf s)) @
     present (sv_openxrLoader s) (joinPath (nativeDirOf s) ''openxr_loader.dll'') @
     present (sv_openxrLicense s) (joinPath (nativeDirOf s) ''OPENXR-LOADER-LICENSE.txt'') @
     present (sv_nativeConfig s) (joinPath (nativeDirOf s) ''edvr_openxr.ini'') @
     (if sv_iniPresent s then [joinPath (sv_gameDir s) kIni] else [])"

definition plainLeaf :: "string \<Rightarrow> bool" where
  "plainLeaf l \<longleftrightarrow> l \<noteq> [] \<and> list_all (\<lambda>c. \<not> isSlash c) l"

lemma joinPath_leaf: "joinPath d l = joinPath d' l' \<Longrightarrow> plainLeaf l \<Longrightarrow> plainLeaf l' \<Longrightarrow> l = l'"
  by (metis leafOf_joinPath plainLeaf_def)

definition chainLeaves :: "string list" where
  "chainLeaves = [''d3d11_reshade.dll'', ''d3d11_edhm.dll'', ''d3d11_dxvk.dll'', ''d3d11_specialk.dll'', ''d3d11_other.dll'']"

definition fixedLeaves :: "string list" where
  "fixedLeaves = [kD3d11, kNgx, kOpenvr, kOpenvrOrig, ''openxr_loader.dll'', ''OPENXR-LOADER-LICENSE.txt'', ''edvr_openxr.ini'',
     kIni, ''edvr.ini.base'', ''state.ini'']"

lemma leaves_plain: "list_all plainLeaf (chainLeaves @ fixedLeaves)"
  by code_simp

lemma leaves_distinct: "distinct (chainLeaves @ fixedLeaves)"
  by code_simp

lemma chainNameFor_leaf: "chainNameFor d \<in> set chainLeaves"
  by (simp add: chainNameFor_def chainLeaves_def Let_def)

lemma fixed_plain:
  "plainLeaf kD3d11" "plainLeaf kNgx" "plainLeaf kOpenvr" "plainLeaf kOpenvrOrig" "plainLeaf ''openxr_loader.dll''"
  "plainLeaf ''OPENXR-LOADER-LICENSE.txt''" "plainLeaf ''edvr_openxr.ini''" "plainLeaf kIni" "plainLeaf ''edvr.ini.base''"
  "plainLeaf ''state.ini''" "plainLeaf (chainNameFor d)"
  using leaves_plain chainNameFor_leaf [of d] by (auto simp: fixedLeaves_def list_all_iff)

lemma chain_apart:
  "chainNameFor d \<noteq> kD3d11" "chainNameFor d \<noteq> kNgx" "chainNameFor d \<noteq> kOpenvr" "chainNameFor d \<noteq> kOpenvrOrig"
  "chainNameFor d \<noteq> ''openxr_loader.dll''" "chainNameFor d \<noteq> ''OPENXR-LOADER-LICENSE.txt''" "chainNameFor d \<noteq> ''edvr_openxr.ini''"
  "chainNameFor d \<noteq> kIni" "chainNameFor d \<noteq> ''edvr.ini.base''" "chainNameFor d \<noteq> ''state.ini''"
  by (simp_all add: chainNameFor_def Let_def)

lemma leafOf_fixed [simp]: "plainLeaf l \<Longrightarrow> leafOf (joinPath d l) = l"
  by (simp add: plainLeaf_def leafOf_joinPath)

lemma joinPath_eq: "plainLeaf l \<Longrightarrow> plainLeaf l' \<Longrightarrow> l \<noteq> l' \<Longrightarrow> joinPath d l \<noteq> joinPath d' l'"
  using joinPath_leaf by blast

text \<open>A path the installer writes was found on the disk only as the file it stands for.\<close>

lemma found_is:
  assumes "originalNameOf s = kOpenvrOrig"
  shows "joinPath d kD3d11 \<in> set (foundFiles s) \<Longrightarrow> di_kind (sv_d3d11 s) \<noteq> Absent"
    and "joinPath d kNgx \<in> set (foundFiles s) \<Longrightarrow> di_kind (sv_ngx s) \<noteq> Absent"
    and "joinPath d kOpenvr \<in> set (foundFiles s) \<Longrightarrow> di_kind (sv_openvrCurrent s) \<noteq> Absent"
    and "joinPath d kOpenvrOrig \<in> set (foundFiles s) \<Longrightarrow> di_kind (sv_openvrOrig s) \<noteq> Absent"
    and "joinPath d ''openxr_loader.dll'' \<in> set (foundFiles s) \<Longrightarrow> di_kind (sv_openxrLoader s) \<noteq> Absent"
    and "joinPath d ''OPENXR-LOADER-LICENSE.txt'' \<in> set (foundFiles s) \<Longrightarrow> di_kind (sv_openxrLicense s) \<noteq> Absent"
    and "joinPath d ''edvr_openxr.ini'' \<in> set (foundFiles s) \<Longrightarrow> di_kind (sv_nativeConfig s) \<noteq> Absent"
    and "joinPath d kIni \<in> set (foundFiles s) \<Longrightarrow> sv_iniPresent s"
    and "joinPath d ''edvr.ini.base'' \<notin> set (foundFiles s)"
    and "joinPath d ''state.ini'' \<notin> set (foundFiles s)"
    and "joinPath d (chainNameFor (sv_d3d11 s)) \<in> set (foundFiles s) \<Longrightarrow> parked s"
  unfolding foundFiles_def assms
  by (auto simp: present_def fixed_plain chain_apart chain_apart [symmetric] joinPath_eq split: if_splits)

definition backed :: "PlanBuild \<Rightarrow> string set" where
  "backed b = set (concat (map copies (pb_body b)))"

definition covered :: "string list \<Rightarrow> PlanBuild \<Rightarrow> bool" where
  "covered here b \<longleftrightarrow> copiedFirst here [] (pb_body b)"

lemmas build_defs = addNote_def addProblem_def noteD3d11_def noteNgx_def
lemmas add_defs = addBackup_def addGuardedBackup_def addRename_def addWritePayload_def addWriteText_def addRemove_def
  addRestore_def
lemmas step_defs = destroys_def copies_def noStep_def

lemma covered_add [simp]:
  "covered here (addBackup bdir path b) \<longleftrightarrow>
     covered here b \<and> (joinPath bdir (leafOf path) \<in> set here \<longrightarrow> joinPath bdir (leafOf path) \<in> backed b)"
  "covered here (addGuardedBackup bdir path sha b) \<longleftrightarrow>
     covered here b \<and> (joinPath bdir (leafOf path) \<in> set here \<longrightarrow> joinPath bdir (leafOf path) \<in> backed b)"
  "covered here (addRename from to' sha b) \<longleftrightarrow>
     covered here b \<and> (from \<in> set here \<longrightarrow> from \<in> backed b) \<and> (to' \<in> set here \<longrightarrow> to' \<in> backed b)"
  "covered here (addWritePayload item to' b) \<longleftrightarrow> covered here b \<and> (to' \<in> set here \<longrightarrow> to' \<in> backed b)"
  "covered here (addWriteText txt to' b) \<longleftrightarrow> covered here b \<and> (to' \<in> set here \<longrightarrow> to' \<in> backed b)"
  by (auto simp: covered_def backed_def copiedFirst_append step_defs add_defs)

lemma backed_add [simp]:
  "backed (addBackup bdir path b) = insert path (backed b)"
  "backed (addGuardedBackup bdir path sha b) = insert path (backed b)"
  "backed (addRename from to' sha b) = backed b"
  "backed (addWritePayload item to' b) = backed b"
  "backed (addWriteText txt to' b) = backed b"
  by (simp_all add: backed_def step_defs add_defs)

lemma covered_same [simp]:
  "covered here (addNote n b) = covered here b" "covered here (addProblem q b) = covered here b"
  "covered here (noteD3d11 p b) = covered here b" "covered here (noteNgx i h b) = covered here b"
  "covered here (b\<lparr>pb_next := x\<rparr>) = covered here b" "covered here (b\<lparr>pb_forced := y\<rparr>) = covered here b"
  "covered here (b\<lparr>pb_merge := m\<rparr>) = covered here b" "covered here (b\<lparr>pb_changed := c\<rparr>) = covered here b"
  by (simp_all add: covered_def build_defs)

lemma backed_same [simp]:
  "backed (addNote n b) = backed b" "backed (addProblem q b) = backed b"
  "backed (noteD3d11 p b) = backed b" "backed (noteNgx i h b) = backed b"
  "backed (b\<lparr>pb_next := x\<rparr>) = backed b" "backed (b\<lparr>pb_forced := y\<rparr>) = backed b"
  "backed (b\<lparr>pb_merge := m\<rparr>) = backed b" "backed (b\<lparr>pb_changed := c\<rparr>) = backed b"
  by (simp_all add: backed_def build_defs)

lemma parkExisting_covered:
  assumes "covered here b" "\<And>leaf. joinPath bdir leaf \<notin> set here"
  shows "covered here (parkExisting bdir s b) \<and>
    backed (parkExisting bdir s b) = (if parked s then insert (joinPath (sv_gameDir s) (chainNameFor (sv_d3d11 s))) (backed b) else backed b)"
  using assms by (auto simp: parkExisting_def parked_def Let_def split: option.splits)

lemma noteChainMoved_body [simp]: "pb_body (noteChainMoved s b) = pb_body b"
  by (auto simp: noteChainMoved_def addProblem_def Let_def split: option.splits)

lemma noteChainMoved_covered [simp]: "covered here (noteChainMoved s b) = covered here b"
  by (simp add: covered_def)

lemma planD3d11_covered:
  assumes "covered (foundFiles s) b" "\<And>leaf. joinPath bdir leaf \<notin> set (foundFiles s)" "originalNameOf s = kOpenvrOrig"
  shows "covered (foundFiles s) (planD3d11 bdir s o' p b)"
proof -
  note found = found_is(1,11) [OF assms(3), of "sv_gameDir s"]
  note park = parkExisting_covered [OF assms(1,2), of s]
  show ?thesis using assms(1,2) found park by (auto simp: planD3d11_def takeSlot_def Let_def)
qed

lemma planChain_covered [simp]: "covered here (planChain s b) = covered here b"
  by (simp add: planChain_def Let_def)

lemma planNgx_covered:
  assumes "covered (foundFiles s) b" "\<And>leaf. joinPath bdir leaf \<notin> set (foundFiles s)" "originalNameOf s = kOpenvrOrig"
  shows "covered (foundFiles s) (planNgx bdir s o' p b)"
  using assms(1,2) found_is(2) [OF assms(3), of "sv_gameDir s"] by (auto simp: planNgx_def Let_def)

lemma keepOriginal_covered:
  assumes "covered (foundFiles s) b" "\<And>leaf. joinPath bdir leaf \<notin> set (foundFiles s)" "originalNameOf s = kOpenvrOrig"
    "joinPath (nativeDirOf s) kOpenvr \<in> backed b"
  shows "covered (foundFiles s) (keepOriginal bdir s b) \<and> joinPath (nativeDirOf s) kOpenvr \<in> backed (keepOriginal bdir s b)"
  using assms found_is(4) [OF assms(3), of "nativeDirOf s"] by (auto simp: keepOriginal_def Let_def)

lemma planRuntime_covered:
  assumes "covered (foundFiles s) b" "\<And>leaf. joinPath bdir leaf \<notin> set (foundFiles s)" "originalNameOf s = kOpenvrOrig"
  shows "covered (foundFiles s) (planRuntime bdir s o' p b)"
proof -
  let ?b = "b\<lparr>pb_next := (pb_next b)\<lparr>st_openvrOrigName := originalNameOf s,
    st_openvrOrigSha := (if di_kind (sv_openvrOrig s) = OpenVrRuntime then di_sha256 (sv_openvrOrig s) else [])\<rparr>\<rparr>"
  have "covered (foundFiles s) (addGuardedBackup bdir (joinPath (nativeDirOf s) kOpenvr) (di_sha256 (sv_openvrCurrent s)) ?b)"
    using assms(1,2) by simp
  note k = keepOriginal_covered [OF this assms(2,3)]
  show ?thesis
    using assms(1) k found_is(3) [OF assms(3), of "nativeDirOf s"] by (auto simp: planRuntime_def Let_def)
qed

lemma planAsset_covered:
  assumes "covered here b" "\<And>leaf. joinPath bdir leaf \<notin> set here"
    "joinPath (nativeDirOf s) name \<in> set here \<Longrightarrow> di_kind cur \<noteq> Absent"
  shows "covered here (planAsset bdir s o' cur name item wanted b)"
  using assms by (auto simp: planAsset_def Let_def)

lemma planNative_covered:
  assumes "covered (foundFiles s) b" "\<And>leaf. joinPath bdir leaf \<notin> set (foundFiles s)" "originalNameOf s = kOpenvrOrig"
  shows "covered (foundFiles s) (planNative sha bdir s o' p b)"
  using assms(1,2) found_is(5,6,7) [OF assms(3), of "nativeDirOf s"] planAsset_covered [of "foundFiles s" _ bdir s]
  by (auto simp: planNative_def Let_def)

lemma planIni_covered:
  assumes "covered (foundFiles s) b" "\<And>leaf. joinPath bdir leaf \<notin> set (foundFiles s)" "originalNameOf s = kOpenvrOrig"
  shows "covered (foundFiles s) (planIni sha bdir s o' p b)"
  using assms(1,2) found_is(8) [OF assms(3), of "sv_gameDir s"]
  by (auto simp: planIni_def mergeSettings_def Let_def split: prod.splits if_splits)


section \<open>No two copies share a name\<close>

definition isBackup :: "Step \<Rightarrow> bool" where
  "isBackup st \<longleftrightarrow> sp_action st = Backup"

definition copyLeaves :: "PlanBuild \<Rightarrow> string list" where
  "copyLeaves b = map (\<lambda>st. leafOf (sp_from st)) (filter isBackup (pb_body b))"

lemma copyLeaves_add [simp]:
  "copyLeaves (addBackup bdir path b) = copyLeaves b @ [leafOf path]"
  "copyLeaves (addGuardedBackup bdir path sha b) = copyLeaves b @ [leafOf path]"
  "copyLeaves (addRename from to' sha b) = copyLeaves b"
  "copyLeaves (addWritePayload item to' b) = copyLeaves b"
  "copyLeaves (addWriteText txt to' b) = copyLeaves b"
  by (simp_all add: copyLeaves_def isBackup_def step_defs add_defs)

lemma copyLeaves_same [simp]:
  "copyLeaves (addNote n b) = copyLeaves b" "copyLeaves (addProblem q b) = copyLeaves b"
  "copyLeaves (noteD3d11 p b) = copyLeaves b" "copyLeaves (noteNgx i h b) = copyLeaves b"
  "copyLeaves (b\<lparr>pb_next := x\<rparr>) = copyLeaves b" "copyLeaves (b\<lparr>pb_forced := y\<rparr>) = copyLeaves b"
  "copyLeaves (b\<lparr>pb_merge := m\<rparr>) = copyLeaves b" "copyLeaves (b\<lparr>pb_changed := c\<rparr>) = copyLeaves b"
  "copyLeaves (noteChainMoved s b) = copyLeaves b" "copyLeaves (planChain s b) = copyLeaves b"
  by (simp_all add: copyLeaves_def build_defs planChain_def Let_def)

lemma subseq_tail: "subseq xs ys \<Longrightarrow> subseq (zs @ xs) (zs @ ys)"
  by (rule list_emb_append_mono) simp_all

lemma planD3d11_leaves:
  "subseq (copyLeaves (planD3d11 bdir s o' p b)) (copyLeaves b @ [chainNameFor (sv_d3d11 s), kD3d11])"
proof -
  have "copyLeaves (parkExisting bdir s b) = copyLeaves b @ (if parked s then [chainNameFor (sv_d3d11 s)] else [])"
    by (auto simp: parkExisting_def parked_def Let_def fixed_plain split: option.splits)
  then have "copyLeaves (planD3d11 bdir s o' p b) \<in>
      (@) (copyLeaves b) ` {[], [kD3d11], [chainNameFor (sv_d3d11 s), kD3d11]}"
    by (auto simp: planD3d11_def takeSlot_def Let_def fixed_plain)
  then show ?thesis by (auto intro!: subseq_tail)
qed

lemma planNgx_leaves: "subseq (copyLeaves (planNgx bdir s o' p b)) (copyLeaves b @ [kNgx])"
  by (auto simp: planNgx_def Let_def fixed_plain)

lemma planRuntime_leaves:
  assumes "originalNameOf s = kOpenvrOrig"
  shows "subseq (copyLeaves (planRuntime bdir s o' p b)) (copyLeaves b @ [kOpenvr, kOpenvrOrig])"
proof -
  have "copyLeaves (keepOriginal bdir s x) \<in> (@) (copyLeaves x) ` {[], [kOpenvrOrig]}" for x
    by (auto simp: keepOriginal_def Let_def fixed_plain assms)
  note keep = this
  define x where "x = addGuardedBackup bdir (joinPath (nativeDirOf s) kOpenvr) (di_sha256 (sv_openvrCurrent s))
    (b\<lparr>pb_next := (pb_next b)\<lparr>st_openvrOrigName := originalNameOf s,
       st_openvrOrigSha := (if di_kind (sv_openvrOrig s) = OpenVrRuntime then di_sha256 (sv_openvrOrig s) else [])\<rparr>\<rparr>)"
  have x: "copyLeaves x = copyLeaves b @ [kOpenvr]" by (simp add: x_def fixed_plain)
  have r: "copyLeaves (planRuntime bdir s o' p b) \<in> {copyLeaves b, copyLeaves (keepOriginal bdir s x)}"
    unfolding planRuntime_def Let_def x_def [symmetric] by simp
  have "copyLeaves (planRuntime bdir s o' p b) \<in> (@) (copyLeaves b) ` {[], [kOpenvr], [kOpenvr, kOpenvrOrig]}"
    using r keep [of x] x by auto
  then show ?thesis by (auto intro!: subseq_tail)
qed

lemma planAsset_leaves:
  "plainLeaf name \<Longrightarrow> subseq (copyLeaves (planAsset bdir s o' cur name item wanted b)) (copyLeaves b @ [name])"
  by (auto simp: planAsset_def Let_def)

lemma planNative_leaves:
  "subseq (copyLeaves (planNative sha bdir s o' p b))
     (copyLeaves b @ [''openxr_loader.dll'', ''OPENXR-LOADER-LICENSE.txt'', ''edvr_openxr.ini''])"
proof -
  define b1 where "b1 = planAsset bdir s o' (sv_openxrLoader s) ''openxr_loader.dll'' ''openxr_loader'' (pi_openxrLoaderSha p) b"
  define b2 where "b2 = planAsset bdir s o' (sv_openxrLicense s) ''OPENXR-LOADER-LICENSE.txt'' ''openxr_license''
    (pi_openxrLicenseSha p) b1"
  have 1: "subseq (copyLeaves b1) (copyLeaves b @ [''openxr_loader.dll''])"
    unfolding b1_def by (rule planAsset_leaves) (rule fixed_plain)
  have 2: "subseq (copyLeaves b2) (copyLeaves b1 @ [''OPENXR-LOADER-LICENSE.txt''])"
    unfolding b2_def by (rule planAsset_leaves) (rule fixed_plain)
  have 3: "subseq (copyLeaves (planNative sha bdir s o' p b)) (copyLeaves b2 @ [''edvr_openxr.ini''])"
    by (auto simp: planNative_def Let_def b1_def [symmetric] b2_def [symmetric] fixed_plain)
  have "subseq (copyLeaves b2 @ [''edvr_openxr.ini'']) ((copyLeaves b1 @ [''OPENXR-LOADER-LICENSE.txt'']) @ [''edvr_openxr.ini''])"
    by (rule list_emb_append_mono [OF 2]) simp
  also have "subseq \<dots> (((copyLeaves b @ [''openxr_loader.dll'']) @ [''OPENXR-LOADER-LICENSE.txt'']) @ [''edvr_openxr.ini''])"
    using 1 by (intro list_emb_append_mono) simp_all
  finally show ?thesis using 3 subseq_order.trans by fastforce
qed

lemma planIni_leaves: "subseq (copyLeaves (planIni sha bdir s o' p b)) (copyLeaves b @ [kIni])"
proof -
  obtain merged b1 where m: "mergeSettings bdir s o' p b = (merged, b1)" by fastforce
  have "copyLeaves b1 \<in> {copyLeaves b, copyLeaves b @ [kIni]}"
    using m by (auto simp: mergeSettings_def Let_def fixed_plain split: prod.splits if_splits)
  then have "copyLeaves (planIni sha bdir s o' p b) \<in> {copyLeaves b, copyLeaves b @ [kIni]}"
    by (simp add: planIni_def m Let_def)
  then show ?thesis by auto
qed

definition allCopyLeaves :: "Survey \<Rightarrow> string list" where
  "allCopyLeaves s = [chainNameFor (sv_d3d11 s), kD3d11, kNgx, kOpenvr, kOpenvrOrig, ''openxr_loader.dll'',
     ''OPENXR-LOADER-LICENSE.txt'', ''edvr_openxr.ini'', kIni]"

lemma planBody_leaves:
  assumes "originalNameOf s = kOpenvrOrig"
  shows "subseq (copyLeaves (planBody sha s o' p)) (allCopyLeaves s)"
proof -
  let ?bd = "backupDirFor s o'"
  define b0 where "b0 = startBuild (nextStart s o' p) (sv_gameRunningElsewhere s)"
  have z: "copyLeaves b0 = []" by (simp add: copyLeaves_def b0_def startBuild_def)
  have step: "subseq ys (zs @ qs)" if "subseq ys (copyLeaves b @ qs)" "subseq (copyLeaves b) zs" for ys zs qs b
    using that(1) list_emb_append_mono [OF that(2), of qs qs] subseq_order.trans by fastforce
  define b1 where "b1 = planD3d11 ?bd s o' p b0"
  define b2 where "b2 = planNgx ?bd s o' p (planChain s b1)"
  define b3 where "b3 = planRuntime ?bd s o' p b2"
  define b4 where "b4 = planNative sha ?bd s o' p b3"
  have "subseq (copyLeaves b1) ([] @ [chainNameFor (sv_d3d11 s), kD3d11])"
    unfolding b1_def by (rule step [OF planD3d11_leaves]) (simp add: z)
  then have "subseq (copyLeaves b2) (([] @ [chainNameFor (sv_d3d11 s), kD3d11]) @ [kNgx])"
    unfolding b2_def by (intro step [OF planNgx_leaves]) simp
  then have "subseq (copyLeaves b3) ((([] @ [chainNameFor (sv_d3d11 s), kD3d11]) @ [kNgx]) @ [kOpenvr, kOpenvrOrig])"
    unfolding b3_def by (rule step [OF planRuntime_leaves [OF assms]])
  then have "subseq (copyLeaves b4) (((([] @ [chainNameFor (sv_d3d11 s), kD3d11]) @ [kNgx]) @ [kOpenvr, kOpenvrOrig]) @
      [''openxr_loader.dll'', ''OPENXR-LOADER-LICENSE.txt'', ''edvr_openxr.ini''])"
    unfolding b4_def by (rule step [OF planNative_leaves])
  then have "subseq (copyLeaves (planIni sha ?bd s o' p b4)) ((((([] @ [chainNameFor (sv_d3d11 s), kD3d11]) @ [kNgx]) @
      [kOpenvr, kOpenvrOrig]) @ [''openxr_loader.dll'', ''OPENXR-LOADER-LICENSE.txt'', ''edvr_openxr.ini'']) @ [kIni])"
    by (rule step [OF planIni_leaves])
  then show ?thesis
    by (simp add: planBody_def Let_def allCopyLeaves_def b4_def b3_def b2_def b1_def b0_def)
qed

lemma allCopyLeaves_distinct: "distinct (allCopyLeaves s)"
  using chain_apart [of "sv_d3d11 s"] by (simp add: allCopyLeaves_def)


section \<open>Where the steps of an install go\<close>

definition installTargets :: "Survey \<Rightarrow> string list" where
  "installTargets s =
     map (joinPath (sv_gameDir s)) [chainNameFor (sv_d3d11 s), kD3d11, kNgx, kIni] @
     map (joinPath (nativeDirOf s)) [kOpenvr, originalNameOf s, ''openxr_loader.dll'', ''OPENXR-LOADER-LICENSE.txt'', ''edvr_openxr.ini'']"

definition wellAimed :: "string \<Rightarrow> string list \<Rightarrow> Step \<Rightarrow> bool" where
  "wellAimed bdir targets st \<longleftrightarrow>
     (if isBackup st then sp_to st = joinPath bdir (leafOf (sp_from st)) else list_all (\<lambda>q. q \<in> set targets) (destroys st))"

definition aimed :: "string \<Rightarrow> Survey \<Rightarrow> PlanBuild \<Rightarrow> bool" where
  "aimed bdir s b \<longleftrightarrow> list_all (wellAimed bdir (installTargets s)) (pb_body b)"

lemma aimed_add [simp]:
  "aimed bdir s (addBackup bdir path b) = aimed bdir s b"
  "aimed bdir s (addGuardedBackup bdir path sha b) = aimed bdir s b"
  "aimed bdir s (addRename from to' sha b) \<longleftrightarrow>
     aimed bdir s b \<and> from \<in> set (installTargets s) \<and> to' \<in> set (installTargets s)"
  "aimed bdir s (addWritePayload item to' b) \<longleftrightarrow> aimed bdir s b \<and> to' \<in> set (installTargets s)"
  "aimed bdir s (addWriteText txt to' b) \<longleftrightarrow> aimed bdir s b \<and> to' \<in> set (installTargets s)"
  by (auto simp: aimed_def wellAimed_def isBackup_def step_defs add_defs)

lemma aimed_same [simp]:
  "aimed bdir s (addNote n b) = aimed bdir s b" "aimed bdir s (addProblem q b) = aimed bdir s b"
  "aimed bdir s (noteD3d11 p b) = aimed bdir s b" "aimed bdir s (noteNgx i h b) = aimed bdir s b"
  "aimed bdir s (b\<lparr>pb_next := x\<rparr>) = aimed bdir s b" "aimed bdir s (b\<lparr>pb_forced := y\<rparr>) = aimed bdir s b"
  "aimed bdir s (b\<lparr>pb_merge := m\<rparr>) = aimed bdir s b" "aimed bdir s (b\<lparr>pb_changed := c\<rparr>) = aimed bdir s b"
  "aimed bdir s (noteChainMoved s b) = aimed bdir s b" "aimed bdir s (planChain s b) = aimed bdir s b"
  by (simp_all add: aimed_def build_defs planChain_def Let_def)

lemma targets_members:
  "joinPath (sv_gameDir s) (chainNameFor (sv_d3d11 s)) \<in> set (installTargets s)"
  "joinPath (sv_gameDir s) kD3d11 \<in> set (installTargets s)" "joinPath (sv_gameDir s) kNgx \<in> set (installTargets s)"
  "joinPath (sv_gameDir s) kIni \<in> set (installTargets s)" "joinPath (nativeDirOf s) kOpenvr \<in> set (installTargets s)"
  "joinPath (nativeDirOf s) (originalNameOf s) \<in> set (installTargets s)"
  "joinPath (nativeDirOf s) ''openxr_loader.dll'' \<in> set (installTargets s)"
  "joinPath (nativeDirOf s) ''OPENXR-LOADER-LICENSE.txt'' \<in> set (installTargets s)"
  "joinPath (nativeDirOf s) ''edvr_openxr.ini'' \<in> set (installTargets s)"
  by (simp_all add: installTargets_def)

lemma parkExisting_aimed [simp]: "aimed bdir s (parkExisting bdir s b) = aimed bdir s b"
  by (auto simp: parkExisting_def Let_def split: option.splits)

lemma keepOriginal_aimed: "aimed bdir s b \<Longrightarrow> aimed bdir s (keepOriginal bdir s b)"
  by (simp add: keepOriginal_def Let_def targets_members)

lemma planAsset_aimed:
  "aimed bdir s b \<Longrightarrow> joinPath (nativeDirOf s) name \<in> set (installTargets s) \<Longrightarrow>
   aimed bdir s (planAsset bdir s o' cur name item wanted b)"
  by (simp add: planAsset_def Let_def)

lemma planBody_aimed: "aimed (backupDirFor s o') s (planBody sha s o' p)"
proof -
  let ?bd = "backupDirFor s o'"
  have z: "aimed ?bd s (startBuild n e)" for n e by (simp add: aimed_def startBuild_def)
  have d: "aimed ?bd s b \<Longrightarrow> aimed ?bd s (planD3d11 ?bd s o' p b)" for b
    by (simp add: planD3d11_def takeSlot_def Let_def targets_members)
  have g: "aimed ?bd s b \<Longrightarrow> aimed ?bd s (planNgx ?bd s o' p b)" for b
    by (simp add: planNgx_def Let_def targets_members)
  have r: "aimed ?bd s b \<Longrightarrow> aimed ?bd s (planRuntime ?bd s o' p b)" for b
    by (simp add: planRuntime_def Let_def targets_members keepOriginal_aimed)
  have n: "aimed ?bd s b \<Longrightarrow> aimed ?bd s (planNative sha ?bd s o' p b)" for b
    by (simp add: planNative_def Let_def targets_members planAsset_aimed)
  have m: "aimed ?bd s b \<Longrightarrow> aimed ?bd s (snd (mergeSettings ?bd s o' p b))" for b
    by (simp add: mergeSettings_def Let_def split: prod.splits)
  have i: "aimed ?bd s b \<Longrightarrow> aimed ?bd s (planIni sha ?bd s o' p b)" for b
    using m [of b] by (cases "mergeSettings ?bd s o' p b") (simp add: planIni_def Let_def targets_members)
  show ?thesis unfolding planBody_def Let_def by (intro i n r g d aimed_same(10) [THEN iffD2] z)
qed

section \<open>The whole plan\<close>

lemma originalName_surveyed: "sv_openvrOrigName s = kOpenvrOrig \<Longrightarrow> originalNameOf s = kOpenvrOrig"
proof -
  have "safeSiblingName kOpenvrOrig kOpenvr = kOpenvrOrig" by code_simp
  then show "sv_openvrOrigName s = kOpenvrOrig \<Longrightarrow> originalNameOf s = kOpenvrOrig"
    by (simp add: originalNameOf_def Let_def)
qed

text \<open>The backup folder is none of the folders the install writes to.\<close>

definition backupApart :: "Survey \<Rightarrow> Options \<Rightarrow> bool" where
  "backupApart s o' \<longleftrightarrow> (\<forall>leaf. joinPath (backupDirFor s o') leaf \<notin>
     set (foundFiles s @ installTargets s @ [baseIniPath (sv_gameDir s), statePath (sv_gameDir s)]))"

lemma recordPaths_not_found:
  assumes "originalNameOf s = kOpenvrOrig"
  shows "baseIniPath (sv_gameDir s) \<notin> set (foundFiles s)" "statePath (sv_gameDir s) \<notin> set (foundFiles s)"
  using found_is(9,10) [OF assms] by (simp_all add: baseIniPath_def statePath_def)

lemma planBody_covered:
  assumes "sv_openvrOrigName s = kOpenvrOrig" "backupApart s o'"
  shows "covered (foundFiles s) (planBody sha s o' p)"
proof -
  have o: "originalNameOf s = kOpenvrOrig" by (rule originalName_surveyed [OF assms(1)])
  have a: "joinPath (backupDirFor s o') leaf \<notin> set (foundFiles s)" for leaf using assms(2) by (simp add: backupApart_def)
  have z: "covered (foundFiles s) (startBuild n e)" for n e by (simp add: covered_def startBuild_def)
  show ?thesis
    unfolding planBody_def Let_def
    by (intro planIni_covered planNative_covered planRuntime_covered planNgx_covered planChain_covered [THEN iffD2]
        planD3d11_covered z a o)
qed

text \<open>The steps a plan consists of: folders, the body, and the two files of the record.\<close>

lemma installSteps_split:
  "\<exists>mk. list_all (\<lambda>st. sp_action st = MakeDir) mk \<and>
     installSteps s o' p b = mk @ pb_body b @ [mkDir (stateDirPath (sv_gameDir s)),
      noStep\<lparr>sp_action := WriteText, sp_text := pi_iniText p, sp_to := baseIniPath (sv_gameDir s)\<rparr>,
      noStep\<lparr>sp_action := WriteText, sp_text := serializeState (pb_next b), sp_to := statePath (sv_gameDir s)\<rparr>]"
  unfolding installSteps_def
  by (rule exI [of _ "(if pb_wantBackupDir b then [mkDir (backupDirFor s o')] else []) @ [mkDir (nativeDirOf s)]"])
    (simp add: mkDir_def noStep_def)

lemma copiedFirst_folders:
  "list_all (\<lambda>st. sp_action st = MakeDir) mk \<Longrightarrow> copiedFirst here copied (mk @ xs) = copiedFirst here copied xs"
  by (induction mk) (simp_all add: destroys_def copies_def)

lemma installSteps_covered:
  assumes "covered here b" "baseIniPath (sv_gameDir s) \<notin> set here" "statePath (sv_gameDir s) \<notin> set here"
  shows "copiedFirst here [] (installSteps s o' p b)"
proof -
  obtain mk where mk: "list_all (\<lambda>st. sp_action st = MakeDir) mk"
    and eq: "installSteps s o' p b = mk @ pb_body b @ [mkDir (stateDirPath (sv_gameDir s)),
      noStep\<lparr>sp_action := WriteText, sp_text := pi_iniText p, sp_to := baseIniPath (sv_gameDir s)\<rparr>,
      noStep\<lparr>sp_action := WriteText, sp_text := serializeState (pb_next b), sp_to := statePath (sv_gameDir s)\<rparr>]"
    using installSteps_split by blast
  show ?thesis
    unfolding eq copiedFirst_folders [OF mk] using assms by (simp add: copiedFirst_append covered_def step_defs mkDir_def)
qed

lemma copyNames_distinct:
  assumes "distinct (copyLeaves b)" "aimed bdir s b" "list_all plainLeaf (copyLeaves b)"
  shows "distinct (map sp_to (filter isBackup (pb_body b)))"
proof -
  have "map sp_to (filter isBackup (pb_body b)) = map (joinPath bdir) (copyLeaves b)"
    using assms(2) by (auto simp: copyLeaves_def aimed_def wellAimed_def list_all_iff)
  moreover have "inj_on (joinPath bdir) (set (copyLeaves b))"
    using assms(3) joinPath_leaf by (auto simp: inj_on_def list_all_iff)
  ultimately show ?thesis using assms(1) by (simp add: distinct_map)
qed

lemma planBody_names:
  assumes "sv_openvrOrigName s = kOpenvrOrig"
  shows "distinct (map sp_to (filter isBackup (pb_body (planBody sha s o' p))))"
proof -
  have sub: "subseq (copyLeaves (planBody sha s o' p)) (allCopyLeaves s)"
    by (rule planBody_leaves [OF originalName_surveyed [OF assms]])
  then have "distinct (copyLeaves (planBody sha s o' p))" using allCopyLeaves_distinct by (auto simp: subseq_conv_nths distinct_nthsI)
  moreover have "list_all plainLeaf (copyLeaves (planBody sha s o' p))"
  proof -
    have "set (copyLeaves (planBody sha s o' p)) \<subseteq> set (allCopyLeaves s)"
      using sub by (auto simp: subseq_conv_nths dest: in_set_nthsD)
    moreover have "list_all plainLeaf (allCopyLeaves s)" by (simp add: allCopyLeaves_def fixed_plain)
    ultimately show ?thesis by (auto simp: list_all_iff)
  qed
  ultimately show ?thesis by (rule copyNames_distinct [OF _ planBody_aimed])
qed

text \<open>
  C8: an install never replaces, moves or removes a file the survey found without an earlier step that copies it; every copy goes
  into the plan's backup folder under the file's own name, and no two copies in that folder have the same name. The
  backup folder is apart from the files found, and the original VR library has its usual name.
\<close>

theorem install_copies_first:
  assumes "sv_openvrOrigName s = kOpenvrOrig" "backupApart s o'" "plan = planInstall sha s o' p"
  shows "copiedFirst (foundFiles s) [] (pl_steps plan) \<and>
    list_all (\<lambda>st. sp_to st = joinPath (pl_backupDir plan) (leafOf (sp_from st))) (filter isBackup (pl_steps plan)) \<and>
    distinct (map sp_to (filter isBackup (pl_steps plan)))"
proof (cases "pl_steps plan = []")
  case False
  let ?b = "planBody sha s o' p"
  have steps: "pl_steps plan = installSteps s o' p ?b" "pl_backupDir plan = backupDirFor s o'"
    using False by (auto simp: assms(3) planInstall_def newPlan_def Let_def split: option.splits if_splits)
  have backups: "filter isBackup (installSteps s o' p ?b) = filter isBackup (pb_body ?b)"
    by (simp add: installSteps_def mkDir_def noStep_def isBackup_def)
  have "list_all (\<lambda>st. sp_to st = joinPath (backupDirFor s o') (leafOf (sp_from st))) (filter isBackup (pb_body ?b))"
    using planBody_aimed [of s o' sha p] by (auto simp: aimed_def wellAimed_def list_all_iff)
  then show ?thesis
    using backups planBody_names [OF assms(1), of sha o' p]
      installSteps_covered [OF planBody_covered [OF assms(1,2)] recordPaths_not_found [OF originalName_surveyed [OF assms(1)]]]
    by (simp add: steps)
qed simp

end
