(* ===== verification/RollbackProps.thy ===== *)
theory RollbackProps
  imports InstallApply
begin

text \<open>
  What carrying out a plan guarantees: a refused or rolled-back run leaves the files as they were, and a file is
  replaced whole or not at all.
\<close>

section \<open>Undo entries as assignments\<close>

text \<open>
  The disk after a failed run. The undo entries are read as assignments: what walking an entry back sets a
  path to, when it succeeds.
\<close>

definition setsTo :: "(string \<Rightarrow> string) \<Rightarrow> Undo \<Rightarrow> string \<Rightarrow> string option option" where
  "setsTo sha u p =
     (case u of
        URemoveDir _ \<Rightarrow> None
      | UDeleteFile a \<Rightarrow> if p = a then Some None else None
      | UMoveBack a b h \<Rightarrow> if p = b then Some (Some (inv sha h)) else if p = a then Some None else None
      | URestoreFile _ t h \<Rightarrow> if p = t then Some (Some (inv sha h)) else None)"

definition undone :: "(string \<Rightarrow> string) \<Rightarrow> Undo list \<Rightarrow> string \<Rightarrow> string option \<Rightarrow> string option" where
  "undone sha us p v = fold (\<lambda>u v. case setsTo sha u p of None \<Rightarrow> v | Some w \<Rightarrow> w) us v"

lemma undone_Cons: "undone sha (u # us) p v = undone sha us p (case setsTo sha u p of None \<Rightarrow> v | Some w \<Rightarrow> w)"
  by (simp add: undone_def)

lemma undone_const: "undone sha us p v = v \<or> undone sha us p w = undone sha us p v" for v w
proof (induction us arbitrary: v w)
  case (Cons u us)
  then show ?case by (cases "setsTo sha u p") (simp_all add: undone_Cons)
qed (simp add: undone_def)

text \<open>Paths the installer only uses for itself: temporaries beside a written file and snapshots.\<close>

definition tempName :: "Os \<Rightarrow> string \<Rightarrow> bool" where
  "tempName os p \<longleftrightarrow> (\<exists>n dir. os_temp os n dir = Some p)"

definition scratchPath :: "Os \<Rightarrow> Step list \<Rightarrow> string \<Rightarrow> bool" where
  "scratchPath os sts p \<longleftrightarrow> tempName os p \<or>
     (\<exists>st \<in> set sts. (sp_action st = WritePayload \<or> sp_action st = WriteText) \<and> p = tempOf (sp_to st))"

definition isSnapshot :: "Os \<Rightarrow> Undo \<Rightarrow> bool" where
  "isSnapshot os u \<longleftrightarrow> (case u of URestoreFile s _ _ \<Rightarrow> tempName os s | _ \<Rightarrow> True)"

lemmas disk_defs = called_def setFile_def fileExists_def

lemma called_files [simp]: "dk_files (called d) = dk_files d"
  by (simp add: called_def)

lemma setFile_files [simp]: "dk_files (setFile q c d) = (dk_files d)(q := c)"
  by (simp add: setFile_def)

lemma sha256File_files [simp]: "dk_files (snd (sha256File os sha q d)) = dk_files d"
  by (simp add: sha256File_def)

text \<open>A hash that is not empty is the hash of the file; a failed read gives the empty one.\<close>

lemma sha256File_read: "sha256File os sha q d = (h, d1) \<Longrightarrow> h \<noteq> [] \<Longrightarrow> \<exists>c. dk_files d q = Some c \<and> h = sha c"
  by (auto simp: sha256File_def split: option.splits if_splits)

lemma sha256File_disk: "sha256File os sha q d = (h, d1) \<Longrightarrow> dk_files d1 = dk_files d"
  by (auto simp: sha256File_def)

lemma copyFile_files: "p \<noteq> to' \<Longrightarrow> dk_files (snd (copyFile os from to' d)) p = dk_files d p"
  by (simp add: copyFile_def split: option.splits CopyOutcome.splits)

lemma deleteFile_files: "p \<noteq> q \<Longrightarrow> dk_files (snd (deleteFile os q d)) p = dk_files d p"
  by (simp add: deleteFile_def)

lemma moveFile_files: "p \<noteq> from \<Longrightarrow> p \<noteq> to' \<Longrightarrow> dk_files (snd (moveFile os from to' d)) p = dk_files d p"
  by (simp add: moveFile_def split: option.splits)

lemma writeLoop_files: "p \<noteq> temp \<Longrightarrow> dk_files (snd (writeLoop os temp sofar left d)) p = dk_files d p"
proof (induction os temp sofar left d rule: writeLoop.induct)
  case (1 os temp sofar left d)
  then show ?case by (subst writeLoop.simps) (simp add: Let_def deleteFile_files)
qed

lemma writeWholeFile_files: "p \<noteq> tempOf path \<Longrightarrow> p \<noteq> path \<Longrightarrow> dk_files (snd (writeWholeFile os path c d)) p = dk_files d p"
  using writeLoop_files [of p "tempOf path" os "[]" c "setFile (tempOf path) (Some []) (called d)"]
    moveFile_files [of p "tempOf path" path os] deleteFile_files [of p "tempOf path" os]
  by (auto simp: writeWholeFile_def Let_def split: prod.splits option.splits) (metis snd_conv)+

text \<open>A failed write leaves the target as it was.\<close>

lemma writeWholeFile_failed:
  assumes "fst (writeWholeFile os path c d) = Some e" "path \<noteq> tempOf path"
  shows "dk_files (snd (writeWholeFile os path c d)) path = dk_files d path"
proof -
  obtain r d1 where w: "writeLoop os (tempOf path) [] c (setFile (tempOf path) (Some []) (called d)) = (r, d1)" by fastforce
  have d1: "dk_files d1 path = dk_files d path"
    using writeLoop_files [OF assms(2), of os "[]" c "setFile (tempOf path) (Some []) (called d)"] assms(2) by (simp add: w)
  obtain moved d2 where m: "moveFile os (tempOf path) path d1 = (moved, d2)" by fastforce
  have "\<not> moved \<Longrightarrow> d2 = called d1" using m by (auto simp: moveFile_def split: option.splits if_splits)
  then show ?thesis
    using assms d1 by (auto simp: writeWholeFile_def Let_def w m deleteFile_files split: option.splits if_splits)
qed

lemma ensureDirTree_files: "dk_files (snd (snd (ensureDirTree os path undo d))) = dk_files d"
proof (induction os path undo d rule: ensureDirTree.induct)
  case (1 os path undo d)
  show ?case
    by (subst ensureDirTree.simps) (use 1 in \<open>auto simp: Let_def called_def split: prod.splits option.splits if_splits\<close>)
qed

lemma ensureDirTree_pushes: "\<exists>ds. fst (snd (ensureDirTree os path undo d)) = map URemoveDir ds @ undo"
proof (induction os path undo d rule: ensureDirTree.induct)
  case (1 os path undo d)
  show ?case
  proof (cases "path = [] \<or> dk_dirs d path")
    case True
    then show ?thesis by (subst ensureDirTree.simps) simp
  next
    case False
    obtain ok u1 d1 where r: "(case parentOf path of
        Some q \<Rightarrow> if length q > 2 then ensureDirTree os q undo d else (True, undo, d) | None \<Rightarrow> (True, undo, d)) = (ok, u1, d1)"
      by (rule prod_cases3)
    have "\<exists>ds. u1 = map URemoveDir ds @ undo"
    proof (cases "\<exists>q. parentOf path = Some q \<and> 2 < length q")
      case True
      then obtain q where q: "parentOf path = Some q" "2 < length q" by blast
      then show ?thesis using 1 [OF False q] r by simp
    next
      case False
      then have "u1 = undo" using r by (auto split: option.splits if_splits)
      then show ?thesis by (metis append_Nil list.map(1))
    qed
    then obtain ds where "u1 = map URemoveDir ds @ undo" by blast
    then have u: "URemoveDir path # u1 = map URemoveDir (path # ds) @ undo" "u1 = map URemoveDir ds @ undo" by simp_all
    have "fst (snd (ensureDirTree os path undo d)) \<in> {URemoveDir path # u1, u1}"
      using False by (subst ensureDirTree.simps) (simp add: r)
    with u show ?thesis by (metis insertE singletonD)
  qed
qed

lemma undone_dirs: "undone sha (map URemoveDir ds @ us) p v = undone sha us p v"
  by (induction ds) (simp_all add: undone_Cons setsTo_def)
lemma snapshotFile_files:
  assumes "\<not> tempName os p"
  shows "dk_files (snd (snapshotFile os sha source bdir d)) p = dk_files d p"
proof (cases "fileExists source d")
  case True
  define dir where "dir = (if bdir \<noteq> [] then bdir else case parentOf source of None \<Rightarrow> ''.'' | Some q \<Rightarrow> q)"
  obtain ok u d1 where e: "ensureDirTree os dir [] d = (ok, u, d1)" by (rule prod_cases3)
  have d1: "dk_files d1 = dk_files d" using ensureDirTree_files [of os dir "[]" d] by (simp add: e)
  show ?thesis
  proof (cases "os_temp os (dk_calls d1) dir")
    case None
    then show ?thesis using True by (simp add: snapshotFile_def dir_def [symmetric] e d1)
  next
    case (Some s)
    then have s: "p \<noteq> s" using assms by (auto simp: tempName_def)
    obtain c d3 where c: "copyFile os source s (setFile s (Some []) (called d1)) = (c, d3)" by fastforce
    have d3: "dk_files d3 p = dk_files d p"
      using copyFile_files [OF s, of os source "setFile s (Some []) (called d1)"] s by (simp add: c d1)
    then show ?thesis
      using True Some s by (simp add: snapshotFile_def dir_def [symmetric] e d1 c sha256File_def deleteFile_files)
  qed
qed (simp add: snapshotFile_def)

lemma snapshotFile_temp:
  "snapshotFile os sha source bdir d = (Inr s, d') \<Longrightarrow> fileExists source d \<Longrightarrow> tempName os s"
  by (auto simp: snapshotFile_def tempName_def Let_def split: if_splits prod.splits option.splits)

lemma snapshotFile_content:
  assumes "snapshotFile os sha source bdir d = (Inr s, d')" "fileExists source d" "\<not> tempName os source" "inj sha"
  shows "dk_files d' s = dk_files d source"
proof -
  define dir where "dir = (if bdir \<noteq> [] then bdir else case parentOf source of None \<Rightarrow> ''.'' | Some q \<Rightarrow> q)"
  obtain ok u d1 where e: "ensureDirTree os dir [] d = (ok, u, d1)" by (rule prod_cases3)
  have d1: "dk_files d1 = dk_files d" using ensureDirTree_files [of os dir "[]" d] by (simp add: e)
  obtain s' where s': "os_temp os (dk_calls d1) dir = Some s'"
    using assms(1,2) by (auto simp: snapshotFile_def dir_def [symmetric] e split: if_splits option.splits)
  then have ns: "source \<noteq> s'" using assms(3) by (auto simp: tempName_def)
  obtain c d3 where c: "copyFile os source s' (setFile s' (Some []) (called d1)) = (c, d3)" by fastforce
  have src: "dk_files d3 source = dk_files d source"
    using copyFile_files [OF ns, of os source "setFile s' (Some []) (called d1)"] ns by (simp add: c d1)
  obtain expected d4 where h1: "sha256File os sha source d3 = (expected, d4)" by fastforce
  obtain got d5 where h2: "sha256File os sha s' d4 = (got, d5)" by fastforce
  have copied: "s = s'" "d' = d5" "expected \<noteq> []" "got = expected"
    using assms(1,2) by (auto simp: snapshotFile_def dir_def [symmetric] e s' c h1 h2 split: if_splits)
  then have "dk_files d4 s' = dk_files d3 source"
    using sha256File_read [OF h1] sha256File_read [OF h2] sha256File_disk [OF h1] inj_eq [OF assms(4)] by auto
  then show ?thesis using copied src sha256File_disk [OF h2] by simp
qed

text \<open>
  Whether a path has an undo entry whose snapshot could not be hashed when it was taken. A move is only made once its source
  has been hashed.
\<close>

definition unhashed :: "string \<Rightarrow> Undo list \<Rightarrow> bool" where
  "unhashed p us \<longleftrightarrow> list_ex (\<lambda>u. case u of URestoreFile _ t h \<Rightarrow> t = p \<and> h = [] | _ \<Rightarrow> False) us"

definition moveHashed :: "Undo \<Rightarrow> bool" where
  "moveHashed u \<longleftrightarrow> (case u of UMoveBack _ _ h \<Rightarrow> h \<noteq> [] | _ \<Rightarrow> True)"

lemma unhashed_simps [simp]:
  "\<not> unhashed p []" "unhashed p (URemoveDir q # us) = unhashed p us" "unhashed p (UDeleteFile q # us) = unhashed p us"
  "unhashed p (UMoveBack x y h # us) = unhashed p us"
  "unhashed p (URestoreFile x t h # us) \<longleftrightarrow> t = p \<and> h = [] \<or> unhashed p us"
  by (simp_all add: unhashed_def)

lemma unhashed_dirs [simp]: "unhashed p (map URemoveDir ds @ us) = unhashed p us"
  by (induction ds) simp_all

text \<open>What is kept true of one path while steps run: walking back would give its first content, if its snapshots were hashed.\<close>

definition canRestore :: "Os \<Rightarrow> (string \<Rightarrow> string) \<Rightarrow> string \<Rightarrow> string option \<Rightarrow> Applying \<Rightarrow> bool" where
  "canRestore os sha p v0 a \<longleftrightarrow>
     (\<not> unhashed p (ap_undo a) \<longrightarrow> undone sha (ap_undo a) p (dk_files (ap_disk a) p) = v0) \<and>
     list_all (isSnapshot os) (ap_undo a) \<and> list_all moveHashed (ap_undo a)"

lemma canRestore_same:
  "ap_undo a1 = ap_undo a \<Longrightarrow> dk_files (ap_disk a1) p = dk_files (ap_disk a) p \<Longrightarrow> canRestore os sha p v0 a1 = canRestore os sha p v0 a"
  by (simp add: canRestore_def)

lemmas apply_defs = failStep_def onDisk_def pushUndo_def finished_def

lemma protect_keeps:
  assumes "canRestore os sha p v0 a" "\<not> tempName os p" "inj sha"
  shows "canRestore os sha p v0 (protectTarget os sha bdir target a)"
    and "dk_files (ap_disk (protectTarget os sha bdir target a)) p = dk_files (ap_disk a) p"
    and "ap_failed (protectTarget os sha bdir target a) = None \<Longrightarrow> p = target \<Longrightarrow> fileExists p (ap_disk a) \<Longrightarrow>
      \<not> unhashed p (ap_undo (protectTarget os sha bdir target a)) \<Longrightarrow> undone sha (ap_undo (protectTarget os sha bdir target a)) p v = v0"
proof -
  obtain r d where s: "snapshotFile os sha target bdir (ap_disk a) = (r, d)" by fastforce
  have d: "dk_files d p = dk_files (ap_disk a) p"
    using snapshotFile_files [OF assms(2), of sha target bdir "ap_disk a"] by (simp add: s)
  have keeps: "dk_files (ap_disk (protectTarget os sha bdir target a)) p = dk_files (ap_disk a) p"
    by (auto simp: protectTarget_def s d apply_defs sha256File_def split: sum.splits)
  show "dk_files (ap_disk (protectTarget os sha bdir target a)) p = dk_files (ap_disk a) p" by (rule keeps)
  show rest: "canRestore os sha p v0 (protectTarget os sha bdir target a)"
  proof (cases "\<exists>x. r = Inr x \<and> fileExists target (ap_disk a)")
    case True
    then obtain x where x: "r = Inr x" "fileExists target (ap_disk a)" by blast
    have "tempName os x" using snapshotFile_temp s x by blast
    then have "isSnapshot os (URestoreFile x target h)" for h by (simp add: isSnapshot_def)
    moreover have c: "p = target \<Longrightarrow> dk_files d x = dk_files (ap_disk a) p"
      using snapshotFile_content [OF s [unfolded x(1)] x(2)] assms(2,3) by blast
    moreover obtain h d1 where h: "sha256File os sha x d = (h, d1)" by fastforce
    moreover have "p = target \<Longrightarrow> h \<noteq> [] \<Longrightarrow> dk_files (ap_disk a) p = Some (inv sha h)"
      using sha256File_read [OF h] c inv_f_f [OF assms(3)] by auto
    ultimately show ?thesis
      using assms(1) x d sha256File_disk [OF h]
      by (auto simp: protectTarget_def s canRestore_def undone_Cons setsTo_def moveHashed_def apply_defs)
  next
    case False
    then show ?thesis
      using assms(1) d by (auto simp: protectTarget_def s canRestore_def apply_defs split: sum.splits)
  qed
  show "undone sha (ap_undo (protectTarget os sha bdir target a)) p v = v0"
    if "ap_failed (protectTarget os sha bdir target a) = None" "p = target" "fileExists p (ap_disk a)"
      "\<not> unhashed p (ap_undo (protectTarget os sha bdir target a))"
    using that rest by (auto simp: protectTarget_def s canRestore_def undone_Cons setsTo_def apply_defs split: sum.splits prod.splits)
qed

lemma dirs_keep:
  assumes "canRestore os sha p v0 a" "ensureDirTree os q (ap_undo a) (ap_disk a) = (ok, undo, d)"
  shows "canRestore os sha p v0 (a\<lparr>ap_undo := undo, ap_disk := d\<rparr>)"
proof -
  obtain ds where "undo = map URemoveDir ds @ ap_undo a"
    using ensureDirTree_pushes [of os q "ap_undo a" "ap_disk a"] assms(2) by auto
  moreover have "dk_files d = dk_files (ap_disk a)"
    using ensureDirTree_files [of os q "ap_undo a" "ap_disk a"] assms(2) by simp
  moreover have "list_all (isSnapshot os) (map URemoveDir ds)" "list_all moveHashed (map URemoveDir ds)"
    by (simp_all add: list_all_iff isSnapshot_def moveHashed_def)
  ultimately show ?thesis using assms(1) by (simp add: canRestore_def undone_dirs)
qed

lemma stepMakeDir_keeps: "canRestore os sha p v0 a \<Longrightarrow> canRestore os sha p v0 (stepMakeDir os st a)"
  using dirs_keep [of os sha p v0 a "sp_to st"]
  by (auto simp: stepMakeDir_def Let_def failStep_def canRestore_def split: prod.splits)

lemma stepBackup_keeps:
  assumes "canRestore os sha p v0 a0" "\<not> tempName os p" "inj sha"
    "p \<noteq> sp_to st \<or> v0 \<noteq> None"
  shows "canRestore os sha p v0 (stepBackup os sha bdir st a0)"
proof -
  define a where "a = (case parentOf (sp_to st) of None \<Rightarrow> a0
    | Some q \<Rightarrow> (case ensureDirTree os q (ap_undo a0) (ap_disk a0) of (_, undo, d) \<Rightarrow> a0\<lparr>ap_undo := undo, ap_disk := d\<rparr>))"
  have a: "canRestore os sha p v0 a"
    using assms(1) dirs_keep [OF assms(1)] by (auto simp: a_def split: option.splits prod.splits)
  define a1 where "a1 = protectTarget os sha bdir (sp_to st) a"
  note prot = protect_keeps [OF a assms(2,3), of bdir "sp_to st", folded a1_def]
  obtain copied d where c: "copyFile os (sp_from st) (sp_to st) (ap_disk a1) = (copied, d)" by fastforce
  have "canRestore os sha p v0 (onDisk d a1)" if ok: "ap_failed a1 = None"
  proof (cases "p = sp_to st")
    case False
    then show ?thesis
      using prot(1) copyFile_files [OF False, of os "sp_from st" "ap_disk a1"] c by (simp add: canRestore_def onDisk_def)
  next
    case True
    have "undone sha (ap_undo a1) p v = v0" if hashed: "\<not> unhashed p (ap_undo a1)" for v
    proof (cases "fileExists p (ap_disk a)")
      case True
      then show ?thesis using prot(3) ok \<open>p = sp_to st\<close> hashed by blast
    next
      case False
      then have "a1 = a" using \<open>p = sp_to st\<close> by (simp add: a1_def protectTarget_def)
      then have "undone sha (ap_undo a1) p None = v0" using prot(1) False hashed by (simp add: canRestore_def fileExists_def)
      then show ?thesis using undone_const [of sha "ap_undo a1" p None v] assms(4) True by auto
    qed
    then show ?thesis using prot(1) by (simp add: canRestore_def onDisk_def)
  qed
  then show ?thesis
    using a prot(1)
    by (cases "ap_failed a1") (auto simp: stepBackup_def a_def [symmetric] a1_def [symmetric] Let_def c canRestore_def apply_defs)
qed

lemma stepRename_keeps:
  assumes "canRestore os sha p v0 a" "\<not> tempName os p" "inj sha"
  shows "canRestore os sha p v0 (stepRename os sha bdir st a)"
proof -
  define a1 where "a1 = protectTarget os sha bdir (sp_to st) a"
  note prot = protect_keeps [OF assms, of bdir "sp_to st", folded a1_def]
  obtain h d1 where h: "sha256File os sha (sp_from st) (ap_disk a1) = (h, d1)" by fastforce
  obtain moved d2 where m: "moveFile os (sp_from st) (sp_to st) d1 = (moved, d2)" by fastforce
  have d1: "dk_files d1 = dk_files (ap_disk a1)" using sha256File_files h by (metis snd_conv)
  have stay: "\<not> moved \<Longrightarrow> dk_files d2 = dk_files d1" using m by (auto simp: moveFile_def split: option.splits if_splits)
  have "canRestore os sha p v0 (pushUndo (UMoveBack (sp_to st) (sp_from st) h) (onDisk d2 a1))"
    if ok: "ap_failed a1 = None" and mv: "moved" and hne: "h \<noteq> []"
  proof -
    obtain c where c: "dk_files (ap_disk a1) (sp_from st) = Some c"
      using m mv d1 by (auto simp: moveFile_def split: option.splits)
    then have hc: "inv sha h = c" using sha256File_read [OF h hne] inv_f_f [OF assms(3)] by auto
    have d2: "dk_files d2 = (dk_files (ap_disk a1))(sp_from st := None, sp_to st := Some c)"
      using m mv d1 c by (auto simp: moveFile_def split: if_splits)
    consider "p = sp_from st" | "p \<noteq> sp_from st" "p = sp_to st" | "p \<noteq> sp_from st" "p \<noteq> sp_to st" by blast
    then show ?thesis
    proof cases
      case 2
      have "undone sha (ap_undo a1) p None = v0" if hashed: "\<not> unhashed p (ap_undo a1)"
      proof (cases "fileExists p (ap_disk a)")
        case True
        then show ?thesis using prot(3) ok 2 hashed by blast
      next
        case False
        then show ?thesis using prot(1,2) hashed by (simp add: canRestore_def fileExists_def)
      qed
      then show ?thesis using prot(1) 2 hne by (simp add: canRestore_def undone_Cons setsTo_def isSnapshot_def moveHashed_def apply_defs)
    qed (use prot(1) c hc d2 hne in \<open>simp_all add: canRestore_def undone_Cons setsTo_def isSnapshot_def moveHashed_def apply_defs\<close>)
  qed
  then show ?thesis
    using assms(1) prot(1) d1 stay
    by (cases "ap_failed a1") (auto simp: stepRename_def a1_def [symmetric] Let_def h m canRestore_def apply_defs)
qed

lemma stepWrite_keeps:
  assumes "canRestore os sha p v0 a" "\<not> tempName os p" "inj sha" "p \<noteq> tempOf to'" "ap_failed a = None"
  shows "canRestore os sha p v0 (stepWrite os sha bdir to' content a)"
proof -
  define a1 where "a1 = (if fileExists to' (ap_disk a) then protectTarget os sha bdir to' a else a)"
  have a1: "canRestore os sha p v0 a1" "dk_files (ap_disk a1) p = dk_files (ap_disk a) p"
    using assms(1) protect_keeps(1,2) [OF assms(1-3), of bdir to'] by (auto simp: a1_def)
  obtain r d where w: "writeWholeFile os to' content (ap_disk a1) = (r, d)" by fastforce
  have other: "p \<noteq> to' \<Longrightarrow> dk_files d p = dk_files (ap_disk a1) p"
    using writeWholeFile_files [OF assms(4), of os content "ap_disk a1"] w by simp
  have failed: "r = Some e \<Longrightarrow> dk_files d p = dk_files (ap_disk a1) p" for e
    using other writeWholeFile_failed [of os to' content "ap_disk a1" e] w assms(4) by (cases "p = to'") auto
  have "undone sha (ap_undo a1) p v = v0"
    if "p = to'" "fileExists p (ap_disk a)" "ap_failed a1 = None" "\<not> unhashed p (ap_undo a1)" for v
    using that protect_keeps(3) [OF assms(1-3), of bdir to'] by (simp add: a1_def)
  then have old: "canRestore os sha p v0 (onDisk d a1)" if "ap_failed a1 = None" "fileExists to' (ap_disk a)"
    using that a1 other by (cases "p = to'") (auto simp: canRestore_def onDisk_def)
  have new: "canRestore os sha p v0 (pushUndo (UDeleteFile to') (onDisk d a1))" if "\<not> fileExists to' (ap_disk a)"
    using that a1 other
    by (cases "p = to'") (auto simp: canRestore_def undone_Cons setsTo_def isSnapshot_def moveHashed_def apply_defs fileExists_def)
  have eq: "stepWrite os sha bdir to' content a =
      (if ap_failed a1 \<noteq> None then a1
       else case r of
         Some err \<Rightarrow> failStep to' err (onDisk d a1)
       | None \<Rightarrow> finished (DoneWrote (leafOf to'))
           (if fileExists to' (ap_disk a) then (onDisk d a1)\<lparr>ap_overwrote := True\<rparr> else pushUndo (UDeleteFile to') (onDisk d a1)))"
    unfolding stepWrite_def Let_def a1_def [symmetric] w by (simp split: option.split)
  show ?thesis
    unfolding eq using a1 old new failed
    by (cases "ap_failed a1") (auto simp: canRestore_def apply_defs split: option.splits)
qed

lemma stepDelete_keeps:
  assumes "canRestore os sha p v0 a" "\<not> tempName os p" "inj sha"
  shows "canRestore os sha p v0 (stepDelete os sha bdir st a)"
proof -
  define a1 where "a1 = protectTarget os sha bdir (sp_from st) a"
  note prot = protect_keeps [OF assms, of bdir "sp_from st", folded a1_def]
  obtain deleted d where x: "deleteFile os (sp_from st) (ap_disk a1) = (deleted, d)" by fastforce
  have other: "p \<noteq> sp_from st \<Longrightarrow> dk_files d p = dk_files (ap_disk a1) p"
    using deleteFile_files [of p "sp_from st" os "ap_disk a1"] x by simp
  have "canRestore os sha p v0 (onDisk d a1)" if "ap_failed a1 = None" "fileExists (sp_from st) (ap_disk a)"
    using that prot other by (cases "p = sp_from st") (auto simp: canRestore_def onDisk_def)
  then show ?thesis
    using assms(1) prot(1)
    by (cases "ap_failed a1") (auto simp: stepDelete_def a1_def [symmetric] Let_def x canRestore_def apply_defs)
qed

definition restorable :: "Os \<Rightarrow> Step list \<Rightarrow> Disk \<Rightarrow> string \<Rightarrow> bool" where
  "restorable os sts d p \<longleftrightarrow> \<not> scratchPath os sts p \<and>
     (\<forall>st \<in> set sts. sp_action st = Backup \<longrightarrow> p \<noteq> sp_to st \<or> fileExists p d)"

lemma applyStep_keeps:
  assumes "canRestore os sha p (dk_files d0 p) a" "restorable os sts d0 p" "st \<in> set sts"
    "inj sha"
  shows "canRestore os sha p (dk_files d0 p) (applyStep os sha payload bdir st a)"
proof (cases "ap_failed a")
  case None
  have np: "\<not> tempName os p" using assms(2) by (simp add: restorable_def scratchPath_def)
  have tmp: "sp_action st = WritePayload \<or> sp_action st = WriteText \<Longrightarrow> p \<noteq> tempOf (sp_to st)"
    and bk: "sp_action st = Backup \<Longrightarrow> p \<noteq> sp_to st \<or> dk_files d0 p \<noteq> None"
    using assms(2,3) by (auto simp: restorable_def scratchPath_def fileExists_def)
  note k = assms(1) np assms(4)
  show ?thesis
  proof (cases "sp_action st")
    case WritePayload
    then show ?thesis
      using None k stepWrite_keeps [OF k _ None] tmp
      by (auto simp: applyStep_def failStep_def canRestore_def split: option.splits)
  next
    case WriteText
    then show ?thesis using None stepWrite_keeps [OF k _ None] tmp by (simp add: applyStep_def)
  next
    case Backup
    then show ?thesis using None stepBackup_keeps [OF k] bk by (simp add: applyStep_def)
  qed (use None k stepMakeDir_keeps stepRename_keeps stepDelete_keeps in \<open>simp_all add: applyStep_def\<close>)
qed (use assms(1) in \<open>simp add: applyStep_def\<close>)

lemma preflight_files: "dk_files (snd (preflight os sha sts d)) = dk_files d"
  by (induction os sha sts d rule: preflight.induct) (auto simp: sha256File_def)

text \<open>Walking one entry back, reported as good, sets the path to what the entry says.\<close>

lemma unhashed_Cons: "unhashed p (u # us) \<longleftrightarrow> unhashed p [u] \<or> unhashed p us"
  by (simp add: unhashed_def)

lemma rollbackOne_sets:
  assumes "rb_ok (rollbackOne os sha u r)" "isSnapshot os u" "moveHashed u" "\<not> unhashed p [u]" "\<not> tempName os p" "inj sha"
  shows "rb_ok r \<and> dk_files (rb_disk (rollbackOne os sha u r)) p =
    (case setsTo sha u p of None \<Rightarrow> dk_files (rb_disk r) p | Some w \<Rightarrow> w)"
proof (cases u)
  case (URemoveDir x1)
  then show ?thesis using assms(1) by (simp add: rollbackOne_def setsTo_def called_def)
next
  case (UDeleteFile q)
  then show ?thesis
    using assms(1) by (auto simp: rollbackOne_def setsTo_def fileExists_def deleteFile_def split: if_splits)
next
  case (UMoveBack x y h)
  obtain moved d where m: "moveFile os x y (rb_disk r) = (moved, d)" by fastforce
  obtain got d1 where g: "sha256File os sha y d = (got, d1)" by fastforce
  have ok: "moved" "got = h" "h \<noteq> []"
    using assms(1,3) UMoveBack m g by (auto simp: rollbackOne_def moveHashed_def split: if_splits)
  obtain c where c: "dk_files (rb_disk r) x = Some c" "dk_files d = (dk_files (rb_disk r))(x := None, y := Some c)"
    using m ok(1) by (auto simp: moveFile_def split: option.splits if_splits)
  then have "inv sha h = c" using ok sha256File_read [OF g] inv_f_f [OF assms(6)] by auto
  then show ?thesis
    using assms(1) UMoveBack m ok c g sha256File_disk [OF g]
    by (auto simp: rollbackOne_def setsTo_def split: if_splits)
next
  case (URestoreFile s t h)
  obtain copied d where m: "copyFile os s t (rb_disk r) = (copied, d)" by fastforce
  obtain got d1 where g: "sha256File os sha t d = (got, d1)" by fastforce
  have ok: "t \<notin> set (rb_retained r)" "copied" "got = h" "t = p \<longrightarrow> h \<noteq> []"
    using assms(1,4) URestoreFile m g by (auto simp: rollbackOne_def split: if_splits)
  obtain c where c: "dk_files d = (dk_files (rb_disk r))(t := Some c)"
    using m ok(2) by (auto simp: copyFile_def split: option.splits CopyOutcome.splits)
  then have ic: "t = p \<Longrightarrow> inv sha h = c" using ok(3,4) sha256File_read [OF g] inv_f_f [OF assms(6)] by auto
  have "p \<noteq> s" using assms(2,5) URestoreFile by (auto simp: isSnapshot_def)
  then show ?thesis
    using assms(1) URestoreFile m ok c ic g sha256File_disk [OF g] deleteFile_files [of p s os]
    by (auto simp: rollbackOne_def setsTo_def split: if_splits)
qed

lemma rollback_sets:
  assumes "rb_ok (fold (rollbackOne os sha) us r)" "list_all (isSnapshot os) us" "list_all moveHashed us" "\<not> unhashed p us"
    "\<not> tempName os p" "inj sha"
  shows "rb_ok r \<and> dk_files (rb_disk (fold (rollbackOne os sha) us r)) p = undone sha us p (dk_files (rb_disk r) p)"
  using assms(1-4)
proof (induction us arbitrary: r)
  case (Cons u us)
  have rest: "rb_ok (rollbackOne os sha u r)"
    "dk_files (rb_disk (fold (rollbackOne os sha) (u # us) r)) p = undone sha us p (dk_files (rb_disk (rollbackOne os sha u r)) p)"
    using Cons.IH [of "rollbackOne os sha u r"] Cons.prems by (simp_all add: unhashed_Cons [of p u us])
  then show ?case
    using rollbackOne_sets [OF rest(1) _ _ _ assms(5,6)] Cons.prems(2-4) by (simp add: undone_Cons unhashed_Cons [of p u us])
qed (simp add: undone_def)

text \<open>The state in which the steps of a plan leave off, with its undo entries.\<close>

definition runState :: "Os \<Rightarrow> (string \<Rightarrow> string) \<Rightarrow> Provider \<Rightarrow> Plan \<Rightarrow> Disk \<Rightarrow> Applying" where
  "runState os sha payload plan d =
     fold (applyStep os sha payload (pl_backupDir plan)) (pl_steps plan) (startRun (snd (preflight os sha (pl_steps plan) d)))"

text \<open>
  C3: a run that failed and reports itself rolled back left every restorable file as it was, whatever the plan, wherever Windows failed,
  and whatever a copy left behind: the path has its former content, or is absent as before, unless one of its own
  snapshots could not be read back when its hash was recorded. Restorable leaves out the installer's own temporaries and
  snapshots, and backup copies made where no file was; the hash is taken to be free of collisions.
\<close>

theorem failed_run_restores_files:
  assumes "applyPlan os sha payload plan d = (r, d')" "\<not> ar_ok r" "ar_rolledBack r"
    and "restorable os (pl_steps plan) d p" "inj sha"
  shows "dk_files d' p = dk_files d p \<or> unhashed p (ap_undo (runState os sha payload plan d))"
proof -
  obtain pre d1 where pre: "preflight os sha (pl_steps plan) d = (pre, d1)" by fastforce
  have d1: "dk_files d1 = dk_files d" using preflight_files [of os sha "pl_steps plan" d] by (simp add: pre)
  define a where "a = fold (applyStep os sha payload (pl_backupDir plan)) (pl_steps plan) (startRun d1)"
  have a: "runState os sha payload plan d = a" by (simp add: runState_def a_def pre)
  have start: "canRestore os sha p (dk_files d p) (startRun d1)" by (simp add: canRestore_def undone_def startRun_def d1)
  have inv: "canRestore os sha p (dk_files d p) a"
    unfolding a_def
    by (rule fold_invariant [where P = "canRestore os sha p (dk_files d p)"]) (use start applyStep_keeps assms(4,5) in blast)+
  have "\<not> pl_blocked plan \<and> pre = None \<and> ap_failed a \<noteq> None"
    using assms(1-3) by (cases pre) (auto simp: applyPlan_def concludeRun_def pre a_def [symmetric] refused_def split: option.splits if_splits prod.splits)
  then have d': "rb_ok (fold (rollbackOne os sha) (ap_undo a) \<lparr>rb_disk = ap_disk a, rb_ok = True, rb_retained = []\<rparr>)"
    "d' = rb_disk (fold (rollbackOne os sha) (ap_undo a) \<lparr>rb_disk = ap_disk a, rb_ok = True, rb_retained = []\<rparr>)"
    using assms(1,3) by (auto simp: applyPlan_def concludeRun_def afterRollback_def pre a_def [symmetric] split: option.splits)
  have "\<not> tempName os p" using assms(4) by (simp add: restorable_def scratchPath_def)
  then show ?thesis
    using rollback_sets [OF d'(1) _ _ _ _ assms(5)] inv d'(2) by (auto simp: canRestore_def a)
qed

section \<open>Writing, refusing\<close>

lemma tempOf_ne [simp]: "tempOf p \<noteq> p" "p \<noteq> tempOf p"
  by (simp_all add: tempOf_def)

lemma writeLoop_wrote:
  "fst (writeLoop os temp sofar left d) = None \<Longrightarrow> dk_files d temp = Some sofar \<Longrightarrow>
   dk_files (snd (writeLoop os temp sofar left d)) temp = Some (sofar @ left)"
proof (induction os temp sofar left d rule: writeLoop.induct)
  case (1 os temp sofar left d)
  show ?case
  proof (cases "left = []")
    case True
    then show ?thesis using 1 by (subst writeLoop.simps) simp
  next
    case False
    define n where "n = min (os_written os (dk_calls d)) (chunkOf left)"
    have ok: "\<not> (\<not> os_ok os (dk_calls d) \<or> n = 0)"
      using 1(2) False by (subst (asm) writeLoop.simps) (auto simp: Let_def n_def split: if_splits)
    have eq: "writeLoop os temp sofar left d =
        writeLoop os temp (sofar @ take n left) (drop n left) (setFile temp (Some (sofar @ take n left)) (called d))"
      using False ok by (subst writeLoop.simps) (simp add: Let_def n_def [symmetric])
    show ?thesis using 1(1) [OF False n_def ok] 1(2) unfolding eq by simp
  qed
qed

text \<open>
  Replacing a file is all or nothing: when \<^verbatim>\<open>writeWholeFile\<close> succeeds the target holds exactly the bytes asked
  for, and when it fails, at whatever write, the target is as it was; no other file but the temporary changes.
\<close>

theorem write_is_whole:
  "writeWholeFile os path content d = (result, d') \<Longrightarrow>
   dk_files d' path = (case result of None \<Rightarrow> Some content | Some err \<Rightarrow> dk_files d path) \<and>
   (\<forall>q. q \<noteq> path \<and> q \<noteq> tempOf path \<longrightarrow> dk_files d' q = dk_files d q)"
proof -
  assume w: "writeWholeFile os path content d = (result, d')"
  have "dk_files d' path = Some content" if r: "result = None"
  proof -
    obtain e d1 where l: "writeLoop os (tempOf path) [] content (setFile (tempOf path) (Some []) (called d)) = (e, d1)"
      by fastforce
    have "e = None" using w r l by (auto simp: writeWholeFile_def Let_def split: if_splits option.splits prod.splits)
    then have "dk_files d1 (tempOf path) = Some content"
      using writeLoop_wrote [of os "tempOf path" "[]" content "setFile (tempOf path) (Some []) (called d)"] l by simp
    then show ?thesis
      using w r l \<open>e = None\<close>
      by (auto simp: writeWholeFile_def Let_def moveFile_def split: if_splits prod.splits)
  qed
  moreover have "dk_files d' path = dk_files d path" if "result = Some err" for err
    using writeWholeFile_failed [of os path content d err] w that by simp
  moreover have "dk_files d' q = dk_files d q" if "q \<noteq> path" "q \<noteq> tempOf path" for q
    using writeWholeFile_files [OF that(2,1), of os content d] w by simp
  ultimately show ?thesis by (auto split: option.splits)
qed

lemma preflight_dirs: "dk_dirs (snd (preflight os sha sts d)) = dk_dirs d"
  by (induction os sha sts d rule: preflight.induct) (auto simp: sha256File_def called_def)

definition staleStep :: "(string \<Rightarrow> string) \<Rightarrow> Disk \<Rightarrow> Step \<Rightarrow> bool" where
  "staleStep sha d st \<longleftrightarrow> sp_from st \<noteq> [] \<and>
     (case dk_files d (sp_from st) of
        None \<Rightarrow> sp_required st \<or> sp_expectSha st \<noteq> []
      | Some c \<Rightarrow> sp_expectSha st \<noteq> [] \<and> sha c \<noteq> sp_expectSha st)"

lemma preflight_stale:
  assumes "list_ex (staleStep sha d) sts"
  shows "fst (preflight os sha sts d) \<noteq> None"
  using assms
proof (induction sts arbitrary: d)
  case (Cons st sts)
  have called: "staleStep sha (called d) = staleStep sha d" by (simp add: staleStep_def fun_eq_iff)
  show ?case
  proof (cases "staleStep sha d st")
    case True
    then show ?thesis by (auto simp: staleStep_def fileExists_def sha256File_def split: option.splits)
  next
    case False
    then have "list_ex (staleStep sha d) sts" using Cons.prems by simp
    then have "fst (preflight os sha sts d) \<noteq> None" "fst (preflight os sha sts (called d)) \<noteq> None"
      using Cons.IH [of d] Cons.IH [of "called d"] called by simp_all
    then show ?thesis by (auto simp: sha256File_def)
  qed
qed simp

text \<open>
  C17: a stale plan does nothing at all: if a file a step guards has gone, because the step requires it or records its hash, or has
  other bytes than the recorded hash, the run is refused with every file and folder as it was and no step reported done,
  whatever Windows does. Steps that neither require their source nor record a hash are not checked.
\<close>

theorem stale_plan_refused:
  assumes "list_ex (staleStep sha d) (pl_steps plan)" "applyPlan os sha payload plan d = (r, d')"
  shows "\<not> ar_ok r \<and> ar_done r = [] \<and> ar_error r \<noteq> None \<and> dk_files d' = dk_files d \<and> dk_dirs d' = dk_dirs d"
proof -
  obtain e d1 where p: "preflight os sha (pl_steps plan) d = (e, d1)" by fastforce
  have "e \<noteq> None" using preflight_stale [OF assms(1), of os] p by simp
  moreover have "dk_files d1 = dk_files d" "dk_dirs d1 = dk_dirs d"
    using preflight_files [of os sha "pl_steps plan" d] preflight_dirs [of os sha "pl_steps plan" d] p by simp_all
  ultimately show ?thesis
    using assms(2) by (cases e) (auto simp: applyPlan_def p refused_def split: if_splits)
qed


section \<open>Examples\<close>

definition sampleOs :: "nat \<Rightarrow> Os" where
  "sampleOs failing = \<lparr>os_ok = (\<lambda>n. n \<noteq> failing), os_err = (\<lambda>n. 5), os_copy = (\<lambda>n c. Copied c), os_readable = (\<lambda>n. True),
     os_written = (\<lambda>n. 4096), os_temp = (\<lambda>n dir. Some (dir @ replicate n CHR ''x'' @ ''.tmp''))\<rparr>"

definition sampleDisk :: Disk where
  "sampleDisk = \<lparr>dk_files = (\<lambda>p. if p = ''a'' then Some ''old'' else None), dk_dirs = (\<lambda>_. True), dk_calls = 0\<rparr>"

definition samplePlan :: Plan where
  "samplePlan = newPlan\<lparr>pl_backupDir := ''bk'', pl_steps :=
     [noStep\<lparr>sp_action := WriteText, sp_to := ''a'', sp_text := ''new''\<rparr>,
      noStep\<lparr>sp_action := WriteText, sp_to := ''b'', sp_text := ''x''\<rparr>]\<rparr>"

definition sampleSha :: "string \<Rightarrow> string" where
  "sampleSha c = CHR ''h'' # c"
definition blindOs :: Os where
  "blindOs = (sampleOs 8)\<lparr>os_readable := (\<lambda>n. n \<noteq> 4 \<and> n \<noteq> 10), os_copy := (\<lambda>n c. if n = 9 then Copied ''bad'' else Copied c)\<rparr>"

lemma sample_restorable: "restorable (sampleOs n) (pl_steps samplePlan) sampleDisk ''a''"
proof -
  have "last (dir @ replicate k CHR ''x'' @ ''.tmp'') \<noteq> last ''a''" for dir k by simp
  then have "\<not> tempName (sampleOs n) ''a''" by (auto simp: tempName_def sampleOs_def)
  then show ?thesis
    by (simp add: restorable_def scratchPath_def samplePlan_def noStep_def newPlan_def tempOf_def)
qed

theorem failed_run_restores_files_witness:
  "ar_rolledBack (fst (applyPlan (sampleOs 8) sampleSha (\<lambda>_. None) samplePlan sampleDisk)) \<and>
   dk_files (snd (applyPlan (sampleOs 8) sampleSha (\<lambda>_. None) samplePlan sampleDisk)) ''a'' = Some ''old''"
proof -
  have r: "\<not> ar_ok (fst (applyPlan (sampleOs 8) sampleSha (\<lambda>_. None) samplePlan sampleDisk))"
    "ar_rolledBack (fst (applyPlan (sampleOs 8) sampleSha (\<lambda>_. None) samplePlan sampleDisk))"
    by code_simp+
  have "\<not> unhashed ''a'' (ap_undo (runState (sampleOs 8) sampleSha (\<lambda>_. None) samplePlan sampleDisk))" by code_simp
  moreover have "inj sampleSha" by (simp add: inj_def sampleSha_def)
  moreover have "dk_files sampleDisk ''a'' = Some ''old''" by (simp add: sampleDisk_def)
  ultimately show ?thesis
    using failed_run_restores_files [OF prod.collapse [symmetric] r sample_restorable] r(2) by simp
qed

theorem write_is_whole_witness:
  "writeWholeFile (sampleOs 9) ''a'' ''new'' sampleDisk =
     (None, snd (writeWholeFile (sampleOs 9) ''a'' ''new'' sampleDisk)) \<and>
   dk_files (snd (writeWholeFile (sampleOs 9) ''a'' ''new'' sampleDisk)) ''a'' = Some ''new''"
proof -
  have "fst (writeWholeFile (sampleOs 9) ''a'' ''new'' sampleDisk) = None" by code_simp
  then have w: "writeWholeFile (sampleOs 9) ''a'' ''new'' sampleDisk =
      (None, snd (writeWholeFile (sampleOs 9) ''a'' ''new'' sampleDisk))"
    by (metis prod.collapse)
  then show ?thesis using write_is_whole [OF w] by simp
qed

definition stalePlan :: Plan where
  "stalePlan = newPlan\<lparr>pl_steps :=
     [noStep\<lparr>sp_action := Delete, sp_from := ''a'', sp_expectSha := sampleSha ''older''\<rparr>]\<rparr>"

theorem stale_plan_refused_witness:
  "list_ex (staleStep sampleSha sampleDisk) (pl_steps stalePlan) \<and>
   dk_files (snd (applyPlan (sampleOs 9) sampleSha (\<lambda>_. None) stalePlan sampleDisk)) = dk_files sampleDisk"
proof -
  have s: "list_ex (staleStep sampleSha sampleDisk) (pl_steps stalePlan)" by code_simp
  then show ?thesis using stale_plan_refused [OF s prod.collapse [symmetric]] by blast
qed

text \<open>
  The exception is real: the hash check of a restore accepts two failed reads: an undo entry whose snapshot could not be hashed
  holds an empty hash, and when the restored file cannot be read either, the empty hashes agree. Here the
  restored file is wrong and the run still reports a complete rollback.
\<close>

theorem unread_hashes_agree:
  "fst (applyPlan blindOs sampleSha (\<lambda>_. None) samplePlan sampleDisk) =
     \<lparr>ar_ok = False, ar_rolledBack = True, ar_overwrote = True, ar_done = [DoneWrote ''a''],
      ar_error = Some (CouldNotFinish 5 ''b'' False)\<rparr> \<and>
   dk_files (snd (applyPlan blindOs sampleSha (\<lambda>_. None) samplePlan sampleDisk)) ''a'' = Some ''bad'' \<and>
   dk_files sampleDisk ''a'' = Some ''old''"
  by code_simp

end
