(* ===== verification/InstallDisk.thy ===== *)
theory InstallDisk
  imports InstallCopies RollbackProps
begin

text \<open>
  The planner and the executor together: what a completed install leaves of the files that were there.
\<close>

section \<open>The bytes of one file through a run\<close>

text \<open>
  A run of steps keeps the bytes of one file: the file is not touched until a step copies it, and from then on
  its copy is not.
\<close>

fun keepsBytes :: "string \<Rightarrow> string \<Rightarrow> bool \<Rightarrow> Step list \<Rightarrow> bool" where
  "keepsBytes p bk copied [] \<longleftrightarrow> True"
| "keepsBytes p bk copied (st # sts) \<longleftrightarrow>
     (if copied then bk \<notin> set (destroys st) \<and> keepsBytes p bk True sts
      else p \<notin> set (destroys st) \<and> (isBackup st \<and> sp_from st = p \<longrightarrow> sp_to st = bk) \<and>
        keepsBytes p bk (isBackup st \<and> sp_from st = p) sts)"

lemma keepsBytes_from:
  assumes "copiedFirst here copied sts" "p \<in> set here"
    "list_all (\<lambda>st. if isBackup st then sp_to st = joinPath bdir (leafOf (sp_from st))
                   else joinPath bdir (leafOf p) \<notin> set (destroys st)) sts"
    "distinct (map sp_to (filter isBackup sts))"
    "p \<in> set copied \<Longrightarrow> joinPath bdir (leafOf p) \<notin> set (map sp_to (filter isBackup sts))"
  shows "keepsBytes p (joinPath bdir (leafOf p)) (p \<in> set copied) sts"
  using assms
proof (induction sts arbitrary: copied)
  case (Cons st sts)
  let ?bk = "joinPath bdir (leafOf p)" and ?c = "copies st @ copied"
  have now: "(p \<in> set ?c) = (p \<in> set copied \<or> isBackup st \<and> sp_from st = p)"
    by (auto simp: copies_def isBackup_def)
  have later: "?bk \<notin> set (map sp_to (filter isBackup sts))" if "p \<in> set ?c"
    using that Cons.prems(3-5) unfolding now by (auto split: if_splits)
  have ih: "keepsBytes p ?bk (p \<in> set ?c) sts"
    using Cons.IH [of ?c] Cons.prems later by (auto split: if_splits)
  show ?case
  proof (cases "p \<in> set copied")
    case True
    then have "?bk \<notin> set (destroys st)"
      using Cons.prems(3,5) by (auto simp: destroys_def isBackup_def split: if_splits)
    then show ?thesis using True ih now by simp
  next
    case False
    then have "p \<notin> set (destroys st)" using Cons.prems(1,2) by (auto simp: list_all_iff)
    moreover have "isBackup st \<and> sp_from st = p \<longrightarrow> sp_to st = ?bk" using Cons.prems(3) by auto
    ultimately show ?thesis using False ih now by simp
  qed
qed simp

text \<open>A step that succeeds changes only the files it destroys and the installer's scratch files.\<close>

definition aside :: "Os \<Rightarrow> Step list \<Rightarrow> string \<Rightarrow> bool" where
  "aside os sts q \<longleftrightarrow> \<not> scratchPath os sts q"

lemma protectTarget_files: "\<not> tempName os q \<Longrightarrow> dk_files (ap_disk (protectTarget os sha bdir t a)) q = dk_files (ap_disk a) q"
  using snapshotFile_files [of os q sha t bdir "ap_disk a"]
  by (auto simp: protectTarget_def apply_defs sha256File_def split: sum.splits prod.splits)

lemma dirs_files: "dk_files (ap_disk (case ensureDirTree os q (ap_undo a) (ap_disk a) of (_, undo, d) \<Rightarrow>
    a\<lparr>ap_undo := undo, ap_disk := d\<rparr>)) = dk_files (ap_disk a)"
  using ensureDirTree_files [of os q "ap_undo a" "ap_disk a"] by (cases "ensureDirTree os q (ap_undo a) (ap_disk a)") simp

lemma stepWrite_others:
  assumes "\<not> tempName os q" "q \<noteq> t" "q \<noteq> tempOf t"
  shows "dk_files (ap_disk (stepWrite os sha bdir t c a)) q = dk_files (ap_disk a) q"
proof -
  define a1 where "a1 = (if fileExists t (ap_disk a) then protectTarget os sha bdir t a else a)"
  have a1: "dk_files (ap_disk a1) q = dk_files (ap_disk a) q" using protectTarget_files [OF assms(1)] by (simp add: a1_def)
  obtain r d where w: "writeWholeFile os t c (ap_disk a1) = (r, d)" by fastforce
  have "dk_files d q = dk_files (ap_disk a1) q" using writeWholeFile_files [OF assms(3,2), of os c "ap_disk a1"] w by simp
  then show ?thesis
    unfolding stepWrite_def Let_def a1_def [symmetric] w using a1 by (simp add: apply_defs split: option.splits)
qed

lemma applyStep_others:
  assumes "q \<notin> set (destroys st)" "\<not> tempName os q" "sp_action st \<in> {WritePayload, WriteText} \<Longrightarrow> q \<noteq> tempOf (sp_to st)"
  shows "dk_files (ap_disk (applyStep os sha payload bdir st a)) q = dk_files (ap_disk a) q"
proof (cases "sp_action st")
  case MakeDir
  then show ?thesis
    using ensureDirTree_files [of os "sp_to st" "ap_undo a" "ap_disk a"]
    by (cases "ensureDirTree os (sp_to st) (ap_undo a) (ap_disk a)") (simp add: applyStep_def stepMakeDir_def Let_def failStep_def split: prod.splits)
next
  case Backup
  define a0 where "a0 = (case parentOf (sp_to st) of None \<Rightarrow> a
    | Some x \<Rightarrow> (case ensureDirTree os x (ap_undo a) (ap_disk a) of (_, undo, d) \<Rightarrow> a\<lparr>ap_undo := undo, ap_disk := d\<rparr>))"
  have a0: "dk_files (ap_disk a0) = dk_files (ap_disk a)" 
    by (cases "parentOf (sp_to st)") (simp_all only: a0_def option.case dirs_files)
  obtain c d where c: "copyFile os (sp_from st) (sp_to st) (ap_disk (protectTarget os sha bdir (sp_to st) a0)) = (c, d)"
    by fastforce
  have "dk_files d q = dk_files (ap_disk a) q"
    using copyFile_files [of q "sp_to st" os "sp_from st" "ap_disk (protectTarget os sha bdir (sp_to st) a0)"] c
      protectTarget_files [OF assms(2)] a0 assms(1) Backup by (simp add: destroys_def)
  then show ?thesis
    unfolding applyStep_def Backup Action.case stepBackup_def Let_def a0_def [symmetric] c
    using a0 protectTarget_files [OF assms(2)] by (simp add: apply_defs)
next
  case Rename
  define a1 where "a1 = protectTarget os sha bdir (sp_to st) a"
  obtain h d1 where h: "sha256File os sha (sp_from st) (ap_disk a1) = (h, d1)" by fastforce
  obtain m d2 where m: "moveFile os (sp_from st) (sp_to st) d1 = (m, d2)" by fastforce
  have "dk_files d1 = dk_files (ap_disk a1)" using h sha256File_files by (metis snd_conv)
  then have "dk_files d1 q = dk_files (ap_disk a) q" using protectTarget_files [OF assms(2)] by (simp add: a1_def)
  moreover have "dk_files d2 q = dk_files d1 q"
    using moveFile_files [of q "sp_from st" "sp_to st" os d1] m assms(1) Rename by (simp add: destroys_def)
  ultimately show ?thesis
    unfolding applyStep_def Rename Action.case stepRename_def Let_def a1_def [symmetric] h
    using protectTarget_files [OF assms(2), of sha bdir "sp_to st" a] by (simp add: apply_defs a1_def [symmetric] m)
next
  case WritePayload
  then show ?thesis
    using assms stepWrite_others [OF assms(2)]
    by (auto simp: applyStep_def destroys_def failStep_def split: option.splits)
next
  case WriteText
  then show ?thesis using assms stepWrite_others [OF assms(2)] by (simp add: applyStep_def destroys_def)
next
  case Delete
  define a1 where "a1 = protectTarget os sha bdir (sp_from st) a"
  obtain x d where x: "deleteFile os (sp_from st) (ap_disk a1) = (x, d)" by fastforce
  have "dk_files d q = dk_files (ap_disk a1) q"
    using deleteFile_files [of q "sp_from st" os "ap_disk a1"] x assms(1) Delete by (simp add: destroys_def)
  then show ?thesis
    unfolding applyStep_def Delete Action.case stepDelete_def Let_def a1_def [symmetric] x
    using protectTarget_files [OF assms(2), of sha bdir "sp_from st" a] by (simp add: apply_defs a1_def [symmetric])
qed

text \<open>A copy that reports success is exact.\<close>

definition exactCopies :: "Os \<Rightarrow> bool" where
  "exactCopies os \<longleftrightarrow> (\<forall>n c c'. os_copy os n c = Copied c' \<longrightarrow> c' = c)"

lemma failed_stays: "ap_failed a \<noteq> None \<Longrightarrow> ap_failed (fold (applyStep os sha payload bdir) sts a) \<noteq> None"
  by (induction sts arbitrary: a) (simp_all add: applyStep_def)

lemma stepBackup_copies:
  assumes "exactCopies os" "isBackup st" "ap_failed a = None" "ap_failed (applyStep os sha payload bdir st a) = None"
    "dk_files (ap_disk a) (sp_from st) = Some c" "\<not> tempName os (sp_from st)"
  shows "dk_files (ap_disk (applyStep os sha payload bdir st a)) (sp_to st) = Some c"
proof -
  define a0 where "a0 = (case parentOf (sp_to st) of None \<Rightarrow> a
    | Some x \<Rightarrow> (case ensureDirTree os x (ap_undo a) (ap_disk a) of (_, undo, d) \<Rightarrow> a\<lparr>ap_undo := undo, ap_disk := d\<rparr>))"
  have a0: "dk_files (ap_disk a0) = dk_files (ap_disk a)" 
    by (cases "parentOf (sp_to st)") (simp_all only: a0_def option.case dirs_files)
  define a1 where "a1 = protectTarget os sha bdir (sp_to st) a0"
  have src: "dk_files (ap_disk a1) (sp_from st) = Some c"
    using protectTarget_files [OF assms(6)] assms(5) a0 by (simp add: a1_def)
  obtain ok d where c: "copyFile os (sp_from st) (sp_to st) (ap_disk a1) = (ok, d)" by fastforce
  have ex: "fileExists (sp_from st) (ap_disk a0)" using assms(5) a0 by (simp add: fileExists_def)
  have eq: "applyStep os sha payload bdir st a =
      (if ap_failed a1 \<noteq> None then a1
       else if ok then finished (DoneCopied (leafOf (sp_from st)) (sp_to st)) (onDisk d a1)
       else failStep (sp_to st) (getLastError os (ap_disk a1)) (onDisk d a1))"
    using assms(2,3) ex unfolding isBackup_def
    by (simp add: applyStep_def stepBackup_def Let_def a0_def [symmetric] a1_def [symmetric] c)
  then have "ok" "ap_failed a1 = None" using assms(4) by (auto simp: apply_defs split: if_splits)
  moreover have "dk_files d (sp_to st) = Some c"
    using c \<open>ok\<close> src assms(1) by (auto simp: copyFile_def exactCopies_def split: CopyOutcome.splits option.splits)
  ultimately show ?thesis by (simp add: eq apply_defs)
qed

lemma run_keeps_bytes:
  assumes "keepsBytes p bk copied sts" "exactCopies os" "aside os all p" "aside os all bk" "set sts \<subseteq> set all"
    "ap_failed a = None" "ap_failed (fold (applyStep os sha payload bdir) sts a) = None"
    "dk_files (ap_disk a) (if copied then bk else p) = Some c"
  shows "dk_files (ap_disk (fold (applyStep os sha payload bdir) sts a)) p = Some c \<or>
    dk_files (ap_disk (fold (applyStep os sha payload bdir) sts a)) bk = Some c"
  using assms(1,5-8)
proof (induction sts arbitrary: a copied)
  case (Cons st sts)
  let ?a = "applyStep os sha payload bdir st a"
  have ok: "ap_failed ?a = None" using failed_stays [of ?a os sha payload bdir sts] Cons.prems(4) by (metis fold_simps(2))
  have st: "st \<in> set all" using Cons.prems(2) by simp
  have others: "dk_files (ap_disk ?a) q = dk_files (ap_disk a) q" if "q \<notin> set (destroys st)" "aside os all q" for q
    using that st by (intro applyStep_others) (auto simp: aside_def scratchPath_def)
  show ?case
  proof (cases copied)
    case True
    then have "dk_files (ap_disk ?a) bk = Some c" using Cons.prems(1,5) others assms(4) by simp
    then show ?thesis using Cons.IH [of True ?a] Cons.prems True ok by simp
  next
    case False
    then have p: "dk_files (ap_disk a) p = Some c" "p \<notin> set (destroys st)" using Cons.prems(1,5) by simp_all
    show ?thesis
    proof (cases "isBackup st \<and> sp_from st = p")
      case True
      have "\<not> tempName os (sp_from st)" using True assms(3) by (auto simp: aside_def scratchPath_def)
      then have "dk_files (ap_disk ?a) (sp_to st) = Some c"
        using stepBackup_copies [OF assms(2) _ Cons.prems(3) ok] True p(1) by blast
      then show ?thesis using Cons.IH [of True ?a] Cons.prems True False ok by simp
    next
      case notp: False
      then have "dk_files (ap_disk ?a) p = Some c" using others [OF p(2) assms(3)] p(1) by simp
      then show ?thesis using Cons.IH [of False ?a] Cons.prems False notp ok by simp
    qed
  qed
qed (auto split: if_splits)

lemma droppedSnapshots_files:
  "list_all (isSnapshot os) us \<Longrightarrow> \<not> tempName os q \<Longrightarrow> dk_files (fold (dropSnapshot os) us d) q = dk_files d q"
proof (induction us arbitrary: d)
  case (Cons u us)
  have "dk_files (dropSnapshot os u d) q = dk_files d q"
  proof (cases u)
    case (URestoreFile x t h)
    then have "q \<noteq> x" using Cons.prems by (auto simp: isSnapshot_def)
    then show ?thesis by (simp add: URestoreFile dropSnapshot_def deleteFile_files)
  qed (simp_all add: dropSnapshot_def)
  then show ?case using Cons by simp
qed simp

lemma applyStep_snapshots:
  "list_all (isSnapshot os) (ap_undo a) \<Longrightarrow> list_all (isSnapshot os) (ap_undo (applyStep os sha payload bdir st a))"
proof -
  assume a: "list_all (isSnapshot os) (ap_undo a)"
  have dirs: "list_all (isSnapshot os) undo" if "ensureDirTree os q (ap_undo a) d = (ok, undo, d')" for q d ok undo d'
    using ensureDirTree_pushes [of os q "ap_undo a" d] a that by (auto simp: list_all_iff isSnapshot_def)
  have prot: "list_all (isSnapshot os) (ap_undo (protectTarget os sha bdir t b))" if "list_all (isSnapshot os) (ap_undo b)" for t b
    using that snapshotFile_temp [of os sha t bdir "ap_disk b"]
    by (auto simp: protectTarget_def apply_defs isSnapshot_def split: sum.splits prod.splits)
  have other: "isSnapshot os (UDeleteFile q)" "isSnapshot os (UMoveBack q r h)" for q r h by (simp_all add: isSnapshot_def)
  define a0 where "a0 = (case parentOf (sp_to st) of None \<Rightarrow> a
    | Some x \<Rightarrow> (case ensureDirTree os x (ap_undo a) (ap_disk a) of (_, undo, d) \<Rightarrow> a\<lparr>ap_undo := undo, ap_disk := d\<rparr>))"
  have a0: "list_all (isSnapshot os) (ap_undo a0)"
    using a dirs by (auto simp: a0_def split: option.splits prod.splits)
  have mk: "list_all (isSnapshot os) (ap_undo (stepMakeDir os st a))"
    using dirs by (auto simp: stepMakeDir_def Let_def failStep_def split: prod.splits)
  have bk: "list_all (isSnapshot os) (ap_undo (stepBackup os sha bdir st a))"
    unfolding stepBackup_def Let_def a0_def [symmetric] using a0 prot [OF a0]
    by (simp add: apply_defs split: prod.splits)
  have rn: "list_all (isSnapshot os) (ap_undo (stepRename os sha bdir st a))"
    unfolding stepRename_def Let_def using a prot [OF a] other by (simp add: apply_defs split: prod.splits)
  have wr: "list_all (isSnapshot os) (ap_undo (stepWrite os sha bdir t c a))" for t c
    unfolding stepWrite_def Let_def using a prot [OF a] other by (simp add: apply_defs split: prod.splits option.splits)
  have dl: "list_all (isSnapshot os) (ap_undo (stepDelete os sha bdir st a))"
    unfolding stepDelete_def Let_def using a prot [OF a] by (simp add: apply_defs split: prod.splits)
  show ?thesis
    using a mk bk rn wr dl by (auto simp: applyStep_def failStep_def split: Action.splits option.splits)
qed

text \<open>A completed run of steps that keep a file's bytes leaves them on the disk.\<close>

lemma completed_keeps_bytes:
  assumes "applyPlan os sha payload plan d = (r, d')" "ar_ok r" "keepsBytes p bk False (pl_steps plan)" "exactCopies os"
    "aside os (pl_steps plan) p" "aside os (pl_steps plan) bk" "dk_files d p = Some c"
  shows "dk_files d' p = Some c \<or> dk_files d' bk = Some c"
proof -
  obtain pre d1 where pre: "preflight os sha (pl_steps plan) d = (pre, d1)" by fastforce
  have d1: "dk_files d1 = dk_files d" using preflight_files [of os sha "pl_steps plan" d] by (simp add: pre)
  define a where "a = fold (applyStep os sha payload (pl_backupDir plan)) (pl_steps plan) (startRun d1)"
  have ok: "\<not> pl_blocked plan \<and> pre = None \<and> ap_failed a = None"
    using assms(1,2) by (cases pre) (auto simp: applyPlan_def pre a_def [symmetric] concludeRun_def afterRollback_def
      refused_def split: option.splits if_splits)
  then have d': "d' = fold (dropSnapshot os) (rev (ap_undo a)) (ap_disk a)"
    using assms(1) by (simp add: applyPlan_def pre a_def [symmetric] concludeRun_def)
  have "list_all (isSnapshot os) (ap_undo a)"
    unfolding a_def by (rule fold_invariant [where P = "\<lambda>a. list_all (isSnapshot os) (ap_undo a)"])
      (simp_all add: applyStep_snapshots startRun_def)
  then have drop: "dk_files d' q = dk_files (ap_disk a) q" if "aside os (pl_steps plan) q" for q
    using that by (simp add: d' droppedSnapshots_files aside_def scratchPath_def)
  have start: "ap_failed (startRun d1) = None" "dk_files (ap_disk (startRun d1)) p = Some c"
    using d1 assms(7) by (simp_all add: startRun_def)
  have "dk_files (ap_disk a) p = Some c \<or> dk_files (ap_disk a) bk = Some c"
    unfolding a_def
    by (rule run_keeps_bytes [OF assms(3-6)]) (use start ok in \<open>simp_all add: a_def [symmetric]\<close>)
  then show ?thesis using drop assms(5,6) by simp
qed

text \<open>
  C4: a completed install loses nothing it found: every file the survey found is afterwards on the disk with
  its former bytes, at its own path or as its copy in the backup folder.
\<close>

theorem completed_install_loses_nothing:
  assumes "sv_openvrOrigName s = kOpenvrOrig" "backupApart s o'" "exactCopies os"
    and "plan = planInstall sha s o' info" "applyPlan os sha payload plan d = (r, d')" "ar_ok r"
    and "p \<in> set (foundFiles s)" "dk_files d p = Some c"
    and "aside os (pl_steps plan) p" "aside os (pl_steps plan) (joinPath (backupDirFor s o') (leafOf p))"
  shows "dk_files d' p = Some c \<or> dk_files d' (joinPath (backupDirFor s o') (leafOf p)) = Some c"
proof -
  let ?bd = "backupDirFor s o'" and ?b = "planBody sha s o' info"
  have steps: "pl_steps plan = [] \<or> pl_steps plan = installSteps s o' info ?b"
    unfolding assms(4) by (auto simp: planInstall_def newPlan_def Let_def split: option.splits)
  have first: "copiedFirst (foundFiles s) [] (pl_steps plan)"
    using steps installSteps_covered [OF planBody_covered [OF assms(1,2)]
        recordPaths_not_found [OF originalName_surveyed [OF assms(1)]]] by auto
  have "filter isBackup (installSteps s o' info ?b) = filter isBackup (pb_body ?b)"
    by (simp add: installSteps_def mkDir_def noStep_def isBackup_def)
  then have names: "distinct (map sp_to (filter isBackup (pl_steps plan)))"
    using steps planBody_names [OF assms(1), of sha o' info] by auto
  define P where "P st \<longleftrightarrow> (if isBackup st then sp_to st = joinPath ?bd (leafOf (sp_from st))
      else joinPath ?bd (leafOf p) \<notin> set (destroys st))" for st
  have nt: "joinPath ?bd (leafOf p) \<notin> set (installTargets s)" using assms(2) by (simp add: backupApart_def)
  have "wellAimed ?bd (installTargets s) st \<Longrightarrow>
      if isBackup st then sp_to st = joinPath ?bd (leafOf (sp_from st)) else joinPath ?bd (leafOf p) \<notin> set (destroys st)" for st
    using nt by (auto simp: wellAimed_def list_all_iff)
  then have body: "list_all P (pb_body ?b)" using planBody_aimed [of s o' sha info] by (simp add: aimed_def list_all_iff P_def)
  have "P (mkDir x)" "P (noStep\<lparr>sp_action := WriteText, sp_text := t, sp_to := baseIniPath (sv_gameDir s)\<rparr>)"
    "P (noStep\<lparr>sp_action := WriteText, sp_text := t, sp_to := statePath (sv_gameDir s)\<rparr>)" for x t
    using assms(2) by (auto simp: P_def mkDir_def noStep_def isBackup_def destroys_def backupApart_def)
  then have "list_all P (pl_steps plan)" using steps body by (auto simp: installSteps_def)
  then have aim: "list_all (\<lambda>st. if isBackup st then sp_to st = joinPath ?bd (leafOf (sp_from st))
      else joinPath ?bd (leafOf p) \<notin> set (destroys st)) (pl_steps plan)"
    by (simp add: P_def [abs_def])
  have "keepsBytes p (joinPath ?bd (leafOf p)) False (pl_steps plan)"
    using keepsBytes_from [OF first assms(7) aim names] by simp
  then show ?thesis by (rule completed_keeps_bytes [OF assms(5,6) _ assms(3,9,10,8)])
qed

section \<open>An example\<close>

text \<open>A folder with another mod's \<^verbatim>\<open>d3d11.dll\<close> and nothing else.\<close>

definition demoDll :: "DllKind \<Rightarrow> string \<Rightarrow> DllInfo" where
  "demoDll k h = noDll\<lparr>di_kind := k, di_sha256 := h, di_is64 := True\<rparr>"

definition demoSurvey :: Survey where
  "demoSurvey = \<lparr>sv_gameDir = ''g'', sv_openvrDir = ''v'', sv_gameRunningHere = False, sv_gameRunningElsewhere = False,
     sv_d3d11 = demoDll D3d11Provider (sampleSha ''mod''), sv_openxrLoader = noDll, sv_nativeConfig = noDll, sv_openxrLicense = noDll,
     sv_otherD3d11 = [], sv_iniPresent = False, sv_iniText = [], sv_baseIniText = [], sv_ngx = noDll, sv_nvidiaAdapter = False,
     sv_haveOpenvrDir = True, sv_openvrCurrent = noDll, sv_openvrOrig = noDll, sv_openvrOrigName = kOpenvrOrig,
     sv_openvrOrigInBackups = [], sv_state = noState, sv_eliteProfileValid = True\<rparr>"

definition demoOptions :: Options where
  "demoOptions = \<lparr>op_keepSettings = True, op_repair = False, op_removeSettings = False, op_backupStamp = ''s'', op_nowUtc = ''t''\<rparr>"

definition demoPayload :: PayloadInfo where
  "demoPayload = \<lparr>pi_version = ''1'', pi_haveD3d11 = True, pi_d3d11Sha = ''x'', pi_haveOpenvr = True, pi_openvrSha = ''y'',
     pi_haveNgx = False, pi_ngxSha = [], pi_nativePairValid = True, pi_haveOpenxrLoader = True, pi_openxrLoaderSha = ''z'',
     pi_haveOpenxrLicense = True, pi_openxrLicenseSha = ''w'', pi_iniText = ''a=1''\<rparr>"

definition demoDisk :: Disk where
  "demoDisk = \<lparr>dk_files = (\<lambda>q. if q = joinPath ''g'' kD3d11 then Some ''mod'' else None), dk_dirs = (\<lambda>_. True), dk_calls = 0\<rparr>"



lemma sample_aside: "last q \<noteq> CHR ''p'' \<Longrightarrow> last q \<noteq> CHR ''w'' \<Longrightarrow> aside (sampleOs n) sts q"
proof -
  assume q: "last q \<noteq> CHR ''p''" "last q \<noteq> CHR ''w''"
  have "last (dir @ replicate k CHR ''x'' @ ''.tmp'') = CHR ''p''" "last (tempOf t) = CHR ''w''" for dir k t
    by (simp_all add: tempOf_def)
  with q show ?thesis by (auto simp: aside_def scratchPath_def tempName_def sampleOs_def)
qed

lemma demo_apart: "backupApart demoSurvey demoOptions"
proof -
  have bd: "backupDirFor demoSurvey demoOptions = ''g'' @ [CHR 0x5C] @ ''edvr_backup'' @ [CHR 0x5C] @ ''s''" by code_simp
  have "take 8 (joinPath (backupDirFor demoSurvey demoOptions) leaf) = ''g'' @ [CHR 0x5C] @ ''edvr_b''" for leaf
    unfolding bd by (simp add: joinPath_def isSlash_def)
  moreover have "list_all (\<lambda>q. take 8 q \<noteq> ''g'' @ [CHR 0x5C] @ ''edvr_b'')
      (foundFiles demoSurvey @ installTargets demoSurvey @ [baseIniPath (sv_gameDir demoSurvey), statePath (sv_gameDir demoSurvey)])"
    by code_simp
  ultimately show ?thesis unfolding backupApart_def list_all_iff by metis
qed

theorem install_copies_first_witness:
  "backupApart demoSurvey demoOptions \<and>
   copiedFirst (foundFiles demoSurvey) [] (pl_steps (planInstall sampleSha demoSurvey demoOptions demoPayload)) \<and>
   length (pl_steps (planInstall sampleSha demoSurvey demoOptions demoPayload)) = 13"
proof -
  have "sv_openvrOrigName demoSurvey = kOpenvrOrig" by (simp add: demoSurvey_def)
  moreover have "length (pl_steps (planInstall sampleSha demoSurvey demoOptions demoPayload)) = 13" by code_simp
  ultimately show ?thesis using install_copies_first [OF _ demo_apart refl] demo_apart by blast
qed

theorem completed_install_loses_nothing_witness:
  "ar_ok (fst (applyPlan (sampleOs 99) sampleSha (\<lambda>_. Some ''dll'')
     (planInstall sampleSha demoSurvey demoOptions demoPayload) demoDisk)) \<and>
   (\<exists>q. dk_files (snd (applyPlan (sampleOs 99) sampleSha (\<lambda>_. Some ''dll'')
     (planInstall sampleSha demoSurvey demoOptions demoPayload) demoDisk)) q = Some ''mod'')"
proof -
  have ok: "ar_ok (fst (applyPlan (sampleOs 99) sampleSha (\<lambda>_. Some ''dll'')
      (planInstall sampleSha demoSurvey demoOptions demoPayload) demoDisk))" by code_simp
  have "sv_openvrOrigName demoSurvey = kOpenvrOrig" by (simp add: demoSurvey_def)
  moreover have "exactCopies (sampleOs 99)" by (simp add: exactCopies_def sampleOs_def)
  moreover have "joinPath ''g'' kD3d11 \<in> set (foundFiles demoSurvey)" by code_simp
  moreover have "dk_files demoDisk (joinPath ''g'' kD3d11) = Some ''mod''" by (simp add: demoDisk_def)
  moreover have "aside (sampleOs 99) sts (joinPath ''g'' kD3d11)"
    "aside (sampleOs 99) sts (joinPath (backupDirFor demoSurvey demoOptions) (leafOf (joinPath ''g'' kD3d11)))" for sts
    by (rule sample_aside; code_simp)+
  ultimately show ?thesis
    using completed_install_loses_nothing [OF _ demo_apart _ refl prod.collapse [symmetric] ok] ok by blast
qed

end
