(* ===== verification/LocalConfig.thy ===== *)
theory LocalConfig
  imports IniEdit
begin

text \<open>
  \<^verbatim>\<open>src/openxr/native_local_config.h\<close>: the strict reader of the startup configuration the installer leaves beside
  the OpenVR library, and the scoped override of the OpenXR runtime manifest variable. A wide string is
  modelled by its UTF-8 text; its size in UTF-16 units is what \<^verbatim>\<open>MultiByteToWideChar\<close> answers for that text
  (\<open>wide\<close>, zero for text it refuses), and the Windows file and environment calls are arguments.
\<close>

section \<open>Reading the file\<close>

datatype LocalConfigResult = LocalAbsent | LocalReady | LocalInvalid

record LocalConfig =
  lc_loader :: string
  lc_graphics :: string
  lc_runtime :: string
  lc_separateDevice :: bool
  lc_frameThreadPriorityHigh :: bool
  lc_frameEndOverlap :: bool

definition noLocalConfig :: LocalConfig where
  "noLocalConfig = \<lparr>lc_loader = [], lc_graphics = [], lc_runtime = [], lc_separateDevice = False,
     lc_frameThreadPriorityHigh = True, lc_frameEndOverlap = True\<rparr>"

definition localConfigUsesSystemRuntime :: "string \<Rightarrow> bool" where
  "localConfigUsesSystemRuntime v \<longleftrightarrow> v = ''system''"

definition isLetter :: "char \<Rightarrow> bool" where
  "isLetter c \<longleftrightarrow> (CHR ''A'' \<le> c \<and> c \<le> CHR ''Z'') \<or> (CHR ''a'' \<le> c \<and> c \<le> CHR ''z'')"

definition localConfigAbsolute :: "(string \<Rightarrow> nat) \<Rightarrow> string \<Rightarrow> bool" where
  "localConfigAbsolute wide v \<longleftrightarrow> 3 < wide v \<and> wide v < 32768 \<and> CHR 0x00 \<notin> set v \<and>
     (case v of d # c # s # _ \<Rightarrow> isLetter d \<and> c = CHR '':'' \<and> (s = CHR 0x5C \<or> s = CHR ''/'') | _ \<Rightarrow> False)"

text \<open>\<open>None\<close>: the file could not be opened, sized or read in full.\<close>

definition localConfigReadFile :: "string option \<Rightarrow> string option" where
  "localConfigReadFile content =
     (case content of None \<Rightarrow> None | Some bytes \<Rightarrow> if length bytes \<le> 65536 then Some bytes else None)"

record Reading =
  rd_section :: bool
  rd_version :: bool
  rd_loader :: bool
  rd_graphics :: bool
  rd_runtime :: bool
  rd_separate :: bool
  rd_priority :: bool
  rd_overlap :: bool
  rd_candidate :: LocalConfig

definition startReading :: Reading where
  "startReading = \<lparr>rd_section = False, rd_version = False, rd_loader = False, rd_graphics = False, rd_runtime = False,
     rd_separate = False, rd_priority = False, rd_overlap = False, rd_candidate = noLocalConfig\<rparr>"

text \<open>The three path settings share the duplicate and absolute-path check of the end of the loop body.\<close>

definition pathAccepted :: "(string \<Rightarrow> nat) \<Rightarrow> string \<Rightarrow> string \<Rightarrow> bool" where
  "pathAccepted wide key v \<longleftrightarrow> (key = ''runtime'' \<and> localConfigUsesSystemRuntime v) \<or> localConfigAbsolute wide v"

definition localSetting :: "(string \<Rightarrow> nat) \<Rightarrow> string \<Rightarrow> string \<Rightarrow> Reading \<Rightarrow> Reading option" where
  "localSetting wide key v r =
     (let c = rd_candidate r in
      if key = ''version'' then (if rd_version r \<or> v \<noteq> ''1'' then None else Some (r\<lparr>rd_version := True\<rparr>))
      else if key = ''loader'' then
        (if rd_loader r \<or> \<not> pathAccepted wide key v then None
         else Some (r\<lparr>rd_loader := True, rd_candidate := c\<lparr>lc_loader := v\<rparr>\<rparr>))
      else if key = ''graphics'' then
        (if rd_graphics r \<or> \<not> pathAccepted wide key v then None
         else Some (r\<lparr>rd_graphics := True, rd_candidate := c\<lparr>lc_graphics := v\<rparr>\<rparr>))
      else if key = ''runtime'' then
        (if rd_runtime r \<or> \<not> pathAccepted wide key v then None
         else Some (r\<lparr>rd_runtime := True, rd_candidate := c\<lparr>lc_runtime := v\<rparr>\<rparr>))
      else if key = ''separate_device'' then
        (if rd_separate r \<or> v \<noteq> ''1'' then None
         else Some (r\<lparr>rd_separate := True, rd_candidate := c\<lparr>lc_separateDevice := True\<rparr>\<rparr>))
      else if key = ''frame_thread_priority'' then
        (if rd_priority r \<or> (v \<noteq> ''high'' \<and> v \<noteq> ''normal'') then None
         else Some (r\<lparr>rd_priority := True, rd_candidate := c\<lparr>lc_frameThreadPriorityHigh := (v = ''high'')\<rparr>\<rparr>))
      else if key = ''frame_end_overlap'' then
        (if rd_overlap r \<or> (v \<noteq> ''on'' \<and> v \<noteq> ''off'') then None
         else Some (r\<lparr>rd_overlap := True, rd_candidate := c\<lparr>lc_frameEndOverlap := (v = ''on'')\<rparr>\<rparr>))
      else None)"

definition localLine :: "(string \<Rightarrow> nat) \<Rightarrow> string \<Rightarrow> Reading \<Rightarrow> Reading option" where
  "localLine wide raw r =
     (let line = trim raw;
          key = trim (takeWhile (\<lambda>c. c \<noteq> CHR ''='') line);
          v = trim (tl (dropWhile (\<lambda>c. c \<noteq> CHR ''='') line))
      in if line = [] then Some r
         else if line = ''[openxr]'' then (if rd_section r then None else Some (r\<lparr>rd_section := True\<rparr>))
         else if \<not> rd_section r \<or> CHR ''='' \<notin> set line \<or> key = [] \<or> v = [] then None
         else localSetting wide key v r)"

text \<open>A carriage return with the line feed after it ends one line; the text after the last terminator is a line too.\<close>

definition afterBreak :: "string \<Rightarrow> string" where
  "afterBreak rest =
     (case rest of [] \<Rightarrow> [] | c # t \<Rightarrow> if c = CHR 0x0D \<and> t \<noteq> [] \<and> hd t = CHR 0x0A then tl t else t)"

lemma afterBreak_shorter: "lineRest text \<noteq> [] \<Longrightarrow> length (afterBreak (lineRest text)) < length text"
proof -
  assume "lineRest text \<noteq> []"
  then have "length (afterBreak (lineRest text)) < length (lineRest text)"
    by (auto simp: afterBreak_def split: list.splits)
  also have "\<dots> \<le> length text" by (simp add: lineRest_def length_dropWhile_le)
  finally show ?thesis .
qed

function localLines :: "(string \<Rightarrow> nat) \<Rightarrow> string \<Rightarrow> Reading \<Rightarrow> Reading option" where
  "localLines wide text r =
     (case localLine wide (lineText text) r of
        None \<Rightarrow> None
      | Some r' \<Rightarrow> if lineRest text = [] then Some r' else localLines wide (afterBreak (lineRest text)) r')"
  by pat_completeness auto

termination localLines
  by (relation "measure (\<lambda>(_, text, _). length text)") (use afterBreak_shorter in auto)

declare localLines.simps [simp del]

datatype FileAttributes = AttrNotFound | AttrDirectory | AttrOther

definition complete :: "Reading \<Rightarrow> bool" where
  "complete r \<longleftrightarrow> rd_section r \<and> rd_version r \<and> rd_loader r \<and> rd_graphics r \<and> rd_runtime r \<and> rd_separate r"

definition readLocalConfig ::
  "(string \<Rightarrow> nat) \<Rightarrow> FileAttributes \<Rightarrow> string option \<Rightarrow> LocalConfigResult \<times> LocalConfig" where
  "readLocalConfig wide attributes content =
     (if attributes = AttrNotFound then (LocalAbsent, noLocalConfig)
      else if attributes = AttrDirectory then (LocalInvalid, noLocalConfig)
      else
        (case localConfigReadFile content of
           None \<Rightarrow> (LocalInvalid, noLocalConfig)
         | Some bytes \<Rightarrow>
             (if CHR 0x00 \<in> set bytes \<or> wide bytes = 0 then (LocalInvalid, noLocalConfig)
              else
                (case localLines wide bytes startReading of
                   None \<Rightarrow> (LocalInvalid, noLocalConfig)
                 | Some r \<Rightarrow>
                     if complete r then (LocalReady, rd_candidate r) else (LocalInvalid, noLocalConfig)))))"

section \<open>The runtime manifest variable\<close>

text \<open>
  \<open>getOk\<close> and \<open>setOk\<close> say whether the environment calls work; \<open>regular\<close> whether a path names a file that can be
  opened. The variable's value is \<open>None\<close> when it is not set. A value of 32768 units or more does not fit the
  buffer.
\<close>

record ScopedRuntimeManifest =
  sm_applied :: string
  sm_previous :: string
  sm_systemCleared :: bool

definition newManifest :: ScopedRuntimeManifest where
  "newManifest = \<lparr>sm_applied = [], sm_previous = [], sm_systemCleared = False\<rparr>"

definition manifestApply ::
  "(string \<Rightarrow> nat) \<Rightarrow> (string \<Rightarrow> bool) \<Rightarrow> bool \<Rightarrow> bool \<Rightarrow> string \<Rightarrow> ScopedRuntimeManifest \<Rightarrow> string option \<Rightarrow>
   bool \<times> ScopedRuntimeManifest \<times> string option" where
  "manifestApply wide regular getOk setOk local m env =
     (if local = [] then (True, m, env)
      else if sm_applied m \<noteq> [] \<or> sm_systemCleared m then (False, m, env)
      else if \<not> getOk \<or> (case env of None \<Rightarrow> False | Some v \<Rightarrow> 32768 \<le> wide v) then (False, m, env)
      else if localConfigUsesSystemRuntime local then
        (case env of
           None \<Rightarrow> (True, m, env)
         | Some v \<Rightarrow>
             if setOk then (True, m\<lparr>sm_previous := v, sm_systemCleared := True\<rparr>, None)
             else (False, m\<lparr>sm_previous := []\<rparr>, env))
      else
        (case env of
           Some v \<Rightarrow> (v \<noteq> [] \<and> localConfigAbsolute wide v \<and> regular v, m, env)
         | None \<Rightarrow>
             if \<not> localConfigAbsolute wide local \<or> \<not> regular local then (False, m, env)
             else if setOk then (True, m\<lparr>sm_applied := local\<rparr>, Some local)
             else (False, m\<lparr>sm_applied := []\<rparr>, env)))"

definition restoreCleared :: "bool \<Rightarrow> ScopedRuntimeManifest \<Rightarrow> string option \<Rightarrow> ScopedRuntimeManifest \<times> string option" where
  "restoreCleared setOk m env =
     (if sm_systemCleared m
      then (m\<lparr>sm_systemCleared := False, sm_previous := []\<rparr>, if env = None \<and> setOk then Some (sm_previous m) else env)
      else (m, env))"

definition manifestRestore :: "bool \<Rightarrow> ScopedRuntimeManifest \<Rightarrow> string option \<Rightarrow> ScopedRuntimeManifest \<times> string option" where
  "manifestRestore setOk m env =
     (case restoreCleared setOk m env of (m1, env1) \<Rightarrow>
        if sm_applied m1 = [] then (m1, env1)
        else (m1\<lparr>sm_applied := []\<rparr>, if env1 = Some (sm_applied m1) \<and> setOk then None else env1))"

section \<open>What the reader accepts\<close>

lemma localLines_crlf:
  assumes "list_all (\<lambda>c. \<not> is_newline c) l"
  shows "localLines wide (l @ crlf @ rest) r =
    (case localLine wide l r of None \<Rightarrow> None | Some r' \<Rightarrow> localLines wide rest r')"
proof -
  have "lineText (l @ crlf @ rest) = l" "lineRest (l @ crlf @ rest) = crlf @ rest"
    using assms by (auto simp: lineText_def lineRest_def crlf_def is_newline_def list_all_iff
        takeWhile_append2 dropWhile_append2)
  then show ?thesis
    by (subst localLines.simps) (simp add: afterBreak_def crlf_def split: option.splits)
qed

lemma localLines_end: "localLines wide [] r = Some r"
  by (subst localLines.simps) (simp add: lineText_def lineRest_def localLine_def trim_def rtrim_def)

text \<open>A row \<open>key=value\<close> whose parts carry no blanks at their ends reaches \<^const>\<open>localSetting\<close> as it is written.\<close>

lemma localLine_row:
  assumes "CHR ''='' \<notin> set key" "trim key = key" "trim v = v" "key \<noteq> []" "v \<noteq> []" "hd key \<noteq> CHR ''[''" "rd_section r"
  shows "localLine wide (key @ CHR ''='' # v) r = localSetting wide key v r"
proof -
  have "\<not> is_blank (hd key)" using assms(2,4) by (metis hd_trim)
  moreover have "\<not> is_blank (last v)" using assms(3,5) by (metis last_trim)
  ultimately have "trim (key @ CHR ''='' # v) = key @ CHR ''='' # v"
    using assms(4,5) by (intro trim_id) auto
  moreover have "key @ CHR ''='' # v \<noteq> ''[openxr]''" using assms(4,6) by (cases key) auto
  moreover have "takeWhile (\<lambda>c. c \<noteq> CHR ''='') (key @ CHR ''='' # v) = key"
    "dropWhile (\<lambda>c. c \<noteq> CHR ''='') (key @ CHR ''='' # v) = CHR ''='' # v"
    using assms(1) by (induction key) auto
  ultimately show ?thesis using assms by (simp add: localLine_def)
qed

lemma absolute_trim:
  assumes "localConfigAbsolute wide v" "\<not> is_blank (last v)"
  shows "trim v = v" "v \<noteq> []"
proof -
  show "v \<noteq> []" using assms(1) by (auto simp: localConfigAbsolute_def split: list.splits)
  moreover have "\<not> is_blank (hd v)"
    using assms(1) by (auto simp: localConfigAbsolute_def isLetter_def is_blank_def split: list.splits)
  ultimately show "trim v = v" using assms(2) by (intro trim_id) auto
qed

text \<open>
  The manifest override is undone exactly: whatever \<^verbatim>\<open>apply\<close> did to the variable, \<^verbatim>\<open>restore\<close> puts the former
  value back and forgets the override, and if anyone changed the variable in between, their value stays.
\<close>

theorem manifest_restored:
  assumes "manifestApply wide regular getOk setOk local newManifest env = (result, m, env1)"
  shows "manifestRestore True m env1 = (newManifest, env) \<and>
    (\<forall>other. other \<noteq> env1 \<longrightarrow> manifestRestore True m other = (newManifest, other))"
  using assms
  by (auto simp: manifestApply_def manifestRestore_def restoreCleared_def newManifest_def split: if_splits option.splits)

theorem manifest_restored_witness:
  "manifestApply length (\<lambda>_. True) True True ''C:/rt.json'' newManifest None =
     (True, newManifest\<lparr>sm_applied := ''C:/rt.json''\<rparr>, Some ''C:/rt.json'') \<and>
   manifestRestore True (newManifest\<lparr>sm_applied := ''C:/rt.json''\<rparr>) (Some ''C:/rt.json'') = (newManifest, None)"
proof
  show a: "manifestApply length (\<lambda>_. True) True True ''C:/rt.json'' newManifest None =
     (True, newManifest\<lparr>sm_applied := ''C:/rt.json''\<rparr>, Some ''C:/rt.json'')"
    by code_simp
  show "manifestRestore True (newManifest\<lparr>sm_applied := ''C:/rt.json''\<rparr>) (Some ''C:/rt.json'') = (newManifest, None)"
    using manifest_restored [OF a] by (rule conjunct1)
qed

end
