(* ===== verification/NativeStartup.thy ===== *)
theory NativeStartup
  imports InstallPlan LocalConfig
begin

text \<open>
  Where the installer and the OpenXR runtime meet: the startup configuration \<^verbatim>\<open>planInstall\<close> writes beside the OpenVR
  library (\<^verbatim>\<open>src/installer/plan.cpp\<close>) is what the runtime's strict reader (\<^verbatim>\<open>src/openxr/native_local_config.h\<close>) takes.
\<close>


lemma nativeConfig_lines:
  "nativeConfigText s =
     ''[openxr]'' @ crlf @ (''version=1'') @ crlf @ (''loader'' @ CHR ''='' # joinPath (nativeDirOf s) ''openxr_loader.dll'') @ crlf @
     (''graphics'' @ CHR ''='' # joinPath (sv_gameDir s) kD3d11) @ crlf @ ''runtime=system'' @ crlf @ ''separate_device=1'' @ crlf"
  by (simp add: nativeConfigText_def)

lemma joinPath_last: "leaf \<noteq> [] \<Longrightarrow> last (joinPath dir leaf) = last leaf"
  by (simp add: joinPath_def)

lemma joinPath_chars: "set (joinPath dir leaf) \<subseteq> set dir \<union> set leaf \<union> {CHR 0x5C}"
  by (auto simp: joinPath_def)

lemma joinPath_oneLine:
  assumes "list_all (\<lambda>c. \<not> is_newline c) dir" "list_all (\<lambda>c. \<not> is_newline c) leaf"
  shows "list_all (\<lambda>c. \<not> is_newline c) (joinPath dir leaf)"
  using assms by (auto simp: joinPath_def is_newline_def)

lemma localSetting_keys:
  "pathAccepted wide ''loader'' v \<Longrightarrow> \<not> rd_loader r \<Longrightarrow>
     localSetting wide ''loader'' v r = Some (r\<lparr>rd_loader := True, rd_candidate := (rd_candidate r)\<lparr>lc_loader := v\<rparr>\<rparr>)"
  "pathAccepted wide ''graphics'' v \<Longrightarrow> \<not> rd_graphics r \<Longrightarrow>
     localSetting wide ''graphics'' v r = Some (r\<lparr>rd_graphics := True, rd_candidate := (rd_candidate r)\<lparr>lc_graphics := v\<rparr>\<rparr>)"
  by (simp_all add: localSetting_def)

lemma native_reads:
  assumes loader: "localConfigAbsolute wide (joinPath (nativeDirOf s) ''openxr_loader.dll'')"
    and graphics: "localConfigAbsolute wide (joinPath (sv_gameDir s) kD3d11)"
    and oneLine: "list_all (\<lambda>c. \<not> is_newline c) (nativeDirOf s)" "list_all (\<lambda>c. \<not> is_newline c) (sv_gameDir s)"
  shows "localLines wide (nativeConfigText s) startReading = Some
    \<lparr>rd_section = True, rd_version = True, rd_loader = True, rd_graphics = True, rd_runtime = True, rd_separate = True,
     rd_priority = False, rd_overlap = False,
     rd_candidate = \<lparr>lc_loader = joinPath (nativeDirOf s) ''openxr_loader.dll'', lc_graphics = joinPath (sv_gameDir s) kD3d11,
       lc_runtime = ''system'', lc_separateDevice = True, lc_frameThreadPriorityHigh = True, lc_frameEndOverlap = True\<rparr>\<rparr>"
proof -
  let ?l = "joinPath (nativeDirOf s) ''openxr_loader.dll''" and ?g = "joinPath (sv_gameDir s) kD3d11"
  have l: "trim ?l = ?l" "?l \<noteq> []" and g: "trim ?g = ?g" "?g \<noteq> []"
    using absolute_trim [OF loader] absolute_trim [OF graphics] by (simp_all add: joinPath_last is_blank_def)
  have nl: "list_all (\<lambda>c. \<not> is_newline c) (''loader'' @ CHR ''='' # ?l)"
    "list_all (\<lambda>c. \<not> is_newline c) (''graphics'' @ CHR ''='' # ?g)"
    "list_all (\<lambda>c. \<not> is_newline c) ''[openxr]''" "list_all (\<lambda>c. \<not> is_newline c) ''version=1''"
    "list_all (\<lambda>c. \<not> is_newline c) ''runtime=system''" "list_all (\<lambda>c. \<not> is_newline c) ''separate_device=1''"
    using joinPath_oneLine [OF oneLine(1), of "''openxr_loader.dll''"] joinPath_oneLine [OF oneLine(2), of kD3d11]
    by (simp_all add: is_newline_def)
  have fixed: "localLine wide ''[openxr]'' startReading = Some (startReading\<lparr>rd_section := True\<rparr>)"
    "localLine wide ''version=1'' r = localSetting wide ''version'' ''1'' r"
    "localLine wide ''runtime=system'' r = localSetting wide ''runtime'' ''system'' r"
    "localLine wide ''separate_device=1'' r = localSetting wide ''separate_device'' ''1'' r"
    if "rd_section r" for r
    using that by (simp_all add: localLine_def trim_def rtrim_def is_blank_def startReading_def)
  have rows: "localLine wide (''loader'' @ CHR ''='' # ?l) r = localSetting wide ''loader'' ?l r"
    "localLine wide (''graphics'' @ CHR ''='' # ?g) r = localSetting wide ''graphics'' ?g r" if "rd_section r" for r
    using that l g by (intro localLine_row; simp add: trim_def rtrim_def is_blank_def)+
  have head: "localLine wide ''[openxr]'' startReading = Some (startReading\<lparr>rd_section := True\<rparr>)"
    by (rule fixed(1) [of "startReading\<lparr>rd_section := True\<rparr>"]) simp
  note ok = localSetting_keys [unfolded pathAccepted_def] loader graphics
  show ?thesis
    unfolding nativeConfig_lines
    by (simp only: localLines_crlf [OF nl(1)] localLines_crlf [OF nl(2)] localLines_crlf [OF nl(3)] localLines_crlf [OF nl(4)]
        localLines_crlf [OF nl(5)] localLines_crlf [OF nl(6), of wide "[]", unfolded append_Nil2] head option.case)
      (simp add: rows [unfolded append.simps] fixed ok localSetting_def pathAccepted_def localConfigUsesSystemRuntime_def localLines_end
        startReading_def noLocalConfig_def)
qed

lemma planIni_body: "set (pb_body b) \<subseteq> set (pb_body (planIni sha bdir s o' p b))"
  by (auto simp: planIni_def mergeSettings_def Let_def addNote_def addProblem_def addBackup_def addWriteText_def
      split: prod.splits if_splits)

lemma planNative_writes:
  assumes "di_sha256 (sv_nativeConfig s) \<noteq> sha (nativeConfigText s) \<or> op_repair o'"
  shows "noStep\<lparr>sp_action := WriteText, sp_text := nativeConfigText s, sp_to := joinPath (nativeDirOf s) ''edvr_openxr.ini''\<rparr>
    \<in> set (pb_body (planNative sha bdir s o' p b)) \<and> pb_changed (planNative sha bdir s o' p b)"
  using assms by (auto simp: planNative_def Let_def addWriteText_def)

lemma planIni_changed: "pb_changed b \<Longrightarrow> pb_changed (planIni sha bdir s o' p b)"
  by (auto simp: planIni_def mergeSettings_def Let_def addNote_def addProblem_def addBackup_def addWriteText_def
      split: prod.splits if_splits)

lemma planInstall_writesConfig:
  assumes "installBlocked s p = None" "di_sha256 (sv_nativeConfig s) \<noteq> sha (nativeConfigText s) \<or> op_repair o'"
  shows "noStep\<lparr>sp_action := WriteText, sp_text := nativeConfigText s, sp_to := joinPath (nativeDirOf s) ''edvr_openxr.ini''\<rparr>
    \<in> set (pl_steps (planInstall sha s o' p))"
proof -
  note w = planNative_writes [where sha = sha and s = s and o' = o', OF assms(2)]
  have "pb_changed (planBody sha s o' p)"
    unfolding planBody_def Let_def by (rule planIni_changed [OF w [THEN conjunct2]])
  moreover have "noStep\<lparr>sp_action := WriteText, sp_text := nativeConfigText s,
      sp_to := joinPath (nativeDirOf s) ''edvr_openxr.ini''\<rparr> \<in> set (pb_body (planBody sha s o' p))"
    unfolding planBody_def Let_def by (rule subsetD [OF planIni_body w [THEN conjunct1]])
  ultimately show ?thesis using assms(1) by (simp add: planInstall_def installSteps_def Let_def)
qed

text \<open>
  C14: the startup configuration the installer writes is one the runtime accepts: read back it is ready and names
  the installed loader and graphics library and the system runtime, with the defaults of both optional
  settings; and a plan that is not blocked writes it unless the file is already there byte for byte by its hash.
\<close>

theorem native_config_reads_back:
  assumes "localConfigAbsolute wide (joinPath (nativeDirOf s) ''openxr_loader.dll'')"
    and "localConfigAbsolute wide (joinPath (sv_gameDir s) kD3d11)"
    and "list_all (\<lambda>c. \<not> is_newline c) (nativeDirOf s)" "list_all (\<lambda>c. \<not> is_newline c) (sv_gameDir s)"
    and "length (nativeConfigText s) \<le> 65536" "0 < wide (nativeConfigText s)"
    and "installBlocked s p = None" "di_sha256 (sv_nativeConfig s) \<noteq> sha (nativeConfigText s) \<or> op_repair o'"
  shows "readLocalConfig wide AttrOther (Some (nativeConfigText s)) =
      (LocalReady, \<lparr>lc_loader = joinPath (nativeDirOf s) ''openxr_loader.dll'', lc_graphics = joinPath (sv_gameDir s) kD3d11,
         lc_runtime = ''system'', lc_separateDevice = True, lc_frameThreadPriorityHigh = True, lc_frameEndOverlap = True\<rparr>) \<and>
    noStep\<lparr>sp_action := WriteText, sp_text := nativeConfigText s, sp_to := joinPath (nativeDirOf s) ''edvr_openxr.ini''\<rparr>
      \<in> set (pl_steps (planInstall sha s o' p))"
proof -
  have "CHR 0x00 \<notin> set (nativeConfigText s)"
    using assms(1,2) by (auto simp: nativeConfigText_def crlf_def localConfigAbsolute_def)
  then have "readLocalConfig wide AttrOther (Some (nativeConfigText s)) =
      (LocalReady, \<lparr>lc_loader = joinPath (nativeDirOf s) ''openxr_loader.dll'', lc_graphics = joinPath (sv_gameDir s) kD3d11,
         lc_runtime = ''system'', lc_separateDevice = True, lc_frameThreadPriorityHigh = True, lc_frameEndOverlap = True\<rparr>)"
    using assms(5,6) by (simp add: readLocalConfig_def localConfigReadFile_def native_reads [OF assms(1-4)] complete_def)
  then show ?thesis using planInstall_writesConfig [where sha = sha and s = s and o' = o', OF assms(7,8)] by blast
qed

definition startupSurvey :: Survey where
  "startupSurvey = \<lparr>sv_gameDir = ''C:/g'', sv_openvrDir = ''C:/g/v'', sv_gameRunningHere = False, sv_gameRunningElsewhere = False,
     sv_d3d11 = noDll, sv_openxrLoader = noDll, sv_nativeConfig = noDll, sv_openxrLicense = noDll,
     sv_otherD3d11 = [], sv_iniPresent = False, sv_iniText = [], sv_baseIniText = [], sv_ngx = noDll, sv_nvidiaAdapter = False,
     sv_haveOpenvrDir = True, sv_openvrCurrent = noDll, sv_openvrOrig = noDll, sv_openvrOrigName = kOpenvrOrig,
     sv_openvrOrigInBackups = [], sv_state = noState, sv_eliteProfileValid = True\<rparr>"

definition startupPayload :: PayloadInfo where
  "startupPayload = \<lparr>pi_version = ''1'', pi_haveD3d11 = True, pi_d3d11Sha = ''x'', pi_haveOpenvr = True, pi_openvrSha = ''y'',
     pi_haveNgx = False, pi_ngxSha = [], pi_nativePairValid = True, pi_haveOpenxrLoader = True, pi_openxrLoaderSha = ''z'',
     pi_haveOpenxrLicense = True, pi_openxrLicenseSha = ''w'', pi_iniText = ''a=1''\<rparr>"

definition startupOptions :: Options where
  "startupOptions = \<lparr>op_keepSettings = True, op_repair = False, op_removeSettings = False, op_backupStamp = ''s'', op_nowUtc = ''t''\<rparr>"

theorem native_config_reads_back_witness:
  "fst (readLocalConfig length AttrOther (Some (nativeConfigText startupSurvey))) = LocalReady \<and>
   (\<exists>st \<in> set (pl_steps (planInstall (\<lambda>t. ''h'' @ t) startupSurvey startupOptions startupPayload)).
      sp_text st = nativeConfigText startupSurvey)"
proof -
  have "localConfigAbsolute length (joinPath (nativeDirOf startupSurvey) ''openxr_loader.dll'')"
    "localConfigAbsolute length (joinPath (sv_gameDir startupSurvey) kD3d11)"
    "list_all (\<lambda>c. \<not> is_newline c) (nativeDirOf startupSurvey)" "list_all (\<lambda>c. \<not> is_newline c) (sv_gameDir startupSurvey)"
    "installBlocked startupSurvey startupPayload = None"
    "di_sha256 (sv_nativeConfig startupSurvey) \<noteq> ''h'' @ nativeConfigText startupSurvey \<or> op_repair startupOptions"
    by code_simp+
  moreover have "length (nativeConfigText startupSurvey) \<le> 65536" "0 < length (nativeConfigText startupSurvey)"
    by (simp_all add: nativeConfigText_def nativeDirOf_def startupSurvey_def joinPath_def isSlash_def crlf_def)
  ultimately show ?thesis
    using native_config_reads_back [of length startupSurvey startupPayload "\<lambda>t. ''h'' @ t" startupOptions]
    by (auto intro!: bexI [where x = "noStep\<lparr>sp_action := WriteText, sp_text := nativeConfigText startupSurvey,
        sp_to := joinPath (nativeDirOf startupSurvey) ''edvr_openxr.ini''\<rparr>"])
qed

end
