(* ===== verification/GpuScope.thy ===== *)
theory GpuScope
  imports Prelude
begin

text \<open>
  The timestamp-query driver both GPU clocks call (\<^verbatim>\<open>GpuSpanDriver\<close> of \<^verbatim>\<open>src/common/gpu_span_state.h\<close> and
  \<^verbatim>\<open>DisjointBackend\<close> of \<^verbatim>\<open>src/common/gpu_disjoint_clock.h\<close>) as the order of calls it allows, and the interface of a
  component that calls it. A clock keeps the calls it made, newest first, each with the driver's answer.
\<close>

section \<open>Who may call\<close>

record GpuSpanOwner =
  go_device :: u64
  go_context :: u64
  go_thread :: u32
  go_immediate :: bool

definition ownerMatches :: "GpuSpanOwner \<Rightarrow> GpuSpanOwner \<Rightarrow> bool" where
  "ownerMatches owner o' \<longleftrightarrow>
     go_device owner \<noteq> 0 \<and> go_context owner \<noteq> 0 \<and> go_thread owner \<noteq> 0 \<and> go_immediate owner \<and>
     go_device o' = go_device owner \<and> go_context o' = go_context owner \<and> go_thread o' = go_thread owner \<and> go_immediate o'"

section \<open>The order of calls\<close>

datatype GpuCall = GCreate nat bool | GBegin nat bool | GStamp nat nat bool | GEnd nat bool | GPoll nat | GDestroy nat

text \<open>
  What the driver holds: the created slots, those whose last scope was ended, the one open scope, and whether an
  \<^verbatim>\<open>end\<close> failed, after which the closure of that scope is uncertain and no scope may begin or be polled.
\<close>

record GpuScope =
  sc_created :: "nat \<Rightarrow> bool"
  sc_ended :: "nat \<Rightarrow> bool"
  sc_open :: "nat option"
  sc_uncertain :: bool

definition noScope :: GpuScope where
  "noScope = \<lparr>sc_created = (\<lambda>_. False), sc_ended = (\<lambda>_. False), sc_open = None, sc_uncertain = False\<rparr>"

fun scopeStep :: "GpuCall \<Rightarrow> GpuScope \<Rightarrow> GpuScope option" where
  "scopeStep (GCreate i ok) c = (if sc_created c i \<or> sc_uncertain c then None else Some (c\<lparr>sc_created := (sc_created c)(i := ok)\<rparr>))"
| "scopeStep (GBegin i ok) c =
     (if sc_created c i \<and> sc_open c = None \<and> \<not> sc_uncertain c
      then Some (if ok then c\<lparr>sc_open := Some i, sc_ended := (sc_ended c)(i := False)\<rparr> else c) else None)"
| "scopeStep (GStamp i k ok) c = (if sc_open c = Some i \<and> k < 8 then Some c else None)"
| "scopeStep (GEnd i ok) c =
     (if sc_open c = Some i
      then Some (c\<lparr>sc_open := None, sc_ended := (sc_ended c)(i := ok), sc_uncertain := (sc_uncertain c \<or> \<not> ok)\<rparr>) else None)"
| "scopeStep (GPoll i) c = (if sc_created c i \<and> sc_ended c i \<and> \<not> sc_uncertain c then Some c else None)"
| "scopeStep (GDestroy i) c =
     (if sc_created c i \<and> sc_open c \<noteq> Some i
      then Some (c\<lparr>sc_created := (sc_created c)(i := False), sc_ended := (sc_ended c)(i := False)\<rparr>) else None)"

fun scopeOf :: "GpuCall list \<Rightarrow> GpuScope option" where
  "scopeOf [] = Some noScope"
| "scopeOf (call # calls) = (case scopeOf calls of None \<Rightarrow> None | Some c \<Rightarrow> scopeStep call c)"

section \<open>A component that calls the driver\<close>

locale gpu_client = op_machine exec ok inv
  for exec :: "'op \<Rightarrow> 's \<Rightarrow> 's" and ok :: "'op \<Rightarrow> bool" and inv :: "'s \<Rightarrow> bool" +
  fixes calls :: "'s \<Rightarrow> GpuCall list"
  assumes inv_scope: "inv s \<Longrightarrow> scopeOf (calls s) \<noteq> None"
begin

lemma run_scope: "list_all ok as \<Longrightarrow> inv s \<Longrightarrow> scopeOf (calls (fold exec as s)) \<noteq> None"
  using run_inv inv_scope by blast

end

end
