(* ===== verification/GpuSpans.thy ===== *)
theory GpuSpans
  imports GpuScope Complex_Main
begin

text \<open>
  \<^verbatim>\<open>src/common/gpu_span_state.h\<close>: the ring of eight asynchronous GPU time measurements. The driver is an argument:
  whether its n-th call works and what its n-th poll answers. A \<^verbatim>\<open>double\<close> is modelled by the rational it rounds.
\<close>

section \<open>Types\<close>

datatype GpuSpanPoll = PollPending | PollReady | PollFailed

datatype GpuSpanReason = Valid | WrongOwner | Stopped | OldSequence | NoOpenFrame | Incomplete
  | BadPair | DriverFailure | Disjoint | ZeroFrequency | BadTimestamps | Stale | RingFull | CreateFailed

datatype GpuSpanSource = RenderToSubmit | ApplicationRender

record GpuSpanRawSample =
  rs_timestampsReady :: bool
  rs_disjoint :: bool
  rs_frequency :: u64
  rs_ticks :: "nat \<Rightarrow> u64"

record GpuSpanDriver =
  gd_ok :: "nat \<Rightarrow> bool"
  gd_poll :: "nat \<Rightarrow> GpuSpanPoll \<times> GpuSpanRawSample"

record GpuSpanResult =
  sr_sequence :: u64
  sr_sourceFrame :: u64
  sr_completedAtMs :: u64
  sr_ageMs :: u64
  sr_outerMs :: rat
  sr_leftMs :: rat
  sr_rightMs :: rat
  sr_reason :: GpuSpanReason
  sr_source :: GpuSpanSource

definition newResult :: GpuSpanResult where
  "newResult = \<lparr>sr_sequence = 0, sr_sourceFrame = 0, sr_completedAtMs = 0, sr_ageMs = 0, sr_outerMs = 0, sr_leftMs = 0,
     sr_rightMs = 0, sr_reason = Incomplete, sr_source = RenderToSubmit\<rparr>"

datatype SlotState = SlotFree | SlotOpen | SlotPending | SlotFailed

text \<open>\<open>sl_order\<close> holds the first \<^verbatim>\<open>orderCount\<close> entries of \<^verbatim>\<open>order\<close>; \<open>sl_activeEye\<close> is \<open>None\<close> where the code has -1.\<close>

record Slot =
  sl_state :: SlotState
  sl_created :: bool
  sl_reason :: GpuSpanReason
  sl_sequence :: u64
  sl_sourceFrame :: u64
  sl_closedAtMs :: u64
  sl_begun :: u32
  sl_ended :: u32
  sl_order :: "nat list"
  sl_activeEye :: "nat option"
  sl_application :: bool
  sl_segmentOpen :: bool
  sl_segmentCount :: nat

definition newSlot :: Slot where
  "newSlot = \<lparr>sl_state = SlotFree, sl_created = False, sl_reason = Valid, sl_sequence = 0, sl_sourceFrame = 0, sl_closedAtMs = 0,
     sl_begun = 0, sl_ended = 0, sl_order = [], sl_activeEye = None, sl_application = False, sl_segmentOpen = False,
     sl_segmentCount = 0\<rparr>"

abbreviation kSlots :: nat where "kSlots \<equiv> 8"
abbreviation kMaxAgeMs :: u64 where "kMaxAgeMs \<equiv> 2000"

record GpuSpanState =
  gp_owner :: GpuSpanOwner
  gp_slots :: "Slot list"
  gp_open :: "nat option"
  gp_lastSequence :: u64
  gp_failed :: bool
  gp_shut :: bool
  gp_calls :: "GpuCall list"

definition newSpans :: "GpuSpanOwner \<Rightarrow> GpuSpanState" where
  "newSpans owner = \<lparr>gp_owner = owner, gp_slots = replicate kSlots newSlot, gp_open = None, gp_lastSequence = 0,
     gp_failed = False, gp_shut = False, gp_calls = []\<rparr>"

section \<open>Calls to the driver\<close>

definition driverOk :: "GpuSpanDriver \<Rightarrow> GpuSpanState \<Rightarrow> bool" where
  "driverOk d s = gd_ok d (length (gp_calls s))"

definition noteCall :: "GpuCall \<Rightarrow> GpuSpanState \<Rightarrow> GpuSpanState" where
  "noteCall c s = s\<lparr>gp_calls := c # gp_calls s\<rparr>"

definition setSlot :: "nat \<Rightarrow> Slot \<Rightarrow> GpuSpanState \<Rightarrow> GpuSpanState" where
  "setSlot i sl s = s\<lparr>gp_slots := (gp_slots s)[i := sl]\<rparr>"

definition slotAt :: "nat \<Rightarrow> GpuSpanState \<Rightarrow> Slot" where
  "slotAt i s = (if i < length (gp_slots s) then gp_slots s ! i else newSlot)"

section \<open>Closing and retiring\<close>

definition gpGate :: "GpuSpanOwner \<Rightarrow> GpuSpanState \<Rightarrow> GpuSpanReason" where
  "gpGate o' s =
     (if \<not> ownerMatches (gp_owner s) o' then WrongOwner else if gp_failed s \<or> gp_shut s then Stopped else Valid)"

text \<open>Both ways of closing leave the slot pending with its reason; the argument is the open slot.\<close>

definition leavePending :: "nat \<Rightarrow> GpuSpanReason \<Rightarrow> u64 \<Rightarrow> GpuSpanState \<Rightarrow> GpuSpanState" where
  "leavePending i reason now s =
     (setSlot i ((slotAt i s)\<lparr>sl_reason := reason, sl_closedAtMs := now, sl_state := SlotPending\<rparr>) s)\<lparr>gp_open := None\<rparr>"

definition endScope :: "GpuSpanDriver \<Rightarrow> nat \<Rightarrow> GpuSpanState \<Rightarrow> bool \<times> GpuSpanState" where
  "endScope d i s =
     (let ok = driverOk d s; s1 = noteCall (GEnd i ok) s
      in (ok, if ok then s1 else s1\<lparr>gp_failed := True\<rparr>))"

definition stampScope :: "GpuSpanDriver \<Rightarrow> nat \<Rightarrow> nat \<Rightarrow> GpuSpanState \<Rightarrow> bool \<times> GpuSpanState" where
  "stampScope d i k s = (let ok = driverOk d s in (ok, noteCall (GStamp i k ok) s))"

fun closeStamped :: "GpuSpanDriver \<Rightarrow> nat \<Rightarrow> GpuSpanReason \<Rightarrow> u64 \<Rightarrow> bool \<times> GpuSpanState \<Rightarrow> GpuSpanReason \<times> GpuSpanState" where
  "closeStamped d i reason now (stamp, s1) =
     (case endScope d i s1 of (ended, s2) \<Rightarrow>
        (let r = (if \<not> stamp \<or> \<not> ended then DriverFailure else reason) in (r, leavePending i r now s2)))"

definition gpClose :: "GpuSpanDriver \<Rightarrow> nat \<Rightarrow> GpuSpanReason \<Rightarrow> u64 \<Rightarrow> GpuSpanState \<Rightarrow> GpuSpanReason \<times> GpuSpanState" where
  "gpClose d i reason now s = closeStamped d i reason now (stampScope d i 1 s)"

definition stampSegmentEnd :: "GpuSpanDriver \<Rightarrow> nat \<Rightarrow> GpuSpanState \<Rightarrow> bool \<times> GpuSpanState" where
  "stampSegmentEnd d i s =
     (let sl = slotAt i s; k = 2 * sl_segmentCount sl - 1 in
      if \<not> sl_segmentOpen sl then (True, s)
      else
        (case (if sl_segmentCount sl \<noteq> 0 \<and> k < 8 then stampScope d i k s else (False, s)) of (stamp, s1) \<Rightarrow>
           (stamp, setSlot i ((slotAt i s1)\<lparr>sl_segmentOpen := False\<rparr>) s1)))"

definition closeApplication ::
  "GpuSpanDriver \<Rightarrow> nat \<Rightarrow> GpuSpanReason \<Rightarrow> u64 \<Rightarrow> GpuSpanState \<Rightarrow> GpuSpanReason \<times> GpuSpanState" where
  "closeApplication d i reason now s = closeStamped d i reason now (stampSegmentEnd d i s)"

definition closeOpen :: "GpuSpanDriver \<Rightarrow> u64 \<Rightarrow> nat \<Rightarrow> GpuSpanState \<Rightarrow> GpuSpanReason \<times> GpuSpanState" where
  "closeOpen d now i s =
     (if sl_application (slotAt i s) then closeApplication d i Incomplete now s else gpClose d i Incomplete now s)"

definition gpRetire :: "nat \<Rightarrow> bool \<Rightarrow> GpuSpanState \<Rightarrow> GpuSpanState" where
  "gpRetire i destroy s =
     (let created = sl_created (slotAt i s);
          s1 = (if created \<and> destroy then noteCall (GDestroy i) s else s)
      in setSlot i (newSlot\<lparr>sl_created := (created \<and> \<not> destroy)\<rparr>) s1)"

section \<open>Frames\<close>

definition freeSlot :: "GpuSpanState \<Rightarrow> nat option" where
  "freeSlot s = find (\<lambda>i. sl_state (slotAt i s) = SlotFree) [0..<kSlots]"

definition createSlot :: "GpuSpanDriver \<Rightarrow> nat \<Rightarrow> GpuSpanState \<Rightarrow> bool \<times> GpuSpanState" where
  "createSlot d i s =
     (if sl_created (slotAt i s) then (True, s)
      else
        (let ok = driverOk d s; s1 = noteCall (GCreate i ok) s
         in (ok, if ok then setSlot i ((slotAt i s1)\<lparr>sl_created := True\<rparr>) s1 else s1)))"

definition beginScope :: "GpuSpanDriver \<Rightarrow> nat \<Rightarrow> u64 \<Rightarrow> GpuSpanState \<Rightarrow> bool \<times> GpuSpanState" where
  "beginScope d i now s =
     (let ok = driverOk d s; s1 = noteCall (GBegin i ok) s; sl = slotAt i s1
      in (ok, if ok then (setSlot i (sl\<lparr>sl_state := SlotOpen\<rparr>) s1)\<lparr>gp_open := Some i\<rparr>
              else setSlot i (sl\<lparr>sl_state := SlotFailed, sl_reason := DriverFailure, sl_closedAtMs := now\<rparr>) s1))"

text \<open>The part of a begin shared by both modes: the checks, the frame left open, and the search of a free slot.\<close>

definition claimSlot ::
  "GpuSpanDriver \<Rightarrow> u64 \<Rightarrow> u64 \<Rightarrow> GpuSpanOwner \<Rightarrow> GpuSpanState \<Rightarrow> (GpuSpanReason + nat) \<times> GpuSpanState" where
  "claimSlot d sequence now o' s =
     (if gpGate o' s \<noteq> Valid then (Inl (gpGate o' s), s)
      else if sequence = 0 \<or> sequence \<le> gp_lastSequence s then (Inl OldSequence, s)
      else
        (let s1 = s\<lparr>gp_lastSequence := sequence\<rparr>;
             s2 = (case gp_open s1 of None \<Rightarrow> s1 | Some i \<Rightarrow> snd (closeOpen d now i s1))
         in if gp_failed s2 then (Inl DriverFailure, s2)
            else (case freeSlot s2 of
                    None \<Rightarrow> (Inl RingFull, s2)
                  | Some i \<Rightarrow>
                      (case createSlot d i s2 of (ok, s3) \<Rightarrow> (if ok then Inr i else Inl CreateFailed, s3)))))"

definition openFrame :: "GpuSpanDriver \<Rightarrow> u64 \<Rightarrow> nat \<Rightarrow> GpuSpanState \<Rightarrow> GpuSpanReason \<times> GpuSpanState" where
  "openFrame d now i s =
     (case beginScope d i now s of (ok, s1) \<Rightarrow>
        if \<not> ok then (DriverFailure, s1)
        else (case stampScope d i 0 s1 of (stamp, s2) \<Rightarrow> if stamp then (Valid, s2) else gpClose d i DriverFailure now s2))"

definition beginFrame ::
  "GpuSpanDriver \<Rightarrow> u64 \<Rightarrow> u64 \<Rightarrow> u64 \<Rightarrow> GpuSpanOwner \<Rightarrow> GpuSpanState \<Rightarrow> GpuSpanReason \<times> GpuSpanState" where
  "beginFrame d sequence sourceFrame now o' s =
     (case claimSlot d sequence now o' s of
        (Inl reason, s1) \<Rightarrow> (reason, s1)
      | (Inr i, s1) \<Rightarrow>
          openFrame d now i (setSlot i ((slotAt i s1)\<lparr>sl_sequence := sequence, sl_sourceFrame := sourceFrame\<rparr>) s1))"

definition openApplication :: "GpuSpanDriver \<Rightarrow> u64 \<Rightarrow> nat \<Rightarrow> GpuSpanState \<Rightarrow> GpuSpanReason \<times> GpuSpanState" where
  "openApplication d now i s =
     (case beginScope d i now s of (ok, s1) \<Rightarrow>
        if \<not> ok then (DriverFailure, s1)
        else (case stampScope d i 0 s1 of (stamp, s2) \<Rightarrow>
                (let s3 = setSlot i ((slotAt i s2)\<lparr>sl_segmentCount := 1, sl_segmentOpen := stamp\<rparr>) s2
                 in if stamp then (Valid, s3) else closeApplication d i DriverFailure now s3)))"

definition beginApplicationFrame ::
  "GpuSpanDriver \<Rightarrow> u64 \<Rightarrow> u64 \<Rightarrow> u64 \<Rightarrow> GpuSpanOwner \<Rightarrow> GpuSpanState \<Rightarrow> GpuSpanReason \<times> GpuSpanState" where
  "beginApplicationFrame d sequence sourceFrame now o' s =
     (case claimSlot d sequence now o' s of
        (Inl reason, s1) \<Rightarrow> (reason, s1)
      | (Inr i, s1) \<Rightarrow>
          openApplication d now i (setSlot i (newSlot\<lparr>sl_created := True, sl_application := True, sl_sequence := sequence,
             sl_sourceFrame := sourceFrame\<rparr>) s1))"

text \<open>Every operation on the open frame starts with the gate and the check that there is one.\<close>

definition onOpen :: "GpuSpanOwner \<Rightarrow> (nat \<Rightarrow> GpuSpanState \<Rightarrow> GpuSpanReason \<times> GpuSpanState) \<Rightarrow> GpuSpanState \<Rightarrow>
  GpuSpanReason \<times> GpuSpanState" where
  "onOpen o' f s =
     (if gpGate o' s \<noteq> Valid then (gpGate o' s, s)
      else (case gp_open s of None \<Rightarrow> (NoOpenFrame, s) | Some i \<Rightarrow> f i s))"

definition endSegment :: "GpuSpanDriver \<Rightarrow> u64 \<Rightarrow> nat \<Rightarrow> GpuSpanState \<Rightarrow> GpuSpanReason \<times> GpuSpanState" where
  "endSegment d now i s =
     (let sl = slotAt i s in
      if \<not> sl_application sl \<or> \<not> sl_segmentOpen sl \<or> sl_segmentCount sl = 0 \<or> 4 < sl_segmentCount sl
      then closeApplication d i Incomplete now s
      else (case stampScope d i (2 * sl_segmentCount sl - 1) s of (ok, s1) \<Rightarrow>
              if \<not> ok then closeApplication d i DriverFailure now s1
              else (Valid, setSlot i ((slotAt i s1)\<lparr>sl_segmentOpen := False\<rparr>) s1)))"

definition endApplicationSegment :: "GpuSpanDriver \<Rightarrow> u64 \<Rightarrow> GpuSpanOwner \<Rightarrow> GpuSpanState \<Rightarrow> GpuSpanReason \<times> GpuSpanState" where
  "endApplicationSegment d now o' s = onOpen o' (endSegment d now) s"

definition resumeSegment :: "GpuSpanDriver \<Rightarrow> u64 \<Rightarrow> nat \<Rightarrow> GpuSpanState \<Rightarrow> GpuSpanReason \<times> GpuSpanState" where
  "resumeSegment d now i s =
     (let sl = slotAt i s in
      if \<not> sl_application sl \<or> sl_segmentOpen sl \<or> 4 \<le> sl_segmentCount sl
      then (if sl_application sl then RingFull else Incomplete, s)
      else (case stampScope d i (2 * sl_segmentCount sl) s of (ok, s1) \<Rightarrow>
              if \<not> ok then closeApplication d i DriverFailure now s1
              else (Valid, setSlot i ((slotAt i s1)\<lparr>sl_segmentCount := sl_segmentCount sl + 1, sl_segmentOpen := True\<rparr>) s1)))"

definition resumeApplicationSegment :: "GpuSpanDriver \<Rightarrow> u64 \<Rightarrow> GpuSpanOwner \<Rightarrow> GpuSpanState \<Rightarrow> GpuSpanReason \<times> GpuSpanState" where
  "resumeApplicationSegment d now o' s = onOpen o' (resumeSegment d now) s"

definition finishSegments :: "GpuSpanDriver \<Rightarrow> u64 \<Rightarrow> nat \<Rightarrow> GpuSpanState \<Rightarrow> GpuSpanReason \<times> GpuSpanState" where
  "finishSegments d now i s =
     (let sl = slotAt i s in
      if \<not> sl_application sl then (Incomplete, s)
      else if sl_segmentOpen sl \<or> sl_segmentCount sl = 0 \<or> sl_segmentCount sl < 3 then closeApplication d i Incomplete now s
      else closeStamped d i Valid now (True, s))"

definition finishApplicationFrame :: "GpuSpanDriver \<Rightarrow> u64 \<Rightarrow> GpuSpanOwner \<Rightarrow> GpuSpanState \<Rightarrow> GpuSpanReason \<times> GpuSpanState" where
  "finishApplicationFrame d now o' s = onOpen o' (finishSegments d now) s"

definition eyeBit :: "nat \<Rightarrow> u32" where
  "eyeBit eye = push_bit eye 1"

definition eyeBegins :: "GpuSpanDriver \<Rightarrow> nat \<Rightarrow> u64 \<Rightarrow> nat \<Rightarrow> GpuSpanState \<Rightarrow> GpuSpanReason \<times> GpuSpanState" where
  "eyeBegins d eye now i s =
     (let sl = slotAt i s in
      if 1 < eye \<or> sl_activeEye sl \<noteq> None \<or> and (sl_begun sl) (eyeBit eye) \<noteq> 0 then gpClose d i BadPair now s
      else (case stampScope d i (2 + 2 * eye) s of (ok, s1) \<Rightarrow>
              if \<not> ok then gpClose d i DriverFailure now s1
              else (Valid, setSlot i ((slotAt i s1)\<lparr>sl_begun := or (sl_begun sl) (eyeBit eye), sl_activeEye := Some eye,
                             sl_order := sl_order sl @ [eye]\<rparr>) s1)))"

definition beginEye :: "GpuSpanDriver \<Rightarrow> nat \<Rightarrow> u64 \<Rightarrow> GpuSpanOwner \<Rightarrow> GpuSpanState \<Rightarrow> GpuSpanReason \<times> GpuSpanState" where
  "beginEye d eye now o' s = onOpen o' (eyeBegins d eye now) s"

definition eyeEnds :: "GpuSpanDriver \<Rightarrow> nat \<Rightarrow> u64 \<Rightarrow> nat \<Rightarrow> GpuSpanState \<Rightarrow> GpuSpanReason \<times> GpuSpanState" where
  "eyeEnds d eye now i s =
     (let sl = slotAt i s in
      if 1 < eye \<or> sl_activeEye sl \<noteq> Some eye then gpClose d i BadPair now s
      else (case stampScope d i (3 + 2 * eye) s of (ok, s1) \<Rightarrow>
              if \<not> ok then gpClose d i DriverFailure now s1
              else (Valid, setSlot i ((slotAt i s1)\<lparr>sl_ended := or (sl_ended sl) (eyeBit eye), sl_activeEye := None\<rparr>) s1)))"

definition endEye :: "GpuSpanDriver \<Rightarrow> nat \<Rightarrow> u64 \<Rightarrow> GpuSpanOwner \<Rightarrow> GpuSpanState \<Rightarrow> GpuSpanReason \<times> GpuSpanState" where
  "endEye d eye now o' s = onOpen o' (eyeEnds d eye now) s"

definition finishFrame :: "GpuSpanDriver \<Rightarrow> u64 \<Rightarrow> GpuSpanOwner \<Rightarrow> GpuSpanState \<Rightarrow> GpuSpanReason \<times> GpuSpanState" where
  "finishFrame d now o' s =
     onOpen o' (\<lambda>i s. gpClose d i (if sl_ended (slotAt i s) = 3 \<and> sl_activeEye (slotAt i s) = None then Valid else Incomplete) now s) s"

definition invalidateFrame :: "GpuSpanDriver \<Rightarrow> u64 \<Rightarrow> GpuSpanOwner \<Rightarrow> GpuSpanState \<Rightarrow> GpuSpanReason \<times> GpuSpanState" where
  "invalidateFrame d now o' s = onOpen o' (closeOpen d now) s"

section \<open>Results\<close>

definition ageOf :: "u64 \<Rightarrow> u64 \<Rightarrow> u64" where
  "ageOf now then' = (if then' \<le> now then now - then' else 0)"

definition eyeBad :: "(nat \<Rightarrow> u64) \<Rightarrow> nat \<Rightarrow> bool" where
  "eyeBad t eye \<longleftrightarrow> t (3 + 2 * eye) < t (2 + 2 * eye) \<or> t (2 + 2 * eye) < t 0 \<or> t 1 < t (3 + 2 * eye)"

definition validate :: "Slot \<Rightarrow> GpuSpanRawSample \<Rightarrow> GpuSpanReason" where
  "validate sl raw =
     (let t = rs_ticks raw in
      if rs_disjoint raw then Disjoint
      else if rs_frequency raw = 0 then ZeroFrequency
      else if sl_ended sl \<noteq> 3 \<or> length (sl_order sl) \<noteq> 2 \<or> t 1 < t 0 then BadTimestamps
      else if eyeBad t 0 \<or> eyeBad t 1 then BadTimestamps
      else if t (2 + 2 * sl_order sl ! 1) < t (3 + 2 * sl_order sl ! 0) then BadTimestamps
      else Valid)"

text \<open>The sum of the segments \<open>n\<close> to \<open>count\<close>; \<open>None\<close> for a segment that is reversed, overlaps the previous or overflows.\<close>

function sumSegments :: "(nat \<Rightarrow> u64) \<Rightarrow> nat \<Rightarrow> nat \<Rightarrow> u64 \<Rightarrow> u64 \<Rightarrow> u64 option" where
  "sumSegments t count n ticks previousEnd =
     (if count \<le> n then Some ticks
      else
        (let k = 2 * n in
         if t (k + 1) < t k \<or> (n \<noteq> 0 \<and> t k < previousEnd) then None
         else
           (let width = t (k + 1) - t k in
            if - 1 - width < ticks then None else sumSegments t count (n + 1) (ticks + width) (t (k + 1)))))"
  by pat_completeness auto

termination sumSegments
  by (relation "measure (\<lambda>(_, count, n, _, _). count - n)") auto

declare sumSegments.simps [simp del]

definition ratOf :: "u64 \<Rightarrow> rat" where
  "ratOf w = of_nat (unat w)"

definition validateApplication :: "Slot \<Rightarrow> GpuSpanRawSample \<Rightarrow> GpuSpanReason \<times> rat" where
  "validateApplication sl raw =
     (if rs_disjoint raw then (Disjoint, 0)
      else if rs_frequency raw = 0 then (ZeroFrequency, 0)
      else if sl_segmentCount sl < 3 \<or> 4 < sl_segmentCount sl then (BadTimestamps, 0)
      else
        (case sumSegments (rs_ticks raw) (sl_segmentCount sl) 0 0 0 of
           None \<Rightarrow> (BadTimestamps, 0)
         | Some ticks \<Rightarrow>
             (let elapsed = ratOf ticks * 1000 / ratOf (rs_frequency raw)
              in (if 0 \<le> elapsed then Valid else BadTimestamps, elapsed))))"

definition noSample :: GpuSpanRawSample where
  "noSample = \<lparr>rs_timestampsReady = False, rs_disjoint = False, rs_frequency = 0, rs_ticks = (\<lambda>_. 0)\<rparr>"

definition slotResult :: "u64 \<Rightarrow> Slot \<Rightarrow> GpuSpanReason \<Rightarrow> GpuSpanRawSample \<Rightarrow> GpuSpanResult" where
  "slotResult now sl reason raw =
     (let r = newResult\<lparr>sr_sequence := sl_sequence sl, sr_sourceFrame := sl_sourceFrame sl, sr_completedAtMs := now,
                sr_ageMs := ageOf now (sl_closedAtMs sl)\<rparr>;
          t = rs_ticks raw; scale = 1000 / ratOf (rs_frequency raw)
      in if sl_application sl then
           (if reason = Valid then
              (case validateApplication sl raw of (v, elapsed) \<Rightarrow>
                 r\<lparr>sr_source := ApplicationRender, sr_outerMs := elapsed, sr_reason := v\<rparr>)
            else r\<lparr>sr_source := ApplicationRender, sr_reason := reason\<rparr>)
         else if reason = Valid then
           r\<lparr>sr_outerMs := ratOf (t 1 - t 0) * scale, sr_leftMs := ratOf (t 3 - t 2) * scale,
             sr_rightMs := ratOf (t 5 - t 4) * scale, sr_reason := Valid\<rparr>
         else r\<lparr>sr_reason := reason\<rparr>)"

definition reported :: "u64 \<Rightarrow> nat \<Rightarrow> GpuSpanReason \<Rightarrow> GpuSpanRawSample \<Rightarrow> GpuSpanState \<Rightarrow>
  GpuSpanResult list \<times> GpuSpanState" where
  "reported now i reason raw s =
     (let r = slotResult now (slotAt i s) reason raw
      in ([r], gpRetire i (sr_reason r \<noteq> Valid \<and> sr_reason r \<noteq> BadPair \<and> sr_reason r \<noteq> Incomplete) s))"

definition pollSlot :: "GpuSpanDriver \<Rightarrow> u64 \<Rightarrow> nat \<Rightarrow> GpuSpanState \<Rightarrow> GpuSpanResult list \<times> GpuSpanState" where
  "pollSlot d now i s =
     (let sl = slotAt i s in
      if sl_state sl \<noteq> SlotPending \<and> sl_state sl \<noteq> SlotFailed then ([], s)
      else if gp_failed s \<or> sl_state sl = SlotFailed then reported now i DriverFailure noSample s
      else if kMaxAgeMs < ageOf now (sl_closedAtMs sl) then reported now i Stale noSample s
      else
        (case gd_poll d (length (gp_calls s)) of (status, raw) \<Rightarrow>
           (let s1 = noteCall (GPoll i) s in
            if status = PollPending \<or> (status = PollReady \<and> \<not> rs_timestampsReady raw) then ([], s1)
            else if status = PollFailed then reported now i DriverFailure raw s1
            else if sl_reason sl = Valid \<and> \<not> sl_application sl then reported now i (validate sl raw) raw s1
            else reported now i (sl_reason sl) raw s1)))"

fun pollSlots :: "GpuSpanDriver \<Rightarrow> u64 \<Rightarrow> nat list \<Rightarrow> GpuSpanState \<Rightarrow> GpuSpanResult list \<times> GpuSpanState" where
  "pollSlots d now [] s = ([], s)"
| "pollSlots d now (i # is) s =
     (case pollSlot d now i s of (out, s1) \<Rightarrow> case pollSlots d now is s1 of (rest, s2) \<Rightarrow> (out @ rest, s2))"

definition gpPoll :: "GpuSpanDriver \<Rightarrow> u64 \<Rightarrow> GpuSpanOwner \<Rightarrow> GpuSpanState \<Rightarrow> GpuSpanResult list \<times> GpuSpanState" where
  "gpPoll d now o' s =
     (if \<not> ownerMatches (gp_owner s) o' \<or> gp_shut s then ([], s) else pollSlots d now [0..<kSlots] s)"

definition gpShutdown :: "GpuSpanDriver \<Rightarrow> u64 \<Rightarrow> GpuSpanOwner \<Rightarrow> GpuSpanState \<Rightarrow> bool \<times> GpuSpanState" where
  "gpShutdown d now o' s =
     (if \<not> ownerMatches (gp_owner s) o' \<or> gp_shut s then (False, s)
      else
        (let s1 = (case gp_open s of None \<Rightarrow> s | Some i \<Rightarrow> snd (closeOpen d now i s))
         in (True, (fold (\<lambda>i. gpRetire i True) [0..<kSlots] s1)\<lparr>gp_shut := True\<rparr>)))"

section \<open>Runs\<close>

datatype SpanOp =
    SpBeginFrame u64 u64 u64 GpuSpanOwner
  | SpBeginApplication u64 u64 u64 GpuSpanOwner
  | SpEndSegment u64 GpuSpanOwner
  | SpResumeSegment u64 GpuSpanOwner
  | SpFinishApplication u64 GpuSpanOwner
  | SpBeginEye nat u64 GpuSpanOwner
  | SpEndEye nat u64 GpuSpanOwner
  | SpFinishFrame u64 GpuSpanOwner
  | SpInvalidate u64 GpuSpanOwner
  | SpPoll u64 GpuSpanOwner
  | SpShutdown u64 GpuSpanOwner

fun execSpan :: "GpuSpanDriver \<Rightarrow> SpanOp \<Rightarrow> GpuSpanState \<Rightarrow> GpuSpanResult list \<times> GpuSpanState" where
  "execSpan d (SpBeginFrame q f now o') s = ([], snd (beginFrame d q f now o' s))"
| "execSpan d (SpBeginApplication q f now o') s = ([], snd (beginApplicationFrame d q f now o' s))"
| "execSpan d (SpEndSegment now o') s = ([], snd (endApplicationSegment d now o' s))"
| "execSpan d (SpResumeSegment now o') s = ([], snd (resumeApplicationSegment d now o' s))"
| "execSpan d (SpFinishApplication now o') s = ([], snd (finishApplicationFrame d now o' s))"
| "execSpan d (SpBeginEye e now o') s = ([], snd (beginEye d e now o' s))"
| "execSpan d (SpEndEye e now o') s = ([], snd (endEye d e now o' s))"
| "execSpan d (SpFinishFrame now o') s = ([], snd (finishFrame d now o' s))"
| "execSpan d (SpInvalidate now o') s = ([], snd (invalidateFrame d now o' s))"
| "execSpan d (SpPoll now o') s = gpPoll d now o' s"
| "execSpan d (SpShutdown now o') s = ([], snd (gpShutdown d now o' s))"

end
