(* ===== verification/GpuSpanProps.thy ===== *)
theory GpuSpanProps
  imports GpuSpans
begin

text \<open>
  The order of the calls \<^verbatim>\<open>GpuSpanState\<close> makes to its driver.
\<close>

section \<open>Slots\<close>


lemma span_fields [simp]:
  "gp_slots (noteCall c s) = gp_slots s" "gp_open (noteCall c s) = gp_open s" "gp_failed (noteCall c s) = gp_failed s"
  "gp_calls (noteCall c s) = c # gp_calls s" "gp_owner (noteCall c s) = gp_owner s" "gp_shut (noteCall c s) = gp_shut s"
  "gp_lastSequence (noteCall c s) = gp_lastSequence s"
  "gp_open (setSlot i sl s) = gp_open s" "gp_failed (setSlot i sl s) = gp_failed s" "gp_calls (setSlot i sl s) = gp_calls s"
  "gp_owner (setSlot i sl s) = gp_owner s" "gp_shut (setSlot i sl s) = gp_shut s" "gp_lastSequence (setSlot i sl s) = gp_lastSequence s"
  "length (gp_slots (setSlot i sl s)) = length (gp_slots s)"
  by (simp_all add: noteCall_def setSlot_def)

lemma slotAt_simps [simp]:
  "slotAt i (noteCall c s) = slotAt i s"
  "slotAt i (s\<lparr>gp_open := x\<rparr>) = slotAt i s" "slotAt i (s\<lparr>gp_failed := b\<rparr>) = slotAt i s"
  "slotAt i (s\<lparr>gp_lastSequence := q\<rparr>) = slotAt i s" "slotAt i (s\<lparr>gp_shut := b\<rparr>) = slotAt i s"
  by (simp_all add: slotAt_def noteCall_def)

lemma slotAt_set: "slotAt j (setSlot i sl s) = (if j = i \<and> i < length (gp_slots s) then sl else slotAt j s)"
  by (simp add: slotAt_def setSlot_def)

lemma slotAt_beyond: "length (gp_slots s) \<le> i \<Longrightarrow> slotAt i s = newSlot"
  by (simp add: slotAt_def)

definition slotTracks :: "GpuScope \<Rightarrow> GpuSpanState \<Rightarrow> nat \<Rightarrow> bool" where
  "slotTracks c s i \<longleftrightarrow> sc_created c i = sl_created (slotAt i s) \<and>
     (sl_state (slotAt i s) = SlotOpen \<longleftrightarrow> gp_open s = Some i) \<and>
     (sl_state (slotAt i s) = SlotPending \<longrightarrow> gp_failed s \<or> sc_ended c i) \<and>
     (sl_state (slotAt i s) \<noteq> SlotFree \<longrightarrow> sl_created (slotAt i s))"

definition spanTracks :: "GpuScope \<Rightarrow> GpuSpanState \<Rightarrow> bool" where
  "spanTracks c s \<longleftrightarrow> length (gp_slots s) = kSlots \<and> sc_open c = gp_open s \<and> sc_uncertain c = gp_failed s \<and>
     (gp_failed s \<longrightarrow> gp_open s = None) \<and> (\<forall>i. slotTracks c s i)"

lemma tracks_slot: "spanTracks c s \<Longrightarrow> slotTracks c s i"
  by (simp add: spanTracks_def)

lemma tracks_base:
  "spanTracks c s \<Longrightarrow> length (gp_slots s) = kSlots \<and> sc_open c = gp_open s \<and> sc_uncertain c = gp_failed s \<and>
     (gp_failed s \<longrightarrow> gp_open s = None)"
  by (simp add: spanTracks_def)

lemma tracksI:
  assumes "spanTracks c s" "length (gp_slots s') = length (gp_slots s)" "sc_open c' = gp_open s'" "sc_uncertain c' = gp_failed s'"
    "gp_failed s' \<longrightarrow> gp_open s' = None"
    "\<And>j. slotTracks c s j \<Longrightarrow> slotTracks c' s' j"
  shows "spanTracks c' s'"
  using assms by (simp add: spanTracks_def)

definition spanScope :: "GpuSpanState \<Rightarrow> bool" where
  "spanScope s \<longleftrightarrow> (\<exists>c. scopeOf (gp_calls s) = Some c \<and> spanTracks c s)"

lemma spanScopeI: "scopeOf (gp_calls s) = Some c \<Longrightarrow> spanTracks c s \<Longrightarrow> spanScope s"
  by (auto simp: spanScope_def)

lemma open_slot:
  assumes "spanTracks c s" "gp_open s = Some i"
  shows "i < kSlots" "sl_created (slotAt i s)"
proof -
  have o: "sl_state (slotAt i s) = SlotOpen" "sl_created (slotAt i s)"
    using assms(2) tracks_slot [OF assms(1), of i] by (simp_all add: slotTracks_def)
  then have "\<not> length (gp_slots s) \<le> i" using slotAt_beyond [of s i] by (auto simp: newSlot_def)
  then show "i < kSlots" using tracks_base [OF assms(1)] by simp
  show "sl_created (slotAt i s)" by (rule o(2))
qed

lemma quiet_scope:
  assumes "spanScope s" "sl_state sl = sl_state (slotAt i s)" "sl_created sl = sl_created (slotAt i s)"
  shows "spanScope (setSlot i sl s)"
proof -
  obtain c where c: "scopeOf (gp_calls s) = Some c" "spanTracks c s" using assms(1) by (auto simp: spanScope_def)
  have "spanTracks c (setSlot i sl s)"
    by (rule tracksI [OF c(2)]) (use tracks_base [OF c(2)] assms(2,3) in \<open>auto simp: slotTracks_def slotAt_set\<close>)
  with c show ?thesis by (auto intro: spanScopeI)
qed

lemma lastSequence_scope [simp]: "spanScope (s\<lparr>gp_lastSequence := q\<rparr>) = spanScope s"
  by (simp add: spanScope_def spanTracks_def slotTracks_def)

lemma stamp_scope:
  assumes "spanScope s" "gp_open s = Some i" "k < 8"
  shows "spanScope (snd (stampScope d i k s)) \<and> gp_open (snd (stampScope d i k s)) = Some i"
  using assms by (auto simp: spanScope_def spanTracks_def slotTracks_def stampScope_def Let_def)

lemma closeStamped_facts:
  fixes d i r now b s
  defines "s' \<equiv> snd (closeStamped d i r now (b, s))"
  shows "gp_calls s' = GEnd i (driverOk d s) # gp_calls s" "gp_open s' = None" "gp_failed s' = (gp_failed s \<or> \<not> driverOk d s)"
    "length (gp_slots s') = length (gp_slots s)" "j \<noteq> i \<Longrightarrow> slotAt j s' = slotAt j s"
    "i < length (gp_slots s) \<Longrightarrow> slotAt i s' = (slotAt i s)\<lparr>sl_state := SlotPending, sl_closedAtMs := now,
       sl_reason := (if \<not> b \<or> \<not> driverOk d s then DriverFailure else r)\<rparr>"
    "gp_owner s' = gp_owner s" "gp_shut s' = gp_shut s" "gp_lastSequence s' = gp_lastSequence s"
  by (simp_all add: s'_def endScope_def leavePending_def Let_def slotAt_set)

lemma closeStamped_scope:
  assumes "spanScope s" "gp_open s = Some i"
  shows "spanScope (snd (closeStamped d i r now (b, s)))"
proof -
  obtain c where c: "scopeOf (gp_calls s) = Some c" "spanTracks c s" using assms(1) by (auto simp: spanScope_def)
  let ?s = "snd (closeStamped d i r now (b, s))" and ?ok = "driverOk d s"
  let ?c = "c\<lparr>sc_open := None, sc_ended := (sc_ended c)(i := ?ok), sc_uncertain := (sc_uncertain c \<or> \<not> ?ok)\<rparr>"
  have i: "i < length (gp_slots s)" using open_slot(1) [OF c(2) assms(2)] tracks_base [OF c(2)] by simp
  note f = closeStamped_facts [where d = d and i = i and r = r and now = now and b = b and s = s]
  note [simp del] = closeStamped.simps
  have "scopeOf (gp_calls ?s) = Some ?c" using c(1) tracks_base [OF c(2)] assms(2) by (simp add: f)
  moreover have "spanTracks ?c ?s"
  proof (rule tracksI [OF c(2)])
    show "slotTracks ?c ?s j" if "slotTracks c s j" for j
      using that assms(2) by (cases "j = i") (simp_all add: slotTracks_def f f(6) [OF i] open_slot(2) [OF c(2) assms(2)])
  qed (use tracks_base [OF c(2)] in \<open>simp_all add: f\<close>)
  ultimately show ?thesis by (rule spanScopeI)
qed

lemma close_scope: "spanScope s \<Longrightarrow> gp_open s = Some i \<Longrightarrow> spanScope (snd (gpClose d i r now s))"
  using stamp_scope [of s i 1 d] closeStamped_scope [of "snd (stampScope d i 1 s)" i d r now "fst (stampScope d i 1 s)"]
  by (simp add: gpClose_def)

lemma stampSegmentEnd_scope:
  assumes "spanScope s" "gp_open s = Some i"
  shows "spanScope (snd (stampSegmentEnd d i s)) \<and> gp_open (snd (stampSegmentEnd d i s)) = Some i"
  using stamp_scope [OF assms, of "2 * sl_segmentCount (slotAt i s) - 1" d] assms
  by (auto simp: stampSegmentEnd_def Let_def split: prod.splits intro!: quiet_scope)

lemma closeApplication_scope: "spanScope s \<Longrightarrow> gp_open s = Some i \<Longrightarrow> spanScope (snd (closeApplication d i r now s))"
  using stampSegmentEnd_scope [of s i d] closeStamped_scope [of "snd (stampSegmentEnd d i s)" i d r now "fst (stampSegmentEnd d i s)"]
  by (simp add: closeApplication_def)

lemma closeOpen_scope: "spanScope s \<Longrightarrow> gp_open s = Some i \<Longrightarrow> spanScope (snd (closeOpen d now i s))"
  by (simp add: closeOpen_def close_scope closeApplication_scope)

lemma closeStamped_open: "gp_open (snd (closeStamped d i r now bs)) = None"
  by (cases bs) (simp add: leavePending_def Let_def split: prod.splits)

lemma closeOpen_open: "gp_open (snd (closeOpen d now i s)) = None"
  by (simp add: closeOpen_def closeApplication_def gpClose_def closeStamped_open)

lemma retire_facts:
  assumes "length (gp_slots s) = kSlots" "i < kSlots"
  shows "gp_calls (gpRetire i b s) = (if sl_created (slotAt i s) \<and> b then GDestroy i # gp_calls s else gp_calls s)"
    "gp_open (gpRetire i b s) = gp_open s" "gp_failed (gpRetire i b s) = gp_failed s" "gp_shut (gpRetire i b s) = gp_shut s"
    "length (gp_slots (gpRetire i b s)) = length (gp_slots s)"
    "slotAt j (gpRetire i b s) = (if j = i then newSlot\<lparr>sl_created := (sl_created (slotAt i s) \<and> \<not> b)\<rparr> else slotAt j s)"
    "gp_owner (gpRetire i b s) = gp_owner s" "gp_lastSequence (gpRetire i b s) = gp_lastSequence s"
  using assms by (simp_all add: gpRetire_def Let_def slotAt_set)

lemma retire_scope:
  assumes "spanScope s" "gp_open s \<noteq> Some i" "i < kSlots"
  shows "spanScope (gpRetire i b s)"
proof -
  obtain c where c: "scopeOf (gp_calls s) = Some c" "spanTracks c s" using assms(1) by (auto simp: spanScope_def)
  have len: "length (gp_slots s) = kSlots" using tracks_base [OF c(2)] by simp
  note f = retire_facts [OF len assms(3), where b = b]
  let ?d = "sl_created (slotAt i s) \<and> b"
  let ?c = "if ?d then c\<lparr>sc_created := (sc_created c)(i := False), sc_ended := (sc_ended c)(i := False)\<rparr> else c"
  have "sc_created c i = sl_created (slotAt i s)" using tracks_slot [OF c(2), of i] by (simp add: slotTracks_def)
  then have "scopeOf (gp_calls (gpRetire i b s)) = Some ?c"
    using c(1) tracks_base [OF c(2)] assms(2) by (simp add: f(1))
  moreover have "spanTracks ?c (gpRetire i b s)"
  proof (rule tracksI [OF c(2)])
    show "slotTracks ?c (gpRetire i b s) j" if "slotTracks c s j" for j
      using that assms(2) by (cases "j = i") (auto simp: slotTracks_def f newSlot_def)
  qed (use tracks_base [OF c(2)] in \<open>simp_all add: f(2-5)\<close>)
  ultimately show ?thesis by (rule spanScopeI)
qed

lemma freeSlot_Some: "freeSlot s = Some i \<Longrightarrow> i < kSlots \<and> sl_state (slotAt i s) = SlotFree"
  by (auto simp: freeSlot_def find_Some_iff)

lemma createSlot_scope:
  assumes "spanScope s" "\<not> gp_failed s" "gp_open s = None" "i < kSlots" "sl_state (slotAt i s) = SlotFree"
    "createSlot d i s = (ok, s')"
  shows "spanScope s' \<and> \<not> gp_failed s' \<and> gp_open s' = None \<and> sl_state (slotAt i s') = SlotFree \<and> (ok \<longrightarrow> sl_created (slotAt i s'))"
proof (cases "sl_created (slotAt i s)")
  case True
  then show ?thesis using assms by (auto simp: createSlot_def)
next
  case False
  obtain c where c: "scopeOf (gp_calls s) = Some c" "spanTracks c s" using assms(1) by (auto simp: spanScope_def)
  let ?ok = "driverOk d s" and ?c = "c\<lparr>sc_created := (sc_created c)(i := driverOk d s)\<rparr>"
  have s': "s' = (if ?ok then setSlot i ((slotAt i s)\<lparr>sl_created := True\<rparr>) (noteCall (GCreate i ?ok) s) else noteCall (GCreate i ?ok) s)"
    "ok = ?ok" using assms(6) False by (auto simp: createSlot_def Let_def)
  have b: "length (gp_slots s) = kSlots" "sc_created c i = False"
    using tracks_base [OF c(2)] tracks_slot [OF c(2), of i] False by (simp_all add: slotTracks_def)
  have "scopeOf (gp_calls s') = Some ?c" using c(1) tracks_base [OF c(2)] assms(2) b(2) by (simp add: s')
  moreover have "spanTracks ?c s'"
  proof (rule tracksI [OF c(2)])
    show "slotTracks ?c s' j" if "slotTracks c s j" for j
      using that assms(4,5) b False by (cases "j = i") (auto simp: slotTracks_def s' slotAt_set)
  qed (use tracks_base [OF c(2)] in \<open>simp_all add: s'\<close>)
  ultimately have "spanScope s'" by (rule spanScopeI)
  then show ?thesis using assms b by (auto simp: s' slotAt_set)
qed

lemma beginScope_scope:
  assumes "spanScope s" "\<not> gp_failed s" "gp_open s = None" "i < kSlots" "sl_created (slotAt i s)" "beginScope d i now s = (ok, s')"
  shows "spanScope s' \<and> (ok \<longrightarrow> gp_open s' = Some i)"
proof -
  obtain c where c: "scopeOf (gp_calls s) = Some c" "spanTracks c s" using assms(1) by (auto simp: spanScope_def)
  let ?ok = "driverOk d s"
  let ?c = "if ?ok then c\<lparr>sc_open := Some i, sc_ended := (sc_ended c)(i := False)\<rparr> else c"
  have len: "length (gp_slots s) = kSlots" and cr: "sc_created c i"
    using tracks_base [OF c(2)] tracks_slot [OF c(2), of i] assms(5) by (simp_all add: slotTracks_def)
  have f: "ok = ?ok" "gp_calls s' = GBegin i ?ok # gp_calls s" "gp_open s' = (if ?ok then Some i else None)"
    "gp_failed s' = gp_failed s" "length (gp_slots s') = length (gp_slots s)" "j \<noteq> i \<Longrightarrow> slotAt j s' = slotAt j s"
    "sl_state (slotAt i s') = (if ?ok then SlotOpen else SlotFailed)" "sl_created (slotAt i s')" for j
    using assms(3-6) len by (auto simp: beginScope_def Let_def slotAt_set)
  have "scopeOf (gp_calls s') = Some ?c" using c(1) tracks_base [OF c(2)] assms(2,3) cr by (simp add: f(2))
  moreover have "spanTracks ?c s'"
  proof (rule tracksI [OF c(2)])
    show "slotTracks ?c s' j" if "slotTracks c s j" for j
      using that assms(3) cr by (cases "j = i") (auto simp: slotTracks_def f)
  qed (use tracks_base [OF c(2)] assms(2,3) in \<open>simp_all add: f(3-5)\<close>)
  ultimately have "spanScope s'" by (rule spanScopeI)
  then show ?thesis by (simp add: f)
qed

lemma claimSlot_scope:
  assumes "spanScope s" "claimSlot d q now o' s = (res, s')"
  shows "spanScope s' \<and> (\<forall>i. res = Inr i \<longrightarrow> \<not> gp_failed s' \<and> gp_open s' = None \<and> i < kSlots \<and> sl_state (slotAt i s') = SlotFree \<and>
    sl_created (slotAt i s'))"
proof -
  define s2 where "s2 = (case gp_open s of None \<Rightarrow> s\<lparr>gp_lastSequence := q\<rparr> | Some i \<Rightarrow> snd (closeOpen d now i (s\<lparr>gp_lastSequence := q\<rparr>)))"
  have s2: "spanScope s2" "gp_open s2 = None"
    using assms(1) closeOpen_scope [of "s\<lparr>gp_lastSequence := q\<rparr>" _ d now]
    by (auto simp: s2_def closeOpen_open split: option.splits)
  show ?thesis
    using assms(2) freeSlot_Some [of s2] createSlot_scope [OF s2(1) _ s2(2), of _ d] s2 assms(1)
    by (auto simp: claimSlot_def Let_def s2_def [symmetric] split: if_splits option.splits prod.splits)
qed

lemma openFrame_scope:
  assumes "spanScope s" "\<not> gp_failed s" "gp_open s = None" "i < kSlots" "sl_created (slotAt i s)"
  shows "spanScope (snd (openFrame d now i s))"
proof (cases "beginScope d i now s")
  case (Pair ok s1)
  note b = beginScope_scope [OF assms Pair]
  show ?thesis
  proof (cases ok)
    case True
    then show ?thesis
      using stamp_scope [of s1 i 0 d] close_scope [of "snd (stampScope d i 0 s1)" i d DriverFailure now] b
      by (auto simp: openFrame_def Pair split: prod.splits)
  qed (use b in \<open>simp add: openFrame_def Pair\<close>)
qed

lemma openApplication_scope:
  assumes "spanScope s" "\<not> gp_failed s" "gp_open s = None" "i < kSlots" "sl_created (slotAt i s)"
  shows "spanScope (snd (openApplication d now i s))"
proof (cases "beginScope d i now s")
  case (Pair ok s1)
  note b = beginScope_scope [OF assms Pair]
  show ?thesis
  proof (cases ok)
    case True
    obtain stamp s2 where st: "stampScope d i 0 s1 = (stamp, s2)" by fastforce
    let ?s = "setSlot i ((slotAt i s2)\<lparr>sl_segmentCount := 1, sl_segmentOpen := stamp\<rparr>) s2"
    have "spanScope ?s" "gp_open ?s = Some i"
      using stamp_scope [of s1 i 0 d] b True st by (auto intro!: quiet_scope)
    then show ?thesis
      using True closeApplication_scope [of ?s i d DriverFailure now] by (cases stamp) (simp_all add: openApplication_def Pair st Let_def)
  qed (use b in \<open>simp add: openApplication_def Pair\<close>)
qed

lemma beginFrame_scope: "spanScope s \<Longrightarrow> spanScope (snd (beginFrame d q f now o' s))"
proof (cases "claimSlot d q now o' s")
  case (Pair res s1)
  assume "spanScope s"
  note c = claimSlot_scope [OF this Pair]
  show ?thesis
  proof (cases res)
    case (Inr i)
    let ?s = "setSlot i ((slotAt i s1)\<lparr>sl_sequence := q, sl_sourceFrame := f\<rparr>) s1"
    have "spanScope ?s" "sl_created (slotAt i ?s)" using c Inr by (auto intro!: quiet_scope simp: slotAt_set)
    then show ?thesis using c Inr openFrame_scope [of ?s i d now] by (simp add: beginFrame_def Pair)
  qed (use c in \<open>simp add: beginFrame_def Pair\<close>)
qed

lemma beginApplicationFrame_scope: "spanScope s \<Longrightarrow> spanScope (snd (beginApplicationFrame d q f now o' s))"
proof (cases "claimSlot d q now o' s")
  case (Pair res s1)
  assume "spanScope s"
  note c = claimSlot_scope [OF this Pair]
  show ?thesis
  proof (cases res)
    case (Inr i)
    let ?s = "setSlot i (newSlot\<lparr>sl_created := True, sl_application := True, sl_sequence := q, sl_sourceFrame := f\<rparr>) s1"
    have "spanScope ?s" "sl_created (slotAt i ?s)" using c Inr by (auto intro!: quiet_scope simp: slotAt_set newSlot_def)
    then show ?thesis using c Inr openApplication_scope [of ?s i d now] by (simp add: beginApplicationFrame_def Pair)
  qed (use c in \<open>simp add: beginApplicationFrame_def Pair\<close>)
qed

lemma onOpen_scope:
  assumes "spanScope s" "\<And>i. gp_open s = Some i \<Longrightarrow> spanScope (snd (f i s))"
  shows "spanScope (snd (onOpen o' f s))"
  using assms by (auto simp: onOpen_def split: option.splits)

text \<open>An operation that stamps the open slot, closes it if that fails and otherwise only notes what it did.\<close>

lemma stamped_scope:
  assumes "spanScope s" "gp_open s = Some i" "k < 8"
    and "\<And>s1. spanScope s1 \<Longrightarrow> gp_open s1 = Some i \<Longrightarrow> spanScope (snd (bad s1))"
    and "\<And>s1. spanScope s1 \<Longrightarrow> spanScope (snd (good s1))"
  shows "spanScope (snd (case stampScope d i k s of (ok, s1) \<Rightarrow> if \<not> ok then bad s1 else good s1))"
  using stamp_scope [OF assms(1-3), of d] assms(4,5) by (auto split: prod.splits)

lemma endSegment_scope: "spanScope s \<Longrightarrow> gp_open s = Some i \<Longrightarrow> spanScope (snd (endSegment d now i s))"
  using stamp_scope [of s i "2 * sl_segmentCount (slotAt i s) - 1" d] closeApplication_scope [of s i d _ now] closeApplication_scope [of "snd (stampScope d i (2 * sl_segmentCount (slotAt i s) - 1) s)" i d _ now]
  by (auto simp: endSegment_def Let_def case_prod_beta intro!: quiet_scope)

lemma resumeSegment_scope: "spanScope s \<Longrightarrow> gp_open s = Some i \<Longrightarrow> spanScope (snd (resumeSegment d now i s))"
  using stamp_scope [of s i "2 * sl_segmentCount (slotAt i s)" d] closeApplication_scope [of s i d _ now] closeApplication_scope [of "snd (stampScope d i (2 * sl_segmentCount (slotAt i s)) s)" i d _ now]
  by (auto simp: resumeSegment_def Let_def case_prod_beta intro!: quiet_scope)

lemma finishSegments_scope: "spanScope s \<Longrightarrow> gp_open s = Some i \<Longrightarrow> spanScope (snd (finishSegments d now i s))"
  by (auto simp: finishSegments_def Let_def simp del: closeStamped.simps intro: closeApplication_scope closeStamped_scope)

lemma eyeBegins_scope: "spanScope s \<Longrightarrow> gp_open s = Some i \<Longrightarrow> spanScope (snd (eyeBegins d eye now i s))"
  using stamp_scope [of s i "2 + 2 * eye" d] close_scope [of s i d _ now] close_scope [of "snd (stampScope d i (2 + 2 * eye) s)" i d _ now]
  by (auto simp: eyeBegins_def Let_def case_prod_beta intro!: quiet_scope)

lemma eyeEnds_scope: "spanScope s \<Longrightarrow> gp_open s = Some i \<Longrightarrow> spanScope (snd (eyeEnds d eye now i s))"
  using stamp_scope [of s i "3 + 2 * eye" d] close_scope [of s i d _ now] close_scope [of "snd (stampScope d i (3 + 2 * eye) s)" i d _ now]
  by (auto simp: eyeEnds_def Let_def case_prod_beta intro!: quiet_scope)

lemma poll_call_scope:
  assumes "spanScope s" "sl_state (slotAt i s) = SlotPending" "\<not> gp_failed s"
  shows "spanScope (noteCall (GPoll i) s)"
proof -
  obtain c where c: "scopeOf (gp_calls s) = Some c" "spanTracks c s" using assms(1) by (auto simp: spanScope_def)
  then have "scopeOf (gp_calls (noteCall (GPoll i) s)) = Some c"
    using tracks_slot [OF c(2), of i] tracks_base [OF c(2)] assms(2,3) by (auto simp: slotTracks_def)
  moreover have "spanTracks c (noteCall (GPoll i) s)"
    by (rule tracksI [OF c(2)]) (use tracks_base [OF c(2)] in \<open>auto simp: slotTracks_def\<close>)
  ultimately show ?thesis by (rule spanScopeI)
qed

lemma reported_scope:
  "spanScope s \<Longrightarrow> gp_open s \<noteq> Some i \<Longrightarrow> i < kSlots \<Longrightarrow> spanScope (snd (reported now i reason raw s))"
  by (simp add: reported_def Let_def retire_scope)

lemma pending_not_open: "spanScope s \<Longrightarrow> sl_state (slotAt i s) \<noteq> SlotOpen \<Longrightarrow> gp_open s \<noteq> Some i"
  by (auto simp: spanScope_def dest: tracks_slot [where i = i] simp: slotTracks_def)

lemma pollSlot_scope: "spanScope s \<Longrightarrow> i < kSlots \<Longrightarrow> spanScope (snd (pollSlot d now i s))"
  using pending_not_open [of s i] poll_call_scope [of s i]
  by (auto simp: pollSlot_def Let_def intro!: reported_scope split: prod.splits)

lemma pollSlots_scope: "spanScope s \<Longrightarrow> list_all (\<lambda>i. i < kSlots) is \<Longrightarrow> spanScope (snd (pollSlots d now is s))"
proof (induction "is" arbitrary: s)
  case (Cons i js)
  then show ?case using pollSlot_scope [of s i d now] Cons.IH [of "snd (pollSlot d now i s)"] by (simp add: case_prod_beta)
qed simp

lemma poll_scope: "spanScope s \<Longrightarrow> spanScope (snd (gpPoll d now o' s))"
  by (simp add: gpPoll_def pollSlots_scope list_all_iff del: upt_conv_Cons)

lemma retires_scope:
  assumes "spanScope s" "gp_open s = None" "list_all (\<lambda>i. i < kSlots) is"
  shows "spanScope (fold (\<lambda>i. gpRetire i True) is s)"
  using assms
proof (induction "is" arbitrary: s)
  case (Cons i js)
  have "gp_open (gpRetire i True s) = None" using Cons.prems(2) by (simp add: gpRetire_def Let_def)
  then show ?case using Cons retire_scope [of s i True] by simp
qed simp

lemma shutdown_scope: "spanScope s \<Longrightarrow> spanScope (snd (gpShutdown d now o' s))"
proof -
  assume s: "spanScope s"
  define s1 where "s1 = (case gp_open s of None \<Rightarrow> s | Some i \<Rightarrow> snd (closeOpen d now i s))"
  have "spanScope s1" "gp_open s1 = None"
    using s closeOpen_scope [of s _ d now] by (auto simp: s1_def closeOpen_open split: option.splits)
  then have "spanScope (fold (\<lambda>i. gpRetire i True) [0..<kSlots] s1)"
    by (intro retires_scope) (simp_all add: list_all_iff del: upt_conv_Cons)
  then show ?thesis
    using s by (simp add: gpShutdown_def Let_def s1_def [symmetric] spanScope_def spanTracks_def slotTracks_def del: upt_conv_Cons)
qed

lemmas span_scopes = beginFrame_scope beginApplicationFrame_scope onOpen_scope endSegment_scope resumeSegment_scope
  finishSegments_scope eyeBegins_scope eyeEnds_scope close_scope closeOpen_scope poll_scope shutdown_scope

lemma execSpan_scope: "spanScope s \<Longrightarrow> spanScope (snd (execSpan d op s))"
  by (cases op) (auto simp: endApplicationSegment_def resumeApplicationSegment_def finishApplicationFrame_def beginEye_def
      endEye_def finishFrame_def invalidateFrame_def intro!: span_scopes)

lemma newSpans_scope: "spanScope (newSpans owner)"
proof -
  have "slotAt i (newSpans owner) = newSlot" for i by (simp add: slotAt_def newSpans_def)
  then have "spanTracks noScope (newSpans owner)"
    by (simp add: spanTracks_def slotTracks_def) (simp add: newSpans_def noScope_def newSlot_def)
  then show ?thesis by (intro spanScopeI) (simp_all add: newSpans_def)
qed

interpretation spans: gpu_client "\<lambda>op s. snd (execSpan d op s)" "\<lambda>_. True" spanScope gp_calls for d
  by unfold_locales (auto simp: execSpan_scope, auto simp: spanScope_def)

text \<open>
  C15: whatever the driver answers and whatever is called in whatever order, the driver sees its calls in order: a
  slot is created before it is used and not twice, at most one scope is open, timestamps go to the open scope
  with an index it has, only an ended scope is polled, nothing open is destroyed, and after an end that failed no
  scope is begun, created or polled again.
\<close>

theorem span_calls_in_order:
  "scopeOf (gp_calls (fold (\<lambda>op s. snd (execSpan d op s)) ops (newSpans owner))) \<noteq> None"
  by (rule spans.run_scope) (simp_all add: newSpans_scope list_all_iff)

end
