(* ===== verification/GpuSpanResults.thy ===== *)
theory GpuSpanResults
  imports GpuSpanProps
begin

text \<open>
  What the results of \<^verbatim>\<open>GpuSpanState\<close> say: valid times are real intervals, and each measurement is reported at most
  once.
\<close>

section \<open>What a valid result says\<close>

definition orderOk :: "Slot \<Rightarrow> bool" where
  "orderOk sl \<longleftrightarrow> (sl_order sl, sl_begun sl) \<in> {([], 0), ([0], 1), ([1], 2), ([0, 1], 3), ([1, 0], 3)}"

definition spanFair :: "GpuSpanResult \<Rightarrow> bool" where
  "spanFair r \<longleftrightarrow> (sr_reason r = Valid \<longrightarrow> 0 \<le> sr_outerMs r \<and>
     (sr_source r = RenderToSubmit \<longrightarrow> 0 \<le> sr_leftMs r \<and> 0 \<le> sr_rightMs r \<and> sr_leftMs r + sr_rightMs r \<le> sr_outerMs r))"

lemma ratOf_minus: "b \<le> a \<Longrightarrow> ratOf (a - b) = ratOf a - ratOf b"
  by (simp add: ratOf_def unat_sub word_le_nat_alt of_nat_diff)

lemma ratOf_mono: "a \<le> b \<Longrightarrow> ratOf a \<le> ratOf b"
  unfolding ratOf_def of_nat_le_iff by (simp only: word_le_nat_alt)

lemma ratOf_nonneg [simp]: "0 \<le> ratOf a"
  unfolding ratOf_def by (rule of_nat_0_le_iff)

lemma validate_fair:
  assumes "orderOk sl" "validate sl raw = Valid"
  shows "ratOf (rs_ticks raw 3 - rs_ticks raw 2) + ratOf (rs_ticks raw 5 - rs_ticks raw 4) \<le> ratOf (rs_ticks raw 1 - rs_ticks raw 0)"
proof -
  let ?t = "rs_ticks raw"
  have v: "length (sl_order sl) = 2" "?t 0 \<le> ?t 1" "?t 2 \<le> ?t 3" "?t 4 \<le> ?t 5" "?t 0 \<le> ?t 2" "?t 0 \<le> ?t 4" "?t 3 \<le> ?t 1" "?t 5 \<le> ?t 1"
    "?t (3 + 2 * sl_order sl ! 0) \<le> ?t (2 + 2 * sl_order sl ! 1)"
    using assms(2) by (auto simp: validate_def Let_def eyeBad_def not_less split: if_splits)
  then have "sl_order sl = [0, 1] \<or> sl_order sl = [1, 0]" using assms(1) by (auto simp: orderOk_def)
  then have "?t 3 \<le> ?t 4 \<or> ?t 5 \<le> ?t 2" using v(9) by (auto simp: eval_nat_numeral)
  then show ?thesis
    unfolding ratOf_minus [OF v(2)] ratOf_minus [OF v(3)] ratOf_minus [OF v(4)]
    using v(2-8) [THEN ratOf_mono] ratOf_mono [of "?t 3" "?t 4"] ratOf_mono [of "?t 5" "?t 2"] by (elim disjE) linarith+
qed

lemma slotResult_fair:
  assumes "orderOk sl" "reason = Valid \<Longrightarrow> \<not> sl_application sl \<Longrightarrow> validate sl raw = Valid"
  shows "spanFair (slotResult now sl reason raw)"
proof (cases "reason = Valid \<and> \<not> sl_application sl")
  case True
  then have "validate sl raw = Valid" using assms(2) by simp
  note v = validate_fair [OF assms(1) this]
  have "0 \<le> 1000 / ratOf (rs_frequency raw)" by simp
  from mult_right_mono [OF v this] show ?thesis
    using True by (simp add: slotResult_def Let_def spanFair_def newResult_def add_divide_distrib distrib_right)
next
  case False
  then show ?thesis
    by (auto simp: slotResult_def Let_def spanFair_def newResult_def validateApplication_def split: prod.splits option.splits if_splits)
qed

lemma pollSlot_fair: "orderOk (slotAt i s) \<Longrightarrow> r \<in> set (fst (pollSlot d now i s)) \<Longrightarrow> spanFair r"
  by (auto simp: pollSlot_def reported_def Let_def split: if_splits prod.splits intro!: slotResult_fair)

definition ordersOk :: "GpuSpanState \<Rightarrow> bool" where
  "ordersOk s \<longleftrightarrow> (\<forall>i. orderOk (slotAt i s))"

lemma setSlot_orders: "ordersOk s \<Longrightarrow> orderOk sl \<Longrightarrow> ordersOk (setSlot i sl s)"
  by (simp add: ordersOk_def slotAt_set)

lemma orders_quiet [simp]:
  "ordersOk (noteCall c s) = ordersOk s" "ordersOk (s\<lparr>gp_open := x\<rparr>) = ordersOk s" "ordersOk (s\<lparr>gp_failed := b\<rparr>) = ordersOk s"
  "ordersOk (s\<lparr>gp_lastSequence := q\<rparr>) = ordersOk s" "ordersOk (s\<lparr>gp_shut := b\<rparr>) = ordersOk s"
  by (simp_all add: ordersOk_def)

lemma ordersOk_slot: "ordersOk s \<Longrightarrow> orderOk (slotAt i s)"
  by (simp add: ordersOk_def)

lemma orderOk_new [simp]: "orderOk newSlot" "orderOk (newSlot\<lparr>sl_created := b\<rparr>)"
  "orderOk (newSlot\<lparr>sl_created := b, sl_application := a, sl_sequence := q, sl_sourceFrame := f\<rparr>)"
  by (simp_all add: orderOk_def newSlot_def)

lemma stamp_slot [simp]: "slotAt j (snd (stampScope d i k s)) = slotAt j s"
  by (simp add: stampScope_def Let_def)

lemma orderOk_quiet:
  "orderOk sl \<Longrightarrow> sl_order sl' = sl_order sl \<Longrightarrow> sl_begun sl' = sl_begun sl \<Longrightarrow> orderOk sl'"
  by (simp add: orderOk_def)

named_theorems span_orders

lemma stamp_orders [span_orders]: "ordersOk s \<Longrightarrow> ordersOk (snd (stampScope d i k s))"
  by (simp add: stampScope_def Let_def)

lemma closeStamped_orders [span_orders]: "ordersOk (snd bs) \<Longrightarrow> ordersOk (snd (closeStamped d i r now bs))"
  by (cases bs) (auto simp: endScope_def leavePending_def Let_def intro!: setSlot_orders intro: orderOk_quiet [OF ordersOk_slot])

lemma close_orders [span_orders]: "ordersOk s \<Longrightarrow> ordersOk (snd (gpClose d i r now s))"
  by (simp add: gpClose_def span_orders)

lemma stampSegmentEnd_orders [span_orders]: "ordersOk s \<Longrightarrow> ordersOk (snd (stampSegmentEnd d i s))"
  by (auto simp: stampSegmentEnd_def Let_def case_prod_beta span_orders
      intro!: setSlot_orders intro: orderOk_quiet [OF ordersOk_slot])

lemma closeApplication_orders [span_orders]: "ordersOk s \<Longrightarrow> ordersOk (snd (closeApplication d i r now s))"
  by (simp add: closeApplication_def span_orders)

lemma closeOpen_orders [span_orders]: "ordersOk s \<Longrightarrow> ordersOk (snd (closeOpen d now i s))"
  by (simp add: closeOpen_def span_orders)

lemma retire_orders [span_orders]: "ordersOk s \<Longrightarrow> ordersOk (gpRetire i b s)"
  by (auto simp: gpRetire_def Let_def intro!: setSlot_orders)

lemma createSlot_orders [span_orders]: "ordersOk s \<Longrightarrow> ordersOk (snd (createSlot d i s))"
  by (auto simp: createSlot_def Let_def intro!: setSlot_orders intro: orderOk_quiet [OF ordersOk_slot])

lemma beginScope_orders [span_orders]: "ordersOk s \<Longrightarrow> ordersOk (snd (beginScope d i now s))"
  by (auto simp: beginScope_def Let_def intro!: setSlot_orders intro: orderOk_quiet [OF ordersOk_slot])

lemma claimSlot_orders [span_orders]: "ordersOk s \<Longrightarrow> ordersOk (snd (claimSlot d q now o' s))"
  by (auto simp: claimSlot_def Let_def case_prod_beta span_orders split: option.splits)

lemma openFrame_orders [span_orders]: "ordersOk s \<Longrightarrow> ordersOk (snd (openFrame d now i s))"
  by (simp add: openFrame_def case_prod_beta span_orders)

lemma openApplication_orders [span_orders]: "ordersOk s \<Longrightarrow> ordersOk (snd (openApplication d now i s))"
  by (auto simp: openApplication_def Let_def case_prod_beta span_orders intro!: closeApplication_orders setSlot_orders
      intro: orderOk_quiet [OF ordersOk_slot [OF beginScope_orders]])

lemma begins_orders [span_orders]:
  "ordersOk s \<Longrightarrow> ordersOk (snd (beginFrame d q f now o' s))"
  "ordersOk s \<Longrightarrow> ordersOk (snd (beginApplicationFrame d q f now o' s))"
  using claimSlot_orders [of s d q now o']
  by (auto simp: beginFrame_def beginApplicationFrame_def split: prod.splits sum.splits
      intro!: openFrame_orders openApplication_orders setSlot_orders intro: orderOk_quiet [OF ordersOk_slot])

lemma segments_orders [span_orders]:
  "ordersOk s \<Longrightarrow> ordersOk (snd (endSegment d now i s))" "ordersOk s \<Longrightarrow> ordersOk (snd (resumeSegment d now i s))"
  "ordersOk s \<Longrightarrow> ordersOk (snd (finishSegments d now i s))" "ordersOk s \<Longrightarrow> ordersOk (snd (eyeEnds d eye now i s))"
  by (auto simp: endSegment_def resumeSegment_def finishSegments_def eyeEnds_def Let_def case_prod_beta span_orders
      simp del: closeStamped.simps intro!: closeStamped_orders setSlot_orders intro: orderOk_quiet [OF ordersOk_slot])

lemma eyeBegins_orders [span_orders]: "ordersOk s \<Longrightarrow> ordersOk (snd (eyeBegins d eye now i s))"
proof -
  assume s: "ordersOk s"
  let ?sl = "slotAt i s"
  have "orderOk (?sl\<lparr>sl_begun := or (sl_begun ?sl) (eyeBit eye), sl_activeEye := Some eye, sl_order := sl_order ?sl @ [eye]\<rparr>)"
    if "\<not> 1 < eye" "and (sl_begun ?sl) (eyeBit eye) = 0"
  proof -
    have "eye = 0 \<or> eye = 1" using that(1) by linarith
    then show ?thesis using ordersOk_slot [OF s, of i] that(2) by (auto simp: orderOk_def eyeBit_def)
  qed
  then show ?thesis
    using s by (auto simp: eyeBegins_def Let_def case_prod_beta span_orders stampScope_def intro!: setSlot_orders)
qed


lemma reported_orders [span_orders]: "ordersOk s \<Longrightarrow> ordersOk (snd (reported now i r raw s))"
  by (simp add: reported_def Let_def span_orders)

lemma pollSlot_orders [span_orders]: "ordersOk s \<Longrightarrow> ordersOk (snd (pollSlot d now i s))"
  by (auto simp: pollSlot_def Let_def case_prod_beta span_orders)

lemma pollSlots_fair:
  "ordersOk s \<Longrightarrow> ordersOk (snd (pollSlots d now is s)) \<and> list_all spanFair (fst (pollSlots d now is s))"
proof (induction "is" arbitrary: s)
  case (Cons i js)
  then show ?case
    using Cons.IH [of "snd (pollSlot d now i s)"] pollSlot_orders [of s d now i] pollSlot_fair [where s = s and i = i and d = d and now = now] ordersOk_slot [of s i]
    by (auto simp: case_prod_beta list_all_iff)
qed simp

lemma shutdown_orders [span_orders]: "ordersOk s \<Longrightarrow> ordersOk (snd (gpShutdown d now o' s))"
  by (auto simp: gpShutdown_def Let_def span_orders simp del: upt_conv_Cons split: option.splits
      intro!: fold_invariant [where P = ordersOk])

lemma onOpen_orders: "ordersOk s \<Longrightarrow> (\<And>i. ordersOk (snd (f i s))) \<Longrightarrow> ordersOk (snd (onOpen o' f s))"
  by (auto simp: onOpen_def split: option.splits)

lemmas span_op_defs = endApplicationSegment_def resumeApplicationSegment_def finishApplicationFrame_def beginEye_def
  endEye_def finishFrame_def invalidateFrame_def

lemma execSpan_fair: "ordersOk s \<Longrightarrow> ordersOk (snd (execSpan d op s)) \<and> list_all spanFair (fst (execSpan d op s))"
  using pollSlots_fair [of s d _ "[0..<kSlots]"]
  by (cases op) (auto simp: span_op_defs gpPoll_def span_orders simp del: upt_conv_Cons intro!: onOpen_orders)

section \<open>Runs and their results\<close>

fun runSpans :: "GpuSpanDriver \<Rightarrow> SpanOp list \<Rightarrow> GpuSpanState \<Rightarrow> GpuSpanResult list \<times> GpuSpanState" where
  "runSpans d [] s = ([], s)"
| "runSpans d (op # ops) s =
     (case execSpan d op s of (out, s1) \<Rightarrow> case runSpans d ops s1 of (rest, s2) \<Rightarrow> (out @ rest, s2))"

lemma runSpans_fair: "ordersOk s \<Longrightarrow> list_all spanFair (fst (runSpans d ops s))"
proof (induction ops arbitrary: s)
  case (Cons op ops)
  then show ?case using Cons.IH [of "snd (execSpan d op s)"] execSpan_fair [of s d op] by (simp add: case_prod_beta)
qed simp

lemma newSpans_slot [simp]: "slotAt i (newSpans owner) = newSlot"
  by (simp add: slotAt_def newSpans_def)

text \<open>
  Every time reported as valid is a real interval: whatever the driver answers and whoever calls what, no
  reported time is negative, and in a two-eye measurement the two eye intervals do not overlap, so together
  they take no longer than the frame that contains them.
\<close>

theorem valid_spans_nested:
  "list_all spanFair (fst (runSpans d ops (newSpans owner)))"
  by (rule runSpans_fair) (simp add: ordersOk_def)

section \<open>Sequences\<close>

definition live :: "GpuSpanState \<Rightarrow> nat \<Rightarrow> u64 option" where
  "live s i = (if sl_state (slotAt i s) = SlotFree then None else Some (sl_sequence (slotAt i s)))"

text \<open>What of a state the numbering of measurements depends on.\<close>

definition sameLive :: "GpuSpanState \<Rightarrow> GpuSpanState \<Rightarrow> bool" where
  "sameLive s s' \<longleftrightarrow> live s' = live s \<and> gp_lastSequence s' = gp_lastSequence s \<and> length (gp_slots s') = length (gp_slots s)"

lemma sameLive_refl [simp]: "sameLive s s"
  by (simp add: sameLive_def)

lemma sameLive_trans: "sameLive s t \<Longrightarrow> sameLive t u \<Longrightarrow> sameLive s u"
  by (simp add: sameLive_def)

lemma live_quiet [simp]:
  "live (noteCall c s) = live s" "live (s\<lparr>gp_open := x\<rparr>) = live s" "live (s\<lparr>gp_failed := b\<rparr>) = live s"
  "live (s\<lparr>gp_lastSequence := q\<rparr>) = live s" "live (s\<lparr>gp_shut := b\<rparr>) = live s"
  by (simp_all add: live_def fun_eq_iff)

lemma live_set:
  "live (setSlot i sl s) = (if i < length (gp_slots s)
     then (live s)(i := if sl_state sl = SlotFree then None else Some (sl_sequence sl)) else live s)"
  by (auto simp: live_def slotAt_set fun_eq_iff)

lemma live_set_same:
  "(sl_state sl = SlotFree) = (sl_state (slotAt i s) = SlotFree) \<Longrightarrow> sl_sequence sl = sl_sequence (slotAt i s) \<Longrightarrow>
   live (setSlot i sl s) = live s"
  by (auto simp: live_set live_def fun_eq_iff)

lemma stamp_live [simp]: "live (snd (stampScope d i k s)) = live s" "gp_lastSequence (snd (stampScope d i k s)) = gp_lastSequence s"
  "length (gp_slots (snd (stampScope d i k s))) = length (gp_slots s)" "gp_open (snd (stampScope d i k s)) = gp_open s"
  by (simp_all add: stampScope_def Let_def)

lemma closeStamped_live:
  assumes "sl_state (slotAt i s) \<noteq> SlotFree"
  shows "sameLive s (snd (closeStamped d i r now (b, s)))"
  using assms by (auto simp: sameLive_def endScope_def leavePending_def Let_def live_set_same)

lemma close_live: "sl_state (slotAt i s) \<noteq> SlotFree \<Longrightarrow> sameLive s (snd (gpClose d i r now s))"
  using closeStamped_live [of i "snd (stampScope d i 1 s)" d r now "fst (stampScope d i 1 s)"]
  by (simp add: gpClose_def sameLive_def del: closeStamped.simps)

lemma stampSegmentEnd_live:
  "sameLive s (snd (stampSegmentEnd d i s)) \<and> sl_state (slotAt i (snd (stampSegmentEnd d i s))) = sl_state (slotAt i s)"
  by (auto simp: stampSegmentEnd_def Let_def case_prod_beta sameLive_def live_set_same slotAt_set)

lemma closeApplication_live: "sl_state (slotAt i s) \<noteq> SlotFree \<Longrightarrow> sameLive s (snd (closeApplication d i r now s))"
  using stampSegmentEnd_live [of s d i] closeStamped_live [of i "snd (stampSegmentEnd d i s)" d r now "fst (stampSegmentEnd d i s)"]
  by (auto simp: closeApplication_def simp del: closeStamped.simps intro: sameLive_trans)

lemma closeOpen_live: "sl_state (slotAt i s) \<noteq> SlotFree \<Longrightarrow> sameLive s (snd (closeOpen d now i s))"
  by (simp add: closeOpen_def close_live closeApplication_live)

lemma createSlot_live: "sameLive s (snd (createSlot d i s))"
  by (auto simp: createSlot_def Let_def sameLive_def live_set_same)

lemma beginScope_live:
  "i < length (gp_slots s) \<Longrightarrow> live (snd (beginScope d i now s)) = (live s)(i \<mapsto> sl_sequence (slotAt i s)) \<and>
     gp_lastSequence (snd (beginScope d i now s)) = gp_lastSequence s \<and>
     length (gp_slots (snd (beginScope d i now s))) = length (gp_slots s) \<and>
     sl_state (slotAt i (snd (beginScope d i now s))) \<noteq> SlotFree"
  by (auto simp: beginScope_def Let_def live_set slotAt_set)

lemma retire_live: "length (gp_slots s) = kSlots \<Longrightarrow> i < kSlots \<Longrightarrow>
   live (gpRetire i b s) = (live s)(i := None) \<and> gp_lastSequence (gpRetire i b s) = gp_lastSequence s \<and>
   length (gp_slots (gpRetire i b s)) = kSlots"
  by (auto simp: gpRetire_def Let_def live_set newSlot_def)

definition seqInv :: "u64 set \<Rightarrow> u64 set \<Rightarrow> GpuSpanState \<Rightarrow> bool" where
  "seqInv begun said s \<longleftrightarrow> length (gp_slots s) = kSlots \<and>
     (\<forall>i q. live s i = Some q \<longrightarrow> q \<le> gp_lastSequence s \<and> q \<notin> said \<and> q \<in> begun) \<and>
     (\<forall>i j q. live s i = Some q \<and> live s j = Some q \<longrightarrow> i = j) \<and> (\<forall>q \<in> said. q \<le> gp_lastSequence s)"

lemma seqInv_same: "sameLive s s' \<Longrightarrow> seqInv B R s \<Longrightarrow> seqInv B R s'"
  by (simp add: seqInv_def sameLive_def)

lemma seqInv_raise: "seqInv B R s \<Longrightarrow> gp_lastSequence s \<le> q \<Longrightarrow> seqInv B R (s\<lparr>gp_lastSequence := q\<rparr>)"
  by (fastforce simp: seqInv_def)

lemma seqInv_new:
  assumes "seqInv B R s" "gp_lastSequence s < q" "q \<in> B" "live s' = (live s)(i \<mapsto> q)" "gp_lastSequence s' = q" "length (gp_slots s') = kSlots"
  shows "seqInv B R s'"
  using assms unfolding seqInv_def by (fastforce split: if_splits)

lemma seqInv_said:
  assumes "seqInv B R s" "live s i = Some q" "live s' = (live s)(i := None)" "gp_lastSequence s' = gp_lastSequence s" "length (gp_slots s') = kSlots"
  shows "seqInv B (insert q R) s'"
  using assms unfolding seqInv_def by (fastforce split: if_splits)

lemma open_live: "spanScope s \<Longrightarrow> gp_open s = Some i \<Longrightarrow> sl_state (slotAt i s) \<noteq> SlotFree"
  by (auto simp: spanScope_def slotTracks_def dest!: tracks_slot [where i = i])

lemma claimSlot_live:
  assumes "spanScope s" "seqInv B R s" "claimSlot d q now o' s = (res, s')"
  shows "seqInv B R s' \<and> (\<forall>i. res = Inr i \<longrightarrow> gp_lastSequence s < q \<and> gp_lastSequence s' = q \<and> live s' = live s)"
proof -
  define s2 where "s2 = (case gp_open s of None \<Rightarrow> s\<lparr>gp_lastSequence := q\<rparr> | Some i \<Rightarrow> snd (closeOpen d now i (s\<lparr>gp_lastSequence := q\<rparr>)))"
  have s2: "sameLive (s\<lparr>gp_lastSequence := q\<rparr>) s2"
    using open_live [OF assms(1)] closeOpen_live [of _ "s\<lparr>gp_lastSequence := q\<rparr>" d now] by (auto simp: s2_def split: option.splits)
  consider "s' = s" "\<And>i. res \<noteq> Inr i" | i where "gp_lastSequence s < q" "s' = s2 \<or> s' = snd (createSlot d i s2)"
    using assms(3) by (auto simp: claimSlot_def Let_def s2_def [symmetric] not_le split: if_splits option.splits prod.splits) (metis snd_conv)+
  then show ?thesis
  proof cases
    case 2
    then have "sameLive (s\<lparr>gp_lastSequence := q\<rparr>) s'" using s2 createSlot_live [of s2 d i] by (auto intro: sameLive_trans)
    moreover have "seqInv B R (s\<lparr>gp_lastSequence := q\<rparr>)" using 2(1) seqInv_raise [OF assms(2), of q] by simp
    ultimately show ?thesis using 2(1) seqInv_same by (fastforce simp: sameLive_def)
  qed (use assms(2) in auto)
qed

lemma openFrame_live:
  "i < length (gp_slots s) \<Longrightarrow> live (snd (openFrame d now i s)) = (live s)(i \<mapsto> sl_sequence (slotAt i s)) \<and>
     gp_lastSequence (snd (openFrame d now i s)) = gp_lastSequence s \<and> length (gp_slots (snd (openFrame d now i s))) = length (gp_slots s)"
  using beginScope_live [of i s d now]
    close_live [of i "snd (stampScope d i 0 (snd (beginScope d i now s)))" d DriverFailure now]
  by (auto simp: openFrame_def case_prod_beta sameLive_def)

lemma openApplication_live:
  assumes "i < length (gp_slots s)"
  shows "live (snd (openApplication d now i s)) = (live s)(i \<mapsto> sl_sequence (slotAt i s)) \<and>
     gp_lastSequence (snd (openApplication d now i s)) = gp_lastSequence s \<and>
     length (gp_slots (snd (openApplication d now i s))) = length (gp_slots s)"
proof -
  let ?b = "snd (beginScope d i now s)"
  let ?s = "\<lambda>stamp. setSlot i ((slotAt i ?b)\<lparr>sl_segmentCount := 1, sl_segmentOpen := stamp\<rparr>) (snd (stampScope d i 0 ?b))"
  note b = beginScope_live [OF assms, of d now]
  have "sameLive ?b (?s st)" "sl_state (slotAt i (?s st)) \<noteq> SlotFree" for st
    using b by (auto simp: sameLive_def live_set_same slotAt_set)
  then show ?thesis
    using b closeApplication_live [of i "?s False" d DriverFailure now]
    by (auto simp: openApplication_def case_prod_beta Let_def sameLive_def)
qed

lemma begin_live:
  assumes "spanScope s" "seqInv B R s" "q \<in> B"
  shows "seqInv B R (snd (beginFrame d q f now o' s))" "seqInv B R (snd (beginApplicationFrame d q f now o' s))"
proof -
  obtain res s1 where c: "claimSlot d q now o' s = (res, s1)" by fastforce
  note l = claimSlot_live [OF assms(1,2) c] and sc = claimSlot_scope [OF assms(1) c]
  have len: "length (gp_slots s1) = kSlots" using l by (simp add: seqInv_def)
  have "seqInv B R (snd (openFrame d now i (setSlot i ((slotAt i s1)\<lparr>sl_sequence := q, sl_sourceFrame := f\<rparr>) s1)))"
    "seqInv B R (snd (openApplication d now i (setSlot i (newSlot\<lparr>sl_created := True, sl_application := True, sl_sequence := q,
       sl_sourceFrame := f\<rparr>) s1)))" if "res = Inr i" for i
    using that l sc len assms(2,3)
    by (intro seqInv_new [OF assms(2), where i = i and q = q];
        simp add: openFrame_live openApplication_live slotAt_set live_set newSlot_def fun_eq_iff)+
  then show "seqInv B R (snd (beginFrame d q f now o' s))" "seqInv B R (snd (beginApplicationFrame d q f now o' s))"
    using l by (simp_all add: beginFrame_def beginApplicationFrame_def c split: sum.splits)
qed

lemma onOpen_live:
  assumes "spanScope s" "\<And>i. sl_state (slotAt i s) \<noteq> SlotFree \<Longrightarrow> sameLive s (snd (f i s))"
  shows "sameLive s (snd (onOpen o' f s))"
  using assms(2) open_live [OF assms(1)] by (auto simp: onOpen_def split: option.splits)

lemma segments_live:
  assumes "sl_state (slotAt i s) \<noteq> SlotFree"
  shows "sameLive s (snd (endSegment d now i s))" "sameLive s (snd (resumeSegment d now i s))"
    "sameLive s (snd (finishSegments d now i s))" "sameLive s (snd (eyeBegins d eye now i s))" "sameLive s (snd (eyeEnds d eye now i s))"
proof -
  have st: "sameLive s (snd (stampScope d i k s))" for k by (simp add: sameLive_def)
  have c: "sameLive s (snd (closeApplication d i r now (snd (stampScope d i k s))))"
    "sameLive s (snd (gpClose d i r now (snd (stampScope d i k s))))" for r k
    using closeApplication_live [of i "snd (stampScope d i k s)" d r now] close_live [of i "snd (stampScope d i k s)" d r now] assms st
    by (auto intro: sameLive_trans)
  have set: "sameLive s (setSlot i sl (snd (stampScope d i k s)))"
    if "sl_state sl = sl_state (slotAt i s)" "sl_sequence sl = sl_sequence (slotAt i s)" for sl k
    using that by (simp add: sameLive_def live_set_same)
  show "sameLive s (snd (endSegment d now i s))" "sameLive s (snd (resumeSegment d now i s))"
    "sameLive s (snd (finishSegments d now i s))" "sameLive s (snd (eyeBegins d eye now i s))" "sameLive s (snd (eyeEnds d eye now i s))"
    using closeApplication_live [OF assms, of d _ now] close_live [OF assms, of d _ now] closeStamped_live [OF assms, of d _ now]
    by (simp_all add: endSegment_def resumeSegment_def finishSegments_def eyeBegins_def eyeEnds_def Let_def case_prod_beta c set
        del: closeStamped.simps)
qed

lemma slotResult_sequence [simp]: "sr_sequence (slotResult now sl reason raw) = sl_sequence sl"
  by (simp add: slotResult_def Let_def case_prod_beta)

text \<open>One slot's poll says nothing and keeps the numbering, or says that slot's number once and frees it.\<close>

lemma pollSlot_live:
  assumes "seqInv B R s" "i < kSlots"
  shows "(fst (pollSlot d now i s) = [] \<and> sameLive s (snd (pollSlot d now i s))) \<or>
    (\<exists>r. fst (pollSlot d now i s) = [r] \<and> live s i = Some (sr_sequence r) \<and> seqInv B (insert (sr_sequence r) R) (snd (pollSlot d now i s)))"
proof -
  have rep: "\<exists>r. fst (reported now i reason raw t) = [r] \<and> live s i = Some (sr_sequence r) \<and>
      seqInv B (insert (sr_sequence r) R) (snd (reported now i reason raw t))"
    if "sameLive s t" "sl_state (slotAt i s) \<noteq> SlotFree" for reason raw t
  proof -
    have t: "length (gp_slots t) = kSlots" "live t = live s" "gp_lastSequence t = gp_lastSequence s"
      using that(1) assms(1) by (simp_all add: sameLive_def seqInv_def)
    have "live t i = live s i" by (simp add: t(2))
    then have "live s i = Some (sl_sequence (slotAt i t))" using that(2) unfolding live_def by (auto split: if_splits)
    then show ?thesis
      using retire_live [OF t(1) assms(2)] t by (auto simp: reported_def Let_def intro!: seqInv_said [OF assms(1)])
  qed
  have n: "sameLive s (noteCall c s)" for c by (simp add: sameLive_def)
  show ?thesis
    using rep [OF sameLive_refl] rep [OF n] n
    by (simp add: pollSlot_def Let_def case_prod_beta)
qed

lemma pollSlots_live:
  assumes "seqInv B R s" "list_all (\<lambda>i. i < kSlots) is"
  shows "distinct (map sr_sequence (fst (pollSlots d now is s))) \<and> sr_sequence ` set (fst (pollSlots d now is s)) \<inter> R = {} \<and>
    sr_sequence ` set (fst (pollSlots d now is s)) \<subseteq> B \<and>
    seqInv B (R \<union> sr_sequence ` set (fst (pollSlots d now is s))) (snd (pollSlots d now is s))"
  using assms
proof (induction "is" arbitrary: s R)
  case (Cons i js)
  let ?s = "snd (pollSlot d now i s)"
  have i: "i < kSlots" "list_all (\<lambda>i. i < kSlots) js" using Cons.prems(2) by simp_all
  from pollSlot_live [OF Cons.prems(1) i(1), of d now] show ?case
  proof (elim disjE exE conjE)
    assume "fst (pollSlot d now i s) = []" "sameLive s ?s"
    then show ?thesis using Cons.IH [OF seqInv_same [OF _ Cons.prems(1)] i(2)] by (simp add: case_prod_beta)
  next
    fix r
    assume r: "fst (pollSlot d now i s) = [r]" "live s i = Some (sr_sequence r)" "seqInv B (insert (sr_sequence r) R) ?s"
    have "sr_sequence r \<notin> R" "sr_sequence r \<in> B" using Cons.prems(1) r(2) by (auto simp: seqInv_def)
    then show ?thesis using Cons.IH [OF r(3) i(2)] r(1) by (auto simp: case_prod_beta)
  qed
qed simp

lemma shutdown_live:
  assumes "spanScope s" "seqInv B R s"
  shows "seqInv B R (snd (gpShutdown d now o' s))"
proof -
  define s1 where "s1 = (case gp_open s of None \<Rightarrow> s | Some i \<Rightarrow> snd (closeOpen d now i s))"
  have "sameLive s s1" using open_live [OF assms(1)] closeOpen_live [of _ s d now] by (auto simp: s1_def split: option.splits)
  then have "seqInv B R s1" by (rule seqInv_same [OF _ assms(2)])
  moreover have "seqInv B R (gpRetire i True t)" if "seqInv B R t" "i < kSlots" for i t
    using retire_live [of t i True] that by (fastforce simp: seqInv_def split: if_splits)
  ultimately have "seqInv B R (fold (\<lambda>i. gpRetire i True) [0..<kSlots] s1)"
    by (intro fold_invariant [where P = "seqInv B R"]) (auto simp del: upt_conv_Cons)
  then show ?thesis using assms(2) by (simp add: gpShutdown_def Let_def s1_def [symmetric] seqInv_def del: upt_conv_Cons)
qed

fun beginsWith :: "SpanOp \<Rightarrow> u64 option" where
  "beginsWith (SpBeginFrame q f now o') = Some q"
| "beginsWith (SpBeginApplication q f now o') = Some q"
| "beginsWith _ = None"

lemma execSpan_live:
  assumes "spanScope s" "seqInv B R s" "\<And>q. beginsWith op = Some q \<Longrightarrow> q \<in> B"
  shows "let out = fst (execSpan d op s) in
    distinct (map sr_sequence out) \<and> sr_sequence ` set out \<inter> R = {} \<and> sr_sequence ` set out \<subseteq> B \<and>
    seqInv B (R \<union> sr_sequence ` set out) (snd (execSpan d op s))"
proof (cases "\<exists>now o'. op = SpPoll now o'")
  case True
  then obtain now o' where op: "op = SpPoll now o'" by blast
  have "list_all (\<lambda>i. i < kSlots) [0..<kSlots]" by (simp add: list_all_iff del: upt_conv_Cons)
  from pollSlots_live [OF assms(2) this, of d now] show ?thesis
    using assms(2) by (simp add: op gpPoll_def Let_def del: upt_conv_Cons)
next
  case False
  then have "fst (execSpan d op s) = []" by (cases op) auto
  moreover have "seqInv B R (snd (execSpan d op s))"
    using False assms(3) begin_live [OF assms(1,2)] shutdown_live [OF assms(1,2)]
    by (cases op) (auto simp: span_op_defs intro!: seqInv_same [OF onOpen_live [OF assms(1)] assms(2)]
        segments_live close_live closeOpen_live)
  ultimately show ?thesis by simp
qed

lemma runSpans_live:
  assumes "spanScope s" "seqInv B R s" "\<And>op q. op \<in> set ops \<Longrightarrow> beginsWith op = Some q \<Longrightarrow> q \<in> B"
  shows "distinct (map sr_sequence (fst (runSpans d ops s))) \<and> sr_sequence ` set (fst (runSpans d ops s)) \<inter> R = {} \<and>
    sr_sequence ` set (fst (runSpans d ops s)) \<subseteq> B"
  using assms
proof (induction ops arbitrary: s R)
  case (Cons op ops)
  have e: "let out = fst (execSpan d op s) in
    distinct (map sr_sequence out) \<and> sr_sequence ` set out \<inter> R = {} \<and> sr_sequence ` set out \<subseteq> B \<and>
    seqInv B (R \<union> sr_sequence ` set out) (snd (execSpan d op s))"
    using Cons.prems by (intro execSpan_live) auto
  let ?R = "R \<union> sr_sequence ` set (fst (execSpan d op s))" and ?s = "snd (execSpan d op s)"
  have r: "distinct (map sr_sequence (fst (runSpans d ops ?s))) \<and> sr_sequence ` set (fst (runSpans d ops ?s)) \<inter> ?R = {} \<and>
      sr_sequence ` set (fst (runSpans d ops ?s)) \<subseteq> B"
  proof (rule Cons.IH [OF execSpan_scope [OF Cons.prems(1)]])
    show "seqInv B ?R ?s" using e by (simp add: Let_def)
    show "op \<in> set ops \<Longrightarrow> beginsWith op = Some q \<Longrightarrow> q \<in> B" for op q using Cons.prems(3) [of op q] by simp
  qed
  have out: "fst (runSpans d (op # ops) s) = fst (execSpan d op s) @ fst (runSpans d ops ?s)" by (simp add: case_prod_beta)
  show ?case unfolding out using r e by (auto simp: Let_def)
qed simp

text \<open>
  Each measurement is reported at most once, and only measurements that were begun are reported: over any
  run the reported sequence numbers are distinct and each is the number of a begin in the run.
\<close>

theorem spans_reported_once:
  "distinct (map sr_sequence (fst (runSpans d ops (newSpans owner)))) \<and>
   list_all (\<lambda>r. list_ex (\<lambda>op. beginsWith op = Some (sr_sequence r)) ops) (fst (runSpans d ops (newSpans owner)))"
proof -
  have "live (newSpans owner) = (\<lambda>_. None)" by (simp add: live_def newSlot_def fun_eq_iff)
  then have "seqInv {q. \<exists>op \<in> set ops. beginsWith op = Some q} {} (newSpans owner)"
    by (simp add: seqInv_def) (simp add: newSpans_def)
  from runSpans_live [OF newSpans_scope this, of ops d] show ?thesis by (auto simp: list_all_iff list_ex_iff)
qed

section \<open>Sums of segments\<close>

lemma room_add: "ticks \<le> - 1 - w \<Longrightarrow> unat (ticks + w) = unat ticks + unat w" for ticks w :: u64
proof -
  assume "ticks \<le> - 1 - w"
  moreover have "unat (- 1 - w) = unat (- 1 :: u64) - unat w" by (rule unat_sub) simp
  moreover have "unat w \<le> unat (- 1 :: u64)" using word_n1_ge [of w] by (simp only: word_le_nat_alt)
  moreover have "unat (- 1 :: u64) = 2 ^ LENGTH(64) - 1"
    by (simp add: unsigned_minus_1_eq_mask mask_eq_exp_minus_1)
  ultimately have "unat ticks + unat w < 2 ^ LENGTH(64)" by (simp add: word_le_nat_alt)
  then show ?thesis by (rule unat_add_lem [THEN iffD1])
qed

lemma sumSegments_exact:
  "sumSegments t count n ticks p = Some v \<Longrightarrow> unat v = unat ticks + (\<Sum>m = n..<count. unat (t (2 * m + 1)) - unat (t (2 * m)))"
proof (induction t count n ticks p rule: sumSegments.induct)
  case (1 t count n ticks p)
  show ?case
  proof (cases "count \<le> n")
    case True
    with "1.prems" show ?thesis by (simp add: sumSegments.simps [of t count n])
  next
    case False
    let ?w = "t (2 * n + 1) - t (2 * n)"
    from "1.prems" False have g: "t (2 * n) \<le> t (2 * n + 1)" "ticks \<le> - 1 - ?w"
      "sumSegments t count (n + 1) (ticks + ?w) (t (2 * n + 1)) = Some v" "\<not> (n \<noteq> 0 \<and> t (2 * n) < p)"
      by (auto simp: sumSegments.simps [of t count n] Let_def not_less split: if_splits)
    have "unat ?w = unat (t (2 * n + 1)) - unat (t (2 * n))" using g(1) by (rule unat_sub)
    moreover have "unat (ticks + ?w) = unat ticks + unat ?w"
      using g(2) by (rule room_add)
    moreover have "(\<Sum>m = n..<count. unat (t (2 * m + 1)) - unat (t (2 * m))) =
        (unat (t (2 * n + 1)) - unat (t (2 * n))) + (\<Sum>m = n + 1..<count. unat (t (2 * m + 1)) - unat (t (2 * m)))"
      using False by (simp add: sum.atLeast_Suc_lessThan)
    moreover have "unat v = unat (ticks + ?w) + (\<Sum>m = n + 1..<count. unat (t (2 * m + 1)) - unat (t (2 * m)))"
      using "1.IH" [OF False refl _ refl] g by (auto simp: not_less)
    ultimately show ?thesis by simp
  qed
qed

lemma application_time_exact:
  assumes "validateApplication sl raw = (Valid, ms)"
  shows "ms = of_nat (\<Sum>m = 0..<sl_segmentCount sl. unat (rs_ticks raw (2 * m + 1)) - unat (rs_ticks raw (2 * m))) * 1000 /
    ratOf (rs_frequency raw)"
  using assms sumSegments_exact [of "rs_ticks raw" "sl_segmentCount sl" 0 0 0]
  by (auto simp: validateApplication_def Let_def ratOf_def split: if_splits option.splits)

end
