(* ===== verification/DisjointClock.thy ===== *)
theory DisjointClock
  imports GpuScope
begin

text \<open>
  \<^verbatim>\<open>src/common/gpu_disjoint_clock.h\<close>: eight disjoint-query records shared by up to thirty-two leases each. The
  backend is an argument: whether its n-th call works and what its n-th poll answers; \<open>actual\<close> is what
  \<^verbatim>\<open>currentOwner\<close> answers to the caller.
\<close>

section \<open>Types\<close>

datatype DisjointStatus = DisPending | DisReady | DisFailed

datatype DisjointReason = DisNone | DisInvalidLease | DisWrongOwner | DisIncomplete | DisDriverFailure | DisDisjoint
  | DisZeroFrequency | DisStale

record DisjointResult =
  dr_status :: DisjointStatus
  dr_frequency :: u64
  dr_disjoint :: bool
  dr_reason :: DisjointReason

definition noResult :: DisjointResult where
  "noResult = \<lparr>dr_status = DisPending, dr_frequency = 0, dr_disjoint = False, dr_reason = DisNone\<rparr>"

record DisjointBackend =
  db_ok :: "nat \<Rightarrow> bool"
  db_poll :: "nat \<Rightarrow> DisjointResult"

record Lease =
  ls_clock :: u64
  ls_generation :: u64
  ls_serial :: u64
  ls_record :: nat
  ls_index :: nat

definition noLease :: Lease where
  "noLease = \<lparr>ls_clock = 0, ls_generation = 0, ls_serial = 0, ls_record = 0, ls_index = 0\<rparr>"

datatype LeaseKind = Borrowed | Standalone | FrameLease

datatype RecordState = RecIdle | RecOpen | RecPending | RecComplete

record LeaseState =
  le_serial :: u64
  le_kind :: LeaseKind
  le_occupied :: bool
  le_ended :: bool
  le_invalid :: bool

definition newLeaseState :: LeaseState where
  "newLeaseState = \<lparr>le_serial = 0, le_kind = Borrowed, le_occupied = False, le_ended = False, le_invalid = False\<rparr>"

abbreviation kRecords :: nat where "kRecords \<equiv> 8"
abbreviation kLeases :: nat where "kLeases \<equiv> 32"
abbreviation kClockMaxAgeMs :: u64 where "kClockMaxAgeMs \<equiv> 2000"

record ClockRecord =
  cr_state :: RecordState
  cr_created :: bool
  cr_generation :: u64
  cr_nextSerial :: u64
  cr_closedAt :: u64
  cr_refs :: nat
  cr_result :: DisjointResult
  cr_leases :: "LeaseState list"

definition newRecord :: ClockRecord where
  "newRecord = \<lparr>cr_state = RecIdle, cr_created = False, cr_generation = 0, cr_nextSerial = 0, cr_closedAt = 0, cr_refs = 0,
     cr_result = noResult, cr_leases = replicate kLeases newLeaseState\<rparr>"

record DisjointClock =
  dc_owner :: GpuSpanOwner
  dc_id :: u64
  dc_records :: "ClockRecord list"
  dc_active :: "nat option"
  dc_stopped :: bool
  dc_shut :: bool
  dc_calls :: "GpuCall list"

definition newClock :: "GpuSpanOwner \<Rightarrow> u64 \<Rightarrow> DisjointClock" where
  "newClock owner i = \<lparr>dc_owner = owner, dc_id = i, dc_records = replicate kRecords newRecord, dc_active = None,
     dc_stopped = False, dc_shut = False, dc_calls = []\<rparr>"

section \<open>Access\<close>

definition recAt :: "nat \<Rightarrow> DisjointClock \<Rightarrow> ClockRecord" where
  "recAt i c = (if i < length (dc_records c) then dc_records c ! i else newRecord)"

definition setRec :: "nat \<Rightarrow> ClockRecord \<Rightarrow> DisjointClock \<Rightarrow> DisjointClock" where
  "setRec i r c = c\<lparr>dc_records := (dc_records c)[i := r]\<rparr>"

definition leaseAt :: "nat \<Rightarrow> ClockRecord \<Rightarrow> LeaseState" where
  "leaseAt j r = (if j < length (cr_leases r) then cr_leases r ! j else newLeaseState)"

definition setLease :: "nat \<Rightarrow> LeaseState \<Rightarrow> ClockRecord \<Rightarrow> ClockRecord" where
  "setLease j l r = r\<lparr>cr_leases := (cr_leases r)[j := l]\<rparr>"

definition backendOk :: "DisjointBackend \<Rightarrow> DisjointClock \<Rightarrow> bool" where
  "backendOk b c = db_ok b (length (dc_calls c))"

definition clockCall :: "GpuCall \<Rightarrow> DisjointClock \<Rightarrow> DisjointClock" where
  "clockCall call c = c\<lparr>dc_calls := call # dc_calls c\<rparr>"

section \<open>Private operations\<close>

definition failure :: "DisjointReason \<Rightarrow> DisjointResult" where
  "failure why = \<lparr>dr_status = DisFailed, dr_frequency = 0, dr_disjoint = False, dr_reason = why\<rparr>"

definition leaseValid :: "Lease \<Rightarrow> DisjointClock \<Rightarrow> bool" where
  "leaseValid t c \<longleftrightarrow> ls_clock t = dc_id c \<and> ls_record t < kRecords \<and> ls_index t < kLeases \<and>
     (let r = recAt (ls_record t) c; l = leaseAt (ls_index t) r
      in cr_state r \<noteq> RecIdle \<and> cr_generation r = ls_generation t \<and> le_occupied l \<and> le_serial l = ls_serial t)"

definition dcAllocate :: "nat \<Rightarrow> LeaseKind \<Rightarrow> DisjointClock \<Rightarrow> Lease \<times> DisjointClock" where
  "dcAllocate i kind c =
     (let r = recAt i c in
      case find (\<lambda>j. \<not> le_occupied (leaseAt j r)) [0..<kLeases] of
        None \<Rightarrow> (noLease, c)
      | Some j \<Rightarrow>
          if cr_nextSerial r = - 1 then (noLease, c)
          else
            (let serial = cr_nextSerial r + 1;
                 l = \<lparr>le_serial = serial, le_kind = kind, le_occupied = True, le_ended = False, le_invalid = False\<rparr>
             in (\<lparr>ls_clock = dc_id c, ls_generation = cr_generation r, ls_serial = serial, ls_record = i, ls_index = j\<rparr>,
                 setRec i ((setLease j l r)\<lparr>cr_nextSerial := serial, cr_refs := cr_refs r + 1\<rparr>) c)))"

definition dcCreate :: "DisjointBackend \<Rightarrow> nat \<Rightarrow> DisjointClock \<Rightarrow> bool \<times> DisjointClock" where
  "dcCreate b i c =
     (if cr_created (recAt i c) then (True, c)
      else
        (let ok = backendOk b c; c1 = clockCall (GCreate i ok) c
         in (ok, if ok then setRec i ((recAt i c1)\<lparr>cr_created := True\<rparr>) c1 else c1)))"

definition dcBegin :: "DisjointBackend \<Rightarrow> nat \<Rightarrow> DisjointClock \<Rightarrow> bool \<times> DisjointClock" where
  "dcBegin b i c =
     (let ok = backendOk b c; c1 = clockCall (GBegin i ok) c; r = recAt i c1
      in (ok, if ok then (setRec i (r\<lparr>cr_generation := cr_generation r + 1, cr_state := RecOpen, cr_result := noResult\<rparr>) c1)
                           \<lparr>dc_active := Some i\<rparr>
              else setRec i (r\<lparr>cr_created := False\<rparr>) (clockCall (GDestroy i) c1)))"

definition idleRecord :: "DisjointClock \<Rightarrow> nat option" where
  "idleRecord c = find (\<lambda>i. cr_state (recAt i c) = RecIdle \<and> cr_generation (recAt i c) \<noteq> - 1) [0..<kRecords]"

definition dcOpen :: "DisjointBackend \<Rightarrow> LeaseKind \<Rightarrow> DisjointClock \<Rightarrow> Lease \<times> DisjointClock" where
  "dcOpen b kind c =
     (case idleRecord c of
        None \<Rightarrow> (noLease, c)
      | Some i \<Rightarrow>
          (case dcCreate b i c of (created, c1) \<Rightarrow>
             if \<not> created then (noLease, c1)
             else (case dcBegin b i c1 of (begun, c2) \<Rightarrow> if begun then dcAllocate i kind c2 else (noLease, c2))))"

definition invalidateOpen :: "LeaseState \<Rightarrow> LeaseState" where
  "invalidateOpen l = (if le_occupied l \<and> \<not> le_ended l then l\<lparr>le_invalid := True\<rparr> else l)"

definition dcClose :: "DisjointBackend \<Rightarrow> nat \<Rightarrow> u64 \<Rightarrow> DisjointClock \<Rightarrow> bool \<times> DisjointClock" where
  "dcClose b i now c =
     (let ok = backendOk b c; c1 = clockCall (GEnd i ok) c; r = recAt i c1;
          r1 = r\<lparr>cr_closedAt := now, cr_state := (if ok then RecPending else RecComplete),
                 cr_result := (if ok then cr_result r else failure DisDriverFailure),
                 cr_leases := map invalidateOpen (cr_leases r)\<rparr>
      in (ok, (setRec i r1 c1)\<lparr>dc_active := None, dc_stopped := (dc_stopped c1 \<or> \<not> ok)\<rparr>))"

definition dcRetire :: "nat \<Rightarrow> DisjointClock \<Rightarrow> DisjointClock" where
  "dcRetire i c =
     (let r = recAt i c; keep = (cr_created r \<and> dr_status (cr_result r) = DisReady);
          c1 = (if cr_created r \<and> \<not> keep then clockCall (GDestroy i) c else c)
      in if cr_refs r \<noteq> 0 \<or> cr_state r \<noteq> RecComplete then c
         else setRec i (newRecord\<lparr>cr_created := keep, cr_generation := cr_generation r\<rparr>) c1)"

definition checkedResult :: "DisjointResult \<Rightarrow> DisjointResult" where
  "checkedResult res =
     (case dr_status res of
        DisReady \<Rightarrow> if dr_disjoint res then failure DisDisjoint
                    else if dr_frequency res = 0 then failure DisZeroFrequency else res
      | DisFailed \<Rightarrow> failure DisDriverFailure
      | DisPending \<Rightarrow> res)"

definition settled :: "nat \<Rightarrow> DisjointResult \<Rightarrow> DisjointClock \<Rightarrow> DisjointClock" where
  "settled i res c =
     dcRetire i (setRec i ((recAt i c)\<lparr>cr_result := res,
       cr_state := (if dr_status res \<noteq> DisPending then RecComplete else cr_state (recAt i c))\<rparr>) c)"

definition dcUpdate :: "DisjointBackend \<Rightarrow> u64 \<Rightarrow> nat \<Rightarrow> DisjointClock \<Rightarrow> DisjointClock" where
  "dcUpdate b now i c =
     (let r = recAt i c in
      if cr_state r \<noteq> RecPending then c
      else if dc_stopped c then settled i (failure DisDriverFailure) c
      else if cr_closedAt r \<le> now \<and> kClockMaxAgeMs < now - cr_closedAt r then settled i (failure DisStale) c
      else settled i (checkedResult (db_poll b (length (dc_calls c)))) (clockCall (GPoll i) c))"

section \<open>Public operations\<close>

definition collectAll :: "DisjointBackend \<Rightarrow> u64 \<Rightarrow> DisjointClock \<Rightarrow> DisjointClock" where
  "collectAll b now c = fold (dcUpdate b now) [0..<kRecords] c"

definition dcCollect :: "DisjointBackend \<Rightarrow> GpuSpanOwner \<Rightarrow> u64 \<Rightarrow> DisjointClock \<Rightarrow> bool \<times> DisjointClock" where
  "dcCollect b actual now c =
     (if \<not> ownerMatches (dc_owner c) actual \<or> dc_shut c then (False, c) else (True, collectAll b now c))"

definition startFrame :: "DisjointBackend \<Rightarrow> GpuSpanOwner \<Rightarrow> u64 \<Rightarrow> DisjointClock \<Rightarrow> Lease \<times> DisjointClock" where
  "startFrame b actual now c =
     (if \<not> ownerMatches (dc_owner c) actual \<or> dc_stopped c \<or> dc_shut c \<or> dc_active c \<noteq> None then (noLease, c)
      else dcOpen b FrameLease (snd (dcCollect b actual now c)))"

definition acquireInterval :: "DisjointBackend \<Rightarrow> GpuSpanOwner \<Rightarrow> u64 \<Rightarrow> DisjointClock \<Rightarrow> Lease \<times> DisjointClock" where
  "acquireInterval b actual now c =
     (if \<not> ownerMatches (dc_owner c) actual \<or> dc_stopped c \<or> dc_shut c then (noLease, c)
      else (case dc_active c of
              Some i \<Rightarrow> dcAllocate i Borrowed c
            | None \<Rightarrow> dcOpen b Standalone (snd (dcCollect b actual now c))))"

definition acquireBorrowedFrame :: "GpuSpanOwner \<Rightarrow> DisjointClock \<Rightarrow> Lease \<times> DisjointClock" where
  "acquireBorrowedFrame actual c =
     (if \<not> ownerMatches (dc_owner c) actual \<or> dc_stopped c \<or> dc_shut c then (noLease, c)
      else (case dc_active c of
              None \<Rightarrow> (noLease, c)
            | Some i \<Rightarrow>
                if list_ex (\<lambda>l. le_occupied l \<and> le_kind l = FrameLease \<and> \<not> le_ended l \<and> \<not> le_invalid l) (cr_leases (recAt i c))
                then dcAllocate i Borrowed c else (noLease, c)))"

definition markEnded :: "Lease \<Rightarrow> DisjointClock \<Rightarrow> DisjointClock" where
  "markEnded t c =
     (let r = recAt (ls_record t) c
      in setRec (ls_record t) (setLease (ls_index t) ((leaseAt (ls_index t) r)\<lparr>le_ended := True\<rparr>) r) c)"

definition endInterval :: "DisjointBackend \<Rightarrow> GpuSpanOwner \<Rightarrow> Lease \<Rightarrow> u64 \<Rightarrow> DisjointClock \<Rightarrow> bool \<times> DisjointClock" where
  "endInterval b actual t now c =
     (let r = recAt (ls_record t) c; l = leaseAt (ls_index t) r in
      if \<not> ownerMatches (dc_owner c) actual \<or> dc_shut c \<or> \<not> leaseValid t c then (False, c)
      else if cr_state r \<noteq> RecOpen \<or> le_kind l = FrameLease \<or> le_ended l \<or> le_invalid l then (False, c)
      else if le_kind l = Standalone then dcClose b (ls_record t) now (markEnded t c)
      else (True, markEnded t c))"

definition finishClockFrame :: "DisjointBackend \<Rightarrow> GpuSpanOwner \<Rightarrow> Lease \<Rightarrow> u64 \<Rightarrow> DisjointClock \<Rightarrow> bool \<times> DisjointClock" where
  "finishClockFrame b actual t now c =
     (let r = recAt (ls_record t) c; l = leaseAt (ls_index t) r in
      if \<not> ownerMatches (dc_owner c) actual \<or> dc_shut c \<or> \<not> leaseValid t c then (False, c)
      else if cr_state r \<noteq> RecOpen \<or> le_kind l \<noteq> FrameLease \<or> le_ended l then (False, c)
      else dcClose b (ls_record t) now (markEnded t c))"

definition dcPoll :: "DisjointBackend \<Rightarrow> GpuSpanOwner \<Rightarrow> Lease \<Rightarrow> u64 \<Rightarrow> DisjointClock \<Rightarrow> DisjointResult \<times> DisjointClock" where
  "dcPoll b actual t now c =
     (let l = leaseAt (ls_index t) (recAt (ls_record t) c) in
      if \<not> ownerMatches (dc_owner c) actual then (failure DisWrongOwner, c)
      else if dc_shut c \<or> \<not> leaseValid t c then (failure DisInvalidLease, c)
      else if le_invalid l then (failure DisIncomplete, c)
      else if \<not> le_ended l then (noResult, c)
      else (let c1 = dcUpdate b now (ls_record t) c in (cr_result (recAt (ls_record t) c1), c1)))"

definition dropLease :: "Lease \<Rightarrow> DisjointClock \<Rightarrow> DisjointClock" where
  "dropLease t c =
     (let r = recAt (ls_record t) c
      in dcRetire (ls_record t) (setRec (ls_record t)
           ((setLease (ls_index t) ((leaseAt (ls_index t) r)\<lparr>le_occupied := False\<rparr>) r)\<lparr>cr_refs := cr_refs r - 1\<rparr>) c))"

definition dcRelease :: "DisjointBackend \<Rightarrow> GpuSpanOwner \<Rightarrow> Lease \<Rightarrow> u64 \<Rightarrow> DisjointClock \<Rightarrow> bool \<times> DisjointClock" where
  "dcRelease b actual t now c =
     (let r = recAt (ls_record t) c; l = leaseAt (ls_index t) r in
      if \<not> ownerMatches (dc_owner c) actual \<or> dc_shut c \<or> \<not> leaseValid t c then (False, c)
      else (True, dropLease t
             (if cr_state r = RecOpen \<and> le_kind l \<noteq> Borrowed then snd (dcClose b (ls_record t) now c) else c)))"

definition destroyRecord :: "nat \<Rightarrow> DisjointClock \<Rightarrow> DisjointClock" where
  "destroyRecord i c = setRec i newRecord (if cr_created (recAt i c) then clockCall (GDestroy i) c else c)"

definition dcShutdown :: "DisjointBackend \<Rightarrow> GpuSpanOwner \<Rightarrow> u64 \<Rightarrow> DisjointClock \<Rightarrow> bool \<times> DisjointClock" where
  "dcShutdown b actual now c =
     (if \<not> ownerMatches (dc_owner c) actual \<or> dc_shut c then (False, c)
      else
        (let c1 = (case dc_active c of None \<Rightarrow> c | Some i \<Rightarrow> snd (dcClose b i now c))
         in (True, (fold destroyRecord [0..<kRecords] c1)\<lparr>dc_shut := True\<rparr>)))"

section \<open>Runs\<close>

datatype ClockOp =
    CkStartFrame GpuSpanOwner u64
  | CkAcquireInterval GpuSpanOwner u64
  | CkAcquireBorrowed GpuSpanOwner
  | CkEndInterval GpuSpanOwner Lease u64
  | CkFinishFrame GpuSpanOwner Lease u64
  | CkPoll GpuSpanOwner Lease u64
  | CkRelease GpuSpanOwner Lease u64
  | CkCollect GpuSpanOwner u64
  | CkShutdown GpuSpanOwner u64

fun execClock :: "DisjointBackend \<Rightarrow> ClockOp \<Rightarrow> DisjointClock \<Rightarrow> DisjointClock" where
  "execClock b (CkStartFrame a now) c = snd (startFrame b a now c)"
| "execClock b (CkAcquireInterval a now) c = snd (acquireInterval b a now c)"
| "execClock b (CkAcquireBorrowed a) c = snd (acquireBorrowedFrame a c)"
| "execClock b (CkEndInterval a t now) c = snd (endInterval b a t now c)"
| "execClock b (CkFinishFrame a t now) c = snd (finishClockFrame b a t now c)"
| "execClock b (CkPoll a t now) c = snd (dcPoll b a t now c)"
| "execClock b (CkRelease a t now) c = snd (dcRelease b a t now c)"
| "execClock b (CkCollect a now) c = snd (dcCollect b a now c)"
| "execClock b (CkShutdown a now) c = snd (dcShutdown b a now c)"

end
