(* ===== verification/ClockProps.thy ===== *)
theory ClockProps
  imports DisjointClock
begin

text \<open>
  The order of the calls \<^verbatim>\<open>DisjointClock\<close> makes to its backend, the well-formedness of its records, and that a
  released lease never becomes valid again.
\<close>


section \<open>Records\<close>

lemma clock_fields [simp]:
  "dc_records (clockCall x c) = dc_records c" "dc_active (clockCall x c) = dc_active c" "dc_stopped (clockCall x c) = dc_stopped c"
  "dc_calls (clockCall x c) = x # dc_calls c" "dc_owner (clockCall x c) = dc_owner c" "dc_shut (clockCall x c) = dc_shut c"
  "dc_id (clockCall x c) = dc_id c"
  "dc_active (setRec i r c) = dc_active c" "dc_stopped (setRec i r c) = dc_stopped c" "dc_calls (setRec i r c) = dc_calls c"
  "dc_owner (setRec i r c) = dc_owner c" "dc_shut (setRec i r c) = dc_shut c" "dc_id (setRec i r c) = dc_id c"
  "length (dc_records (setRec i r c)) = length (dc_records c)"
  by (simp_all add: clockCall_def setRec_def)

lemma recAt_simps [simp]:
  "recAt i (clockCall x c) = recAt i c" "recAt i (c\<lparr>dc_active := a\<rparr>) = recAt i c" "recAt i (c\<lparr>dc_stopped := s\<rparr>) = recAt i c"
  "recAt i (c\<lparr>dc_shut := s\<rparr>) = recAt i c"
  by (simp_all add: recAt_def clockCall_def)

lemma recAt_set: "recAt j (setRec i r c) = (if j = i \<and> i < length (dc_records c) then r else recAt j c)"
  by (simp add: recAt_def setRec_def)

lemma recAt_beyond: "length (dc_records c) \<le> i \<Longrightarrow> recAt i c = newRecord"
  by (simp add: recAt_def)

lemma setLease_fields [simp]:
  "cr_state (setLease j l r) = cr_state r" "cr_created (setLease j l r) = cr_created r" "cr_generation (setLease j l r) = cr_generation r"
  "cr_nextSerial (setLease j l r) = cr_nextSerial r" "cr_refs (setLease j l r) = cr_refs r" "cr_result (setLease j l r) = cr_result r"
  by (simp_all add: setLease_def)

section \<open>The scope\<close>

definition recTracks :: "GpuScope \<Rightarrow> DisjointClock \<Rightarrow> nat \<Rightarrow> bool" where
  "recTracks g c i \<longleftrightarrow> sc_created g i = cr_created (recAt i c) \<and>
     (cr_state (recAt i c) = RecOpen \<longleftrightarrow> dc_active c = Some i) \<and>
     (cr_state (recAt i c) = RecPending \<longrightarrow> dc_stopped c \<or> sc_ended g i) \<and>
     (cr_state (recAt i c) \<noteq> RecIdle \<longrightarrow> cr_created (recAt i c))"

definition clockTracks :: "GpuScope \<Rightarrow> DisjointClock \<Rightarrow> bool" where
  "clockTracks g c \<longleftrightarrow> length (dc_records c) = kRecords \<and> sc_open g = dc_active c \<and> sc_uncertain g = dc_stopped c \<and>
     (dc_stopped c \<longrightarrow> dc_active c = None) \<and> (\<forall>i. recTracks g c i)"

definition clockScope :: "DisjointClock \<Rightarrow> bool" where
  "clockScope c \<longleftrightarrow> (\<exists>g. scopeOf (dc_calls c) = Some g \<and> clockTracks g c)"

lemma clockScopeI: "scopeOf (dc_calls c) = Some g \<Longrightarrow> clockTracks g c \<Longrightarrow> clockScope c"
  by (auto simp: clockScope_def)

lemma clockScopeE:
  assumes "clockScope c"
  obtains g where "scopeOf (dc_calls c) = Some g" "clockTracks g c" "length (dc_records c) = kRecords" "sc_open g = dc_active c"
    "sc_uncertain g = dc_stopped c" "dc_stopped c \<longrightarrow> dc_active c = None" "\<And>i. recTracks g c i"
  using assms by (auto simp: clockScope_def clockTracks_def)

lemma clockTracksI:
  assumes "clockTracks g c" "length (dc_records c') = length (dc_records c)" "sc_open g' = dc_active c'"
    "sc_uncertain g' = dc_stopped c'" "dc_stopped c' \<longrightarrow> dc_active c' = None" "\<And>j. recTracks g c j \<Longrightarrow> recTracks g' c' j"
  shows "clockTracks g' c'"
  using assms by (simp add: clockTracks_def)

lemma active_record:
  assumes "clockScope c" "cr_state (recAt i c) \<noteq> RecIdle"
  shows "i < length (dc_records c)" "i < kRecords" "cr_created (recAt i c)"
proof -
  show i: "i < length (dc_records c)" using assms(2) recAt_beyond [of c i] by (cases "length (dc_records c) \<le> i") (auto simp: newRecord_def)
  show "i < kRecords" using i assms(1) by (auto elim: clockScopeE)
  show "cr_created (recAt i c)" using assms by (auto elim!: clockScopeE simp: recTracks_def)
qed

lemma quietRec_scope:
  assumes "clockScope c" "cr_state r = cr_state (recAt i c)" "cr_created r = cr_created (recAt i c)"
  shows "clockScope (setRec i r c)"
proof -
  obtain g where g: "scopeOf (dc_calls c) = Some g" "clockTracks g c" using assms(1) by (auto simp: clockScope_def)
  have "clockTracks g (setRec i r c)"
    by (rule clockTracksI [OF g(2)]) (use g(2) assms(2,3) in \<open>auto simp: recTracks_def recAt_set clockTracks_def\<close>)
  with g show ?thesis by (auto intro: clockScopeI)
qed

lemma allocate_scope: "clockScope c \<Longrightarrow> clockScope (snd (dcAllocate i kind c))"
  by (auto simp: dcAllocate_def Let_def split: option.splits intro!: quietRec_scope)

lemma close_facts:
  fixes b i now c
  defines "c' \<equiv> snd (dcClose b i now c)"
  shows "dc_calls c' = GEnd i (backendOk b c) # dc_calls c" "dc_active c' = None" "dc_stopped c' = (dc_stopped c \<or> \<not> backendOk b c)"
    "length (dc_records c') = length (dc_records c)" "j \<noteq> i \<Longrightarrow> recAt j c' = recAt j c"
    "i < length (dc_records c) \<Longrightarrow> recAt i c' = (recAt i c)\<lparr>cr_closedAt := now, cr_state := (if backendOk b c then RecPending else RecComplete),
       cr_result := (if backendOk b c then cr_result (recAt i c) else failure DisDriverFailure),
       cr_leases := map invalidateOpen (cr_leases (recAt i c))\<rparr>"
    "dc_owner c' = dc_owner c" "dc_id c' = dc_id c" "dc_shut c' = dc_shut c"
  by (simp_all add: c'_def dcClose_def Let_def recAt_set)

lemma clockClose_scope:
  assumes "clockScope c" "cr_state (recAt i c) = RecOpen"
  shows "clockScope (snd (dcClose b i now c))"
proof -
  obtain g where g: "scopeOf (dc_calls c) = Some g" "clockTracks g c" "sc_open g = dc_active c" "sc_uncertain g = dc_stopped c"
    "recTracks g c i" using assms(1) by (auto elim: clockScopeE)
  let ?c = "snd (dcClose b i now c)" and ?ok = "backendOk b c"
  let ?g = "g\<lparr>sc_open := None, sc_ended := (sc_ended g)(i := ?ok), sc_uncertain := (sc_uncertain g \<or> \<not> ?ok)\<rparr>"
  have a: "dc_active c = Some i" using g(5) assms(2) by (simp add: recTracks_def)
  note i = active_record [OF assms(1), of i, unfolded assms(2), OF RecordState.distinct(2)]
  note f = close_facts [where b = b and i = i and now = now and c = c]
  have "scopeOf (dc_calls ?c) = Some ?g" using g a by (simp add: f)
  moreover have "clockTracks ?g ?c"
  proof (rule clockTracksI [OF g(2)])
    show "recTracks ?g ?c j" if "recTracks g c j" for j
      using that a i(3) by (cases "j = i") (simp_all add: recTracks_def f f(6) [OF i(1)])
  qed (use g in \<open>simp_all add: f\<close>)
  ultimately show ?thesis by (rule clockScopeI)
qed

lemma clockRetire_facts:
  assumes "length (dc_records c) = kRecords" "i < kRecords" "cr_refs (recAt i c) = 0" "cr_state (recAt i c) = RecComplete"
  shows "recAt j (dcRetire i c) = (if j = i then newRecord\<lparr>cr_created := (cr_created (recAt i c) \<and> dr_status (cr_result (recAt i c)) = DisReady),
      cr_generation := cr_generation (recAt i c)\<rparr> else recAt j c)"
    "dc_calls (dcRetire i c) = (if cr_created (recAt i c) \<and> dr_status (cr_result (recAt i c)) \<noteq> DisReady then GDestroy i # dc_calls c else dc_calls c)"
  using assms by (auto simp: dcRetire_def Let_def recAt_set)

lemma retire_fields [simp]:
  "dc_active (dcRetire i c) = dc_active c" "dc_stopped (dcRetire i c) = dc_stopped c" "dc_owner (dcRetire i c) = dc_owner c"
  "dc_shut (dcRetire i c) = dc_shut c" "dc_id (dcRetire i c) = dc_id c" "length (dc_records (dcRetire i c)) = length (dc_records c)"
  by (simp_all add: dcRetire_def Let_def)

lemma clockRetire_scope:
  assumes "clockScope c"
  shows "clockScope (dcRetire i c)"
proof (cases "cr_refs (recAt i c) = 0 \<and> cr_state (recAt i c) = RecComplete")
  case True
  obtain g where g: "scopeOf (dc_calls c) = Some g" "clockTracks g c" "sc_open g = dc_active c" "sc_uncertain g = dc_stopped c"
    "dc_stopped c \<longrightarrow> dc_active c = None" "recTracks g c i" "length (dc_records c) = kRecords" using assms by (auto elim: clockScopeE)
  have i: "i < kRecords" "cr_created (recAt i c)" using active_record [OF assms, of i] True by auto
  note f = clockRetire_facts [OF g(7) i(1)]
  let ?d = "dr_status (cr_result (recAt i c)) \<noteq> DisReady"
  let ?g = "if ?d then g\<lparr>sc_created := (sc_created g)(i := False), sc_ended := (sc_ended g)(i := False)\<rparr> else g"
  have "scopeOf (dc_calls (dcRetire i c)) = Some ?g"
    using g True i by (auto simp: f recTracks_def)
  moreover have "clockTracks ?g (dcRetire i c)"
  proof (rule clockTracksI [OF g(2)])
    show "recTracks ?g (dcRetire i c) j" if "recTracks g c j" for j
      using that g(6) True i by (cases "j = i") (auto simp: recTracks_def f newRecord_def)
  qed (use g in simp_all)
  ultimately show ?thesis by (rule clockScopeI)
qed (use assms in \<open>auto simp: dcRetire_def Let_def\<close>)

lemma settled_scope:
  assumes "clockScope c" "cr_state (recAt i c) = RecPending"
  shows "clockScope (settled i res c)"
proof -
  obtain g where g: "scopeOf (dc_calls c) = Some g" "clockTracks g c" using assms(1) by (auto simp: clockScope_def)
  let ?c = "setRec i ((recAt i c)\<lparr>cr_result := res,
       cr_state := (if dr_status res \<noteq> DisPending then RecComplete else cr_state (recAt i c))\<rparr>) c"
  have "clockTracks g ?c"
    by (rule clockTracksI [OF g(2)]) (use g(2) assms(2) in \<open>auto simp: recTracks_def recAt_set clockTracks_def\<close>)
  then show ?thesis unfolding settled_def using g by (intro clockRetire_scope clockScopeI [where g = g]) simp_all
qed

lemma update_scope: "clockScope c \<Longrightarrow> clockScope (dcUpdate b now i c)"
proof -
  assume c: "clockScope c"
  have "clockScope (clockCall (GPoll i) c)" if "cr_state (recAt i c) = RecPending" "\<not> dc_stopped c"
  proof -
    obtain g where g: "scopeOf (dc_calls c) = Some g" "clockTracks g c" "sc_uncertain g = dc_stopped c" "recTracks g c i"
      using c by (auto elim: clockScopeE)
    have "scopeOf (dc_calls (clockCall (GPoll i) c)) = Some g" using g that by (auto simp: recTracks_def)
    moreover have "clockTracks g (clockCall (GPoll i) c)" using g(2) by (simp add: clockTracks_def recTracks_def)
    ultimately show ?thesis by (rule clockScopeI)
  qed
  then show ?thesis using c by (auto simp: dcUpdate_def Let_def intro!: settled_scope)
qed

lemma update_fields [simp]:
  "dc_active (dcUpdate b now i c) = dc_active c" "dc_stopped (dcUpdate b now i c) = dc_stopped c" "dc_owner (dcUpdate b now i c) = dc_owner c"
  "dc_shut (dcUpdate b now i c) = dc_shut c" "dc_id (dcUpdate b now i c) = dc_id c"
  "length (dc_records (dcUpdate b now i c)) = length (dc_records c)"
  by (simp_all add: dcUpdate_def settled_def Let_def)

lemma collectAll_scope: "clockScope c \<Longrightarrow> clockScope (collectAll b now c)"
  unfolding collectAll_def by (rule fold_invariant) (auto intro: update_scope)

lemma collectAll_fields [simp]:
  "dc_active (collectAll b now c) = dc_active c" "dc_stopped (collectAll b now c) = dc_stopped c" "dc_owner (collectAll b now c) = dc_owner c"
  "dc_shut (collectAll b now c) = dc_shut c" "dc_id (collectAll b now c) = dc_id c"
  "length (dc_records (collectAll b now c)) = length (dc_records c)"
  unfolding collectAll_def by (rule fold_invariant [where P = "\<lambda>x. _ x = _ c"]; simp)+

lemma create_scope:
  assumes "clockScope c" "\<not> dc_stopped c" "i < kRecords" "dcCreate b i c = (ok, c')"
  shows "clockScope c' \<and> dc_active c' = dc_active c \<and> dc_stopped c' = dc_stopped c \<and> (ok \<longrightarrow> cr_created (recAt i c'))"
proof (cases "cr_created (recAt i c)")
  case True
  then show ?thesis using assms by (auto simp: dcCreate_def)
next
  case False
  obtain g where g: "scopeOf (dc_calls c) = Some g" "clockTracks g c" "sc_uncertain g = dc_stopped c" "recTracks g c i"
    "length (dc_records c) = kRecords" "sc_open g = dc_active c" using assms(1) by (auto elim: clockScopeE)
  let ?ok = "backendOk b c" and ?g = "g\<lparr>sc_created := (sc_created g)(i := backendOk b c)\<rparr>"
  have c': "c' = (if ?ok then setRec i ((recAt i c)\<lparr>cr_created := True\<rparr>) (clockCall (GCreate i ?ok) c) else clockCall (GCreate i ?ok) c)"
    "ok = ?ok" using assms(4) False by (auto simp: dcCreate_def Let_def)
  have "scopeOf (dc_calls c') = Some ?g" using g assms(2) False by (simp add: c' recTracks_def)
  moreover have "clockTracks ?g c'"
  proof (rule clockTracksI [OF g(2)])
    show "recTracks ?g c' j" if "recTracks g c j" for j
      using that assms(3) g(5) False by (cases "j = i") (auto simp: recTracks_def c' recAt_set)
  qed (use g assms(2) in \<open>simp_all add: c'\<close>)
  ultimately have "clockScope c'" by (rule clockScopeI)
  then show ?thesis using assms(3) g(5) by (auto simp: c' recAt_set)
qed

lemma begin_scope:
  assumes "clockScope c" "\<not> dc_stopped c" "dc_active c = None" "i < kRecords" "cr_created (recAt i c)" "cr_state (recAt i c) = RecIdle"
    "dcBegin b i c = (ok, c')"
  shows "clockScope c'"
proof -
  obtain g where g: "scopeOf (dc_calls c) = Some g" "clockTracks g c" "sc_uncertain g = dc_stopped c" "recTracks g c i"
    "length (dc_records c) = kRecords" "sc_open g = dc_active c" using assms(1) by (auto elim: clockScopeE)
  let ?ok = "backendOk b c"
  let ?g = "if ?ok then g\<lparr>sc_open := Some i, sc_ended := (sc_ended g)(i := False)\<rparr>
            else g\<lparr>sc_created := (sc_created g)(i := False), sc_ended := (sc_ended g)(i := False)\<rparr>"
  have f: "dc_calls c' = (if ?ok then [GBegin i ?ok] else [GDestroy i, GBegin i ?ok]) @ dc_calls c"
    "dc_active c' = (if ?ok then Some i else None)" "dc_stopped c' = dc_stopped c" "length (dc_records c') = length (dc_records c)"
    "j \<noteq> i \<Longrightarrow> recAt j c' = recAt j c" "cr_state (recAt i c') = (if ?ok then RecOpen else RecIdle)" "cr_created (recAt i c') = ?ok" for j
    using assms(3-7) g(5) by (auto simp: dcBegin_def Let_def recAt_set)
  have "scopeOf (dc_calls c') = Some ?g" using g assms(2,3,5) by (auto simp: f(1) recTracks_def)
  moreover have "clockTracks ?g c'"
  proof (rule clockTracksI [OF g(2)])
    show "recTracks ?g c' j" if "recTracks g c j" for j
      using that assms(3,5) by (cases "j = i") (auto simp: recTracks_def f(2-7))
  qed (use g assms(2,3) in \<open>simp_all add: f(2-4)\<close>)
  ultimately show ?thesis by (rule clockScopeI)
qed

lemma idleRecord_Some: "idleRecord c = Some i \<Longrightarrow> i < kRecords \<and> cr_state (recAt i c) = RecIdle \<and> cr_generation (recAt i c) \<noteq> - 1"
  by (auto simp: idleRecord_def find_Some_iff)

lemma create_state: "cr_state (recAt j (snd (dcCreate b i c))) = cr_state (recAt j c)"
  by (simp add: dcCreate_def Let_def recAt_set)

lemma open_scope:
  assumes "clockScope c" "\<not> dc_stopped c" "dc_active c = None"
  shows "clockScope (snd (dcOpen b kind c))"
proof (cases "idleRecord c")
  case (Some i)
  note i = idleRecord_Some [OF Some]
  obtain created c1 where c1: "dcCreate b i c = (created, c1)" by fastforce
  obtain begun c2 where c2: "dcBegin b i c1 = (begun, c2)" by fastforce
  note k = create_scope [OF assms(1,2) i [THEN conjunct1] c1]
  have "cr_state (recAt i c1) = RecIdle" using create_state [of i b i c] i c1 by simp
  then have "created \<Longrightarrow> clockScope c2" using k assms begin_scope [of c1 i b begun c2] i c2 by simp
  then show ?thesis using k by (auto simp: dcOpen_def Some c1 c2 allocate_scope)
qed (use assms in \<open>simp add: dcOpen_def\<close>)

lemma markEnded_scope: "clockScope c \<Longrightarrow> clockScope (markEnded t c)"
  by (auto simp: markEnded_def Let_def intro!: quietRec_scope)

lemma markEnded_state [simp]: "cr_state (recAt i (markEnded t c)) = cr_state (recAt i c)"
  by (simp add: markEnded_def Let_def recAt_set)

lemma dropLease_scope: "clockScope c \<Longrightarrow> clockScope (dropLease t c)"
  by (auto simp: dropLease_def Let_def intro!: clockRetire_scope quietRec_scope)

lemma destroyRecord_scope:
  assumes "clockScope c" "dc_active c = None" "i < kRecords"
  shows "clockScope (destroyRecord i c)"
proof -
  obtain g where g: "scopeOf (dc_calls c) = Some g" "clockTracks g c" "sc_uncertain g = dc_stopped c" "recTracks g c i"
    "length (dc_records c) = kRecords" "sc_open g = dc_active c" using assms(1) by (auto elim: clockScopeE)
  let ?g = "if cr_created (recAt i c) then g\<lparr>sc_created := (sc_created g)(i := False), sc_ended := (sc_ended g)(i := False)\<rparr> else g"
  have "scopeOf (dc_calls (destroyRecord i c)) = Some ?g"
    using g assms(2) by (auto simp: destroyRecord_def recTracks_def)
  moreover have "clockTracks ?g (destroyRecord i c)"
  proof (rule clockTracksI [OF g(2)])
    show "recTracks ?g (destroyRecord i c) j" if "recTracks g c j" for j
      using that assms(2,3) g(5) by (cases "j = i") (auto simp: recTracks_def destroyRecord_def recAt_set newRecord_def)
  qed (use g assms(2) in \<open>auto simp: destroyRecord_def\<close>)
  ultimately show ?thesis by (rule clockScopeI)
qed

lemma shut_scope [simp]: "clockScope (c\<lparr>dc_shut := x\<rparr>) = clockScope c"
  by (simp add: clockScope_def clockTracks_def recTracks_def)

lemma clockShutdown_scope:
  assumes "clockScope c"
  shows "clockScope (snd (dcShutdown b a now c))"
proof -
  define c1 where "c1 = (case dc_active c of None \<Rightarrow> c | Some i \<Rightarrow> snd (dcClose b i now c))"
  have opened: "cr_state (recAt i c) = RecOpen" if "dc_active c = Some i" for i
    using assms that by (auto elim!: clockScopeE simp: recTracks_def)
  have "clockScope c1 \<and> dc_active c1 = None"
    using assms clockClose_scope [OF assms opened] by (auto simp: c1_def close_facts(2) split: option.splits)
  then have "clockScope (fold destroyRecord [0..<kRecords] c1) \<and> dc_active (fold destroyRecord [0..<kRecords] c1) = None"
    by (intro fold_invariant [where P = "\<lambda>x. clockScope x \<and> dc_active x = None"])
      (auto simp: destroyRecord_scope simp del: upt_conv_Cons, simp add: destroyRecord_def)
  then show ?thesis
    using assms by (simp add: dcShutdown_def Let_def c1_def [symmetric] del: upt_conv_Cons)
qed

lemma execClock_scope: "clockScope c \<Longrightarrow> clockScope (execClock b op c)"
  by (cases op)
    (auto simp: startFrame_def acquireInterval_def acquireBorrowedFrame_def endInterval_def finishClockFrame_def dcPoll_def dcRelease_def
      dcCollect_def Let_def allocate_scope clockShutdown_scope split: option.splits
      intro!: open_scope collectAll_scope clockClose_scope markEnded_scope update_scope dropLease_scope)

lemma newClock_record [simp]: "recAt i (newClock owner k) = newRecord"
  by (simp add: recAt_def newClock_def)

lemma newClock_scope: "clockScope (newClock owner k)"
proof -
  have "clockTracks noScope (newClock owner k)"
    by (simp add: clockTracks_def recTracks_def) (simp add: newClock_def noScope_def newRecord_def)
  then show ?thesis by (intro clockScopeI) (simp_all add: newClock_def)
qed

interpretation clock: gpu_client "execClock b" "\<lambda>_. True" clockScope dc_calls for b
  by unfold_locales (auto simp: execClock_scope, auto simp: clockScope_def)

text \<open>
  The clock calls its backend in order too, whatever the backend answers and whoever calls what with whatever
  lease: records are created once and before use, one scope is open at a time, only ended scopes are polled,
  nothing open is destroyed, and nothing is begun, created or polled after an end that failed.
\<close>

theorem clock_calls_in_order: "scopeOf (dc_calls (fold (execClock b) ops (newClock owner k))) \<noteq> None"
  by (rule clock.run_scope) (simp_all add: newClock_scope list_all_iff)

section \<open>Leases\<close>

lemma leaseAt_set: "leaseAt k (setLease j l r) = (if k = j \<and> j < length (cr_leases r) then l else leaseAt k r)"
  by (simp add: leaseAt_def setLease_def)

definition occupied :: "ClockRecord \<Rightarrow> nat set" where
  "occupied r = {j. le_occupied (leaseAt j r)}"

text \<open>
  A record is well formed: it has its thirty-two leases, counts the occupied ones, has numbered them from its own
  counter, and has none while idle.
\<close>

definition recOk :: "ClockRecord \<Rightarrow> bool" where
  "recOk r \<longleftrightarrow> length (cr_leases r) = kLeases \<and> cr_refs r = card (occupied r) \<and>
     (\<forall>j \<in> occupied r. le_serial (leaseAt j r) \<le> cr_nextSerial r) \<and>
     (cr_state r = RecIdle \<longrightarrow> occupied r = {} \<and> cr_nextSerial r = 0)"

lemma occupied_bound: "occupied r \<subseteq> {..<length (cr_leases r)}"
  by (auto simp: occupied_def leaseAt_def newLeaseState_def split: if_splits)

lemma occupied_finite [simp]: "finite (occupied r)"
  by (rule finite_subset [OF occupied_bound]) simp

lemma newRecord_ok [simp]: "recOk newRecord" "recOk (newRecord\<lparr>cr_created := x, cr_generation := g\<rparr>)"
  "recOk (newRecord\<lparr>cr_created := x\<rparr>)"
proof -
  have "leaseAt j (newRecord\<lparr>cr_created := x, cr_generation := g\<rparr>) = newLeaseState" "leaseAt j newRecord = newLeaseState"
    "leaseAt j (newRecord\<lparr>cr_created := x\<rparr>) = newLeaseState" for j
    by (simp_all add: leaseAt_def newRecord_def)
  then show "recOk newRecord" "recOk (newRecord\<lparr>cr_created := x, cr_generation := g\<rparr>)" "recOk (newRecord\<lparr>cr_created := x\<rparr>)"
    by (simp_all add: recOk_def occupied_def newLeaseState_def) (simp_all add: newRecord_def)
qed

lemma recOk_same:
  assumes "recOk r" "length (cr_leases r') = length (cr_leases r)" "cr_refs r' = cr_refs r" "cr_nextSerial r' = cr_nextSerial r"
    "cr_state r' = RecIdle \<Longrightarrow> cr_state r = RecIdle"
    "\<And>j. le_occupied (leaseAt j r') = le_occupied (leaseAt j r) \<and> le_serial (leaseAt j r') = le_serial (leaseAt j r)"
  shows "recOk r'"
proof -
  have "occupied r' = occupied r" using assms(6) by (simp add: occupied_def)
  then show ?thesis using assms by (simp add: recOk_def)
qed

lemma recOk_cong:
  assumes "recOk r" "cr_leases r' = cr_leases r" "cr_refs r' = cr_refs r" "cr_nextSerial r' = cr_nextSerial r"
    "cr_state r' = RecIdle \<Longrightarrow> cr_state r = RecIdle"
  shows "recOk r'"
  using assms by (intro recOk_same [OF assms(1)]) (simp_all add: leaseAt_def)

definition clockOk :: "DisjointClock \<Rightarrow> bool" where
  "clockOk c \<longleftrightarrow> (\<forall>i. recOk (recAt i c))"

lemma clockOk_quiet [simp]:
  "clockOk (clockCall x c) = clockOk c" "clockOk (c\<lparr>dc_active := a\<rparr>) = clockOk c" "clockOk (c\<lparr>dc_stopped := s\<rparr>) = clockOk c"
  "clockOk (c\<lparr>dc_shut := s\<rparr>) = clockOk c"
  by (simp_all add: clockOk_def)

lemma clockOk_set: "clockOk c \<Longrightarrow> recOk r \<Longrightarrow> clockOk (setRec i r c)"
  by (simp add: clockOk_def recAt_set)

lemma clockOk_rec: "clockOk c \<Longrightarrow> recOk (recAt i c)"
  by (simp add: clockOk_def)

lemma alloc_recOk:
  assumes "recOk r" "\<not> le_occupied (leaseAt j r)" "j < kLeases" "cr_nextSerial r \<noteq> - 1" "cr_state r \<noteq> RecIdle"
  shows "recOk ((setLease j \<lparr>le_serial = cr_nextSerial r + 1, le_kind = kind, le_occupied = True, le_ended = e, le_invalid = v\<rparr> r)
    \<lparr>cr_nextSerial := cr_nextSerial r + 1, cr_refs := cr_refs r + 1\<rparr>)" (is "recOk ?r")
proof -
  have at: "leaseAt k ?r = (if k = j then \<lparr>le_serial = cr_nextSerial r + 1, le_kind = kind, le_occupied = True, le_ended = e, le_invalid = v\<rparr>
      else leaseAt k r)" for k
    using assms(1,3) leaseAt_set [of k j _ r] by (simp add: recOk_def leaseAt_def setLease_def)
  then have "occupied ?r = insert j (occupied r)" by (auto simp: occupied_def)
  moreover have "j \<notin> occupied r" using assms(2) by (simp add: occupied_def)
  moreover have "cr_nextSerial r < cr_nextSerial r + 1" using succ_word [OF assms(4)] by simp
  ultimately show ?thesis using assms at by (auto simp: recOk_def setLease_def)
qed

lemma drop_recOk:
  assumes "recOk r" "le_occupied (leaseAt j r)" "cr_state r \<noteq> RecIdle"
  shows "recOk ((setLease j ((leaseAt j r)\<lparr>le_occupied := False\<rparr>) r)\<lparr>cr_refs := cr_refs r - 1\<rparr>)" (is "recOk ?r")
proof -
  have j: "j \<in> occupied r" "j < length (cr_leases r)" using assms(2) occupied_bound [of r] by (auto simp: occupied_def)
  have "leaseAt k ?r = (if k = j then (leaseAt j r)\<lparr>le_occupied := False\<rparr> else leaseAt k r)" for k
    using j(2) leaseAt_set [of k j _ r] by (simp add: leaseAt_def setLease_def)
  moreover from this have "occupied ?r = occupied r - {j}" by (auto simp: occupied_def)
  ultimately show ?thesis using assms j by (auto simp: recOk_def setLease_def)
qed

lemma allocate_ok:
  assumes "clockOk c" "cr_state (recAt i c) \<noteq> RecIdle"
  shows "clockOk (snd (dcAllocate i kind c))"
proof (cases "find (\<lambda>j. \<not> le_occupied (leaseAt j (recAt i c))) [0..<kLeases]")
  case (Some j)
  then have "j < kLeases" "\<not> le_occupied (leaseAt j (recAt i c))" by (auto simp: find_Some_iff)
  then show ?thesis
    using assms by (auto simp: dcAllocate_def Let_def Some intro!: clockOk_set alloc_recOk [simplified] clockOk_rec)
qed (use assms in \<open>simp add: dcAllocate_def Let_def\<close>)

lemma leaseAt_map: "leaseAt j (r\<lparr>cr_leases := map invalidateOpen (cr_leases r)\<rparr>) = invalidateOpen (leaseAt j r)"
  by (simp add: leaseAt_def invalidateOpen_def newLeaseState_def)

lemma invalidateOpen_fields [simp]:
  "le_occupied (invalidateOpen l) = le_occupied l" "le_serial (invalidateOpen l) = le_serial l" "le_kind (invalidateOpen l) = le_kind l"
  by (simp_all add: invalidateOpen_def)

lemma leaseAt_cong: "cr_leases r' = cr_leases r \<Longrightarrow> leaseAt j r' = leaseAt j r"
  by (simp add: leaseAt_def)

lemma close_recOk:
  "recOk r \<Longrightarrow> s \<noteq> RecIdle \<Longrightarrow> recOk (r\<lparr>cr_closedAt := now, cr_state := s, cr_result := res, cr_leases := map invalidateOpen (cr_leases r)\<rparr>)"
  by (rule recOk_same) (auto simp: leaseAt_map [of _ r, unfolded leaseAt_def] leaseAt_def invalidateOpen_def newLeaseState_def)

lemma close_ok: "clockOk c \<Longrightarrow> clockOk (snd (dcClose b i now c))"
  by (simp only: dcClose_def Let_def snd_conv clockOk_quiet recAt_simps) (intro clockOk_set close_recOk; simp add: clockOk_rec)

lemma retire_ok: "clockOk c \<Longrightarrow> clockOk (dcRetire i c)"
  by (auto simp: dcRetire_def Let_def intro!: clockOk_set)

lemma update_ok: "clockOk c \<Longrightarrow> clockOk (dcUpdate b now i c)"
  by (auto simp: dcUpdate_def settled_def Let_def intro!: retire_ok clockOk_set intro: recOk_cong [OF clockOk_rec])

lemma create_ok: "clockOk c \<Longrightarrow> clockOk (snd (dcCreate b i c))"
  by (auto simp: dcCreate_def Let_def intro!: clockOk_set intro: recOk_cong [OF clockOk_rec])

lemma begin_ok: "clockOk c \<Longrightarrow> clockOk (snd (dcBegin b i c))"
  by (auto simp: dcBegin_def Let_def intro!: clockOk_set intro: recOk_cong [OF clockOk_rec])

lemma collectAll_ok: "clockOk c \<Longrightarrow> clockOk (collectAll b now c)"
  unfolding collectAll_def by (rule fold_invariant) (auto intro: update_ok)

lemma begin_open:
  "i < length (dc_records c) \<Longrightarrow> fst (dcBegin b i c) \<Longrightarrow> cr_state (recAt i (snd (dcBegin b i c))) = RecOpen"
  by (simp add: dcBegin_def Let_def recAt_set)

lemma create_length [simp]: "length (dc_records (snd (dcCreate b i c))) = length (dc_records c)"
  by (simp add: dcCreate_def Let_def)

lemma open_ok: "clockOk c \<Longrightarrow> length (dc_records c) = kRecords \<Longrightarrow> clockOk (snd (dcOpen b kind c))"
  using idleRecord_Some [of c] begin_open [of _ "snd (dcCreate b _ c)" b]
  by (auto simp: dcOpen_def case_prod_beta split: option.splits intro!: allocate_ok begin_ok create_ok)

lemma markEnded_ok: "clockOk c \<Longrightarrow> clockOk (markEnded t c)"
  by (auto simp: markEnded_def Let_def setLease_def leaseAt_def nth_list_update
      intro!: clockOk_set recOk_same [OF clockOk_rec [of c "ls_record t"]] split: if_splits)

lemma dropLease_ok: "clockOk c \<Longrightarrow> le_occupied (leaseAt (ls_index t) (recAt (ls_record t) c)) \<Longrightarrow> cr_state (recAt (ls_record t) c) \<noteq> RecIdle \<Longrightarrow>
   clockOk (dropLease t c)"
  by (auto simp: dropLease_def Let_def intro!: retire_ok clockOk_set drop_recOk [simplified] clockOk_rec)

lemma shutdown_ok: "clockOk c \<Longrightarrow> clockOk (snd (dcShutdown b a now c))"
  by (auto simp: dcShutdown_def Let_def destroyRecord_def simp del: upt_conv_Cons split: option.splits
      intro!: fold_invariant [where P = clockOk] clockOk_set close_ok)

lemma valid_record:
  "leaseValid t c \<Longrightarrow> cr_state (recAt (ls_record t) c) \<noteq> RecIdle \<and> le_occupied (leaseAt (ls_index t) (recAt (ls_record t) c)) \<and>
     ls_record t < kRecords"
  by (simp add: leaseValid_def Let_def)

lemma scope_length: "clockScope c \<Longrightarrow> length (dc_records c) = kRecords"
  by (auto elim: clockScopeE)

lemma closed_occupied:
  "length (dc_records c) = kRecords \<Longrightarrow> i < kRecords \<Longrightarrow>
     le_occupied (leaseAt j (recAt i (snd (dcClose b i now c)))) = le_occupied (leaseAt j (recAt i c)) \<and>
     le_serial (leaseAt j (recAt i (snd (dcClose b i now c)))) = le_serial (leaseAt j (recAt i c)) \<and>
     cr_state (recAt i (snd (dcClose b i now c))) \<noteq> RecIdle"
  by (simp add: close_facts(6) leaseAt_def invalidateOpen_def newLeaseState_def)

lemma active_open: "clockScope c \<Longrightarrow> dc_active c = Some i \<Longrightarrow> cr_state (recAt i c) = RecOpen"
  by (auto elim!: clockScopeE simp: recTracks_def)

lemma execClock_ok:
  assumes "clockScope c" "clockOk c"
  shows "clockOk (execClock b op c)"
proof (cases op)
  case (CkRelease a t now)
  have "clockOk (dropLease t (if cr_state (recAt (ls_record t) c) = RecOpen \<and> le_kind (leaseAt (ls_index t) (recAt (ls_record t) c)) \<noteq> Borrowed
      then snd (dcClose b (ls_record t) now c) else c))" if "leaseValid t c"
    using valid_record [OF that] assms(2) closed_occupied [OF scope_length [OF assms(1)], of "ls_record t" "ls_index t" b now]
    by (auto intro!: dropLease_ok close_ok)
  then show ?thesis using assms(2) CkRelease by (simp add: dcRelease_def Let_def)
qed (use assms scope_length [OF assms(1)] active_open [OF assms(1)] in
    \<open>auto simp: startFrame_def acquireInterval_def acquireBorrowedFrame_def endInterval_def finishClockFrame_def dcPoll_def
      dcCollect_def Let_def shutdown_ok split: option.splits
      intro!: open_ok collectAll_ok close_ok markEnded_ok update_ok allocate_ok\<close>)

section \<open>A released lease stays dead\<close>

definition deadRec :: "Lease \<Rightarrow> ClockRecord \<Rightarrow> bool" where
  "deadRec t r \<longleftrightarrow> ls_generation t < cr_generation r \<or>
     (ls_generation t = cr_generation r \<and> (cr_state r = RecIdle \<or>
        (ls_serial t \<le> cr_nextSerial r \<and> \<not> (le_occupied (leaseAt (ls_index t) r) \<and> le_serial (leaseAt (ls_index t) r) = ls_serial t))))"

definition deadIn :: "Lease \<Rightarrow> DisjointClock \<Rightarrow> bool" where
  "deadIn t c \<longleftrightarrow> deadRec t (recAt (ls_record t) c)"

lemma deadIn_quiet [simp]:
  "deadIn t (clockCall x c) = deadIn t c" "deadIn t (c\<lparr>dc_active := a\<rparr>) = deadIn t c" "deadIn t (c\<lparr>dc_stopped := s\<rparr>) = deadIn t c"
  "deadIn t (c\<lparr>dc_shut := s\<rparr>) = deadIn t c"
  by (simp_all add: deadIn_def)

lemma deadIn_set: "deadIn t c \<Longrightarrow> (deadRec t (recAt i c) \<Longrightarrow> deadRec t r) \<Longrightarrow> deadIn t (setRec i r c)"
  by (auto simp: deadIn_def recAt_set)

lemma deadRec_same:
  assumes "deadRec t r" "cr_generation r' = cr_generation r" "cr_nextSerial r' = cr_nextSerial r"
    "cr_state r = RecIdle \<Longrightarrow> cr_state r' = RecIdle"
    "\<And>j. le_occupied (leaseAt j r') \<Longrightarrow> le_occupied (leaseAt j r) \<and> le_serial (leaseAt j r') = le_serial (leaseAt j r)"
  shows "deadRec t r'"
  using assms(1-4) assms(5) [of "ls_index t"] by (auto simp: deadRec_def)

lemma deadRec_cong:
  assumes "deadRec t r" "cr_generation r' = cr_generation r" "cr_nextSerial r' = cr_nextSerial r"
    "cr_state r = RecIdle \<Longrightarrow> cr_state r' = RecIdle" "cr_leases r' = cr_leases r"
  shows "deadRec t r'"
  by (rule deadRec_same [OF assms(1-4)]) (simp_all add: leaseAt_cong [OF assms(5)])

lemma allocate_dead:
  assumes "deadIn t c" "cr_state (recAt i c) \<noteq> RecIdle"
  shows "deadIn t (snd (dcAllocate i kind c))"
proof -
  let ?r = "recAt i c"
  have "deadRec t ((setLease j \<lparr>le_serial = cr_nextSerial ?r + 1, le_kind = kind, le_occupied = True, le_ended = False, le_invalid = False\<rparr> ?r)
      \<lparr>cr_nextSerial := cr_nextSerial ?r + 1, cr_refs := n\<rparr>)"
    if "deadRec t ?r" "cr_nextSerial ?r \<noteq> - 1" for j n
  proof -
    have "leaseAt k ((setLease j l ?r)\<lparr>cr_nextSerial := m, cr_refs := n\<rparr>) = leaseAt k (setLease j l ?r)" for k l m
      by (rule leaseAt_cong) simp
    then show ?thesis
      using that(1) assms(2) succ_word [OF that(2)] by (auto simp: deadRec_def leaseAt_set split: if_splits)
  qed
  then show ?thesis using assms(1) by (auto simp: dcAllocate_def Let_def split: option.splits intro!: deadIn_set)
qed

lemma close_dead: "deadIn t c \<Longrightarrow> cr_state (recAt i c) \<noteq> RecIdle \<Longrightarrow> deadIn t (snd (dcClose b i now c))"
  unfolding dcClose_def Let_def snd_conv deadIn_quiet recAt_simps
  by (rule deadIn_set; (simp; fail)?)
    (rule deadRec_same [where r = "recAt i c"]; auto simp: leaseAt_def invalidateOpen_def newLeaseState_def split: if_splits)

lemma retire_dead: "deadIn t c \<Longrightarrow> deadIn t (dcRetire i c)"
  by (auto simp: dcRetire_def Let_def deadRec_def newRecord_def intro!: deadIn_set)

lemma update_dead: "deadIn t c \<Longrightarrow> deadIn t (dcUpdate b now i c)"
proof -
  assume "deadIn t c"
  then have "deadIn t (settled i res d)" if "deadIn t c \<Longrightarrow> deadIn t d" "cr_state (recAt i d) = RecPending" for res d
    unfolding settled_def using that
    by (intro retire_dead deadIn_set) (auto elim: deadRec_cong)
  then show ?thesis using \<open>deadIn t c\<close> by (auto simp: dcUpdate_def Let_def)
qed

lemma collectAll_dead: "deadIn t c \<Longrightarrow> deadIn t (collectAll b now c)"
  unfolding collectAll_def by (rule fold_invariant) (auto intro: update_dead)

lemma create_dead: "deadIn t c \<Longrightarrow> deadIn t (snd (dcCreate b i c))"
  by (auto simp: dcCreate_def Let_def intro!: deadIn_set elim: deadRec_cong)

lemma begin_dead:
  "deadIn t c \<Longrightarrow> cr_generation (recAt i c) \<noteq> - 1 \<Longrightarrow> deadIn t (snd (dcBegin b i c))"
  using succ_word [of "cr_generation (recAt i c)"]
  by (auto simp: dcBegin_def Let_def intro!: deadIn_set elim: deadRec_cong) (auto simp: deadRec_def)

lemma create_generation: "cr_generation (recAt j (snd (dcCreate b i c))) = cr_generation (recAt j c)"
  by (simp add: dcCreate_def Let_def recAt_set)

lemma open_dead:
  assumes "deadIn t c" "length (dc_records c) = kRecords"
  shows "deadIn t (snd (dcOpen b kind c))"
proof (cases "idleRecord c")
  case (Some i)
  note i = idleRecord_Some [OF Some]
  let ?c1 = "snd (dcCreate b i c)" and ?c2 = "snd (dcBegin b i (snd (dcCreate b i c)))"
  have c2: "deadIn t ?c2" using assms(1) i by (simp add: begin_dead create_dead create_generation)
  have "fst (dcBegin b i ?c1) \<Longrightarrow> cr_state (recAt i ?c2) \<noteq> RecIdle" using begin_open [of i ?c1 b] i assms(2) by simp
  then show ?thesis
    using c2 create_dead [OF assms(1)] by (auto simp: dcOpen_def Some case_prod_beta intro!: allocate_dead)
qed (use assms in \<open>simp add: dcOpen_def\<close>)

lemma markEnded_dead:
  assumes "deadIn t c"
  shows "deadIn t (markEnded u c)"
proof -
  have "deadRec t r \<Longrightarrow> deadRec t (setLease j ((leaseAt j r)\<lparr>le_ended := True\<rparr>) r)" for r j
    by (rule deadRec_same) (auto simp: leaseAt_set split: if_splits)
  then show ?thesis unfolding markEnded_def Let_def by (intro deadIn_set [OF assms])
qed

lemma drop_dead: "deadIn t c \<Longrightarrow> deadIn t (dropLease u c)"
proof -
  assume d: "deadIn t c"
  let ?r = "recAt (ls_record u) c"
  have "leaseAt k ((setLease j l ?r)\<lparr>cr_refs := n\<rparr>) = leaseAt k (setLease j l ?r)" for k j l n by (rule leaseAt_cong) simp
  then have "deadRec t ?r \<Longrightarrow> deadRec t ((setLease (ls_index u) ((leaseAt (ls_index u) ?r)\<lparr>le_occupied := False\<rparr>) ?r)\<lparr>cr_refs := cr_refs ?r - 1\<rparr>)"
    by (rule_tac deadRec_same) (auto simp: leaseAt_set split: if_splits)
  then show ?thesis unfolding dropLease_def Let_def by (intro retire_dead deadIn_set [OF d])
qed

definition deadNow :: "Lease \<Rightarrow> DisjointClock \<Rightarrow> bool" where
  "deadNow t c \<longleftrightarrow> (dc_shut c \<and> cr_state (recAt (ls_record t) c) = RecIdle) \<or> deadIn t c"

lemma deadNow_invalid: "deadNow t c \<Longrightarrow> \<not> leaseValid t c"
  by (auto simp: deadNow_def deadIn_def deadRec_def leaseValid_def Let_def)

lemma destroyed_idle:
  "cr_state (recAt j (destroyRecord i c)) = (if j = i \<and> i < length (dc_records c) then RecIdle else cr_state (recAt j c))"
  "length (dc_records (destroyRecord i c)) = length (dc_records c)"
  by (auto simp: destroyRecord_def recAt_set newRecord_def)

lemma destroyAll_idle:
  "length (dc_records c) = kRecords \<Longrightarrow> j \<in> set is \<or> cr_state (recAt j c) = RecIdle \<Longrightarrow> list_all (\<lambda>i. i < kRecords) is \<Longrightarrow>
     cr_state (recAt j (fold destroyRecord is c)) = RecIdle"
  by (induction "is" arbitrary: c) (auto simp: destroyed_idle)

lemma shutdown_idle:
  assumes "length (dc_records c) = kRecords" "fst (dcShutdown b a now c)"
  shows "dc_shut (snd (dcShutdown b a now c)) \<and> cr_state (recAt j (snd (dcShutdown b a now c))) = RecIdle"
proof -
  define c1 where "c1 = (case dc_active c of None \<Rightarrow> c | Some i \<Rightarrow> snd (dcClose b i now c))"
  have len: "length (dc_records c1) = kRecords" using assms(1) by (simp add: c1_def close_facts(4) split: option.splits)
  have "j \<in> set [0..<kRecords] \<or> cr_state (recAt j c1) = RecIdle"
    using len recAt_beyond [of c1 j] by (cases "j < kRecords") (simp_all add: newRecord_def del: upt_conv_Cons)
  then have "cr_state (recAt j (fold destroyRecord [0..<kRecords] c1)) = RecIdle"
    by (rule destroyAll_idle [OF len]) (simp add: list_all_iff del: upt_conv_Cons)
  then show ?thesis using assms(2) by (auto simp: dcShutdown_def Let_def c1_def [symmetric] simp del: upt_conv_Cons split: if_splits)
qed

lemma shut_stays: "dc_shut c \<Longrightarrow> execClock b op c = c"
  by (cases op) (auto simp: startFrame_def acquireInterval_def acquireBorrowedFrame_def endInterval_def finishClockFrame_def
      dcPoll_def dcRelease_def dcCollect_def dcShutdown_def Let_def split: option.splits)

lemma execClock_dead:
  assumes "clockScope c" "deadNow t c"
  shows "deadNow t (execClock b op c)"
proof (cases "dc_shut c")
  case False
  then have d: "deadIn t c" using assms(2) by (simp add: deadNow_def)
  have len: "length (dc_records c) = kRecords" using scope_length [OF assms(1)] .
  show ?thesis
  proof (cases op)
    case (CkShutdown a now)
    then show ?thesis using shutdown_idle [OF len, of b a now "ls_record t"] d
      by (cases "fst (dcShutdown b a now c)") (auto simp: deadNow_def dcShutdown_def Let_def split: if_splits)
  qed (use d len active_open [OF assms(1)] valid_record [of _ c] in
      \<open>auto simp: deadNow_def startFrame_def acquireInterval_def acquireBorrowedFrame_def endInterval_def finishClockFrame_def dcPoll_def
        dcRelease_def dcCollect_def Let_def split: option.splits
        intro!: open_dead collectAll_dead close_dead markEnded_dead update_dead allocate_dead drop_dead\<close>)
qed (use assms(2) shut_stays in simp)

lemma released_dead:
  assumes "clockScope c" "clockOk c" "dcRelease b a t now c = (True, c')"
  shows "deadNow t c'"
proof -
  let ?i = "ls_record t"
  define c1 where "c1 = (if cr_state (recAt ?i c) = RecOpen \<and> le_kind (leaseAt (ls_index t) (recAt ?i c)) \<noteq> Borrowed
    then snd (dcClose b ?i now c) else c)"
  have v: "leaseValid t c" and c': "c' = dropLease t c1"
    using assms(3) by (auto simp: dcRelease_def Let_def c1_def split: if_splits)
  note r = valid_record [OF v]
  have len: "length (dc_records c) = kRecords" using scope_length [OF assms(1)] .
  have ok: "recOk (recAt ?i c1)" using assms(2) by (auto simp: c1_def close_ok clockOk_rec)
  have f: "cr_generation (recAt ?i c1) = ls_generation t" "le_occupied (leaseAt (ls_index t) (recAt ?i c1))"
    "le_serial (leaseAt (ls_index t) (recAt ?i c1)) = ls_serial t" "length (dc_records c1) = kRecords"
    using v r len closed_occupied [OF len, of ?i "ls_index t" b now] close_facts(6) [of ?i c b now]
    by (auto simp: c1_def leaseValid_def Let_def close_facts(4))
  have "ls_index t \<in> occupied (recAt ?i c1)" using f(2) by (simp add: occupied_def)
  then have s: "ls_serial t \<le> cr_nextSerial (recAt ?i c1)" "ls_index t < length (cr_leases (recAt ?i c1))"
    using ok f(3) occupied_bound [of "recAt ?i c1"] by (auto simp: recOk_def)
  let ?r = "(setLease (ls_index t) ((leaseAt (ls_index t) (recAt ?i c1))\<lparr>le_occupied := False\<rparr>) (recAt ?i c1))\<lparr>cr_refs := cr_refs (recAt ?i c1) - 1\<rparr>"
  have "leaseAt (ls_index t) ?r = (leaseAt (ls_index t) (recAt ?i c1))\<lparr>le_occupied := False\<rparr>"
    using s(2) leaseAt_cong [of ?r "setLease (ls_index t) ((leaseAt (ls_index t) (recAt ?i c1))\<lparr>le_occupied := False\<rparr>) (recAt ?i c1)"]
    by (simp add: leaseAt_set)
  then have "deadRec t ?r" using s f by (simp add: deadRec_def)
  then have "deadIn t (setRec ?i ?r c1)" using r f(4) by (simp add: deadIn_def recAt_set)
  then show ?thesis by (simp add: deadNow_def c' dropLease_def Let_def retire_dead)
qed

lemma newClock_ok: "clockOk (newClock owner k)"
  by (simp add: clockOk_def)

text \<open>
  C9: a released lease is dead for good: after a release succeeded, whatever the clock is used for next, records and
  lease slots being reused included, that lease is never valid again, so no copy of the token can end, poll or
  release somebody else's measurement.
\<close>

theorem lease_never_revives:
  assumes "dcRelease b a t now (fold (execClock b) before' (newClock owner k)) = (True, c)"
  shows "\<not> leaseValid t (fold (execClock b) later c)"
proof -
  let ?c0 = "fold (execClock b) before' (newClock owner k)"
  have inv: "clockScope ?c0 \<and> clockOk ?c0"
    by (rule fold_invariant [where P = "\<lambda>c. clockScope c \<and> clockOk c"])
      (simp_all add: execClock_scope execClock_ok newClock_scope newClock_ok)
  have "clockScope c" using execClock_scope [of ?c0 b "CkRelease a t now"] inv assms by simp
  moreover have "deadNow t c" using released_dead [OF _ _ assms] inv by simp
  ultimately have "clockScope (fold (execClock b) later c) \<and> deadNow t (fold (execClock b) later c)"
    by (intro fold_invariant [where P = "\<lambda>c. clockScope c \<and> deadNow t c"]) (simp_all add: execClock_scope execClock_dead)
  then show ?thesis by (simp add: deadNow_invalid)
qed

section \<open>Every record that cannot be collected is held\<close>

definition recHeld :: "ClockRecord \<Rightarrow> bool" where
  "recHeld r \<longleftrightarrow> (cr_state r = RecOpen \<longrightarrow> (\<exists>j. le_occupied (leaseAt j r) \<and> le_kind (leaseAt j r) \<noteq> Borrowed)) \<and>
     (cr_state r = RecComplete \<longrightarrow> cr_refs r \<noteq> 0)"

definition heldOk :: "DisjointClock \<Rightarrow> bool" where
  "heldOk c \<longleftrightarrow> (\<forall>i. recHeld (recAt i c))"

lemma heldOk_quiet [simp]:
  "heldOk (clockCall x c) = heldOk c" "heldOk (c\<lparr>dc_active := a\<rparr>) = heldOk c" "heldOk (c\<lparr>dc_stopped := s\<rparr>) = heldOk c"
  "heldOk (c\<lparr>dc_shut := s\<rparr>) = heldOk c"
  by (simp_all add: heldOk_def)

lemma heldOk_set: "heldOk c \<Longrightarrow> recHeld r \<Longrightarrow> heldOk (setRec i r c)"
  by (simp add: heldOk_def recAt_set)

lemma heldOk_rec: "heldOk c \<Longrightarrow> recHeld (recAt i c)"
  by (simp add: heldOk_def)

lemma recHeld_idle [simp]: "cr_state r = RecIdle \<Longrightarrow> recHeld r"
  by (simp add: recHeld_def)

lemma newRecord_idle [simp]: "cr_state newRecord = RecIdle"
  by (simp add: newRecord_def)

lemma recHeld_same:
  assumes "recHeld r" "cr_state r' = cr_state r" "cr_refs r' = cr_refs r"
    "\<And>j. le_occupied (leaseAt j r) \<Longrightarrow> le_occupied (leaseAt j r') \<and> le_kind (leaseAt j r') = le_kind (leaseAt j r)"
  shows "recHeld r'"
  using assms(1-3) assms(4) unfolding recHeld_def by metis

lemma retire_held:
  assumes "\<And>j. j \<noteq> i \<Longrightarrow> recHeld (recAt j c)" "cr_state (recAt i c) \<noteq> RecComplete \<Longrightarrow> recHeld (recAt i c)"
    "length (dc_records c) = kRecords" "i < kRecords"
  shows "heldOk (dcRetire i c)"
proof (cases "cr_refs (recAt i c) = 0 \<and> cr_state (recAt i c) = RecComplete")
  case True
  then show ?thesis using assms by (auto simp: heldOk_def clockRetire_facts)
next
  case False
  then have "dcRetire i c = c" by (auto simp: dcRetire_def Let_def)
  moreover have "recHeld (recAt i c)" using False assms(2) by (auto simp: recHeld_def)
  ultimately show ?thesis using assms(1) by (auto simp: heldOk_def) (metis)
qed

lemma settled_held:
  assumes "heldOk c" "cr_state (recAt i c) = RecPending" "length (dc_records c) = kRecords" "i < kRecords"
  shows "heldOk (settled i res c)"
  unfolding settled_def using assms by (intro retire_held) (simp_all add: recAt_set heldOk_rec, auto simp: recHeld_def)

lemma update_held: "heldOk c \<Longrightarrow> length (dc_records c) = kRecords \<Longrightarrow> i < kRecords \<Longrightarrow> heldOk (dcUpdate b now i c)"
  by (auto simp: dcUpdate_def Let_def intro!: settled_held)

lemma collectAll_held:
  assumes "heldOk c" "length (dc_records c) = kRecords"
  shows "heldOk (collectAll b now c)"
proof -
  have "heldOk (collectAll b now c) \<and> length (dc_records (collectAll b now c)) = kRecords"
    unfolding collectAll_def
    by (rule fold_invariant [where P = "\<lambda>x. heldOk x \<and> length (dc_records x) = kRecords"]) (use assms in \<open>auto simp: update_held\<close>)
  then show ?thesis ..
qed

text \<open>A new lease is the holder of a record that has none, and leaves every other holder in place.\<close>

lemma allocate_held:
  assumes "\<And>j. j \<noteq> i \<Longrightarrow> recHeld (recAt j c)" "recHeld (recAt i c) \<or> (kind \<noteq> Borrowed \<and> cr_state (recAt i c) = RecOpen \<and>
      occupied (recAt i c) = {} \<and> cr_nextSerial (recAt i c) = 0)" "length (dc_records c) = kRecords" "i < kRecords"
      "length (cr_leases (recAt i c)) = kLeases"
  shows "heldOk (snd (dcAllocate i kind c))"
proof (cases "snd (dcAllocate i kind c) = c")
  case True
  have "recHeld (recAt i c)"
  proof (rule ccontr)
    assume n: "\<not> recHeld (recAt i c)"
    then have e: "occupied (recAt i c) = {}" "cr_nextSerial (recAt i c) = 0" using assms(2) by simp_all
    then have "find (\<lambda>j. \<not> le_occupied (leaseAt j (recAt i c))) [0..<kLeases] = Some 0"
      by (subst upt_conv_Cons) (auto simp: occupied_def)
    then have "cr_refs (recAt i (snd (dcAllocate i kind c))) = cr_refs (recAt i c) + 1"
      using e assms(3,4) by (simp add: dcAllocate_def Let_def recAt_set)
    then show False using True by simp
  qed
  then show ?thesis unfolding True using assms(1) by (auto simp: heldOk_def) (metis)
next
  case False
  then obtain j where j: "find (\<lambda>j. \<not> le_occupied (leaseAt j (recAt i c))) [0..<kLeases] = Some j" "cr_nextSerial (recAt i c) \<noteq> - 1"
    by (auto simp: dcAllocate_def Let_def split: option.splits if_splits)
  then have j': "j < length (cr_leases (recAt i c))" "\<not> le_occupied (leaseAt j (recAt i c))" using assms(5) by (auto simp: find_Some_iff)
  let ?l = "\<lparr>le_serial = cr_nextSerial (recAt i c) + 1, le_kind = kind, le_occupied = True, le_ended = False, le_invalid = False\<rparr>"
  define r' where "r' = (setLease j ?l (recAt i c))\<lparr>cr_nextSerial := cr_nextSerial (recAt i c) + 1, cr_refs := cr_refs (recAt i c) + 1\<rparr>"
  have at: "leaseAt k r' = (if k = j then ?l else leaseAt k (recAt i c))" for k
    using leaseAt_cong [of r' "setLease j ?l (recAt i c)" k] j' by (simp add: leaseAt_set r'_def)
  have "\<exists>k. le_occupied (leaseAt k r') \<and> le_kind (leaseAt k r') \<noteq> Borrowed" if o: "cr_state (recAt i c) = RecOpen"
    using assms(2)
  proof
    assume "recHeld (recAt i c)"
    then obtain k where "le_occupied (leaseAt k (recAt i c))" "le_kind (leaseAt k (recAt i c)) \<noteq> Borrowed" using o by (auto simp: recHeld_def)
    then show ?thesis using j'(2) by (intro exI [of _ k]) (auto simp: at)
  next
    assume "kind \<noteq> Borrowed \<and> cr_state (recAt i c) = RecOpen \<and> occupied (recAt i c) = {} \<and> cr_nextSerial (recAt i c) = 0"
    then show ?thesis by (intro exI [of _ j]) (simp add: at)
  qed
  then have "recHeld r'" by (simp add: recHeld_def) (simp add: r'_def)
  then show ?thesis using assms(1,3,4) j by (auto simp: heldOk_def dcAllocate_def Let_def recAt_set r'_def)
qed

lemma open_held:
  assumes "heldOk c" "clockOk c" "length (dc_records c) = kRecords" "kind \<noteq> Borrowed"
  shows "heldOk (snd (dcOpen b kind c))"
proof (cases "idleRecord c")
  case (Some i)
  note i = idleRecord_Some [OF Some]
  let ?c1 = "snd (dcCreate b i c)" and ?c2 = "snd (dcBegin b i (snd (dcCreate b i c)))"
  have c1: "heldOk ?c1" using assms(1) i by (auto simp: dcCreate_def Let_def intro!: heldOk_set)
  have idle: "cr_state (recAt i ?c1) = RecIdle" "clockOk ?c1" using i by (simp_all add: create_state create_ok assms(2))
  then have r: "occupied (recAt i ?c1) = {}" "cr_nextSerial (recAt i ?c1) = 0" "length (cr_leases (recAt i ?c1)) = kLeases"
    using clockOk_rec [of ?c1 i] by (simp_all add: recOk_def)
  have at: "leaseAt k (recAt i ?c2) = leaseAt k (recAt i ?c1)" for k
    by (rule leaseAt_cong) (simp add: dcBegin_def Let_def recAt_set)
  then have "occupied (recAt i ?c2) = {}" using r(1) by (simp add: occupied_def)
  moreover have "j \<noteq> i \<Longrightarrow> recAt j ?c2 = recAt j ?c1" "cr_nextSerial (recAt i ?c2) = cr_nextSerial (recAt i ?c1)"
    "length (cr_leases (recAt i ?c2)) = length (cr_leases (recAt i ?c1))" "length (dc_records ?c2) = length (dc_records ?c1)" for j
    by (auto simp: dcBegin_def Let_def recAt_set)
  ultimately have "fst (dcBegin b i ?c1) \<Longrightarrow> heldOk (snd (dcAllocate i kind ?c2))"
    using begin_open [of i ?c1 b] c1 r i assms(3,4) by (intro allocate_held) (simp_all add: heldOk_rec)
  moreover have "\<not> fst (dcBegin b i ?c1) \<Longrightarrow> heldOk ?c2"
    using c1 idle(1) by (auto simp: dcBegin_def Let_def intro!: heldOk_set)
  ultimately show ?thesis using c1 by (simp add: dcOpen_def Some case_prod_beta)
qed (use assms in \<open>simp add: dcOpen_def\<close>)

lemma markEnded_held: "heldOk c \<Longrightarrow> heldOk (markEnded t c)"
  unfolding markEnded_def Let_def
  by (intro heldOk_set recHeld_same [OF heldOk_rec]) (auto simp: leaseAt_set)

lemma close_held:
  assumes "heldOk c" "cr_refs (recAt i c) \<noteq> 0" "length (dc_records c) = kRecords" "i < kRecords"
  shows "heldOk (snd (dcClose b i now c))"
  unfolding heldOk_def
proof
  fix j
  show "recHeld (recAt j (snd (dcClose b i now c)))"
    using assms by (cases "j = i") (auto simp: close_facts heldOk_rec recHeld_def [of "recAt i c\<lparr>cr_closedAt := _, cr_state := _, cr_result := _, cr_leases := _\<rparr>"])
qed

lemma occupied_refs: "clockOk c \<Longrightarrow> le_occupied (leaseAt j (recAt i c)) \<Longrightarrow> cr_refs (recAt i c) \<noteq> 0"
  using clockOk_rec [of c i] occupied_finite [of "recAt i c"] by (auto simp: recOk_def occupied_def)

lemma dropLease_held:
  assumes "\<And>j. j \<noteq> ls_record t \<Longrightarrow> recHeld (recAt j c)" "cr_state (recAt (ls_record t) c) \<noteq> RecOpen \<or>
      (recHeld (recAt (ls_record t) c) \<and> le_kind (leaseAt (ls_index t) (recAt (ls_record t) c)) = Borrowed)"
    "length (dc_records c) = kRecords" "ls_record t < kRecords"
  shows "heldOk (dropLease t c)"
proof -
  let ?r = "recAt (ls_record t) c" and ?j = "ls_index t"
  define r' where "r' = (setLease ?j ((leaseAt ?j ?r)\<lparr>le_occupied := False\<rparr>) ?r)\<lparr>cr_refs := cr_refs ?r - 1\<rparr>"
  have at: "leaseAt k r' = leaseAt k (setLease ?j ((leaseAt ?j ?r)\<lparr>le_occupied := False\<rparr>) ?r)" for k
    by (rule leaseAt_cong) (simp add: r'_def)
  have st: "cr_state r' = cr_state ?r" by (simp add: r'_def)
  have "recHeld r'" if "cr_state r' \<noteq> RecComplete"
  proof (cases "cr_state ?r = RecOpen")
    case True
    then obtain k where k: "le_occupied (leaseAt k ?r)" "le_kind (leaseAt k ?r) \<noteq> Borrowed" using assms(2) by (auto simp: recHeld_def)
    then have "k \<noteq> ?j" using True assms(2) by auto
    then have "le_occupied (leaseAt k r')" "le_kind (leaseAt k r') \<noteq> Borrowed" using k by (simp_all add: at leaseAt_set)
    then show ?thesis using that by (auto simp: recHeld_def)
  qed (use that st in \<open>auto simp: recHeld_def\<close>)
  then have "heldOk (dcRetire (ls_record t) (setRec (ls_record t) r' c))"
    using assms(1,3,4) by (intro retire_held) (simp_all add: recAt_set)
  then show ?thesis by (simp add: dropLease_def Let_def r'_def)
qed

lemma release_held:
  assumes "clockScope c" "clockOk c" "heldOk c" "leaseValid t c"
  shows "heldOk (dropLease t (if cr_state (recAt (ls_record t) c) = RecOpen \<and> le_kind (leaseAt (ls_index t) (recAt (ls_record t) c)) \<noteq> Borrowed
    then snd (dcClose b (ls_record t) now c) else c))"
proof -
  note r = valid_record [OF assms(4)]
  have len: "length (dc_records c) = kRecords" using scope_length [OF assms(1)] .
  show ?thesis
    using r len assms(3) by (intro dropLease_held) (auto simp: close_facts heldOk_rec)
qed

lemma shutdown_held:
  assumes "heldOk c" "length (dc_records c) = kRecords"
  shows "heldOk (snd (dcShutdown b a now c))"
proof (cases "fst (dcShutdown b a now c)")
  case True
  then show ?thesis using shutdown_idle [OF assms(2) True] by (simp add: heldOk_def)
qed (use assms in \<open>auto simp: dcShutdown_def Let_def split: if_splits\<close>)

lemma execClock_held:
  assumes "clockScope c" "clockOk c" "heldOk c"
  shows "heldOk (execClock b op c)"
proof -
  have len: "length (dc_records c) = kRecords" using scope_length [OF assms(1)] .
  have refs: "cr_refs (recAt (ls_record t) (markEnded t c)) \<noteq> 0" if "leaseValid t c" for t
    using occupied_refs [OF assms(2)] valid_record [OF that] by (auto simp: markEnded_def Let_def recAt_set)
  have m: "length (dc_records (markEnded t c)) = kRecords" for t using len by (simp add: markEnded_def Let_def)
  have alloc: "heldOk (snd (dcAllocate i Borrowed c))" if "dc_active c = Some i" for i
    using active_open [OF assms(1) that] active_record [OF assms(1), of i] assms(3) clockOk_rec [OF assms(2), of i] len
    by (intro allocate_held) (auto simp: heldOk_rec recOk_def)
  show ?thesis
  proof (cases op)
    case (CkRelease a t now)
    then show ?thesis using assms(3) release_held [OF assms] by (simp add: dcRelease_def Let_def)
  next
    case (CkShutdown a now)
    then show ?thesis using shutdown_held [OF assms(3) len] by simp
  next
    case (CkEndInterval a t now)
    then show ?thesis using assms(3) refs m valid_record [of t c]
      by (auto simp: endInterval_def Let_def intro!: close_held markEnded_held)
  next
    case (CkFinishFrame a t now)
    then show ?thesis using assms(3) refs m valid_record [of t c]
      by (auto simp: finishClockFrame_def Let_def intro!: close_held markEnded_held)
  next
    case (CkPoll a t now)
    then show ?thesis using assms(3) len valid_record [of t c] by (auto simp: dcPoll_def Let_def intro!: update_held)
  qed (use assms(2,3) len alloc in
      \<open>auto simp: startFrame_def acquireInterval_def acquireBorrowedFrame_def dcCollect_def collectAll_held collectAll_ok
        split: option.splits intro!: open_held\<close>)
qed

definition clockWellFormed :: "DisjointClock \<Rightarrow> bool" where
  "clockWellFormed c \<longleftrightarrow> (\<forall>i. recOk (recAt i c) \<and> recHeld (recAt i c) \<and> (cr_state (recAt i c) = RecOpen \<longleftrightarrow> dc_active c = Some i))"

text \<open>
  C16: the clock's records are well formed after every run: each counts exactly its occupied leases and numbers
  them below its counter, an idle record has none, the open record is the active one and is held by the lease
  that opened it, and a completed record is still held by someone, so nothing is left that no caller can free.
\<close>

theorem clock_well_formed: "clockWellFormed (fold (execClock b) ops (newClock owner k))"
proof -
  have "clockScope (fold (execClock b) ops (newClock owner k)) \<and> clockOk (fold (execClock b) ops (newClock owner k)) \<and>
      heldOk (fold (execClock b) ops (newClock owner k))"
    by (rule fold_invariant [where P = "\<lambda>c. clockScope c \<and> clockOk c \<and> heldOk c"])
      (simp_all add: execClock_scope execClock_ok execClock_held newClock_scope newClock_ok, simp add: heldOk_def)
  then show ?thesis by (auto simp: clockWellFormed_def clockOk_rec heldOk_rec elim!: clockScopeE simp: recTracks_def)
qed

section \<open>An example\<close>

definition clockOwner :: GpuSpanOwner where
  "clockOwner = \<lparr>go_device = 1, go_context = 1, go_thread = 1, go_immediate = True\<rparr>"

definition readyBackend :: DisjointBackend where
  "readyBackend = \<lparr>db_ok = (\<lambda>_. True), db_poll = (\<lambda>_. \<lparr>dr_status = DisReady, dr_frequency = 1000, dr_disjoint = False, dr_reason = DisNone\<rparr>)\<rparr>"

definition firstLease :: Lease where
  "firstLease = \<lparr>ls_clock = 5, ls_generation = 1, ls_serial = 1, ls_record = 0, ls_index = 0\<rparr>"

theorem lease_never_revives_witness:
  "leaseValid firstLease (fold (execClock readyBackend) [CkStartFrame clockOwner 0] (newClock clockOwner 5)) \<and>
   \<not> leaseValid firstLease (fold (execClock readyBackend) [CkCollect clockOwner 2, CkStartFrame clockOwner 3]
     (snd (dcRelease readyBackend clockOwner firstLease 1
       (fold (execClock readyBackend) [CkStartFrame clockOwner 0] (newClock clockOwner 5)))))"
proof -
  let ?c = "fold (execClock readyBackend) [CkStartFrame clockOwner 0] (newClock clockOwner 5)"
  have "fst (dcRelease readyBackend clockOwner firstLease 1 ?c)" by code_simp
  then have "dcRelease readyBackend clockOwner firstLease 1 ?c = (True, snd (dcRelease readyBackend clockOwner firstLease 1 ?c))"
    by (metis (full_types) prod.collapse)
  note dead = lease_never_revives [OF this]
  have "leaseValid firstLease ?c" by code_simp
  with dead show ?thesis by blast
qed

end
