(* ===== verification/OwnerService.thy ===== *)
theory OwnerService
  imports Prelude
begin

text \<open>
  \<^verbatim>\<open>src/openxr/owner_service.h\<close>: the one thread that owns the OpenXR runtime, the bounded queue of requests it runs, and
  its stop. A step is what happens under one hold of the service mutex, or one callback between two holds.
  Requests are numbered as they are admitted. Beside the fields of the class the state keeps where the
  worker stands (\<open>os_at\<close>), what the first stop has taken out of the queue and not yet reported
  (\<open>os_cancelling\<close>, \<open>os_canceller\<close>: \<open>Some True\<close> when the owner itself called stop), the local thread object of
  the caller that joins (\<open>os_joined\<close>), the stop calls that wait for that join, the invoke calls that wait for their request, and what was
  called so far (\<open>os_log\<close>, newest first).
\<close>

record ServiceRequest =
  sr_callback :: bool
  sr_completion :: bool
  sr_done :: bool
  sr_success :: bool
  sr_wanted :: bool

definition newServiceRequest :: "bool \<Rightarrow> ServiceRequest" where
  "newServiceRequest completion =
     \<lparr>sr_callback = True, sr_completion = completion, sr_done = False, sr_success = False, sr_wanted = completion\<rparr>"

datatype WorkerPoint =
  NoThread | Starting | AtWait | Executing nat | Completing nat bool | AfterRequest | Idling
| AwaitingCancellation | Finalizing bool | Exited

datatype OwnerEvent =
  EvStart | EvRan nat | EvNested | EvCompleted nat bool | EvIdle bool | EvFinalizer | EvFinalized bool

record OwnerService =
  os_queue :: "nat list"
  os_requests :: "nat \<Rightarrow> ServiceRequest"
  os_worker :: bool
  os_idle :: bool
  os_ownerSet :: bool
  os_running :: bool
  os_stopping :: bool
  os_joining :: bool
  os_cancellationReady :: bool
  os_idleFailed :: bool
  os_finalOutcome :: bool
  os_finalizer :: bool
  os_stopCallers :: nat
  os_next :: nat
  os_at :: WorkerPoint
  os_cancelling :: "nat list"
  os_canceller :: "bool option"
  os_joined :: bool
  os_stopWaiters :: nat
  os_waiting :: "nat list"
  os_log :: "OwnerEvent list"

definition serviceCapacity :: nat where
  "serviceCapacity = 16"

definition newOwnerService :: OwnerService where
  "newOwnerService =
     \<lparr>os_queue = [], os_requests = (\<lambda>_. newServiceRequest False), os_worker = False, os_idle = False, os_ownerSet = False,
      os_running = False, os_stopping = False, os_joining = False, os_cancellationReady = False, os_idleFailed = False,
      os_finalOutcome = True, os_finalizer = False, os_stopCallers = 0, os_next = 0, os_at = NoThread,
      os_cancelling = [], os_canceller = None, os_joined = False, os_stopWaiters = 0, os_waiting = [], os_log = []\<rparr>"

section \<open>Calls\<close>

text \<open>\<open>threadOk\<close> says whether \<^verbatim>\<open>std::thread\<close> could be created, \<open>alloc\<close> whether the request could be
  allocated and queued; it is false for an empty callback too.\<close>

definition startService :: "bool \<Rightarrow> bool \<Rightarrow> OwnerService \<Rightarrow> bool \<times> OwnerService" where
  "startService idle threadOk s =
     (if os_running s \<or> os_worker s \<or> os_stopping s \<or> os_stopCallers s \<noteq> 0 then (False, s)
      else if threadOk
      then (True, s\<lparr>os_idle := idle, os_stopping := False, os_cancellationReady := False, os_idleFailed := False,
                    os_finalOutcome := True, os_finalizer := False, os_running := True, os_worker := True,
                    os_at := Starting, os_log := EvStart # os_log s\<rparr>)
      else (False, s\<lparr>os_idle := False, os_stopping := False, os_cancellationReady := False, os_idleFailed := False,
                     os_finalizer := False\<rparr>))"

definition mayQueue :: "bool \<Rightarrow> OwnerService \<Rightarrow> bool" where
  "mayQueue alloc s \<longleftrightarrow> alloc \<and> os_running s \<and> \<not> os_stopping s \<and> length (os_queue s) < serviceCapacity"

definition enqueue :: "bool \<Rightarrow> OwnerService \<Rightarrow> OwnerService" where
  "enqueue completion s =
     s\<lparr>os_queue := os_queue s @ [os_next s],
       os_requests := (os_requests s)(os_next s := newServiceRequest completion), os_next := Suc (os_next s)\<rparr>"

definition submitRequest :: "bool \<Rightarrow> bool \<Rightarrow> OwnerService \<Rightarrow> nat option \<times> OwnerService" where
  "submitRequest completion alloc s = (if mayQueue alloc s then (Some (os_next s), enqueue completion s) else (None, s))"

text \<open>\<^verbatim>\<open>invoke\<close> from another thread, up to its wait and after it; and on the owner, where the callback runs at once.\<close>

definition invokeQueued :: "bool \<Rightarrow> OwnerService \<Rightarrow> nat option \<times> OwnerService" where
  "invokeQueued alloc s =
     (if mayQueue alloc s then (Some (os_next s), (enqueue False s)\<lparr>os_waiting := os_next s # os_waiting s\<rparr>) else (None, s))"

definition invokeAnswer :: "nat \<Rightarrow> OwnerService \<Rightarrow> bool \<times> OwnerService" where
  "invokeAnswer r s = (sr_success (os_requests s r), s\<lparr>os_waiting := remove1 r (os_waiting s)\<rparr>)"

definition invokeNested :: "OwnerService \<Rightarrow> bool \<times> OwnerService" where
  "invokeNested s = (if \<not> os_running s \<or> os_stopping s then (False, s) else (True, s\<lparr>os_log := EvNested # os_log s\<rparr>))"

text \<open>
  \<^verbatim>\<open>stop\<close>: the hold that closes admission, and the part after the cancellations. The answer is \<open>None\<close> while the
  call has not returned.
\<close>

definition isOwner :: "bool \<Rightarrow> OwnerService \<Rightarrow> bool" where
  "isOwner onWorker s \<longleftrightarrow> os_ownerSet s \<and> onWorker"

definition stopReturns :: "OwnerService \<Rightarrow> bool option \<times> OwnerService" where
  "stopReturns s = (Some (os_finalOutcome s), s\<lparr>os_stopCallers := os_stopCallers s - 1\<rparr>)"

definition stopRest :: "bool \<Rightarrow> OwnerService \<Rightarrow> bool option \<times> OwnerService" where
  "stopRest owner s =
     (if owner then (Some False, s)
      else if \<not> os_worker s \<and> \<not> os_running s then stopReturns s
      else if os_joining s then (None, s\<lparr>os_stopWaiters := Suc (os_stopWaiters s)\<rparr>)
      else (None, s\<lparr>os_joining := True, os_joined := os_worker s, os_worker := False\<rparr>))"

definition stopService :: "bool \<Rightarrow> bool \<Rightarrow> OwnerService \<Rightarrow> bool option \<times> OwnerService" where
  "stopService onWorker finalizer s =
     (let owner = isOwner onWorker s;
          s1 = (if owner then s else s\<lparr>os_stopCallers := Suc (os_stopCallers s)\<rparr>)
      in if (os_running s \<or> os_worker s) \<and> \<not> os_stopping s
         then (None, s1\<lparr>os_stopping := True, os_finalizer := finalizer, os_cancelling := os_queue s, os_queue := [],
                        os_canceller := Some owner\<rparr>)
         else stopRest owner s1)"

text \<open>The cancellation loop runs without the mutex, one request after the other.\<close>

definition releaseCallback :: "nat \<Rightarrow> OwnerService \<Rightarrow> OwnerService" where
  "releaseCallback r s = s\<lparr>os_requests := (os_requests s)(r := (os_requests s r)\<lparr>sr_callback := False\<rparr>)\<rparr>"

definition completeRequest :: "nat \<Rightarrow> bool \<Rightarrow> OwnerService \<Rightarrow> OwnerService" where
  "completeRequest r success s =
     s\<lparr>os_requests := (os_requests s)(r := (os_requests s r)\<lparr>sr_completion := False\<rparr>),
       os_log := (if sr_completion (os_requests s r) then EvCompleted r success # os_log s else os_log s)\<rparr>"

definition finishRequest :: "nat \<Rightarrow> bool \<Rightarrow> OwnerService \<Rightarrow> OwnerService" where
  "finishRequest r success s =
     s\<lparr>os_requests := (os_requests s)(r := (os_requests s r)\<lparr>sr_success := success, sr_done := True\<rparr>)\<rparr>"

definition cancelCall :: "nat \<Rightarrow> OwnerService \<Rightarrow> OwnerService" where
  "cancelCall r s = completeRequest r False (releaseCallback r s)"

definition cancelFinish :: "nat \<Rightarrow> OwnerService \<Rightarrow> OwnerService" where
  "cancelFinish r s = (finishRequest r False s)\<lparr>os_cancelling := tl (os_cancelling s)\<rparr>"

definition cancelEnd :: "bool \<Rightarrow> OwnerService \<Rightarrow> bool option \<times> OwnerService" where
  "cancelEnd owner s = stopRest owner (s\<lparr>os_cancellationReady := True, os_canceller := None\<rparr>)"

definition stopWake :: "OwnerService \<Rightarrow> bool option \<times> OwnerService" where
  "stopWake s = stopReturns (s\<lparr>os_stopWaiters := os_stopWaiters s - 1\<rparr>)"

definition serviceJoined :: "OwnerService \<Rightarrow> bool option \<times> OwnerService" where
  "serviceJoined s = stopReturns
     (s\<lparr>os_running := False, os_stopping := False, os_joining := False, os_ownerSet := False, os_joined := False,
        os_at := NoThread\<rparr>)"

definition runningNow :: "OwnerService \<Rightarrow> bool" where
  "runningNow s \<longleftrightarrow> os_running s \<and> \<not> os_stopping s"

definition pending :: "OwnerService \<Rightarrow> nat" where
  "pending s = length (os_queue s)"

text \<open>The destructor's condition; anything else terminates the process.\<close>

definition mayDestroyService :: "OwnerService \<Rightarrow> bool" where
  "mayDestroyService s \<longleftrightarrow> \<not> (os_worker s \<or> os_joining s)"

section \<open>The worker\<close>

definition runBegins :: "OwnerService \<Rightarrow> OwnerService" where
  "runBegins s = s\<lparr>os_ownerSet := True, os_at := AtWait\<rparr>"

text \<open>One hold at the top of the loop, after a notification or five milliseconds.\<close>

definition runTakes :: "OwnerService \<Rightarrow> OwnerService" where
  "runTakes s =
     (if os_stopping s then s\<lparr>os_at := AwaitingCancellation\<rparr>
      else case os_queue s of
        r # rest \<Rightarrow> s\<lparr>os_queue := rest, os_at := Executing r, os_log := EvRan r # os_log s\<rparr>
      | [] \<Rightarrow> if os_idle s then s\<lparr>os_at := Idling\<rparr> else s)"

definition runFinalizer :: "OwnerService \<Rightarrow> OwnerService" where
  "runFinalizer s = s\<lparr>os_finalizer := False, os_at := Finalizing (os_finalizer s), os_log := EvFinalizer # os_log s\<rparr>"

definition runExits :: "bool \<Rightarrow> OwnerService \<Rightarrow> OwnerService" where
  "runExits outcome s =
     s\<lparr>os_idle := False, os_finalOutcome := outcome \<and> \<not> os_idleFailed s, os_ownerSet := False, os_at := Exited,
       os_log := EvFinalized outcome # os_log s\<rparr>"

definition callbackEnds :: "nat \<Rightarrow> bool \<Rightarrow> OwnerService \<Rightarrow> OwnerService" where
  "callbackEnds r success s = (completeRequest r success (releaseCallback r s))\<lparr>os_at := Completing r success\<rparr>"

definition completionEnds :: "nat \<Rightarrow> bool \<Rightarrow> OwnerService \<Rightarrow> OwnerService" where
  "completionEnds r success s = (finishRequest r success s)\<lparr>os_at := AfterRequest\<rparr>"

text \<open>\<open>due\<close>: five milliseconds have passed since the last idle call.\<close>

definition betweenRequests :: "bool \<Rightarrow> OwnerService \<Rightarrow> OwnerService" where
  "betweenRequests due s = s\<lparr>os_at := (if os_idle s \<and> due \<and> \<not> os_stopping s then Idling else AtWait)\<rparr>"

definition idleEnds :: "bool \<Rightarrow> OwnerService \<Rightarrow> OwnerService" where
  "idleEnds ok s = s\<lparr>os_idleFailed := (os_idleFailed s \<or> \<not> ok), os_at := AtWait, os_log := EvIdle ok # os_log s\<rparr>"

section \<open>All threads together\<close>

text \<open>
  Where the worker is inside a callback it was given; from there it may call the service itself. A stop it
  calls there cancels the queue before it returns, so the callback goes on only when that is over.
\<close>

fun inCallback :: "WorkerPoint \<Rightarrow> bool" where
  "inCallback (Executing r) = True"
| "inCallback (Completing r ok) = True"
| "inCallback Idling = True"
| "inCallback (Finalizing f) = True"
| "inCallback _ = False"

inductive callStep :: "OwnerService \<Rightarrow> OwnerService \<Rightarrow> bool" where
  starts: "callStep s (snd (startService idle threadOk s))"
| submits: "callStep s (snd (submitRequest completion alloc s))"
| invokes: "callStep s (snd (invokeQueued alloc s))"
| nested: "inCallback (os_at s) \<Longrightarrow> callStep s (snd (invokeNested s))"
| stops: "callStep s (snd (stopService False fin s))"
| ownerStops: "inCallback (os_at s) \<Longrightarrow> os_canceller s \<noteq> Some True \<Longrightarrow> callStep s (snd (stopService True fin s))"

inductive workStep :: "OwnerService \<Rightarrow> OwnerService \<Rightarrow> bool" where
  runs: "os_at s = Starting \<Longrightarrow> workStep s (runBegins s)"
| takes: "os_at s = AtWait \<Longrightarrow> workStep s (runTakes s)"
| finalizes: "os_at s = AwaitingCancellation \<Longrightarrow> os_cancellationReady s \<Longrightarrow> workStep s (runFinalizer s)"
| exits: "os_at s = Finalizing f \<Longrightarrow> f \<or> ok \<Longrightarrow> workStep s (runExits ok s)"
| returns: "os_at s = Executing r \<Longrightarrow> os_canceller s \<noteq> Some True \<Longrightarrow> workStep s (callbackEnds r ok s)"
| completes: "os_at s = Completing r ok \<Longrightarrow> os_canceller s \<noteq> Some True \<Longrightarrow> workStep s (completionEnds r ok s)"
| goesOn: "os_at s = AfterRequest \<Longrightarrow> workStep s (betweenRequests due s)"
| idles: "os_at s = Idling \<Longrightarrow> os_canceller s \<noteq> Some True \<Longrightarrow> workStep s (idleEnds ok s)"
| cancels: "os_cancelling s = r # rest \<Longrightarrow> sr_callback (os_requests s r) \<Longrightarrow> workStep s (cancelCall r s)"
| cancelled: "os_cancelling s = r # rest \<Longrightarrow> \<not> sr_callback (os_requests s r) \<Longrightarrow> workStep s (cancelFinish r s)"
| ready: "os_cancelling s = [] \<Longrightarrow> os_canceller s = Some owner \<Longrightarrow> workStep s (snd (cancelEnd owner s))"
| joins: "os_joining s \<Longrightarrow> os_joined s \<longrightarrow> os_at s = Exited \<Longrightarrow> workStep s (snd (serviceJoined s))"
| wakes: "0 < os_stopWaiters s \<Longrightarrow> \<not> os_joining s \<Longrightarrow> \<not> os_worker s \<Longrightarrow> workStep s (snd (stopWake s))"
| answers: "r \<in> set (os_waiting s) \<Longrightarrow> sr_done (os_requests s r) \<Longrightarrow> workStep s (snd (invokeAnswer r s))"

definition ownerStep :: "OwnerService \<Rightarrow> OwnerService \<Rightarrow> bool" where
  "ownerStep s t \<longleftrightarrow> callStep s t \<or> workStep s t"

inductive_cases callStep_cases: "callStep s t"
inductive_cases workStep_cases: "workStep s t"

end
