(* ===== verification/OwnerProps.thy ===== *)
theory OwnerProps
  imports OwnerService
begin

text \<open>
  What holds of the owner service in every state its threads can reach: the flags agree with where the
  worker stands, every request has exactly one place and one completion call, nothing runs after the
  finalizer, and a stop ends.
\<close>

section \<open>The flags\<close>

fun hasOwnerId :: "WorkerPoint \<Rightarrow> bool" where
  "hasOwnerId NoThread = False"
| "hasOwnerId Starting = False"
| "hasOwnerId Exited = False"
| "hasOwnerId _ = True"

fun leaving :: "WorkerPoint \<Rightarrow> bool" where
  "leaving AwaitingCancellation = True"
| "leaving (Finalizing f) = True"
| "leaving Exited = True"
| "leaving _ = False"

fun pastCancellation :: "WorkerPoint \<Rightarrow> bool" where
  "pastCancellation (Finalizing f) = True"
| "pastCancellation Exited = True"
| "pastCancellation _ = False"

definition lifeInv :: "OwnerService \<Rightarrow> bool" where
  "lifeInv s \<longleftrightarrow>
     (os_running s \<longleftrightarrow> os_at s \<noteq> NoThread) \<and> (os_running s \<longleftrightarrow> os_worker s \<or> os_joining s) \<and>
     \<not> (os_worker s \<and> os_joining s) \<and> (os_joined s \<longleftrightarrow> os_joining s) \<and>
     (os_ownerSet s \<longleftrightarrow> hasOwnerId (os_at s)) \<and> (os_joining s \<or> leaving (os_at s) \<longrightarrow> os_stopping s)"

definition stopInv :: "OwnerService \<Rightarrow> bool" where
  "stopInv s \<longleftrightarrow>
     (os_stopping s \<longrightarrow> os_running s) \<and>
     (os_running s \<longrightarrow> (os_cancellationReady s \<longleftrightarrow> os_stopping s \<and> os_canceller s = None)) \<and>
     (os_canceller s \<noteq> None \<longrightarrow> os_stopping s) \<and> (os_cancelling s \<noteq> [] \<longrightarrow> os_canceller s \<noteq> None) \<and>
     (pastCancellation (os_at s) \<longrightarrow> os_canceller s = None) \<and>
     (os_canceller s = Some True \<longrightarrow> inCallback (os_at s)) \<and>
     (os_stopping s \<or> \<not> os_running s \<longrightarrow> os_queue s = [])"

definition callersInv :: "OwnerService \<Rightarrow> bool" where
  "callersInv s \<longleftrightarrow>
     os_stopCallers s = of_bool (os_canceller s = Some False) + of_bool (os_joining s) + os_stopWaiters s \<and>
     (0 < os_stopWaiters s \<and> os_running s \<longrightarrow> os_joining s) \<and> length (os_queue s) \<le> serviceCapacity"

lemmas owner_defs = startService_def mayQueue_def enqueue_def submitRequest_def invokeQueued_def invokeAnswer_def invokeNested_def
  isOwner_def stopReturns_def stopRest_def stopService_def releaseCallback_def completeRequest_def finishRequest_def cancelCall_def cancelFinish_def
  cancelEnd_def stopWake_def serviceJoined_def runBegins_def runTakes_def runFinalizer_def runExits_def
  callbackEnds_def completionEnds_def betweenRequests_def idleEnds_def Let_def

definition flagInv :: "OwnerService \<Rightarrow> bool" where
  "flagInv s \<longleftrightarrow> lifeInv s \<and> stopInv s \<and> callersInv s"

lemmas flagInv_defs = flagInv_def lifeInv_def stopInv_def callersInv_def


lemma flagInv_unaffected [simp]:
  "flagInv (s\<lparr>os_waiting := w\<rparr>) = flagInv s" "flagInv (s\<lparr>os_log := l\<rparr>) = flagInv s"
  "flagInv (s\<lparr>os_requests := q\<rparr>) = flagInv s"  "flagInv (s\<lparr>os_next := n\<rparr>) = flagInv s"
  "flagInv (s\<lparr>os_idleFailed := f\<rparr>) = flagInv s"
  by (simp_all add: flagInv_defs)

lemma flagInv_start: "flagInv s \<Longrightarrow> flagInv (snd (startService idle threadOk s))"
  by (auto simp add: flagInv_defs startService_def)

lemma flagInv_enqueue: "flagInv s \<Longrightarrow> mayQueue alloc s \<Longrightarrow> flagInv (enqueue c s)"
  by (auto simp add: flagInv_defs enqueue_def mayQueue_def)


lemma flagInv_closes:
  assumes "flagInv s" "os_running s" "\<not> os_stopping s" "owner \<longrightarrow> inCallback (os_at s)"
  shows "flagInv ((if owner then s else s\<lparr>os_stopCallers := Suc (os_stopCallers s)\<rparr>)
    \<lparr>os_stopping := True, os_finalizer := fin, os_cancelling := q, os_queue := [], os_canceller := Some owner\<rparr>)"
proof -
  have "\<not> pastCancellation (os_at s)" using assms(1, 3) by (cases "os_at s") (auto simp: flagInv_defs)
  then show ?thesis using assms by (cases owner) (auto simp: flagInv_defs)
qed

lemma flagInv_stopRest:
  assumes "flagInv s" "os_stopping s \<or> \<not> os_running s"
  shows "flagInv (snd (stopRest False (s\<lparr>os_stopCallers := Suc (os_stopCallers s)\<rparr>)))"
  using assms by (cases "os_joining s"; cases "os_running s") (auto simp: flagInv_defs stopRest_def stopReturns_def)

lemma flagInv_running: "flagInv s \<Longrightarrow> os_running s \<or> os_worker s \<longleftrightarrow> os_running s"
  by (auto simp: flagInv_defs)

lemma flagInv_stop:
  assumes "flagInv s" "onWorker \<longrightarrow> inCallback (os_at s)"
  shows "flagInv (snd (stopService onWorker fin s))"
proof (cases "os_running s \<and> \<not> os_stopping s")
  case True
  with assms show ?thesis using flagInv_closes [OF assms(1), of "isOwner onWorker s" "os_queue s" fin]
    by (simp add: stopService_def flagInv_running isOwner_def Let_def del: flagInv_unaffected)
next
  case False
  moreover have "stopRest True s = (Some False, s)" by (simp add: stopRest_def)
  ultimately show ?thesis using assms flagInv_stopRest [OF assms(1)]
    by (auto simp add: stopService_def flagInv_running Let_def)
qed

lemma flagInv_complete: "flagInv s \<Longrightarrow> flagInv (completeRequest r b (releaseCallback r s))"
  by (auto simp add: completeRequest_def releaseCallback_def)

lemma flagInv_finish: "flagInv s \<Longrightarrow> flagInv (finishRequest r b s)"
  by (auto simp add: finishRequest_def)

lemma flagInv_callback: "flagInv s \<Longrightarrow> hasOwnerId (os_at s) \<Longrightarrow> os_canceller s \<noteq> Some True \<Longrightarrow> \<not> leaving (os_at s) \<Longrightarrow>
   hasOwnerId p \<Longrightarrow> \<not> leaving p \<Longrightarrow> flagInv (s\<lparr>os_at := p\<rparr>)"
  by (cases p; cases "os_at s") (auto simp add: flagInv_defs)

lemma flagInv_takes: "flagInv s \<Longrightarrow> os_at s = AtWait \<Longrightarrow> flagInv (runTakes s)"
  by (cases "os_queue s") (auto simp add: flagInv_defs runTakes_def)

lemma flagInv_cancelEnd: "flagInv s \<Longrightarrow> os_cancelling s = [] \<Longrightarrow> os_canceller s = Some owner \<Longrightarrow> flagInv (snd (cancelEnd owner s))"
  by (cases owner; cases "os_joining s") (auto simp add: flagInv_defs cancelEnd_def stopRest_def stopReturns_def)

lemma flagInv_cancelFinish: "flagInv s \<Longrightarrow> os_cancelling s = r # rest \<Longrightarrow> flagInv (cancelFinish r s)"
  by (auto simp add: flagInv_defs cancelFinish_def finishRequest_def)

lemma flagInv_finalizer: "flagInv s \<Longrightarrow> os_at s = AwaitingCancellation \<Longrightarrow> os_cancellationReady s \<Longrightarrow> flagInv (runFinalizer s)"
  by (auto simp add: flagInv_defs runFinalizer_def)

lemma flagInv_exits: "flagInv s \<Longrightarrow> os_at s = Finalizing f \<Longrightarrow> flagInv (runExits ok s)"
  by (auto simp add: flagInv_defs runExits_def)

lemma flagInv_begins: "flagInv s \<Longrightarrow> os_at s = Starting \<Longrightarrow> flagInv (runBegins s)"
  by (auto simp add: flagInv_defs runBegins_def)

lemma flagInv_joined: "flagInv s \<Longrightarrow> os_joining s \<Longrightarrow> os_joined s \<longrightarrow> os_at s = Exited \<Longrightarrow> flagInv (snd (serviceJoined s))"
  by (auto simp add: flagInv_defs serviceJoined_def stopReturns_def)

lemma flagInv_wake: "flagInv s \<Longrightarrow> 0 < os_stopWaiters s \<Longrightarrow> \<not> os_joining s \<Longrightarrow> \<not> os_worker s \<Longrightarrow> flagInv (snd (stopWake s))"
  by (auto simp add: flagInv_defs stopWake_def stopReturns_def)

lemma os_at_release [simp]: "os_at (completeRequest r b (releaseCallback r' s)) = os_at s" "os_at (finishRequest r b s) = os_at s"
  "os_canceller (completeRequest r b (releaseCallback r' s)) = os_canceller s" "os_canceller (finishRequest r b s) = os_canceller s"
  by (simp_all add: completeRequest_def releaseCallback_def finishRequest_def)

lemma flagInv_between: "flagInv s \<Longrightarrow> os_at s = AfterRequest \<Longrightarrow> flagInv (betweenRequests due s)"
  unfolding betweenRequests_def by (rule flagInv_callback) (auto simp: flagInv_def stopInv_def)

lemma flagInv_idleEnds: "flagInv s \<Longrightarrow> os_at s = Idling \<Longrightarrow> os_canceller s \<noteq> Some True \<Longrightarrow> flagInv (idleEnds ok s)"
  using flagInv_callback [of "s\<lparr>os_idleFailed := os_idleFailed s \<or> \<not> ok\<rparr>" AtWait] by (simp add: idleEnds_def)

lemma flagInv_returns: "flagInv s \<Longrightarrow> os_at s = Executing r \<Longrightarrow> os_canceller s \<noteq> Some True \<Longrightarrow> flagInv (callbackEnds r ok s)"
  unfolding callbackEnds_def by (rule flagInv_callback [OF flagInv_complete]) auto

lemma flagInv_completes: "flagInv s \<Longrightarrow> os_at s = Completing r ok \<Longrightarrow> os_canceller s \<noteq> Some True \<Longrightarrow> flagInv (completionEnds r ok s)"
  unfolding completionEnds_def by (rule flagInv_callback [OF flagInv_finish]) auto

lemma flagInv_step: "flagInv s \<Longrightarrow> ownerStep s t \<Longrightarrow> flagInv t"
  unfolding ownerStep_def
proof (elim disjE)
  assume "flagInv s" "callStep s t"
  then show "flagInv t"
    by (elim callStep_cases) (auto simp: submitRequest_def invokeQueued_def invokeNested_def intro: flagInv_start flagInv_enqueue flagInv_stop)
next
  assume "flagInv s" "workStep s t"
  then show "flagInv t"
    by (elim workStep_cases)
       (auto simp: cancelCall_def invokeAnswer_def
         intro: flagInv_begins flagInv_takes flagInv_finalizer flagInv_exits flagInv_returns flagInv_completes
           flagInv_between flagInv_idleEnds flagInv_complete flagInv_cancelFinish flagInv_cancelEnd flagInv_joined flagInv_wake)
qed

section \<open>Where a request stands\<close>

text \<open>The answers given to the completion of a request, newest first.\<close>

fun completions :: "nat \<Rightarrow> OwnerEvent list \<Rightarrow> bool list" where
  "completions r [] = []"
| "completions r (EvCompleted r' b # l) = (if r' = r then b # completions r l else completions r l)"
| "completions r (e # l) = completions r l"

fun completingAs :: "nat \<Rightarrow> WorkerPoint \<Rightarrow> bool option" where
  "completingAs r (Completing r' ok) = (if r' = r then Some ok else None)"
| "completingAs r _ = None"

text \<open>
  A request is queued, executing, in its completion, being cancelled (before or after its completion call), or
  done; the log holds at most one run and, once it is past its completion, one answer if it wanted any.
\<close>

definition answered :: "ServiceRequest \<Rightarrow> bool \<Rightarrow> bool list \<Rightarrow> bool" where
  "answered rq ok answers \<longleftrightarrow> \<not> sr_callback rq \<and> \<not> sr_completion rq \<and> answers = (if sr_wanted rq then [ok] else [])"

definition untouched :: "ServiceRequest \<Rightarrow> bool list \<Rightarrow> bool" where
  "untouched rq answers \<longleftrightarrow> sr_callback rq \<and> sr_completion rq = sr_wanted rq \<and> \<not> sr_done rq \<and> answers = []"

definition requestPlaceOk :: "ServiceRequest \<Rightarrow> bool \<Rightarrow> bool \<Rightarrow> bool \<Rightarrow> bool option \<Rightarrow> nat \<Rightarrow> bool list \<Rightarrow> bool" where
  "requestPlaceOk rq queued cancelling executing completing runs answers \<longleftrightarrow>
     queued \<and> \<not> cancelling \<and> \<not> executing \<and> completing = None \<and> untouched rq answers \<and> runs = 0 \<or>
     \<not> queued \<and> \<not> cancelling \<and> executing \<and> completing = None \<and> untouched rq answers \<and> runs = 1 \<or>
     \<not> queued \<and> \<not> cancelling \<and> \<not> executing \<and> (\<exists>ok. completing = Some ok \<and> answered rq ok answers) \<and> \<not> sr_done rq \<and> runs = 1 \<or>
     \<not> queued \<and> cancelling \<and> \<not> executing \<and> completing = None \<and> runs = 0 \<and>
       (untouched rq answers \<or> answered rq False answers \<and> \<not> sr_done rq) \<or>
     \<not> queued \<and> \<not> cancelling \<and> \<not> executing \<and> completing = None \<and> sr_done rq \<and> answered rq (sr_success rq) answers \<and>
       (runs = 1 \<or> runs = 0 \<and> \<not> sr_success rq)"

lemma requestPlaceOk_simps [simp]:
  "requestPlaceOk rq True c e p n a \<longleftrightarrow> \<not> c \<and> \<not> e \<and> p = None \<and> untouched rq a \<and> n = 0"
  "requestPlaceOk rq q True e p n a \<longleftrightarrow> \<not> q \<and> \<not> e \<and> p = None \<and> n = 0 \<and> (untouched rq a \<or> answered rq False a \<and> \<not> sr_done rq)"
  "requestPlaceOk rq q c True p n a \<longleftrightarrow> \<not> q \<and> \<not> c \<and> p = None \<and> untouched rq a \<and> n = 1"
  "requestPlaceOk rq q c e (Some ok) n a \<longleftrightarrow> \<not> q \<and> \<not> c \<and> \<not> e \<and> answered rq ok a \<and> \<not> sr_done rq \<and> n = 1"
  "requestPlaceOk rq False False False None n a \<longleftrightarrow>
     sr_done rq \<and> answered rq (sr_success rq) a \<and> (n = 1 \<or> n = 0 \<and> \<not> sr_success rq)"
  by (auto simp: requestPlaceOk_def)

abbreviation standing :: "OwnerService \<Rightarrow> nat \<Rightarrow> bool" where
  "standing s r \<equiv> requestPlaceOk (os_requests s r) (r \<in> set (os_queue s)) (r \<in> set (os_cancelling s)) (os_at s = Executing r)
     (completingAs r (os_at s)) (count_list (os_log s) (EvRan r)) (completions r (os_log s))"

abbreviation unborn :: "OwnerService \<Rightarrow> nat \<Rightarrow> bool" where
  "unborn s r \<equiv> r \<notin> set (os_queue s) \<and> r \<notin> set (os_cancelling s) \<and> os_at s \<noteq> Executing r \<and>
     completingAs r (os_at s) = None \<and> count_list (os_log s) (EvRan r) = 0 \<and> completions r (os_log s) = []"

definition placeInv :: "OwnerService \<Rightarrow> bool" where
  "placeInv s \<longleftrightarrow> distinct (os_queue s) \<and> distinct (os_cancelling s) \<and> (\<forall>r. if r < os_next s then standing s r else unborn s r) \<and>
     (\<forall>r \<in> set (os_waiting s). r < os_next s)"

lemma placeInvD:
  assumes "placeInv s"
  shows "r < os_next s \<Longrightarrow> standing s r" "\<not> r < os_next s \<Longrightarrow> unborn s r"
  using assms unfolding placeInv_def by metis+

lemma placeInv_born:
  assumes "placeInv s"
  shows "r \<in> set (os_queue s) \<Longrightarrow> r < os_next s" "r \<in> set (os_cancelling s) \<Longrightarrow> r < os_next s"
    "os_at s = Executing r \<Longrightarrow> r < os_next s" "os_at s = Completing r ok \<Longrightarrow> r < os_next s"
  using placeInvD(2) [OF assms, of r] by auto

lemma placeInv_same:
  assumes "placeInv s"
    and "os_queue t = os_queue s" "os_requests t = os_requests s" "os_cancelling t = os_cancelling s" "os_next t = os_next s"
    and "\<And>r. (os_at t = Executing r) = (os_at s = Executing r)" "\<And>r. completingAs r (os_at t) = completingAs r (os_at s)"
    and "\<And>r. count_list (os_log t) (EvRan r) = count_list (os_log s) (EvRan r)"
    and "\<And>r. completions r (os_log t) = completions r (os_log s)"
    and "set (os_waiting t) \<subseteq> set (os_waiting s) \<union> {r. r < os_next s}"
  shows "placeInv t"
  using assms unfolding placeInv_def by (auto simp: subset_iff)

lemma placeInv_enqueue:
  assumes "placeInv s" shows "placeInv (enqueue c s)"
  unfolding placeInv_def
proof (intro conjI allI)
  fix r
  show "if r < os_next (enqueue c s) then standing (enqueue c s) r else unborn (enqueue c s) r"
    using placeInvD [OF assms, of r]
    by (cases "r = os_next s") (simp_all add: enqueue_def untouched_def newServiceRequest_def less_Suc_eq split: if_splits)
qed (use assms placeInvD(2) [OF assms, of "os_next s"] in \<open>auto simp: placeInv_def enqueue_def\<close>)

lemma placeInv_closes:
  assumes "placeInv s" "os_cancelling s = []"
    and "os_cancelling t = os_queue s" "os_queue t = []" "os_requests t = os_requests s" "os_next t = os_next s"
      "os_at t = os_at s" "os_log t = os_log s" "os_waiting t = os_waiting s"
  shows "placeInv t"
  unfolding placeInv_def
proof (intro conjI allI)
  fix r
  show "if r < os_next t then standing t r else unborn t r"
    using placeInvD [OF assms(1), of r] placeInv_born(1) [OF assms(1), of r] assms(2-) by (cases "r \<in> set (os_queue s)") simp_all
qed (use assms in \<open>auto simp: placeInv_def\<close>)

lemma placeInv_takes:
  assumes "placeInv s" "os_at s = AtWait" "\<not> os_stopping s" "os_queue s = r # rest"
  shows "placeInv (runTakes s)"
  unfolding placeInv_def
proof (intro conjI allI)
  fix r'
  have "r \<notin> set rest" using assms by (simp add: placeInv_def)
  then show "if r' < os_next (runTakes s) then standing (runTakes s) r' else unborn (runTakes s) r'"
    using placeInvD [OF assms(1), of r'] placeInv_born(1) [OF assms(1), of r] assms
    by (cases "r' = r") (simp_all add: runTakes_def split: if_splits)
qed (use assms in \<open>auto simp: placeInv_def runTakes_def\<close>)

lemma placeInv_returns:
  assumes "placeInv s" "os_at s = Executing r"
  shows "placeInv (callbackEnds r ok s)"
  unfolding placeInv_def
proof (intro conjI allI)
  fix r'
  show "if r' < os_next (callbackEnds r ok s) then standing (callbackEnds r ok s) r' else unborn (callbackEnds r ok s) r'"
    using placeInvD [OF assms(1), of r'] placeInv_born(3) [OF assms] assms
    by (cases "r' = r") (simp_all add: callbackEnds_def completeRequest_def releaseCallback_def untouched_def answered_def split: if_splits)
qed (use assms in \<open>auto simp: placeInv_def callbackEnds_def completeRequest_def releaseCallback_def\<close>)

lemma placeInv_completes:
  assumes "placeInv s" "os_at s = Completing r ok"
  shows "placeInv (completionEnds r ok s)"
  unfolding placeInv_def
proof (intro conjI allI)
  fix r'
  show "if r' < os_next (completionEnds r ok s) then standing (completionEnds r ok s) r' else unborn (completionEnds r ok s) r'"
    using placeInvD [OF assms(1), of r'] placeInv_born(4) [OF assms] assms
    by (cases "r' = r") (simp_all add: completionEnds_def finishRequest_def untouched_def answered_def split: if_splits)
qed (use assms in \<open>auto simp: placeInv_def completionEnds_def finishRequest_def\<close>)

lemma placeInv_cancels:
  assumes "placeInv s" "os_cancelling s = r # rest" "sr_callback (os_requests s r)"
  shows "placeInv (cancelCall r s)"
  unfolding placeInv_def
proof (intro conjI allI)
  fix r'
  show "if r' < os_next (cancelCall r s) then standing (cancelCall r s) r' else unborn (cancelCall r s) r'"
    using placeInvD [OF assms(1), of r'] placeInv_born(2) [OF assms(1), of r] assms
    by (cases "r' = r") (simp_all add: cancelCall_def completeRequest_def releaseCallback_def untouched_def answered_def split: if_splits)
qed (use assms in \<open>auto simp: placeInv_def cancelCall_def completeRequest_def releaseCallback_def\<close>)

lemma placeInv_cancelled:
  assumes "placeInv s" "os_cancelling s = r # rest" "\<not> sr_callback (os_requests s r)"
  shows "placeInv (cancelFinish r s)"
  unfolding placeInv_def
proof (intro conjI allI)
  fix r'
  have "r \<notin> set rest" using assms by (simp add: placeInv_def)
  then show "if r' < os_next (cancelFinish r s) then standing (cancelFinish r s) r' else unborn (cancelFinish r s) r'"
    using placeInvD [OF assms(1), of r'] placeInv_born(2) [OF assms(1), of r] assms
    by (cases "r' = r") (simp_all add: cancelFinish_def finishRequest_def untouched_def answered_def split: if_splits)
qed (use assms in \<open>auto simp: placeInv_def cancelFinish_def finishRequest_def\<close>)

lemma placeInv_stop:
  assumes "placeInv s" "flagInv s" shows "placeInv (snd (stopService onWorker fin s))"
proof (cases "os_running s \<and> \<not> os_stopping s")
  case True
  then have "os_cancelling s = []" using assms(2) by (auto simp: flagInv_def stopInv_def)
  then show ?thesis using True by (intro placeInv_closes [OF assms(1)]) (auto simp: stopService_def Let_def)
next
  case False
  then show ?thesis
    by (intro placeInv_same [OF assms(1)]) (auto simp: stopService_def stopRest_def stopReturns_def Let_def flagInv_running [OF assms(2)])
qed

lemma placeInv_runTakes:
  assumes "placeInv s" "os_at s = AtWait" shows "placeInv (runTakes s)"
proof (cases "os_stopping s \<or> os_queue s = []")
  case True
  then show ?thesis using assms(2) by (intro placeInv_same [OF assms(1)]) (auto simp: runTakes_def)
next
  case False
  then show ?thesis using placeInv_takes [OF assms] by (cases "os_queue s") auto
qed

lemma placeInv_start: "placeInv s \<Longrightarrow> flagInv s \<Longrightarrow> placeInv (snd (startService idle threadOk s))"
  by (erule placeInv_same) (auto simp: startService_def flagInv_def lifeInv_def)

lemma placeInv_invokeQueued:
  assumes "placeInv s" shows "placeInv (snd (invokeQueued alloc s))"
proof (cases "mayQueue alloc s")
  case True
  then show ?thesis by (intro placeInv_same [OF placeInv_enqueue [OF assms, of False]]) (auto simp: invokeQueued_def enqueue_def)
qed (use assms in \<open>simp add: invokeQueued_def\<close>)

lemma placeInv_joined: "placeInv s \<Longrightarrow> flagInv s \<Longrightarrow> os_joining s \<Longrightarrow> os_joined s \<longrightarrow> os_at s = Exited \<Longrightarrow>
    placeInv (snd (serviceJoined s))"
  by (erule placeInv_same) (auto simp: serviceJoined_def stopReturns_def flagInv_def lifeInv_def)

lemma placeInv_others:
  assumes "placeInv s"
  shows "placeInv (snd (invokeNested s))" "placeInv (snd (cancelEnd owner s))" "placeInv (snd (stopWake s))"
    "placeInv (snd (invokeAnswer r s))" "os_at s = Starting \<Longrightarrow> placeInv (runBegins s)"
    "os_at s = AwaitingCancellation \<Longrightarrow> placeInv (runFinalizer s)" "os_at s = Finalizing f \<Longrightarrow> placeInv (runExits ok s)"
    "os_at s = AfterRequest \<Longrightarrow> placeInv (betweenRequests due s)" "os_at s = Idling \<Longrightarrow> placeInv (idleEnds ok s)"
  by (rule placeInv_same [OF assms]; simp add: invokeNested_def cancelEnd_def stopRest_def stopReturns_def stopWake_def
      invokeAnswer_def le_supI1 set_remove1_subset runBegins_def runFinalizer_def runExits_def betweenRequests_def idleEnds_def)+

lemma placeInv_step: "placeInv s \<Longrightarrow> flagInv s \<Longrightarrow> ownerStep s t \<Longrightarrow> placeInv t"
  unfolding ownerStep_def
proof (elim disjE)
  assume "placeInv s" "flagInv s" "callStep s t"
  then show "placeInv t"
    by (elim callStep_cases) (auto simp: submitRequest_def placeInv_start placeInv_enqueue placeInv_invokeQueued placeInv_others placeInv_stop)
next
  assume "placeInv s" "flagInv s" "workStep s t"
  then show "placeInv t"
    by (elim workStep_cases)
       (auto simp: placeInv_others placeInv_runTakes placeInv_returns placeInv_completes placeInv_cancels placeInv_cancelled
         placeInv_joined)
qed

section \<open>The order of the calls\<close>

fun isFinalized :: "OwnerEvent \<Rightarrow> bool" where
  "isFinalized (EvFinalized b) = True"
| "isFinalized _ = False"

text \<open>After the finalizer only its end, after that only a new start, and a start nowhere else.\<close>

definition mayFollow :: "OwnerEvent \<Rightarrow> OwnerEvent \<Rightarrow> bool" where
  "mayFollow e old \<longleftrightarrow> (old = EvFinalizer \<longleftrightarrow> isFinalized e) \<and> (isFinalized old \<longleftrightarrow> e = EvStart)"

fun logHead :: "WorkerPoint \<Rightarrow> OwnerEvent list \<Rightarrow> bool" where
  "logHead p [] = (p = NoThread)"
| "logHead p (e # l) = ((p = NoThread \<or> p = Exited) = isFinalized e \<and> (\<exists>f. p = Finalizing f) = (e = EvFinalizer))"

definition logInv :: "OwnerService \<Rightarrow> bool" where
  "logInv s \<longleftrightarrow> successively mayFollow (os_log s) \<and> (os_log s \<noteq> [] \<longrightarrow> last (os_log s) = EvStart) \<and>
     logHead (os_at s) (os_log s)"

lemma logInv_same: "logInv s \<Longrightarrow> os_log t = os_log s \<Longrightarrow> logHead (os_at t) (os_log s) \<Longrightarrow> logInv t"
  by (simp add: logInv_def)

lemma logHead_moves:
  "logHead p l \<Longrightarrow> p \<noteq> NoThread \<and> p \<noteq> Exited \<and> (\<forall>f. p \<noteq> Finalizing f) \<Longrightarrow>
   p' \<noteq> NoThread \<and> p' \<noteq> Exited \<and> (\<forall>f. p' \<noteq> Finalizing f) \<Longrightarrow> logHead p' l"
  by (cases l) auto

lemma logInv_push:
  assumes "logInv s" "os_log t = e # os_log s" "logHead (os_at t) [e]"
    and "os_at s = NoThread \<or> os_at s = Exited \<longleftrightarrow> e = EvStart" "(\<exists>f. os_at s = Finalizing f) \<longleftrightarrow> isFinalized e"
  shows "logInv t"
  using assms by (cases "os_log s") (auto simp: logInv_def mayFollow_def)

lemma logInv_complete:
  assumes "logInv s" "\<not> pastCancellation (os_at s)" "os_at s \<noteq> NoThread" "\<not> pastCancellation (os_at t)" "os_at t \<noteq> NoThread"
    "os_log t = os_log (completeRequest r ok (releaseCallback r s))"
  shows "logInv t"
proof (cases "sr_completion (os_requests s r)")
  case True
  then show ?thesis using assms(2-)
    by (intro logInv_push [OF assms(1), of _ "EvCompleted r ok"]) (auto simp: completeRequest_def releaseCallback_def)
next
  case False
  have "logHead (os_at s) (os_log s)" using assms(1) by (simp add: logInv_def)
  then have "logHead (os_at t) (os_log s)" by (rule logHead_moves) (use assms(2-5) in auto)
  then show ?thesis using False assms(6) by (intro logInv_same [OF assms(1)]) (auto simp: completeRequest_def releaseCallback_def)
qed

lemma logInv_step:
  assumes "logInv s" "flagInv s" "ownerStep s t" shows "logInv t"
  using assms(3) unfolding ownerStep_def
proof (elim disjE)
  note running = assms(2) [unfolded flagInv_def lifeInv_def stopInv_def]
  assume "callStep s t"
  then show "logInv t"
  proof (cases rule: callStep.cases)
    case (starts idle threadOk)
    show ?thesis
    proof (cases "os_running s \<or> os_worker s \<or> os_stopping s \<or> os_stopCallers s \<noteq> 0 \<or> \<not> threadOk")
      case True
      then show ?thesis using assms(1) starts by (auto simp: startService_def logInv_def)
    next
      case False
      then show ?thesis using starts running by (intro logInv_push [OF assms(1), of t EvStart]) (auto simp: startService_def)
    qed
  next
    case nested
    then show ?thesis using logInv_push [OF assms(1), of t EvNested] logInv_same [OF assms(1), of t] running assms(1)
      by (cases "os_at s") (auto simp: invokeNested_def logInv_def)
  qed (use assms(1) in \<open>auto simp: logInv_def submitRequest_def invokeQueued_def enqueue_def stopService_def stopRest_def stopReturns_def Let_def\<close>)
next
  assume "workStep s t"
  then show "logInv t"
  proof (cases rule: workStep.cases)
    case takes
    then show ?thesis using logInv_push [OF assms(1), of t] logInv_same [OF assms(1), of t] logHead_moves [of "os_at s" "os_log s" "os_at t"] assms(1)
      by (auto simp: runTakes_def logInv_def split: list.splits)
  next
    case finalizes
    then show ?thesis by (intro logInv_push [OF assms(1), of t EvFinalizer]) (auto simp: runFinalizer_def)
  next
    case (exits f ok)
    then show ?thesis by (intro logInv_push [OF assms(1), of t "EvFinalized ok"]) (auto simp: runExits_def)
  next
    case (idles ok)
    then show ?thesis by (intro logInv_push [OF assms(1), of t "EvIdle ok"]) (auto simp: idleEnds_def)
  next
    case (returns r ok)
    then show ?thesis by (intro logInv_complete [OF assms(1)]) (auto simp: callbackEnds_def)
  next
    case (cancels r rest)
    moreover have "os_canceller s \<noteq> None" using assms(2) cancels by (auto simp: flagInv_def stopInv_def)
    ultimately show ?thesis using assms(2)
      by (intro logInv_complete [OF assms(1)]) (auto simp: cancelCall_def flagInv_def stopInv_def lifeInv_def)
  next
    case joins
    then show ?thesis using assms(1, 2) by (cases "os_log s") (auto simp: logInv_def serviceJoined_def stopReturns_def flagInv_def lifeInv_def)
  qed (use assms(1) logHead_moves [of "os_at s" "os_log s" "os_at t"] in
    \<open>auto simp: logInv_def runBegins_def completionEnds_def finishRequest_def betweenRequests_def cancelFinish_def cancelEnd_def
       stopRest_def stopReturns_def stopWake_def invokeAnswer_def\<close>)
qed

section \<open>Stop ends\<close>

fun pointRank :: "WorkerPoint \<Rightarrow> nat" where
  "pointRank NoThread = 0"
| "pointRank Exited = 2"
| "pointRank (Finalizing f) = 3"
| "pointRank AwaitingCancellation = 4"
| "pointRank AtWait = 5"
| "pointRank Starting = 6"
| "pointRank Idling = 6"
| "pointRank AfterRequest = 6"
| "pointRank (Completing r ok) = 7"
| "pointRank (Executing r) = 8"

fun cancelLeft :: "(nat \<Rightarrow> ServiceRequest) \<Rightarrow> nat list \<Rightarrow> nat" where
  "cancelLeft rq [] = 0"
| "cancelLeft rq (r # rs) = (if sr_callback (rq r) then 2 else 1) + cancelLeft rq rs"

lemma cancelLeft_other [simp]: "r \<notin> set rs \<Longrightarrow> cancelLeft (rq(r := x)) rs = cancelLeft rq rs"
  by (induction rs) auto

definition workLeft :: "OwnerService \<Rightarrow> nat" where
  "workLeft s = pointRank (os_at s) + cancelLeft (os_requests s) (os_cancelling s) +
     (if os_canceller s = None then 0 else 2) + of_bool (os_joining s) + os_stopWaiters s + length (os_waiting s)"

definition draining :: "OwnerService \<Rightarrow> bool" where
  "draining s \<longleftrightarrow> os_stopping s \<or> \<not> os_running s"

definition ownerInv :: "OwnerService \<Rightarrow> bool" where
  "ownerInv s \<longleftrightarrow> flagInv s \<and> placeInv s \<and> logInv s"

lemma workLeft_cancels:
  assumes "placeInv s" "os_cancelling s = r # rest"
  shows "sr_callback (os_requests s r) \<Longrightarrow> workLeft (cancelCall r s) < workLeft s"
    and "workLeft (cancelFinish r s) < workLeft s"
proof -
  have "r \<notin> set rest" using assms by (simp add: placeInv_def)
  then show "sr_callback (os_requests s r) \<Longrightarrow> workLeft (cancelCall r s) < workLeft s" "workLeft (cancelFinish r s) < workLeft s"
    using assms(2) by (simp_all add: workLeft_def cancelCall_def completeRequest_def releaseCallback_def cancelFinish_def finishRequest_def)
qed

lemma not_cancelling:
  assumes "placeInv s" "os_at s = Executing r \<or> os_at s = Completing r ok"
  shows "r \<notin> set (os_cancelling s)"
  using placeInvD [OF assms(1), of r] placeInv_born(3,4) [OF assms(1), of r] assms(2) by auto

lemma workLeft_request:
  assumes "placeInv s"
  shows "os_at s = Executing r \<Longrightarrow> workLeft (callbackEnds r ok s) < workLeft s"
    and "os_at s = Completing r ok \<Longrightarrow> workLeft (completionEnds r ok s) < workLeft s"
  using not_cancelling [OF assms, of r ok]
  by (simp_all add: workLeft_def callbackEnds_def completeRequest_def releaseCallback_def completionEnds_def finishRequest_def)

lemma workLeft_decreases:
  assumes "ownerInv s" "draining s" "workStep s t"
  shows "workLeft t < workLeft s"
proof -
  have inv: "placeInv s" "flagInv s" using assms(1) by (auto simp: ownerInv_def)
  show ?thesis using assms(3)
  proof (cases rule: workStep.cases)
    case takes
    then show ?thesis using inv(2) assms(2) by (auto simp: runTakes_def workLeft_def draining_def flagInv_def lifeInv_def)
  next
    case goesOn
    then show ?thesis using inv(2) assms(2) by (auto simp: betweenRequests_def workLeft_def draining_def flagInv_def lifeInv_def)
  next
    case joins
    then show ?thesis using inv(2) by (auto simp: serviceJoined_def stopReturns_def workLeft_def)
  next
    case (answers r)
    then show ?thesis using length_pos_if_in_set [of r "os_waiting s"] by (auto simp: invokeAnswer_def workLeft_def length_remove1)
  qed (use workLeft_cancels [OF inv(1)] workLeft_request [OF inv(1)] in
    \<open>auto simp: cancelEnd_def stopRest_def runBegins_def runFinalizer_def runExits_def idleEnds_def stopWake_def stopReturns_def
      workLeft_def\<close>)
qed

lemma draining_step: "flagInv s \<Longrightarrow> draining s \<Longrightarrow> workStep s t \<Longrightarrow> draining t"
  by (elim workStep_cases) (auto simp: draining_def runBegins_def runTakes_def runFinalizer_def runExits_def callbackEnds_def
      completionEnds_def betweenRequests_def idleEnds_def cancelCall_def cancelFinish_def cancelEnd_def stopRest_def stopReturns_def
      stopWake_def serviceJoined_def invokeAnswer_def completeRequest_def releaseCallback_def finishRequest_def split: list.splits)

lemma all_done:
  assumes "placeInv s" "os_queue s = []" "os_cancelling s = []" "\<not> inCallback (os_at s)" "r < os_next s"
  shows "sr_done (os_requests s r)"
  using placeInvD(1) [OF assms(1,5)] assms(2-4) by (cases "os_at s") auto

text \<open>A drained service has nothing left to do: every stop and every invoke has returned.\<close>

lemma drained:
  assumes inv: "ownerInv s" and "draining s" and stuck: "\<And>t. \<not> workStep s t"
  shows "os_stopCallers s = 0 \<and> os_waiting s = [] \<and> (\<forall>r < os_next s. sr_done (os_requests s r)) \<and>
    (os_running s \<longrightarrow> os_at s = Exited)"
proof -
  have f: "flagInv s" and p: "placeInv s" using inv by (auto simp: ownerInv_def)
  have cl: "os_cancelling s = []"
    using stuck workStep.cancels [of s] workStep.cancelled [of s] by (cases "os_cancelling s") auto
  have c: "os_canceller s = None" using stuck workStep.ready [OF cl] by (cases "os_canceller s") auto
  have at: "os_at s = NoThread \<or> os_at s = Exited"
    using stuck workStep.intros(1-8) [of s] c f assms(2) by (cases "os_at s") (auto simp: flagInv_def stopInv_def draining_def lifeInv_def)
  have q: "os_queue s = []" using f assms(2) by (auto simp: flagInv_def stopInv_def draining_def)
  have j: "\<not> os_joining s" using at stuck workStep.joins [of s] f by (auto simp: flagInv_def lifeInv_def)
  then have w: "os_stopWaiters s = 0" using at stuck workStep.wakes [of s] f by (auto simp: flagInv_def lifeInv_def callersInv_def)
  have dn: "sr_done (os_requests s r)" if "r < os_next s" for r using all_done [OF p q cl _ that] at by auto
  then have "os_waiting s = []" using stuck workStep.answers [of _ s] p by (cases "os_waiting s") (auto simp: placeInv_def)
  then show ?thesis using c j w f at dn by (auto simp: flagInv_def lifeInv_def callersInv_def)
qed

section \<open>The answer of stop\<close>

abbreviation lifetime :: "OwnerEvent list \<Rightarrow> OwnerEvent list" where
  "lifetime l \<equiv> takeWhile (\<lambda>e. e \<noteq> EvStart) l"

definition outcomeInv :: "OwnerService \<Rightarrow> bool" where
  "outcomeInv s \<longleftrightarrow>
     (os_running s \<longrightarrow> os_idleFailed s = (EvIdle False \<in> set (lifetime (os_log s)))) \<and>
     (if os_at s = Exited \<or> os_at s = NoThread
      then os_finalOutcome s = (EvIdle False \<notin> set (lifetime (os_log s)) \<and> EvFinalized False \<notin> set (lifetime (os_log s)))
      else EvFinalized False \<notin> set (lifetime (os_log s)))"

lemma outcomeInv_same:
  assumes "outcomeInv s" "os_running t \<longrightarrow> os_running s" "os_running t \<longrightarrow> os_idleFailed t = os_idleFailed s"
    "os_at t = Exited \<or> os_at t = NoThread \<longleftrightarrow> os_at s = Exited \<or> os_at s = NoThread"
    "os_finalOutcome t = os_finalOutcome s" "os_log t = os_log s \<or> (\<exists>e. os_log t = e # os_log s \<and> e \<noteq> EvStart \<and> e \<noteq> EvIdle False \<and> \<not> isFinalized e)"
  shows "outcomeInv t"
proof -
  have "EvIdle False \<in> set (lifetime (os_log t)) \<longleftrightarrow> EvIdle False \<in> set (lifetime (os_log s))"
    "EvFinalized False \<in> set (lifetime (os_log t)) \<longleftrightarrow> EvFinalized False \<in> set (lifetime (os_log s))"
    using assms(6) by (elim disjE exE conjE; force)+
  then show ?thesis using assms(1-5) unfolding outcomeInv_def by simp
qed

lemma outcomeInv_step:
  assumes "outcomeInv s" "flagInv s" "ownerStep s t" shows "outcomeInv t"
  using assms(3) unfolding ownerStep_def
proof (elim disjE)
  note fl = assms(2) [unfolded flagInv_def lifeInv_def]
  assume "callStep s t"
  then show "outcomeInv t"
  proof (cases rule: callStep.cases)
    case (starts idle threadOk)
    then show ?thesis using assms(1) fl by (auto simp: startService_def outcomeInv_def)
  qed (rule outcomeInv_same [OF assms(1)];
       simp add: submitRequest_def invokeQueued_def enqueue_def invokeNested_def stopService_def stopRest_def stopReturns_def Let_def)+
next
  note fl = assms(2) [unfolded flagInv_def lifeInv_def]
  assume "workStep s t"
  then show "outcomeInv t"
  proof (cases rule: workStep.cases)
    case (idles ok)
    then show ?thesis using assms(1) fl by (auto simp: idleEnds_def outcomeInv_def)
  next
    case (exits f ok)
    then show ?thesis using assms(1) fl by (auto simp: runExits_def outcomeInv_def)
  next
    case takes
    then show ?thesis by (intro outcomeInv_same [OF assms(1)]) (auto simp: runTakes_def split: list.splits)
  next
    case joins
    then show ?thesis using fl by (intro outcomeInv_same [OF assms(1)]) (auto simp: serviceJoined_def stopReturns_def)
  qed (rule outcomeInv_same [OF assms(1)];
       simp add: runBegins_def runFinalizer_def callbackEnds_def completionEnds_def betweenRequests_def cancelCall_def
         cancelFinish_def cancelEnd_def stopRest_def stopReturns_def stopWake_def invokeAnswer_def completeRequest_def releaseCallback_def finishRequest_def)+
qed

section \<open>Every reachable state\<close>

abbreviation serviceReach :: "OwnerService \<Rightarrow> bool" where
  "serviceReach \<equiv> reach (\<lambda>s. s = newOwnerService) ownerStep"

interpretation os: step_machine "\<lambda>s. s = newOwnerService" ownerStep "\<lambda>s. ownerInv s \<and> outcomeInv s"
proof
  fix s :: OwnerService
  assume "s = newOwnerService"
  then show "ownerInv s \<and> outcomeInv s"
    by (simp add: newOwnerService_def ownerInv_def flagInv_defs placeInv_def logInv_def outcomeInv_def)
next
  fix s t assume "ownerInv s \<and> outcomeInv s" "ownerStep s t"
  then show "ownerInv t \<and> outcomeInv t"
    by (auto simp: ownerInv_def intro: flagInv_step placeInv_step logInv_step outcomeInv_step)
qed

text \<open>A stop that some other thread has called is on its way to the join.\<close>

definition joinComes :: "OwnerService \<Rightarrow> bool" where
  "joinComes s \<longleftrightarrow> \<not> os_running s \<or> os_joining s \<or> os_canceller s = Some False"

lemma joinComes_step: "flagInv s \<Longrightarrow> draining s \<Longrightarrow> joinComes s \<Longrightarrow> workStep s t \<Longrightarrow> joinComes t"
  by (elim workStep_cases) (auto simp: joinComes_def draining_def flagInv_def lifeInv_def runBegins_def runTakes_def runFinalizer_def runExits_def callbackEnds_def
      completionEnds_def betweenRequests_def idleEnds_def cancelCall_def cancelFinish_def cancelEnd_def stopRest_def stopReturns_def
      stopWake_def serviceJoined_def invokeAnswer_def completeRequest_def releaseCallback_def finishRequest_def split: list.splits)

lemma drain_run:
  assumes "serviceReach s" "draining s" "joinComes s"
  shows "\<exists>t. workStep\<^sup>*\<^sup>* s t \<and> serviceReach t \<and> draining t \<and> joinComes t \<and> (\<forall>u. \<not> workStep t u)"
  using assms
proof (induction "workLeft s" arbitrary: s rule: less_induct)
  case less
  show ?case
  proof (cases "\<exists>t. workStep s t")
    case True
    then obtain t where t: "workStep s t" by blast
    have inv: "ownerInv s" using os.reach_inv [OF less.prems(1)] by blast
    have "workLeft t < workLeft s" by (rule workLeft_decreases [OF inv less.prems(2) t])
    moreover have "serviceReach t" using less.prems(1) t by (auto intro: reach_step simp: ownerStep_def)
    moreover have "draining t" "joinComes t" using inv less.prems t by (auto simp: ownerInv_def intro: draining_step joinComes_step)
    ultimately obtain u where "workStep\<^sup>*\<^sup>* t u" "serviceReach u" "draining u" "joinComes u" "\<forall>v. \<not> workStep u v"
      using less.hyps [of t] by blast
    then show ?thesis using t by (meson converse_rtranclp_into_rtranclp)
  qed (use less.prems in blast)
qed

text \<open>
  C19: while a stop drains the service, its threads cannot go on for ever: the steps of the worker, of the cancellation
  loop, of the join and of the calls that return, taken in any order from any reachable state, are well-founded.
\<close>

theorem stop_terminates: "wf {(t, s). serviceReach s \<and> (os_stopping s \<or> \<not> os_running s) \<and> workStep s t}"
proof (rule wf_subset [OF wf_measure [of workLeft]])
  show "{(t, s). serviceReach s \<and> (os_stopping s \<or> \<not> os_running s) \<and> workStep s t} \<subseteq> measure workLeft"
    using os.reach_inv workLeft_decreases by (auto simp: draining_def)
qed

text \<open>
  C20: a stop called by another thread returns, and when it does the worker has been joined: the service can be
  destroyed, no stop or invoke call is left waiting, and every admitted request is finished.
\<close>

theorem stop_returns:
  assumes "serviceReach s" "0 < os_stopCallers s"
  shows "\<exists>t. workStep\<^sup>*\<^sup>* s t \<and> \<not> os_running t \<and> mayDestroyService t \<and> os_stopCallers t = 0 \<and> os_waiting t = [] \<and>
    (\<forall>r < os_next t. sr_done (os_requests t r))"
proof -
  have f: "flagInv s" using os.reach_inv [OF assms(1)] by (auto simp: ownerInv_def)
  then have "draining s" "joinComes s" using assms(2)
    by (auto simp: flagInv_defs draining_def joinComes_def of_bool_def split: if_splits)
  then obtain t where t: "workStep\<^sup>*\<^sup>* s t" "serviceReach t" "draining t" "joinComes t" "\<And>u. \<not> workStep t u"
    using drain_run [OF assms(1)] by blast
  have inv: "ownerInv t" using os.reach_inv [OF t(2)] by blast
  note d = drained [OF inv t(3,5)]
  then have "\<not> os_running t" using t(4) inv by (auto simp: joinComes_def ownerInv_def flagInv_defs of_bool_def split: if_splits)
  then show ?thesis using t(1) d inv by (auto simp: mayDestroyService_def ownerInv_def flagInv_def lifeInv_def)
qed

text \<open>
  C21: every admitted request is finished exactly once. It is queued, running, being cancelled or done; its callback
  runs at most once; its completion, if it has one, is called once with the answer the request ends with; and a
  request that never ran ends with the answer false.
\<close>

theorem request_completes_once:
  assumes "serviceReach s" "r < os_next s"
  shows "count_list (os_log s) (EvRan r) \<le> 1 \<and> length (completions r (os_log s)) \<le> 1 \<and>
    (if sr_done (os_requests s r)
     then completions r (os_log s) = (if sr_wanted (os_requests s r) then [sr_success (os_requests s r)] else []) \<and>
       (sr_success (os_requests s r) \<longrightarrow> count_list (os_log s) (EvRan r) = 1)
     else r \<in> set (os_queue s) \<or> r \<in> set (os_cancelling s) \<or> os_at s = Executing r \<or> (\<exists>ok. os_at s = Completing r ok))"
proof -
  have "standing s r" using os.reach_inv [OF assms(1)] assms(2) by (auto simp: ownerInv_def intro: placeInvD)
  then show ?thesis unfolding requestPlaceOk_def untouched_def answered_def
    by (cases "os_at s") (auto split: if_splits)
qed

text \<open>
  C22: the finalizer runs last. Once it has been called every admitted request is finished, and nothing is called
  after it but its own end, until a new start.
\<close>

theorem finalizer_runs_last:
  assumes "serviceReach s"
  shows "(os_log s = newer @ EvFinalizer # older \<longrightarrow>
      newer = [] \<or> (\<exists>b. newer = [EvFinalized b]) \<or> (\<exists>b later. newer = later @ [EvStart, EvFinalized b])) \<and>
    (pastCancellation (os_at s) \<longrightarrow> (\<forall>r < os_next s. sr_done (os_requests s r)))"
proof -
  have "logInv s" and inv: "flagInv s" "placeInv s" using os.reach_inv [OF assms] by (auto simp: ownerInv_def)
  then have ord: "successively mayFollow (os_log s)" by (simp add: logInv_def)
  have "newer = [] \<or> (\<exists>b. newer = [EvFinalized b]) \<or> (\<exists>b later. newer = later @ [EvStart, EvFinalized b])"
    if eq: "os_log s = newer @ EvFinalizer # older"
  proof (cases newer rule: rev_cases)
    case (snoc mid e)
    then obtain b where e: "e = EvFinalized b"
      using ord eq by (cases e) (auto simp: successively_append_iff mayFollow_def)
    show ?thesis
    proof (cases mid rule: rev_cases)
      case (snoc later e')
      then have "e' = EvStart" using ord eq e \<open>newer = mid @ [e]\<close> by (auto simp: successively_append_iff mayFollow_def)
      then show ?thesis using snoc e \<open>newer = mid @ [e]\<close> by auto
    qed (use snoc e in auto)
  qed simp
  moreover have "sr_done (os_requests s r)" if "pastCancellation (os_at s)" "r < os_next s" for r
    using inv that placeInvD(1) [OF inv(2) that(2)] by (cases "os_at s") (auto simp: flagInv_defs)
  ultimately show ?thesis by blast
qed

text \<open>
  The answer every caller of a stop gets is the same, and says that neither the finalizer nor an idle callback
  of that lifetime threw.
\<close>

theorem stop_outcome:
  assumes "serviceReach s" "os_at s = Exited \<or> os_at s = NoThread"
  shows "os_finalOutcome s \<longleftrightarrow> list_all (\<lambda>e. e \<noteq> EvIdle False \<and> e \<noteq> EvFinalized False) (lifetime (os_log s))"
  using os.reach_inv [OF assms(1)] assms(2) by (auto simp: outcomeInv_def list_all_iff)

section \<open>A run\<close>

text \<open>A service is started, takes one request, and is stopped before it ran; then its threads go on to the finalizer.\<close>

definition demoStopped :: OwnerService where
  "demoStopped = snd (stopService False True (snd (submitRequest True True (snd (startService True True newOwnerService)))))"

definition demoFinalizing :: OwnerService where
  "demoFinalizing = runFinalizer (runTakes (runBegins (snd (cancelEnd False (cancelFinish 0 (cancelCall 0 demoStopped))))))"

definition demoExited :: OwnerService where
  "demoExited = runExits False demoFinalizing"

lemma demoStopped_reached: "serviceReach demoStopped"
proof -
  have "serviceReach newOwnerService" by (simp add: reach_init)
  then show ?thesis unfolding demoStopped_def by (meson reach_step ownerStep_def callStep.starts callStep.submits callStep.stops)
qed

lemmas demo_defs = demoStopped_def demoFinalizing_def demoExited_def newOwnerService_def newServiceRequest_def serviceCapacity_def owner_defs

lemma demoFinalizing_reached: "serviceReach demoFinalizing"
proof -
  have "workStep demoStopped (cancelCall 0 demoStopped)" by (rule workStep.cancels [of _ _ "[]"]) (simp_all add: demo_defs)
  moreover have "workStep (cancelCall 0 demoStopped) (cancelFinish 0 (cancelCall 0 demoStopped))"
    by (rule workStep.cancelled [of _ _ "[]"]) (simp_all add: demo_defs)
  moreover have "workStep (cancelFinish 0 (cancelCall 0 demoStopped)) (snd (cancelEnd False (cancelFinish 0 (cancelCall 0 demoStopped))))"
    by (rule workStep.ready) (simp_all add: demo_defs)
  moreover define s where "s = snd (cancelEnd False (cancelFinish 0 (cancelCall 0 demoStopped)))"
  moreover have "os_at s = Starting" "os_stopping s" "os_cancellationReady s" by (simp_all add: s_def demo_defs)
  then have "workStep s (runBegins s)" by (intro workStep.runs)
  moreover have "workStep (runBegins s) (runTakes (runBegins s))" by (rule workStep.takes) (simp add: runBegins_def)
  moreover have "workStep (runTakes (runBegins s)) (runFinalizer (runTakes (runBegins s)))"
    by (rule workStep.finalizes) (use \<open>os_stopping s\<close> \<open>os_cancellationReady s\<close> in \<open>simp_all add: runBegins_def runTakes_def\<close>)
  ultimately show ?thesis using demoStopped_reached unfolding demoFinalizing_def
    by (meson reach_step ownerStep_def)
qed

theorem stop_terminates_witness:
  "serviceReach demoStopped \<and> os_stopping demoStopped \<and> \<not> (\<exists>f. f 0 = demoStopped \<and> (\<forall>i. workStep (f i) (f (Suc i)) \<and> serviceReach (f i) \<and> os_stopping (f i)))"
proof -
  have "os_stopping demoStopped" by (simp add: demoStopped_def stopService_def startService_def submitRequest_def newOwnerService_def mayQueue_def enqueue_def serviceCapacity_def isOwner_def)
  then show ?thesis using demoStopped_reached stop_terminates by (auto simp: wf_iff_no_infinite_down_chain)
qed

theorem stop_returns_witness:
  "serviceReach demoStopped \<and> 0 < os_stopCallers demoStopped \<and>
   (\<exists>t. workStep\<^sup>*\<^sup>* demoStopped t \<and> \<not> os_running t \<and> mayDestroyService t \<and> os_stopCallers t = 0 \<and> os_waiting t = [] \<and>
    (\<forall>r < os_next t. sr_done (os_requests t r)))"
proof -
  have "0 < os_stopCallers demoStopped" by (simp add: demo_defs)
  then show ?thesis using stop_returns [OF demoStopped_reached] demoStopped_reached by blast
qed

theorem request_completes_once_witness:
  "os_log demoFinalizing = [EvFinalizer, EvCompleted 0 False, EvStart] \<and> sr_done (os_requests demoFinalizing 0) \<and>
   completions 0 (os_log demoFinalizing) = [sr_success (os_requests demoFinalizing 0)]"
proof -
  have "0 < os_next demoFinalizing" "sr_wanted (os_requests demoFinalizing 0)" "sr_done (os_requests demoFinalizing 0)"
    "os_log demoFinalizing = [EvFinalizer, EvCompleted 0 False, EvStart]" by (simp_all add: demo_defs)
  then show ?thesis using request_completes_once [OF demoFinalizing_reached, of 0] by simp
qed

theorem finalizer_runs_last_witness: "pastCancellation (os_at demoFinalizing) \<and> sr_done (os_requests demoFinalizing 0)"
proof -
  have "pastCancellation (os_at demoFinalizing)" "0 < os_next demoFinalizing" by (simp_all add: demo_defs)
  then show ?thesis using finalizer_runs_last [OF demoFinalizing_reached, of "[]" "[]"] by blast
qed

theorem stop_outcome_witness: "serviceReach demoExited \<and> os_at demoExited = Exited \<and> \<not> os_finalOutcome demoExited"
proof -
  have "workStep demoFinalizing demoExited" unfolding demoExited_def by (rule workStep.exits [of _ True]) (simp_all add: demo_defs)
  then have r: "serviceReach demoExited" using demoFinalizing_reached by (meson reach_step ownerStep_def)
  have "os_at demoExited = Exited" "os_log demoExited = [EvFinalized False, EvFinalizer, EvCompleted 0 False, EvStart]"
    by (simp_all add: demo_defs)
  then show ?thesis using stop_outcome [OF r] r by simp
qed

end
