(* ===== verification/RenderDispatch.thy ===== *)
theory RenderDispatch
  imports OwnerProps
begin

text \<open>
  \<^verbatim>\<open>src/openxr/render_thread_dispatcher.h\<close>: the rendezvous between the render thread, which keeps the graphics context, and the
  owner service. While the render thread waits in \<^verbatim>\<open>invokeOwner\<close> it runs the graphics jobs of that one owner
  callback. A step is one hold of the dispatcher's mutex, or a step of the owner service. Boundaries and jobs are
  heap objects shared by the two threads: they are kept in stores under their number, and the two slots of the
  class hold numbers. Beside the class the state keeps where the render thread stands (\<open>rd_caller\<close>), the job the
  owner waits for (\<open>rd_ownerWaits\<close>), which boundary an owner request belongs to (\<open>rd_of\<close>), the jobs a close has
  taken and not yet finished (\<open>rd_closing\<close>), and the jobs that were run (\<open>rd_ran\<close>, newest first).
\<close>

datatype BodyPhase = NotBegun | Inside | Over

record Boundary =
  bd_ownerExecuting :: bool
  bd_done :: bool
  bd_success :: bool
  bd_cancelled :: bool
  bd_phase :: BodyPhase

record GraphicsJob =
  gj_callback :: bool
  gj_running :: bool
  gj_done :: bool
  gj_success :: bool

datatype CallerPoint = Outside | Submitting nat | Rejected nat | Looping nat | RunningJob nat nat

record RenderDispatch =
  rd_owner :: OwnerService
  rd_bound :: bool
  rd_closed :: bool
  rd_boundary :: "nat option"
  rd_graphics :: "nat option"
  rd_boundaries :: "nat \<Rightarrow> Boundary"
  rd_jobs :: "nat \<Rightarrow> GraphicsJob"
  rd_nextBoundary :: nat
  rd_nextJob :: nat
  rd_caller :: CallerPoint
  rd_ownerWaits :: "nat option"
  rd_of :: "nat \<Rightarrow> nat option"
  rd_closing :: "nat list"
  rd_ran :: "nat list"

definition freshBoundary :: Boundary where
  "freshBoundary = \<lparr>bd_ownerExecuting = False, bd_done = False, bd_success = False, bd_cancelled = False, bd_phase = NotBegun\<rparr>"

definition newJob :: GraphicsJob where
  "newJob = \<lparr>gj_callback = True, gj_running = False, gj_done = False, gj_success = False\<rparr>"

definition newDispatch :: "OwnerService \<Rightarrow> RenderDispatch" where
  "newDispatch owner =
     \<lparr>rd_owner = owner, rd_bound = False, rd_closed = False, rd_boundary = None, rd_graphics = None,
      rd_boundaries = (\<lambda>_. freshBoundary), rd_jobs = (\<lambda>_. newJob), rd_nextBoundary = 0, rd_nextJob = 0, rd_caller = Outside,
      rd_ownerWaits = None, rd_of = (\<lambda>_. None), rd_closing = [], rd_ran = []\<rparr>"

definition updBoundary :: "nat \<Rightarrow> (Boundary \<Rightarrow> Boundary) \<Rightarrow> RenderDispatch \<Rightarrow> RenderDispatch" where
  "updBoundary b f d = d\<lparr>rd_boundaries := (rd_boundaries d)(b := f (rd_boundaries d b))\<rparr>"

definition updJob :: "nat \<Rightarrow> (GraphicsJob \<Rightarrow> GraphicsJob) \<Rightarrow> RenderDispatch \<Rightarrow> RenderDispatch" where
  "updJob j f d = d\<lparr>rd_jobs := (rd_jobs d)(j := f (rd_jobs d j))\<rparr>"

section \<open>The render thread\<close>

definition bindRenderThread :: "RenderDispatch \<Rightarrow> bool \<times> RenderDispatch" where
  "bindRenderThread d = (if rd_bound d \<or> rd_closed d then (False, d) else (True, d\<lparr>rd_bound := True\<rparr>))"

definition onRenderThread :: "bool \<Rightarrow> RenderDispatch \<Rightarrow> bool" where
  "onRenderThread here d \<longleftrightarrow> rd_bound d \<and> here"

text \<open>\<open>here\<close>: the call is made on the thread that was, or would be, bound. The owner's own calls are refused before.\<close>

definition invokeOwnerEnter :: "bool \<Rightarrow> RenderDispatch \<Rightarrow> bool \<times> RenderDispatch" where
  "invokeOwnerEnter here d =
     (if rd_closed d \<or> \<not> rd_bound d \<or> rd_boundary d \<noteq> None \<or> \<not> onRenderThread here d then (False, d)
      else (True, d\<lparr>rd_boundary := Some (rd_nextBoundary d),
                    rd_boundaries := (rd_boundaries d)(rd_nextBoundary d := freshBoundary),
                    rd_nextBoundary := Suc (rd_nextBoundary d), rd_caller := Submitting (rd_nextBoundary d)\<rparr>))"

definition invokeOwnerSubmit :: "nat \<Rightarrow> bool \<Rightarrow> RenderDispatch \<Rightarrow> RenderDispatch" where
  "invokeOwnerSubmit b alloc d =
     (case submitRequest True alloc (rd_owner d) of
        (None, owner) \<Rightarrow> d\<lparr>rd_owner := owner, rd_caller := Rejected b\<rparr>
      | (Some r, owner) \<Rightarrow> d\<lparr>rd_owner := owner, rd_of := (rd_of d)(r := Some b), rd_caller := Looping b\<rparr>)"

definition invokeOwnerRejected :: "RenderDispatch \<Rightarrow> bool \<times> RenderDispatch" where
  "invokeOwnerRejected d = (False, d\<lparr>rd_boundary := None, rd_caller := Outside\<rparr>)"

text \<open>One turn of the loop, once there is a job or the boundary is done; and the end of the job it ran.\<close>

definition invokeOwnerTurn :: "nat \<Rightarrow> RenderDispatch \<Rightarrow> bool option \<times> RenderDispatch" where
  "invokeOwnerTurn b d =
     (case rd_graphics d of
        Some j \<Rightarrow> (None, (updJob j (\<lambda>g. g\<lparr>gj_running := True\<rparr>) d)\<lparr>rd_caller := RunningJob b j, rd_ran := j # rd_ran d\<rparr>)
      | None \<Rightarrow> (Some (bd_success (rd_boundaries d b)), d\<lparr>rd_boundary := None, rd_caller := Outside\<rparr>))"

definition jobEnds :: "nat \<Rightarrow> nat \<Rightarrow> bool \<Rightarrow> RenderDispatch \<Rightarrow> RenderDispatch" where
  "jobEnds b j ok d =
     (updJob j (\<lambda>g. g\<lparr>gj_callback := False, gj_success := ok, gj_done := True\<rparr>) d)\<lparr>rd_graphics := None, rd_caller := Looping b\<rparr>"

section \<open>The owner's side\<close>

text \<open>The callback handed to the owner: its first hold, and the destructor that ends it; then its completion.\<close>

definition bodyBegins :: "nat \<Rightarrow> RenderDispatch \<Rightarrow> RenderDispatch" where
  "bodyBegins b d =
     (if rd_closed d then updBoundary b (\<lambda>x. x\<lparr>bd_cancelled := True, bd_phase := Over\<rparr>) d
      else updBoundary b (\<lambda>x. x\<lparr>bd_ownerExecuting := True, bd_phase := Inside\<rparr>) d)"

definition bodyEnds :: "nat \<Rightarrow> RenderDispatch \<Rightarrow> RenderDispatch" where
  "bodyEnds b d = updBoundary b (\<lambda>x. x\<lparr>bd_ownerExecuting := False, bd_phase := Over\<rparr>) d"

definition boundaryCompleted :: "nat \<Rightarrow> bool \<Rightarrow> RenderDispatch \<Rightarrow> RenderDispatch" where
  "boundaryCompleted b success d =
     updBoundary b (\<lambda>x. x\<lparr>bd_success := success \<and> \<not> bd_cancelled x, bd_done := True\<rparr>) d"

text \<open>\<^verbatim>\<open>invoke\<close>, which only the owner thread passes, up to its wait and after it.\<close>

definition invokeGraphics :: "bool \<Rightarrow> RenderDispatch \<Rightarrow> bool \<times> RenderDispatch" where
  "invokeGraphics here d =
     (if rd_closed d \<or> (case rd_boundary d of None \<Rightarrow> True | Some b \<Rightarrow> \<not> bd_ownerExecuting (rd_boundaries d b)) \<or>
         rd_graphics d \<noteq> None \<or> onRenderThread here d then (False, d)
      else (True, d\<lparr>rd_graphics := Some (rd_nextJob d), rd_jobs := (rd_jobs d)(rd_nextJob d := newJob),
                    rd_nextJob := Suc (rd_nextJob d), rd_ownerWaits := Some (rd_nextJob d)\<rparr>))"

definition invokeGraphicsReturns :: "nat \<Rightarrow> RenderDispatch \<Rightarrow> bool \<times> RenderDispatch" where
  "invokeGraphicsReturns j d = (gj_success (rd_jobs d j), d\<lparr>rd_ownerWaits := None\<rparr>)"

section \<open>Close\<close>

definition closeDispatch :: "RenderDispatch \<Rightarrow> RenderDispatch" where
  "closeDispatch d =
     (let d1 = d\<lparr>rd_closed := True\<rparr>;
          d2 = (case rd_boundary d of None \<Rightarrow> d1 | Some b \<Rightarrow> updBoundary b (\<lambda>x. x\<lparr>bd_cancelled := True\<rparr>) d1)
      in case rd_graphics d of
           None \<Rightarrow> d2
         | Some j \<Rightarrow> if gj_running (rd_jobs d j) then d2 else d2\<lparr>rd_graphics := None, rd_closing := j # rd_closing d\<rparr>)"

definition closeFinishes :: "nat \<Rightarrow> RenderDispatch \<Rightarrow> RenderDispatch" where
  "closeFinishes j d =
     (updJob j (\<lambda>g. g\<lparr>gj_callback := False, gj_success := False, gj_done := True\<rparr>) d)\<lparr>rd_closing := remove1 j (rd_closing d)\<rparr>"

text \<open>The destructor's condition; anything else terminates the process.\<close>

definition mayDestroyDispatch :: "RenderDispatch \<Rightarrow> bool" where
  "mayDestroyDispatch d \<longleftrightarrow> rd_boundary d = None \<and> rd_graphics d = None"

section \<open>All threads together\<close>

text \<open>
  A step of the owner service, seen from here: a completion it calls for a request of ours runs
  \<^const>\<open>boundaryCompleted\<close>. The worker does not leave our callback before its body is over, and does not move at
  all while it waits for a job.
\<close>

definition completedNow :: "OwnerService \<Rightarrow> OwnerService \<Rightarrow> (nat \<times> bool) option" where
  "completedNow s t =
     (if os_log t = os_log s then None
      else case os_log t of EvCompleted r ok # l \<Rightarrow> Some (r, ok) | _ \<Rightarrow> None)"

definition afterOwner :: "OwnerService \<Rightarrow> RenderDispatch \<Rightarrow> RenderDispatch" where
  "afterOwner t d =
     (case completedNow (rd_owner d) t of
        None \<Rightarrow> d\<lparr>rd_owner := t\<rparr>
      | Some (r, ok) \<Rightarrow>
          (case rd_of d r of None \<Rightarrow> d\<lparr>rd_owner := t\<rparr> | Some b \<Rightarrow> boundaryCompleted b ok (d\<lparr>rd_owner := t\<rparr>)))"

fun bodyOver :: "RenderDispatch \<Rightarrow> WorkerPoint \<Rightarrow> bool" where
  "bodyOver d (Executing r) = (case rd_of d r of None \<Rightarrow> True | Some b \<Rightarrow> bd_phase (rd_boundaries d b) = Over)"
| "bodyOver d _ = True"

definition workerFree :: "RenderDispatch \<Rightarrow> bool" where
  "workerFree d \<longleftrightarrow> rd_ownerWaits d = None \<and> bodyOver d (os_at (rd_owner d))"

inductive dispatchStep :: "RenderDispatch \<Rightarrow> RenderDispatch \<Rightarrow> bool" where
  binds: "dispatchStep d (snd (bindRenderThread d))"
| enters: "rd_caller d = Outside \<or> rd_caller d = RunningJob b j \<Longrightarrow> dispatchStep d (snd (invokeOwnerEnter here d))"
| submitted: "rd_caller d = Submitting b \<Longrightarrow> dispatchStep d (invokeOwnerSubmit b alloc d)"
| rejected: "rd_caller d = Rejected b \<Longrightarrow> dispatchStep d (snd (invokeOwnerRejected d))"
| turns: "rd_caller d = Looping b \<Longrightarrow> rd_graphics d \<noteq> None \<or> bd_done (rd_boundaries d b) \<Longrightarrow>
    dispatchStep d (snd (invokeOwnerTurn b d))"
| jobDone: "rd_caller d = RunningJob b j \<Longrightarrow> dispatchStep d (jobEnds b j ok d)"
| bodyStarts: "os_at (rd_owner d) = Executing r \<Longrightarrow> rd_of d r = Some b \<Longrightarrow> bd_phase (rd_boundaries d b) = NotBegun \<Longrightarrow>
    dispatchStep d (bodyBegins b d)"
| bodyStops: "os_at (rd_owner d) = Executing r \<Longrightarrow> rd_of d r = Some b \<Longrightarrow> bd_phase (rd_boundaries d b) = Inside \<Longrightarrow>
    rd_ownerWaits d = None \<Longrightarrow> dispatchStep d (bodyEnds b d)"
| asks: "inCallback (os_at (rd_owner d)) \<Longrightarrow> rd_ownerWaits d = None \<Longrightarrow> dispatchStep d (snd (invokeGraphics here d))"
| answered: "rd_ownerWaits d = Some j \<Longrightarrow> gj_done (rd_jobs d j) \<Longrightarrow> dispatchStep d (snd (invokeGraphicsReturns j d))"
| closes: "dispatchStep d (closeDispatch d)"
| closeDone: "j \<in> set (rd_closing d) \<Longrightarrow> dispatchStep d (closeFinishes j d)"
| ownerMoves: "ownerStep (rd_owner d) t \<Longrightarrow> os_at t \<noteq> os_at (rd_owner d) \<longrightarrow> workerFree d \<Longrightarrow> dispatchStep d (afterOwner t d)"

inductive_cases dispatchStep_cases: "dispatchStep d d'"

end
