(* ===== verification/DispatchProps.thy ===== *)
theory DispatchProps
  imports RenderDispatch
begin

text \<open>
  What holds of the render-thread dispatcher and the owner service together, in every state their threads can
  reach: graphics jobs run only inside the boundary that waits for them, nothing of a boundary is left when its
  call returns, and neither the owner nor the render thread is left waiting.
\<close>

section \<open>What a step of the owner keeps\<close>

definition ownerKeeps :: "OwnerService \<Rightarrow> OwnerService \<Rightarrow> bool" where
  "ownerKeeps s t \<longleftrightarrow> os_next s \<le> os_next t \<and> (os_log t = os_log s \<or> (\<exists>e. os_log t = e # os_log s)) \<and>
     (\<forall>r < os_next s. sr_wanted (os_requests t r) = sr_wanted (os_requests s r))"

lemma ownerKeeps_step: "ownerStep s t \<Longrightarrow> ownerKeeps s t"
  unfolding ownerStep_def
proof (elim disjE)
  assume "callStep s t"
  then show "ownerKeeps s t"
    by (elim callStep_cases) (auto simp: ownerKeeps_def startService_def submitRequest_def invokeQueued_def enqueue_def invokeNested_def
      stopService_def stopRest_def stopReturns_def Let_def)
next
  assume "workStep s t"
  then show "ownerKeeps s t"
    by (elim workStep_cases) (auto simp: ownerKeeps_def runBegins_def runTakes_def runFinalizer_def runExits_def callbackEnds_def
      completionEnds_def betweenRequests_def idleEnds_def cancelCall_def cancelFinish_def cancelEnd_def stopRest_def stopReturns_def
      stopWake_def serviceJoined_def invokeAnswer_def completeRequest_def releaseCallback_def finishRequest_def split: list.splits)
qed

lemma completions_step:
  assumes "ownerKeeps s t"
  shows "completions r (os_log t) =
    (case completedNow s t of Some (r', ok) \<Rightarrow> (if r' = r then ok # completions r (os_log s) else completions r (os_log s))
     | None \<Rightarrow> completions r (os_log s))"
proof (cases "os_log t = os_log s")
  case False
  then obtain e where "os_log t = e # os_log s" using assms by (auto simp: ownerKeeps_def)
  then show ?thesis by (cases e) (auto simp: completedNow_def)
qed (simp add: completedNow_def)

section \<open>The invariant\<close>

definition ofOk :: "RenderDispatch \<Rightarrow> bool" where
  "ofOk d \<longleftrightarrow>
     (\<forall>r b. rd_of d r = Some b \<longrightarrow> r < os_next (rd_owner d) \<and> b < rd_nextBoundary d \<and> sr_wanted (os_requests (rd_owner d) r)) \<and>
     (\<forall>r r' b. rd_of d r = Some b \<longrightarrow> rd_of d r' = Some b \<longrightarrow> r = r')"

definition insideOk :: "RenderDispatch \<Rightarrow> bool" where
  "insideOk d \<longleftrightarrow> (\<forall>b. (bd_ownerExecuting (rd_boundaries d b) \<longleftrightarrow> bd_phase (rd_boundaries d b) = Inside) \<and>
     (bd_phase (rd_boundaries d b) = Inside \<longrightarrow> (\<exists>r. os_at (rd_owner d) = Executing r \<and> rd_of d r = Some b)))"

definition doneOk :: "RenderDispatch \<Rightarrow> bool" where
  "doneOk d \<longleftrightarrow> (\<forall>r b. rd_of d r = Some b \<longrightarrow>
     (bd_done (rd_boundaries d b) \<longleftrightarrow> completions r (os_log (rd_owner d)) \<noteq> []) \<and>
     (rd_boundary d \<noteq> Some b \<longrightarrow> bd_done (rd_boundaries d b)))"

fun callerOk :: "RenderDispatch \<Rightarrow> CallerPoint \<Rightarrow> bool" where
  "callerOk d Outside = (rd_boundary d = None)"
| "callerOk d (Submitting b) = (rd_boundary d = Some b \<and> b < rd_nextBoundary d \<and> (\<forall>r. rd_of d r \<noteq> Some b) \<and>
     \<not> bd_done (rd_boundaries d b))"
| "callerOk d (Rejected b) = (rd_boundary d = Some b \<and> (\<forall>r. rd_of d r \<noteq> Some b))"
| "callerOk d (Looping b) = (rd_boundary d = Some b \<and> (\<exists>r. rd_of d r = Some b))"
| "callerOk d (RunningJob b j) = (rd_boundary d = Some b \<and> (\<exists>r. rd_of d r = Some b) \<and> rd_graphics d = Some j \<and>
     gj_running (rd_jobs d j))"

definition graphicsOk :: "RenderDispatch \<Rightarrow> bool" where
  "graphicsOk d \<longleftrightarrow> (\<forall>j. rd_graphics d = Some j \<longrightarrow> rd_ownerWaits d = Some j \<and> \<not> gj_done (rd_jobs d j) \<and>
      j \<notin> set (rd_closing d) \<and> (gj_running (rd_jobs d j) \<longleftrightarrow> (\<exists>b. rd_caller d = RunningJob b j)) \<and>
      (gj_running (rd_jobs d j) \<longleftrightarrow> j \<in> set (rd_ran d)) \<and> (rd_closed d \<longrightarrow> gj_running (rd_jobs d j)))"

definition waitOk :: "RenderDispatch \<Rightarrow> bool" where
  "waitOk d \<longleftrightarrow> (\<forall>j. rd_ownerWaits d = Some j \<longrightarrow> j < rd_nextJob d \<and> (\<exists>b. bd_phase (rd_boundaries d b) = Inside) \<and>
     (gj_done (rd_jobs d j) \<or> rd_graphics d = Some j \<or> j \<in> set (rd_closing d)))"

definition ranOk :: "RenderDispatch \<Rightarrow> bool" where
  "ranOk d \<longleftrightarrow> distinct (rd_ran d) \<and> (\<forall>j \<in> set (rd_ran d). j < rd_nextJob d) \<and> distinct (rd_closing d) \<and>
     (\<forall>j \<in> set (rd_closing d). j < rd_nextJob d \<and> rd_ownerWaits d = Some j \<and> j \<notin> set (rd_ran d) \<and> \<not> gj_done (rd_jobs d j)) \<and>
     (\<forall>j < rd_nextJob d. gj_done (rd_jobs d j) \<and> gj_success (rd_jobs d j) \<longrightarrow> j \<in> set (rd_ran d))"

definition closedOk :: "RenderDispatch \<Rightarrow> bool" where
  "closedOk d \<longleftrightarrow> (\<forall>b. rd_closed d \<and> rd_boundary d = Some b \<longrightarrow> bd_cancelled (rd_boundaries d b))"

lemma inside_is_slot:
  assumes "serviceReach (rd_owner d)" "ofOk d" "insideOk d" "doneOk d" "bd_phase (rd_boundaries d b) = Inside"
  shows "rd_boundary d = Some b \<and> \<not> bd_done (rd_boundaries d b)"
proof -
  obtain r where r: "os_at (rd_owner d) = Executing r" "rd_of d r = Some b" using assms by (auto simp: insideOk_def)
  then have "r < os_next (rd_owner d)" using assms(2) by (auto simp: ofOk_def)
  then have "completions r (os_log (rd_owner d)) = []"
    using os.reach_inv [OF assms(1)] placeInvD(1) [of "rd_owner d" r] r(1) by (auto simp: ownerInv_def untouched_def)
  then show ?thesis using assms(4) r by (auto simp: doneOk_def)
qed

definition dispatchInv :: "RenderDispatch \<Rightarrow> bool" where
  "dispatchInv d \<longleftrightarrow> serviceReach (rd_owner d) \<and> ofOk d \<and> insideOk d \<and> doneOk d \<and> callerOk d (rd_caller d) \<and> graphicsOk d \<and>
     waitOk d \<and> ranOk d \<and> closedOk d"

lemmas dispatchInv_defs = dispatchInv_def ofOk_def insideOk_def doneOk_def graphicsOk_def waitOk_def ranOk_def closedOk_def

lemma dispatchInvD:
  assumes "dispatchInv d"
  shows "serviceReach (rd_owner d)" "ofOk d" "insideOk d" "doneOk d" "callerOk d (rd_caller d)" "graphicsOk d" "waitOk d" "ranOk d" "closedOk d"
  using assms by (auto simp: dispatchInv_def)

text \<open>Each part of the invariant depends on a few fields only.\<close>

lemma parts_unaffected [simp]:
  "ofOk (d\<lparr>rd_bound := bound'\<rparr>) = ofOk d" "ofOk (d\<lparr>rd_closed := closed'\<rparr>) = ofOk d"
  "ofOk (d\<lparr>rd_boundary := boundary'\<rparr>) = ofOk d" "ofOk (d\<lparr>rd_graphics := graphics'\<rparr>) = ofOk d"
  "ofOk (d\<lparr>rd_boundaries := boundaries'\<rparr>) = ofOk d" "ofOk (d\<lparr>rd_jobs := jobs'\<rparr>) = ofOk d"
  "ofOk (d\<lparr>rd_nextJob := nextJob'\<rparr>) = ofOk d" "ofOk (d\<lparr>rd_caller := caller'\<rparr>) = ofOk d"
  "ofOk (d\<lparr>rd_ownerWaits := ownerWaits'\<rparr>) = ofOk d" "ofOk (d\<lparr>rd_closing := closing'\<rparr>) = ofOk d"
  "ofOk (d\<lparr>rd_ran := ran'\<rparr>) = ofOk d" "insideOk (d\<lparr>rd_bound := bound'\<rparr>) = insideOk d"
  "insideOk (d\<lparr>rd_closed := closed'\<rparr>) = insideOk d" "insideOk (d\<lparr>rd_boundary := boundary'\<rparr>) = insideOk d"
  "insideOk (d\<lparr>rd_graphics := graphics'\<rparr>) = insideOk d" "insideOk (d\<lparr>rd_jobs := jobs'\<rparr>) = insideOk d"
  "insideOk (d\<lparr>rd_nextBoundary := nextBoundary'\<rparr>) = insideOk d" "insideOk (d\<lparr>rd_nextJob := nextJob'\<rparr>) = insideOk d"
  "insideOk (d\<lparr>rd_caller := caller'\<rparr>) = insideOk d" "insideOk (d\<lparr>rd_ownerWaits := ownerWaits'\<rparr>) = insideOk d"
  "insideOk (d\<lparr>rd_closing := closing'\<rparr>) = insideOk d" "insideOk (d\<lparr>rd_ran := ran'\<rparr>) = insideOk d"
  "doneOk (d\<lparr>rd_bound := bound'\<rparr>) = doneOk d" "doneOk (d\<lparr>rd_closed := closed'\<rparr>) = doneOk d"
  "doneOk (d\<lparr>rd_graphics := graphics'\<rparr>) = doneOk d" "doneOk (d\<lparr>rd_jobs := jobs'\<rparr>) = doneOk d"
  "doneOk (d\<lparr>rd_nextBoundary := nextBoundary'\<rparr>) = doneOk d" "doneOk (d\<lparr>rd_nextJob := nextJob'\<rparr>) = doneOk d"
  "doneOk (d\<lparr>rd_caller := caller'\<rparr>) = doneOk d" "doneOk (d\<lparr>rd_ownerWaits := ownerWaits'\<rparr>) = doneOk d"
  "doneOk (d\<lparr>rd_closing := closing'\<rparr>) = doneOk d" "doneOk (d\<lparr>rd_ran := ran'\<rparr>) = doneOk d"
  "graphicsOk (d\<lparr>rd_owner := owner'\<rparr>) = graphicsOk d" "graphicsOk (d\<lparr>rd_bound := bound'\<rparr>) = graphicsOk d"
  "graphicsOk (d\<lparr>rd_boundary := boundary'\<rparr>) = graphicsOk d" "graphicsOk (d\<lparr>rd_boundaries := boundaries'\<rparr>) = graphicsOk d"
  "graphicsOk (d\<lparr>rd_nextBoundary := nextBoundary'\<rparr>) = graphicsOk d" "graphicsOk (d\<lparr>rd_nextJob := nextJob'\<rparr>) = graphicsOk d"
  "graphicsOk (d\<lparr>rd_of := of'\<rparr>) = graphicsOk d" "waitOk (d\<lparr>rd_owner := owner'\<rparr>) = waitOk d"
  "waitOk (d\<lparr>rd_bound := bound'\<rparr>) = waitOk d" "waitOk (d\<lparr>rd_closed := closed'\<rparr>) = waitOk d"
  "waitOk (d\<lparr>rd_boundary := boundary'\<rparr>) = waitOk d" "waitOk (d\<lparr>rd_nextBoundary := nextBoundary'\<rparr>) = waitOk d"
  "waitOk (d\<lparr>rd_caller := caller'\<rparr>) = waitOk d" "waitOk (d\<lparr>rd_of := of'\<rparr>) = waitOk d"
  "waitOk (d\<lparr>rd_ran := ran'\<rparr>) = waitOk d" "ranOk (d\<lparr>rd_owner := owner'\<rparr>) = ranOk d"
  "ranOk (d\<lparr>rd_bound := bound'\<rparr>) = ranOk d" "ranOk (d\<lparr>rd_closed := closed'\<rparr>) = ranOk d"
  "ranOk (d\<lparr>rd_boundary := boundary'\<rparr>) = ranOk d" "ranOk (d\<lparr>rd_graphics := graphics'\<rparr>) = ranOk d"
  "ranOk (d\<lparr>rd_boundaries := boundaries'\<rparr>) = ranOk d" "ranOk (d\<lparr>rd_nextBoundary := nextBoundary'\<rparr>) = ranOk d"
  "ranOk (d\<lparr>rd_caller := caller'\<rparr>) = ranOk d" "ranOk (d\<lparr>rd_of := of'\<rparr>) = ranOk d"
  "closedOk (d\<lparr>rd_owner := owner'\<rparr>) = closedOk d" "closedOk (d\<lparr>rd_bound := bound'\<rparr>) = closedOk d"
  "closedOk (d\<lparr>rd_graphics := graphics'\<rparr>) = closedOk d" "closedOk (d\<lparr>rd_jobs := jobs'\<rparr>) = closedOk d"
  "closedOk (d\<lparr>rd_nextBoundary := nextBoundary'\<rparr>) = closedOk d" "closedOk (d\<lparr>rd_nextJob := nextJob'\<rparr>) = closedOk d"
  "closedOk (d\<lparr>rd_caller := caller'\<rparr>) = closedOk d" "closedOk (d\<lparr>rd_ownerWaits := ownerWaits'\<rparr>) = closedOk d"
  "closedOk (d\<lparr>rd_of := of'\<rparr>) = closedOk d" "closedOk (d\<lparr>rd_closing := closing'\<rparr>) = closedOk d"
  "closedOk (d\<lparr>rd_ran := ran'\<rparr>) = closedOk d"
  by (simp_all add: ofOk_def insideOk_def doneOk_def graphicsOk_def waitOk_def ranOk_def closedOk_def)

lemma callerOk_unaffected [simp]:
  "callerOk (d\<lparr>rd_owner := owner'\<rparr>) p = callerOk d p" "callerOk (d\<lparr>rd_bound := bound'\<rparr>) p = callerOk d p"
  "callerOk (d\<lparr>rd_closed := closed'\<rparr>) p = callerOk d p" "callerOk (d\<lparr>rd_nextJob := nextJob'\<rparr>) p = callerOk d p"
  "callerOk (d\<lparr>rd_caller := caller'\<rparr>) p = callerOk d p" "callerOk (d\<lparr>rd_ownerWaits := ownerWaits'\<rparr>) p = callerOk d p"
  "callerOk (d\<lparr>rd_closing := closing'\<rparr>) p = callerOk d p" "callerOk (d\<lparr>rd_ran := ran'\<rparr>) p = callerOk d p"
  by (cases p; simp)+

lemma dispatchInv_bind: "dispatchInv d \<Longrightarrow> dispatchInv (snd (bindRenderThread d))"
  by (simp add: dispatchInv_def bindRenderThread_def)

lemma dispatchInv_enter:
  assumes "dispatchInv d" "rd_caller d = Outside \<or> rd_caller d = RunningJob b j"
  shows "dispatchInv (snd (invokeOwnerEnter here d))"
proof (cases "rd_closed d \<or> \<not> rd_bound d \<or> rd_boundary d \<noteq> None \<or> \<not> onRenderThread here d")
  case False
  note inv = dispatchInvD [OF assms(1)]
  define n where "n = rd_nextBoundary d"
  have e: "snd (invokeOwnerEnter here d) = d\<lparr>rd_boundary := Some n, rd_boundaries := (rd_boundaries d)(n := freshBoundary),
      rd_nextBoundary := Suc n, rd_caller := Submitting n\<rparr>" and b: "rd_boundary d = None" "\<not> rd_closed d"
    using False by (auto simp: invokeOwnerEnter_def n_def)
  have no: "rd_of d r \<noteq> Some n" for r using inv(2) by (auto simp: ofOk_def n_def)
  have ins: "bd_phase (rd_boundaries d x) \<noteq> Inside" for x using inside_is_slot [OF inv(1-4), of x] b by auto
  then have w: "rd_ownerWaits d = None" "rd_graphics d = None" using inv(6,7) by (auto simp: waitOk_def graphicsOk_def)
  let ?d = "snd (invokeOwnerEnter here d)"
  have "ofOk ?d" using inv(2) by (auto simp: e ofOk_def n_def less_Suc_eq)
  moreover have "insideOk ?d" using inv(3) ins by (auto simp: e insideOk_def freshBoundary_def)
  moreover have "doneOk ?d" using inv(4) b no by (auto simp: e doneOk_def freshBoundary_def)
  moreover have "callerOk ?d (rd_caller ?d)" using no by (simp add: e freshBoundary_def)
  moreover have "graphicsOk ?d" "waitOk ?d" "ranOk ?d" "closedOk ?d" using w inv(8) b by (simp_all add: e graphicsOk_def waitOk_def closedOk_def)
  ultimately show ?thesis using inv(1) by (simp add: dispatchInv_def e)
qed (use assms in \<open>simp add: invokeOwnerEnter_def\<close>)

lemma dispatchInv_rejected:
  assumes "dispatchInv d" "rd_caller d = Rejected b"
  shows "dispatchInv (snd (invokeOwnerRejected d))"
proof -
  note inv = dispatchInvD [OF assms(1)]
  have b: "rd_boundary d = Some b" "rd_of d r \<noteq> Some b" for r using inv(5) assms(2) by auto
  have ins: "bd_phase (rd_boundaries d x) \<noteq> Inside" for x
    using inside_is_slot [OF inv(1-4), of x] b inv(3) by (auto simp: insideOk_def)
  then have w: "rd_ownerWaits d = None" "rd_graphics d = None" using inv(6,7) by (auto simp: waitOk_def graphicsOk_def)
  have "doneOk (d\<lparr>rd_boundary := None\<rparr>)" using inv(4) b by (force simp: doneOk_def)
  then show ?thesis using inv w by (simp add: dispatchInv_def invokeOwnerRejected_def graphicsOk_def waitOk_def closedOk_def)
qed

lemma dispatchInv_submit:
  assumes "dispatchInv d" "rd_caller d = Submitting b"
  shows "dispatchInv (invokeOwnerSubmit b alloc d)"
proof -
  note inv = dispatchInvD [OF assms(1)]
  have b: "rd_boundary d = Some b" "b < rd_nextBoundary d" "rd_of d r \<noteq> Some b" for r using inv(5) assms(2) by auto
  have ins: "bd_phase (rd_boundaries d x) \<noteq> Inside" for x
    using inside_is_slot [OF inv(1-4), of x] b inv(3) by (auto simp: insideOk_def)
  then have w: "rd_ownerWaits d = None" "rd_graphics d = None" using inv(6,7) by (auto simp: waitOk_def graphicsOk_def)
  show ?thesis
  proof (cases "mayQueue alloc (rd_owner d)")
    case False
    then show ?thesis using inv w b by (simp add: dispatchInv_def invokeOwnerSubmit_def submitRequest_def graphicsOk_def)
  next
    case True
    define n where "n = os_next (rd_owner d)"
    have e: "invokeOwnerSubmit b alloc d = d\<lparr>rd_owner := enqueue True (rd_owner d), rd_of := (rd_of d)(n := Some b), rd_caller := Looping b\<rparr>"
      using True by (simp add: invokeOwnerSubmit_def submitRequest_def n_def)
    have r: "serviceReach (enqueue True (rd_owner d))"
      using reach_step [OF inv(1), of "enqueue True (rd_owner d)"] callStep.submits [of "rd_owner d" True alloc] True
      by (simp add: ownerStep_def submitRequest_def)
    have nd: "\<not> bd_done (rd_boundaries d b)" using inv(5) assms(2) by simp
    have c: "completions n (os_log (rd_owner d)) = []"
      using os.reach_inv [OF inv(1)] placeInvD(2) [of "rd_owner d" n] by (simp add: ownerInv_def n_def)
    let ?d = "invokeOwnerSubmit b alloc d"
    have "ofOk ?d" using inv(2) b by (auto simp: e ofOk_def enqueue_def newServiceRequest_def n_def less_Suc_eq)
    moreover have "insideOk ?d" using inv(3) ins by (auto simp: e insideOk_def)
    moreover have "doneOk ?d" using inv(4) b c nd by (auto simp: e doneOk_def enqueue_def)
    moreover have "callerOk ?d (rd_caller ?d)" using b by (auto simp: e)
    moreover have "graphicsOk ?d" "waitOk ?d" "ranOk ?d" "closedOk ?d" using w inv(8,9) b
      by (simp_all add: e graphicsOk_def waitOk_def ranOk_def closedOk_def)
    ultimately show ?thesis using r by (simp add: dispatchInv_def e)
  qed
qed

lemma closing_one: "ranOk d \<Longrightarrow> j \<in> set (rd_closing d) \<Longrightarrow> rd_ownerWaits d = Some i \<Longrightarrow> j = i"
  by (auto simp: ranOk_def)

lemma closing_none: "ranOk d \<Longrightarrow> rd_ownerWaits d = Some i \<Longrightarrow> i \<notin> set (rd_closing d) \<Longrightarrow> rd_closing d = []"
  using closing_one [of d "hd (rd_closing d)" i] by (cases "rd_closing d") auto

lemma dispatchInv_turn:
  assumes "dispatchInv d" "rd_caller d = Looping b" "rd_graphics d \<noteq> None \<or> bd_done (rd_boundaries d b)"
  shows "dispatchInv (snd (invokeOwnerTurn b d))"
proof (cases "rd_graphics d")
  case None
  note inv = dispatchInvD [OF assms(1)]
  have b: "rd_boundary d = Some b" using inv(5) assms(2) by simp
  have ins: "bd_phase (rd_boundaries d x) \<noteq> Inside" for x
    using inside_is_slot [OF inv(1-4), of x] b assms(3) None by auto
  then have w: "rd_ownerWaits d = None" using inv(7) by (auto simp: waitOk_def)
  have "doneOk (d\<lparr>rd_boundary := None\<rparr>)" using inv(4) b assms(3) None by (auto simp: doneOk_def)
  then show ?thesis using inv w None by (simp add: dispatchInv_def invokeOwnerTurn_def graphicsOk_def waitOk_def closedOk_def)
next
  case (Some j)
  note inv = dispatchInvD [OF assms(1)]
  have g: "rd_ownerWaits d = Some j" "\<not> gj_done (rd_jobs d j)" "j \<notin> set (rd_closing d)" "j \<notin> set (rd_ran d)" "j < rd_nextJob d"
    using inv(6,7) Some assms(2) by (auto simp: graphicsOk_def waitOk_def)
  let ?d = "snd (invokeOwnerTurn b d)"
  have e: "?d = (updJob j (\<lambda>g. g\<lparr>gj_running := True\<rparr>) d)\<lparr>rd_caller := RunningJob b j, rd_ran := j # rd_ran d\<rparr>"
    using Some by (simp add: invokeOwnerTurn_def)
  have "graphicsOk ?d" using g Some by (simp add: e updJob_def graphicsOk_def)
  moreover have "waitOk ?d" using inv(7) g Some by (simp add: e updJob_def waitOk_def)
  moreover have "ranOk ?d" using inv(8) g closing_none [OF inv(8) g(1,3)] by (simp add: e updJob_def ranOk_def)
  moreover have "callerOk ?d (rd_caller ?d)" using inv(5) assms(2) Some by (simp add: e updJob_def)
  ultimately show ?thesis using inv by (simp add: dispatchInv_def e updJob_def)
qed

lemma dispatchInv_jobEnds:
  assumes "dispatchInv d" "rd_caller d = RunningJob b j"
  shows "dispatchInv (jobEnds b j ok d)"
proof -
  note inv = dispatchInvD [OF assms(1)]
  have g: "rd_graphics d = Some j" "rd_ownerWaits d = Some j" "\<not> gj_done (rd_jobs d j)" "j \<notin> set (rd_closing d)" "j \<in> set (rd_ran d)" "j < rd_nextJob d"
    using inv(5,6,7) assms(2) by (auto simp: graphicsOk_def waitOk_def)
  let ?d = "jobEnds b j ok d"
  have "graphicsOk ?d" by (simp add: jobEnds_def updJob_def graphicsOk_def)
  moreover have "waitOk ?d" using inv(7) g by (simp add: jobEnds_def updJob_def waitOk_def)
  moreover have "ranOk ?d" using inv(8) g closing_none [OF inv(8) g(2,4)] by (simp add: jobEnds_def updJob_def ranOk_def)
  moreover have "callerOk ?d (rd_caller ?d)" using inv(5) assms(2) by (simp add: jobEnds_def updJob_def)
  ultimately show ?thesis using inv by (simp add: dispatchInv_def jobEnds_def updJob_def)
qed

lemma dispatchInv_ask:
  assumes "dispatchInv d" "rd_ownerWaits d = None"
  shows "dispatchInv (snd (invokeGraphics here d))"
proof (cases "fst (invokeGraphics here d)")
  case True
  note inv = dispatchInvD [OF assms(1)]
  define n where "n = rd_nextJob d"
  obtain b where b: "rd_boundary d = Some b" "bd_ownerExecuting (rd_boundaries d b)" "rd_graphics d = None" "\<not> rd_closed d"
    using True by (auto simp: invokeGraphics_def split: if_splits option.splits)
  have e: "snd (invokeGraphics here d) = d\<lparr>rd_graphics := Some n, rd_jobs := (rd_jobs d)(n := newJob), rd_nextJob := Suc n, rd_ownerWaits := Some n\<rparr>"
    using True by (auto simp: invokeGraphics_def n_def split: if_splits)
  let ?d = "snd (invokeGraphics here d)"
  have n: "n \<notin> set (rd_ran d)" "rd_closing d = []" using inv(8) assms(2) by (cases "rd_closing d"; auto simp: ranOk_def n_def)+
  have c: "rd_caller d \<noteq> RunningJob x j" for x j using inv(5) b by (cases "rd_caller d") auto
  have "graphicsOk ?d" using n c b by (simp add: e graphicsOk_def newJob_def)
  moreover have "waitOk ?d" using inv(3) b by (auto simp: e waitOk_def insideOk_def)
  moreover have "ranOk ?d" using inv(8) n by (auto simp: e ranOk_def newJob_def n_def less_Suc_eq)
  moreover have "callerOk ?d (rd_caller ?d)" using inv(5) c by (cases "rd_caller d") (auto simp: e)
  ultimately show ?thesis using inv by (simp add: dispatchInv_def e)
qed (use assms in \<open>auto simp: invokeGraphics_def split: if_splits\<close>)

lemma dispatchInv_answer:
  assumes "dispatchInv d" "rd_ownerWaits d = Some j" "gj_done (rd_jobs d j)"
  shows "dispatchInv (snd (invokeGraphicsReturns j d))"
proof -
  note inv = dispatchInvD [OF assms(1)]
  have g: "rd_graphics d = None" using inv(6) assms by (cases "rd_graphics d") (auto simp: graphicsOk_def)
  have c: "rd_closing d = []" using inv(8) assms by (cases "rd_closing d") (auto simp: ranOk_def)
  show ?thesis using inv g c by (simp add: dispatchInv_def invokeGraphicsReturns_def graphicsOk_def waitOk_def ranOk_def)
qed

lemma dispatchInv_closeDone:
  assumes "dispatchInv d" "j \<in> set (rd_closing d)"
  shows "dispatchInv (closeFinishes j d)"
proof -
  note inv = dispatchInvD [OF assms(1)]
  have c: "rd_ownerWaits d = Some j" "j \<notin> set (rd_ran d)" using inv(8) assms(2) by (auto simp: ranOk_def)
  have "set (remove1 j (rd_closing d)) = {}"
    using inv(8) closing_one [OF inv(8) _ c(1)] by (auto simp: ranOk_def set_remove1_eq)
  then have rm: "remove1 j (rd_closing d) = []" by simp
  have g: "rd_graphics d \<noteq> Some j" using inv(6) assms(2) by (auto simp: graphicsOk_def)
  then have g': "rd_graphics d = None" using inv(6) c by (cases "rd_graphics d") (auto simp: graphicsOk_def)
  let ?d = "closeFinishes j d"
  have "graphicsOk ?d" using g' by (simp add: closeFinishes_def updJob_def graphicsOk_def)
  moreover have "waitOk ?d" using inv(7) c rm by (simp add: closeFinishes_def updJob_def waitOk_def)
  moreover have "ranOk ?d" using inv(8) c rm by (simp add: closeFinishes_def updJob_def ranOk_def)
  moreover have "callerOk ?d (rd_caller ?d)" using inv(5) g' by (cases "rd_caller d") (auto simp: closeFinishes_def updJob_def)
  ultimately show ?thesis using inv by (simp add: dispatchInv_def closeFinishes_def updJob_def)
qed

lemma dispatchInv_cancelBoundary:
  assumes "dispatchInv d" "rd_graphics d = None \<or> (\<exists>j. rd_graphics d = Some j \<and> gj_running (rd_jobs d j))"
  shows "dispatchInv ((case rd_boundary d of None \<Rightarrow> d | Some b \<Rightarrow> updBoundary b (\<lambda>x. x\<lparr>bd_cancelled := True\<rparr>) d)\<lparr>rd_closed := True\<rparr>)"
proof (cases "rd_boundary d")
  case None
  then show ?thesis using dispatchInvD [OF assms(1)] assms(2) by (auto simp: dispatchInv_def graphicsOk_def closedOk_def)
next
  case (Some b)
  note inv = dispatchInvD [OF assms(1)]
  let ?d = "(updBoundary b (\<lambda>x. x\<lparr>bd_cancelled := True\<rparr>) d)\<lparr>rd_closed := True\<rparr>"
  have "insideOk ?d" using inv(3) by (simp add: updBoundary_def insideOk_def)
  moreover have "doneOk ?d" using inv(4) by (auto simp: updBoundary_def doneOk_def)
  moreover have "graphicsOk ?d" using inv(6) assms(2) by (auto simp: updBoundary_def graphicsOk_def)
  moreover have "waitOk ?d" using inv(7) by (auto simp: updBoundary_def waitOk_def)
  moreover have "closedOk ?d" using Some by (simp add: updBoundary_def closedOk_def)
  moreover have "callerOk ?d (rd_caller ?d)" using inv(5) by (cases "rd_caller d") (auto simp: updBoundary_def)
  ultimately show ?thesis using inv Some by (simp add: dispatchInv_def updBoundary_def)
qed

lemma dispatchInv_takeJob:
  assumes "dispatchInv d" "rd_graphics d = Some j" "\<not> gj_running (rd_jobs d j)"
  shows "dispatchInv (d\<lparr>rd_graphics := None, rd_closing := j # rd_closing d\<rparr>)"
proof -
  note inv = dispatchInvD [OF assms(1)]
  have g: "rd_ownerWaits d = Some j" "\<not> gj_done (rd_jobs d j)" "j \<notin> set (rd_closing d)" "j \<notin> set (rd_ran d)" "j < rd_nextJob d"
    using inv(6,7) assms by (auto simp: graphicsOk_def waitOk_def)
  let ?d = "d\<lparr>rd_graphics := None, rd_closing := j # rd_closing d\<rparr>"
  have "graphicsOk ?d" by (simp add: graphicsOk_def)
  moreover have "waitOk ?d" using inv(7) g by (simp add: waitOk_def)
  moreover have "ranOk ?d" using inv(8) g by (simp add: ranOk_def)
  moreover have "callerOk ?d (rd_caller ?d)" using inv(5) assms by (cases "rd_caller d") auto
  ultimately show ?thesis using inv by (simp add: dispatchInv_def)
qed

lemma dispatchInv_close:
  assumes "dispatchInv d" shows "dispatchInv (closeDispatch d)"
proof (cases "rd_graphics d = None \<or> (\<exists>j. rd_graphics d = Some j \<and> gj_running (rd_jobs d j))")
  case True
  have "closeDispatch d = (case rd_boundary d of None \<Rightarrow> d | Some b \<Rightarrow> updBoundary b (\<lambda>x. x\<lparr>bd_cancelled := True\<rparr>) d)\<lparr>rd_closed := True\<rparr>"
    using True by (auto simp: closeDispatch_def updBoundary_def split: option.splits)
  then show ?thesis using dispatchInv_cancelBoundary [OF assms True] by simp
next
  case False
  then obtain j where j: "rd_graphics d = Some j" "\<not> gj_running (rd_jobs d j)" by auto
  let ?d = "d\<lparr>rd_graphics := None, rd_closing := j # rd_closing d\<rparr>"
  have "closeDispatch d = (case rd_boundary ?d of None \<Rightarrow> ?d | Some b \<Rightarrow> updBoundary b (\<lambda>x. x\<lparr>bd_cancelled := True\<rparr>) ?d)\<lparr>rd_closed := True\<rparr>"
    using j by (simp add: closeDispatch_def updBoundary_def Let_def split: option.split)
  then show ?thesis using dispatchInv_cancelBoundary [OF dispatchInv_takeJob [OF assms j]] by simp
qed

lemma dispatchInv_body:
  assumes "dispatchInv d" "os_at (rd_owner d) = Executing r" "rd_of d r = Some b"
    and "bd_done (f (rd_boundaries d b)) = bd_done (rd_boundaries d b)"
      "bd_ownerExecuting (f (rd_boundaries d b)) = (bd_phase (f (rd_boundaries d b)) = Inside)"
      "bd_cancelled (rd_boundaries d b) \<longrightarrow> bd_cancelled (f (rd_boundaries d b))"
    and w: "rd_ownerWaits d = None"
  shows "dispatchInv (updBoundary b f d)"
proof -
  note inv = dispatchInvD [OF assms(1)]
  let ?d = "updBoundary b f d"
  have "insideOk ?d" using inv(3) assms(2,3,5) by (auto simp: updBoundary_def insideOk_def)
  moreover have "doneOk ?d" using inv(4) assms(4) by (auto simp: updBoundary_def doneOk_def)
  moreover have "waitOk ?d" using w by (simp add: updBoundary_def waitOk_def)
  moreover have "closedOk ?d" using inv(9) assms(6) by (auto simp: updBoundary_def closedOk_def)
  moreover have "callerOk ?d (rd_caller ?d)" using inv(5) assms(4) by (cases "rd_caller d") (auto simp: updBoundary_def)
  ultimately show ?thesis using inv by (simp add: dispatchInv_def updBoundary_def)
qed

lemma dispatchInv_owner:
  assumes "dispatchInv d" "ownerStep (rd_owner d) t" "os_at t \<noteq> os_at (rd_owner d) \<longrightarrow> workerFree d"
  shows "dispatchInv (afterOwner t d)"
proof -
  note inv = dispatchInvD [OF assms(1)]
  note keeps = ownerKeeps_step [OF assms(2)]
  have re: "serviceReach t" by (rule reach_step [OF inv(1) assms(2)])
  have ofOk': "ofOk (d\<lparr>rd_owner := t\<rparr>)" using inv(2) keeps by (fastforce simp: ofOk_def ownerKeeps_def)
  have insideOk': "insideOk (d\<lparr>rd_owner := t\<rparr>)"
  proof (cases "os_at t = os_at (rd_owner d)")
    case False
    have "bd_phase (rd_boundaries d b) \<noteq> Inside" for b
      using assms(3) False inv(3) unfolding workerFree_def insideOk_def by fastforce
    then show ?thesis using inv(3) by (simp add: insideOk_def)
  qed (use inv(3) in \<open>simp add: insideOk_def\<close>)
  show ?thesis
  proof (cases "\<exists>r ok b. completedNow (rd_owner d) t = Some (r, ok) \<and> rd_of d r = Some b")
    case False
    then have e: "afterOwner t d = d\<lparr>rd_owner := t\<rparr>" by (auto simp: afterOwner_def split: option.splits)
    have "completions r (os_log t) = completions r (os_log (rd_owner d))" if "rd_of d r = Some b" for r b
      using False that completions_step [OF keeps, of r] by (auto split: option.splits)
    then have "doneOk (d\<lparr>rd_owner := t\<rparr>)" using inv(4) by (auto simp: doneOk_def)
    then show ?thesis using inv re ofOk' insideOk' by (simp add: dispatchInv_def e)
  next
    case True
    then obtain r ok b where r: "completedNow (rd_owner d) t = Some (r, ok)" "rd_of d r = Some b" by blast
    then have e: "afterOwner t d = boundaryCompleted b ok (d\<lparr>rd_owner := t\<rparr>)" by (simp add: afterOwner_def)
    have cs: "completions r' (os_log t) = (if r' = r then ok # completions r (os_log (rd_owner d)) else completions r' (os_log (rd_owner d)))" for r'
      using completions_step [OF keeps, of r'] r(1) by auto
    have inj: "rd_of d r' = Some b \<Longrightarrow> r' = r" for r' using inv(2) r(2) by (auto simp: ofOk_def)
    let ?d = "boundaryCompleted b ok (d\<lparr>rd_owner := t\<rparr>)"
    have "ofOk ?d" using ofOk' by (simp add: boundaryCompleted_def updBoundary_def)
    moreover have "insideOk ?d" using insideOk' by (simp add: boundaryCompleted_def updBoundary_def insideOk_def)
    moreover have "doneOk ?d" unfolding doneOk_def
    proof (intro allI impI)
      fix r' b' assume "rd_of ?d r' = Some b'"
      then have "rd_of d r' = Some b'" by (simp add: boundaryCompleted_def updBoundary_def)
      moreover from this have "b' = b \<longleftrightarrow> r' = r" using inj [of r'] r(2) by fastforce
      ultimately show "(bd_done (rd_boundaries ?d b') \<longleftrightarrow> completions r' (os_log (rd_owner ?d)) \<noteq> []) \<and>
          (rd_boundary ?d \<noteq> Some b' \<longrightarrow> bd_done (rd_boundaries ?d b'))"
        using inv(4) by (auto simp: boundaryCompleted_def updBoundary_def doneOk_def cs)
    qed
    moreover have "waitOk ?d" using inv(7) by (auto simp: boundaryCompleted_def updBoundary_def waitOk_def)
    moreover have "closedOk ?d" using inv(9) by (auto simp: boundaryCompleted_def updBoundary_def closedOk_def)
    moreover have "callerOk ?d (rd_caller ?d)" using inv(5) r(2) by (cases "rd_caller d") (auto simp: boundaryCompleted_def updBoundary_def)
    ultimately show ?thesis using inv re by (simp add: dispatchInv_def e boundaryCompleted_def updBoundary_def)
  qed
qed

lemma dispatchInv_step:
  assumes "dispatchInv d" "dispatchStep d d'" shows "dispatchInv d'"
  using assms(2)
proof (cases rule: dispatchStep.cases)
  case (bodyStarts r b)
  note inv = dispatchInvD [OF assms(1)]
  have "rd_ownerWaits d = None"
  proof (cases "rd_ownerWaits d")
    case (Some j)
    then obtain b' where "bd_phase (rd_boundaries d b') = Inside" using inv(7) by (auto simp: waitOk_def)
    then show ?thesis using inv(3) bodyStarts by (auto simp: insideOk_def)
  qed
  then show ?thesis using bodyStarts dispatchInv_body [OF assms(1), of r b] inv(3) by (auto simp: bodyBegins_def insideOk_def)
next
  case (bodyStops r b)
  then show ?thesis using dispatchInv_body [OF assms(1), of r b] by (auto simp: bodyEnds_def)
qed (use assms(1) in \<open>auto intro: dispatchInv_bind dispatchInv_enter dispatchInv_submit dispatchInv_rejected dispatchInv_turn
  dispatchInv_jobEnds dispatchInv_ask dispatchInv_answer dispatchInv_close dispatchInv_closeDone dispatchInv_owner\<close>)

section \<open>Every reachable state\<close>

definition freshDispatch :: "RenderDispatch \<Rightarrow> bool" where
  "freshDispatch d \<longleftrightarrow> serviceReach (rd_owner d) \<and> d = newDispatch (rd_owner d)"

interpretation rd: step_machine freshDispatch dispatchStep dispatchInv
proof
  fix d assume "freshDispatch d"
  then have d: "serviceReach (rd_owner d)" "d = newDispatch (rd_owner d)" by (auto simp: freshDispatch_def)
  have "dispatchInv (newDispatch (rd_owner d))"
    using d(1) by (simp add: newDispatch_def freshBoundary_def newJob_def dispatchInv_defs)
  then show "dispatchInv d" using d(2) by simp
qed (rule dispatchInv_step)

text \<open>
  C23: a graphics job runs on the render thread only inside its boundary: the render thread is in \<^verbatim>\<open>invokeOwner\<close>, the owner
  executes the callback of exactly that call, has begun and not ended it, and waits for exactly that job; no
  other owner work can have asked for it.
\<close>

theorem graphics_inside_boundary:
  assumes "reach freshDispatch dispatchStep d" "rd_caller d = RunningJob b j"
  shows "rd_boundary d = Some b \<and> bd_ownerExecuting (rd_boundaries d b) \<and> rd_ownerWaits d = Some j \<and>
    (\<exists>r. os_at (rd_owner d) = Executing r \<and> rd_of d r = Some b)"
proof -
  note inv = dispatchInvD [OF rd.reach_inv [OF assms(1)]]
  have b: "rd_boundary d = Some b" and g: "rd_graphics d = Some j" using inv(5) assms(2) by auto
  then have w: "rd_ownerWaits d = Some j" using inv(6) by (simp add: graphicsOk_def)
  then obtain b' where b': "bd_phase (rd_boundaries d b') = Inside" using inv(7) by (auto simp: waitOk_def)
  then have "b' = b" using inside_is_slot [OF inv(1-4) b'] b by simp
  then show ?thesis using b w b' inv(3) by (auto simp: insideOk_def)
qed

text \<open>
  When \<^verbatim>\<open>invokeOwner\<close> has returned nothing of it is left: no job is pending, the owner waits for none and is in no
  callback of the dispatcher, the boundaries handed to the owner are all completed, and the dispatcher may be destroyed.
\<close>

theorem boundary_left_clean:
  assumes "reach freshDispatch dispatchStep d" "rd_caller d = Outside"
  shows "mayDestroyDispatch d \<and> rd_ownerWaits d = None \<and> (\<forall>b. \<not> bd_ownerExecuting (rd_boundaries d b)) \<and>
    (\<forall>r b. rd_of d r = Some b \<longrightarrow> bd_done (rd_boundaries d b))"
proof -
  note inv = dispatchInvD [OF rd.reach_inv [OF assms(1)]]
  have b: "rd_boundary d = None" using inv(5) assms(2) by simp
  have ins: "bd_phase (rd_boundaries d x) \<noteq> Inside" for x using inside_is_slot [OF inv(1-4), of x] b by auto
  then have w: "rd_ownerWaits d = None" "rd_graphics d = None" using inv(6,7) by (auto simp: waitOk_def graphicsOk_def)
  then show ?thesis using ins b inv(3,4) by (auto simp: mayDestroyDispatch_def insideOk_def doneOk_def)
qed

lemma count_list_distinct: "distinct xs \<Longrightarrow> x \<in> set xs \<Longrightarrow> count_list xs x = 1"
  by (induction xs) auto

text \<open>
  The owner is never left waiting for a job: it is done, or the render thread runs it or will take it in the loop
  it is in, or a close that took it is about to finish it; and a job that succeeded was run, once.
\<close>

theorem job_is_served:
  assumes "reach freshDispatch dispatchStep d" "rd_ownerWaits d = Some j"
  shows "(gj_done (rd_jobs d j) \<or> j \<in> set (rd_closing d) \<or>
      rd_graphics d = Some j \<and> (\<exists>b. rd_caller d = Looping b \<or> rd_caller d = RunningJob b j)) \<and>
    (gj_done (rd_jobs d j) \<and> gj_success (rd_jobs d j) \<longrightarrow> count_list (rd_ran d) j = 1)"
proof -
  note inv = dispatchInvD [OF rd.reach_inv [OF assms(1)]]
  obtain b' where b': "bd_phase (rd_boundaries d b') = Inside" and j: "j < rd_nextJob d"
      "gj_done (rd_jobs d j) \<or> rd_graphics d = Some j \<or> j \<in> set (rd_closing d)" using inv(7) assms(2) by (auto simp: waitOk_def)
  obtain r where "rd_of d r = Some b'" using inv(3) b' by (auto simp: insideOk_def)
  then have "\<exists>b. rd_caller d = Looping b \<or> rd_caller d = RunningJob b j" if "rd_graphics d = Some j"
    using inside_is_slot [OF inv(1-4) b'] inv(5) that by (cases "rd_caller d") auto
  moreover have "count_list (rd_ran d) j = 1" if "j \<in> set (rd_ran d)"
    using inv(8) that by (simp add: ranOk_def count_list_distinct)
  ultimately show ?thesis using j inv(8) by (auto simp: ranOk_def)
qed

text \<open>
  The render thread is not left in its loop either: as long as its boundary is not done the owner still has the
  request, so once every request of the owner is finished, as a stop that returns guarantees, the loop ends.
\<close>

theorem caller_released:
  assumes "reach freshDispatch dispatchStep d" "rd_caller d = Looping b"
  shows "\<exists>r. rd_of d r = Some b \<and> r < os_next (rd_owner d) \<and>
    (sr_done (os_requests (rd_owner d) r) \<longrightarrow> bd_done (rd_boundaries d b))"
proof -
  note inv = dispatchInvD [OF rd.reach_inv [OF assms(1)]]
  obtain r where r: "rd_of d r = Some b" using inv(5) assms(2) by auto
  then have n: "r < os_next (rd_owner d)" "sr_wanted (os_requests (rd_owner d) r)" using inv(2) by (auto simp: ofOk_def)
  have "standing (rd_owner d) r" using os.reach_inv [OF inv(1)] n(1) by (auto simp: ownerInv_def intro: placeInvD)
  then have "sr_done (os_requests (rd_owner d) r) \<Longrightarrow> completions r (os_log (rd_owner d)) \<noteq> []"
    using n(2) by (auto simp: requestPlaceOk_def answered_def untouched_def)
  then show ?thesis using r n(1) inv(4) by (auto simp: doneOk_def)
qed

section \<open>A run\<close>

text \<open>The render thread enters, the owner takes its callback, asks for one job and ends.\<close>

definition demoOwner :: OwnerService where
  "demoOwner = runBegins (snd (startService False True newOwnerService))"

definition demoSubmitted :: RenderDispatch where
  "demoSubmitted = invokeOwnerSubmit 0 True (snd (invokeOwnerEnter True (snd (bindRenderThread (newDispatch demoOwner)))))"

definition demoAsked :: RenderDispatch where
  "demoAsked = snd (invokeGraphics False (bodyBegins 0 (afterOwner (runTakes (rd_owner demoSubmitted)) demoSubmitted)))"

definition demoRunning :: RenderDispatch where
  "demoRunning = snd (invokeOwnerTurn 0 demoAsked)"

definition demoAnswered :: RenderDispatch where
  "demoAnswered = bodyEnds 0 (snd (invokeGraphicsReturns 0 (jobEnds 0 0 True demoRunning)))"

definition demoLeft :: RenderDispatch where
  "demoLeft = snd (invokeOwnerTurn 0 (afterOwner (callbackEnds 0 True (rd_owner demoAnswered)) demoAnswered))"

lemmas demoDispatch_defs = demoOwner_def demoSubmitted_def demoAsked_def demoRunning_def demoAnswered_def demoLeft_def
  newDispatch_def freshBoundary_def newJob_def bindRenderThread_def onRenderThread_def invokeOwnerEnter_def invokeOwnerSubmit_def
  invokeGraphics_def invokeGraphicsReturns_def jobEnds_def invokeOwnerTurn_def bodyBegins_def bodyEnds_def updBoundary_def updJob_def
  afterOwner_def completedNow_def boundaryCompleted_def workerFree_def newOwnerService_def newServiceRequest_def serviceCapacity_def
  startService_def submitRequest_def mayQueue_def enqueue_def runBegins_def runTakes_def callbackEnds_def completeRequest_def
  releaseCallback_def

lemma demoSubmitted_reached: "reach freshDispatch dispatchStep demoSubmitted"
proof -
  have s: "serviceReach (snd (startService False True newOwnerService))"
    by (rule reach_step [OF reach_init]) (auto simp: ownerStep_def intro: callStep.starts)
  have "serviceReach demoOwner" unfolding demoOwner_def
    by (rule reach_step [OF s]) (auto simp: ownerStep_def startService_def newOwnerService_def intro: workStep.runs)
  then have "reach freshDispatch dispatchStep (newDispatch demoOwner)"
    by (intro reach_init) (simp add: freshDispatch_def, simp add: newDispatch_def)
  then have b: "reach freshDispatch dispatchStep (snd (bindRenderThread (newDispatch demoOwner)))"
    by (rule reach_step) (rule dispatchStep.binds)
  have r: "reach freshDispatch dispatchStep (snd (invokeOwnerEnter True (snd (bindRenderThread (newDispatch demoOwner)))))"
    by (rule reach_step [OF b dispatchStep.enters]) (simp add: newDispatch_def bindRenderThread_def)
  show ?thesis unfolding demoSubmitted_def
    by (rule reach_step [OF r dispatchStep.submitted]) (simp add: newDispatch_def bindRenderThread_def invokeOwnerEnter_def onRenderThread_def)
qed

lemma demoRunning_reached: "reach freshDispatch dispatchStep demoRunning"
proof -
  define t where "t = runTakes (rd_owner demoSubmitted)"
  define d where "d = afterOwner t demoSubmitted"
  have t: "dispatchStep demoSubmitted d" unfolding d_def
  proof (rule dispatchStep.ownerMoves)
    show "ownerStep (rd_owner demoSubmitted) t" unfolding t_def ownerStep_def
      by (intro disjI2 workStep.takes) (simp add: demoDispatch_defs)
  qed (simp add: demoDispatch_defs)
  have "dispatchStep d (bodyBegins 0 d)" by (rule dispatchStep.bodyStarts [of _ 0]) (simp_all add: d_def t_def demoDispatch_defs)
  moreover have "dispatchStep (bodyBegins 0 d) demoAsked" unfolding demoAsked_def d_def t_def
    by (rule dispatchStep.asks) (simp_all add: demoDispatch_defs)
  moreover have "dispatchStep demoAsked demoRunning" unfolding demoRunning_def
    by (rule dispatchStep.turns) (simp_all add: demoDispatch_defs)
  ultimately show ?thesis using t demoSubmitted_reached by (meson reach_step)
qed

lemma demoLeft_reached: "reach freshDispatch dispatchStep demoLeft"
proof -
  define d where "d = snd (invokeGraphicsReturns 0 (jobEnds 0 0 True demoRunning))"
  define e where "e = afterOwner (callbackEnds 0 True (rd_owner demoAnswered)) demoAnswered"
  have "dispatchStep demoRunning (jobEnds 0 0 True demoRunning)" by (rule dispatchStep.jobDone) (simp add: demoDispatch_defs)
  moreover have "dispatchStep (jobEnds 0 0 True demoRunning) d" unfolding d_def
    by (rule dispatchStep.answered) (simp_all add: demoDispatch_defs)
  moreover have "dispatchStep d demoAnswered" unfolding demoAnswered_def d_def
    by (rule dispatchStep.bodyStops [of _ 0]) (simp_all add: demoDispatch_defs)
  moreover have "dispatchStep demoAnswered e" unfolding e_def
  proof (rule dispatchStep.ownerMoves)
    show "ownerStep (rd_owner demoAnswered) (callbackEnds 0 True (rd_owner demoAnswered))" unfolding ownerStep_def
      by (intro disjI2 workStep.returns) (simp_all add: demoDispatch_defs)
  qed (simp add: demoDispatch_defs)
  moreover have "dispatchStep e demoLeft" unfolding demoLeft_def e_def
    by (rule dispatchStep.turns) (simp_all add: demoDispatch_defs)
  ultimately show ?thesis using demoRunning_reached by (meson reach_step)
qed

theorem graphics_inside_boundary_witness:
  "rd_caller demoRunning = RunningJob 0 0 \<and> bd_ownerExecuting (rd_boundaries demoRunning 0) \<and> rd_ownerWaits demoRunning = Some 0"
proof -
  have "rd_caller demoRunning = RunningJob 0 0" by (simp add: demoDispatch_defs)
  then show ?thesis using graphics_inside_boundary [OF demoRunning_reached] by blast
qed

theorem boundary_left_clean_witness: "rd_of demoLeft 0 = Some 0 \<and> mayDestroyDispatch demoLeft \<and> bd_done (rd_boundaries demoLeft 0)"
proof -
  have "rd_caller demoLeft = Outside" "rd_of demoLeft 0 = Some 0" by (simp_all add: demoDispatch_defs)
  then show ?thesis using boundary_left_clean [OF demoLeft_reached] by blast
qed

theorem job_is_served_witness: "rd_ownerWaits demoRunning = Some 0 \<and> rd_graphics demoRunning = Some 0"
proof -
  have "rd_ownerWaits demoRunning = Some 0" "\<not> gj_done (rd_jobs demoRunning 0)" "rd_closing demoRunning = []" by (simp_all add: demoDispatch_defs)
  then show ?thesis using job_is_served [OF demoRunning_reached, of 0] by simp
qed

theorem caller_released_witness: "\<exists>r. rd_of demoSubmitted r = Some 0 \<and> r < os_next (rd_owner demoSubmitted)"
proof -
  have "rd_caller demoSubmitted = Looping 0" by (simp add: demoDispatch_defs)
  then show ?thesis using caller_released [OF demoSubmitted_reached] by blast
qed

end
