(* ===== verification/DxbcContainer.thy ===== *)
theory DxbcContainer
  imports Prelude
begin

text \<open>
  \<^verbatim>\<open>src/d3d11/dxbc_container.h\<close>: shader containers. Bytes are 8-bit words, tokens 32-bit words, sizes and offsets naturals; a
  conversion of a size to 32 bits is written out. A function that throws returns the message. The checksum
  \<^verbatim>\<open>ComputeHashRetail\<close> is vendored code and an argument: it maps the bytes it covers to its sixteen bytes.
\<close>

type_synonym byte = "8 word"
type_synonym 'a thrown = "string + 'a"

record SignatureElement =
  se_name :: "byte list"
  se_semanticIndex :: u32
  se_systemValue :: u32
  se_componentType :: u32
  se_registerIndex :: u32
  se_masks :: u32

record Chunk =
  ch_tag :: u32
  ch_bytes :: "byte list"

section \<open>Words in bytes\<close>

definition leWord :: "byte list \<Rightarrow> nat \<Rightarrow> u32" where
  "leWord bs k = word_of_nat (unat (bs ! k) + 256 * unat (bs ! (k + 1)) + 65536 * unat (bs ! (k + 2)) + 16777216 * unat (bs ! (k + 3)))"

definition wordBytes :: "u32 \<Rightarrow> byte list" where
  "wordBytes w = [word_of_nat (unat w), word_of_nat (unat w div 256), word_of_nat (unat w div 65536), word_of_nat (unat w div 16777216)]"

definition wordAt :: "byte list \<Rightarrow> nat \<Rightarrow> u32 thrown" where
  "wordAt bs k = (if length bs < k \<or> length bs - k < 4 then Inl ''bounds'' else Inr (leWord bs k))"

definition putWord :: "byte list \<Rightarrow> u32 \<Rightarrow> byte list" where
  "putWord bs w = bs @ wordBytes w"

definition setWord :: "byte list \<Rightarrow> nat \<Rightarrow> u32 \<Rightarrow> byte list thrown" where
  "setWord bs k w = (if length bs < k \<or> length bs - k < 4 then Inl ''bounds'' else Inr (take k bs @ wordBytes w @ drop (k + 4) bs))"

section \<open>Names and instructions\<close>

definition lowerByte :: "byte \<Rightarrow> byte" where
  "lowerByte b = (if 65 \<le> b \<and> b \<le> 90 then b + 32 else b)"

definition cName :: "byte list \<Rightarrow> byte list" where
  "cName bs = takeWhile (\<lambda>b. b \<noteq> 0) bs"

definition equalName :: "byte list \<Rightarrow> byte list \<Rightarrow> bool" where
  "equalName a b \<longleftrightarrow> map lowerByte (cName a) = map lowerByte b"

definition startsWithName :: "byte list \<Rightarrow> byte list \<Rightarrow> bool" where
  "startsWithName a b \<longleftrightarrow> map lowerByte (take (length b) (cName a)) = map lowerByte b"

definition opcodeOf :: "u32 \<Rightarrow> u32" where
  "opcodeOf t = and t 0x7FF"

definition instructionLength :: "u32 list \<Rightarrow> nat \<Rightarrow> u32 thrown" where
  "instructionLength tokens at =
     (if length tokens \<le> at then Inl ''instruction bounds''
      else bindE
        (if opcodeOf (tokens ! at) = 53
         then if drop_bit 11 (tokens ! at) \<noteq> 3 \<or> length tokens \<le> at + 1 then Inl ''unsupported custom data''
              else if tokens ! (at + 1) < 2 \<or> (tokens ! (at + 1) - 2) mod 4 \<noteq> 0 then Inl ''constant buffer length''
              else Inr (tokens ! (at + 1))
         else Inr (and (drop_bit 24 (tokens ! at)) 127))
        (\<lambda>len. if len = 0 \<or> length tokens - at < unat len then Inl ''instruction length'' else Inr len))"

section \<open>Signatures\<close>

definition parseElement :: "byte list \<Rightarrow> nat \<Rightarrow> SignatureElement thrown" where
  "parseElement bs i =
     (let at = 8 + i * 24 in
      bindE (wordAt bs at) (\<lambda>nameOffset.
      if length bs \<le> unat nameOffset then Inl ''signature name''
      else let rest = drop (unat nameOffset) bs; name = takeWhile (\<lambda>b. b \<noteq> 0) rest in
      if length name = length rest \<or> name = [] then Inl ''signature name''
      else bindE (wordAt bs (at + 4)) (\<lambda>semanticIndex.
      bindE (wordAt bs (at + 8)) (\<lambda>systemValue.
      bindE (wordAt bs (at + 12)) (\<lambda>componentType.
      bindE (wordAt bs (at + 16)) (\<lambda>registerIndex.
      bindE (wordAt bs (at + 20)) (\<lambda>masks.
      Inr \<lparr>se_name = name, se_semanticIndex = semanticIndex, se_systemValue = systemValue, se_componentType = componentType,
           se_registerIndex = registerIndex, se_masks = masks\<rparr>)))))))"

definition parseSignature :: "byte list \<Rightarrow> SignatureElement list thrown" where
  "parseSignature bs =
     (if length bs < 8 then Inl ''signature header''
      else bindE (wordAt bs 4) (\<lambda>h.
      if h \<noteq> 8 then Inl ''signature header''
      else bindE (wordAt bs 0) (\<lambda>count.
      if 128 < count \<or> length bs < 8 + unat count * 24 then Inl ''signature entries''
      else mapE (parseElement bs) [0..<unat count])))"

function pad4 :: "byte list \<Rightarrow> byte list" where
  "pad4 bs = (if length bs mod 4 = 0 then bs else pad4 (bs @ [0xAB]))"
  by auto
termination
proof (relation "measure (\<lambda>bs. if length bs mod 4 = 0 then 0 else 4 - length bs mod 4)")
  fix bs :: "byte list"
  assume "length bs mod 4 \<noteq> 0"
  moreover have "length bs mod 4 < 4" by simp
  ultimately show "(bs @ [0xAB], bs) \<in> measure (\<lambda>bs. if length bs mod 4 = 0 then 0 else 4 - length bs mod 4)"
    by (auto simp: mod_Suc)
qed simp

declare pad4.simps [simp del]

definition putElement :: "nat \<Rightarrow> SignatureElement \<Rightarrow> byte list \<Rightarrow> byte list thrown" where
  "putElement i e bs =
     (if se_name e = [] \<or> 255 < length (se_name e) \<or> 32 \<le> se_registerIndex e then Inl ''signature element''
      else let at = 8 + i * 24 in
        bindE (setWord (pad4 (bs @ se_name e @ [0])) at (word_of_nat (length bs))) (\<lambda>r.
        bindE (setWord r (at + 4) (se_semanticIndex e)) (\<lambda>r.
        bindE (setWord r (at + 8) (se_systemValue e)) (\<lambda>r.
        bindE (setWord r (at + 12) (se_componentType e)) (\<lambda>r.
        bindE (setWord r (at + 16) (se_registerIndex e)) (\<lambda>r.
        setWord r (at + 20) (se_masks e)))))))"

fun putElements :: "nat \<Rightarrow> SignatureElement list \<Rightarrow> byte list \<Rightarrow> byte list thrown" where
  "putElements i [] bs = Inr bs"
| "putElements i (e # es) bs = bindE (putElement i e bs) (putElements (Suc i) es)"

definition makeSignature :: "SignatureElement list \<Rightarrow> byte list thrown" where
  "makeSignature es =
     (if es = [] \<or> 128 < length es then Inl ''signature count''
      else putElements 0 es (putWord (putWord [] (word_of_nat (length es))) 8 @ replicate (length es * 24) 0))"

section \<open>Containers\<close>

definition dxbcTag :: "byte list" where
  "dxbcTag = [0x44, 0x58, 0x42, 0x43]"

definition isProgram :: "u32 \<Rightarrow> bool" where
  "isProgram tag \<longleftrightarrow> tag = 0x58454853 \<or> tag = 0x52444853"

definition checkProgram :: "u32 \<Rightarrow> bool \<Rightarrow> byte list \<Rightarrow> unit thrown" where
  "checkProgram programType program bs =
     (if program \<or> length bs < 8 \<or> length bs mod 4 \<noteq> 0 then Inl ''program header''
      else bindE (wordAt bs 0) (\<lambda>t. if t \<noteq> programType then Inl ''program header''
      else bindE (wordAt bs 4) (\<lambda>n. if unat n \<noteq> length bs div 4 then Inl ''program header'' else Inr ())))"

definition parseChunk :: "byte list \<Rightarrow> nat \<Rightarrow> Chunk thrown" where
  "parseChunk bs i =
     bindE (wordAt bs (32 + i * 4)) (\<lambda>offset.
     if length bs < unat offset \<or> length bs - unat offset < 8 then Inl ''chunk bounds''
     else bindE (wordAt bs (unat offset)) (\<lambda>tag.
     bindE (wordAt bs (unat offset + 4)) (\<lambda>size.
     if length bs - unat offset - 8 < unat size then Inl ''chunk bounds''
     else Inr \<lparr>ch_tag = tag, ch_bytes = take (unat size) (drop (unat offset + 8) bs)\<rparr>)))"

fun parseChunks :: "u32 \<Rightarrow> byte list \<Rightarrow> bool \<Rightarrow> nat list \<Rightarrow> (bool \<times> Chunk list) thrown" where
  "parseChunks programType bs program [] = Inr (program, [])"
| "parseChunks programType bs program (i # is) =
     bindE (parseChunk bs i) (\<lambda>c.
     bindE (if isProgram (ch_tag c) then checkProgram programType program (ch_bytes c) else Inr ()) (\<lambda>_.
     bindE (parseChunks programType bs (program \<or> isProgram (ch_tag c)) is) (\<lambda>(p, cs).
     Inr (p, c # cs))))"

definition parseContainer :: "(byte list \<Rightarrow> byte list) \<Rightarrow> byte list \<Rightarrow> u32 \<Rightarrow> Chunk list thrown" where
  "parseContainer hash bs programType =
     (if length bs < 32 \<or> 1024 * 1024 < length bs then Inl ''bytecode size''
      else if take 4 bs \<noteq> dxbcTag then Inl ''container''
      else bindE (wordAt bs 24) (\<lambda>total. if unat total \<noteq> length bs then Inl ''container''
      else bindE (wordAt bs 28) (\<lambda>count. if 128 < count then Inl ''container''
      else if hash (drop 20 bs) \<noteq> take 16 (drop 4 bs) then Inl ''input checksum''
      else if length bs < 32 + unat count * 4 then Inl ''chunk table''
      else bindE (parseChunks programType bs False [0..<unat count]) (\<lambda>(program, chunks).
      if program then Inr chunks else Inl ''missing program''))))"

definition putChunk :: "nat \<Rightarrow> Chunk \<Rightarrow> byte list \<Rightarrow> byte list thrown" where
  "putChunk i c bs =
     bindE (setWord (pad4 bs) (32 + i * 4) (word_of_nat (length (pad4 bs)))) (\<lambda>r.
     Inr (putWord (putWord r (ch_tag c)) (word_of_nat (length (ch_bytes c))) @ ch_bytes c))"

fun putChunks :: "nat \<Rightarrow> Chunk list \<Rightarrow> byte list \<Rightarrow> byte list thrown" where
  "putChunks i [] bs = Inr bs"
| "putChunks i (c # cs) bs = bindE (putChunk i c bs) (putChunks (Suc i) cs)"

definition makeContainer :: "(byte list \<Rightarrow> byte list) \<Rightarrow> Chunk list \<Rightarrow> byte list thrown" where
  "makeContainer hash chunks =
     (if chunks = [] \<or> 128 < length chunks then Inl ''chunk count''
      else bindE (setWord (dxbcTag @ replicate (28 + length chunks * 4) 0) 20 1) (\<lambda>r.
      bindE (setWord r 28 (word_of_nat (length chunks))) (\<lambda>r.
      bindE (putChunks 0 chunks r) (\<lambda>r.
      bindE (setWord r 24 (word_of_nat (length r))) (\<lambda>r.
      Inr (take 4 r @ hash (drop 20 r) @ drop 20 r))))))"

end
