(* ===== verification/DxbcProps.thy ===== *)
theory DxbcProps
  imports DxbcContainer
begin

text \<open>
  Shader containers and signatures: what is written reads back, and no read goes past the end. \<open>keepsOutside\<close> says that
  a step of the writers changes nothing but a range and appends; the writers are followed through it.
\<close>

section \<open>Words in bytes\<close>

lemma unat_byte: "unat (word_of_nat n :: byte) = n mod 256"
  by (simp add: unat_of_nat take_bit_eq_mod)

lemma four_bytes:
  assumes "(n :: nat) < 4294967296"
  shows "n mod 256 + 256 * (n div 256 mod 256) + 65536 * (n div 65536 mod 256) + 16777216 * (n div 16777216 mod 256) = n"
proof -
  define a b c where "a = n div 256" and "b = a div 256" and "c = b div 256"
  have "n div 65536 = b" "n div 16777216 = c" by (simp_all add: a_def b_def c_def div_mult2_eq [symmetric])
  moreover have "c < 256" using assms by (simp add: a_def b_def c_def div_mult2_eq [symmetric] less_mult_imp_div_less)
  moreover have "n = n mod 256 + 256 * a" "a = a mod 256 + 256 * b" "b = b mod 256 + 256 * c"
    by (simp_all add: a_def b_def c_def)
  ultimately show ?thesis unfolding a_def [symmetric] by simp
qed

lemma length_wordBytes [simp]: "length (wordBytes w) = 4"
  by (simp add: wordBytes_def)

lemma leWord_wordBytes: "(\<And>i. i < 4 \<Longrightarrow> bs ! (k + i) = wordBytes w ! i) \<Longrightarrow> leWord bs k = w"
proof -
  assume "\<And>i. i < 4 \<Longrightarrow> bs ! (k + i) = wordBytes w ! i"
  from this [of 0] this [of 1] this [of 2] this [of 3]
  have "bs ! k = word_of_nat (unat w)" "bs ! (k + 1) = word_of_nat (unat w div 256)"
    "bs ! (k + 2) = word_of_nat (unat w div 65536)" "bs ! (k + 3) = word_of_nat (unat w div 16777216)"
    by (simp_all add: wordBytes_def)
  moreover have "unat w < 2 ^ LENGTH(32)" by (rule unsigned_less)
  then have "unat w < 4294967296" by simp
  ultimately have "unat (bs ! k) + 256 * unat (bs ! (k + 1)) + 65536 * unat (bs ! (k + 2)) + 16777216 * unat (bs ! (k + 3)) = unat w"
    by (simp only: unat_byte four_bytes)
  then show "leWord bs k = w" by (simp only: leWord_def) simp
qed

lemma leWord_cong: "(\<And>i. k \<le> i \<Longrightarrow> i < k + 4 \<Longrightarrow> bs ! i = cs ! i) \<Longrightarrow> leWord bs k = leWord cs k"
  by (simp add: leWord_def)

lemma setWord_Inr:
  "setWord bs k w = Inr r \<longleftrightarrow> k + 4 \<le> length bs \<and> r = take k bs @ wordBytes w @ drop (k + 4) bs"
  by (auto simp: setWord_def)

lemma length_setWord: "setWord bs k w = Inr r \<Longrightarrow> length r = length bs"
  by (auto simp: setWord_Inr)

lemma nth_setWord:
  assumes "setWord bs k w = Inr r" "i < length bs"
  shows "r ! i = (if k \<le> i \<and> i < k + 4 then wordBytes w ! (i - k) else bs ! i)"
  using assms by (auto simp: setWord_Inr nth_append)

lemma leWord_setWord_same: "setWord bs k w = Inr r \<Longrightarrow> leWord r k = w"
  by (rule leWord_wordBytes) (auto simp: nth_setWord setWord_Inr nth_append)

lemma leWord_setWord_other: "setWord bs k w = Inr r \<Longrightarrow> j + 4 \<le> k \<or> k + 4 \<le> j \<Longrightarrow> j + 4 \<le> length bs \<Longrightarrow> leWord r j = leWord bs j"
  by (rule leWord_cong) (auto simp: nth_setWord)

lemma leWord_append: "k + 4 \<le> length bs \<Longrightarrow> leWord (bs @ cs) k = leWord bs k"
  by (rule leWord_cong) (simp add: nth_append)

lemma leWord_put: "leWord (bs @ wordBytes w @ cs) (length bs) = w"
  by (rule leWord_wordBytes) (simp add: nth_append)

section \<open>Padding\<close>

lemma pad4_prefix: "\<exists>p. pad4 bs = bs @ p \<and> length p < 4"
proof -
  have "\<exists>p. pad4 bs = bs @ p \<and> length p \<le> (4 - length bs mod 4) mod 4"
  proof (induction bs rule: pad4.induct)
    case (1 bs)
    show ?case
    proof (cases "length bs mod 4 = 0")
      case False
      then obtain p where "pad4 (bs @ [0xAB]) = (bs @ [0xAB]) @ p" "length p \<le> (4 - Suc (length bs) mod 4) mod 4" using 1 by auto
      moreover have "length bs mod 4 < 4" by simp
      ultimately show ?thesis using False by (intro exI [of _ "0xAB # p"]) (auto simp: pad4.simps [of bs] mod_Suc split: if_splits)
    qed (simp add: pad4.simps)
  qed
  then obtain p where "pad4 bs = bs @ p" "length p \<le> (4 - length bs mod 4) mod 4" by blast
  moreover have "(4 - length bs mod 4) mod 4 < (4 :: nat)" by simp
  ultimately show ?thesis by (meson le_less_trans)
qed

lemma length_pad4: "length bs \<le> length (pad4 bs)" "length (pad4 bs) < length bs + 4"
  using pad4_prefix [of bs] by auto

lemma nth_pad4: "i < length bs \<Longrightarrow> pad4 bs ! i = bs ! i"
  using pad4_prefix [of bs] by (auto simp: nth_append)

section \<open>Signatures\<close>

text \<open>
  \<open>T\<close> is the end of the table; an element is held when its entry in the table has its values and points at its
  name, past the table.
\<close>

definition holdsElement :: "nat \<Rightarrow> byte list \<Rightarrow> nat \<Rightarrow> SignatureElement \<Rightarrow> bool" where
  "holdsElement T bs i e \<longleftrightarrow>
     (let at = 8 + i * 24; n = length (se_name e); off = unat (leWord bs at) in
      at + 24 \<le> T \<and> T \<le> length bs \<and> T \<le> off \<and> off + n < length bs \<and> (\<forall>k < n. bs ! (off + k) = se_name e ! k) \<and>
      bs ! (off + n) = 0 \<and> leWord bs (at + 4) = se_semanticIndex e \<and> leWord bs (at + 8) = se_systemValue e \<and>
      leWord bs (at + 12) = se_componentType e \<and> leWord bs (at + 16) = se_registerIndex e \<and> leWord bs (at + 20) = se_masks e)"

definition keepsOutside :: "nat \<Rightarrow> nat \<Rightarrow> byte list \<Rightarrow> byte list \<Rightarrow> bool" where
  "keepsOutside lo hi bs r \<longleftrightarrow> length bs \<le> length r \<and> (\<forall>k < length bs. k < lo \<or> hi \<le> k \<longrightarrow> r ! k = bs ! k)"

lemma keepsOutside_trans: "keepsOutside lo hi a b \<Longrightarrow> keepsOutside lo hi b c \<Longrightarrow> keepsOutside lo hi a c"
  by (auto simp: keepsOutside_def)

lemma keepsOutside_mono: "keepsOutside lo hi a b \<Longrightarrow> lo' \<le> lo \<Longrightarrow> hi \<le> hi' \<Longrightarrow> keepsOutside lo' hi' a b"
  by (auto simp: keepsOutside_def)

lemma keepsOutside_setWord: "setWord bs k w = Inr r \<Longrightarrow> lo \<le> k \<Longrightarrow> k + 4 \<le> hi \<Longrightarrow> keepsOutside lo hi bs r"
  by (auto simp: keepsOutside_def nth_setWord length_setWord)

lemma keepsOutside_pad4: "keepsOutside lo hi bs (pad4 (bs @ xs))"
  using length_pad4(1) [of "bs @ xs"] by (auto simp: keepsOutside_def nth_pad4 nth_append)

lemma keepsOutside_leWord: "keepsOutside lo hi bs r \<Longrightarrow> k + 4 \<le> lo \<or> hi \<le> k \<Longrightarrow> k + 4 \<le> length bs \<Longrightarrow> leWord r k = leWord bs k"
  by (rule leWord_cong) (auto simp: keepsOutside_def)

lemma holdsElement_keeps:
  assumes "holdsElement T bs j e" "keepsOutside lo hi bs r" "hi \<le> 8 + j * 24 \<or> 8 + j * 24 + 24 \<le> lo" "hi \<le> T"
  shows "holdsElement T r j e"
proof -
  define at n off where "at = 8 + j * 24" and "n = length (se_name e)" and "off = unat (leWord bs at)"
  note h = assms(1) [unfolded holdsElement_def Let_def, folded at_def n_def off_def]
  have w: "leWord r (at + d) = leWord bs (at + d)" if "d + 4 \<le> 24" for d
    using keepsOutside_leWord [OF assms(2), of "at + d"] assms(3) h that at_def by auto
  have b: "r ! (off + k) = bs ! (off + k)" if "k \<le> n" for k using assms(2,4) h that by (auto simp: keepsOutside_def)
  have "length bs \<le> length r" using assms(2) by (simp add: keepsOutside_def)
  then show ?thesis using h w [of 0] w [of 4] w [of 8] w [of 12] w [of 16] w [of 20] b
    unfolding holdsElement_def Let_def at_def [symmetric] n_def [symmetric] by (simp add: off_def [symmetric])
qed

lemma holdsElement_parse:
  assumes "holdsElement T bs i e" "se_name e \<noteq> []" "0 \<notin> set (se_name e)"
  shows "parseElement bs i = Inr e"
proof -
  define at n off where "at = 8 + i * 24" and "n = length (se_name e)" and "off = unat (leWord bs at)"
  note h = assms(1) [unfolded holdsElement_def Let_def, folded at_def n_def off_def]
  have "take (Suc n) (drop off bs) = se_name e @ [0]"
    by (rule nth_equalityI) (use h in \<open>auto simp: n_def nth_append less_Suc_eq\<close>)
  then have d: "drop off bs = se_name e @ 0 # drop (off + Suc n) bs"
    by (metis append_take_drop_id append.assoc append_Cons append_Nil drop_drop add.commute)
  have "takeWhile (\<lambda>b. b \<noteq> 0) (drop off bs) = se_name e" unfolding d using assms(3) by (subst takeWhile_append2) auto
  moreover have "length (drop off bs) > n" using h by auto
  moreover have "wordAt bs (at + d) = Inr (leWord bs (at + d))" if "d + 4 \<le> 24" for d using h that by (auto simp: wordAt_def)
  from this [of 0] this [of 4] this [of 8] this [of 12] this [of 16] this [of 20]
  have "wordAt bs at = Inr (leWord bs at)" "wordAt bs (at + 4) = Inr (se_semanticIndex e)" "wordAt bs (at + 8) = Inr (se_systemValue e)"
    "wordAt bs (at + 12) = Inr (se_componentType e)" "wordAt bs (at + 16) = Inr (se_registerIndex e)" "wordAt bs (at + 20) = Inr (se_masks e)"
    using h by simp_all
  moreover have "off < length bs" using h by simp
  ultimately show ?thesis using assms(2) unfolding parseElement_def Let_def at_def [symmetric]
    by (simp add: off_def [symmetric] n_def)
qed

lemma putElement_held:
  assumes "putElement i e bs = Inr r" "8 + i * 24 + 24 \<le> T" "T \<le> length bs" "length bs < 4294967296"
  shows "keepsOutside (8 + i * 24) (8 + i * 24 + 24) bs r" "holdsElement T r i e" "length r \<le> length bs + 259"
    "se_name e \<noteq> []"
proof -
  define at n where "at = 8 + i * 24" and "n = length (se_name e)"
  define p where "p = pad4 (bs @ se_name e @ [0])"
  have n: "se_name e \<noteq> []" "n \<le> 255" using assms(1) by (auto simp: putElement_def n_def split: if_splits)
  then obtain r1 r2 r3 r4 r5 where
    s1: "setWord p at (word_of_nat (length bs)) = Inr r1" and s2: "setWord r1 (at + 4) (se_semanticIndex e) = Inr r2" and
    s3: "setWord r2 (at + 8) (se_systemValue e) = Inr r3" and s4: "setWord r3 (at + 12) (se_componentType e) = Inr r4" and
    s5: "setWord r4 (at + 16) (se_registerIndex e) = Inr r5" and s6: "setWord r5 (at + 20) (se_masks e) = Inr r"
    using assms(1) by (auto simp: putElement_def at_def p_def bindE_Inr Let_def split: if_splits)
  note len = length_setWord [OF s1] length_setWord [OF s2] length_setWord [OF s3] length_setWord [OF s4] length_setWord [OF s5] length_setWord [OF s6]
  have lp: "length bs + n + 1 \<le> length p" "length p \<le> length bs + n + 4"
    using length_pad4 [of "bs @ se_name e @ [0]"] by (auto simp: p_def n_def)
  have k: "keepsOutside at (at + 24) p r"
    by (rule keepsOutside_trans [OF keepsOutside_setWord [OF s1]], simp_all,
        rule keepsOutside_trans [OF keepsOutside_setWord [OF s2]], simp_all,
        rule keepsOutside_trans [OF keepsOutside_setWord [OF s3]], simp_all,
        rule keepsOutside_trans [OF keepsOutside_setWord [OF s4]], simp_all,
        rule keepsOutside_trans [OF keepsOutside_setWord [OF s5] keepsOutside_setWord [OF s6]], simp_all)
  show "keepsOutside (8 + i * 24) (8 + i * 24 + 24) bs r"
    using keepsOutside_trans [OF keepsOutside_pad4 k [unfolded p_def]] by (simp add: at_def)
  show "length r \<le> length bs + 259" using lp n len by simp
  show "se_name e \<noteq> []" by (rule n(1))
  have at: "at + 24 \<le> length p" using assms(2,3) lp by (simp add: at_def)
  have w: "leWord r at = word_of_nat (length bs)" "leWord r (at + 4) = se_semanticIndex e" "leWord r (at + 8) = se_systemValue e"
    "leWord r (at + 12) = se_componentType e" "leWord r (at + 16) = se_registerIndex e" "leWord r (at + 20) = se_masks e"
    using at len
    by (simp_all add: leWord_setWord_other [OF s6] leWord_setWord_other [OF s5] leWord_setWord_other [OF s4] leWord_setWord_other [OF s3]
      leWord_setWord_other [OF s2] leWord_setWord_same [OF s1] leWord_setWord_same [OF s2] leWord_setWord_same [OF s3]
      leWord_setWord_same [OF s4] leWord_setWord_same [OF s5] leWord_setWord_same [OF s6])
  have off: "unat (leWord r at) = length bs" using w(1) assms(4) by (simp add: unat_of_nat take_bit_eq_mod)
  have b: "r ! (length bs + j) = (se_name e @ [0]) ! j" if "j \<le> n" for j
  proof -
    have "r ! (length bs + j) = p ! (length bs + j)" using k that lp assms(2,3) by (auto simp: keepsOutside_def at_def)
    also have "\<dots> = (bs @ se_name e @ [0]) ! (length bs + j)" unfolding p_def using that by (intro nth_pad4) (simp add: n_def)
    finally show ?thesis by (simp add: nth_append)
  qed
  have "T \<le> length r" "length bs + n < length r" using lp len assms(3) by simp_all
  moreover have "\<forall>j < n. r ! (length bs + j) = se_name e ! j" "r ! (length bs + n) = 0"
    using b by (auto simp: nth_append n_def)
  ultimately show "holdsElement T r i e" using w(2-6) assms(2,3) unfolding holdsElement_def Let_def at_def [symmetric] n_def [symmetric]
    by (simp add: off at_def [symmetric])
qed

lemma putElements_held:
  assumes "putElements i es bs = Inr r" "8 + (i + length es) * 24 \<le> T" "T \<le> length bs" "length bs + length es * 259 < 4294967296"
  shows "keepsOutside (8 + i * 24) T bs r \<and> (\<forall>j < length es. holdsElement T r (i + j) (es ! j) \<and> se_name (es ! j) \<noteq> [])"
  using assms
proof (induction es arbitrary: i bs)
  case Nil
  then show ?case by (simp add: keepsOutside_def)
next
  case (Cons e es)
  then obtain r1 where r1: "putElement i e bs = Inr r1" "putElements (Suc i) es r1 = Inr r" by (auto simp: bindE_Inr)
  note p = putElement_held [OF r1(1), of T]
  have p1: "keepsOutside (8 + i * 24) (8 + i * 24 + 24) bs r1" "holdsElement T r1 i e" "length r1 \<le> length bs + 259" "se_name e \<noteq> []"
    using p Cons.prems by simp_all
  have "T \<le> length r1" using p1(1) Cons.prems(3) by (simp add: keepsOutside_def)
  then have ih: "keepsOutside (8 + Suc i * 24) T r1 r"
      "\<forall>j < length es. holdsElement T r (Suc i + j) (es ! j) \<and> se_name (es ! j) \<noteq> []"
    using Cons.IH [OF r1(2)] Cons.prems(2,4) p1(3) by simp_all
  have "holdsElement T r i e" by (rule holdsElement_keeps [OF p1(2) ih(1)]) simp_all
  moreover have "keepsOutside (8 + i * 24) T bs r"
    using keepsOutside_trans [OF keepsOutside_mono [OF p1(1)] keepsOutside_mono [OF ih(1)], of "8 + i * 24" T] Cons.prems(2) by simp
  ultimately show ?case using ih(2) p1(4) by (auto simp: nth_Cons less_Suc_eq_0_disj split: nat.splits)
qed

text \<open>
  A signature that \<^verbatim>\<open>makeSignature\<close> writes is read back by \<^verbatim>\<open>parseSignature\<close> as the same elements, in order, for names that
  hold no zero byte.
\<close>

lemma signature_reads_back:
  assumes "makeSignature es = Inr bs" "list_all (\<lambda>e. 0 \<notin> set (se_name e)) es"
  shows "parseSignature bs = Inr es"
proof -
  define hd' where "hd' = putWord (putWord [] (word_of_nat (length es))) 8 @ replicate (length es * 24) (0 :: byte)"
  define T where "T = 8 + length es * 24"
  have n: "es \<noteq> []" "length es \<le> 128" and p: "putElements 0 es hd' = Inr bs"
    using assms(1) by (auto simp: makeSignature_def hd'_def split: if_splits)
  have l: "length hd' = T" by (simp add: hd'_def T_def putWord_def)
  have w: "leWord hd' 0 = word_of_nat (length es)" "leWord hd' 4 = 8"
    using leWord_put [of "[]" "word_of_nat (length es)"] leWord_put [of "wordBytes (word_of_nat (length es))" 8]
    by (simp_all add: hd'_def putWord_def)
  have h: "keepsOutside 8 T hd' bs" "\<And>j. j < length es \<Longrightarrow> holdsElement T bs j (es ! j) \<and> se_name (es ! j) \<noteq> []"
    using putElements_held [OF p, of T] n l by (auto simp: T_def)
  have "leWord bs 0 = word_of_nat (length es)" "leWord bs 4 = 8"
    using keepsOutside_leWord [OF h(1), of 0] keepsOutside_leWord [OF h(1), of 4] w l by (simp_all add: T_def)
  moreover have "T \<le> length bs" using h(1) l by (simp add: keepsOutside_def)
  moreover have c: "unat (word_of_nat (length es) :: u32) = length es" using n by (simp add: unat_of_nat take_bit_eq_mod)
  moreover have "\<not> (128 < (word_of_nat (length es) :: u32))" using n c by (simp add: word_less_nat_alt)
  moreover have "mapE (parseElement bs) [0..<length es] = Inr es"
    unfolding mapE_Inr list_all2_conv_all_nth
    using h(2) assms(2) by (auto simp: list_all_length intro!: holdsElement_parse)
  ultimately show ?thesis by (simp add: parseSignature_def wordAt_def T_def)
qed

section \<open>Containers\<close>

definition holdsChunk :: "nat \<Rightarrow> byte list \<Rightarrow> nat \<Rightarrow> Chunk \<Rightarrow> bool" where
  "holdsChunk T bs i c \<longleftrightarrow>
     (let off = unat (leWord bs (32 + i * 4)); n = length (ch_bytes c) in
      32 + i * 4 + 4 \<le> T \<and> T \<le> off \<and> off + 8 + n \<le> length bs \<and> leWord bs off = ch_tag c \<and>
      leWord bs (off + 4) = word_of_nat n \<and> (\<forall>k < n. bs ! (off + 8 + k) = ch_bytes c ! k))"

lemma holdsChunk_keeps:
  assumes "holdsChunk T bs j c" "keepsOutside lo hi bs r" "hi \<le> 32 + j * 4 \<or> 32 + j * 4 + 4 \<le> lo" "hi \<le> T"
  shows "holdsChunk T r j c"
proof -
  define off n where "off = unat (leWord bs (32 + j * 4))" and "n = length (ch_bytes c)"
  note h = assms(1) [unfolded holdsChunk_def Let_def, folded off_def n_def]
  have "leWord r (32 + j * 4) = leWord bs (32 + j * 4)" using keepsOutside_leWord [OF assms(2), of "32 + j * 4"] assms(3) h by auto
  moreover have "leWord r off = leWord bs off" "leWord r (off + 4) = leWord bs (off + 4)"
    using keepsOutside_leWord [OF assms(2), of off] keepsOutside_leWord [OF assms(2), of "off + 4"] assms(4) h by simp_all
  moreover have "r ! (off + 8 + k) = bs ! (off + 8 + k)" if "k < n" for k using assms(2,4) h that by (auto simp: keepsOutside_def)
  moreover have "length bs \<le> length r" using assms(2) by (simp add: keepsOutside_def)
  ultimately show ?thesis using h unfolding holdsChunk_def Let_def n_def [symmetric] by (simp add: off_def [symmetric])
qed

lemma holdsChunk_parse:
  assumes "holdsChunk T bs i c" "length bs < 4294967296"
  shows "parseChunk bs i = Inr c"
proof -
  define off n where "off = unat (leWord bs (32 + i * 4))" and "n = length (ch_bytes c)"
  note h = assms(1) [unfolded holdsChunk_def Let_def, folded off_def n_def]
  have "take n (drop (off + 8) bs) = ch_bytes c" by (rule nth_equalityI) (use h in \<open>auto simp: n_def\<close>)
  moreover have "unat (word_of_nat n :: u32) = n" using h assms(2) by (simp add: unat_of_nat take_bit_eq_mod)
  moreover have "\<not> length bs - (off + 8) < n" "\<not> length bs - (off + 4) < 4" "\<not> length bs - off < 8" "\<not> length bs - (32 + i * 4) < 4"
    "\<not> length bs < 32 + i * 4" using h by auto
  ultimately show ?thesis using h by (simp add: parseChunk_def wordAt_def off_def [symmetric] add.commute [of 8 off])
qed

lemma putChunk_held:
  assumes "putChunk i c bs = Inr r" "32 + i * 4 + 4 \<le> T" "T \<le> length bs" "length r < 4294967296"
  shows "keepsOutside (32 + i * 4) (32 + i * 4 + 4) bs r" "holdsChunk T r i c"
proof -
  define at n p where "at = 32 + i * 4" and "n = length (ch_bytes c)" and "p = pad4 bs"
  obtain q where q: "setWord p at (word_of_nat (length p)) = Inr q"
    and r: "r = q @ wordBytes (ch_tag c) @ wordBytes (word_of_nat n) @ ch_bytes c"
    using assms(1) by (auto simp: putChunk_def at_def p_def n_def putWord_def bindE_Inr)
  have lq: "length q = length p" by (rule length_setWord [OF q])
  have kp: "keepsOutside at (at + 4) bs p" using keepsOutside_pad4 [of _ _ bs "[]"] by (simp add: p_def)
  have kq: "keepsOutside at (at + 4) p q" by (rule keepsOutside_setWord [OF q]) simp_all
  have kr: "keepsOutside at (at + 4) q r" by (auto simp: keepsOutside_def r nth_append)
  show "keepsOutside (32 + i * 4) (32 + i * 4 + 4) bs r"
    using keepsOutside_trans [OF keepsOutside_trans [OF kp kq] kr] by (simp add: at_def)
  have lp: "length bs \<le> length p" using length_pad4(1) [of bs] by (simp add: p_def)
  have "leWord q at = word_of_nat (length p)" by (rule leWord_setWord_same [OF q])
  moreover have "length p < 4294967296" using assms(4) lq by (simp add: r)
  ultimately have off: "unat (leWord r at) = length q"
    using leWord_append [of at q] assms(2,3) lp lq by (simp add: r at_def unat_of_nat take_bit_eq_mod)
  have "leWord r (length q) = ch_tag c" unfolding r by (rule leWord_put)
  moreover have "leWord r (length q + 4) = word_of_nat n"
    using leWord_put [of "q @ wordBytes (ch_tag c)"] by (simp add: r)
  ultimately show "holdsChunk T r i c" using assms(2,3) lp lq off
    unfolding holdsChunk_def Let_def at_def [symmetric] n_def [symmetric] by (auto simp: r nth_append n_def at_def)
qed

lemma putChunks_length: "putChunks i cs bs = Inr r \<Longrightarrow> length bs \<le> length r"
proof (induction cs arbitrary: i bs)
  case (Cons c cs)
  then obtain r1 where r1: "putChunk i c bs = Inr r1" "putChunks (Suc i) cs r1 = Inr r" by (auto simp: bindE_Inr)
  have "length bs \<le> length r1" using r1(1) length_pad4(1) [of bs] by (auto simp: putChunk_def bindE_Inr putWord_def dest!: length_setWord)
  then show ?case using Cons.IH [OF r1(2)] by simp
qed simp

lemma putChunks_held:
  assumes "putChunks i cs bs = Inr r" "32 + (i + length cs) * 4 \<le> T" "T \<le> length bs" "length r < 4294967296"
  shows "keepsOutside (32 + i * 4) T bs r \<and> (\<forall>j < length cs. holdsChunk T r (i + j) (cs ! j))"
  using assms
proof (induction cs arbitrary: i bs)
  case (Cons c cs)
  then obtain r1 where r1: "putChunk i c bs = Inr r1" "putChunks (Suc i) cs r1 = Inr r" by (auto simp: bindE_Inr)
  have p1: "keepsOutside (32 + i * 4) (32 + i * 4 + 4) bs r1" "holdsChunk T r1 i c"
    using putChunk_held [OF r1(1), of T] Cons.prems putChunks_length [OF r1(2)] by simp_all
  have "T \<le> length r1" using p1(1) Cons.prems(3) by (simp add: keepsOutside_def)
  then have ih: "keepsOutside (32 + Suc i * 4) T r1 r" "\<forall>j < length cs. holdsChunk T r (Suc i + j) (cs ! j)"
    using Cons.IH [OF r1(2)] Cons.prems(2,4) by simp_all
  have "holdsChunk T r i c" by (rule holdsChunk_keeps [OF p1(2) ih(1)]) simp_all
  moreover have "keepsOutside (32 + i * 4) T bs r"
    using keepsOutside_trans [OF keepsOutside_mono [OF p1(1)] keepsOutside_mono [OF ih(1)], of "32 + i * 4" T] Cons.prems(2) by simp
  ultimately show ?case using ih(2) by (auto simp: nth_Cons less_Suc_eq_0_disj split: nat.splits)
qed (simp add: keepsOutside_def)

text \<open>A container has exactly one program, whose header names its type and its length in words.\<close>

definition programOk :: "u32 \<Rightarrow> byte list \<Rightarrow> bool" where
  "programOk programType bs \<longleftrightarrow> 8 \<le> length bs \<and> length bs mod 4 = 0 \<and> leWord bs 0 = programType \<and> unat (leWord bs 4) = length bs div 4"

fun oneProgram :: "u32 \<Rightarrow> bool \<Rightarrow> Chunk list \<Rightarrow> bool" where
  "oneProgram programType program [] = program"
| "oneProgram programType program (c # cs) =
     (if isProgram (ch_tag c) then \<not> program \<and> programOk programType (ch_bytes c) \<and> oneProgram programType True cs
      else oneProgram programType program cs)"

lemma checkProgram_ok: "checkProgram programType program bs = Inr () \<longleftrightarrow> \<not> program \<and> programOk programType bs"
  by (auto simp: checkProgram_def programOk_def wordAt_def)

lemma parseChunks_iff:
  "(\<exists>cs. parseChunks programType bs program is = Inr (True, cs) \<and> P cs) \<longleftrightarrow>
   (\<exists>cs. list_all2 (\<lambda>i c. parseChunk bs i = Inr c) is cs \<and> oneProgram programType program cs \<and> P cs)"
proof (induction "is" arbitrary: program P)
  case (Cons i "is")
  show ?case
  proof (cases "parseChunk bs i")
    case (Inr c)
    show ?thesis
    proof (cases "isProgram (ch_tag c)")
      case True
      show ?thesis using Cons.IH [of True "\<lambda>cs. P (c # cs)"] Inr True checkProgram_ok [of programType program "ch_bytes c"]
        by (cases "checkProgram programType program (ch_bytes c)") (auto simp: list_all2_Cons1 bindE_Inr)
    next
      case False
      then show ?thesis using Cons.IH [of program "\<lambda>cs. P (c # cs)"] Inr by (auto simp: list_all2_Cons1 bindE_Inr)
    qed
  qed (auto simp: list_all2_Cons1)
qed auto

lemma container_reads_back:
  assumes "makeContainer hash cs = Inr bs" "\<And>x. length (hash x) = 16" "length bs \<le> 1024 * 1024" "oneProgram programType False cs"
  shows "parseContainer hash bs programType = Inr cs"
proof -
  define T where "T = 32 + length cs * 4"
  have n: "cs \<noteq> []" "length cs \<le> 128" using assms(1) by (auto simp: makeContainer_def split: if_splits)
  then obtain r1 r2 r3 r4 where
    s1: "setWord (dxbcTag @ replicate (28 + length cs * 4) 0) 20 1 = Inr r1" and
    s2: "setWord r1 28 (word_of_nat (length cs)) = Inr r2" and s3: "putChunks 0 cs r2 = Inr r3" and
    s4: "setWord r3 24 (word_of_nat (length r3)) = Inr r4" and bs: "bs = take 4 r4 @ hash (drop 20 r4) @ drop 20 r4"
    using assms(1) by (auto simp: makeContainer_def bindE_Inr split: if_splits)
  have l2: "length r2 = T" using length_setWord [OF s1] length_setWord [OF s2] by (simp add: T_def dxbcTag_def)
  have l34: "length r4 = length r3" "T \<le> length r3" using length_setWord [OF s4] putChunks_length [OF s3] l2 by simp_all
  then have lb: "length bs = length r3" using assms(2) by (simp add: bs T_def)
  then have l3: "length r3 < 4294967296" using assms(3) by simp
  have h: "keepsOutside 32 T r2 r3" "\<And>j. j < length cs \<Longrightarrow> holdsChunk T r3 j (cs ! j)"
    using putChunks_held [OF s3, of T] l2 l3 by (simp_all add: T_def)
  have k4: "keepsOutside 24 28 r3 r4" by (rule keepsOutside_setWord [OF s4]) simp_all
  have kb: "keepsOutside 4 20 r4 bs" using assms(2) lb l34 by (auto simp: keepsOutside_def bs nth_append T_def)
  have w: "wordAt bs k = Inr (leWord r4 k)" if "20 \<le> k" "k + 4 \<le> 32" for k
    using keepsOutside_leWord [OF kb, of k] that lb l34 by (auto simp: wordAt_def T_def)
  have w24: "wordAt bs 24 = Inr (word_of_nat (length r3))" using w [of 24] leWord_setWord_same [OF s4] by simp
  have w28: "wordAt bs 28 = Inr (word_of_nat (length cs))"
    using w [of 28] keepsOutside_leWord [OF k4, of 28] keepsOutside_leWord [OF h(1), of 28] leWord_setWord_same [OF s2] l2 l34
    by (simp add: T_def)
  have "take 4 r2 = dxbcTag" using s1 s2 by (simp add: setWord_Inr dxbcTag_def)
  moreover have "take 4 bs = take 4 r2"
  proof (rule nth_equalityI)
    fix i assume "i < length (take 4 bs)"
    then show "take 4 bs ! i = take 4 r2 ! i" using kb k4 h(1) l2 l34 by (auto simp: keepsOutside_def T_def)
  qed (use lb l2 l34 in \<open>simp add: T_def\<close>)
  ultimately have tag: "take 4 bs = dxbcTag" by simp
  have dr: "drop 20 bs = drop 20 r4" "take 16 (drop 4 bs) = hash (drop 20 r4)" using assms(2) l34 by (simp_all add: bs T_def)
  have "parseChunk bs j = Inr (cs ! j)" if "j < length cs" for j
  proof -
    have "holdsChunk T r4 j (cs ! j)" by (rule holdsChunk_keeps [OF h(2) [OF that] k4]) (simp_all add: T_def)
    then have "holdsChunk T bs j (cs ! j)" by (rule holdsChunk_keeps [OF _ kb]) (simp_all add: T_def)
    then show ?thesis using holdsChunk_parse l3 lb by simp
  qed
  then have "list_all2 (\<lambda>i c. parseChunk bs i = Inr c) [0..<length cs] cs" by (simp add: list_all2_conv_all_nth)
  then have p: "parseChunks programType bs False [0..<length cs] = Inr (True, cs)"
    using parseChunks_iff [of programType bs False "[0..<length cs]" "\<lambda>x. x = cs"] assms(4) by auto
  have u: "unat (word_of_nat (length r3) :: u32) = length r3" "unat (word_of_nat (length cs) :: u32) = length cs"
    using l3 n by (simp_all add: unat_of_nat take_bit_eq_mod)
  then have "\<not> 128 < (word_of_nat (length cs) :: u32)" using n by (simp add: word_less_nat_alt)
  then show ?thesis using tag w24 w28 dr p u lb l34 assms(3) n by (simp add: parseContainer_def T_def)
qed

text \<open>
  C24: whatever the bytes, parsing a container or a signature never runs into the bounds check of a word read: every
  offset and count it takes from the file has been checked before it is used.
\<close>

theorem parse_stays_in_bounds: "parseContainer hash bs programType \<noteq> Inl ''bounds'' \<and> parseSignature bs \<noteq> Inl ''bounds''"
proof (rule conjI)
  have w: "wordAt bs k \<noteq> Inl e" if "k + 4 \<le> length bs" for k e using that by (auto simp: wordAt_def)
  have c: "parseChunk bs i \<noteq> Inl ''bounds''" if "32 + i * 4 + 4 \<le> length bs" for i
    using that by (auto simp: parseChunk_def wordAt_def bindE_Inl)
  have pr: "checkProgram programType p x \<noteq> Inl ''bounds''" for p x by (auto simp: checkProgram_def wordAt_def bindE_Inl)
  have "parseChunks programType bs p is \<noteq> Inl ''bounds''" if "\<forall>i \<in> set is. 32 + i * 4 + 4 \<le> length bs" for p "is"
    using that
  proof (induction "is" arbitrary: p)
    case (Cons i "is")
    then show ?case using c [of i] pr by (auto simp: bindE_Inl split: if_splits)
  qed simp
  then show "parseContainer hash bs programType \<noteq> Inl ''bounds''"
    by (auto simp: parseContainer_def bindE_Inl wordAt_def split: if_splits)
  have "parseElement bs i \<noteq> Inl ''bounds''" if "8 + i * 24 + 24 \<le> length bs" for i
    using that by (auto simp: parseElement_def wordAt_def Let_def bindE_Inl split: if_splits)
  then show "parseSignature bs \<noteq> Inl ''bounds''"
    by (auto simp: parseSignature_def bindE_Inl wordAt_def split: if_splits dest!: mapE_Inl)
qed

section \<open>Instructions\<close>

lemma instructionLength_bounds:
  "instructionLength tokens at = Inr len \<Longrightarrow> 0 < unat len \<and> at + unat len \<le> length tokens"
  by (auto simp: instructionLength_def bindE_Inr unat_gt_0 split: if_splits)
end
