(* ===== verification/DxbcVelocity.thy ===== *)
theory DxbcVelocity
  imports DxbcProps
begin

text \<open>
  \<^verbatim>\<open>src/d3d11/dxbc_engine_velocity.h\<close>: the restricted patches that make a vertex shader export the record slot and a pixel
  shader write it beside its depth. A program is its list of tokens; zero stands for "not found" in an offset, as
  in the code. The three entry points return the reason or what they produce.
\<close>

definition kEngineVelocityTarget :: u32 where
  "kEngineVelocityTarget = 6"

definition kEngineVelocitySlotMask :: u32 where
  "kEngineVelocitySlotMask = 0x007FFFFF"

definition asciiBytes :: "string \<Rightarrow> byte list" where
  "asciiBytes s = map (\<lambda>c. word_of_nat (of_char c)) s"

definition kEngineVelocitySlotSemantic :: "byte list" where
  "kEngineVelocitySlotSemantic = asciiBytes ''EDVRPOOLSLOT''"

record EngineVelocityInputs =
  ev_identityRegister :: u32
  ev_identityComponent :: u32
  ev_positionRegister :: u32
  ev_slotFromVsPatch :: bool

definition noInputs :: EngineVelocityInputs where
  "noInputs = \<lparr>ev_identityRegister = - 1, ev_identityComponent = - 1, ev_positionRegister = - 1, ev_slotFromVsPatch = False\<rparr>"

definition kTagIsgn :: u32 where "kTagIsgn = 0x4E475349"
definition kTagOsgn :: u32 where "kTagOsgn = 0x4E47534F"
definition kVs50 :: u32 where "kVs50 = 0x00010050"
definition kPs50 :: u32 where "kPs50 = 0x00000050"
definition kOpRet :: u32 where "kOpRet = 62"

definition operandType :: "u32 \<Rightarrow> u32" where
  "operandType token = and (drop_bit 12 token) 255"

definition operandMask :: "u32 \<Rightarrow> u32" where
  "operandMask token = and (drop_bit 4 token) 15"

definition programWords :: "byte list \<Rightarrow> u32 list" where
  "programWords bs = map (\<lambda>i. leWord bs (4 * i)) [0..<length bs div 4]"

definition programBytes :: "u32 list \<Rightarrow> byte list" where
  "programBytes ws = concat (map wordBytes (ws[1 := word_of_nat (length ws)]))"

definition declineUnsupported :: "u32 \<Rightarrow> unit thrown" where
  "declineUnsupported opcode =
     (if 156 \<le> opcode \<and> opcode \<le> 160 then Inl ''UAV or thread-group declaration''
      else if opcode = 120 \<or> 144 \<le> opcode \<and> opcode \<le> 146 then Inl ''dynamic linkage''
      else if opcode = 63 then Inl ''conditional return''
      else Inr ())"

section \<open>The walk over the instructions\<close>

text \<open>One instruction after the other from \<open>at\<close>; \<open>body\<close> sees where it stands and its length.\<close>

function walk :: "(nat \<Rightarrow> nat \<Rightarrow> 's \<Rightarrow> 's thrown) \<Rightarrow> u32 list \<Rightarrow> nat \<Rightarrow> 's \<Rightarrow> 's thrown" where
  "walk body t at s =
     (if length t \<le> at then Inr s
      else bindE (instructionLength t at) (\<lambda>len. bindE (body at (unat len) s) (walk body t (at + unat len))))"
  by auto
termination
  by (relation "measure (\<lambda>(body, t, at, s). length t - at)") (auto dest: instructionLength_bounds)

declare walk.simps [simp del]

definition isOutputDecl :: "u32 \<Rightarrow> bool" where
  "isOutputDecl opcode \<longleftrightarrow> 101 \<le> opcode \<and> opcode \<le> 103"

definition poolBody :: "u32 list \<Rightarrow> nat \<Rightarrow> nat \<Rightarrow> bool \<times> bool \<Rightarrow> (bool \<times> bool) thrown" where
  "poolBody t at len di =
     (let opcode = opcodeOf (t ! at);
          declared = (fst di \<or> opcode = 162 \<and> len = 4 \<and> operandType (t ! (at + 1)) = 7 \<and> t ! (at + 2) = 33 \<and> t ! (at + 3) = 336);
          v0x = list_ex (\<lambda>i. t ! i = 0x0010100A \<and> t ! (i + 1) = 0) [at + 1..<at + len - 1];
          pool = list_ex (\<lambda>i. and (t ! i) 0x00100000 \<noteq> 0 \<and> operandType (t ! i) = 7 \<and> t ! (i + 1) = 33) [at + 1..<at + len - 1]
      in Inr (declared, snd di \<or> opcode = 167 \<and> v0x \<and> pool))"

definition readsPoolAtV0x :: "u32 list \<Rightarrow> bool thrown" where
  "readsPoolAtV0x t = bindE (walk (poolBody t) t 2 (False, False)) (\<lambda>(declared, indexed). Inr (declared \<and> indexed))"

definition sortByRegister :: "SignatureElement list \<Rightarrow> SignatureElement list" where
  "sortByRegister es = sort_key se_registerIndex es"

section \<open>The vertex shader's program\<close>

record VsScan =
  vs_lastOutputEnd :: nat
  vs_v0x :: bool
  vs_rets :: bool

definition vsBody :: "u32 list \<Rightarrow> u32 \<Rightarrow> nat \<Rightarrow> nat \<Rightarrow> VsScan \<Rightarrow> VsScan thrown" where
  "vsBody t slotRegister at len s =
     (let opcode = opcodeOf (t ! at) in
      bindE (declineUnsupported opcode) (\<lambda>_.
      if isOutputDecl opcode \<and> 3 \<le> len \<and> operandType (t ! (at + 1)) = 2 \<and> t ! (at + 2) = slotRegister
      then Inl ''slot output register occupied''
      else Inr \<lparr>vs_lastOutputEnd = (if isOutputDecl opcode then at + len else vs_lastOutputEnd s),
                vs_v0x = (vs_v0x s \<or> opcode = 95 \<and> len = 3 \<and> operandType (t ! (at + 1)) = 1 \<and> t ! (at + 2) = 0 \<and>
                          and (operandMask (t ! (at + 1))) 1 \<noteq> 0),
                vs_rets = (vs_rets s \<or> opcode = kOpRet)\<rparr>))"

definition vsDecl :: "u32 \<Rightarrow> u32 list" where
  "vsDecl slotRegister = [0x03000065, 0x00102012, slotRegister]"

definition vsMove :: "u32 \<Rightarrow> u32 list" where
  "vsMove slotRegister = [0x05000036, 0x00102012, slotRegister, 0x0010100A, 0]"

definition vsEmit :: "u32 list \<Rightarrow> u32 \<Rightarrow> nat \<Rightarrow> nat \<Rightarrow> nat \<Rightarrow> u32 list \<Rightarrow> u32 list thrown" where
  "vsEmit t slotRegister lastOutputEnd at len out =
     Inr (out @ (if opcodeOf (t ! at) = kOpRet then vsMove slotRegister else []) @ take len (drop at t) @
          (if at + len = lastOutputEnd then vsDecl slotRegister else []))"

definition patchVsProgram :: "byte list \<Rightarrow> u32 \<Rightarrow> byte list thrown" where
  "patchVsProgram bs slotRegister =
     (let t = programWords bs in
      bindE (walk (vsBody t slotRegister) t 2 \<lparr>vs_lastOutputEnd = 0, vs_v0x = False, vs_rets = False\<rparr>) (\<lambda>s.
      if vs_lastOutputEnd s = 0 then Inl ''no output declarations''
      else if \<not> vs_v0x s then Inl ''v0.x not declared''
      else if \<not> vs_rets s then Inl ''no return''
      else bindE (walk (vsEmit t slotRegister (vs_lastOutputEnd s)) t 2 [t ! 0, 0]) (\<lambda>out. Inr (programBytes out))))"

section \<open>The pixel shader's program\<close>

record PsScan =
  ps_t :: "u32 list"
  ps_firstOutput :: nat
  ps_tempAt :: nat
  ps_firstExecutable :: nat
  ps_tempCount :: u32
  ps_returns :: nat
  ps_identityDeclared :: bool
  ps_positionDeclared :: bool

definition isDeclaration :: "u32 \<Rightarrow> bool" where
  "isDeclaration opcode \<longleftrightarrow> 88 \<le> opcode \<and> opcode \<le> 106 \<or> opcode = 143 \<or> 147 \<le> opcode \<and> opcode \<le> 163 \<or> opcode = 53"

definition isInputPsDecl :: "u32 list \<Rightarrow> nat \<Rightarrow> nat \<Rightarrow> bool" where
  "isInputPsDecl t at len \<longleftrightarrow> 98 \<le> opcodeOf (t ! at) \<and> opcodeOf (t ! at) \<le> 100 \<and> 3 \<le> len \<and> operandType (t ! (at + 1)) = 1"

definition psInput :: "EngineVelocityInputs \<Rightarrow> nat \<Rightarrow> nat \<Rightarrow> PsScan \<Rightarrow> PsScan thrown" where
  "psInput inp at len s =
     (let t = ps_t s; reg = t ! (at + 2); mask = operandMask (t ! (at + 1)) in
      if \<not> isInputPsDecl t at len then Inr s
      else if reg = ev_identityRegister inp \<and> ev_slotFromVsPatch inp then Inl ''slot input register occupied''
      else let s1 = (if reg = ev_identityRegister inp \<and> and mask (push_bit (unat (ev_identityComponent inp)) 1) \<noteq> 0
                     then s\<lparr>ps_identityDeclared := True\<rparr> else s) in
      if reg \<noteq> ev_positionRegister inp then Inr s1
      else if opcodeOf (t ! at) \<noteq> 100 then Inl ''position register not SV_Position''
      else Inr (s1\<lparr>ps_positionDeclared := True, ps_t := t[at + 1 := or (t ! (at + 1)) 0x40]\<rparr>))"

definition psTemps :: "nat \<Rightarrow> nat \<Rightarrow> PsScan \<Rightarrow> PsScan thrown" where
  "psTemps at len s =
     (if opcodeOf (ps_t s ! at) \<noteq> 104 then Inr s
      else if ps_tempAt s \<noteq> 0 \<or> len \<noteq> 2 \<or> 4092 < ps_t s ! (at + 1) then Inl ''temps''
      else Inr (s\<lparr>ps_tempAt := at, ps_tempCount := ps_t s ! (at + 1)\<rparr>))"

definition psBody :: "EngineVelocityInputs \<Rightarrow> nat \<Rightarrow> nat \<Rightarrow> PsScan \<Rightarrow> PsScan thrown" where
  "psBody inp at len s =
     (let t = ps_t s; opcode = opcodeOf (t ! at) in
      bindE (declineUnsupported opcode) (\<lambda>_.
      if isOutputDecl opcode \<and> 3 \<le> len \<and> operandType (t ! (at + 1)) = 2 \<and> kEngineVelocityTarget \<le> t ! (at + 2)
      then Inl ''output target 6 or above occupied''
      else bindE (psInput inp at len
        (s\<lparr>ps_firstExecutable := (if ps_firstExecutable s = 0 \<and> \<not> isDeclaration opcode then at else ps_firstExecutable s),
           ps_firstOutput := (if ps_firstOutput s = 0 \<and> isOutputDecl opcode then at else ps_firstOutput s)\<rparr>)) (\<lambda>s1.
      bindE (psTemps at len s1) (\<lambda>s2.
      Inr (s2\<lparr>ps_returns := ps_returns s2 + of_bool (opcode = kOpRet)\<rparr>)))))"

lemma length_psBody: "psBody inp at len s = Inr s' \<Longrightarrow> length (ps_t s') = length (ps_t s)"
  by (auto simp: psBody_def psInput_def psTemps_def Let_def bindE_Inr split: if_splits)

text \<open>The first loop changes the tokens it walks over, so it carries them.\<close>

function psScan :: "EngineVelocityInputs \<Rightarrow> nat \<Rightarrow> PsScan \<Rightarrow> PsScan thrown" where
  "psScan inp at s =
     (if length (ps_t s) \<le> at then Inr s
      else bindE (instructionLength (ps_t s) at) (\<lambda>len. bindE (psBody inp at (unat len) s) (psScan inp (at + unat len))))"
  by auto
termination
  by (relation "measure (\<lambda>(inp, at, s). length (ps_t s) - at)") (auto dest!: instructionLength_bounds length_psBody)

declare psScan.simps [simp del]

definition psStart :: "u32 list \<Rightarrow> PsScan" where
  "psStart t = \<lparr>ps_t = t, ps_firstOutput = 0, ps_tempAt = 0, ps_firstExecutable = 0, ps_tempCount = 0, ps_returns = 0,
     ps_identityDeclared = False, ps_positionDeclared = False\<rparr>"

definition posDecl :: "EngineVelocityInputs \<Rightarrow> u32 list" where
  "posDecl inp = [0x04002064, 0x00101042, ev_positionRegister inp, 1]"

definition slotDecl :: "EngineVelocityInputs \<Rightarrow> u32 list" where
  "slotDecl inp = [0x03000862, 0x00101012, ev_identityRegister inp]"

definition outDecl :: "u32 list" where
  "outDecl = [0x03000065, 0x00102032, kEngineVelocityTarget]"

definition psTail :: "EngineVelocityInputs \<Rightarrow> u32 \<Rightarrow> u32 list list" where
  "psTail inp temp =
     [[0x07000001, 0x00100012, temp, or 0x0010100A (push_bit 4 (ev_identityComponent inp)), ev_identityRegister inp, 0x00004001,
       kEngineVelocitySlotMask],
      [0x09000023, 0x00100012, temp, 0x0010000A, temp, 0x00004001, 2, 0x00004001, 1],
      [0x05000056, 0x00102012, kEngineVelocityTarget, 0x0010000A, temp],
      [0x05000036, 0x00102022, kEngineVelocityTarget, 0x0010102A, ev_positionRegister inp]]"

definition psEmit :: "EngineVelocityInputs \<Rightarrow> PsScan \<Rightarrow> nat \<Rightarrow> nat \<Rightarrow> u32 list \<times> bool \<Rightarrow> (u32 list \<times> bool) thrown" where
  "psEmit inp s at len ob =
     (let t = ps_t s;
          o1 = fst ob @ (if at = ps_firstOutput s
                         then (if ps_positionDeclared s then [] else posDecl inp) @ (if ev_slotFromVsPatch inp then slotDecl inp else [])
                         else [])
      in if ps_tempAt s \<noteq> 0 \<and> at = ps_tempAt s then Inr (o1 @ outDecl @ [t ! at, ps_tempCount s + 1], True)
         else let here = (ps_tempAt s = 0 \<and> at = ps_firstExecutable s) in
           Inr (o1 @ (if here then outDecl @ [0x02000068, 1] else []) @
                (if opcodeOf (t ! at) = kOpRet then concat (psTail inp (ps_tempCount s)) else []) @ take len (drop at t),
                snd ob \<or> here))"

definition patchPsProgram :: "byte list \<Rightarrow> EngineVelocityInputs \<Rightarrow> byte list thrown" where
  "patchPsProgram bs inp =
     bindE (psScan inp 2 (psStart (programWords bs))) (\<lambda>s.
     if ps_firstOutput s = 0 then Inl ''no output declarations''
     else if ps_returns s = 0 then Inl ''no return''
     else if \<not> ev_slotFromVsPatch inp \<and> \<not> ps_identityDeclared s then Inl ''identity input not declared''
     else if ps_tempAt s = 0 \<and> ps_firstExecutable s = 0 then Inl ''no executable instructions''
     else bindE (walk (psEmit inp s) (ps_t s) 2 ([ps_t s ! 0, 0], False)) (\<lambda>(out, outputDeclared).
     if outputDeclared then Inr (programBytes out) else Inl ''output declaration not placed''))"


section \<open>Where the slot and the position come from\<close>

record DeriveState =
  dv_program :: "byte list option"
  dv_isgn :: bool
  dv_osgn :: bool
  dv_instanceIndex :: bool
  dv_maxOutput :: u32
  dv_output :: EngineVelocityInputs

definition isInstanceIndex :: "SignatureElement \<Rightarrow> bool" where
  "isInstanceIndex e \<longleftrightarrow> equalName (se_name e) (asciiBytes ''INSTANCEANDMODELDATAINDEX'') \<and> se_semanticIndex e = 0 \<and>
     se_registerIndex e = 0 \<and> se_componentType e = 1 \<and> and (se_masks e) 1 \<noteq> 0"

definition isDataId :: "SignatureElement \<Rightarrow> bool" where
  "isDataId e \<longleftrightarrow> equalName (se_name e) (asciiBytes ''__USER_MATERIALMODULATION_DATAID'')"

definition carriesSlot :: "SignatureElement \<Rightarrow> bool" where
  "carriesSlot e \<longleftrightarrow> se_componentType e = 1 \<and> (isDataId e \<and> and (se_masks e) 2 \<noteq> 0 \<or>
     equalName (se_name e) (asciiBytes ''__USER_VERTEX_FACEINVARIANT'') \<and> and (se_masks e) 1 \<noteq> 0)"

definition isPosition :: "SignatureElement \<Rightarrow> bool" where
  "isPosition e \<longleftrightarrow> se_systemValue e = 1 \<or> equalName (se_name e) (asciiBytes ''SV_POSITION'')"

definition deriveOutput :: "SignatureElement \<Rightarrow> DeriveState \<Rightarrow> DeriveState thrown" where
  "deriveOutput e s =
     (let s1 = s\<lparr>dv_maxOutput := max (dv_maxOutput s) (se_registerIndex e)\<rparr> in
      bindE (if \<not> carriesSlot e then Inr s1
             else if ev_identityRegister (dv_output s1) \<noteq> - 1 then Inl ''ambiguous identity output''
             else Inr (s1\<lparr>dv_output := (dv_output s1)\<lparr>ev_identityRegister := se_registerIndex e,
                                                     ev_identityComponent := (if isDataId e then 1 else 0)\<rparr>\<rparr>)) (\<lambda>s2.
      if \<not> (isPosition e \<and> and (se_masks e) 4 \<noteq> 0) then Inr s2
      else if se_componentType e \<noteq> 3 \<or> ev_positionRegister (dv_output s2) \<noteq> - 1 then Inl ''ambiguous position output''
      else Inr (s2\<lparr>dv_output := (dv_output s2)\<lparr>ev_positionRegister := se_registerIndex e\<rparr>\<rparr>)))"

definition deriveChunk :: "Chunk \<Rightarrow> DeriveState \<Rightarrow> DeriveState thrown" where
  "deriveChunk c s =
     (let s1 = (if isProgram (ch_tag c) then s\<lparr>dv_program := Some (ch_bytes c)\<rparr> else s) in
      bindE (if ch_tag c \<noteq> kTagIsgn then Inr s1
             else if dv_isgn s1 then Inl ''duplicate input signature''
             else bindE (parseSignature (ch_bytes c)) (\<lambda>es.
               Inr (s1\<lparr>dv_isgn := True, dv_instanceIndex := (dv_instanceIndex s1 \<or> list_ex isInstanceIndex es)\<rparr>))) (\<lambda>s2.
      if ch_tag c \<noteq> kTagOsgn then Inr s2
      else if dv_osgn s2 then Inl ''duplicate output signature''
      else bindE (parseSignature (ch_bytes c)) (\<lambda>es. foldE deriveOutput es (s2\<lparr>dv_osgn := True\<rparr>))))"

definition engineVelocityDeriveInputs :: "(byte list \<Rightarrow> byte list) \<Rightarrow> byte list \<Rightarrow> EngineVelocityInputs thrown" where
  "engineVelocityDeriveInputs hash bs =
     bindE (parseContainer hash bs kVs50) (\<lambda>chunks.
     bindE (foldE deriveChunk chunks
       \<lparr>dv_program = None, dv_isgn = False, dv_osgn = False, dv_instanceIndex = False, dv_maxOutput = 0, dv_output = noInputs\<rparr>) (\<lambda>s.
     case dv_program s of
       None \<Rightarrow> Inl ''missing vertex shader chunks''
     | Some program \<Rightarrow>
         if \<not> dv_isgn s \<or> \<not> dv_osgn s then Inl ''missing vertex shader chunks''
         else if \<not> dv_instanceIndex s then Inl ''no INSTANCEANDMODELDATAINDEX.x at v0''
         else if 32 \<le> ev_positionRegister (dv_output s) then Inl ''SV_POSITION output absent''
         else bindE (readsPoolAtV0x (programWords program)) (\<lambda>reads.
           if \<not> reads then Inl ''does not index the t33 pool by v0.x''
           else if ev_identityRegister (dv_output s) \<noteq> - 1 then Inr (dv_output s)
           else if 32 \<le> dv_maxOutput s + 1 then Inl ''no free output register for the slot''
           else Inr ((dv_output s)\<lparr>ev_identityRegister := dv_maxOutput s + 1, ev_identityComponent := 0,
                                   ev_slotFromVsPatch := True\<rparr>))))"

section \<open>The patched containers\<close>

definition slotElement :: "EngineVelocityInputs \<Rightarrow> u32 \<Rightarrow> SignatureElement" where
  "slotElement inp masks = \<lparr>se_name = kEngineVelocitySlotSemantic, se_semanticIndex = 0, se_systemValue = 0, se_componentType = 1,
     se_registerIndex = ev_identityRegister inp, se_masks = masks\<rparr>"

definition vsOutputs :: "EngineVelocityInputs \<Rightarrow> SignatureElement list \<Rightarrow> SignatureElement list thrown" where
  "vsOutputs inp es =
     (if list_ex (\<lambda>e. se_registerIndex e = ev_identityRegister inp) es then Inl ''slot output register occupied''
      else Inr (sortByRegister (es @ [slotElement inp 0x0E01])))"

definition vsChunk :: "EngineVelocityInputs \<Rightarrow> Chunk \<Rightarrow> bool \<times> bool \<times> Chunk list \<Rightarrow> (bool \<times> bool \<times> Chunk list) thrown" where
  "vsChunk inp c = (\<lambda>(osgn, program, acc).
     if ch_tag c = kTagOsgn
     then if osgn then Inl ''duplicate output signature''
          else bindE (parseSignature (ch_bytes c)) (\<lambda>es. bindE (vsOutputs inp es) (\<lambda>es'. bindE (makeSignature es') (\<lambda>bs.
            Inr (True, program, acc @ [c\<lparr>ch_bytes := bs\<rparr>]))))
     else if isProgram (ch_tag c)
     then if program then Inl ''duplicate program''
          else bindE (patchVsProgram (ch_bytes c) (ev_identityRegister inp)) (\<lambda>bs. Inr (osgn, True, acc @ [c\<lparr>ch_bytes := bs\<rparr>]))
     else Inr (osgn, program, acc @ [c]))"

definition engineVelocityPatchVs :: "(byte list \<Rightarrow> byte list) \<Rightarrow> byte list \<Rightarrow> EngineVelocityInputs \<Rightarrow> byte list thrown" where
  "engineVelocityPatchVs hash bs inp =
     (if \<not> ev_slotFromVsPatch inp \<or> 32 \<le> ev_identityRegister inp \<or> ev_identityComponent inp \<noteq> 0
      then Inl ''vertex shader needs no slot export''
      else bindE (parseContainer hash bs kVs50) (\<lambda>chunks.
      bindE (foldE (vsChunk inp) chunks (False, False, [])) (\<lambda>(osgn, program, out).
      if \<not> osgn \<or> \<not> program then Inl ''missing vertex shader chunks'' else makeContainer hash out)))"

text \<open>The pixel shader's inputs: the elements as changed, and whether identity and position were among them.\<close>

definition psInputElement :: "EngineVelocityInputs \<Rightarrow> SignatureElement \<Rightarrow> bool \<times> bool \<times> SignatureElement list \<Rightarrow>
    (bool \<times> bool \<times> SignatureElement list) thrown" where
  "psInputElement inp e = (\<lambda>(identity, position, acc).
     if se_registerIndex e = ev_identityRegister inp \<and> ev_slotFromVsPatch inp then Inl ''slot input register occupied''
     else let identity' = (identity \<or> se_registerIndex e = ev_identityRegister inp \<and> se_componentType e = 1 \<and>
                           and (se_masks e) (push_bit (unat (ev_identityComponent inp)) 1) \<noteq> 0) in
     if se_registerIndex e \<noteq> ev_positionRegister inp then Inr (identity', position, acc @ [e])
     else if \<not> isPosition e \<or> se_componentType e \<noteq> 3 then Inl ''position input register holds another semantic''
     else Inr (identity', True, acc @ [e\<lparr>se_masks := or (se_masks e) (or 4 0x0400)\<rparr>]))"

definition positionElement :: "EngineVelocityInputs \<Rightarrow> SignatureElement" where
  "positionElement inp = \<lparr>se_name = asciiBytes ''SV_Position'', se_semanticIndex = 0, se_systemValue = 1, se_componentType = 3,
     se_registerIndex = ev_positionRegister inp, se_masks = 0x040F\<rparr>"

fun overlapping :: "SignatureElement list \<Rightarrow> bool" where
  "overlapping (a # b # es) = (se_registerIndex b = se_registerIndex a \<and> and (and (se_masks b) (se_masks a)) 15 \<noteq> 0 \<or> overlapping (b # es))"
| "overlapping _ = False"

definition psInputs :: "EngineVelocityInputs \<Rightarrow> SignatureElement list \<Rightarrow> SignatureElement list thrown" where
  "psInputs inp es =
     bindE (foldE (psInputElement inp) es (False, False, [])) (\<lambda>(identity, position, es1).
     if \<not> ev_slotFromVsPatch inp \<and> \<not> identity then Inl ''identity input absent''
     else let es2 = es1 @ (if ev_slotFromVsPatch inp then [slotElement inp 0x0101] else []) @ (if position then [] else [positionElement inp]);
              es3 = sortByRegister es2
          in if overlapping es3 then Inl ''overlapping input registers'' else Inr es3)"

definition psOutputElement :: "SignatureElement \<Rightarrow> bool \<times> u32 \<Rightarrow> (bool \<times> u32) thrown" where
  "psOutputElement e = (\<lambda>(target, systemValue).
     if startsWithName (se_name e) (asciiBytes ''SV_DEPTH'') \<or> startsWithName (se_name e) (asciiBytes ''SV_COVERAGE'')
     then Inl ''depth or coverage output''
     else if \<not> equalName (se_name e) (asciiBytes ''SV_TARGET'') then Inr (target, systemValue)
     else if kEngineVelocityTarget \<le> se_registerIndex e then Inl ''output target 6 or above occupied''
     else Inr (True, se_systemValue e))"

definition velocityElement :: "u32 \<Rightarrow> SignatureElement" where
  "velocityElement systemValue = \<lparr>se_name = asciiBytes ''SV_TARGET'', se_semanticIndex = kEngineVelocityTarget, se_systemValue = systemValue,
     se_componentType = 3, se_registerIndex = kEngineVelocityTarget, se_masks = 0x0C03\<rparr>"

definition psOutputs :: "SignatureElement list \<Rightarrow> SignatureElement list thrown" where
  "psOutputs es =
     bindE (foldE psOutputElement es (False, 0)) (\<lambda>(target, systemValue).
     if target then Inr (es @ [velocityElement systemValue]) else Inl ''no colour output'')"

record PsChunks =
  pc_isgn :: bool
  pc_osgn :: bool
  pc_program :: bool
  pc_out :: "Chunk list"

definition putBack :: "Chunk \<Rightarrow> byte list \<Rightarrow> PsChunks \<Rightarrow> PsChunks" where
  "putBack c bs s = s\<lparr>pc_out := pc_out s @ [c\<lparr>ch_bytes := bs\<rparr>]\<rparr>"

definition psChunk :: "EngineVelocityInputs \<Rightarrow> Chunk \<Rightarrow> PsChunks \<Rightarrow> PsChunks thrown" where
  "psChunk inp c s =
     (if ch_tag c = kTagIsgn
      then if pc_isgn s then Inl ''duplicate input signature''
           else bindE (parseSignature (ch_bytes c)) (\<lambda>es. bindE (psInputs inp es) (\<lambda>es'. bindE (makeSignature es') (\<lambda>bs.
             Inr (putBack c bs (s\<lparr>pc_isgn := True\<rparr>)))))
      else if ch_tag c = kTagOsgn
      then if pc_osgn s then Inl ''duplicate output signature''
           else bindE (parseSignature (ch_bytes c)) (\<lambda>es. bindE (psOutputs es) (\<lambda>es'. bindE (makeSignature es') (\<lambda>bs.
             Inr (putBack c bs (s\<lparr>pc_osgn := True\<rparr>)))))
      else if isProgram (ch_tag c)
      then if pc_program s then Inl ''duplicate program''
           else bindE (patchPsProgram (ch_bytes c) inp) (\<lambda>bs. Inr (putBack c bs (s\<lparr>pc_program := True\<rparr>)))
      else Inr (putBack c (ch_bytes c) s))"

definition engineVelocityPatchPs :: "(byte list \<Rightarrow> byte list) \<Rightarrow> byte list \<Rightarrow> EngineVelocityInputs \<Rightarrow> byte list thrown" where
  "engineVelocityPatchPs hash bs inp =
     (if 32 \<le> ev_identityRegister inp \<or> 4 \<le> ev_identityComponent inp \<or> 32 \<le> ev_positionRegister inp \<or>
         ev_identityRegister inp = ev_positionRegister inp
      then Inl ''invalid shader inputs''
      else bindE (parseContainer hash bs kPs50) (\<lambda>chunks.
      bindE (foldE (psChunk inp) chunks \<lparr>pc_isgn = False, pc_osgn = False, pc_program = False, pc_out = []\<rparr>) (\<lambda>s.
      if \<not> pc_isgn s \<or> \<not> pc_osgn s \<or> \<not> pc_program s then Inl ''missing pixel shader chunks'' else makeContainer hash (pc_out s))))"

end
