(* ===== verification/VelocityPrograms.thy ===== *)
theory VelocityPrograms
  imports DxbcVelocity "HOL-Library.Multiset" "HOL-Library.Sublist"
begin

text \<open>
  The patched programs of \<^verbatim>\<open>src/d3d11/dxbc_engine_velocity.h\<close>, read as lists of instructions. The walks of the code over
  tokens are folds over the instructions (\<open>walk_fold\<close>); what a patch emits for one instruction is \<open>vsPut\<close> or \<open>psPut\<close>; and
  \<open>vsPatched\<close>, \<open>psPatched\<close> say what a patched program is: the original instructions in order, the declarations that were
  missing once each, and the export right before every return.
\<close>

section \<open>Programs as lists of instructions\<close>

text \<open>An instruction is whole when its own tokens tell its length; a program is its two header tokens and whole instructions.\<close>

definition whole :: "u32 list \<Rightarrow> bool" where
  "whole ins \<longleftrightarrow> (\<exists>len. instructionLength ins 0 = Inr len \<and> unat len = length ins)"

definition instructions :: "u32 list \<Rightarrow> u32 list list thrown" where
  "instructions t = walk (\<lambda>at len acc. Inr (acc @ [take len (drop at t)])) t 2 []"

fun positions :: "nat \<Rightarrow> u32 list list \<Rightarrow> (nat \<times> u32 list) list" where
  "positions at [] = []"
| "positions at (i # is) = (at, i) # positions (at + length i) is"

lemma whole_nonempty: "whole ins \<Longrightarrow> ins \<noteq> []"
  by (auto simp: whole_def instructionLength_def)

lemma instructionLength_local:
  assumes "whole ins" "drop at t = ins @ post" "at \<le> length t"
  shows "\<exists>len. instructionLength t at = Inr len \<and> unat len = length ins"
proof -
  obtain len where len: "instructionLength ins 0 = Inr len" "unat len = length ins" using assms(1) by (auto simp: whole_def)
  have l: "length t - at = length ins + length post" using assms(2) by (metis length_append length_drop)
  have n: "t ! (at + k) = ins ! k" if "k < length ins" for k
    using assms(2,3) that by (metis nth_append nth_drop)
  have pos: "0 < length ins" using whole_nonempty [OF assms(1)] by simp
  have h: "t ! at = ins ! 0" using n [of 0] pos by simp
  have g: "\<not> length t \<le> at" "\<not> length t - at < unat len" using l pos len(2) by auto
  show ?thesis
  proof (cases "opcodeOf (ins ! 0) = 53")
    case True
    then have "1 < length ins" "t ! (at + 1) = ins ! 1" using len(1) n [of 1] by (auto simp: instructionLength_def bindE_Inr split: if_splits)
    moreover from this have "\<not> length t \<le> at + 1" using l by linarith
    ultimately show ?thesis using len True h g l by (auto simp: instructionLength_def bindE_Inr split: if_splits)
  next
    case False
    then show ?thesis using len h g by (auto simp: instructionLength_def bindE_Inr split: if_splits)
  qed
qed

lemma instructionLength_whole:
  assumes "instructionLength t at = Inr len"
  shows "whole (take (unat len) (drop at t))"
proof -
  define ins where "ins = take (unat len) (drop at t)"
  note b = instructionLength_bounds [OF assms]
  have "unat len \<le> length (drop at t)" using b by auto
  then have li: "length ins = unat len" by (simp add: ins_def)
  have n: "ins ! k = t ! (at + k)" if "k < unat len" for k using b that by (simp add: ins_def)
  have "instructionLength ins 0 = Inr len"
  proof (cases "opcodeOf (t ! at) = 53")
    case True
    then have "len = t ! (at + 1)" "2 \<le> len" using assms by (auto simp: instructionLength_def bindE_Inr split: if_splits)
    then have "2 \<le> unat len" by (simp add: word_le_nat_alt)
    then have "ins ! 0 = t ! at" "ins ! 1 = t ! (at + 1)" using n [of 0] n [of 1] by auto
    then show ?thesis using assms True li \<open>2 \<le> unat len\<close> by (auto simp: instructionLength_def bindE_Inr split: if_splits)
  next
    case False
    then show ?thesis using assms n [of 0] b li by (auto simp: instructionLength_def bindE_Inr split: if_splits)
  qed
  then show ?thesis using li by (auto simp: whole_def ins_def)
qed

lemma walk_fold:
  assumes "drop at t = concat is" "list_all whole is" "at \<le> length t"
  shows "walk body t at s = foldE (\<lambda>(a, i). body a (length i)) (positions at is) s"
  using assms
proof (induction "is" arbitrary: at s)
  case Nil
  then show ?case by (simp add: walk.simps)
next
  case (Cons i "is")
  obtain len where len: "instructionLength t at = Inr len" "unat len = length i"
    using instructionLength_local [of i at t "concat is"] Cons.prems by auto
  have "i \<noteq> []" using Cons.prems whole_nonempty by simp
  then have "\<not> length t \<le> at" using Cons.prems(1) by auto
  moreover have "walk body t (at + length i) = foldE (\<lambda>(a, i). body a (length i)) (positions (at + length i) is)"
  proof
    fix s
    have "drop (at + length i) t = concat is" using Cons.prems(1) by (metis append_eq_conv_conj concat.simps(2) drop_drop add.commute)
    moreover have "at + length i \<le> length t" using instructionLength_bounds [OF len(1)] len(2) by simp
    ultimately show "walk body t (at + length i) s = foldE (\<lambda>(a, i). body a (length i)) (positions (at + length i) is) s"
      using Cons.IH Cons.prems(2) by simp
  qed
  ultimately show ?case using len by (simp add: walk.simps [of body t at])
qed

lemma walk_whole:
  assumes "walk body t at s = Inr s'" "at \<le> length t"
  shows "\<exists>is. drop at t = concat is \<and> list_all whole is"
  using assms
proof (induction body t at s arbitrary: s' rule: walk.induct)
  case (1 body t at s)
  show ?case
  proof (cases "length t \<le> at")
    case True
    then show ?thesis by (intro exI [of _ "[]"]) simp
  next
    case False
    then obtain len s1 where s: "instructionLength t at = Inr len" "body at (unat len) s = Inr s1" "walk body t (at + unat len) s1 = Inr s'"
      using 1(2) by (subst (asm) walk.simps) (auto simp: bindE_Inr)
    moreover have "at + unat len \<le> length t" using instructionLength_bounds [OF s(1)] by simp
    ultimately obtain "is" where "drop (at + unat len) t = concat is" "list_all whole is" using 1(1) [OF False] by blast
    then show ?thesis using instructionLength_whole [OF s(1)] append_take_drop_id [of "unat len" "drop at t"]
      by (intro exI [of _ "take (unat len) (drop at t) # is"]) (simp add: add.commute)
  qed
qed

lemma instructions_iff: "2 \<le> length t \<Longrightarrow> instructions t = Inr is \<longleftrightarrow> drop 2 t = concat is \<and> list_all whole is"
proof -
  have collect: "foldE (\<lambda>(a, i). (\<lambda>at len acc. Inr (acc @ [take len (drop at t)])) a (length i)) (positions at is) acc = Inr (acc @ is)"
    if "drop at t = concat is" for at acc "is"
    using that
  proof (induction "is" arbitrary: at acc)
    case (Cons i "is")
    then have "take (length i) (drop at t) = i" by simp
    moreover have "drop (at + length i) t = concat is" using Cons.prems by (metis append_eq_conv_conj concat.simps(2) drop_drop add.commute)
    ultimately show ?case using Cons.IH by simp
  qed simp
  assume t: "2 \<le> length t"
  have seg: "instructions t = Inr js" if "drop 2 t = concat js" "list_all whole js" for js
    unfolding instructions_def by (subst walk_fold [OF that t]) (use collect [OF that(1), of "[]"] in simp)
  show ?thesis
  proof
    assume i: "instructions t = Inr is"
    then obtain js where js: "drop 2 t = concat js" "list_all whole js" using walk_whole [OF i [unfolded instructions_def] t] by blast
    then show "drop 2 t = concat is \<and> list_all whole is" using i js seg by simp
  qed (use seg in simp)
qed

section \<open>Programs as bytes\<close>

lemma nth_concat_wordBytes: "k < 4 * length ws \<Longrightarrow> concat (map wordBytes ws) ! k = wordBytes (ws ! (k div 4)) ! (k mod 4)"
proof (induction ws arbitrary: k)
  case (Cons w ws)
  show ?case
  proof (cases "k < 4")
    case False
    then have "concat (map wordBytes (w # ws)) ! k = concat (map wordBytes ws) ! (k - 4)" by (simp add: nth_append)
    also have "\<dots> = wordBytes (ws ! ((k - 4) div 4)) ! ((k - 4) mod 4)" using Cons.IH [of "k - 4"] Cons.prems False by simp
    also have "(k - 4) mod 4 = k mod 4" using False by (simp add: le_mod_geq)
    also have "ws ! ((k - 4) div 4) = (w # ws) ! (k div 4)" using False by (simp add: le_div_geq)
    finally show ?thesis .
  qed (simp add: nth_append)
qed simp

lemma length_concat_wordBytes [simp]: "length (concat (map wordBytes ws)) = 4 * length ws"
  by (induction ws) auto

lemma programWords_concat: "programWords (concat (map wordBytes ws)) = ws"
proof (rule nth_equalityI)
  fix i assume "i < length (programWords (concat (map wordBytes ws)))"
  then have i: "i < length ws" by (simp add: programWords_def)
  have "leWord (concat (map wordBytes ws)) (4 * i) = ws ! i"
    by (rule leWord_wordBytes) (use i in \<open>simp add: nth_concat_wordBytes\<close>)
  then show "programWords (concat (map wordBytes ws)) ! i = ws ! i" using i by (simp add: programWords_def)
qed (simp add: programWords_def)

lemma programWords_nth: "i < length bs div 4 \<Longrightarrow> programWords bs ! i = leWord bs (4 * i)"
  by (simp add: programWords_def)

lemma programOk_words: "programOk programType bs \<Longrightarrow> 2 \<le> length (programWords bs) \<and> programWords bs ! 0 = programType"
  by (auto simp: programOk_def programWords_def)

lemma programBytes_ok:
  assumes "2 \<le> length ws" "length (programBytes ws) < 4294967296" "ws ! 0 = programType"
  shows "programOk programType (programBytes ws) \<and> drop 2 (programWords (programBytes ws)) = drop 2 ws \<and>
    2 \<le> length (programWords (programBytes ws))"
proof -
  define vs where "vs = ws[1 := word_of_nat (length ws)]"
  have p: "programBytes ws = concat (map wordBytes vs)" by (simp add: programBytes_def vs_def)
  have l: "length vs = length ws" "vs ! 0 = ws ! 0" "vs ! 1 = word_of_nat (length ws)" using assms(1) by (simp_all add: vs_def)
  have w: "programWords (programBytes ws) = vs" by (simp add: p programWords_concat)
  have "ws \<noteq> []" using assms(1) by auto
  with w have "leWord (programBytes ws) 0 = vs ! 0" "leWord (programBytes ws) 4 = vs ! 1"
    using programWords_nth [of 0 "programBytes ws"] programWords_nth [of 1 "programBytes ws"] assms(1) l(1) by (simp_all add: p)
  moreover have "unat (word_of_nat (length ws) :: u32) = length ws" using assms(2) l by (simp add: p unat_of_nat take_bit_eq_mod)
  ultimately show ?thesis using assms(1,3) l w by (auto simp: programOk_def p vs_def)
qed

section \<open>The vertex shader's program\<close>

definition isRet :: "u32 list \<Rightarrow> bool" where
  "isRet ins \<longleftrightarrow> opcodeOf (ins ! 0) = kOpRet"

definition vsPut :: "u32 \<Rightarrow> nat \<Rightarrow> nat \<times> u32 list \<Rightarrow> u32 list list" where
  "vsPut reg lastEnd = (\<lambda>(a, i). (if isRet i then [vsMove reg] else []) @ [i] @ (if a + length i = lastEnd then [vsDecl reg] else []))"

lemma positions_nth: "(a, i) \<in> set (positions at is) \<Longrightarrow> drop at t = concat is \<Longrightarrow> at \<le> length t \<Longrightarrow> list_all whole is \<Longrightarrow>
    t ! a = i ! 0 \<and> take (length i) (drop a t) = i \<and> at \<le> a \<and> whole i"
proof (induction "is" arbitrary: at)
  case (Cons j "is")
  have j: "j \<noteq> []" "whole j" using Cons.prems whole_nonempty by auto
  have d: "drop (at + length j) t = concat is" using Cons.prems(2) by (metis append_eq_conv_conj concat.simps(2) drop_drop add.commute)
  have l: "at + length j \<le> length t" using arg_cong [OF Cons.prems(2), of length] Cons.prems(3) by simp
  show ?case
  proof (cases "(a, i) = (at, j)")
    case True
    then have "t ! a = drop at t ! 0" using Cons.prems(3) j arg_cong [OF Cons.prems(2), of length] by (simp add: nth_drop)
    also have "\<dots> = i ! 0" using True j by (simp add: Cons.prems(2) nth_append)
    finally show ?thesis using True Cons.prems j by simp
  next
    case False
    then show ?thesis using Cons.IH [OF _ d l] Cons.prems by auto
  qed
qed simp

lemma vsEmit_fold:
  assumes "\<And>a i. (a, i) \<in> set ps \<Longrightarrow> t ! a = i ! 0 \<and> take (length i) (drop a t) = i"
  shows "foldE (\<lambda>(a, i). vsEmit t reg lastEnd a (length i)) ps out = Inr (out @ concat (concat (map (vsPut reg lastEnd) ps)))"
  using assms
proof (induction ps arbitrary: out)
  case (Cons p ps)
  obtain a i where p: "p = (a, i)" by (cases p)
  have "t ! a = i ! 0 \<and> take (length i) (drop a t) = i" using Cons.prems [of a i] p by simp
  moreover have "\<And>a i. (a, i) \<in> set ps \<Longrightarrow> t ! a = i ! 0 \<and> take (length i) (drop a t) = i" using Cons.prems by simp
  ultimately show ?case using Cons.IH p by (simp add: vsEmit_def vsPut_def isRet_def)
qed simp

lemma positions_append: "positions at (is @ js) = positions at is @ positions (at + length (concat is)) js"
  by (induction "is" arbitrary: at) (auto simp: add.assoc)

lemma positions_snd: "map snd (positions at is) = is"
  by (induction "is" arbitrary: at) auto

lemma positions_ends: "list_all whole is \<Longrightarrow> distinct (map (\<lambda>(a, i). a + length i) (positions at is)) \<and>
    (\<forall>(a, i) \<in> set (positions at is). at < a + length i)"
proof (induction "is" arbitrary: at)
  case (Cons i "is")
  have "0 < length i" using Cons.prems whole_nonempty by simp
  moreover have "distinct (map (\<lambda>(a, i). a + length i) (positions (at + length i) is))"
    "\<forall>(a, j) \<in> set (positions (at + length i) is). at + length i < a + length j" using Cons.IH Cons.prems by auto
  ultimately show ?case by fastforce
qed simp

lemma vsScan_end:
  assumes "foldE (\<lambda>(a, i). vsBody t reg a (length i)) ps s = Inr s'"
  shows "vs_lastOutputEnd s' = vs_lastOutputEnd s \<or> vs_lastOutputEnd s' \<in> (\<lambda>(a, i). a + length i) ` set ps"
  using assms
proof (induction ps arbitrary: s)
  case (Cons p ps)
  obtain a i where p: "p = (a, i)" by (cases p)
  then obtain s1 where s1: "vsBody t reg a (length i) s = Inr s1" "foldE (\<lambda>(a, i). vsBody t reg a (length i)) ps s1 = Inr s'"
    using Cons.prems by (auto simp: bindE_Inr)
  have "vs_lastOutputEnd s1 = vs_lastOutputEnd s \<or> vs_lastOutputEnd s1 = a + length i"
    using s1(1) by (auto simp: vsBody_def Let_def bindE_Inr split: if_splits)
  then show ?case using Cons.IH [OF s1(2)] p by auto
qed simp

lemma count_end: "distinct (map f ps) \<Longrightarrow> e \<in> f ` set ps \<Longrightarrow> length (filter (\<lambda>p. f p = e) ps) = 1"
proof (induction ps)
  case (Cons p ps)
  show ?case
  proof (cases "f p = e")
    case True
    then have "filter (\<lambda>p. f p = e) ps = []" using Cons.prems(1) by (force simp: filter_empty_conv image_iff)
    then show ?thesis using True by simp
  qed (use Cons in auto)
qed simp

lemma vsPut_mset:
  "mset (concat (map (vsPut reg e) ps)) = mset (map snd ps) + replicate_mset (length (filter (\<lambda>(a, i). a + length i = e) ps)) (vsDecl reg) +
     replicate_mset (length (filter isRet (map snd ps))) (vsMove reg)"
  by (induction ps) (auto simp: vsPut_def)

lemma vsPut_subseq: "subseq (map snd ps) (concat (map (vsPut reg e) ps))"
proof (induction ps)
  case (Cons p ps)
  have "subseq [snd p] (vsPut reg e p)" by (cases p) (simp add: subseq_singleton_left vsPut_def)
  from list_emb_append_mono [OF this Cons.IH] show ?case by simp
qed simp

lemma vsPut_whole: "list_all (\<lambda>(a, i). whole i) ps \<Longrightarrow> list_all whole (concat (map (vsPut reg e) ps))"
proof -
  have "whole (vsMove reg)" "whole (vsDecl reg)"
    by (simp_all add: whole_def instructionLength_def opcodeOf_def vsMove_def vsDecl_def bindE_Inr)
  then show "list_all (\<lambda>(a, i). whole i) ps \<Longrightarrow> ?thesis" by (induction ps) (auto simp: vsPut_def)
qed

lemma vs_not_ret: "\<not> isRet (vsMove reg)" "\<not> isRet (vsDecl reg)"
  by (simp_all add: isRet_def vsMove_def vsDecl_def opcodeOf_def kOpRet_def)

text \<open>Every return comes right after the instructions \<open>tail\<close>.\<close>

definition guarded :: "u32 list list \<Rightarrow> u32 list list \<Rightarrow> bool" where
  "guarded tail is \<longleftrightarrow> (\<forall>k < length is. isRet (is ! k) \<longrightarrow> suffix tail (take k is))"

lemma guarded_append: "guarded tail is \<Longrightarrow> guarded tail js \<Longrightarrow> guarded tail (is @ js)"
  by (auto simp: guarded_def nth_append intro: suffix_appendI)

lemma guarded_concat: "list_all (guarded tail) iss \<Longrightarrow> guarded tail (concat iss)"
proof (induction iss)
  case Nil
  show ?case by (simp add: guarded_def)
qed (simp add: guarded_append)

lemma guarded_unret: "list_all (\<lambda>i. \<not> isRet i) is \<Longrightarrow> guarded tail is"
  by (simp add: guarded_def list_all_length)

lemma guarded_ret: "list_all (\<lambda>i. \<not> isRet i) tail \<Longrightarrow> guarded tail (tail @ [i])"
  by (auto simp: guarded_def list_all_length nth_append less_Suc_eq)

lemma vsPut_guarded: "guarded [vsMove reg] (concat (map (vsPut reg e) ps))"
proof (rule guarded_concat, unfold list_all_iff, rule ballI)
  fix "is" assume "is \<in> set (map (vsPut reg e) ps)"
  then obtain p where "is = vsPut reg e p" by auto
  moreover have "guarded [vsMove reg] (vsPut reg e (a, i))" for a i
  proof (cases "isRet i")
    case True
    have "guarded [vsMove reg] ([vsMove reg] @ [i])" by (rule guarded_ret) (simp add: vs_not_ret)
    moreover have "guarded [vsMove reg] (if a + length i = e then [vsDecl reg] else [])" by (rule guarded_unret) (simp add: vs_not_ret)
    ultimately show ?thesis using guarded_append True by (fastforce simp: vsPut_def)
  qed (auto simp: vsPut_def vs_not_ret intro: guarded_unret)
  ultimately show "guarded [vsMove reg] is" by (cases p) simp
qed

lemma positions_word: "(a, i) \<in> set (positions at is) \<Longrightarrow> drop at t = concat is \<Longrightarrow> at \<le> length t \<Longrightarrow> list_all whole is \<Longrightarrow>
    k < length i \<Longrightarrow> t ! (a + k) = i ! k"
proof -
  assume a: "(a, i) \<in> set (positions at is)" "drop at t = concat is" "at \<le> length t" "list_all whole is" "k < length i"
  then have e: "take (length i) (drop a t) = i" using positions_nth by blast
  then have "length i \<le> length t - a" by (metis length_drop length_take min.absorb_iff2 min.commute)
  then have "take (length i) (drop a t) ! k = t ! (a + k)" using a(5) by simp
  then show ?thesis using e by simp
qed

definition writesRegister :: "u32 \<Rightarrow> u32 list \<Rightarrow> bool" where
  "writesRegister reg i \<longleftrightarrow> isOutputDecl (opcodeOf (i ! 0)) \<and> 3 \<le> length i \<and> operandType (i ! 1) = 2 \<and> i ! 2 = reg"

lemma vsScan_free:
  assumes "foldE (\<lambda>(a, i). vsBody t reg a (length i)) ps s = Inr s'"
    "\<And>a i. (a, i) \<in> set ps \<Longrightarrow> i \<noteq> [] \<and> (\<forall>k < length i. t ! (a + k) = i ! k)"
  shows "list_all (\<lambda>(a, i). \<not> writesRegister reg i) ps"
  using assms
proof (induction ps arbitrary: s)
  case (Cons p ps)
  obtain a i where p: "p = (a, i)" by (cases p)
  then obtain s1 where s1: "vsBody t reg a (length i) s = Inr s1" "foldE (\<lambda>(a, i). vsBody t reg a (length i)) ps s1 = Inr s'"
    using Cons.prems(1) by (auto simp: bindE_Inr)
  have n: "t ! (a + k) = i ! k" if "k < length i" for k using Cons.prems(2) p that by simp
  have "t ! a = i ! 0" using n [of 0] Cons.prems(2) [of a i] p by simp
  then have "\<not> writesRegister reg i" using s1(1) n [of 1] n [of 2] by (auto simp: vsBody_def Let_def bindE_Inr writesRegister_def split: if_splits)
  moreover have "list_all (\<lambda>(a, i). \<not> writesRegister reg i) ps"
    by (rule Cons.IH [OF s1(2)]) (rule Cons.prems(2), simp)
  ultimately show ?case using p by simp
qed simp

definition vsPatched :: "u32 \<Rightarrow> byte list \<Rightarrow> byte list \<Rightarrow> bool" where
  "vsPatched reg bs bs' \<longleftrightarrow> programOk kVs50 bs' \<and>
     (\<exists>is is'. instructions (programWords bs) = Inr is \<and> instructions (programWords bs') = Inr is' \<and>
       subseq is is' \<and> mset is' = mset is + {#vsDecl reg#} + replicate_mset (length (filter isRet is)) (vsMove reg) \<and>
       guarded [vsMove reg] is' \<and> list_all (\<lambda>i. \<not> writesRegister reg i) is)"

lemma patchVsProgram_patched:
  assumes "patchVsProgram bs reg = Inr bs'" "programOk kVs50 bs" "length bs' < 4294967296"
  shows "vsPatched reg bs bs'"
proof -
  define t where "t = programWords bs"
  have t: "2 \<le> length t" "t ! 0 = kVs50" using programOk_words [OF assms(2)] by (simp_all add: t_def)
  obtain s out where s: "walk (vsBody t reg) t 2 \<lparr>vs_lastOutputEnd = 0, vs_v0x = False, vs_rets = False\<rparr> = Inr s" "vs_lastOutputEnd s \<noteq> 0"
    and w: "walk (vsEmit t reg (vs_lastOutputEnd s)) t 2 [t ! 0, 0] = Inr out" and bs': "bs' = programBytes out"
    using assms(1) by (auto simp: patchVsProgram_def t_def [symmetric] Let_def bindE_Inr split: if_splits)
  obtain "is" where i: "drop 2 t = concat is" "list_all whole is" using walk_whole [OF s(1) t(1)] by blast
  define ps where "ps = positions 2 is"
  define is' where "is' = concat (map (vsPut reg (vs_lastOutputEnd s)) ps)"
  have pn: "t ! a = j ! 0 \<and> take (length j) (drop a t) = j \<and> 2 \<le> a \<and> whole j" if "(a, j) \<in> set ps" for a j
    using that positions_nth [OF _ i(1) t(1) i(2)] by (simp add: ps_def)
  have f: "foldE (\<lambda>(a, i). vsBody t reg a (length i)) ps \<lparr>vs_lastOutputEnd = 0, vs_v0x = False, vs_rets = False\<rparr> = Inr s"
    using s(1) walk_fold [OF i t(1), of "vsBody t reg"] by (simp add: ps_def)
  have "out = [t ! 0, 0] @ concat is'"
    using w walk_fold [OF i t(1), of "vsEmit t reg (vs_lastOutputEnd s)"] vsEmit_fold [of ps t] pn by (simp add: ps_def is'_def)
  then have o2: "2 \<le> length out" "out ! 0 = kVs50" "drop 2 out = concat is'" using t by simp_all
  have ok: "programOk kVs50 bs'" "drop 2 (programWords bs') = concat is'" "2 \<le> length (programWords bs')"
    using programBytes_ok [OF o2(1) _ o2(2)] assms(3) o2(3) by (simp_all add: bs')
  have "list_all (\<lambda>(a, i). whole i) ps" using pn by (auto simp: list_all_iff)
  then have "list_all whole is'" unfolding is'_def by (rule vsPut_whole)
  then have "instructions (programWords bs') = Inr is'" using instructions_iff ok(2,3) by blast
  moreover have "instructions t = Inr is" using instructions_iff t(1) i by blast
  moreover have "length (filter (\<lambda>(a, i). a + length i = vs_lastOutputEnd s) ps) = 1"
    using count_end [of "\<lambda>(a, i). a + length i" ps "vs_lastOutputEnd s"] positions_ends [OF i(2), of 2] vsScan_end [OF f] s(2)
    by (auto simp: ps_def case_prod_unfold)
  then have "mset is' = mset is + {#vsDecl reg#} + replicate_mset (length (filter isRet is)) (vsMove reg)"
    by (simp add: is'_def vsPut_mset ps_def positions_snd)
  moreover have "subseq is is'" using vsPut_subseq [of ps] by (simp add: is'_def ps_def positions_snd)
  moreover have "list_all (\<lambda>(a, i). \<not> writesRegister reg i) ps"
    by (rule vsScan_free [OF f]) (use positions_word [OF _ i(1) t(1) i(2)] pn whole_nonempty in \<open>auto simp: ps_def\<close>)
  then have "list_all (\<lambda>i. \<not> writesRegister reg i) (map snd ps)" by (auto simp: list_all_iff)
  ultimately show ?thesis using ok(1) vsPut_guarded by (auto simp: vsPatched_def t_def is'_def ps_def positions_snd)
qed

section \<open>The pixel shader's program\<close>

definition isPositionDecl :: "EngineVelocityInputs \<Rightarrow> u32 list \<Rightarrow> bool" where
  "isPositionDecl inp i \<longleftrightarrow> isInputPsDecl i 0 (length i) \<and> i ! 2 = ev_positionRegister inp"

definition positionRead :: "EngineVelocityInputs \<Rightarrow> u32 list \<Rightarrow> u32 list" where
  "positionRead inp i = (if isPositionDecl inp i then i[1 := or (i ! 1) 0x40] else i)"

definition isTemps :: "u32 list \<Rightarrow> bool" where
  "isTemps i \<longleftrightarrow> opcodeOf (i ! 0) = 104"

definition writesTarget :: "u32 list \<Rightarrow> bool" where
  "writesTarget i \<longleftrightarrow> isOutputDecl (opcodeOf (i ! 0)) \<and> 3 \<le> length i \<and> operandType (i ! 1) = 2 \<and> kEngineVelocityTarget \<le> i ! 2"

text \<open>What the first loop has found out about the instructions \<open>ps\<close> between two of its states.\<close>

definition scanned :: "EngineVelocityInputs \<Rightarrow> (nat \<times> u32 list) list \<Rightarrow> PsScan \<Rightarrow> PsScan \<Rightarrow> bool" where
  "scanned inp ps s s' \<longleftrightarrow>
     (ps_firstOutput s' = ps_firstOutput s \<or> ps_firstOutput s' \<in> fst ` set ps) \<and>
     (filter (isTemps \<circ> snd) ps = [] \<and> ps_tempAt s' = ps_tempAt s \<and> ps_tempCount s' = ps_tempCount s \<or>
      ps_tempAt s = 0 \<and> (\<exists>i. filter (isTemps \<circ> snd) ps = [(ps_tempAt s', i)] \<and> ps_tempAt s' \<noteq> 0 \<and> length i = 2 \<and>
        i ! 1 = ps_tempCount s' \<and> ps_tempCount s' \<le> 4092)) \<and>
     (ps_positionDeclared s' \<longleftrightarrow> ps_positionDeclared s \<or> list_ex (isPositionDecl inp \<circ> snd) ps) \<and>
     list_all (\<lambda>(a, i). \<not> writesTarget i) ps"

lemma scanned_Nil [simp]: "scanned inp [] s s"
  by (simp add: scanned_def)

lemma scanned_Cons: "scanned inp [p] s s1 \<Longrightarrow> scanned inp ps s1 s' \<Longrightarrow> scanned inp (p # ps) s s'"
  unfolding scanned_def by (cases "isTemps (snd p)") (auto split: if_splits)

lemma length_positionRead [simp]: "length (positionRead inp i) = length i"
  by (simp add: positionRead_def)

lemma positionRead_0 [simp]: "positionRead inp i ! 0 = i ! 0"
  by (cases i) (simp_all add: positionRead_def)

lemma whole_opcode: "opcodeOf (i ! 0) \<noteq> 53 \<Longrightarrow> i \<noteq> [] \<Longrightarrow> whole i \<longleftrightarrow> unat (and (drop_bit 24 (i ! 0)) 127) = length i"
  by (auto simp: whole_def instructionLength_def unat_eq_0)

lemma whole_positionRead: "whole i \<Longrightarrow> whole (positionRead inp i)"
proof (cases "isPositionDecl inp i")
  case True
  moreover assume "whole i"
  moreover have "opcodeOf (i ! 0) \<noteq> 53" using True by (auto simp: isPositionDecl_def isInputPsDecl_def)
  moreover have "i \<noteq> []" "positionRead inp i \<noteq> []" using True by (auto simp: isPositionDecl_def isInputPsDecl_def positionRead_def)
  ultimately show ?thesis using whole_opcode [of i] whole_opcode [of "positionRead inp i"] by simp
qed (simp add: positionRead_def)

lemma psInput_effect:
  assumes "psInput inp at len s = Inr s'"
  shows "ps_firstOutput s' = ps_firstOutput s \<and> ps_tempAt s' = ps_tempAt s \<and> ps_tempCount s' = ps_tempCount s \<and>
    (let pos = (isInputPsDecl (ps_t s) at len \<and> ps_t s ! (at + 2) = ev_positionRegister inp) in
     (ps_positionDeclared s' \<longleftrightarrow> ps_positionDeclared s \<or> pos) \<and>
     ps_t s' = (if pos then (ps_t s)[at + 1 := or (ps_t s ! (at + 1)) 0x40] else ps_t s))"
  using assms by (auto simp: psInput_def Let_def split: if_splits)

lemma psTemps_effect:
  "psTemps at len s = Inr s' \<longleftrightarrow> (if opcodeOf (ps_t s ! at) \<noteq> 104 then s' = s
     else ps_tempAt s = 0 \<and> len = 2 \<and> ps_t s ! (at + 1) \<le> 4092 \<and> s' = s\<lparr>ps_tempAt := at, ps_tempCount := ps_t s ! (at + 1)\<rparr>)"
  by (auto simp: psTemps_def)

lemma psBody_step:
  assumes "psBody inp at (length i) s = Inr s1" "\<And>k. k < length i \<Longrightarrow> ps_t s ! (at + k) = i ! k" "i \<noteq> []" "at \<noteq> 0"
  shows "scanned inp [(at, i)] s s1 \<and> ps_t s1 = (if isPositionDecl inp i then (ps_t s)[at + 1 := or (i ! 1) 0x40] else ps_t s)"
proof -
  have h: "ps_t s ! at = i ! 0" using assms(2) [of 0] assms(3) by simp
  have n: "1 < length i \<Longrightarrow> ps_t s ! (at + 1) = i ! 1" "2 < length i \<Longrightarrow> ps_t s ! (at + 2) = i ! 2"
    using assms(2) [of 1] assms(2) [of 2] by simp_all
  have d: "isInputPsDecl (ps_t s) at (length i) \<longleftrightarrow> isInputPsDecl i 0 (length i)" using h n by (auto simp: isInputPsDecl_def)
  have u: "isInputPsDecl i 0 (length i) \<Longrightarrow> \<not> isTemps i \<and> 2 < length i" by (auto simp: isInputPsDecl_def isTemps_def)
  obtain sa sb where st: "\<not> writesTarget i" "psInput inp at (length i) sa = Inr sb"
      "sa = s\<lparr>ps_firstExecutable := ps_firstExecutable sa, ps_firstOutput := ps_firstOutput sa\<rparr>"
      "ps_firstOutput sa \<in> {ps_firstOutput s, at}" and s1: "psTemps at (length i) sb = Inr (s1\<lparr>ps_returns := ps_returns sb\<rparr>)"
    using assms(1) h n by (auto simp: psBody_def Let_def bindE_Inr writesTarget_def psTemps_effect split: if_splits)
  have sa: "ps_t sa = ps_t s" "ps_tempAt sa = ps_tempAt s" "ps_tempCount sa = ps_tempCount s" "ps_positionDeclared sa = ps_positionDeclared s"
    by (subst st(3), simp)+
  define pos where "pos = isPositionDecl inp i"
  have pos: "pos \<longleftrightarrow> isInputPsDecl (ps_t sa) at (length i) \<and> ps_t sa ! (at + 2) = ev_positionRegister inp"
    using d u n by (auto simp: pos_def isPositionDecl_def sa)
  have sb: "ps_firstOutput sb = ps_firstOutput sa" "ps_tempAt sb = ps_tempAt s" "ps_tempCount sb = ps_tempCount s"
    "ps_positionDeclared sb \<longleftrightarrow> ps_positionDeclared s \<or> pos" "ps_t sb = (if pos then (ps_t s)[at + 1 := or (i ! 1) 0x40] else ps_t s)"
    using psInput_effect [OF st(2)] n u d unfolding Let_def pos [symmetric] by (auto simp: sa pos_def isPositionDecl_def)
  have t: "ps_t sb ! at = i ! 0" "\<not> pos \<Longrightarrow> 1 < length i \<Longrightarrow> ps_t sb ! (at + 1) = i ! 1" using h n by (auto simp: sb)
  have np: "isTemps i \<Longrightarrow> \<not> pos" using u by (auto simp: pos_def isPositionDecl_def)
  show ?thesis
  proof (cases "isTemps i")
    case True
    then have "ps_tempAt s = 0" "length i = 2" "i ! 1 \<le> 4092" "s1\<lparr>ps_returns := ps_returns sb\<rparr> = sb\<lparr>ps_tempAt := at, ps_tempCount := i ! 1\<rparr>"
      using s1 t np by (auto simp: psTemps_effect isTemps_def sb split: if_splits)
    moreover from this(4) have "ps_t s1 = ps_t sb" "ps_firstOutput s1 = ps_firstOutput sb" "ps_tempAt s1 = at" "ps_tempCount s1 = i ! 1"
      "ps_positionDeclared s1 = ps_positionDeclared sb"
      by (cases s1, cases sb, simp)+
    ultimately show ?thesis using True np st(1,4) assms(4) by (auto simp: scanned_def sb pos_def [symmetric])
  next
    case False
    then have "s1\<lparr>ps_returns := ps_returns sb\<rparr> = sb" using s1 t by (simp add: psTemps_effect isTemps_def)
    then have "ps_t s1 = ps_t sb" "ps_firstOutput s1 = ps_firstOutput sb" "ps_tempAt s1 = ps_tempAt sb" "ps_tempCount s1 = ps_tempCount sb"
      "ps_positionDeclared s1 = ps_positionDeclared sb"
      by (cases s1, cases sb, simp)+
    then show ?thesis using False st(1,4) by (auto simp: scanned_def sb pos_def [symmetric])
  qed
qed

lemma psScan_split:
  assumes "psScan inp at s = Inr s'" "at \<le> length (ps_t s)" "at \<noteq> 0"
  shows "\<exists>is. drop at (ps_t s) = concat is \<and> list_all whole is \<and> drop at (ps_t s') = concat (map (positionRead inp) is) \<and>
    take at (ps_t s') = take at (ps_t s) \<and> scanned inp (positions at is) s s'"
  using assms
proof (induction inp at s arbitrary: s' rule: psScan.induct)
  case (1 inp at s)
  show ?case
  proof (cases "length (ps_t s) \<le> at")
    case True
    then have "s' = s" using 1(2) by (simp add: psScan.simps)
    then show ?thesis using True by (intro exI [of _ "[]"]) simp
  next
    case False
    then obtain len s1 where s: "instructionLength (ps_t s) at = Inr len" "psBody inp at (unat len) s = Inr s1" "psScan inp (at + unat len) s1 = Inr s'"
      using 1(2) by (subst (asm) psScan.simps) (auto simp: bindE_Inr)
    define i where "i = take (unat len) (drop at (ps_t s))"
    have b: "0 < unat len" "at + unat len \<le> length (ps_t s)" using instructionLength_bounds [OF s(1)] by simp_all
    then have li: "length i = unat len" by (simp add: i_def)
    have whi: "whole i" unfolding i_def by (rule instructionLength_whole [OF s(1)])
    have ti: "ps_t s ! (at + k) = i ! k" if "k < length i" for k using that b li by (simp add: i_def)
    have st: "scanned inp [(at, i)] s s1" "ps_t s1 = (if isPositionDecl inp i then (ps_t s)[at + 1 := or (i ! 1) 0x40] else ps_t s)"
      using psBody_step [of inp at i s s1] s(2) ti li 1(4) whole_nonempty [OF whi] by auto
    have l1: "length (ps_t s1) = length (ps_t s)" using st(2) by simp
    obtain "is" where r: "drop (at + unat len) (ps_t s1) = concat is" "list_all whole is"
      "drop (at + unat len) (ps_t s') = concat (map (positionRead inp) is)" "take (at + unat len) (ps_t s') = take (at + unat len) (ps_t s1)"
      "scanned inp (positions (at + unat len) is) s1 s'"
      using 1(1) [OF False s(1,2)] s(3) b l1 by auto
    have m: "1 < unat len" if "isPositionDecl inp i" using that li by (auto simp: isPositionDecl_def isInputPsDecl_def)
    have d1: "drop (at + unat len) (ps_t s1) = drop (at + unat len) (ps_t s)" "take at (ps_t s1) = take at (ps_t s)"
      using st(2) m by auto
    have i1: "take (unat len) (drop at (ps_t s1)) = positionRead inp i"
      using st(2) m b by (auto simp: positionRead_def i_def drop_update_swap take_update_swap)
    have "drop at (ps_t s) = concat (i # is)" using append_take_drop_id [of "unat len" "drop at (ps_t s)"] r(1) d1(1)
      by (simp add: i_def add.commute)
    moreover have "take (unat len) (drop at (ps_t s')) = positionRead inp i"
      using i1 r(4) by (metis add.commute take_drop)
    then have "drop at (ps_t s') = concat (map (positionRead inp) (i # is))"
      using append_take_drop_id [of "unat len" "drop at (ps_t s')"] r(3) by (simp add: add.commute)
    moreover have "take at (ps_t s') = take at (ps_t s)" using r(4) d1(2) by (metis min.absorb1 le_add1 take_take)
    moreover have "scanned inp (positions at (i # is)) s s'" using scanned_Cons [OF st(1)] r(5) li by simp
    ultimately show ?thesis using whi r(2) by (intro exI [of _ "i # is"]) simp
  qed
qed

definition psPut :: "EngineVelocityInputs \<Rightarrow> PsScan \<Rightarrow> nat \<times> u32 list \<Rightarrow> u32 list list" where
  "psPut inp s = (\<lambda>(a, i).
     (if a = ps_firstOutput s then (if ps_positionDeclared s then [] else [posDecl inp]) @ (if ev_slotFromVsPatch inp then [slotDecl inp] else [])
      else []) @
     (if ps_tempAt s \<noteq> 0 \<and> a = ps_tempAt s then [outDecl, [i ! 0, ps_tempCount s + 1]]
      else (if ps_tempAt s = 0 \<and> a = ps_firstExecutable s then [outDecl, [0x02000068, 1]] else []) @
           (if isRet i then psTail inp (ps_tempCount s) else []) @ [i]))"

definition outputPlace :: "PsScan \<Rightarrow> nat" where
  "outputPlace s = (if ps_tempAt s \<noteq> 0 then ps_tempAt s else ps_firstExecutable s)"

lemma psEmit_fold:
  assumes "\<And>a i. (a, i) \<in> set ps \<Longrightarrow> ps_t s ! a = i ! 0 \<and> take (length i) (drop a (ps_t s)) = i"
  shows "foldE (\<lambda>(a, i). psEmit inp s a (length i)) ps (out, b) =
    Inr (out @ concat (concat (map (psPut inp s) ps)), b \<or> outputPlace s \<in> fst ` set ps)"
  using assms
proof (induction ps arbitrary: out b)
  case (Cons p ps)
  obtain a i where p: "p = (a, i)" by (cases p)
  have t: "ps_t s ! a = i ! 0 \<and> take (length i) (drop a (ps_t s)) = i" using Cons.prems [of a i] p by simp
  then have "psEmit inp s a (length i) (out, b) = Inr (out @ concat (psPut inp s p), b \<or> outputPlace s = a)"
    unfolding p psEmit_def Let_def by (auto simp: psPut_def isRet_def outputPlace_def)
  moreover have "\<And>a i. (a, i) \<in> set ps \<Longrightarrow> ps_t s ! a = i ! 0 \<and> take (length i) (drop a (ps_t s)) = i" using Cons.prems by simp
  ultimately show ?case using Cons.IH p by simp
qed simp

definition bumped :: "u32 list \<Rightarrow> u32 list" where
  "bumped i = (if isTemps i then [i ! 0, i ! 1 + 1] else i)"

text \<open>The scan knows every declaration of temporaries: there is at most one, and where it stands.\<close>

definition tempsKnown :: "(nat \<times> u32 list) list \<Rightarrow> PsScan \<Rightarrow> bool" where
  "tempsKnown ps s \<longleftrightarrow> (\<forall>(a, i) \<in> set ps. (isTemps i \<longleftrightarrow> ps_tempAt s \<noteq> 0 \<and> a = ps_tempAt s) \<and>
     (isTemps i \<longrightarrow> length i = 2 \<and> i ! 1 = ps_tempCount s))"

lemma psPut_bumped:
  assumes "tempsKnown ps s" "(a, i) \<in> set ps"
  shows "subseq [bumped i] (psPut inp s (a, i)) \<and>
    mset (psPut inp s (a, i)) = {#bumped i#} +
      (if a = ps_firstOutput s then (if ps_positionDeclared s then {#} else {#posDecl inp#}) + (if ev_slotFromVsPatch inp then {#slotDecl inp#} else {#})
       else {#}) +
      (if a = outputPlace s then {#outDecl#} + (if ps_tempAt s = 0 then {#[0x02000068, 1]#} else {#}) else {#}) +
      (if isRet i then mset (psTail inp (ps_tempCount s)) else {#})"
proof -
  have "isTemps i \<longleftrightarrow> ps_tempAt s \<noteq> 0 \<and> a = ps_tempAt s" "isTemps i \<Longrightarrow> length i = 2 \<and> i ! 1 = ps_tempCount s"
    using assms by (auto simp: tempsKnown_def)
  moreover have "isTemps i \<Longrightarrow> \<not> isRet i" by (simp add: isTemps_def isRet_def kOpRet_def)
  ultimately show ?thesis
    by (cases "isTemps i"; cases "ps_tempAt s = 0") (auto simp: psPut_def bumped_def outputPlace_def subseq_singleton_left)
qed

lemma ps_whole: "whole (posDecl inp)" "whole (slotDecl inp)" "whole outDecl" "whole [0x02000068, 1]" "list_all whole (psTail inp temp)"
  by (simp_all add: whole_def instructionLength_def opcodeOf_def posDecl_def slotDecl_def outDecl_def psTail_def bindE_Inr)

lemma ps_not_ret: "\<not> isRet (posDecl inp)" "\<not> isRet (slotDecl inp)" "\<not> isRet outDecl" "\<not> isRet [0x02000068, 1]"
  "list_all (\<lambda>i. \<not> isRet i) (psTail inp temp)"
  by (simp_all add: isRet_def opcodeOf_def posDecl_def slotDecl_def outDecl_def psTail_def kOpRet_def)

lemma whole_bumped: "whole i \<Longrightarrow> isTemps i \<Longrightarrow> length i = 2 \<Longrightarrow> whole [i ! 0, x]"
  using whole_opcode [of i] whole_opcode [of "[i ! 0, x]"] whole_nonempty [of i] by (simp add: isTemps_def)

lemma psPut_whole:
  assumes "tempsKnown ps s" "(a, i) \<in> set ps" "whole i"
  shows "list_all whole (psPut inp s (a, i))"
proof -
  have "isTemps i \<longleftrightarrow> ps_tempAt s \<noteq> 0 \<and> a = ps_tempAt s" "isTemps i \<Longrightarrow> length i = 2" using assms by (auto simp: tempsKnown_def)
  then show ?thesis using whole_bumped [OF assms(3)] assms(3) by (auto simp: psPut_def ps_whole)
qed

lemma psPut_guarded:
  assumes "tempsKnown ps s" "(a, i) \<in> set ps"
  shows "guarded (psTail inp (ps_tempCount s)) (psPut inp s (a, i))"
proof -
  define tail where "tail = psTail inp (ps_tempCount s)"
  have k: "isTemps i \<longleftrightarrow> ps_tempAt s \<noteq> 0 \<and> a = ps_tempAt s" using assms by (auto simp: tempsKnown_def)
  have "\<not> isRet [i ! 0, x]" if "isTemps i" for x using that by (simp add: isTemps_def isRet_def kOpRet_def)
  then have t: "guarded tail [outDecl, [i ! 0, x]]" if "isTemps i" for x using that by (intro guarded_unret) (simp add: ps_not_ret)
  have h: "guarded tail (if c then (if d then [] else [posDecl inp]) @ (if e then [slotDecl inp] else []) else [])" for c d e
    by (rule guarded_unret) (simp add: ps_not_ret)
  have o: "guarded tail (if c then [outDecl, [0x02000068, 1]] else [])" for c by (rule guarded_unret) (simp add: ps_not_ret)
  have r: "guarded tail ((if isRet i then tail else []) @ [i])"
    using guarded_ret [of tail i] guarded_unret [of "[i]" tail] by (auto simp: tail_def ps_not_ret)
  show ?thesis unfolding psPut_def prod.case tail_def [symmetric] k [symmetric]
    by (cases "isTemps i") (simp_all only: if_True if_False guarded_append h o r t)
qed

lemma positions_map: "(\<And>i. length (f i) = length i) \<Longrightarrow> positions at (map f is) = map (\<lambda>(a, i). (a, f i)) (positions at is)"
  by (induction "is" arbitrary: at) auto

lemma positions_starts: "list_all whole is \<Longrightarrow> distinct (map fst (positions at is)) \<and> (\<forall>(a, i) \<in> set (positions at is). at \<le> a)"
proof (induction "is" arbitrary: at)
  case (Cons i "is")
  have "0 < length i" using Cons.prems whole_nonempty by simp
  moreover have "distinct (map fst (positions (at + length i) is))" "\<forall>(a, j) \<in> set (positions (at + length i) is). at + length i \<le> a"
    using Cons.IH Cons.prems by auto
  ultimately show ?case by fastforce
qed simp

lemma filter_place: "distinct (map fst ps) \<Longrightarrow> filter P ps = [(b, j)] \<Longrightarrow> (a, i) \<in> set ps \<Longrightarrow> P (a, i) \<longleftrightarrow> a = b"
proof -
  assume d: "distinct (map fst ps)" and f: "filter P ps = [(b, j)]" and m: "(a, i) \<in> set ps"
  have "(b, j) \<in> set ps \<and> P (b, j)" using arg_cong [OF f, of set] by auto
  moreover have "P (a, i) \<Longrightarrow> (a, i) = (b, j)" using arg_cong [OF f, of set] m by auto
  ultimately show ?thesis using d m by (auto dest: eq_key_imp_eq_value)
qed

lemma tempsKnown_scanned:
  assumes "scanned inp ps s s'" "ps_tempAt s = 0" "distinct (map fst ps)"
  shows "tempsKnown ps s'"
proof (cases "filter (isTemps \<circ> snd) ps = []")
  case True
  then have "ps_tempAt s' = 0" using assms(1,2) by (auto simp: scanned_def)
  then show ?thesis using True by (auto simp: tempsKnown_def filter_empty_conv)
next
  case False
  then obtain i where i: "filter (isTemps \<circ> snd) ps = [(ps_tempAt s', i)]" "ps_tempAt s' \<noteq> 0" "length i = 2" "i ! 1 = ps_tempCount s'"
    using assms(1) by (auto simp: scanned_def)
  have "(ps_tempAt s', i) \<in> set ps" using arg_cong [OF i(1), of set] by auto
  moreover note filter_place [OF assms(3) i(1)]
  ultimately show ?thesis using i(2-) assms(3) by (auto simp: tempsKnown_def dest: eq_key_imp_eq_value)
qed

lemma subseq_psPut:
  "tempsKnown ps s \<Longrightarrow> subseq (map (bumped \<circ> snd) ps) (concat (map (psPut inp s) ps))"
proof (induction ps)
  case (Cons p ps)
  have k: "tempsKnown ps s" using Cons.prems by (simp add: tempsKnown_def)
  have "subseq [bumped (snd p)] (psPut inp s p)" using psPut_bumped [OF Cons.prems, of "fst p" "snd p"] by simp
  from list_emb_append_mono [OF this Cons.IH [OF k]] show ?case by simp
qed simp

definition inputDecls :: "EngineVelocityInputs \<Rightarrow> bool \<Rightarrow> u32 list multiset" where
  "inputDecls inp declared = (if declared then {#} else {#posDecl inp#}) + (if ev_slotFromVsPatch inp then {#slotDecl inp#} else {#})"

definition outputDecls :: "bool \<Rightarrow> u32 list multiset" where
  "outputDecls declared = {#outDecl#} + (if declared then {#} else {#[0x02000068, 1]#})"

lemma mset_psPut:
  assumes "tempsKnown ps s" "distinct (map fst ps)"
  shows "mset (concat (map (psPut inp s) ps)) = mset (map (bumped \<circ> snd) ps) +
      (if ps_firstOutput s \<in> fst ` set ps then inputDecls inp (ps_positionDeclared s) else {#}) +
      (if outputPlace s \<in> fst ` set ps then outputDecls (ps_tempAt s \<noteq> 0) else {#}) +
      repeat_mset (length (filter (isRet \<circ> snd) ps)) (mset (psTail inp (ps_tempCount s)))"
  using assms
proof (induction ps)
  case (Cons p ps)
  obtain a i where p: "p = (a, i)" by (cases p)
  have "mset (psPut inp s p) = {#bumped i#} + (if a = ps_firstOutput s then inputDecls inp (ps_positionDeclared s) else {#}) +
      (if a = outputPlace s then outputDecls (ps_tempAt s \<noteq> 0) else {#}) + (if isRet i then mset (psTail inp (ps_tempCount s)) else {#})"
    using psPut_bumped [OF Cons.prems(1), of a i inp] p by (simp add: inputDecls_def outputDecls_def)
  moreover have "tempsKnown ps s" using Cons.prems(1) by (simp add: tempsKnown_def)
  moreover have "a \<notin> fst ` set ps" "distinct (map fst ps)" using Cons.prems(2) p by auto
  moreover from this(1) have "\<And>b. (a, b) \<notin> set ps" by force
  ultimately show ?case using Cons.IH p by (cases "isRet i") auto
qed simp

definition tempsDeclared :: "u32 list list \<Rightarrow> u32" where
  "tempsDeclared is = (case filter isTemps is of [] \<Rightarrow> 0 | i # _ \<Rightarrow> i ! 1)"

lemma list_ex_filter: "list_ex P xs \<longleftrightarrow> filter P xs \<noteq> []"
  by (induction xs) auto

lemma list_ex_positions: "list_ex (P \<circ> snd) (positions at is) = list_ex P is"
  by (induction "is" arbitrary: at) auto

lemma list_all_positions: "list_all (\<lambda>(a, i). P i) (positions at is) = list_all P is"
  by (induction "is" arbitrary: at) auto

lemma filter_positions: "filter P is = map snd (filter (P \<circ> snd) (positions at is))"
  by (metis filter_map positions_snd)

definition psPatched :: "EngineVelocityInputs \<Rightarrow> byte list \<Rightarrow> byte list \<Rightarrow> bool" where
  "psPatched inp bs bs' \<longleftrightarrow> programOk kPs50 bs' \<and>
     (\<exists>is is'. instructions (programWords bs) = Inr is \<and> instructions (programWords bs') = Inr is' \<and>
       subseq (map (bumped \<circ> positionRead inp) is) is' \<and>
       mset is' = mset (map (bumped \<circ> positionRead inp) is) + inputDecls inp (list_ex (isPositionDecl inp) is) + outputDecls (list_ex isTemps is) +
         repeat_mset (length (filter isRet is)) (mset (psTail inp (tempsDeclared is))) \<and>
       guarded (psTail inp (tempsDeclared is)) is' \<and> list_all (\<lambda>i. \<not> writesTarget i) is \<and> tempsDeclared is \<le> 4092)"

lemma patchPsProgram_patched:
  assumes "patchPsProgram bs inp = Inr bs'" "programOk kPs50 bs" "length bs' < 4294967296"
  shows "psPatched inp bs bs'"
proof -
  define t where "t = programWords bs"
  have t: "2 \<le> length t" "t ! 0 = kPs50" using programOk_words [OF assms(2)] by (simp_all add: t_def)
  obtain s out where s: "psScan inp 2 (psStart t) = Inr s" "ps_firstOutput s \<noteq> 0"
    and w: "walk (psEmit inp s) (ps_t s) 2 ([ps_t s ! 0, 0], False) = Inr (out, True)" and bs': "bs' = programBytes out"
    using assms(1) by (auto simp: patchPsProgram_def t_def [symmetric] Let_def bindE_Inr split: if_splits)
  obtain "is" where i: "drop 2 t = concat is" "list_all whole is" "drop 2 (ps_t s) = concat (map (positionRead inp) is)"
    "take 2 (ps_t s) = take 2 t" "scanned inp (positions 2 is) (psStart t) s"
    using psScan_split [OF s(1)] t(1) by (auto simp: psStart_def)
  define js where "js = map (positionRead inp) is"
  define ps where "ps = positions 2 js"
  define is' where "is' = concat (map (psPut inp s) ps)"
  have len: "length (ps_t s) = length t" using arg_cong [OF i(4), of length] arg_cong [OF i(3), of length] arg_cong [OF i(1), of length] t(1)
    by (simp add: length_concat comp_def)
  have j: "drop 2 (ps_t s) = concat js" "list_all whole js" "2 \<le> length (ps_t s)"
    using i(2,3) t(1) len whole_positionRead by (auto simp: js_def list_all_iff)
  have st: "ps_t s ! 0 = kPs50" using arg_cong [OF i(4), of "\<lambda>x. x ! 0"] t by simp
  have psm: "ps = map (\<lambda>(a, i). (a, positionRead inp i)) (positions 2 is)" by (simp add: ps_def js_def positions_map)
  have dist: "distinct (map fst ps)" using positions_starts [OF j(2)] by (simp add: ps_def)
  have jt: "isTemps (positionRead inp i) \<longleftrightarrow> isTemps i" "isRet (positionRead inp i) \<longleftrightarrow> isRet i" for i by (simp_all add: isTemps_def isRet_def)
  have pr: "isTemps i \<Longrightarrow> positionRead inp i = i" for i by (auto simp: isTemps_def positionRead_def isPositionDecl_def isInputPsDecl_def)
  have known0: "tempsKnown (positions 2 is) s" by (rule tempsKnown_scanned [OF i(5)]) (use positions_starts [OF i(2)] in \<open>simp_all add: psStart_def\<close>)
  then have known: "tempsKnown ps s" using pr jt by (auto simp: tempsKnown_def psm split: prod.splits)
  have pn: "ps_t s ! a = k ! 0 \<and> take (length k) (drop a (ps_t s)) = k \<and> 2 \<le> a \<and> whole k" if "(a, k) \<in> set ps" for a k
    using that positions_nth [OF _ j(1,3,2)] by (simp add: ps_def)
  have "foldE (\<lambda>(a, i). psEmit inp s a (length i)) ps ([ps_t s ! 0, 0], False) = Inr (out, True)"
    using w walk_fold [OF j, of "psEmit inp s"] by (simp add: ps_def)
  then have o: "out = [ps_t s ! 0, 0] @ concat is'" "outputPlace s \<in> fst ` set ps"
    using psEmit_fold [of ps s inp] pn by (auto simp: is'_def)
  then have o2: "2 \<le> length out" "out ! 0 = kPs50" "drop 2 out = concat is'" using st by simp_all
  have ok: "programOk kPs50 bs'" "drop 2 (programWords bs') = concat is'" "2 \<le> length (programWords bs')"
    using programBytes_ok [OF o2(1) _ o2(2)] assms(3) o2(3) by (simp_all add: bs')
  have "list_all whole is'" using psPut_whole [OF known] pn by (fastforce simp: is'_def list_all_iff)
  then have "instructions (programWords bs') = Inr is'" using instructions_iff ok(2,3) by blast
  moreover have "instructions t = Inr is" using instructions_iff t(1) i(1,2) by blast
  moreover have fo: "ps_firstOutput s \<in> fst ` set ps"
    using i(5) s(2) by (auto simp: scanned_def psStart_def psm image_image case_prod_unfold)
  moreover have td: "tempsDeclared is = ps_tempCount s" "list_ex isTemps is \<longleftrightarrow> ps_tempAt s \<noteq> 0" "ps_tempCount s \<le> 4092"
    using i(5) filter_positions [of isTemps "is" 2] by (auto simp: scanned_def tempsDeclared_def psStart_def list_ex_filter)
  moreover have pd: "list_ex (isPositionDecl inp) is \<longleftrightarrow> ps_positionDeclared s" "list_all (\<lambda>i. \<not> writesTarget i) is"
    using i(5) by (simp_all add: scanned_def psStart_def list_ex_positions list_all_positions)
  moreover have "map snd ps = js" by (simp add: ps_def positions_snd)
  then have mb: "map (bumped \<circ> snd) ps = map (bumped \<circ> positionRead inp) is" by (simp add: js_def map_map [symmetric] del: map_map)
  moreover have fr: "length (filter (isRet \<circ> snd) ps) = length (filter isRet is)"
    using filter_positions [of isRet js 2] by (metis (no_types, lifting) filter_map length_map js_def ps_def jt(2) comp_apply filter_cong)
  moreover have "guarded (psTail inp (ps_tempCount s)) is'"
    unfolding is'_def by (rule guarded_concat) (use psPut_guarded [OF known] in \<open>auto simp: list_all_iff\<close>)
  ultimately show ?thesis using o(2) ok(1) subseq_psPut [OF known, of inp] mset_psPut [OF known dist, of inp]
    by (simp add: psPatched_def t_def is'_def)
qed

end
