(* ===== verification/VelocityProps.thy ===== *)
theory VelocityProps
  imports VelocityPrograms
begin

text \<open>
  The patched containers of \<^verbatim>\<open>src/d3d11/dxbc_engine_velocity.h\<close>: what the code writes is a shader container that the same parser accepts, and
  chunk by chunk what a patched shader should be. Two small shaders, patched by the definitions of the code, instantiate
  the theorems; their checksum is a constant, the real one being vendored code.
\<close>

section \<open>Chunks of a written container\<close>

lemma putChunks_bytes: "putChunks i cs bs = Inr r \<Longrightarrow> c \<in> set cs \<Longrightarrow> length (ch_bytes c) \<le> length r"
proof (induction cs arbitrary: i bs)
  case (Cons d cs)
  then obtain r1 where r1: "putChunk i d bs = Inr r1" "putChunks (Suc i) cs r1 = Inr r" by (auto simp: bindE_Inr)
  have "length (ch_bytes d) \<le> length r1" using r1(1) by (auto simp: putChunk_def bindE_Inr)
  then show ?case using Cons.IH [OF r1(2)] putChunks_length [OF r1(2)] Cons.prems(2) by auto
qed simp

lemma makeContainer_bytes:
  assumes "makeContainer hash cs = Inr bs" "\<And>x. length (hash x) = 16" "c \<in> set cs"
  shows "length (ch_bytes c) \<le> length bs"
proof -
  obtain r2 r3 r4 where "putChunks 0 cs r2 = Inr r3" "setWord r3 24 (word_of_nat (length r3)) = Inr r4"
    "bs = take 4 r4 @ hash (drop 20 r4) @ drop 20 r4"
    using assms(1) by (auto simp: makeContainer_def bindE_Inr split: if_splits)
  moreover have "length r4 = length r3" by (rule length_setWord) fact
  ultimately show ?thesis using putChunks_bytes assms(2,3) by fastforce
qed

lemma parseContainer_program: "parseContainer hash bs programType = Inr cs \<Longrightarrow> oneProgram programType False cs"
proof -
  assume "parseContainer hash bs programType = Inr cs"
  then obtain n where "parseChunks programType bs False [0..<n] = Inr (True, cs)"
    by (auto simp: parseContainer_def bindE_Inr split: if_splits)
  then show ?thesis using parseChunks_iff [of programType bs False "[0..<n]" "\<lambda>x. x = cs"] by auto
qed

lemma oneProgram_ok: "oneProgram programType p cs \<Longrightarrow> c \<in> set cs \<Longrightarrow> isProgram (ch_tag c) \<Longrightarrow> programOk programType (ch_bytes c)"
  by (induction cs arbitrary: p) (auto split: if_splits)

lemma oneProgram_cong:
  "list_all2 (\<lambda>c c'. ch_tag c' = ch_tag c \<and> (isProgram (ch_tag c) \<longrightarrow> programOk programType (ch_bytes c'))) cs cs' \<Longrightarrow>
   oneProgram programType p cs \<Longrightarrow> oneProgram programType p cs'"
  by (induction cs cs' arbitrary: p rule: list_all2_induct) (auto split: if_splits)

lemma signature_not_program [simp]: "\<not> isProgram kTagOsgn" "\<not> isProgram kTagIsgn"
  by (simp_all add: isProgram_def kTagOsgn_def kTagIsgn_def)

lemma parseElement_name:
  assumes "parseElement bs i = Inr e"
  shows "0 \<notin> set (se_name e)"
proof -
  obtain off where off: "wordAt bs (8 + i * 24) = Inr off" using assms by (cases "wordAt bs (8 + i * 24)") (simp_all add: parseElement_def Let_def)
  define rest name where "rest = drop (unat off) bs" and "name = takeWhile (\<lambda>b. b \<noteq> 0) rest"
  have "se_name e = name"
  proof (cases "length bs \<le> unat off \<or> length name = length rest \<or> name = []")
    case True
    then have "parseElement bs i = Inl ''signature name''"
      unfolding parseElement_def Let_def off bindE.simps rest_def [symmetric] name_def [symmetric] by (elim disjE) simp_all
    then show ?thesis using assms by simp
  next
    case False
    then have f: "\<not> length bs \<le> unat off" "\<not> (length name = length rest \<or> name = [])" by blast+
    have "parseElement bs i = bindE (wordAt bs (8 + i * 24 + 4)) (\<lambda>semanticIndex.
      bindE (wordAt bs (8 + i * 24 + 8)) (\<lambda>systemValue. bindE (wordAt bs (8 + i * 24 + 12)) (\<lambda>componentType.
      bindE (wordAt bs (8 + i * 24 + 16)) (\<lambda>registerIndex. bindE (wordAt bs (8 + i * 24 + 20)) (\<lambda>masks.
      Inr \<lparr>se_name = name, se_semanticIndex = semanticIndex, se_systemValue = systemValue, se_componentType = componentType,
           se_registerIndex = registerIndex, se_masks = masks\<rparr>)))))"
      unfolding parseElement_def Let_def off bindE.simps rest_def [symmetric] name_def [symmetric] if_not_P [OF f(1)] if_not_P [OF f(2)] ..
    from assms [unfolded this] show ?thesis by (auto simp: bindE_Inr)
  qed
  then show ?thesis using set_takeWhileD [of 0 "\<lambda>b. b \<noteq> 0" rest] by (auto simp: name_def)
qed

lemma parseSignature_names: "parseSignature bs = Inr es \<Longrightarrow> e \<in> set es \<Longrightarrow> 0 \<notin> set (se_name e)"
proof -
  assume p: "parseSignature bs = Inr es" and e: "e \<in> set es"
  obtain k where k: "k < length es" "es ! k = e" using e by (auto simp: in_set_conv_nth)
  have "mapE (parseElement bs) [0..<unat (leWord bs 0)] = Inr es"
    using p by (simp add: parseSignature_def wordAt_def split: if_split_asm)
  then have "list_all2 (\<lambda>i e. parseElement bs i = Inr e) [0..<unat (leWord bs 0)] es" by (simp only: mapE_Inr)
  from parseElement_name [OF list_all2_nthD2 [OF this k(1)]] k(2) show ?thesis by simp
qed

section \<open>The vertex shader's container\<close>

definition vsSignaturePatched :: "EngineVelocityInputs \<Rightarrow> byte list \<Rightarrow> byte list \<Rightarrow> bool" where
  "vsSignaturePatched inp bs bs' \<longleftrightarrow> (\<exists>es es'. parseSignature bs = Inr es \<and> parseSignature bs' = Inr es' \<and>
     mset es' = mset es + {#slotElement inp 0x0E01#} \<and> sorted (map se_registerIndex es') \<and>
     list_all (\<lambda>e. se_registerIndex e \<noteq> ev_identityRegister inp) es)"

definition vsChunkPatched :: "EngineVelocityInputs \<Rightarrow> Chunk \<Rightarrow> Chunk \<Rightarrow> bool" where
  "vsChunkPatched inp c c' \<longleftrightarrow> ch_tag c' = ch_tag c \<and>
     (if ch_tag c = kTagOsgn then vsSignaturePatched inp (ch_bytes c) (ch_bytes c')
      else if isProgram (ch_tag c) then vsPatched (ev_identityRegister inp) (ch_bytes c) (ch_bytes c')
      else c' = c)"

lemma slotElement_name: "0 \<notin> set (se_name (slotElement inp m))"
  by (simp add: slotElement_def kEngineVelocitySlotSemantic_def asciiBytes_def)

lemma vsOutputs_patched:
  assumes "parseSignature bs = Inr es" "vsOutputs inp es = Inr es'" "makeSignature es' = Inr bs'"
  shows "vsSignaturePatched inp bs bs'"
proof -
  have es': "es' = sortByRegister (es @ [slotElement inp 0x0E01])" "list_all (\<lambda>e. se_registerIndex e \<noteq> ev_identityRegister inp) es"
    using assms(2) by (auto simp: vsOutputs_def list_ex_iff list_all_iff split: if_splits)
  then have "list_all (\<lambda>e. 0 \<notin> set (se_name e)) es'"
    using parseSignature_names [OF assms(1)] slotElement_name by (auto simp: sortByRegister_def list_all_iff)
  then have "parseSignature bs' = Inr es'" using signature_reads_back [OF assms(3)] by simp
  then show ?thesis using assms(1) es' by (auto simp: vsSignaturePatched_def sortByRegister_def)
qed

lemma vsChunks_patched:
  assumes "foldE (vsChunk inp) cs (o1, p, acc) = Inr (o', p', out)"
    "\<And>c. c \<in> set cs \<Longrightarrow> isProgram (ch_tag c) \<Longrightarrow> programOk kVs50 (ch_bytes c)" "\<And>c. c \<in> set out \<Longrightarrow> length (ch_bytes c) < 4294967296"
  shows "\<exists>cs'. out = acc @ cs' \<and> list_all2 (vsChunkPatched inp) cs cs'"
  using assms
proof (induction cs arbitrary: o1 p acc)
  case (Cons c cs)
  obtain o2 p2 acc2 where s: "vsChunk inp c (o1, p, acc) = Inr (o2, p2, acc2)" "foldE (vsChunk inp) cs (o2, p2, acc2) = Inr (o', p', out)"
    using Cons.prems(1) by (auto simp: bindE_Inr)
  then obtain c' where c': "acc2 = acc @ [c']" by (auto simp: vsChunk_def bindE_Inr split: if_splits)
  obtain cs' where cs': "out = acc2 @ cs'" "list_all2 (vsChunkPatched inp) cs cs'"
    using Cons.IH [OF s(2)] Cons.prems(2,3) by auto
  have l: "length (ch_bytes c') < 4294967296" using Cons.prems(3) c' cs'(1) by simp
  have "vsChunkPatched inp c c'"
  proof (cases "ch_tag c = kTagOsgn")
    case True
    then show ?thesis using s(1) c' vsOutputs_patched by (auto simp: vsChunk_def vsChunkPatched_def bindE_Inr split: if_splits)
  next
    case False
    then show ?thesis using s(1) c' l Cons.prems(2) [of c] patchVsProgram_patched
      by (auto simp: vsChunk_def vsChunkPatched_def bindE_Inr split: if_splits)
  qed
  then show ?case using cs' c' by (intro exI [of _ "c' # cs'"]) simp
qed simp

section \<open>The pixel shader's container\<close>

definition positionUsed :: "EngineVelocityInputs \<Rightarrow> SignatureElement \<Rightarrow> SignatureElement" where
  "positionUsed inp e = (if se_registerIndex e = ev_positionRegister inp then e\<lparr>se_masks := or (se_masks e) (or 4 0x0400)\<rparr> else e)"

definition psInputsPatched :: "EngineVelocityInputs \<Rightarrow> byte list \<Rightarrow> byte list \<Rightarrow> bool" where
  "psInputsPatched inp bs bs' \<longleftrightarrow> (\<exists>es es'. parseSignature bs = Inr es \<and> parseSignature bs' = Inr es' \<and>
     mset es' = mset (map (positionUsed inp) es) + (if ev_slotFromVsPatch inp then {#slotElement inp 0x0101#} else {#}) +
       (if list_ex (\<lambda>e. se_registerIndex e = ev_positionRegister inp) es then {#} else {#positionElement inp#}) \<and>
     sorted (map se_registerIndex es') \<and> \<not> overlapping es')"

definition psOutputsPatched :: "byte list \<Rightarrow> byte list \<Rightarrow> bool" where
  "psOutputsPatched bs bs' \<longleftrightarrow> (\<exists>es colour. parseSignature bs = Inr es \<and> colour \<in> set es \<and> equalName (se_name colour) (asciiBytes ''SV_TARGET'') \<and>
     parseSignature bs' = Inr (es @ [velocityElement (se_systemValue colour)]) \<and>
     list_all (\<lambda>e. equalName (se_name e) (asciiBytes ''SV_TARGET'') \<longrightarrow> se_registerIndex e < kEngineVelocityTarget) es)"

definition psChunkPatched :: "EngineVelocityInputs \<Rightarrow> Chunk \<Rightarrow> Chunk \<Rightarrow> bool" where
  "psChunkPatched inp c c' \<longleftrightarrow> ch_tag c' = ch_tag c \<and>
     (if ch_tag c = kTagIsgn then psInputsPatched inp (ch_bytes c) (ch_bytes c')
      else if ch_tag c = kTagOsgn then psOutputsPatched (ch_bytes c) (ch_bytes c')
      else if isProgram (ch_tag c) then psPatched inp (ch_bytes c) (ch_bytes c')
      else c' = c)"

lemma psInputElements:
  "foldE (psInputElement inp) es (identity, position, acc) = Inr (identity', position', acc') \<Longrightarrow>
   acc' = acc @ map (positionUsed inp) es \<and> (position' \<longleftrightarrow> position \<or> list_ex (\<lambda>e. se_registerIndex e = ev_positionRegister inp) es)"
proof (induction es arbitrary: identity position acc)
  case (Cons e es)
  obtain i1 p1 a1 where s: "psInputElement inp e (identity, position, acc) = Inr (i1, p1, a1)"
    "foldE (psInputElement inp) es (i1, p1, a1) = Inr (identity', position', acc')" using Cons.prems by (auto simp: bindE_Inr)
  have "a1 = acc @ [positionUsed inp e] \<and> (p1 \<longleftrightarrow> position \<or> se_registerIndex e = ev_positionRegister inp)"
    using s(1) by (auto simp: psInputElement_def Let_def positionUsed_def split: if_splits)
  then show ?case using Cons.IH [OF s(2)] by auto
qed simp

lemma psInputs_patched:
  assumes "parseSignature bs = Inr es" "psInputs inp es = Inr es'" "makeSignature es' = Inr bs'"
  shows "psInputsPatched inp bs bs'"
proof -
  obtain identity position es1 where f: "foldE (psInputElement inp) es (False, False, []) = Inr (identity, position, es1)"
    and es': "es' = sortByRegister (es1 @ (if ev_slotFromVsPatch inp then [slotElement inp 0x0101] else []) @ (if position then [] else [positionElement inp]))"
      "\<not> overlapping es'"
    using assms(2) by (auto simp: psInputs_def bindE_Inr Let_def split: if_splits)
  note p = psInputElements [OF f]
  have "0 \<notin> set (se_name (positionUsed inp e))" if "e \<in> set es" for e
    using parseSignature_names [OF assms(1) that] by (simp add: positionUsed_def)
  moreover have "0 \<notin> set (se_name (positionElement inp))" by (simp add: positionElement_def asciiBytes_def)
  ultimately have "list_all (\<lambda>e. 0 \<notin> set (se_name e)) es'"
    using p slotElement_name by (auto simp: es'(1) sortByRegister_def list_all_iff)
  then have "parseSignature bs' = Inr es'" using signature_reads_back [OF assms(3)] by simp
  moreover have "mset es' = mset (map (positionUsed inp) es) + (if ev_slotFromVsPatch inp then {#slotElement inp 0x0101#} else {#}) +
       (if list_ex (\<lambda>e. se_registerIndex e = ev_positionRegister inp) es then {#} else {#positionElement inp#})"
    using p by (simp add: es'(1) sortByRegister_def)
  moreover have "sorted (map se_registerIndex es')" by (simp add: es'(1) sortByRegister_def)
  ultimately show ?thesis using assms(1) es'(2) unfolding psInputsPatched_def by blast
qed

lemma psOutputElements:
  "foldE psOutputElement es (target, sv) = Inr (target', sv') \<Longrightarrow>
   list_all (\<lambda>e. equalName (se_name e) (asciiBytes ''SV_TARGET'') \<longrightarrow> se_registerIndex e < kEngineVelocityTarget) es \<and>
   (target' = target \<and> sv' = sv \<or> target' \<and> (\<exists>e \<in> set es. equalName (se_name e) (asciiBytes ''SV_TARGET'') \<and> se_systemValue e = sv'))"
proof (induction es arbitrary: target sv)
  case (Cons e es)
  obtain t1 v1 where s: "psOutputElement e (target, sv) = Inr (t1, v1)" "foldE psOutputElement es (t1, v1) = Inr (target', sv')"
    using Cons.prems by (auto simp: bindE_Inr)
  define named where "named = equalName (se_name e) (asciiBytes ''SV_TARGET'')"
  have "if named then se_registerIndex e < kEngineVelocityTarget \<and> t1 \<and> v1 = se_systemValue e else t1 = target \<and> v1 = sv"
    using s(1) by (auto simp: psOutputElement_def named_def split: if_splits)
  then show ?case using Cons.IH [OF s(2)] unfolding named_def by (cases "equalName (se_name e) (asciiBytes ''SV_TARGET'')") auto
qed simp

lemma psOutputs_patched:
  assumes "parseSignature bs = Inr es" "psOutputs es = Inr es'" "makeSignature es' = Inr bs'"
  shows "psOutputsPatched bs bs'"
proof -
  obtain sv where f: "foldE psOutputElement es (False, 0) = Inr (True, sv)" and es': "es' = es @ [velocityElement sv]"
    using assms(2) by (auto simp: psOutputs_def bindE_Inr split: if_splits)
  have "0 \<notin> set (se_name (velocityElement sv))" by (simp add: velocityElement_def asciiBytes_def)
  then have "list_all (\<lambda>e. 0 \<notin> set (se_name e)) es'" using parseSignature_names [OF assms(1)] by (auto simp: es' list_all_iff)
  then have "parseSignature bs' = Inr es'" using signature_reads_back [OF assms(3)] by simp
  then show ?thesis using assms(1) psOutputElements [OF f] unfolding psOutputsPatched_def es' by auto
qed

lemma psChunks_patched:
  assumes "foldE (psChunk inp) cs s = Inr s'"
    "\<And>c. c \<in> set cs \<Longrightarrow> isProgram (ch_tag c) \<Longrightarrow> programOk kPs50 (ch_bytes c)" "\<And>c. c \<in> set (pc_out s') \<Longrightarrow> length (ch_bytes c) < 4294967296"
  shows "\<exists>cs'. pc_out s' = pc_out s @ cs' \<and> list_all2 (psChunkPatched inp) cs cs'"
  using assms
proof (induction cs arbitrary: s)
  case (Cons c cs)
  obtain s1 where s: "psChunk inp c s = Inr s1" "foldE (psChunk inp) cs s1 = Inr s'" using Cons.prems(1) by (auto simp: bindE_Inr)
  then obtain c' where c': "pc_out s1 = pc_out s @ [c']" by (auto simp: psChunk_def putBack_def bindE_Inr split: if_splits)
  obtain cs' where cs': "pc_out s' = pc_out s1 @ cs'" "list_all2 (psChunkPatched inp) cs cs'"
    using Cons.IH [OF s(2)] Cons.prems(2,3) by auto
  have l: "length (ch_bytes c') < 4294967296" using Cons.prems(3) c' cs'(1) by simp
  consider "ch_tag c = kTagIsgn" | "ch_tag c \<noteq> kTagIsgn" "ch_tag c = kTagOsgn" | "ch_tag c \<noteq> kTagIsgn" "ch_tag c \<noteq> kTagOsgn" by blast
  then have "psChunkPatched inp c c'"
  proof cases
    case 1
    then show ?thesis using s(1) c' psInputs_patched by (auto simp: psChunk_def psChunkPatched_def putBack_def bindE_Inr split: if_splits)
  next
    case 2
    then show ?thesis using s(1) c' psOutputs_patched by (auto simp: psChunk_def psChunkPatched_def putBack_def bindE_Inr split: if_splits)
  next
    case 3
    then show ?thesis using s(1) c' l Cons.prems(2) [of c] patchPsProgram_patched
      by (auto simp: psChunk_def psChunkPatched_def putBack_def bindE_Inr split: if_splits)
  qed
  then show ?case using cs' c' by (intro exI [of _ "c' # cs'"]) simp
qed simp

section \<open>Small shaders\<close>

definition zeroHash :: "byte list \<Rightarrow> byte list" where
  "zeroHash bs = [0, 0, 0, 0, 0, 0, 0, 0, 0, 0, 0, 0, 0, 0, 0, 0]"

definition smallVs :: "byte list" where
  "smallVs =
    [68, 88, 66, 67, 0, 0, 0, 0, 0, 0, 0, 0, 0, 0, 0, 0, 0, 0, 0, 0, 1, 0, 0, 0, 128, 0, 0, 0, 2, 0, 0, 0, 40, 0, 0, 0, 84,
     0, 0, 0, 79, 83, 71, 78, 36, 0, 0, 0, 1, 0, 0, 0, 8, 0, 0, 0, 32, 0, 0, 0, 0, 0, 0, 0, 0, 0, 0, 0, 3, 0, 0, 0, 0, 0, 0,
     0, 15, 0, 0, 0, 65, 0, 171, 171, 83, 72, 69, 88, 36, 0, 0, 0, 80, 0, 1, 0, 9, 0, 0, 0, 101, 0, 0, 3, 18, 32, 16, 0, 0,
     0, 0, 0, 95, 0, 0, 3, 18, 16, 16, 0, 0, 0, 0, 0, 62, 0, 0, 1]"

definition smallVsPatched :: "byte list" where
  "smallVsPatched =
    [68, 88, 66, 67, 0, 0, 0, 0, 0, 0, 0, 0, 0, 0, 0, 0, 0, 0, 0, 0, 1, 0, 0, 0, 200, 0, 0, 0, 2, 0, 0, 0, 40, 0, 0, 0, 124,
     0, 0, 0, 79, 83, 71, 78, 76, 0, 0, 0, 2, 0, 0, 0, 8, 0, 0, 0, 56, 0, 0, 0, 0, 0, 0, 0, 0, 0, 0, 0, 3, 0, 0, 0, 0, 0, 0,
     0, 15, 0, 0, 0, 60, 0, 0, 0, 0, 0, 0, 0, 0, 0, 0, 0, 1, 0, 0, 0, 1, 0, 0, 0, 1, 14, 0, 0, 65, 0, 171, 171, 69, 68, 86,
     82, 80, 79, 79, 76, 83, 76, 79, 84, 0, 171, 171, 171, 83, 72, 69, 88, 68, 0, 0, 0, 80, 0, 1, 0, 17, 0, 0, 0, 101, 0, 0,
     3, 18, 32, 16, 0, 0, 0, 0, 0, 101, 0, 0, 3, 18, 32, 16, 0, 1, 0, 0, 0, 95, 0, 0, 3, 18, 16, 16, 0, 0, 0, 0, 0, 54, 0,
     0, 5, 18, 32, 16, 0, 1, 0, 0, 0, 10, 16, 16, 0, 0, 0, 0, 0, 62, 0, 0, 1]"

definition smallPs :: "byte list" where
  "smallPs =
    [68, 88, 66, 67, 0, 0, 0, 0, 0, 0, 0, 0, 0, 0, 0, 0, 0, 0, 0, 0, 1, 0, 0, 0, 184, 0, 0, 0, 3, 0, 0, 0, 44, 0, 0, 0, 88,
     0, 0, 0, 140, 0, 0, 0, 73, 83, 71, 78, 36, 0, 0, 0, 1, 0, 0, 0, 8, 0, 0, 0, 32, 0, 0, 0, 0, 0, 0, 0, 0, 0, 0, 0, 1, 0,
     0, 0, 1, 0, 0, 0, 1, 0, 0, 0, 73, 0, 171, 171, 79, 83, 71, 78, 44, 0, 0, 0, 1, 0, 0, 0, 8, 0, 0, 0, 32, 0, 0, 0, 0, 0,
     0, 0, 64, 0, 0, 0, 3, 0, 0, 0, 0, 0, 0, 0, 15, 0, 0, 0, 83, 86, 95, 84, 97, 114, 103, 101, 116, 0, 171, 171, 83, 72,
     69, 88, 36, 0, 0, 0, 80, 0, 0, 0, 9, 0, 0, 0, 98, 8, 0, 3, 18, 16, 16, 0, 1, 0, 0, 0, 101, 0, 0, 3, 242, 32, 16, 0, 0,
     0, 0, 0, 62, 0, 0, 1]"

definition smallPsPatched :: "byte list" where
  "smallPsPatched =
    [68, 88, 66, 67, 0, 0, 0, 0, 0, 0, 0, 0, 0, 0, 0, 0, 0, 0, 0, 0, 1, 0, 0, 0, 140, 1, 0, 0, 3, 0, 0, 0, 44, 0, 0, 0, 124,
     0, 0, 0, 212, 0, 0, 0, 73, 83, 71, 78, 72, 0, 0, 0, 2, 0, 0, 0, 8, 0, 0, 0, 56, 0, 0, 0, 0, 0, 0, 0, 0, 0, 0, 0, 1, 0,
     0, 0, 1, 0, 0, 0, 1, 0, 0, 0, 60, 0, 0, 0, 0, 0, 0, 0, 1, 0, 0, 0, 3, 0, 0, 0, 2, 0, 0, 0, 15, 4, 0, 0, 73, 0, 171,
     171, 83, 86, 95, 80, 111, 115, 105, 116, 105, 111, 110, 0, 79, 83, 71, 78, 80, 0, 0, 0, 2, 0, 0, 0, 8, 0, 0, 0, 56, 0,
     0, 0, 0, 0, 0, 0, 64, 0, 0, 0, 3, 0, 0, 0, 0, 0, 0, 0, 15, 0, 0, 0, 68, 0, 0, 0, 6, 0, 0, 0, 64, 0, 0, 0, 3, 0, 0, 0,
     6, 0, 0, 0, 3, 12, 0, 0, 83, 86, 95, 84, 97, 114, 103, 101, 116, 0, 171, 171, 83, 86, 95, 84, 65, 82, 71, 69, 84, 0,
     171, 171, 83, 72, 69, 88, 176, 0, 0, 0, 80, 0, 0, 0, 44, 0, 0, 0, 98, 8, 0, 3, 18, 16, 16, 0, 1, 0, 0, 0, 100, 32, 0,
     4, 66, 16, 16, 0, 2, 0, 0, 0, 1, 0, 0, 0, 101, 0, 0, 3, 242, 32, 16, 0, 0, 0, 0, 0, 101, 0, 0, 3, 50, 32, 16, 0, 6, 0,
     0, 0, 104, 0, 0, 2, 1, 0, 0, 0, 1, 0, 0, 7, 18, 0, 16, 0, 0, 0, 0, 0, 10, 16, 16, 0, 1, 0, 0, 0, 1, 64, 0, 0, 255, 255,
     127, 0, 35, 0, 0, 9, 18, 0, 16, 0, 0, 0, 0, 0, 10, 0, 16, 0, 0, 0, 0, 0, 1, 64, 0, 0, 2, 0, 0, 0, 1, 64, 0, 0, 1, 0, 0,
     0, 86, 0, 0, 5, 18, 32, 16, 0, 6, 0, 0, 0, 10, 0, 16, 0, 0, 0, 0, 0, 54, 0, 0, 5, 34, 32, 16, 0, 6, 0, 0, 0, 42, 16,
     16, 0, 2, 0, 0, 0, 62, 0, 0, 1]"

definition smallInputs :: "bool \<Rightarrow> EngineVelocityInputs" where
  "smallInputs slot = \<lparr>ev_identityRegister = 1, ev_identityComponent = 0, ev_positionRegister = 2, ev_slotFromVsPatch = slot\<rparr>"

lemma smallInputs_simps [simp]:
  "ev_identityRegister (smallInputs slot) = 1" "ev_identityComponent (smallInputs slot) = 0" "ev_positionRegister (smallInputs slot) = 2"
  "ev_slotFromVsPatch (smallInputs slot) = slot" "\<not> 32 \<le> (1 :: u32)" "1 < (32 :: u32)"
  by (simp_all add: smallInputs_def word_le_nat_alt word_less_nat_alt)

lemma pad4_multiple: "length bs mod 4 = 0 \<Longrightarrow> pad4 bs = bs"
  by (simp add: pad4.simps)

lemma shex_tag [simp]: "0x58454853 \<noteq> kTagOsgn" "0x58454853 \<noteq> kTagIsgn" "kTagOsgn \<noteq> kTagIsgn" "isProgram 0x58454853"
  by (simp_all add: kTagOsgn_def kTagIsgn_def isProgram_def)

lemma replicate_num: "replicate (numeral n) x = x # replicate (pred_numeral n) x"
  by (simp add: numeral_eq_Suc)

lemmas readBytes = wordAt_def leWord_def upt_conv_Cons
lemmas readContainer = parseContainer_def dxbcTag_def parseChunk_def isProgram_def checkProgram_def zeroHash_def readBytes kTagOsgn_def kTagIsgn_def

lemma smallVs_parses:
  "parseContainer zeroHash smallVs kVs50 =
     Inr [\<lparr>ch_tag = kTagOsgn, ch_bytes = take 36 (drop 48 smallVs)\<rparr>, \<lparr>ch_tag = 0x58454853, ch_bytes = drop 92 smallVs\<rparr>]"
  by (simp add: smallVs_def readContainer kVs50_def)

lemma smallVs_program:
  "patchVsProgram (drop 92 smallVs) 1 = Inr (drop 132 smallVsPatched)"
  by (simp add: smallVs_def smallVsPatched_def patchVsProgram_def programWords_def programBytes_def wordBytes_def walk.simps vsBody_def vsEmit_def readBytes
     instructionLength_def opcodeOf_def declineUnsupported_def isOutputDecl_def operandType_def operandMask_def kOpRet_def vsMove_def vsDecl_def Let_def)

definition smallElement :: "byte \<Rightarrow> u32 \<Rightarrow> u32 \<Rightarrow> u32 \<Rightarrow> SignatureElement" where
  "smallElement name componentType registerIndex masks = \<lparr>se_name = [name], se_semanticIndex = 0, se_systemValue = 0, se_componentType = componentType,
     se_registerIndex = registerIndex, se_masks = masks\<rparr>"

lemmas writeBytes = putWord_def setWord_def wordBytes_def replicate_num
lemmas readSignature = parseSignature_def parseElement_def smallElement_def readBytes
lemmas writeSignature = makeSignature_def putElement_def smallElement_def slotElement_def kEngineVelocitySlotSemantic_def asciiBytes_def writeBytes pad4.simps

lemma smallVs_outputs: "parseSignature (take 36 (drop 48 smallVs)) = Inr [smallElement 65 3 0 15]"
  by (simp add: smallVs_def readSignature)

lemma smallVs_signature:
  "makeSignature [smallElement 65 3 0 15, slotElement (smallInputs True) 0x0E01] = Inr (take 76 (drop 48 smallVsPatched))"
  by (simp add: smallVsPatched_def writeSignature)

lemma smallVs_container:
  "makeContainer zeroHash [\<lparr>ch_tag = kTagOsgn, ch_bytes = take 76 (drop 48 smallVsPatched)\<rparr>, \<lparr>ch_tag = 0x58454853, ch_bytes = drop 132 smallVsPatched\<rparr>] =
   Inr smallVsPatched"
  by (simp add: smallVsPatched_def makeContainer_def putChunk_def dxbcTag_def zeroHash_def kTagOsgn_def writeBytes pad4_multiple)

lemma smallVs_patched: "engineVelocityPatchVs zeroHash smallVs (smallInputs True) = Inr smallVsPatched"
proof -
  have "vsOutputs (smallInputs True) [smallElement 65 3 0 15] = Inr [smallElement 65 3 0 15, slotElement (smallInputs True) 0x0E01]"
    by (simp add: vsOutputs_def sortByRegister_def smallElement_def slotElement_def)
  then show ?thesis
    by (simp add: engineVelocityPatchVs_def smallVs_parses vsChunk_def smallVs_outputs smallVs_signature smallVs_program smallVs_container)
qed

definition smallTarget :: SignatureElement where
  "smallTarget = \<lparr>se_name = asciiBytes ''SV_Target'', se_semanticIndex = 0, se_systemValue = 64, se_componentType = 3, se_registerIndex = 0, se_masks = 15\<rparr>"

lemma smallPs_parses:
  "parseContainer zeroHash smallPs kPs50 =
     Inr [\<lparr>ch_tag = kTagIsgn, ch_bytes = take 36 (drop 52 smallPs)\<rparr>, \<lparr>ch_tag = kTagOsgn, ch_bytes = take 44 (drop 96 smallPs)\<rparr>,
          \<lparr>ch_tag = 0x58454853, ch_bytes = drop 148 smallPs\<rparr>]"
  by (simp add: smallPs_def readContainer kPs50_def)

lemma smallPs_program:
  "patchPsProgram (drop 148 smallPs) (smallInputs False) = Inr (drop 220 smallPsPatched)"
  by (simp add: smallPs_def smallPsPatched_def patchPsProgram_def programWords_def programBytes_def wordBytes_def walk.simps psScan.simps psBody_def psInput_def
     psTemps_def isInputPsDecl_def isDeclaration_def psEmit_def psStart_def readBytes posDecl_def slotDecl_def outDecl_def psTail_def
     kEngineVelocityTarget_def kEngineVelocitySlotMask_def
     instructionLength_def opcodeOf_def declineUnsupported_def isOutputDecl_def operandType_def operandMask_def kOpRet_def Let_def)

lemma smallPs_inputs: "parseSignature (take 36 (drop 52 smallPs)) = Inr [smallElement 73 1 1 1]"
  by (simp add: smallPs_def readSignature)

lemma smallPs_outputs: "parseSignature (take 44 (drop 96 smallPs)) = Inr [smallTarget]"
  by (simp add: smallPs_def readSignature smallTarget_def asciiBytes_def)

lemma smallPs_input_signature:
  "makeSignature [smallElement 73 1 1 1, positionElement (smallInputs False)] = Inr (take 72 (drop 52 smallPsPatched))"
  by (simp add: smallPsPatched_def writeSignature positionElement_def)

lemma smallPs_output_signature:
  "makeSignature [smallTarget, velocityElement 64] = Inr (take 80 (drop 132 smallPsPatched))"
  by (simp add: smallPsPatched_def writeSignature smallTarget_def velocityElement_def kEngineVelocityTarget_def)

lemma smallPs_container:
  "makeContainer zeroHash [\<lparr>ch_tag = kTagIsgn, ch_bytes = take 72 (drop 52 smallPsPatched)\<rparr>,
     \<lparr>ch_tag = kTagOsgn, ch_bytes = take 80 (drop 132 smallPsPatched)\<rparr>, \<lparr>ch_tag = 0x58454853, ch_bytes = drop 220 smallPsPatched\<rparr>] =
   Inr smallPsPatched"
  by (simp add: smallPsPatched_def makeContainer_def putChunk_def dxbcTag_def zeroHash_def kTagOsgn_def kTagIsgn_def writeBytes pad4_multiple)

lemma smallPs_patched: "engineVelocityPatchPs zeroHash smallPs (smallInputs False) = Inr smallPsPatched"
proof -
  have "psInputs (smallInputs False) [smallElement 73 1 1 1] = Inr [smallElement 73 1 1 1, positionElement (smallInputs False)]"
    by (simp add: psInputs_def psInputElement_def sortByRegister_def smallElement_def positionElement_def)
  moreover have "psOutputs [smallTarget] = Inr [smallTarget, velocityElement 64]"
    by (simp add: psOutputs_def psOutputElement_def smallTarget_def equalName_def startsWithName_def cName_def lowerByte_def asciiBytes_def kEngineVelocityTarget_def)
  ultimately show ?thesis
    by (simp add: engineVelocityPatchPs_def smallPs_parses psChunk_def putBack_def smallPs_inputs smallPs_outputs smallPs_input_signature
      smallPs_output_signature smallPs_program smallPs_container)
qed
section \<open>What a patch promises\<close>

text \<open>
  A container that \<^verbatim>\<open>makeContainer\<close> writes is read back by \<^verbatim>\<open>parseContainer\<close>, checksum included, as the same chunks in
  order, if it is at most a megabyte and has one well-formed program; whatever the sixteen-byte checksum is.
\<close>

theorem container_round_trip:
  assumes "makeContainer hash cs = Inr bs" "\<And>x. length (hash x) = 16" "length bs \<le> 1024 * 1024" "oneProgram programType False cs"
  shows "parseContainer hash bs programType = Inr cs"
  by (rule container_reads_back [OF assms])

theorem container_round_trip_witness:
  "parseContainer zeroHash smallVsPatched kVs50 =
     Inr [\<lparr>ch_tag = kTagOsgn, ch_bytes = take 76 (drop 48 smallVsPatched)\<rparr>, \<lparr>ch_tag = 0x58454853, ch_bytes = drop 132 smallVsPatched\<rparr>]"
  by (rule container_round_trip [OF smallVs_container]) (simp_all add: zeroHash_def smallVsPatched_def programOk_def leWord_def kVs50_def)

text \<open>
  C25: a vertex shader that \<^verbatim>\<open>engineVelocityPatchVs\<close> patches, of at most a megabyte, is read back by \<^verbatim>\<open>parseContainer\<close>, checksum
  included, as the same chunks in the same order. The output signature has the slot's element added, on a register no
  element had, and is in register order. The program has all its instructions in their order, one declaration of the
  slot's output more, and right before every return the move of \<open>v0.x\<close> to it. Every other chunk is unchanged.
\<close>

theorem vs_patch_reads_back:
  assumes "engineVelocityPatchVs hash bs inp = Inr bs'" "\<And>x. length (hash x) = 16" "length bs' \<le> 1024 * 1024"
  shows "\<exists>cs cs'. parseContainer hash bs kVs50 = Inr cs \<and> parseContainer hash bs' kVs50 = Inr cs' \<and> list_all2 (vsChunkPatched inp) cs cs'"
proof -
  obtain cs out where cs: "parseContainer hash bs kVs50 = Inr cs"
    and out: "foldE (vsChunk inp) cs (False, False, []) = Inr (True, True, out)" "makeContainer hash out = Inr bs'"
    using assms(1) by (auto simp: engineVelocityPatchVs_def bindE_Inr split: if_splits)
  have "length (ch_bytes c) < 4294967296" if "c \<in> set out" for c
    using makeContainer_bytes [OF out(2) assms(2) that] assms(3) by simp
  then have p: "list_all2 (vsChunkPatched inp) cs out"
    using vsChunks_patched [OF out(1)] oneProgram_ok [OF parseContainer_program [OF cs]] by auto
  have "list_all2 (\<lambda>c c'. ch_tag c' = ch_tag c \<and> (isProgram (ch_tag c) \<longrightarrow> programOk kVs50 (ch_bytes c'))) cs out"
    by (rule list_all2_mono [OF p]) (auto simp: vsChunkPatched_def vsPatched_def split: if_splits)
  then have "oneProgram kVs50 False out" using oneProgram_cong parseContainer_program [OF cs] by blast
  then show ?thesis using container_reads_back [OF out(2) assms(2,3)] cs p by blast
qed

theorem vs_patch_reads_back_witness:
  "\<exists>cs cs'. parseContainer zeroHash smallVs kVs50 = Inr cs \<and> parseContainer zeroHash smallVsPatched kVs50 = Inr cs' \<and>
     list_all2 (vsChunkPatched (smallInputs True)) cs cs'"
  by (rule vs_patch_reads_back [OF smallVs_patched]) (simp_all add: zeroHash_def smallVsPatched_def)

text \<open>
  C26: a pixel shader that \<^verbatim>\<open>engineVelocityPatchPs\<close> patches, of at most a megabyte, is read back by \<^verbatim>\<open>parseContainer\<close>, checksum
  included, as the same chunks in the same order. The input signature reads the position's depth, has the slot and the
  position where they were missing, in register order and without overlap; the output signature has target 6, free
  before, added with the system value of a colour target. In the program the position is read with its depth and one more temporary
  is declared, all other instructions keep their tokens and their order, the declarations that were missing are there
  once, and right before every return stand the four instructions that write the slot and the depth through that temporary.
\<close>

theorem ps_patch_reads_back:
  assumes "engineVelocityPatchPs hash bs inp = Inr bs'" "\<And>x. length (hash x) = 16" "length bs' \<le> 1024 * 1024"
  shows "\<exists>cs cs'. parseContainer hash bs kPs50 = Inr cs \<and> parseContainer hash bs' kPs50 = Inr cs' \<and> list_all2 (psChunkPatched inp) cs cs'"
proof -
  obtain cs s where cs: "parseContainer hash bs kPs50 = Inr cs"
    and s: "foldE (psChunk inp) cs \<lparr>pc_isgn = False, pc_osgn = False, pc_program = False, pc_out = []\<rparr> = Inr s" "makeContainer hash (pc_out s) = Inr bs'"
    using assms(1) by (auto simp: engineVelocityPatchPs_def bindE_Inr split: if_splits)
  have "length (ch_bytes c) < 4294967296" if "c \<in> set (pc_out s)" for c
    using makeContainer_bytes [OF s(2) assms(2) that] assms(3) by simp
  then have p: "list_all2 (psChunkPatched inp) cs (pc_out s)"
    using psChunks_patched [OF s(1)] oneProgram_ok [OF parseContainer_program [OF cs]] by auto
  have "list_all2 (\<lambda>c c'. ch_tag c' = ch_tag c \<and> (isProgram (ch_tag c) \<longrightarrow> programOk kPs50 (ch_bytes c'))) cs (pc_out s)"
    by (rule list_all2_mono [OF p]) (auto simp: psChunkPatched_def psPatched_def split: if_splits)
  then have "oneProgram kPs50 False (pc_out s)" using oneProgram_cong parseContainer_program [OF cs] by blast
  then show ?thesis using container_reads_back [OF s(2) assms(2,3)] cs p by blast
qed

theorem ps_patch_reads_back_witness:
  "\<exists>cs cs'. parseContainer zeroHash smallPs kPs50 = Inr cs \<and> parseContainer zeroHash smallPsPatched kPs50 = Inr cs' \<and>
     list_all2 (psChunkPatched (smallInputs False)) cs cs'"
  by (rule ps_patch_reads_back [OF smallPs_patched]) (simp_all add: zeroHash_def smallPsPatched_def)

end
