(* ===== verification/HeadOffsetGate.thy ===== *)
theory HeadOffsetGate
  imports GameConfigProps
begin

text \<open>
  \<^verbatim>\<open>src/d3d11/head_offset_gate.cpp\<close>, the gate that says when the head pose may be moved, with the flag it publishes and its reader
  from \<^verbatim>\<open>src/common/frame_flag.cpp\<close> and the clock questions of \<^verbatim>\<open>src/common/timing.h\<close>. Counters are 32-bit and milliseconds 64-bit words;
  view indices are integers, far inside their 32 bits. A call reads the clock at several places, and the readings are an
  argument: \<open>clk i\<close> is what the \<open>i\<close>-th place of the call reads, in the order of the source. Log lines are left out, the
  flags that make them appear once are kept.
\<close>

section \<open>The clock\<close>

definition stampMs :: "u64 \<Rightarrow> u64" where
  "stampMs t = (if t = 0 then 1 else t)"

definition elapsedMs :: "u64 \<Rightarrow> u64 \<Rightarrow> u64 \<Rightarrow> bool" where
  "elapsedMs t since ms \<longleftrightarrow> since \<noteq> 0 \<and> ms \<le> t - since"

section \<open>The published flag\<close>

record FrameFlag =
  ff_mapped :: bool
  ff_externalCam :: bool
  ff_externalCamStamp :: u32

definition setExternalCameraOnFoot :: "bool \<Rightarrow> FrameFlag \<Rightarrow> FrameFlag" where
  "setExternalCameraOnFoot on f = (if \<not> ff_mapped f then f else f\<lparr>ff_externalCam := on, ff_externalCamStamp := ff_externalCamStamp f + 1\<rparr>)"

definition externalCameraOnFoot :: "FrameFlag \<Rightarrow> bool" where
  "externalCameraOnFoot f \<longleftrightarrow> ff_mapped f \<and> ff_externalCam f"

record CameraReader =
  lastStamp :: u32
  sinceMoved :: u32
  everMoved :: bool

definition newReader :: CameraReader where
  "newReader = \<lparr>lastStamp = 0, sinceMoved = 0, everMoved = False\<rparr>"

definition externalCameraOnFootLive :: "u32 \<Rightarrow> FrameFlag \<Rightarrow> CameraReader \<Rightarrow> bool \<times> CameraReader" where
  "externalCameraOnFootLive maxAgeFrames f r =
     (if \<not> ff_mapped f then (False, r)
      else let r1 = (if ff_externalCamStamp f \<noteq> lastStamp r
                     then r\<lparr>lastStamp := ff_externalCamStamp f, sinceMoved := 0, everMoved := True\<rparr>
                     else if everMoved r \<and> sinceMoved r < 0xFFFFFFFF then r\<lparr>sinceMoved := sinceMoved r + 1\<rparr>
                     else r)
           in (everMoved r1 \<and> sinceMoved r1 \<le> maxAgeFrames \<and> ff_externalCam f, r1))"

section \<open>The gate\<close>

record Gate =
  gatePanelRun :: u32
  gateSincePanel :: u32
  gateIdleFrames :: u32
  gateAwayScene :: u32
  gateExternal :: bool
  gateSinceEnter :: u32
  gateEnterWindowMs :: u64
  gateNearMisses :: u32
  gapEyeDraws :: u32
  gateIntent :: bool
  gateHaveKey :: bool
  gateKeyBound :: bool
  gateViewIndex :: int
  gateWantView :: int
  gateViewCount :: int
  gateHaveNextKey :: bool
  gateViewWarned :: bool
  gatePanelSeenNoted :: bool
  gateViewSynced :: bool
  wakeKnown :: bool
  wakeLast :: bool
  gateViewEverRead :: bool
  gateViewLostNoted :: bool
  gateBridgeOn :: bool
  gateBridgeStarted :: bool
  gateSyncRefusedNoted :: bool
  gateFrameNo :: u32
  panelStoppedMs :: u64
  awaySceneMs :: u64
  idleMs :: u64
  lastFootResetMs :: u64
  heartbeatMs :: u64
  liveOnFootKnown :: bool
  liveOnFoot :: bool
  autoIntentNoted :: bool
  liveSample :: u32
  sampleAtPanelStop :: u32
  liveOnFootSeenThisFoot :: bool
  footGraceJournal :: bool
  footGraceMs :: u64
  gateKeylessOn :: bool
  gateNoConsumerNoted :: bool
  gateIntentAge :: u32
  gateIntentMs :: u64
  gateIntentGraceMs :: u64
  gateInCamera :: bool
  gateCameraEnters :: u32
  viewOverride :: int
  panelSettled :: bool
  gateWantsPanel :: bool
  gateFlag :: FrameFlag

text \<open>
  The last two are not fields of the code's structure: whether the feature is on is a variable beside it, so that
  clearing the structure leaves it, and the flag is in memory shared with the other library.
\<close>

definition kNewFootSessionMs :: u64 where "kNewFootSessionMs = 10000"
definition kFootGraceMs :: u64 where "kFootGraceMs = 10000"
definition kKeylessEnterMs :: u64 where "kKeylessEnterMs = 2700"
definition kIdleDropMs :: u64 where "kIdleDropMs = 3300"
definition kPanelRunOverMs :: u64 where "kPanelRunOverMs = 1150"
definition kSceneDraws :: u32 where "kSceneDraws = 50"
definition kHeartbeatMs :: u64 where "kHeartbeatMs = 6700"

definition newOffsetGate :: "bool \<Rightarrow> FrameFlag \<Rightarrow> Gate" where
  "newOffsetGate wants f =
     \<lparr>gatePanelRun = 0, gateSincePanel = 0, gateIdleFrames = 0, gateAwayScene = 0, gateExternal = False, gateSinceEnter = 0,
      gateEnterWindowMs = 670, gateNearMisses = 0, gapEyeDraws = 0, gateIntent = False, gateHaveKey = False, gateKeyBound = False,
      gateViewIndex = 0, gateWantView = 1, gateViewCount = 6, gateHaveNextKey = False, gateViewWarned = False,
      gatePanelSeenNoted = False, gateViewSynced = False, wakeKnown = False, wakeLast = False, gateViewEverRead = False,
      gateViewLostNoted = False, gateBridgeOn = True, gateBridgeStarted = False, gateSyncRefusedNoted = False, gateFrameNo = 0,
      panelStoppedMs = 0, awaySceneMs = 0, idleMs = 0, lastFootResetMs = 0, heartbeatMs = 0, liveOnFootKnown = False,
      liveOnFoot = False, autoIntentNoted = False, liveSample = 0, sampleAtPanelStop = 0, liveOnFootSeenThisFoot = False,
      footGraceJournal = False, footGraceMs = 0, gateKeylessOn = False, gateNoConsumerNoted = False, gateIntentAge = 0,
      gateIntentMs = 0, gateIntentGraceMs = 2000, gateInCamera = False, gateCameraEnters = 0, viewOverride = - 1,
      panelSettled = False, gateWantsPanel = wants, gateFlag = f\<rparr>"

definition publishFlag :: "bool \<Rightarrow> Gate \<Rightarrow> Gate" where
  "publishFlag on g = g\<lparr>gateFlag := setExternalCameraOnFoot on (gateFlag g)\<rparr>"

definition headOffsetGateConfigure :: "Config \<Rightarrow> Gate \<Rightarrow> Gate \<times> Config" where
  "headOffsetGateConfigure c0 g =
     (let (wants, c1) = getBool ''fix.head_offset_gate'' True c0;
          (window, c2) = getIntInRange ''fix.head_offset_enter_window_ms'' 670 0 100000 c1;
          (grace, c3) = getIntInRange ''fix.head_offset_intent_grace_ms'' 2000 0 100000 c2;
          (want, c4) = getIntInRange ''advanced.head_offset_view'' 2 (- 1) 63 c3;
          (count, c5) = getIntInRange ''fix.head_offset_view_count'' 6 0 64 c4;
          (bridge, c6) = getBool ''fix.head_offset_view_bridge'' True c5;
          (keyless, c7) = getBool ''experimental.keyless_camera'' False c6
      in (g\<lparr>gateWantsPanel := wants, gateEnterWindowMs := word_of_int window, gateIntentGraceMs := word_of_int grace,
            gateWantView := want, gateViewCount := count, gateBridgeOn := bridge, gateKeylessOn := keyless\<rparr>, c7))"

definition headOffsetGateReset :: "Gate \<Rightarrow> Gate" where
  "headOffsetGateReset g = publishFlag False ((newOffsetGate False (gateFlag g))\<lparr>gateKeyBound := gateKeyBound g\<rparr>)"

definition headOffsetGateSetKeyBound :: "bool \<Rightarrow> Gate \<Rightarrow> Gate" where
  "headOffsetGateSetKeyBound bound g = g\<lparr>gateKeyBound := bound\<rparr>"

definition headOffsetGateSetNextKeyBound :: "bool \<Rightarrow> Gate \<Rightarrow> Gate" where
  "headOffsetGateSetNextKeyBound bound g = g\<lparr>gateHaveNextKey := bound\<rparr>"

definition headOffsetGateSetOnFootLive :: "bool \<Rightarrow> bool \<Rightarrow> u32 \<Rightarrow> Gate \<Rightarrow> Gate" where
  "headOffsetGateSetOnFootLive known onFoot sample g =
     (let steppingOut = (known \<and> onFoot \<and> liveOnFootKnown g \<and> \<not> liveOnFoot g);
          g1 = (if steppingOut \<and> 0 < gateViewCount g \<and> gateViewCount g \<le> gateViewIndex g then g\<lparr>gateViewIndex := 0\<rparr> else g)
      in g1\<lparr>liveOnFootKnown := known, liveOnFoot := onFoot, liveSample := sample,
            liveOnFootSeenThisFoot := (liveOnFootSeenThisFoot g1 \<or> known \<and> onFoot)\<rparr>)"

definition headOffsetGateSetWakeLive :: "bool \<Rightarrow> bool \<Rightarrow> bool \<Rightarrow> Gate \<Rightarrow> Gate" where
  "headOffsetGateSetWakeLive known inSupercruise inTunnel g =
     (if \<not> known then g\<lparr>wakeKnown := False\<rparr>
      else let wake = (inSupercruise \<or> inTunnel);
               changed = (wakeKnown g \<and> wake \<noteq> wakeLast g);
               g1 = g\<lparr>wakeKnown := True, wakeLast := wake\<rparr>
           in if \<not> changed \<or> gateViewIndex g1 = 0 then g1 else g1\<lparr>gateViewIndex := 0, gateBridgeStarted := False\<rparr>)"

definition headOffsetGateNewFootSession :: "(nat \<Rightarrow> u64) \<Rightarrow> bool \<Rightarrow> Gate \<Rightarrow> Gate" where
  "headOffsetGateNewFootSession clk journalSaysSo g =
     (let g1 = (if journalSaysSo then g\<lparr>footGraceJournal := True, footGraceMs := stampMs (clk 0)\<rparr> else g);
          g2 = (if elapsedMs (clk 1) (lastFootResetMs g1) kNewFootSessionMs then g1\<lparr>lastFootResetMs := 0\<rparr> else g1)
      in if lastFootResetMs g2 \<noteq> 0 then g2
         else g2\<lparr>lastFootResetMs := stampMs (clk 2), gateBridgeStarted := False, liveOnFootSeenThisFoot := False\<rparr>)"

definition headOffsetGateNoteEmbark :: "Gate \<Rightarrow> Gate" where
  "headOffsetGateNoteEmbark g = g\<lparr>footGraceJournal := False\<rparr>"

definition headOffsetGateKeyPressed :: "(nat \<Rightarrow> u64) \<Rightarrow> Gate \<Rightarrow> Gate" where
  "headOffsetGateKeyPressed clk g =
     (let panelUpNow = (gateSincePanel g \<le> 2 \<and> 0 < gatePanelRun g)
      in g\<lparr>gateHaveKey := True, gateIntent := (if panelUpNow \<and> \<not> gateInCamera g then True else \<not> gateIntent g),
           gateIntentAge := 0, gateIntentMs := stampMs (clk 0)\<rparr>)"

definition currentRing :: "Gate \<Rightarrow> int" where
  "currentRing g = (if liveOnFootKnown g \<and> \<not> liveOnFoot g then 0 else gateViewCount g)"

text \<open>\<open>v smod n\<close> of the code keeps the sign of the dividend; the second line of the code folds it.\<close>

definition truncMod :: "int \<Rightarrow> int \<Rightarrow> int" where
  "truncMod v n = (if v < 0 then - ((- v) mod n) else v mod n)"

definition normalizeView :: "Gate \<Rightarrow> int \<Rightarrow> int" where
  "normalizeView g v =
     (let n = currentRing g in
      if n \<le> 0 then if v < 0 then 0 else v
      else let m = truncMod v n in if m < 0 then m + n else m)"

definition headOffsetGateStepView :: "int \<Rightarrow> Gate \<Rightarrow> Gate" where
  "headOffsetGateStepView delta g = g\<lparr>gateHaveNextKey := True, gateViewIndex := normalizeView g (gateViewIndex g + delta)\<rparr>"

definition headOffsetGateViewBumped :: "Gate \<Rightarrow> Gate" where
  "headOffsetGateViewBumped = headOffsetGateStepView 1"

definition headOffsetGateViewUnbumped :: "Gate \<Rightarrow> Gate" where
  "headOffsetGateViewUnbumped = headOffsetGateStepView (- 1)"

definition headOffsetGateSetView :: "int \<Rightarrow> Gate \<Rightarrow> Gate" where
  "headOffsetGateSetView view g = g\<lparr>viewOverride := view\<rparr>"

section \<open>One frame\<close>

definition panelFrame :: "(nat \<Rightarrow> u64) \<Rightarrow> Gate \<Rightarrow> Gate" where
  "panelFrame clk g =
     (let g1 = (if elapsedMs (clk 0) (awaySceneMs g) kNewFootSessionMs then headOffsetGateNewFootSession (\<lambda>i. clk (i + 1)) False g else g);
          g2 = g1\<lparr>gateAwayScene := 0, awaySceneMs := 0, gateSincePanel := 0, panelStoppedMs := 0, gateIdleFrames := 0, idleMs := 0,
                  gapEyeDraws := 0, gatePanelRun := (if gatePanelRun g1 < 10000 then gatePanelRun g1 + 1 else gatePanelRun g1)\<rparr>
      in if gateInCamera g2
         then publishFlag False (g2\<lparr>gateInCamera := False, gateExternal := False, gateIntent := False, gateIntentAge := 0, gateIntentMs := 0\<rparr>)
         else if gateIntent g2 \<and> elapsedMs (clk 4) (gateIntentMs g2) (gateIntentGraceMs g2)
         then g2\<lparr>gateIntent := False, gateIntentAge := 0, gateIntentMs := 0\<rparr>
         else g2)"

definition leaveCamera :: "Gate \<Rightarrow> Gate" where
  "leaveCamera g = publishFlag False (g\<lparr>gateInCamera := False, gateExternal := False\<rparr>)"

definition panelStops :: "(nat \<Rightarrow> u64) \<Rightarrow> u32 \<Rightarrow> Gate \<Rightarrow> Gate" where
  "panelStops clk eyeDraws g =
     (let g1 = g\<lparr>gateSincePanel := gateSincePanel g + 1, gapEyeDraws := max (gapEyeDraws g) eyeDraws\<rparr>
      in if gateSincePanel g1 = 1 then g1\<lparr>sampleAtPanelStop := liveSample g1, panelStoppedMs := stampMs (clk 5)\<rparr> else g1)"

definition intentOk :: "Gate \<Rightarrow> bool" where
  "intentOk g \<longleftrightarrow> gateKeyBound g \<and> gateIntent g"

definition autoIntent :: "(nat \<Rightarrow> u64) \<Rightarrow> Gate \<Rightarrow> bool" where
  "autoIntent clk g \<longleftrightarrow>
     (let statusFresh = (liveOnFootKnown g \<and> liveOnFoot g \<and> sampleAtPanelStop g < liveSample g);
          graceActive = (footGraceJournal g \<and> \<not> liveOnFootSeenThisFoot g \<and> \<not> elapsedMs (clk 6) (footGraceMs g) kFootGraceMs)
      in gateKeylessOn g \<and> \<not> gateKeyBound g \<and> (statusFresh \<or> graceActive))"

definition entryAsked :: "(nat \<Rightarrow> u64) \<Rightarrow> Gate \<Rightarrow> bool" where
  "entryAsked clk g \<longleftrightarrow>
     (let timingOk = (\<not> elapsedMs (clk 7) (panelStoppedMs g) (gateEnterWindowMs g) \<or> \<not> elapsedMs (clk 8) (gateIntentMs g) (gateIntentGraceMs g))
      in intentOk g \<and> timingOk \<or> autoIntent clk g \<and> \<not> elapsedMs (clk 9) (panelStoppedMs g) kKeylessEnterMs)"

definition enterCamera :: "(nat \<Rightarrow> u64) \<Rightarrow> bool \<Rightarrow> Gate \<Rightarrow> Gate" where
  "enterCamera clk sceneNow g =
     (let g1 = (if autoIntent clk g then g\<lparr>autoIntentNoted := True\<rparr> else g) in
      if \<not> gateInCamera g1 \<and> entryAsked clk g1 \<and> 8 \<le> gateSincePanel g1 \<and> sceneNow \<and> 30 < gatePanelRun g1
      then g1\<lparr>gateInCamera := True, gateCameraEnters := gateCameraEnters g1 + 1, gateSinceEnter := 0, heartbeatMs := stampMs (clk 10)\<rparr>
      else g1)"

definition boardingExit :: "Gate \<Rightarrow> Gate" where
  "boardingExit g = (if gateInCamera g \<and> liveOnFootKnown g \<and> \<not> liveOnFoot g \<and> liveOnFootSeenThisFoot g then leaveCamera g else g)"

definition sceneOrIdle :: "(nat \<Rightarrow> u64) \<Rightarrow> bool \<Rightarrow> Gate \<Rightarrow> Gate" where
  "sceneOrIdle clk sceneNow g =
     (if \<not> sceneNow
      then let g1 = g\<lparr>gateIdleFrames := gateIdleFrames g + 1\<rparr>;
               g2 = (if gateIdleFrames g1 = 1 then g1\<lparr>idleMs := stampMs (clk 11)\<rparr> else g1)
           in if elapsedMs (clk 12) (idleMs g2) kIdleDropMs \<and> gateInCamera g2 then leaveCamera g2 else g2
      else let g1 = g\<lparr>gateIdleFrames := 0, idleMs := 0\<rparr>
           in if \<not> gateInCamera g1 \<and> gateAwayScene g1 < 1000000
              then let g2 = g1\<lparr>gateAwayScene := gateAwayScene g1 + 1\<rparr>
                   in if gateAwayScene g2 = 1 then g2\<lparr>awaySceneMs := stampMs (clk 13)\<rparr> else g2
              else g1)"

definition stillOn :: "(nat \<Rightarrow> u64) \<Rightarrow> Gate \<Rightarrow> Gate" where
  "stillOn clk g =
     (if gateExternal g \<and> 0 < gateSinceEnter g \<and> elapsedMs (clk 14) (heartbeatMs g) kHeartbeatMs
      then g\<lparr>heartbeatMs := stampMs (clk 15)\<rparr> else g)"

definition panelRunOver :: "(nat \<Rightarrow> u64) \<Rightarrow> Gate \<Rightarrow> Gate" where
  "panelRunOver clk g =
     (if elapsedMs (clk 16) (panelStoppedMs g) kPanelRunOverMs
      then g\<lparr>gateNearMisses := (if 30 < gatePanelRun g \<and> \<not> gateInCamera g \<and> gateHaveKey g \<and> gateNearMisses g < 20
                              then gateNearMisses g + 1 else gateNearMisses g), gatePanelRun := 0\<rparr>
      else g)"

definition awayFrame :: "(nat \<Rightarrow> u64) \<Rightarrow> u32 \<Rightarrow> bool \<Rightarrow> Gate \<Rightarrow> Gate" where
  "awayFrame clk eyeDraws sceneNow g =
     panelRunOver clk (stillOn clk (sceneOrIdle clk sceneNow (boardingExit (enterCamera clk sceneNow (panelStops clk eyeDraws g)))))"

definition noteRead :: "int \<Rightarrow> Gate \<Rightarrow> Gate" where
  "noteRead gameView g =
     (if 0 \<le> gameView then g\<lparr>gateViewEverRead := True, gateViewLostNoted := False, gateBridgeStarted := False\<rparr>
      else if gateViewEverRead g
      then g\<lparr>gateBridgeStarted := (gateBridgeStarted g \<or> gateBridgeOn g), gateViewLostNoted := (gateViewLostNoted g \<or> \<not> gateBridgeOn g)\<rparr>
      else g)"

definition syncView :: "int \<Rightarrow> Gate \<Rightarrow> Gate" where
  "syncView gameView g =
     (if 0 \<le> gameView \<and> gameView \<noteq> gateViewIndex g
      then if gateInCamera g \<or> \<not> gateViewEverRead g
           then g\<lparr>gateViewSynced := True, gateViewIndex := normalizeView g gameView\<rparr>
           else g\<lparr>gateSyncRefusedNoted := True\<rparr>
      else if 0 \<le> gameView then g\<lparr>gateSyncRefusedNoted := False\<rparr>
      else g)"

definition readView :: "Gate \<Rightarrow> Gate" where
  "readView g = (let gameView = viewOverride g in syncView gameView (noteRead gameView g))"

definition viewOk :: "Gate \<Rightarrow> bool" where
  "viewOk g \<longleftrightarrow>
     (let gameView = viewOverride g;
          bridging = (gameView < 0 \<and> gateViewEverRead g \<and> gateBridgeOn g);
          viewLost = (gateViewEverRead g \<and> gameView < 0 \<and> \<not> bridging)
      in \<not> viewLost \<and> (gateWantView g < 0 \<or> gateViewIndex g = gateWantView g))"

definition warnView :: "Gate \<Rightarrow> Gate" where
  "warnView g =
     (if \<not> gateViewWarned g \<and> gateInCamera g \<and> \<not> viewOk g \<and> 0 < gateWantView g \<and> \<not> gateHaveNextKey g \<and> viewOverride g < 0
      then g\<lparr>gateViewWarned := True\<rparr> else g)"

definition decideOffset :: "(nat \<Rightarrow> u64) \<Rightarrow> bool \<Rightarrow> Gate \<Rightarrow> Gate" where
  "decideOffset clk consumerPresent g0 =
     (let wantOffset = (gateInCamera g0 \<and> viewOk g0);
          g = publishFlag wantOffset g0
      in if wantOffset = gateExternal g then g
         else if wantOffset
         then g\<lparr>gateExternal := True, gateSinceEnter := 0, heartbeatMs := stampMs (clk 17),
                gateNoConsumerNoted := (gateNoConsumerNoted g \<or> \<not> consumerPresent)\<rparr>
         else g\<lparr>gateExternal := False\<rparr>)"

definition ageIntent :: "(nat \<Rightarrow> u64) \<Rightarrow> Gate \<Rightarrow> Gate" where
  "ageIntent clk g0 =
     (let g = (if gateInCamera g0 then g0\<lparr>gateSinceEnter := gateSinceEnter g0 + 1\<rparr> else g0) in
      if gateIntent g \<and> \<not> gateInCamera g
      then let g1 = g\<lparr>gateIntentAge := gateIntentAge g + 1\<rparr>
           in if elapsedMs (clk 18) (gateIntentMs g1) (gateIntentGraceMs g1)
              then g1\<lparr>gateIntent := False, gateIntentAge := 0, gateIntentMs := 0\<rparr> else g1
      else g)"

definition headOffsetGateFrame :: "(nat \<Rightarrow> u64) \<Rightarrow> bool \<Rightarrow> u32 \<Rightarrow> u32 \<Rightarrow> u32 \<Rightarrow> Gate \<Rightarrow> Gate" where
  "headOffsetGateFrame clk consumerPresent frameNo panelDraws eyeDraws g0 =
     (let g1 = g0\<lparr>gateFrameNo := frameNo, panelSettled := False\<rparr> in
      if \<not> gateWantsPanel g1 then if gateExternal g1 \<or> gateInCamera g1 then headOffsetGateReset g1 else g1
      else let panelNow = (0 < panelDraws);
               sceneNow = (kSceneDraws < eyeDraws);
               g2 = g1\<lparr>panelSettled := (panelNow \<and> 30 < gatePanelRun g1), gatePanelSeenNoted := (gatePanelSeenNoted g1 \<or> panelNow)\<rparr>;
               g3 = (if panelNow then panelFrame clk g2
                     else if gateInCamera g2 \<and> gateHaveKey g2 \<and> \<not> gateIntent g2 then leaveCamera g2
                     else awayFrame clk eyeDraws sceneNow g2)
           in ageIntent clk (decideOffset clk consumerPresent (warnView (readView g3))))"

end
