(* ===== verification/HeadOffsetProps.thy ===== *)
theory HeadOffsetProps
  imports HeadOffsetGate
begin

text \<open>
  The head offset gate fails safe. \<open>offsetInv\<close> ties the published flag to the latch and the latch to the camera; \<open>frame_in\<close> says
  what a frame that ends in the camera has seen; the promises are about every run of calls in any order, with any clock
  readings. \<open>cameraGate\<close> is a run that does turn the offset on, and instantiates the promises.
\<close>

section \<open>What the stages of a frame leave alone\<close>

lemmas gateStages = publishFlag_def leaveCamera_def panelStops_def enterCamera_def boardingExit_def sceneOrIdle_def stillOn_def panelRunOver_def

lemma stampMs_nonzero [simp]: "stampMs t \<noteq> 0"
  by (simp add: stampMs_def)

lemma setExternal_mapped [simp]: "ff_mapped (setExternalCameraOnFoot on f) = ff_mapped f"
  by (simp add: setExternalCameraOnFoot_def)

text \<open>Every operation keeps that the published flag is the latch, that the latch needs the camera and that an intent has its time.\<close>

definition offsetInv :: "Gate \<Rightarrow> bool" where
  "offsetInv g \<longleftrightarrow> (ff_mapped (gateFlag g) \<longrightarrow> ff_externalCam (gateFlag g) = gateExternal g) \<and> (gateExternal g \<longrightarrow> gateInCamera g) \<and>
     (gateIntent g \<longrightarrow> gateIntentMs g \<noteq> 0) \<and> 0 \<le> gateViewIndex g"

lemma normalizeView_ring: "0 < currentRing g \<Longrightarrow> normalizeView g v = v mod currentRing g"
proof -
  assume n: "0 < currentRing g"
  show ?thesis
  proof (cases "v < 0")
    case True
    define n where "n = currentRing g"
    have "- v mod n = (if v mod n = 0 then 0 else n - v mod n)" by (rule zmod_zminus1_eq_if)
    then show ?thesis using n True pos_mod_sign [of n v] pos_mod_bound [of n v]
      by (auto simp: normalizeView_def truncMod_def Let_def n_def [symmetric] split: if_splits)
  qed (use n pos_mod_sign [of "currentRing g" v] in \<open>simp add: normalizeView_def truncMod_def Let_def not_less\<close>)
qed

lemma normalizeView_nonneg: "0 \<le> normalizeView g v"
proof (cases "0 < currentRing g")
  case True
  then show ?thesis by (simp add: normalizeView_ring)
qed (simp add: normalizeView_def)

lemma leaveCamera_inv [simp]:
  "offsetInv g \<Longrightarrow> offsetInv (leaveCamera g)" "\<not> gateInCamera (leaveCamera g)"
  by (auto simp: leaveCamera_def publishFlag_def offsetInv_def setExternalCameraOnFoot_def)

lemma newFootSession_inv: "offsetInv g \<Longrightarrow> offsetInv (headOffsetGateNewFootSession clk j g)"
  by (simp add: offsetInv_def headOffsetGateNewFootSession_def Let_def)

lemma panelFrame_inv: "offsetInv g \<Longrightarrow> offsetInv (panelFrame clk g)"
  using newFootSession_inv [of g "\<lambda>i. clk (i + 1)" False]
  by (cases "elapsedMs (clk 0) (awaySceneMs g) kNewFootSessionMs") (auto simp: panelFrame_def Let_def publishFlag_def offsetInv_def setExternalCameraOnFoot_def)

lemma panelFrame_out: "\<not> gateInCamera (panelFrame clk g)"
  by (simp add: panelFrame_def Let_def publishFlag_def)

lemma awayFrame_inv: "offsetInv g \<Longrightarrow> offsetInv (awayFrame clk e sc g)"
proof -
  assume "offsetInv g"
  then have "offsetInv (enterCamera clk sc (panelStops clk e g))" by (auto simp: offsetInv_def panelStops_def enterCamera_def Let_def)
  then have "offsetInv (boardingExit (enterCamera clk sc (panelStops clk e g)))" by (simp add: boardingExit_def)
  moreover have "offsetInv (sceneOrIdle clk sc h)" if "offsetInv h" for h
  proof (cases sc)
    case True
    then show ?thesis using that by (auto simp: sceneOrIdle_def offsetInv_def Let_def)
  next
    case False
    have "offsetInv (if gateIdleFrames h + 1 = 1 then h\<lparr>gateIdleFrames := gateIdleFrames h + 1, idleMs := stampMs (clk 11)\<rparr> else h\<lparr>gateIdleFrames := gateIdleFrames h + 1\<rparr>)"
      using that by (simp add: offsetInv_def)
    then show ?thesis using False by (simp add: sceneOrIdle_def Let_def)
  qed
  moreover have "offsetInv (panelRunOver clk (stillOn clk h))" if "offsetInv h" for h
    using that by (simp add: offsetInv_def panelRunOver_def stillOn_def)
  ultimately show ?thesis by (simp add: awayFrame_def)
qed

lemma readView_inv: "offsetInv g \<Longrightarrow> offsetInv (readView g)"
  by (auto simp: offsetInv_def readView_def syncView_def noteRead_def Let_def normalizeView_nonneg)

lemma decide_inv: "offsetInv g \<Longrightarrow> offsetInv (ageIntent clk (decideOffset clk c (warnView g)))"
  by (auto simp: offsetInv_def ageIntent_def decideOffset_def warnView_def publishFlag_def setExternalCameraOnFoot_def Let_def)

lemma gateReset_inv: "offsetInv (headOffsetGateReset g)"
  by (auto simp: offsetInv_def headOffsetGateReset_def newOffsetGate_def publishFlag_def setExternalCameraOnFoot_def)

lemma frame_wanted:
  assumes "gateWantsPanel g"
  obtains g2 g3 where "headOffsetGateFrame clk c n p e g = ageIntent clk (decideOffset clk c (warnView (readView g3)))"
    "g3 = (if 0 < p then panelFrame clk g2 else if gateInCamera g \<and> gateHaveKey g \<and> \<not> gateIntent g then leaveCamera g2
       else awayFrame clk e (kSceneDraws < e) g2)"
    "g2 = g\<lparr>gateFrameNo := n, panelSettled := (0 < p \<and> 30 < gatePanelRun g), gatePanelSeenNoted := (gatePanelSeenNoted g \<or> 0 < p)\<rparr>"
  using assms by (simp add: headOffsetGateFrame_def Let_def)

lemma frame_inv: "offsetInv g \<Longrightarrow> offsetInv (headOffsetGateFrame clk c n p e g)"
proof (cases "gateWantsPanel g")
  case True
  assume g: "offsetInv g"
  from frame_wanted [OF True, of clk c n p e] obtain g2 g3 where
    g3: "headOffsetGateFrame clk c n p e g = ageIntent clk (decideOffset clk c (warnView (readView g3)))"
    "g3 = (if 0 < p then panelFrame clk g2 else if gateInCamera g \<and> gateHaveKey g \<and> \<not> gateIntent g then leaveCamera g2
       else awayFrame clk e (kSceneDraws < e) g2)"
    and g2: "g2 = g\<lparr>gateFrameNo := n, panelSettled := (0 < p \<and> 30 < gatePanelRun g), gatePanelSeenNoted := (gatePanelSeenNoted g \<or> 0 < p)\<rparr>" .
  have "offsetInv g2" using g by (simp add: offsetInv_def g2)
  then have "offsetInv g3" by (simp add: g3(2) panelFrame_inv awayFrame_inv)
  then show ?thesis by (simp add: g3(1) decide_inv readView_inv)
next
  case False
  assume "offsetInv g"
  then show ?thesis using False gateReset_inv by (simp add: headOffsetGateFrame_def Let_def offsetInv_def)
qed

section \<open>Runs of the gate\<close>

text \<open>The calls the other components make, in any order; every clock reading is arbitrary.\<close>

inductive gateCall :: "Gate \<Rightarrow> Gate \<Rightarrow> bool" where
  configure: "gateCall g (fst (headOffsetGateConfigure cfg g))"
| reset: "gateCall g (headOffsetGateReset g)"
| keyBound: "gateCall g (headOffsetGateSetKeyBound b g)"
| nextKeyBound: "gateCall g (headOffsetGateSetNextKeyBound b g)"
| onFootLive: "gateCall g (headOffsetGateSetOnFootLive known onFoot sample g)"
| wakeLive: "gateCall g (headOffsetGateSetWakeLive known cruise tunnel g)"
| newFootSession: "gateCall g (headOffsetGateNewFootSession clk j g)"
| embark: "gateCall g (headOffsetGateNoteEmbark g)"
| keyPressed: "gateCall g (headOffsetGateKeyPressed clk g)"
| viewBumped: "gateCall g (headOffsetGateViewBumped g)"
| viewUnbumped: "gateCall g (headOffsetGateViewUnbumped g)"
| setView: "gateCall g (headOffsetGateSetView v g)"
| frame: "gateCall g (headOffsetGateFrame clk c n p e g)"

definition freshGate :: "Gate \<Rightarrow> bool" where
  "freshGate g \<longleftrightarrow> (\<exists>wants f. g = newOffsetGate wants f \<and> \<not> ff_externalCam f)"

interpretation hg: step_machine freshGate gateCall offsetInv
proof
  fix g assume "freshGate g"
  then show "offsetInv g" by (auto simp: freshGate_def newOffsetGate_def offsetInv_def)
next
  fix g h assume i: "offsetInv g" and "gateCall g h"
  from this(2) show "offsetInv h"
  proof cases
    case (configure cfg)
    then show ?thesis using i by (simp add: offsetInv_def headOffsetGateConfigure_def Let_def case_prod_unfold)
  next
    case (onFootLive known onFoot sample)
    then show ?thesis using i by (simp add: offsetInv_def headOffsetGateSetOnFootLive_def Let_def)
  next
    case (wakeLive known cruise tunnel)
    then show ?thesis using i by (simp add: offsetInv_def headOffsetGateSetWakeLive_def Let_def)
  next
    case (keyPressed clk)
    then show ?thesis using i by (simp add: offsetInv_def headOffsetGateKeyPressed_def Let_def)
  qed (use i gateReset_inv newFootSession_inv frame_inv in \<open>simp_all add: offsetInv_def headOffsetGateSetKeyBound_def headOffsetGateSetNextKeyBound_def
      headOffsetGateNoteEmbark_def headOffsetGateViewBumped_def headOffsetGateViewUnbumped_def headOffsetGateStepView_def normalizeView_nonneg
      headOffsetGateSetView_def\<close>)
qed

section \<open>When the offset is on\<close>

text \<open>What holds of the camera after the part of a frame in which the panel is away.\<close>

definition boarded :: "Gate \<Rightarrow> bool" where
  "boarded g \<longleftrightarrow> liveOnFootKnown g \<and> \<not> liveOnFoot g \<and> liveOnFootSeenThisFoot g"

lemma enterCamera_in:
  "gateInCamera (enterCamera clk sc g) \<longleftrightarrow> gateInCamera g \<or> entryAsked clk g \<and> 8 \<le> gateSincePanel g \<and> sc \<and> 30 < gatePanelRun g"
proof -
  have "entryAsked clk (g\<lparr>autoIntentNoted := True\<rparr>) = entryAsked clk g" by (simp add: entryAsked_def intentOk_def autoIntent_def)
  then show ?thesis by (auto simp: enterCamera_def Let_def)
qed

lemma tail_in [simp]: "gateInCamera (panelRunOver clk g) = gateInCamera g" "gateInCamera (stillOn clk g) = gateInCamera g"
  by (simp_all add: panelRunOver_def stillOn_def)

lemma away_in:
  assumes "gateInCamera (awayFrame clk e sc g)"
  shows "\<not> boarded g" "gateInCamera g \<or> entryAsked clk (panelStops clk e g) \<and> 8 \<le> gateSincePanel g + 1 \<and> sc \<and> 30 < gatePanelRun g"
    "sc \<or> gateIdleFrames g = 0 \<or> \<not> elapsedMs (clk 12) (idleMs g) kIdleDropMs"
proof -
  define h where "h = enterCamera clk sc (panelStops clk e g)"
  have s: "gateInCamera (sceneOrIdle clk sc (boardingExit h))" using assms by (simp add: awayFrame_def h_def)
  then have b: "gateInCamera (boardingExit h)" by (auto simp: sceneOrIdle_def Let_def leaveCamera_def publishFlag_def split: if_splits)
  then have i: "gateInCamera h" "\<not> boarded h" by (auto simp: boardingExit_def boarded_def split: if_splits)
  have fields: "boarded h = boarded g" "gateIdleFrames h = gateIdleFrames g" "idleMs h = idleMs g"
    by (simp_all add: h_def enterCamera_def panelStops_def Let_def boarded_def)
  show "\<not> boarded g" using i fields by simp
  show "gateInCamera g \<or> entryAsked clk (panelStops clk e g) \<and> 8 \<le> gateSincePanel g + 1 \<and> sc \<and> 30 < gatePanelRun g"
    using i(1) by (simp add: h_def enterCamera_in panelStops_def Let_def split: if_splits)
  have "boardingExit h = h" using b by (auto simp: boardingExit_def split: if_splits)
  with s show "sc \<or> gateIdleFrames g = 0 \<or> \<not> elapsedMs (clk 12) (idleMs g) kIdleDropMs"
    by (auto simp: sceneOrIdle_def Let_def fields leaveCamera_def publishFlag_def split: if_splits)
qed

lemma decide_fields:
  "gateInCamera (ageIntent clk (decideOffset clk c (warnView (readView g)))) = gateInCamera g"
  "gateExternal (ageIntent clk (decideOffset clk c (warnView (readView g)))) = (gateInCamera g \<and> viewOk (readView g))"
  "gateWantView (ageIntent clk (decideOffset clk c (warnView (readView g)))) = gateWantView g"
  "gateViewIndex (ageIntent clk (decideOffset clk c (warnView (readView g)))) = gateViewIndex (readView g)"
proof -
  have r: "gateInCamera (readView g) = gateInCamera g" "gateWantView (readView g) = gateWantView g"
    by (simp_all add: readView_def syncView_def noteRead_def Let_def)
  define h where "h = readView g"
  have w: "gateInCamera (warnView h) = gateInCamera h" "viewOk (warnView h) = viewOk h" "gateWantView (warnView h) = gateWantView h"
    "gateViewIndex (warnView h) = gateViewIndex h" by (simp_all add: warnView_def viewOk_def)
  have d: "gateInCamera (decideOffset clk c k) = gateInCamera k" "gateExternal (decideOffset clk c k) = (gateInCamera k \<and> viewOk k)"
    "gateWantView (decideOffset clk c k) = gateWantView k" "gateViewIndex (decideOffset clk c k) = gateViewIndex k" for k
    by (auto simp: decideOffset_def publishFlag_def Let_def)
  have a: "gateInCamera (ageIntent clk k) = gateInCamera k" "gateExternal (ageIntent clk k) = gateExternal k"
    "gateWantView (ageIntent clk k) = gateWantView k" "gateViewIndex (ageIntent clk k) = gateViewIndex k" for k
    by (simp_all add: ageIntent_def Let_def)
  show "gateInCamera (ageIntent clk (decideOffset clk c (warnView (readView g)))) = gateInCamera g"
    "gateExternal (ageIntent clk (decideOffset clk c (warnView (readView g)))) = (gateInCamera g \<and> viewOk (readView g))"
    "gateWantView (ageIntent clk (decideOffset clk c (warnView (readView g)))) = gateWantView g"
    "gateViewIndex (ageIntent clk (decideOffset clk c (warnView (readView g)))) = gateViewIndex (readView g)"
    by (simp_all add: a d w r h_def [symmetric]) (simp_all add: h_def r)
qed

lemma frame_in:
  assumes "gateInCamera (headOffsetGateFrame clk c n p e g)"
  shows "gateWantsPanel g \<and> p = 0 \<and> \<not> boarded g \<and> \<not> (gateInCamera g \<and> gateHaveKey g \<and> \<not> gateIntent g) \<and>
    (gateInCamera g \<or> entryAsked clk (panelStops clk e g) \<and> 8 \<le> gateSincePanel g + 1 \<and> kSceneDraws < e \<and> 30 < gatePanelRun g) \<and>
    (kSceneDraws < e \<or> gateIdleFrames g = 0 \<or> \<not> elapsedMs (clk 12) (idleMs g) kIdleDropMs)"
proof (cases "gateWantsPanel g")
  case True
  from frame_wanted [OF True, of clk c n p e] obtain g2 g3 where
    g3: "headOffsetGateFrame clk c n p e g = ageIntent clk (decideOffset clk c (warnView (readView g3)))"
    "g3 = (if 0 < p then panelFrame clk g2 else if gateInCamera g \<and> gateHaveKey g \<and> \<not> gateIntent g then leaveCamera g2
       else awayFrame clk e (kSceneDraws < e) g2)"
    and g2_def: "g2 = g\<lparr>gateFrameNo := n, panelSettled := (0 < p \<and> 30 < gatePanelRun g), gatePanelSeenNoted := (gatePanelSeenNoted g \<or> 0 < p)\<rparr>" .
  have in3: "gateInCamera g3" using assms by (simp add: g3(1) decide_fields)
  then have k: "\<not> 0 < p" "\<not> (gateInCamera g \<and> gateHaveKey g \<and> \<not> gateIntent g)" using panelFrame_out by (auto simp: g3(2) split: if_splits)
  then have "gateInCamera (awayFrame clk e (kSceneDraws < e) g2)" using in3 by (auto simp: g3(2) split: if_splits)
  note a = away_in [OF this]
  have "entryAsked clk (panelStops clk e g2) = entryAsked clk (panelStops clk e g)"
    by (simp add: entryAsked_def intentOk_def autoIntent_def panelStops_def Let_def g2_def)
  then show ?thesis using a k True by (auto simp: g2_def boarded_def word_gt_0)
next
  case False
  then show ?thesis using assms
    by (auto simp: headOffsetGateFrame_def Let_def headOffsetGateReset_def publishFlag_def newOffsetGate_def split: if_splits)
qed

lemma stage_wantView:
  "gateWantView (panelStops clk e g) = gateWantView g" "gateWantView (enterCamera clk sc g) = gateWantView g"
  "gateWantView (boardingExit g) = gateWantView g" "gateWantView (sceneOrIdle clk sc g) = gateWantView g"
  "gateWantView (stillOn clk g) = gateWantView g" "gateWantView (panelRunOver clk g) = gateWantView g"
  by (simp_all add: gateStages Let_def)

section \<open>What the gate promises\<close>

abbreviation gateReach :: "Gate \<Rightarrow> bool" where
  "gateReach \<equiv> reach freshGate gateCall"

text \<open>
  C27: in every run, if the flag reads on after a frame then the feature is on, no flat panel was drawn in the frame, the
  camera is entered and on the wanted view, the key has not been pressed again since, the game's status
  does not say the player went back aboard, and the eyes have not been without a scene for 3.3 seconds.
\<close>

theorem offset_only_in_camera:
  assumes "gateReach g" "externalCameraOnFoot (gateFlag (headOffsetGateFrame clk c n p e g))"
  shows "gateWantsPanel g \<and> p = 0 \<and> gateInCamera (headOffsetGateFrame clk c n p e g) \<and>
    (gateWantView g < 0 \<or> gateViewIndex (headOffsetGateFrame clk c n p e g) = gateWantView g) \<and>
    \<not> (gateInCamera g \<and> gateHaveKey g \<and> \<not> gateIntent g) \<and> \<not> boarded g \<and>
    (kSceneDraws < e \<or> gateIdleFrames g = 0 \<or> \<not> elapsedMs (clk 12) (idleMs g) kIdleDropMs)"
proof -
  define h where "h = headOffsetGateFrame clk c n p e g"
  have "offsetInv h" unfolding h_def by (rule frame_inv [OF hg.reach_inv [OF assms(1)]])
  then have x: "gateExternal h" "gateInCamera h" using assms(2) by (auto simp: offsetInv_def externalCameraOnFoot_def h_def)
  have f: "gateWantsPanel g" using frame_in x(2) by (simp add: h_def)
  from frame_wanted [OF f, of clk c n p e] obtain g2 g3 where
    g3: "h = ageIntent clk (decideOffset clk c (warnView (readView g3)))"
      "g3 = (if 0 < p then panelFrame clk g2 else if gateInCamera g \<and> gateHaveKey g \<and> \<not> gateIntent g then leaveCamera g2
         else awayFrame clk e (kSceneDraws < e) g2)"
    and g2: "g2 = g\<lparr>gateFrameNo := n, panelSettled := (0 < p \<and> 30 < gatePanelRun g), gatePanelSeenNoted := (gatePanelSeenNoted g \<or> 0 < p)\<rparr>"
    unfolding h_def .
  have "gateWantView (readView g3) = gateWantView g3" by (simp add: readView_def syncView_def noteRead_def Let_def)
  moreover have "viewOk (readView g3)" using x(1) by (simp add: g3(1) decide_fields)
  moreover have "p = 0" "\<not> (gateInCamera g \<and> gateHaveKey g \<and> \<not> gateIntent g)" using frame_in x(2) by (auto simp: h_def)
  moreover from this have "gateWantView g3 = gateWantView g"
    by (auto simp: g3(2) awayFrame_def stage_wantView g2)
  ultimately have "gateWantView g < 0 \<or> gateViewIndex h = gateWantView g" by (simp add: viewOk_def g3(1) decide_fields Let_def)
  then show ?thesis using frame_in [of clk c n p e g] x(2) unfolding h_def by blast
qed

definition quietClock :: "nat \<Rightarrow> u64" where
  "quietClock i = 1"

definition onPanel :: "Gate \<Rightarrow> Gate" where
  "onPanel = headOffsetGateFrame quietClock True 0 1 0"

definition inScene :: "Gate \<Rightarrow> Gate" where
  "inScene = headOffsetGateFrame quietClock True 0 0 60"

definition startGate :: Gate where
  "startGate = (newOffsetGate True \<lparr>ff_mapped = True, ff_externalCam = False, ff_externalCamStamp = 0\<rparr>)"

definition keyGate :: Gate where
  "keyGate = headOffsetGateViewBumped (headOffsetGateSetKeyBound True startGate)"

lemmas runGate = quietClock_def startGate_def newOffsetGate_def headOffsetGateFrame_def [unfolded Let_def] panelFrame_def [unfolded Let_def] elapsedMs_def
  headOffsetGateViewBumped_def headOffsetGateStepView_def normalizeView_def [unfolded Let_def] currentRing_def truncMod_def
  headOffsetGateSetKeyBound_def readView_def [unfolded Let_def] syncView_def noteRead_def warnView_def decideOffset_def [unfolded Let_def]
  viewOk_def [unfolded Let_def] publishFlag_def setExternalCameraOnFoot_def ageIntent_def [unfolded Let_def] headOffsetGateKeyPressed_def [unfolded Let_def] stampMs_def

lemmas runAway = awayFrame_def panelStops_def [unfolded Let_def] enterCamera_def [unfolded Let_def] entryAsked_def [unfolded Let_def] intentOk_def
  autoIntent_def [unfolded Let_def] boardingExit_def sceneOrIdle_def [unfolded Let_def] stillOn_def panelRunOver_def kSceneDraws_def kPanelRunOverMs_def

definition panelGate :: "u32 \<Rightarrow> Gate" where
  "panelGate k = keyGate\<lparr>gatePanelRun := k, gatePanelSeenNoted := True, panelSettled := (30 < k - 1),
     gateFlag := \<lparr>ff_mapped = True, ff_externalCam = False, ff_externalCamStamp = k\<rparr>\<rparr>"

lemma onPanel_first: "onPanel keyGate = panelGate 1"
  by (simp add: onPanel_def keyGate_def panelGate_def runGate)

lemma onPanel_step: "k < 10000 \<Longrightarrow> onPanel (panelGate k) = panelGate (k + 1)"
  by (simp add: onPanel_def keyGate_def panelGate_def runGate)

lemma onPanel_steps: "n < 10000 \<Longrightarrow> (onPanel ^^ Suc n) keyGate = panelGate (word_of_nat (Suc n))"
proof (induction n)
  case (Suc n)
  have "(word_of_nat (Suc n) :: u32) < 10000" using Suc.prems by (simp add: word_less_nat_alt unat_of_nat take_bit_eq_mod del: of_nat_Suc)
  then show ?case using Suc by (simp add: onPanel_step)
qed (simp add: onPanel_first)

definition sceneGate :: "u32 \<Rightarrow> Gate" where
  "sceneGate j = keyGate\<lparr>gatePanelRun := 31, gatePanelSeenNoted := True, gateSincePanel := j, gateIntent := True, gateHaveKey := True, gateIntentMs := 1,
     gateIntentAge := j, panelStoppedMs := 1, gateAwayScene := j, awaySceneMs := 1, gapEyeDraws := 60,
     gateFlag := \<lparr>ff_mapped = True, ff_externalCam = False, ff_externalCamStamp = j + 31\<rparr>\<rparr>"

definition scenePart :: "Gate \<Rightarrow> Gate" where
  "scenePart g = awayFrame quietClock 60 True (g\<lparr>gateFrameNo := 0, panelSettled := False\<rparr>)"

lemma inScene_part:
  "gateWantsPanel g \<Longrightarrow> \<not> gateInCamera g \<Longrightarrow>
   inScene g = ageIntent quietClock (decideOffset quietClock True (warnView (readView (scenePart g))))"
  by (simp add: inScene_def scenePart_def headOffsetGateFrame_def Let_def kSceneDraws_def)

lemma wordOne [simp]: "\<not> 8 \<le> (1 :: u32)" "(1 :: u32) < 1000000" "max 0 60 = (60 :: u32)"
  by (simp_all add: word_le_nat_alt word_less_nat_alt max_def)

lemma scenePart_first: "scenePart (headOffsetGateKeyPressed quietClock (panelGate 31)) =
    (sceneGate 1)\<lparr>gateIntentAge := 0, gateFlag := \<lparr>ff_mapped = True, ff_externalCam = False, ff_externalCamStamp = 31\<rparr>\<rparr>"
  by (simp add: scenePart_def sceneGate_def panelGate_def keyGate_def runGate runAway)

lemma scenePart_step: "j \<noteq> 0 \<Longrightarrow> \<not> 8 \<le> j + 1 \<Longrightarrow> j < 1000000 \<Longrightarrow> scenePart (sceneGate j) =
    (sceneGate (j + 1))\<lparr>gateIntentAge := j, gateFlag := \<lparr>ff_mapped = True, ff_externalCam = False, ff_externalCamStamp = j + 31\<rparr>\<rparr>"
  by (simp add: scenePart_def sceneGate_def keyGate_def runGate runAway)

lemma scenePart_last: "scenePart (sceneGate 7) =
    (sceneGate 8)\<lparr>gateIntentAge := 7, gateInCamera := True, gateCameraEnters := 1, heartbeatMs := 1, gateAwayScene := 7,
      gateFlag := \<lparr>ff_mapped = True, ff_externalCam = False, ff_externalCamStamp = 38\<rparr>\<rparr>"
  by (simp add: scenePart_def sceneGate_def keyGate_def runGate runAway)

lemma sceneGate_fields: "gateWantsPanel (sceneGate j)" "\<not> gateInCamera (sceneGate j)"
  "gateWantsPanel (headOffsetGateKeyPressed quietClock (panelGate j))" "\<not> gateInCamera (headOffsetGateKeyPressed quietClock (panelGate j))"
  by (simp_all add: sceneGate_def panelGate_def keyGate_def runGate)

lemma inScene_first: "inScene (headOffsetGateKeyPressed quietClock (panelGate 31)) = sceneGate 1"
  by (simp add: inScene_part sceneGate_fields scenePart_first) (simp add: sceneGate_def keyGate_def runGate)

lemma inScene_step: "j \<noteq> 0 \<Longrightarrow> \<not> 8 \<le> j + 1 \<Longrightarrow> j < 1000000 \<Longrightarrow> inScene (sceneGate j) = sceneGate (j + 1)"
  by (simp add: inScene_part sceneGate_fields scenePart_step) (simp add: sceneGate_def keyGate_def runGate)

lemma inScene_last: "externalCameraOnFoot (gateFlag (inScene (sceneGate 7)))" "gateInCamera (inScene (sceneGate 7))" "gateIntent (inScene (sceneGate 7))"
  by (simp_all add: inScene_part sceneGate_fields scenePart_last) (simp_all add: sceneGate_def keyGate_def runGate externalCameraOnFoot_def)

definition cameraGate :: Gate where
  "cameraGate = (inScene ^^ 7) (headOffsetGateKeyPressed quietClock ((onPanel ^^ 31) keyGate))"

lemma cameraGate_eq: "cameraGate = sceneGate 7"
proof -
  have "(onPanel ^^ 31) keyGate = panelGate 31" using onPanel_steps [of 30] by simp
  then have "cameraGate = inScene (inScene (inScene (inScene (inScene (inScene (sceneGate 1))))))"
    by (simp only: cameraGate_def inScene_first eval_nat_numeral funpow.simps o_apply id_apply BitM.simps)
  also have "\<dots> = sceneGate 7"
    using inScene_step [of 1] inScene_step [of 2] inScene_step [of 3] inScene_step [of 4] inScene_step [of 5] inScene_step [of 6] by simp
  finally show ?thesis .
qed

lemma gate_step: "gateReach g \<Longrightarrow> gateCall g h \<Longrightarrow> gateReach h"
  by (rule reach_step)

lemma cameraGate_reach: "gateReach cameraGate"
proof -
  have frames: "gateReach ((headOffsetGateFrame clk c n p e ^^ k) g)" if "gateReach g" for clk c n p e k g
    using that by (induction k) (auto intro: gate_step gateCall.frame)
  have "gateReach startGate" by (rule reach_init) (unfold freshGate_def startGate_def, intro exI conjI, rule refl, simp)
  from gate_step [OF gate_step [OF this gateCall.keyBound] gateCall.viewBumped] have "gateReach keyGate" by (simp add: keyGate_def)
  from frames [OF gate_step [OF frames [OF this] gateCall.keyPressed]] show ?thesis unfolding cameraGate_def onPanel_def inScene_def .
qed

theorem offset_only_in_camera_witness:
  "gateWantsPanel cameraGate \<and> gateInCamera (headOffsetGateFrame quietClock True 0 0 60 cameraGate) \<and>
   (gateWantView cameraGate < 0 \<or> gateViewIndex (headOffsetGateFrame quietClock True 0 0 60 cameraGate) = gateWantView cameraGate) \<and> \<not> boarded cameraGate"
  using offset_only_in_camera [OF cameraGate_reach, of quietClock True 0 0 60] inScene_last(1) by (simp add: cameraGate_eq [symmetric] inScene_def)

text \<open>
  The gate enters the camera in a frame only when the feature is on, the panel is not drawn and has been gone for
  eight frames after more than thirty frames on, a scene is drawn, and there is evidence: the bound key was pressed, or,
  with keyless entry on and no key bound, the game says the player is on foot or has just disembarked.
\<close>

theorem camera_entered_on_evidence:
  assumes "\<not> gateInCamera g" "gateInCamera (headOffsetGateFrame clk c n p e g)"
  shows "gateWantsPanel g \<and> p = 0 \<and> kSceneDraws < e \<and> 30 < gatePanelRun g \<and> 8 \<le> gateSincePanel g + 1 \<and> \<not> boarded g \<and>
    (gateKeyBound g \<and> gateIntent g \<or>
     gateKeylessOn g \<and> \<not> gateKeyBound g \<and> (liveOnFootKnown g \<and> liveOnFoot g \<or> footGraceJournal g \<and> \<not> liveOnFootSeenThisFoot g))"
proof -
  have f: "gateWantsPanel g" "p = 0" "\<not> boarded g" "entryAsked clk (panelStops clk e g)" "8 \<le> gateSincePanel g + 1" "kSceneDraws < e" "30 < gatePanelRun g"
    using frame_in [OF assms(2)] assms(1) by blast+
  have "gateKeyBound (panelStops clk e g) = gateKeyBound g" "gateIntent (panelStops clk e g) = gateIntent g"
    "gateKeylessOn (panelStops clk e g) = gateKeylessOn g" "liveOnFootKnown (panelStops clk e g) = liveOnFootKnown g"
    "liveOnFoot (panelStops clk e g) = liveOnFoot g" "footGraceJournal (panelStops clk e g) = footGraceJournal g"
    "liveOnFootSeenThisFoot (panelStops clk e g) = liveOnFootSeenThisFoot g" by (simp_all add: panelStops_def Let_def)
  then show ?thesis using f by (auto simp: entryAsked_def intentOk_def autoIntent_def Let_def)
qed

theorem camera_entered_on_evidence_witness:
  "30 < gatePanelRun (sceneGate 7) \<and> (gateKeyBound (sceneGate 7) \<and> gateIntent (sceneGate 7) \<or> gateKeylessOn (sceneGate 7))"
  using camera_entered_on_evidence [of "sceneGate 7" quietClock True 0 0 60] inScene_last(2) sceneGate_fields(2) by (auto simp: inScene_def)

text \<open>
  Pressing the camera key again while in the camera (a press that takes the standing intent back) ends the offset at the next
  frame, whatever that frame draws.
\<close>

theorem second_press_ends_offset:
  assumes "gateReach g" "gateInCamera g" "gateIntent g"
  shows "\<not> externalCameraOnFoot (gateFlag (headOffsetGateFrame clk c n p e (headOffsetGateKeyPressed clk' g)))"
proof
  define h where "h = headOffsetGateKeyPressed clk' g"
  have h: "gateInCamera h" "gateHaveKey h" "\<not> gateIntent h" using assms(2,3) by (simp_all add: h_def headOffsetGateKeyPressed_def Let_def)
  have r: "offsetInv (headOffsetGateFrame clk c n p e h)"
    using frame_inv [OF hg.reach_inv [OF gate_step [OF assms(1) gateCall.keyPressed]]] by (simp add: h_def)
  assume "externalCameraOnFoot (gateFlag (headOffsetGateFrame clk c n p e (headOffsetGateKeyPressed clk' g)))"
  then have "gateInCamera (headOffsetGateFrame clk c n p e h)" using r by (auto simp: h_def externalCameraOnFoot_def offsetInv_def)
  then show False using frame_in h by blast
qed

theorem second_press_ends_offset_witness:
  "externalCameraOnFoot (gateFlag (inScene cameraGate)) \<and>
   \<not> externalCameraOnFoot (gateFlag (headOffsetGateFrame quietClock True 0 0 60 (headOffsetGateKeyPressed quietClock (inScene cameraGate))))"
proof -
  have "gateReach (inScene cameraGate)" unfolding inScene_def by (rule gate_step [OF cameraGate_reach gateCall.frame])
  from second_press_ends_offset [OF this] show ?thesis using inScene_last by (simp add: cameraGate_eq)
qed

text \<open>
  While no camera key is bound and keyless entry is off, as in a fresh installation, the gate never enters the
  camera and the flag never reads on, whatever is drawn, pressed or reported.
\<close>

definition unconfigured :: "Gate \<Rightarrow> bool" where
  "unconfigured g \<longleftrightarrow> \<not> gateKeyBound g \<and> \<not> gateKeylessOn g"

lemma unconfigured_out:
  assumes "reach freshGate (\<lambda>g h. gateCall g h \<and> unconfigured h) g"
  shows "gateReach g \<and> unconfigured g \<and> \<not> gateInCamera g"
  using assms
proof (induction rule: reach.induct)
  case (reach_init g)
  then show ?case by (auto simp: freshGate_def newOffsetGate_def unconfigured_def intro: reach.reach_init)
next
  case (reach_step g h)
  then have r: "gateReach h" using gate_step by blast
  have "\<not> gateInCamera h"
  proof
    assume i: "gateInCamera h"
    from reach_step have "gateCall g h" by blast
    then show False
    proof cases
      case (frame clk c n p e)
      then have "entryAsked clk (panelStops clk e g)" using frame_in i reach_step by blast
      then show False using reach_step by (simp add: entryAsked_def intentOk_def autoIntent_def Let_def panelStops_def unconfigured_def split: if_splits)
    qed (use i reach_step in \<open>auto simp: headOffsetGateConfigure_def headOffsetGateReset_def newOffsetGate_def publishFlag_def headOffsetGateSetKeyBound_def
        headOffsetGateSetNextKeyBound_def headOffsetGateSetOnFootLive_def headOffsetGateSetWakeLive_def headOffsetGateNewFootSession_def
        headOffsetGateNoteEmbark_def headOffsetGateKeyPressed_def headOffsetGateViewBumped_def headOffsetGateViewUnbumped_def headOffsetGateStepView_def
        headOffsetGateSetView_def Let_def case_prod_unfold split: if_splits\<close>)
  qed
  then show ?case using r reach_step by blast
qed

theorem unconfigured_gate_stays_off:
  assumes "reach freshGate (\<lambda>g h. gateCall g h \<and> unconfigured h) g"
  shows "\<not> externalCameraOnFoot (gateFlag g) \<and> \<not> gateInCamera g"
  using unconfigured_out [OF assms] hg.reach_inv [of g] by (auto simp: offsetInv_def externalCameraOnFoot_def)

theorem unconfigured_gate_stays_off_witness:
  "\<not> externalCameraOnFoot (gateFlag (headOffsetGateKeyPressed quietClock startGate)) \<and> \<not> gateInCamera (headOffsetGateKeyPressed quietClock startGate)"
proof (rule unconfigured_gate_stays_off)
  have f: "freshGate startGate" unfolding freshGate_def startGate_def by (intro exI conjI, rule refl, simp)
  have "unconfigured (headOffsetGateKeyPressed quietClock startGate)"
    by (simp add: unconfigured_def headOffsetGateKeyPressed_def Let_def startGate_def newOffsetGate_def)
  with gateCall.keyPressed [of startGate quietClock]
  have c: "gateCall startGate (headOffsetGateKeyPressed quietClock startGate) \<and> unconfigured (headOffsetGateKeyPressed quietClock startGate)" by blast
  have "reach freshGate (\<lambda>g h. gateCall g h \<and> unconfigured h) startGate" using f by (rule reach.intros(1) [of freshGate])
  then show "reach freshGate (\<lambda>g h. gateCall g h \<and> unconfigured h) (headOffsetGateKeyPressed quietClock startGate)"
    using c by (rule reach.intros(2) [of _ "\<lambda>g h. gateCall g h \<and> unconfigured h"])
qed

section \<open>The reader of the flag\<close>

lemma reads_age:
  assumes "lastStamp r = ff_externalCamStamp f" "ff_mapped f" "everMoved r"
  shows "let r' = ((\<lambda>r. snd (externalCameraOnFootLive m f r)) ^^ k) r in
    lastStamp r' = ff_externalCamStamp f \<and> everMoved r' \<and> min k 4294967295 \<le> unat (sinceMoved r')"
proof (induction k)
  case (Suc k)
  define r' where "r' = ((\<lambda>r. snd (externalCameraOnFootLive m f r)) ^^ k) r"
  have ih: "lastStamp r' = ff_externalCamStamp f" "everMoved r'" "min k 4294967295 \<le> unat (sinceMoved r')" using Suc by (simp_all add: r'_def Let_def)
  have "min (Suc k) 4294967295 \<le> unat (sinceMoved (snd (externalCameraOnFootLive m f r')))"
  proof (cases "sinceMoved r' < 0xFFFFFFFF")
    case True
    then have "unat (sinceMoved r' + 1) = unat (sinceMoved r') + 1" by (simp add: word_less_nat_alt unat_word_ariths)
    then show ?thesis using ih True assms(2) by (simp add: externalCameraOnFootLive_def Let_def)
  next
    case False
    then show ?thesis using ih assms(2) by (simp add: externalCameraOnFootLive_def Let_def word_less_nat_alt)
  qed
  moreover have "lastStamp (snd (externalCameraOnFootLive m f r')) = ff_externalCamStamp f" "everMoved (snd (externalCameraOnFootLive m f r'))"
    using ih by (simp_all add: externalCameraOnFootLive_def Let_def)
  ultimately show ?case by (simp add: Let_def r'_def [symmetric])
qed (use assms in simp)

text \<open>
  A flag that is no longer published reads off once the reader has asked more often than the age it allows since it
  saw the last publication, and stays so however often it asks: its counter stops at its largest value instead of
  wrapping. A gate that has died with its last answer on therefore moves no view.
\<close>

theorem dead_gate_reads_off:
  assumes "lastStamp r = ff_externalCamStamp f" "unat maxAge < k" "maxAge \<noteq> 0xFFFFFFFF"
  shows "\<not> fst (externalCameraOnFootLive maxAge f (((\<lambda>r. snd (externalCameraOnFootLive maxAge f r)) ^^ k) r))"
proof (cases "ff_mapped f \<and> everMoved r")
  case True
  define r' where "r' = ((\<lambda>r. snd (externalCameraOnFootLive maxAge f r)) ^^ k) r"
  have a: "lastStamp r' = ff_externalCamStamp f" "everMoved r'" "min k 4294967295 \<le> unat (sinceMoved r')"
    using reads_age [OF assms(1)] True by (simp_all add: r'_def Let_def)
  have "unat maxAge < 2 ^ LENGTH(32)" by (rule unsigned_less)
  moreover have "unat maxAge \<noteq> 4294967295" using assms(3) by (auto simp: word_unat_eq_iff)
  ultimately have "unat maxAge < unat (sinceMoved r')" using a(3) assms(2) by simp
  moreover have "unat (sinceMoved r') \<le> unat (sinceMoved r' + 1) \<or> \<not> sinceMoved r' < 0xFFFFFFFF"
    by (auto simp: word_less_nat_alt unat_word_ariths)
  ultimately show ?thesis unfolding r'_def [symmetric] using a(1,2)
    by (auto simp: externalCameraOnFootLive_def Let_def word_le_nat_alt)
next
  case False
  have "\<not> everMoved ((((\<lambda>r. snd (externalCameraOnFootLive maxAge f r)) ^^ k) r)) \<and> lastStamp ((((\<lambda>r. snd (externalCameraOnFootLive maxAge f r)) ^^ k) r)) = lastStamp r"
    if "\<not> everMoved r" for k using that assms(1) by (induction k) (auto simp: externalCameraOnFootLive_def Let_def)
  then show ?thesis using False assms(1) by (auto simp: externalCameraOnFootLive_def Let_def)
qed

theorem dead_gate_reads_off_witness:
  "let f = \<lparr>ff_mapped = True, ff_externalCam = True, ff_externalCamStamp = 5\<rparr>; r = \<lparr>lastStamp = 5, sinceMoved = 0, everMoved = True\<rparr> in
   fst (externalCameraOnFootLive 2 f r) \<and> \<not> fst (externalCameraOnFootLive 2 f (((\<lambda>r. snd (externalCameraOnFootLive 2 f r)) ^^ 3) r))"
  unfolding Let_def by (rule conjI, simp add: externalCameraOnFootLive_def Let_def word_le_nat_alt, rule dead_gate_reads_off) simp_all

section \<open>The counted view\<close>

text \<open>
  On foot, or where the game's status is unknown, the view count is a ring: a step forward goes to the next view and
  from the last to the first, and a step back undoes a step forward and the other way round.
\<close>

theorem view_ring:
  assumes "0 \<le> gateViewIndex g" "gateViewIndex g < currentRing g"
  shows "gateViewIndex (headOffsetGateViewBumped g) = (if gateViewIndex g + 1 = currentRing g then 0 else gateViewIndex g + 1) \<and>
    gateViewIndex (headOffsetGateViewUnbumped (headOffsetGateViewBumped g)) = gateViewIndex g \<and>
    gateViewIndex (headOffsetGateViewBumped (headOffsetGateViewUnbumped g)) = gateViewIndex g"
proof -
  define n v where "n = currentRing g" and "v = gateViewIndex g"
  have n: "0 < n" "0 \<le> v" "v < n" using assms by (simp_all add: n_def v_def)
  have r: "currentRing (headOffsetGateStepView d g) = n" for d by (simp add: currentRing_def headOffsetGateStepView_def n_def)
  have s: "gateViewIndex (headOffsetGateStepView d g) = (v + d) mod n" for d
    using n by (simp add: headOffsetGateStepView_def normalizeView_ring n_def v_def)
  have s2: "gateViewIndex (headOffsetGateStepView d' (headOffsetGateStepView d g)) = (v + d + d') mod n" for d d'
    using n r [of d] s [of d] by (simp add: headOffsetGateStepView_def normalizeView_ring mod_add_left_eq del: add_uminus_conv_diff)
  have "(v + 1) mod n = (if v + 1 = n then 0 else v + 1)" using n by auto
  then show ?thesis using s [of 1] s2 [of "- 1" 1] s2 [of 1 "- 1"] n by (simp add: headOffsetGateViewBumped_def headOffsetGateViewUnbumped_def n_def v_def)
qed

theorem view_ring_witness:
  "gateViewIndex (headOffsetGateViewUnbumped (headOffsetGateViewBumped startGate)) = 0"
  using view_ring [of startGate] by (simp add: startGate_def newOffsetGate_def currentRing_def)

text \<open>
  C28: a view read from the game outside the camera never changes the counted view, not even the first one: the
  code asks whether anything was read before only after it has recorded that this was.
\<close>

theorem read_outside_camera_refused: "gateInCamera g \<or> gateViewIndex (readView g) = gateViewIndex g"
  by (auto simp: readView_def syncView_def noteRead_def Let_def)

end
