(* ===== verification/FlashPrevent.thy ===== *)
theory FlashPrevent
  imports GameConfigProps
begin

text \<open>
  \<^verbatim>\<open>src/d3d11/transition_flash_prevent_core.h\<close> and the decisions of \<^verbatim>\<open>src/d3d11/transition_flash_prevent.cpp\<close>: when a pose that the game has
  cached may be replaced by the recomputed one. The comparison of two poses is floating-point arithmetic and its outcome,
  the class, is an argument; so is whether the game's recomputation faulted. A call that decides runs under one lock, and
  is one step here. Log lines and the ring of diagnostics are left out, the requests to dump it are kept.
\<close>

section \<open>The core\<close>

datatype PoseClass = Agree | Near | Disagree

record ValidationCounts =
  vc_agree :: u64
  vc_disagree :: u64

definition isValidated :: "ValidationCounts \<Rightarrow> bool" where
  "isValidated c \<longleftrightarrow> \<not> vc_agree c < 60 \<and>
     (let total = vc_agree c + vc_disagree c in total \<noteq> 0 \<and> 20 * vc_disagree c < total)"

definition kParentCapacity :: nat where "kParentCapacity = 256"
definition kUnseenFramesForNew :: u32 where "kUnseenFramesForNew = 90"
definition kRecentAgreeFrames :: u32 where "kRecentAgreeFrames = 3"
definition kMaxStreak :: u32 where "kMaxStreak = 3"

record Verdict =
  vd_eligible :: bool
  vd_justCrossedPersistent :: bool

record Entry =
  en_parent :: u64
  en_lastSeenFrame :: u32
  en_lastAgreeFrame :: u32
  en_streak :: u32
  en_used :: bool
  en_hasAgreed :: bool
  en_loggedPersistent :: bool

definition freshEntry :: Entry where
  "freshEntry = \<lparr>en_parent = 0, en_lastSeenFrame = 0, en_lastAgreeFrame = 0, en_streak = 0, en_used = False, en_hasAgreed = False,
     en_loggedPersistent = False\<rparr>"

text \<open>The loop of \<^verbatim>\<open>findOrEvict\<close>: \<open>Inl\<close> the parent's own slot, or \<open>Inr\<close> the slot to clear for it.\<close>

fun scanTable :: "u64 \<Rightarrow> nat \<Rightarrow> Entry list \<Rightarrow> nat option \<Rightarrow> nat \<times> u32 \<Rightarrow> nat + nat" where
  "scanTable parent i [] freeSlot oldest = Inr (case freeSlot of Some j \<Rightarrow> j | None \<Rightarrow> fst oldest)"
| "scanTable parent i (e # es) freeSlot oldest =
     (if en_used e \<and> en_parent e = parent then Inl i
      else scanTable parent (Suc i) es (if \<not> en_used e \<and> freeSlot = None then Some i else freeSlot)
        (if en_lastSeenFrame e < snd oldest then (i, en_lastSeenFrame e) else oldest))"

definition findOrEvict :: "u64 \<Rightarrow> Entry list \<Rightarrow> nat \<times> Entry list" where
  "findOrEvict parent table = (case scanTable parent 0 table None (0, 0xFFFFFFFF) of
     Inl i \<Rightarrow> (i, table)
   | Inr i \<Rightarrow> (i, table[i := freshEntry]))"

definition classified :: "u64 \<Rightarrow> u32 \<Rightarrow> PoseClass \<Rightarrow> Entry \<Rightarrow> Verdict \<times> Entry" where
  "classified parent frame cls e0 =
     (let wasNew = (\<not> en_used e0 \<or> kUnseenFramesForNew < frame - en_lastSeenFrame e0);
          e1 = (if wasNew then e0\<lparr>en_streak := 0, en_loggedPersistent := False\<rparr> else e0);
          agreedRecently = (en_hasAgreed e1 \<and> frame - en_lastAgreeFrame e1 \<le> kRecentAgreeFrames);
          eligible = ((wasNew \<or> agreedRecently) \<and> en_streak e1 \<le> kMaxStreak);
          e2 = e1\<lparr>en_used := True, en_parent := parent, en_lastSeenFrame := frame\<rparr>
      in case cls of
           Agree \<Rightarrow> (\<lparr>vd_eligible = eligible, vd_justCrossedPersistent = False\<rparr>,
              e2\<lparr>en_hasAgreed := True, en_lastAgreeFrame := frame, en_streak := 0, en_loggedPersistent := False\<rparr>)
         | Near \<Rightarrow> (\<lparr>vd_eligible = eligible, vd_justCrossedPersistent = False\<rparr>, e2)
         | Disagree \<Rightarrow>
             (let e3 = (if en_streak e2 < 0xFFFFFFFF then e2\<lparr>en_streak := en_streak e2 + 1\<rparr> else e2);
                  crossed = (kMaxStreak < en_streak e3 \<and> \<not> en_loggedPersistent e3)
              in (\<lparr>vd_eligible = eligible, vd_justCrossedPersistent = crossed\<rparr>, if crossed then e3\<lparr>en_loggedPersistent := True\<rparr> else e3)))"

definition onClassified :: "u64 \<Rightarrow> u32 \<Rightarrow> PoseClass \<Rightarrow> Entry list \<Rightarrow> Verdict \<times> Entry list" where
  "onClassified parent frame cls table =
     (case findOrEvict parent table of (i, table1) \<Rightarrow>
      case classified parent frame cls (table1 ! i) of (v, e) \<Rightarrow> (v, table1[i := e]))"

datatype Mode = ModeOff | ModeWatch | ModeOn | ModeAlternate

definition lowerChar :: "char \<Rightarrow> char" where
  "lowerChar c = (if of_char c \<in> {65..90 :: nat} then char_of (of_char c + 32 :: nat) else c)"

definition eqText :: "string \<Rightarrow> string \<Rightarrow> bool" where
  "eqText a b \<longleftrightarrow> map lowerChar (cstr a) = map lowerChar (cstr b)"

definition parseMode :: "string option \<Rightarrow> Mode \<times> bool" where
  "parseMode text = (case text of None \<Rightarrow> (ModeOff, False) | Some t \<Rightarrow>
     if eqText t ''off'' then (ModeOff, True)
     else if eqText t ''watch'' then (ModeWatch, True)
     else if eqText t ''on'' then (ModeOn, True)
     else if eqText t ''alternate'' then (ModeAlternate, True)
     else (ModeOff, False))"

datatype Treatment = Watch | Act

definition alternateTreatmentFor :: "u32 \<Rightarrow> Treatment" where
  "alternateTreatmentFor eventNumber = (if eventNumber mod 2 = 0 then Act else Watch)"

definition modeAllowsActing :: "Mode \<Rightarrow> u32 \<Rightarrow> bool" where
  "modeAllowsActing mode eventNumber \<longleftrightarrow>
     mode = ModeOn \<or> mode = ModeAlternate \<and> alternateTreatmentFor eventNumber = Act"

definition sessionCapReached :: "u64 \<Rightarrow> u64 \<Rightarrow> bool" where
  "sessionCapReached actedFrames cap \<longleftrightarrow> cap \<le> actedFrames"

definition kGapFrames :: u32 where "kGapFrames = 90"

record EventTracker =
  et_any :: bool
  et_lastFrame :: u32
  et_eventNumber :: u32
  et_latched :: bool
  et_treatment :: Treatment

definition newTracker :: EventTracker where
  "newTracker = \<lparr>et_any = False, et_lastFrame = 0, et_eventNumber = 0, et_latched = False, et_treatment = Watch\<rparr>"

definition eventNote :: "u32 \<Rightarrow> EventTracker \<Rightarrow> bool \<times> EventTracker" where
  "eventNote frame t =
     (let isNew = (\<not> et_any t \<or> kGapFrames < frame - et_lastFrame t);
          t1 = (if isNew then t\<lparr>et_eventNumber := et_eventNumber t + 1, et_latched := False\<rparr> else t)
      in (isNew, t1\<lparr>et_any := True, et_lastFrame := frame\<rparr>))"

definition eventLatch :: "Treatment \<Rightarrow> EventTracker \<Rightarrow> EventTracker" where
  "eventLatch tr t = t\<lparr>et_treatment := tr, et_latched := True\<rparr>"

definition callMayAct :: "Treatment \<Rightarrow> bool \<Rightarrow> bool \<Rightarrow> bool" where
  "callMayAct eventTreatment guardEligible capReached \<longleftrightarrow> eventTreatment = Act \<and> guardEligible \<and> \<not> capReached"

definition isNewActedFrame :: "u32 \<Rightarrow> u32 \<Rightarrow> bool \<Rightarrow> bool" where
  "isNewActedFrame frame lastActedFrame hasActedFrame \<longleftrightarrow> \<not> hasActedFrame \<or> frame \<noteq> lastActedFrame"

definition ringFrameInWindow :: "u32 \<Rightarrow> u32 \<Rightarrow> u32 \<Rightarrow> u32 \<Rightarrow> bool" where
  "ringFrameInWindow frame triggerFrame before after \<longleftrightarrow>
     (let lo = (if before < triggerFrame then triggerFrame - before else 0);
          hi = (ucast triggerFrame + ucast after :: u64)
      in lo \<le> frame \<and> ucast frame \<le> hi)"

definition kDumpWindowFrames :: u32 where "kDumpWindowFrames = 30"

record PendingDumpWindow =
  pw_active :: bool
  pw_lowTriggerFrame :: u32
  pw_dueFrame :: u32

definition noWindow :: PendingDumpWindow where
  "noWindow = \<lparr>pw_active = False, pw_lowTriggerFrame = 0, pw_dueFrame = 0\<rparr>"

definition foldDumpTrigger :: "PendingDumpWindow \<Rightarrow> u32 \<Rightarrow> u32 \<Rightarrow> PendingDumpWindow" where
  "foldDumpTrigger current triggerFrame deferFrames =
     (let due = triggerFrame + deferFrames in
      if \<not> pw_active current then \<lparr>pw_active = True, pw_lowTriggerFrame = triggerFrame, pw_dueFrame = due\<rparr>
      else current\<lparr>pw_lowTriggerFrame := (if triggerFrame < pw_lowTriggerFrame current then triggerFrame else pw_lowTriggerFrame current),
                   pw_dueFrame := (if pw_dueFrame current < due then due else pw_dueFrame current)\<rparr>)"

definition frameInDumpWindow :: "u32 \<Rightarrow> u32 \<Rightarrow> u32 \<Rightarrow> u32 \<Rightarrow> bool" where
  "frameInDumpWindow frame lowTriggerFrame dueFrame before \<longleftrightarrow>
     (let lo = (if before < lowTriggerFrame then lowTriggerFrame - before else 0) in lo \<le> frame \<and> frame \<le> dueFrame)"

section \<open>The decisions of a session\<close>

definition kSessionActCap :: u64 where "kSessionActCap = 200"
definition kRecomputeBudgetPerFrame :: u32 where "kRecomputeBudgetPerFrame = 512"
definition kMaxDumpsPerSession :: u32 where "kMaxDumpsPerSession = 16"

record PendingDump =
  pd_window :: PendingDumpWindow
  pd_wholeRing :: bool
  pd_reasons :: "string list"

definition noDump :: PendingDump where
  "noDump = \<lparr>pd_window = noWindow, pd_wholeRing = False, pd_reasons = []\<rparr>"

record FlashState =
  fs_mode :: Mode
  fs_armed :: bool
  fs_recomputeUsable :: bool
  fs_budgetFrame :: u32
  fs_budgetUsed :: u32
  fs_validation :: ValidationCounts
  fs_table :: "Entry list"
  fs_tracker :: EventTracker
  fs_lastActedFrame :: u32
  fs_hasActedFrame :: bool
  fs_actedFrames :: u64
  fs_lastGuardRefusalEvent :: u32
  fs_lastEventFrame :: u32
  fs_hasEvent :: bool
  fs_pending :: PendingDump
  fs_dumps :: u32

definition newFlash :: FlashState where
  "newFlash = \<lparr>fs_mode = ModeOff, fs_armed = False, fs_recomputeUsable = False, fs_budgetFrame = 0, fs_budgetUsed = 0,
     fs_validation = \<lparr>vc_agree = 0, vc_disagree = 0\<rparr>, fs_table = replicate kParentCapacity freshEntry, fs_tracker = newTracker,
     fs_lastActedFrame = 0, fs_hasActedFrame = False, fs_actedFrames = 0, fs_lastGuardRefusalEvent = 0, fs_lastEventFrame = 0,
     fs_hasEvent = False, fs_pending = noDump, fs_dumps = 0\<rparr>"

definition addReason :: "string \<Rightarrow> PendingDump \<Rightarrow> PendingDump" where
  "addReason reason d = (if reason \<in> set (pd_reasons d) then d
     else if length (pd_reasons d) < 4 then d\<lparr>pd_reasons := pd_reasons d @ [reason]\<rparr> else d)"

definition requestDump :: "string \<Rightarrow> u32 \<Rightarrow> u32 \<Rightarrow> bool \<Rightarrow> FlashState \<Rightarrow> FlashState" where
  "requestDump reason triggerFrame deferFrames wholeRing s =
     (let d = fs_pending s in
      if \<not> pw_active (pd_window d) \<and> kMaxDumpsPerSession \<le> fs_dumps s then s
      else s\<lparr>fs_pending := addReason reason (d\<lparr>pd_window := foldDumpTrigger (pd_window d) triggerFrame deferFrames,
                                               pd_wholeRing := (pd_wholeRing d \<or> wholeRing)\<rparr>)\<rparr>)"

definition serviceDump :: "u32 \<Rightarrow> FlashState \<Rightarrow> PendingDump option \<times> FlashState" where
  "serviceDump nowFrame s =
     (let d = fs_pending s in
      if \<not> pw_active (pd_window d) \<or> nowFrame < pw_dueFrame (pd_window d) then (None, s)
      else (Some d, s\<lparr>fs_pending := noDump, fs_dumps := fs_dumps s + 1\<rparr>))"

definition takeRecomputeBudget :: "u32 \<Rightarrow> FlashState \<Rightarrow> bool \<times> FlashState" where
  "takeRecomputeBudget frame s =
     (let s1 = (if fs_budgetFrame s \<noteq> frame then s\<lparr>fs_budgetFrame := frame, fs_budgetUsed := 0\<rparr> else s) in
      if kRecomputeBudgetPerFrame \<le> fs_budgetUsed s1 then (False, s1) else (True, s1\<lparr>fs_budgetUsed := fs_budgetUsed s1 + 1\<rparr>))"

definition countClass :: "PoseClass \<Rightarrow> ValidationCounts \<Rightarrow> ValidationCounts" where
  "countClass cls v = (case cls of Agree \<Rightarrow> v\<lparr>vc_agree := vc_agree v + 1\<rparr> | Near \<Rightarrow> v | Disagree \<Rightarrow> v\<lparr>vc_disagree := vc_disagree v + 1\<rparr>)"

definition openEvent :: "Verdict \<Rightarrow> u32 \<Rightarrow> FlashState \<Rightarrow> FlashState" where
  "openEvent v frame s =
     (let byMode = modeAllowsActing (fs_mode s) (et_eventNumber (fs_tracker s));
          eligible = (byMode \<and> isValidated (fs_validation s) \<and> vd_eligible v \<and> \<not> sessionCapReached (fs_actedFrames s) kSessionActCap)
      in requestDump ''our own event'' frame kDumpWindowFrames False
           (s\<lparr>fs_tracker := eventLatch (if eligible then Act else Watch) (fs_tracker s)\<rparr>))"

definition decideCall :: "Verdict \<Rightarrow> u32 \<Rightarrow> FlashState \<Rightarrow> bool \<times> FlashState" where
  "decideCall v frame s =
     (let capReached = sessionCapReached (fs_actedFrames s) kSessionActCap;
          acted = callMayAct (et_treatment (fs_tracker s)) (vd_eligible v) capReached;
          s1 = (if et_treatment (fs_tracker s) = Act \<and> \<not> vd_eligible v
                then s\<lparr>fs_lastGuardRefusalEvent := et_eventNumber (fs_tracker s)\<rparr> else s)
      in (acted, if acted \<and> isNewActedFrame frame (fs_lastActedFrame s1) (fs_hasActedFrame s1)
                 then s1\<lparr>fs_lastActedFrame := frame, fs_hasActedFrame := True, fs_actedFrames := fs_actedFrames s1 + 1\<rparr> else s1))"

definition guardedDecode :: "u64 \<Rightarrow> u32 \<Rightarrow> PoseClass \<Rightarrow> FlashState \<Rightarrow> bool \<times> FlashState" where
  "guardedDecode parent frame cls s0 =
     (case onClassified parent frame cls (fs_table s0) of (v, table) \<Rightarrow>
      let s1 = s0\<lparr>fs_validation := countClass cls (fs_validation s0), fs_table := table\<rparr> in
      if cls \<noteq> Disagree then (False, s1)
      else case eventNote frame (fs_tracker s1) of (isNew, tracker) \<Rightarrow>
        let s2 = s1\<lparr>fs_tracker := tracker, fs_lastEventFrame := frame, fs_hasEvent := True\<rparr>
        in decideCall v frame (if isNew then openEvent v frame s2 else s2))"

definition decodeObserved :: "bool \<Rightarrow> PoseClass option \<Rightarrow> u64 \<Rightarrow> u32 \<Rightarrow> FlashState \<Rightarrow> bool \<times> FlashState" where
  "decodeObserved composeSite recomputed parent frame s =
     (if fs_mode s = ModeOff \<or> \<not> composeSite then (False, s)
      else case takeRecomputeBudget frame s of (granted, s1) \<Rightarrow>
        if \<not> granted \<or> \<not> fs_recomputeUsable s1 then (False, s1)
        else case recomputed of
          None \<Rightarrow> (False, s1\<lparr>fs_recomputeUsable := False\<rparr>)
        | Some cls \<Rightarrow> guardedDecode parent frame cls s1)"

text \<open>\<open>usable\<close> is what the installation of the hooks finds: whether the game's recomputation is the known one.\<close>

definition transitionFlashPreventConfigure :: "bool \<Rightarrow> Config \<Rightarrow> FlashState \<Rightarrow> FlashState \<times> Config" where
  "transitionFlashPreventConfigure usable c s =
     (case getString ''advanced.transition_flash_prevent'' ''off'' c of (text, c1) \<Rightarrow>
      case parseMode (Some text) of (mode, recognized) \<Rightarrow>
        (let s1 = s\<lparr>fs_mode := mode\<rparr> in
         if mode = ModeOff \<or> fs_armed s1 then s1 else s1\<lparr>fs_armed := True, fs_recomputeUsable := usable\<rparr>, c1))"

end
