(* ===== verification/FlashProps.thy ===== *)
theory FlashProps
  imports FlashPrevent
begin

text \<open>
  The transition flash prevention over whole sessions. The table of parents is an abstract map with least-recently-seen
  eviction; a session is a list of calls; poses are replaced only for parents in good standing and in at most two hundred
  frames; a pending dump covers all its triggers. The last section builds the session in which the cap splits a frame.
\<close>

section \<open>The table of parents\<close>

definition holds :: "u64 \<Rightarrow> Entry \<Rightarrow> bool" where
  "holds p e \<longleftrightarrow> en_used e \<and> en_parent e = p"

text \<open>The abstract table: what is known of a parent, if anything.\<close>

definition known :: "Entry list \<Rightarrow> u64 \<Rightarrow> Entry option" where
  "known table p = find (holds p) table"

definition oneEach :: "Entry list \<Rightarrow> bool" where
  "oneEach t \<longleftrightarrow> length t = kParentCapacity \<and>
     (\<forall>q. \<forall>i < length t. \<forall>j < length t. holds q (t ! i) \<and> holds q (t ! j) \<longrightarrow> i = j)"

lemma oneEachD: "oneEach t \<Longrightarrow> i < length t \<Longrightarrow> j < length t \<Longrightarrow> holds q (t ! i) \<Longrightarrow> holds q (t ! j) \<Longrightarrow> i = j"
  by (auto simp: oneEach_def)

lemma holds_one: "holds p e \<Longrightarrow> holds q e \<longleftrightarrow> q = p"
  by (auto simp: holds_def)

lemma scan_found: "scanTable p i es free old = Inl j \<Longrightarrow> i \<le> j \<and> j - i < length es \<and> holds p (es ! (j - i)) \<and> find (holds p) es = Some (es ! (j - i))"
proof (induction es arbitrary: i free old)
  case (Cons e es)
  show ?case
  proof (cases "holds p e")
    case False
    then have "scanTable p (Suc i) es (if \<not> en_used e \<and> free = None then Some i else free) (if en_lastSeenFrame e < snd old then (i, en_lastSeenFrame e) else old) = Inl j"
      using Cons.prems by (auto simp: holds_def)
    from Cons.IH [OF this] show ?thesis using False by (auto simp: Suc_diff_le nth_Cons' Suc_le_eq)
  qed (use Cons.prems in \<open>auto simp: holds_def\<close>)
qed simp

lemma scan_missing:
  "scanTable p i es free old = Inr j \<Longrightarrow>
   find (holds p) es = None \<and>
   (case free of Some k \<Rightarrow> j = k
    | None \<Rightarrow> if list_all en_used es then j = fst old \<or> i \<le> j \<and> j - i < length es
             else i \<le> j \<and> j - i < length es \<and> \<not> en_used (es ! (j - i)))"
proof (induction es arbitrary: i free old)
  case (Cons e es)
  have n: "\<not> holds p e" and s: "scanTable p (Suc i) es (if \<not> en_used e \<and> free = None then Some i else free)
      (if en_lastSeenFrame e < snd old then (i, en_lastSeenFrame e) else old) = Inr j"
    using Cons.prems by (auto simp: holds_def split: if_splits)
  note ih = Cons.IH [OF s]
  show ?case
  proof (cases free)
    case (Some k)
    then show ?thesis using ih n by simp
  next
    case None
    show ?thesis
    proof (cases "en_used e")
      case False
      then show ?thesis using ih n None by simp
    next
      case True
      then show ?thesis using ih n None by (auto simp: nth_Cons' Suc_diff_le Suc_le_eq split: if_splits)
    qed
  qed
qed (auto split: option.splits)

lemma scan_oldest:
  "scanTable p i es None old = Inr j \<Longrightarrow> list_all en_used es \<Longrightarrow>
   j = fst old \<and> (\<forall>e \<in> set es. snd old \<le> en_lastSeenFrame e) \<or>
   i \<le> j \<and> j - i < length es \<and> en_lastSeenFrame (es ! (j - i)) < snd old \<and> (\<forall>e \<in> set es. en_lastSeenFrame (es ! (j - i)) \<le> en_lastSeenFrame e)"
proof (induction es arbitrary: i old)
  case (Cons e es)
  have s: "scanTable p (Suc i) es None (if en_lastSeenFrame e < snd old then (i, en_lastSeenFrame e) else old) = Inr j" and u: "list_all en_used es"
    using Cons.prems by (auto split: if_splits)
  show ?case
  proof (cases "en_lastSeenFrame e < snd old")
    case True
    then show ?thesis using Cons.IH [OF s u] by (auto simp: nth_Cons' Suc_diff_le Suc_le_eq)
  next
    case False
    then show ?thesis using Cons.IH [OF s u] by (auto simp: nth_Cons' Suc_diff_le Suc_le_eq)
  qed
qed simp

text \<open>Where a parent's entry goes: its own slot, else a free one, else the least recently seen.\<close>

lemma slot_choice:
  assumes "findOrEvict p t = (i, t1)" "t \<noteq> []"
  shows "i < length t \<and> (case known t p of Some e \<Rightarrow> t1 = t \<and> t ! i = e \<and> holds p e
    | None \<Rightarrow> t1 = t[i := freshEntry] \<and>
        (if list_all en_used t then \<forall>e \<in> set t. en_lastSeenFrame (t ! i) \<le> en_lastSeenFrame e else \<not> en_used (t ! i)))"
proof (cases "scanTable p 0 t None (0, 0xFFFFFFFF)")
  case (Inl j)
  then show ?thesis using assms scan_found [OF Inl] by (auto simp: findOrEvict_def known_def)
next
  case (Inr j)
  have t: "i = j" "t1 = t[i := freshEntry]" using Inr assms by (auto simp: findOrEvict_def)
  note m = scan_missing [OF Inr]
  show ?thesis
  proof (cases "list_all en_used t")
    case True
    have "unat y < 2 ^ LENGTH(32)" for y :: u32 by (rule unsigned_less)
    then have "unat y \<le> 4294967295" for y :: u32 by (simp add: less_Suc_eq_le flip: Suc_le_eq)
    then have "0xFFFFFFFF \<le> (x :: u32) \<Longrightarrow> y \<le> x" for x y using order_trans [of "unat y" 4294967295 "unat x"] by (simp add: word_le_nat_alt)
    moreover have "t ! 0 \<in> set t" using assms(2) by simp
    ultimately show ?thesis using scan_oldest [OF Inr True] t m True assms(2) by (auto simp: known_def)
  next
    case False
    then show ?thesis using m t by (auto simp: known_def)
  qed
qed


lemma known_None: "known t p = None \<longleftrightarrow> (\<forall>i < length t. \<not> holds p (t ! i))"
  by (auto simp: known_def find_None_iff in_set_conv_nth)

lemma known_Some:
  assumes "oneEach t"
  shows "known t p = Some e \<longleftrightarrow> (\<exists>i < length t. t ! i = e \<and> holds p e)"
proof
  assume "\<exists>i < length t. t ! i = e \<and> holds p e"
  then obtain i where i: "i < length t" "t ! i = e" "holds p e" by blast
  then obtain e' where e': "known t p = Some e'" using known_None [of t p] by (cases "known t p") auto
  then obtain j where "j < length t" "t ! j = e'" "holds p e'" by (auto simp: known_def find_Some_iff)
  then show "known t p = Some e" using i e' oneEachD [OF assms] by blast
qed (auto simp: known_def find_Some_iff)

lemma classified_holds: "classified p f c e0 = (v, e) \<Longrightarrow> holds p e"
  by (auto simp: classified_def Let_def holds_def split: PoseClass.splits if_splits)

lemma oneEach_put:
  assumes "oneEach t" "i < length t" "holds p e" "\<forall>k < length t. holds p (t ! k) \<longrightarrow> k = i"
  shows "oneEach (t[i := e])"
  unfolding oneEach_def
proof (intro conjI allI impI)
  fix q a b
  assume r: "a < length (t[i := e])" "b < length (t[i := e])" "holds q (t[i := e] ! a) \<and> holds q (t[i := e] ! b)"
  have put: "if k = i then q = p else holds q (t ! k)" if "k < length t" "holds q (t[i := e] ! k)" for k
    using that holds_one [OF assms(3), of q] by (cases "k = i") simp_all
  show "a = b"
  proof (cases "a = i \<or> b = i")
    case True
    then have "q = p" using put [of a] put [of b] r by auto
    then have "k = i" if "k < length t" "holds q (t[i := e] ! k)" for k using put [OF that] that assms(4) by (cases "k = i") auto
    then show ?thesis using r by auto
  next
    case False
    then show ?thesis using put [of a] put [of b] r oneEachD [OF assms(1), of a b q] by simp
  qed
qed (use assms(1) in \<open>simp add: oneEach_def\<close>)

lemma known_put:
  assumes "oneEach t" "i < length t" "holds p e" "\<forall>k < length t. holds p (t ! k) \<longrightarrow> k = i"
  shows "known (t[i := e]) q = (if q = p then Some e else if holds q (t ! i) then None else known t q)"
proof -
  note one = oneEach_put [OF assms]
  have "known (t[i := e]) p = Some e" using assms(2,3) by (auto simp: known_Some [OF one] intro!: exI [of _ i])
  moreover have "known (t[i := e]) q = None" if "q \<noteq> p" "holds q (t ! i)"
    unfolding known_None
  proof (intro allI impI)
    fix k
    assume "k < length (t[i := e])"
    then show "\<not> holds q (t[i := e] ! k)"
      using that assms(2) holds_one [OF assms(3), of q] oneEachD [OF assms(1), of i k q] by (cases "k = i") auto
  qed
  moreover have "known (t[i := e]) q = known t q" if "q \<noteq> p" "\<not> holds q (t ! i)"
  proof (cases "known t q")
    case None
    have "\<not> holds q (t[i := e] ! k)" if "k < length t" for k
      using None that \<open>q \<noteq> p\<close> holds_one [OF assms(3), of q] by (cases "k = i") (auto simp: known_None)
    then have "known (t[i := e]) q = None" by (simp add: known_None)
    then show ?thesis using None by simp
  next
    case (Some x)
    then obtain k where "k < length t" "t ! k = x" "holds q x" using known_Some [OF assms(1)] by blast
    then have "\<exists>k < length (t[i := e]). t[i := e] ! k = x \<and> holds q x" using that by (cases "k = i") (auto intro!: exI [of _ k])
    then show ?thesis using Some known_Some [OF one] by simp
  qed
  ultimately show ?thesis by auto
qed

text \<open>A call is the step on the parent's own entry, or a fresh one, and forgets at most the parent not seen for longest.\<close>

lemma onClassified_known:
  assumes "oneEach t" "onClassified p f c t = (v, t')"
  shows "oneEach t' \<and> (\<exists>e. classified p f c (case known t p of Some e0 \<Rightarrow> e0 | None \<Rightarrow> freshEntry) = (v, e) \<and> known t' p = Some e) \<and>
    (\<exists>i < length t. (\<forall>q. q \<noteq> p \<longrightarrow> known t' q =
      (if known t p = None \<and> list_all en_used t \<and> q = en_parent (t ! i) then None else known t q)) \<and>
    (known t p = None \<and> list_all en_used t \<longrightarrow> (\<forall>e \<in> set t. en_lastSeenFrame (t ! i) \<le> en_lastSeenFrame e)))"
proof -
  obtain i t1 where s: "findOrEvict p t = (i, t1)" by force
  have ne: "t \<noteq> []" using assms(1) by (auto simp: oneEach_def kParentCapacity_def)
  note ch = slot_choice [OF s ne]
  define e0 where "e0 = (case known t p of Some e0 \<Rightarrow> e0 | None \<Rightarrow> freshEntry)"
  have e0: "t1 ! i = e0" "t1[i := x] = t[i := x]" for x using ch by (auto simp: e0_def split: option.splits)
  obtain e where e: "classified p f c e0 = (v, e)" and t': "t' = t[i := e]"
    using assms(2) s e0 by (auto simp: onClassified_def split: prod.splits)
  have h: "holds p e" by (rule classified_holds [OF e])
  have own: "\<forall>k < length t. holds p (t ! k) \<longrightarrow> k = i"
  proof (cases "known t p")
    case (Some x)
    then show ?thesis using ch oneEachD [OF assms(1), of _ i p] by auto
  qed (simp add: known_None)
  have i: "i < length t" using ch by blast
  have "known t' q = (if known t p = None \<and> list_all en_used t \<and> q = en_parent (t ! i) then None else known t q)" if "q \<noteq> p" for q
  proof (cases "known t p")
    case None
    then show ?thesis using known_put [OF assms(1) i h own, of q] that ch i by (auto simp: t' holds_def list_all_length split: if_splits)
  next
    case (Some x)
    then have "\<not> holds q (t ! i)" using ch that by (auto simp: holds_def)
    then show ?thesis using known_put [OF assms(1) i h own, of q] that Some by (simp add: t')
  qed
  moreover have "known t p = None \<and> list_all en_used t \<longrightarrow> (\<forall>e \<in> set t. en_lastSeenFrame (t ! i) \<le> en_lastSeenFrame e)" using ch by auto
  ultimately show ?thesis using oneEach_put [OF assms(1) i h own] known_put [OF assms(1) i h own, of p] i e
    by (auto simp: t' e0_def)
qed

section \<open>A session\<close>

datatype FlashCall =
  Decode bool "PoseClass option" u64 u32
| Trigger string u32 u32 bool
| Service u32
| Configure bool Config

text \<open>One call, with whether it replaced a pose.\<close>

fun flashCall :: "FlashCall \<Rightarrow> FlashState \<Rightarrow> bool \<times> FlashState" where
  "flashCall (Decode site rc p f) s = decodeObserved site rc p f s"
| "flashCall (Trigger reason f defer whole) s = (False, requestDump reason f defer whole s)"
| "flashCall (Service f) s = (False, snd (serviceDump f s))"
| "flashCall (Configure usable c) s = (False, fst (transitionFlashPreventConfigure usable c s))"

fun callFrame :: "FlashCall \<Rightarrow> u32" where
  "callFrame (Decode site rc p f) = f"
| "callFrame (Trigger reason f defer whole) = f"
| "callFrame (Service f) = f"
| "callFrame (Configure usable c) = 0"

text \<open>The frames in which a run of calls replaced a pose, and the state it ends in.\<close>

fun actedRun :: "FlashCall list \<Rightarrow> FlashState \<Rightarrow> u32 list \<times> FlashState" where
  "actedRun [] s = ([], s)"
| "actedRun (c # cs) s = (case flashCall c s of (acted, s1) \<Rightarrow>
     case actedRun cs s1 of (fs, s2) \<Rightarrow> (if acted then callFrame c # fs else fs, s2))"

lemma requestDump_fields [simp]:
  "fs_table (requestDump r f d w s) = fs_table s" "fs_actedFrames (requestDump r f d w s) = fs_actedFrames s"
  "fs_lastActedFrame (requestDump r f d w s) = fs_lastActedFrame s" "fs_hasActedFrame (requestDump r f d w s) = fs_hasActedFrame s"
  "fs_tracker (requestDump r f d w s) = fs_tracker s" "fs_mode (requestDump r f d w s) = fs_mode s"
  "fs_recomputeUsable (requestDump r f d w s) = fs_recomputeUsable s" "fs_validation (requestDump r f d w s) = fs_validation s"
  "fs_budgetFrame (requestDump r f d w s) = fs_budgetFrame s" "fs_budgetUsed (requestDump r f d w s) = fs_budgetUsed s"
  by (simp_all add: requestDump_def Let_def)

lemma openEvent_fields [simp]:
  "fs_table (openEvent v f s) = fs_table s" "fs_actedFrames (openEvent v f s) = fs_actedFrames s"
  "fs_lastActedFrame (openEvent v f s) = fs_lastActedFrame s" "fs_hasActedFrame (openEvent v f s) = fs_hasActedFrame s"
  "fs_mode (openEvent v f s) = fs_mode s" "fs_recomputeUsable (openEvent v f s) = fs_recomputeUsable s"
  "fs_validation (openEvent v f s) = fs_validation s"
  "fs_budgetFrame (openEvent v f s) = fs_budgetFrame s" "fs_budgetUsed (openEvent v f s) = fs_budgetUsed s"
  "fs_tracker (openEvent v f s) = eventLatch
     (if modeAllowsActing (fs_mode s) (et_eventNumber (fs_tracker s)) \<and> isValidated (fs_validation s) \<and> vd_eligible v \<and>
         \<not> sessionCapReached (fs_actedFrames s) kSessionActCap then Act else Watch) (fs_tracker s)"
  by (simp_all add: openEvent_def Let_def)

lemma budget_fields:
  assumes "takeRecomputeBudget f s = (b, s1)"
  shows "fs_table s1 = fs_table s" "fs_actedFrames s1 = fs_actedFrames s" "fs_lastActedFrame s1 = fs_lastActedFrame s"
    "fs_hasActedFrame s1 = fs_hasActedFrame s" "fs_tracker s1 = fs_tracker s" "fs_mode s1 = fs_mode s"
    "fs_recomputeUsable s1 = fs_recomputeUsable s" "fs_validation s1 = fs_validation s"
  using assms by (auto simp: takeRecomputeBudget_def Let_def split: if_splits)

text \<open>What a call does to the count of acted frames, and which calls may act.\<close>

definition counted :: "bool \<Rightarrow> u32 \<Rightarrow> FlashState \<Rightarrow> FlashState \<Rightarrow> bool" where
  "counted acted f s t \<longleftrightarrow>
     (if acted \<and> isNewActedFrame f (fs_lastActedFrame s) (fs_hasActedFrame s)
      then fs_actedFrames t = fs_actedFrames s + 1 \<and> fs_lastActedFrame t = f \<and> fs_hasActedFrame t
      else fs_actedFrames t = fs_actedFrames s \<and> fs_lastActedFrame t = fs_lastActedFrame s \<and> fs_hasActedFrame t = fs_hasActedFrame s) \<and>
     (acted \<longrightarrow> fs_actedFrames s < 200)"

lemma decide_counted:
  assumes "decideCall v f s = (acted, t)"
  shows "counted acted f s t \<and> fs_table t = fs_table s \<and> (acted \<longrightarrow> et_treatment (fs_tracker s) = Act \<and> vd_eligible v)"
  using assms by (auto simp: decideCall_def counted_def callMayAct_def sessionCapReached_def kSessionActCap_def Let_def isNewActedFrame_def split: if_splits)

lemma guarded_counted:
  assumes "guardedDecode p f cls s = (acted, t)"
  shows "counted acted f s t \<and> fs_table t = snd (onClassified p f cls (fs_table s)) \<and>
    (acted \<longrightarrow> cls = Disagree \<and> vd_eligible (fst (onClassified p f cls (fs_table s))) \<and>
      (if et_any (fs_tracker s) \<and> \<not> kGapFrames < f - et_lastFrame (fs_tracker s) then et_treatment (fs_tracker s) = Act
       else modeAllowsActing (fs_mode s) (et_eventNumber (fs_tracker s) + 1) \<and> isValidated (countClass Disagree (fs_validation s))))"
proof -
  obtain v tb where v: "onClassified p f cls (fs_table s) = (v, tb)" by force
  define s1 where "s1 = s\<lparr>fs_validation := countClass cls (fs_validation s), fs_table := tb\<rparr>"
  show ?thesis
  proof (cases "cls = Disagree")
    case False
    then show ?thesis using assms v by (auto simp: guardedDecode_def Let_def counted_def)
  next
    case True
    obtain new tr where n: "eventNote f (fs_tracker s1) = (new, tr)" by force
    define s2 where "s2 = s1\<lparr>fs_tracker := tr, fs_lastEventFrame := f, fs_hasEvent := True\<rparr>"
    define s3 where "s3 = (if new then openEvent v f s2 else s2)"
    have d: "decideCall v f s3 = (acted, t)" using assms v n True
      by (cases new) (simp_all add: guardedDecode_def Let_def s1_def s2_def s3_def)
    have f: "fs_table s3 = tb" "fs_actedFrames s3 = fs_actedFrames s" "fs_lastActedFrame s3 = fs_lastActedFrame s" "fs_hasActedFrame s3 = fs_hasActedFrame s"
      by (simp_all add: s3_def s2_def s1_def)
    have "counted acted f s t" "fs_table t = tb" using decide_counted [OF d] f by (auto simp: counted_def)
    moreover have "et_treatment tr = et_treatment (fs_tracker s)" "new \<longleftrightarrow> \<not> et_any (fs_tracker s) \<or> kGapFrames < f - et_lastFrame (fs_tracker s)"
      "new \<longrightarrow> et_eventNumber tr = et_eventNumber (fs_tracker s) + 1"
      using n by (auto simp: eventNote_def Let_def s1_def split: if_splits)
    moreover have "fs_tracker s3 = (if new then eventLatch (if modeAllowsActing (fs_mode s) (et_eventNumber tr) \<and> isValidated (countClass Disagree (fs_validation s)) \<and>
         vd_eligible v \<and> \<not> sessionCapReached (fs_actedFrames s) kSessionActCap then Act else Watch) tr else tr)"
      using True by (simp add: s3_def s2_def s1_def)
    ultimately show ?thesis using decide_counted [OF d] v True by (auto simp: eventLatch_def split: if_splits)
  qed
qed

lemma decode_cases:
  assumes "decodeObserved site rc p f s = (acted, t)"
  obtains (quiet) "\<not> acted" "fs_table t = fs_table s" "counted False f s t"
  | (guarded) cls s1 where "rc = Some cls" "site" "fs_mode s \<noteq> ModeOff" "fs_recomputeUsable s" "takeRecomputeBudget f s = (True, s1)"
      "guardedDecode p f cls s1 = (acted, t)"
proof -
  obtain b s1 where b: "takeRecomputeBudget f s = (b, s1)" by force
  note bf = budget_fields [OF b]
  show thesis
  proof (cases "fs_mode s = ModeOff \<or> \<not> site")
    case True
    then show ?thesis using assms by (intro quiet) (auto simp: decodeObserved_def counted_def)
  next
    case on: False
    show ?thesis
    proof (cases "b \<and> fs_recomputeUsable s")
      case False
      then have "acted = False" "t = s1" using assms b on bf by (auto simp: decodeObserved_def split: if_splits)
      then show ?thesis using bf by (intro quiet) (simp_all add: counted_def)
    next
      case True
      then have d: "(case rc of None \<Rightarrow> (False, s1\<lparr>fs_recomputeUsable := False\<rparr>) | Some cls \<Rightarrow> guardedDecode p f cls s1) = (acted, t)"
        using assms b on bf by (simp add: decodeObserved_def)
      show ?thesis
      proof (cases rc)
        case None
        then have "acted = False" "t = s1\<lparr>fs_recomputeUsable := False\<rparr>" using d by auto
        then show ?thesis using bf by (intro quiet) (simp_all add: counted_def)
      next
        case (Some cls)
        then show ?thesis using d on True b by (intro guarded [of cls s1]) auto
      qed
    qed
  qed
qed

lemma decode_counted:
  assumes "decodeObserved site rc p f s = (acted, t)"
  shows "counted acted f s t"
  using assms
proof (cases rule: decode_cases)
  case (guarded cls s1)
  then show ?thesis using guarded_counted [of p f cls s1 acted t] budget_fields [of f s True s1] by (simp add: counted_def)
qed simp

lemma call_counted:
  assumes "flashCall c s = (acted, t)"
  shows "counted acted (callFrame c) s t"
proof (cases c)
  case (Decode site rc p f)
  then show ?thesis using assms decode_counted by simp
next
  case (Trigger r f d w)
  then show ?thesis using assms by (auto simp: counted_def)
next
  case (Service f)
  then show ?thesis using assms by (auto simp: counted_def serviceDump_def Let_def split: if_splits)
next
  case (Configure u cfg)
  then show ?thesis using assms by (auto simp: counted_def transitionFlashPreventConfigure_def Let_def split: prod.splits if_splits)
qed

lemma acted_run_capped:
  assumes "fs_hasActedFrame s \<longrightarrow> fs_lastActedFrame s \<in> A" "finite A" "card A \<le> unat (fs_actedFrames s)" "fs_actedFrames s \<le> 200"
  shows "card (A \<union> set (fst (actedRun cs s))) \<le> 200"
  using assms
proof (induction cs arbitrary: s A)
  case Nil
  then have "unat (fs_actedFrames s) \<le> 200" by (simp add: word_le_nat_alt)
  then show ?case using Nil by simp
next
  case (Cons c cs)
  obtain acted t where t: "flashCall c s = (acted, t)" by force
  have n: "counted acted (callFrame c) s t" by (rule call_counted [OF t])
  define B where "B = (if acted then insert (callFrame c) A else A)"
  have u: "unat (fs_actedFrames s + 1) = unat (fs_actedFrames s) + 1" if "fs_actedFrames s < 200"
    using that by (simp add: word_less_nat_alt unat_word_ariths)
  have "fs_hasActedFrame t \<longrightarrow> fs_lastActedFrame t \<in> B" "finite B" "card B \<le> unat (fs_actedFrames t)" "fs_actedFrames t \<le> 200"
  proof -
    show "fs_hasActedFrame t \<longrightarrow> fs_lastActedFrame t \<in> B" using n Cons.prems(1) by (auto simp: B_def counted_def split: if_splits)
    show "finite B" using Cons.prems(2) by (simp add: B_def)
    have "card B \<le> Suc (card A)" using Cons.prems(2) by (simp add: B_def card_insert_if)
    moreover have "B = A" if "\<not> (acted \<and> isNewActedFrame (callFrame c) (fs_lastActedFrame s) (fs_hasActedFrame s))"
      using that Cons.prems(1) by (auto simp: B_def isNewActedFrame_def)
    ultimately show "card B \<le> unat (fs_actedFrames t)" using n Cons.prems(3) u by (auto simp: counted_def split: if_splits)
    have "fs_actedFrames s + 1 \<le> 200" if "fs_actedFrames s < 200" using that u by (simp add: word_le_nat_alt word_less_nat_alt)
    then show "fs_actedFrames t \<le> 200" using n Cons.prems(4) by (auto simp: counted_def split: if_splits)
  qed
  from Cons.IH [OF this] show ?case using t by (cases "actedRun cs t") (simp add: B_def split: if_splits)
qed


lemma flashCall_table:
  assumes "oneEach (fs_table s)" "flashCall c s = (acted, t)"
  shows "oneEach (fs_table t)"
proof (cases c)
  case (Decode site rc p f)
  then have "decodeObserved site rc p f s = (acted, t)" using assms(2) by simp
  then show ?thesis
  proof (cases rule: decode_cases)
    case quiet
    then show ?thesis using assms(1) by simp
  next
    case (guarded cls s1)
    then have "fs_table t = snd (onClassified p f cls (fs_table s))" using guarded_counted [of p f cls s1 acted t] budget_fields [of f s True s1] by simp
    then show ?thesis using onClassified_known [OF assms(1) prod.collapse [symmetric]] by simp
  qed
next
  case (Trigger r f d w)
  then show ?thesis using assms by auto
next
  case (Service f)
  then show ?thesis using assms by (auto simp: serviceDump_def Let_def split: if_splits)
next
  case (Configure u cfg)
  then show ?thesis using assms by (auto simp: transitionFlashPreventConfigure_def Let_def split: prod.splits if_splits)
qed

interpretation fl: op_machine "\<lambda>c s. snd (flashCall c s)" "\<lambda>c. True" "\<lambda>s. oneEach (fs_table s)"
  by unfold_locales (rule flashCall_table [OF _ prod.collapse [symmetric]])

lemma newFlash_table: "oneEach (fs_table newFlash)"
  by (auto simp: oneEach_def newFlash_def freshEntry_def holds_def)

lemma run_table: "oneEach (fs_table (fold (\<lambda>c s. snd (flashCall c s)) cs newFlash))"
  by (rule fl.run_inv [OF _ newFlash_table]) (simp add: list_all_iff)

lemma actedRun_state: "snd (actedRun cs s) = fold (\<lambda>c s. snd (flashCall c s)) cs s"
  by (induction cs arbitrary: s) (simp_all add: split_beta)

text \<open>
  C30: in a session of any calls a pose is replaced in at most two hundred different frames.
\<close>

theorem acted_frames_capped: "card (set (fst (actedRun cs newFlash))) \<le> 200"
  using acted_run_capped [of newFlash "{}" cs] by (simp add: newFlash_def)

text \<open>What the table says for a parent: it may be acted on.\<close>

definition goodStanding :: "u32 \<Rightarrow> Entry option \<Rightarrow> bool" where
  "goodStanding f k = (case k of None \<Rightarrow> True | Some e \<Rightarrow>
     90 < f - en_lastSeenFrame e \<or> en_hasAgreed e \<and> f - en_lastAgreeFrame e \<le> 3 \<and> en_streak e \<le> 3)"

lemma classified_eligible:
  "holds p e \<Longrightarrow> vd_eligible (fst (classified p f c e)) \<longleftrightarrow> goodStanding f (Some e)"
  by (auto simp: classified_def goodStanding_def Let_def holds_def kUnseenFramesForNew_def kRecentAgreeFrames_def kMaxStreak_def split: PoseClass.splits)

lemma eligible_standing:
  assumes "oneEach t"
  shows "vd_eligible (fst (onClassified p f c t)) \<longleftrightarrow> goodStanding f (known t p)"
proof -
  obtain v t' where v: "onClassified p f c t = (v, t')" by force
  show ?thesis
  proof (cases "known t p")
    case None
    then show ?thesis using onClassified_known [OF assms v] v
      by (auto simp: goodStanding_def classified_def freshEntry_def Let_def kMaxStreak_def split: PoseClass.splits if_splits)
  next
    case (Some e)
    then show ?thesis using onClassified_known [OF assms v] v classified_eligible [of p e f c] known_Some [OF assms, of p e] by auto
  qed
qed

text \<open>
  C29: a call replaces the game's pose only at a compose site, with the fix on and the recomputation working, when the poses
  disagree, fewer than two hundred frames were acted on, and this call's own parent is in good standing: unknown
  or not seen for ninety frames, or in agreement within three frames and with at most three disagreements since. In an
  event that is open the event must have been decided that way when it began; a call that begins one needs the mode to
  allow it and the recomputation to be validated.
\<close>

theorem acted_in_good_standing:
  assumes "s = snd (actedRun cs newFlash)" "decodeObserved site rc p f s = (True, t)"
  shows "site \<and> rc = Some Disagree \<and> fs_mode s \<noteq> ModeOff \<and> fs_recomputeUsable s \<and> fs_actedFrames s < 200 \<and>
    goodStanding f (known (fs_table s) p) \<and>
    (if et_any (fs_tracker s) \<and> f - et_lastFrame (fs_tracker s) \<le> 90 then et_treatment (fs_tracker s) = Act
     else modeAllowsActing (fs_mode s) (et_eventNumber (fs_tracker s) + 1) \<and> isValidated (countClass Disagree (fs_validation s)))"
proof -
  have one: "oneEach (fs_table s)" using run_table by (simp add: assms(1) actedRun_state)
  have c: "counted True f s t" and d: "decodeObserved site rc p f s = (True, t)" using assms(2) decode_counted by blast+
  from d show ?thesis
  proof (cases rule: decode_cases)
    case (guarded cls s1)
    note bf = budget_fields [OF guarded(5)]
    note g = guarded_counted [OF guarded(6), unfolded bf]
    then show ?thesis using guarded(1-4) c eligible_standing [OF one] by (auto simp: counted_def kGapFrames_def not_less)
  qed simp
qed


text \<open>
  C31: the table of parents is a map of at most 256 entries. A call updates the entry of its own parent, or starts a fresh one;
  no other parent is affected, unless the parent is new and the table is full: then the one parent that is forgotten is one
  not seen for longest.
\<close>

theorem guard_table_refines_map:
  assumes "s = snd (actedRun cs newFlash)" "onClassified p f c (fs_table s) = (v, t')"
  shows "(\<exists>e. classified p f c (case known (fs_table s) p of Some e0 \<Rightarrow> e0 | None \<Rightarrow> freshEntry) = (v, e) \<and> known t' p = Some e) \<and>
    (\<exists>lost. (\<forall>q. q \<noteq> p \<longrightarrow> known t' q = (if lost = Some q then None else known (fs_table s) q)) \<and>
      (\<forall>q. lost = Some q \<longrightarrow> known (fs_table s) p = None \<and> list_all en_used (fs_table s) \<and>
        (\<exists>e. known (fs_table s) q = Some e \<and> (\<forall>e' \<in> set (fs_table s). en_lastSeenFrame e \<le> en_lastSeenFrame e'))))"
proof -
  have one: "oneEach (fs_table s)" using run_table by (simp add: assms(1) actedRun_state)
  note k = onClassified_known [OF one assms(2)]
  then obtain i where i: "i < length (fs_table s)" "\<And>q. q \<noteq> p \<Longrightarrow> known t' q =
      (if known (fs_table s) p = None \<and> list_all en_used (fs_table s) \<and> q = en_parent (fs_table s ! i) then None else known (fs_table s) q)"
    "known (fs_table s) p = None \<and> list_all en_used (fs_table s) \<Longrightarrow> \<forall>e \<in> set (fs_table s). en_lastSeenFrame (fs_table s ! i) \<le> en_lastSeenFrame e"
    by metis
  define lost where "lost = (if known (fs_table s) p = None \<and> list_all en_used (fs_table s) then Some (en_parent (fs_table s ! i)) else None)"
  have "known (fs_table s) (en_parent (fs_table s ! i)) = Some (fs_table s ! i)" if "list_all en_used (fs_table s)"
    using that i(1) by (auto simp: known_Some [OF one] holds_def list_all_length)
  then have "(\<forall>q. q \<noteq> p \<longrightarrow> known t' q = (if lost = Some q then None else known (fs_table s) q)) \<and>
      (\<forall>q. lost = Some q \<longrightarrow> known (fs_table s) p = None \<and> list_all en_used (fs_table s) \<and>
        (\<exists>e. known (fs_table s) q = Some e \<and> (\<forall>e' \<in> set (fs_table s). en_lastSeenFrame e \<le> en_lastSeenFrame e')))"
    using i(2,3) by (cases "known (fs_table s) p"; cases "list_all en_used (fs_table s)") (simp_all add: lost_def)
  then show ?thesis using k by blast
qed

section \<open>The dump windows\<close>

definition triggers :: "u32 list \<Rightarrow> PendingDumpWindow \<Rightarrow> PendingDumpWindow" where
  "triggers = fold (\<lambda>t w. foldDumpTrigger w t kDumpWindowFrames)"

lemma triggers_bounds:
  assumes "\<forall>t \<in> set ts. unat t + 30 < 2 ^ 32" "pw_active w" "w' = triggers ts w"
  shows "pw_active w' \<and> pw_lowTriggerFrame w' \<le> pw_lowTriggerFrame w \<and> pw_dueFrame w \<le> pw_dueFrame w' \<and>
    (\<forall>t \<in> set ts. pw_lowTriggerFrame w' \<le> t \<and> t + 30 \<le> pw_dueFrame w')"
  using assms
proof (induction ts arbitrary: w)
  case (Cons t ts)
  define w1 where "w1 = foldDumpTrigger w t kDumpWindowFrames"
  have "pw_active w1" "pw_lowTriggerFrame w1 \<le> pw_lowTriggerFrame w" "pw_lowTriggerFrame w1 \<le> t" "pw_dueFrame w \<le> pw_dueFrame w1" "t + 30 \<le> pw_dueFrame w1"
    using Cons.prems(2) by (auto simp: w1_def foldDumpTrigger_def kDumpWindowFrames_def Let_def)
  moreover have "w' = triggers ts w1" using Cons.prems(3) by (simp add: triggers_def w1_def)
  ultimately show ?case using Cons.IH [of w1] Cons.prems(1) by (auto intro: order_trans)
qed (simp add: triggers_def)

text \<open>
  A pending dump covers every trigger folded into it: it is active, is not served before thirty frames after the last of
  them, and keeps every ring entry within thirty frames of any of them, as long as the frame counter is not about to wrap.
\<close>

theorem dump_covers_triggers:
  assumes "ts \<noteq> []" "\<forall>t \<in> set ts. unat t + 30 < 2 ^ 32" "t \<in> set ts" "w = triggers ts noWindow"
  shows "pw_active w \<and> t + 30 \<le> pw_dueFrame w \<and>
    (ringFrameInWindow f t 30 30 \<longrightarrow> frameInDumpWindow f (pw_lowTriggerFrame w) (pw_dueFrame w) kDumpWindowFrames)"
proof -
  obtain x xs where ts: "ts = x # xs" using assms(1) by (cases ts) auto
  define w1 where "w1 = foldDumpTrigger noWindow x kDumpWindowFrames"
  have w1: "pw_active w1" "pw_lowTriggerFrame w1 = x" "pw_dueFrame w1 = x + 30"
    by (simp_all add: w1_def foldDumpTrigger_def noWindow_def kDumpWindowFrames_def Let_def)
  have "w = triggers xs w1" using assms(4) by (simp add: ts triggers_def w1_def)
  then have b: "pw_active w" "pw_lowTriggerFrame w \<le> t" "t + 30 \<le> pw_dueFrame w"
    using triggers_bounds [of xs w1 w] w1 assms(2,3) by (auto simp: ts)
  have u: "unat (t + 30) = unat t + 30" using assms(2,3) by (simp add: unat_word_ariths)
  have "unat x < 2 ^ LENGTH(32)" for x :: u32 by (rule unsigned_less)
  then have "unat x < 2 ^ 64" for x :: u32 by (rule order.strict_trans) simp
  then have c: "unat (ucast x :: u64) = unat x" for x :: u32 by (simp add: unsigned_ucast_eq take_bit_nat_eq_self)
  then have f: "unat (ucast f :: u64) = unat f" "unat (ucast t + 30 :: u64) = unat t + 30"
    using bspec [OF assms(2,3)] by (simp_all add: unat_word_ariths)
  have "frameInDumpWindow f (pw_lowTriggerFrame w) (pw_dueFrame w) kDumpWindowFrames" if "ringFrameInWindow f t 30 30"
    using that b u f
    by (auto simp: ringFrameInWindow_def frameInDumpWindow_def kDumpWindowFrames_def Let_def word_le_nat_alt word_less_nat_alt unat_sub split: if_splits)
  then show ?thesis using b by blast
qed

section \<open>The two-hundredth frame\<close>

lemma onClassified_head:
  "holds p e \<Longrightarrow> onClassified p f c (e # tb) = (fst (classified p f c e), snd (classified p f c e) # tb)"
  by (simp add: onClassified_def findOrEvict_def holds_def split_beta)

lemma scan_free: "scanTable p i (replicate n freshEntry) (Some j) old = Inr j"
  by (induction n arbitrary: i old) (simp_all add: freshEntry_def)

lemma onClassified_first:
  "onClassified p f c (replicate 256 freshEntry) = (fst (classified p f c freshEntry), snd (classified p f c freshEntry) # replicate 255 freshEntry)"
proof -
  have r: "replicate 256 freshEntry = freshEntry # replicate 255 freshEntry" by (simp flip: replicate_Suc)
  have "scanTable p 0 (replicate 256 freshEntry) None (0, 0xFFFFFFFF) = Inr 0"
    unfolding r by (simp add: freshEntry_def [symmetric] scan_free) (simp add: freshEntry_def)
  then show ?thesis by (simp add: onClassified_def findOrEvict_def r split_beta)
qed

definition agreedAt :: "u32 \<Rightarrow> Entry" where
  "agreedAt g = \<lparr>en_parent = 7, en_lastSeenFrame = g, en_lastAgreeFrame = g, en_streak = 0, en_used = True, en_hasAgreed = True, en_loggedPersistent = False\<rparr>"

definition disputedAt :: "u32 \<Rightarrow> Entry" where
  "disputedAt g = (agreedAt g)\<lparr>en_lastSeenFrame := g + 1, en_streak := 1\<rparr>"

lemma u32_facts: "(1::u32) \<le> 3" "(1::u32) < 0xFFFFFFFF" "\<not> (3::u32) < 1" "\<not> (90::u32) < 1" "\<not> (90::u32) < 2" "\<not> (90::u32) < 0" "(2::u32) \<le> 3" "(0::u32) < 0xFFFFFFFF"
  by (simp_all add: word_le_nat_alt word_less_nat_alt)

lemma entry_steps:
  "holds 7 (agreedAt g)" "holds 7 (disputedAt g)"
  "classified 7 f Agree freshEntry = (\<lparr>vd_eligible = True, vd_justCrossedPersistent = False\<rparr>, agreedAt f)"
  "classified 7 (g + 1) Agree (agreedAt g) = (\<lparr>vd_eligible = True, vd_justCrossedPersistent = False\<rparr>, agreedAt (g + 1))"
  "classified 7 (g + 1) Disagree (agreedAt g) = (\<lparr>vd_eligible = True, vd_justCrossedPersistent = False\<rparr>, disputedAt g)"
  "vd_eligible (fst (classified 7 (g + 1) Disagree (disputedAt g)))"
  "classified 7 (g + 2) Agree (disputedAt g) = (\<lparr>vd_eligible = True, vd_justCrossedPersistent = False\<rparr>, agreedAt (g + 2))"
  using u32_facts by (simp_all add: classified_def freshEntry_def agreedAt_def disputedAt_def holds_def Let_def kMaxStreak_def kUnseenFramesForNew_def kRecentAgreeFrames_def)

lemma budget_new: "fs_budgetFrame s \<noteq> f \<Longrightarrow> takeRecomputeBudget f s = (True, s\<lparr>fs_budgetFrame := f, fs_budgetUsed := 1\<rparr>)"
  by (simp add: takeRecomputeBudget_def Let_def kRecomputeBudgetPerFrame_def)

definition onConfig :: Config where
  "onConfig = emptyConfig\<lparr>cf_values := [(''advanced.transition_flash_prevent'', ''on'')]\<rparr>"

lemma mode_on: "parseMode (Some ''on'') = (ModeOn, True)"
  by code_simp

lemma configured: "snd (actedRun [Configure True onConfig] newFlash) = newFlash\<lparr>fs_mode := ModeOn, fs_armed := True, fs_recomputeUsable := True\<rparr>"
  by (simp add: transitionFlashPreventConfigure_def onConfig_def emptyConfig_def getString_def auditFlush_def mode_on newFlash_def)

text \<open>The state after sixty agreements, one per frame; then after \<open>k\<close> frames with a disagreement, each followed by an agreement.\<close>

definition warm :: "nat \<Rightarrow> FlashState \<Rightarrow> bool" where
  "warm n s \<longleftrightarrow> fs_mode s = ModeOn \<and> fs_recomputeUsable s \<and> fs_table s = agreedAt (of_nat n) # replicate 255 freshEntry \<and>
     fs_tracker s = newTracker \<and> fs_validation s = \<lparr>vc_agree = of_nat n, vc_disagree = 0\<rparr> \<and> fs_actedFrames s = 0 \<and> \<not> fs_hasActedFrame s \<and>
     fs_budgetFrame s = of_nat n"

definition duel :: "nat \<Rightarrow> u32 \<Rightarrow> FlashState \<Rightarrow> bool" where
  "duel k g s \<longleftrightarrow> fs_mode s = ModeOn \<and> fs_recomputeUsable s \<and> fs_table s = agreedAt g # replicate 255 freshEntry \<and>
     et_any (fs_tracker s) \<and> et_treatment (fs_tracker s) = Act \<and> et_lastFrame (fs_tracker s) = g - 1 \<and> fs_actedFrames s = of_nat k \<and>
     fs_hasActedFrame s \<and> fs_lastActedFrame s = g - 1 \<and> fs_budgetFrame s = g"

abbreviation decode :: "PoseClass \<Rightarrow> u32 \<Rightarrow> FlashState \<Rightarrow> bool \<times> FlashState" where
  "decode c f s \<equiv> decodeObserved True (Some c) 7 f s"

lemma decode_new:
  assumes "fs_mode s = ModeOn" "fs_recomputeUsable s" "fs_budgetFrame s \<noteq> f"
  shows "decode c f s = guardedDecode 7 f c (s\<lparr>fs_budgetFrame := f, fs_budgetUsed := 1\<rparr>)"
  using assms by (simp add: decodeObserved_def budget_new)

lemma u32_next: "(g :: u32) \<noteq> g + 1" "(g :: u32) \<noteq> g + 2" "(g :: u32) + 1 \<noteq> g + 2" "(g :: u32) - 1 \<noteq> g + 1"
proof -
  show "g \<noteq> g + 1" "g \<noteq> g + 2" "g + 1 \<noteq> g + 2" by simp_all
  have "g + 1 - (g - 1) = 2" by simp
  then show "g - 1 \<noteq> g + 1" by auto
qed

lemma warm_first: "warm 1 (snd (decode Agree 1 (newFlash\<lparr>fs_mode := ModeOn, fs_armed := True, fs_recomputeUsable := True\<rparr>)))"
  by (simp add: decode_new guardedDecode_def newFlash_def kParentCapacity_def onClassified_first entry_steps warm_def Let_def countClass_def)

lemma warm_step: "warm n s \<Longrightarrow> warm (Suc n) (snd (decode Agree (of_nat n + 1) s))"
  by (simp add: warm_def decode_new u32_next guardedDecode_def onClassified_head entry_steps Let_def countClass_def add.commute [of 1] del: add.commute)

lemma validated_61: "isValidated \<lparr>vc_agree = 60, vc_disagree = 1\<rparr>"
  by (simp add: isValidated_def Let_def)

lemma first_event:
  assumes "warm 60 s"
  shows "fst (decode Disagree 61 s)" "duel 1 62 (snd (decode Agree 62 (snd (decode Disagree 61 s))))"
proof -
  have e: "classified 7 61 Disagree (agreedAt 60) = (\<lparr>vd_eligible = True, vd_justCrossedPersistent = False\<rparr>, disputedAt 60)"
    "classified 7 62 Agree (disputedAt 60) = (\<lparr>vd_eligible = True, vd_justCrossedPersistent = False\<rparr>, agreedAt 62)"
    using entry_steps(5) [of 60] entry_steps(7) [of 60] by simp_all
  define t where "t = decode Disagree 61 s"
  have t: "fst t" "fs_mode (snd t) = ModeOn" "fs_recomputeUsable (snd t)" "fs_table (snd t) = disputedAt 60 # replicate 255 freshEntry"
    "et_any (fs_tracker (snd t))" "et_treatment (fs_tracker (snd t)) = Act" "et_lastFrame (fs_tracker (snd t)) = 61"
    "fs_actedFrames (snd t) = 1" "fs_hasActedFrame (snd t)" "fs_lastActedFrame (snd t) = 61" "fs_budgetFrame (snd t) = 61"
    using assms by (simp_all add: t_def warm_def decode_new guardedDecode_def onClassified_head entry_steps(1) e Let_def countClass_def eventNote_def newTracker_def
      decideCall_def callMayAct_def sessionCapReached_def kSessionActCap_def modeAllowsActing_def validated_61 eventLatch_def isNewActedFrame_def split_beta)
  show "fst (decode Disagree 61 s)" using t(1) by (simp add: t_def)
  show "duel 1 62 (snd (decode Agree 62 (snd (decode Disagree 61 s))))"
    unfolding t_def [symmetric] using t by (simp add: decode_new guardedDecode_def onClassified_head entry_steps(2) e Let_def countClass_def duel_def)
qed

lemma duel_disagree:
  assumes "duel k g s" "k < 200"
  defines "t \<equiv> decode Disagree (g + 1) s"
  shows "fst t" "fs_mode (snd t) = ModeOn" "fs_recomputeUsable (snd t)" "fs_table (snd t) = disputedAt g # replicate 255 freshEntry"
    "et_any (fs_tracker (snd t))" "et_treatment (fs_tracker (snd t)) = Act" "et_lastFrame (fs_tracker (snd t)) = g + 1"
    "fs_actedFrames (snd t) = of_nat k + 1" "fs_hasActedFrame (snd t)" "fs_lastActedFrame (snd t) = g + 1" "fs_budgetFrame (snd t) = g + 1" "fs_budgetUsed (snd t) = 1"
proof -
  have "\<not> (200::u64) \<le> of_nat k" using assms(2) by (simp add: word_le_nat_alt unat_of_nat)
  then show "fst t" "fs_mode (snd t) = ModeOn" "fs_recomputeUsable (snd t)" "fs_table (snd t) = disputedAt g # replicate 255 freshEntry"
    "et_any (fs_tracker (snd t))" "et_treatment (fs_tracker (snd t)) = Act" "et_lastFrame (fs_tracker (snd t)) = g + 1"
    "fs_actedFrames (snd t) = of_nat k + 1" "fs_hasActedFrame (snd t)" "fs_lastActedFrame (snd t) = g + 1" "fs_budgetFrame (snd t) = g + 1" "fs_budgetUsed (snd t) = 1"
    using assms(1) u32_next u32_facts by (simp_all add: t_def duel_def decode_new guardedDecode_def onClassified_head entry_steps Let_def countClass_def eventNote_def
      decideCall_def callMayAct_def sessionCapReached_def kSessionActCap_def isNewActedFrame_def kGapFrames_def split_beta)
qed

lemma duel_step:
  assumes "duel k g s" "k < 200"
  shows "duel (Suc k) (g + 2) (snd (decode Agree (g + 2) (snd (decode Disagree (g + 1) s))))"
  using duel_disagree [OF assms] u32_next
  by (simp add: decode_new guardedDecode_def onClassified_head entry_steps Let_def countClass_def duel_def ac_simps)

definition sessionReach :: "FlashState \<Rightarrow> bool" where
  "sessionReach s \<longleftrightarrow> (\<exists>cs. s = snd (actedRun cs newFlash))"

lemma sessionReach_call: "sessionReach s \<Longrightarrow> sessionReach (snd (flashCall c s))"
proof -
  assume "sessionReach s"
  then obtain cs where "s = snd (actedRun cs newFlash)" by (auto simp: sessionReach_def)
  then have "snd (flashCall c s) = snd (actedRun (cs @ [c]) newFlash)" by (simp add: actedRun_state)
  then show "sessionReach (snd (flashCall c s))" unfolding sessionReach_def by blast
qed

lemma sessionReach_decode: "sessionReach s \<Longrightarrow> sessionReach (snd (decode c f s))"
  using sessionReach_call [of s "Decode True (Some c) 7 f"] by simp

text \<open>The calls that lead to the first: the fix is switched on and one parent agrees in every frame.\<close>

fun agreeRun :: "nat \<Rightarrow> FlashCall list" where
  "agreeRun 0 = [Configure True onConfig, Decode True (Some Agree) 7 1]"
| "agreeRun (Suc n) = agreeRun n @ [Decode True (Some Agree) 7 (of_nat (Suc n) + 1)]"

lemma warm_run: "warm (Suc n) (snd (actedRun (agreeRun n) newFlash))"
proof (induction n)
  case 0
  have "snd (actedRun (agreeRun 0) newFlash) = snd (decode Agree 1 (newFlash\<lparr>fs_mode := ModeOn, fs_armed := True, fs_recomputeUsable := True\<rparr>))"
    using configured by (simp add: split_beta)
  then show ?case using warm_first by simp
next
  case (Suc n)
  have "snd (actedRun (agreeRun (Suc n)) newFlash) = snd (decode Agree (of_nat (Suc n) + 1) (snd (actedRun (agreeRun n) newFlash)))"
    by (simp add: actedRun_state)
  then show ?case using warm_step [OF Suc] by (simp del: of_nat_Suc)
qed

lemma warm_60: "warm 60 (snd (actedRun (agreeRun 59) newFlash))"
  using warm_run [of 59] by simp

lemma duel_reached: "k < 200 \<Longrightarrow> \<exists>s g. sessionReach s \<and> duel (Suc k) g s"
proof (induction k)
  case 0
  have "sessionReach (snd (actedRun (agreeRun 59) newFlash))" unfolding sessionReach_def by blast
  then show ?case using first_event(2) [OF warm_60] sessionReach_decode by (metis One_nat_def)
next
  case (Suc k)
  then obtain s g where "sessionReach s" "duel (Suc k) g s" by auto
  then show ?case using Suc.prems duel_step sessionReach_decode by blast
qed

text \<open>
  C32: the cap can split the two eyes of one frame. There is a session in which, in an acted event and with the parent in good
  standing for both, the first call of a frame replaces the pose and the second call of that same frame does not: the first
  call counts the two-hundredth frame, and the second then finds the cap reached by its own frame.
\<close>

theorem cap_splits_last_frame:
  "\<exists>cs p f s1 s2. let s = snd (actedRun cs newFlash) in
     decodeObserved True (Some Disagree) p f s = (True, s1) \<and> decodeObserved True (Some Disagree) p f s1 = (False, s2) \<and>
     et_treatment (fs_tracker s1) = Act \<and> goodStanding f (known (fs_table s) p) \<and> goodStanding f (known (fs_table s1) p)"
proof -
  obtain s g where r: "sessionReach s" and d: "duel 199 g s" using duel_reached [of 198] by auto
  from r obtain cs where s: "snd (actedRun cs newFlash) = s" by (auto simp: sessionReach_def)
  define t where "t = decode Disagree (g + 1) s"
  note f = duel_disagree [OF d, folded t_def, simplified]
  have k: "known (fs_table s) 7 = Some (agreedAt g)" "known (fs_table (snd t)) 7 = Some (disputedAt g)"
    using d f(4) entry_steps(1,2) by (simp_all add: duel_def known_def)
  have "goodStanding (g + 1) (Some (agreedAt g))" "goodStanding (g + 1) (Some (disputedAt g))"
    using u32_facts by (simp_all add: goodStanding_def agreedAt_def disputedAt_def)
  moreover have "\<not> fst (decode Disagree (g + 1) (snd t))"
    using decode_counted [of True "Some Disagree" 7 "g + 1" "snd t", OF prod.collapse [symmetric]] f(8) by (auto simp: counted_def)
  ultimately show ?thesis unfolding Let_def using f(1,6) k
    by (intro exI [of _ cs] exI [of _ 7] exI [of _ "g + 1"] exI [of _ "snd t"] exI [of _ "snd (decode Disagree (g + 1) (snd t))"])
       (auto simp: s t_def [symmetric] prod_eq_iff)
qed

section \<open>Runs\<close>

theorem acted_in_good_standing_witness:
  "fst (decodeObserved True (Some Disagree) 7 61 (snd (actedRun (agreeRun 59) newFlash))) \<and>
   goodStanding 61 (known (fs_table (snd (actedRun (agreeRun 59) newFlash))) 7)"
  using acted_in_good_standing [OF refl, of True "Some Disagree" 7 61 "agreeRun 59" "snd (decode Disagree 61 (snd (actedRun (agreeRun 59) newFlash)))"]
    first_event(1) [OF warm_60] by (simp add: prod_eq_iff)

theorem guard_table_refines_map_witness: "known (agreedAt 1 # replicate 255 freshEntry) 7 = Some (agreedAt 1)"
proof -
  have k: "known (fs_table newFlash) 7 = None" by (auto simp: known_None newFlash_def holds_def freshEntry_def)
  have t: "onClassified 7 1 Agree (fs_table newFlash) = (\<lparr>vd_eligible = True, vd_justCrossedPersistent = False\<rparr>, agreedAt 1 # replicate 255 freshEntry)"
    by (simp add: newFlash_def kParentCapacity_def onClassified_first entry_steps)
  show ?thesis using guard_table_refines_map [of newFlash "[]", OF _ t] k by (simp add: entry_steps)
qed

theorem dump_covers_triggers_witness:
  "frameInDumpWindow 30 (pw_lowTriggerFrame (triggers [100, 5] noWindow)) (pw_dueFrame (triggers [100, 5] noWindow)) kDumpWindowFrames"
  using dump_covers_triggers [of "[100, 5]" 5 "triggers [100, 5] noWindow" 30] by (simp add: ringFrameInWindow_def Let_def)

end
