(* ===== verification/SettingsEditor.thy ===== *)
theory SettingsEditor
  imports GameConfigProps InstallApply
begin

text \<open>
  \<^verbatim>\<open>src/installer/settings.cpp\<close>: the settings window's model of \<^verbatim>\<open>edvr.ini\<close>. The table of settings and the table of moved
  names are generated and are arguments here; so is the time stamp of a backup folder. A row has the value the file
  gives a setting; writing one merges the file with itself and forces that one value. What the window shows of a number
  (\<^verbatim>\<open>strtod\<close> and \<^verbatim>\<open>sprintf\<close> on doubles) is not modelled.
\<close>

section \<open>Rows\<close>

record Choice =
  cho_value :: string
  cho_label :: string

record SettingDef =
  sd_section :: string
  sd_key :: string
  sd_shipped :: string
  sd_choices :: string

record SettingRow =
  rw_def :: SettingDef
  rw_value :: string
  rw_choices :: "Choice list"

definition choiceOf :: "string \<Rightarrow> Choice" where
  "choiceOf current =
     (if CHR ''='' \<in> set current
      then \<lparr>cho_value = takeWhile (\<lambda>c. c \<noteq> CHR ''='') current, cho_label = tl (dropWhile (\<lambda>c. c \<noteq> CHR ''='') current)\<rparr>
      else \<lparr>cho_value = current, cho_label = current\<rparr>)"

definition flushChoice :: "string \<Rightarrow> Choice list" where
  "flushChoice current = (if current = [] then [] else [choiceOf current])"

fun choicesFrom :: "string \<Rightarrow> string \<Rightarrow> Choice list" where
  "choicesFrom current [] = flushChoice current"
| "choicesFrom current (c # cs) = (if c = CHR ''|'' then flushChoice current @ choicesFrom [] cs else choicesFrom (current @ [c]) cs)"

definition splitChoices :: "string \<Rightarrow> Choice list" where
  "splitChoices packed = choicesFrom [] (cstr packed)"

type_synonym moved = "(string \<times> string \<times> string) list"

definition kAbsent :: string where
  "kAbsent = [CHR 0x01]"

definition defName :: "SettingDef \<Rightarrow> string" where
  "defName def = sd_section def @ ''.'' @ sd_key def"

text \<open>An old name the file still has, unless it only carries its retired default; the first that counts.\<close>

fun movedValue :: "string \<Rightarrow> string \<Rightarrow> string \<Rightarrow> moved \<Rightarrow> string" where
  "movedValue text dotted shipped [] = shipped"
| "movedValue text dotted shipped ((old, new, retired) # mvs) =
     (if old = [] \<or> dotted \<noteq> new then movedValue text dotted shipped mvs
      else
        (let oldValue = iniValue text old kAbsent in
         if oldValue = kAbsent \<or> retired \<noteq> [] \<and> oldValue = retired then movedValue text dotted shipped mvs else oldValue))"

definition rowOf :: "moved \<Rightarrow> string \<Rightarrow> SettingDef \<Rightarrow> SettingRow" where
  "rowOf mvs text def =
     (let value = iniValue text (defName def) kAbsent in
      \<lparr>rw_def = def, rw_value = (if value = kAbsent then movedValue text (defName def) (sd_shipped def) mvs else value),
       rw_choices = splitChoices (sd_choices def)\<rparr>)"

section \<open>The model and the disk\<close>

record SettingsModel =
  sm_loaded :: bool
  sm_backedUp :: bool
  sm_gameDir :: string
  sm_iniPath :: string
  sm_text :: string
  sm_rows :: "SettingRow list"
  sm_error :: string

definition readTextFile :: "Os \<Rightarrow> string \<Rightarrow> Disk \<Rightarrow> string \<times> Disk" where
  "readTextFile os path d =
     ((case dk_files d path of None \<Rightarrow> []
       | Some c \<Rightarrow> if int (length c) \<le> 4194304 \<and> os_readable os (dk_calls d) then c else []), called d)"

definition createDirectory :: "Os \<Rightarrow> string \<Rightarrow> Disk \<Rightarrow> bool \<times> Disk" where
  "createDirectory os path d =
     (if os_ok os (dk_calls d) then (True, (called d)\<lparr>dk_dirs := (dk_dirs d)(path := True)\<rparr>) else (False, called d))"

definition ensureBackupDir :: "Os \<Rightarrow> string \<Rightarrow> Disk \<Rightarrow> bool \<times> Disk" where
  "ensureBackupDir os path d =
     (if dk_dirs d path then (True, d)
      else
        (case (case parentOf path of
                 None \<Rightarrow> (True, d)
               | Some parent \<Rightarrow>
                   if dk_dirs d parent then (True, d)
                   else (case createDirectory os parent d of (made, d1) \<Rightarrow>
                     (made \<or> getLastError os d = ERROR_ALREADY_EXISTS, d1))) of
           (ok, d1) \<Rightarrow>
             if \<not> ok then (False, d1)
             else (case createDirectory os path d1 of (made, d2) \<Rightarrow>
               (made \<or> getLastError os d1 = ERROR_ALREADY_EXISTS \<and> dk_dirs d2 path, d2))))"

text \<open>One \<^verbatim>\<open>WriteFile\<close> of the whole text: its size is cast to 32 bits, and what was written is compared with all of it.\<close>

definition writeWhole :: "Os \<Rightarrow> string \<Rightarrow> string \<Rightarrow> Disk \<Rightarrow> bool \<times> Disk" where
  "writeWhole os path text d =
     (let temp = tempOf path in
      if \<not> os_ok os (dk_calls d) then (False, called d)
      else
        (let d1 = setFile temp (Some []) (called d);
             written = min (os_written os (dk_calls d1)) (nat (int (length text) mod 4294967296));
             ok = os_ok os (dk_calls d1);
             d2 = setFile temp (Some (take written text)) (called d1)
         in if \<not> ok \<or> written \<noteq> length text then (False, snd (deleteFile os temp d2))
            else (case moveFile os temp path d2 of (moved, d3) \<Rightarrow>
              if moved then (True, d3) else (False, snd (deleteFile os temp d3)))))"

definition refreshRows :: "SettingDef list \<Rightarrow> moved \<Rightarrow> SettingsModel \<Rightarrow> SettingsModel" where
  "refreshRows defs mvs m = m\<lparr>sm_rows := map (rowOf mvs (sm_text m)) defs\<rparr>"

definition settingsLoad :: "Os \<Rightarrow> SettingDef list \<Rightarrow> moved \<Rightarrow> string \<Rightarrow> SettingsModel \<Rightarrow> Disk \<Rightarrow> SettingsModel \<times> Disk" where
  "settingsLoad os defs mvs gameDir m d =
     (let path = joinPath gameDir ''edvr.ini'' in
      case readTextFile os path d of (text, d1) \<Rightarrow>
        (refreshRows defs mvs (m\<lparr>sm_gameDir := gameDir, sm_backedUp := False, sm_iniPath := path, sm_text := text,
           sm_loaded := True, sm_error := []\<rparr>), d1))"

definition settingsBackup :: "Os \<Rightarrow> string \<Rightarrow> SettingsModel \<Rightarrow> Disk \<Rightarrow> SettingsModel \<times> Disk" where
  "settingsBackup os stamp m d =
     (if sm_backedUp m then (m, d)
      else
        (let backupDir = joinPath (backupRootPath (sm_gameDir m)) (''settings-'' @ stamp) in
         case ensureBackupDir os backupDir d of (ok, d1) \<Rightarrow>
           (m\<lparr>sm_backedUp := True\<rparr>,
            if ok then snd (copyFile os (sm_iniPath m) (joinPath backupDir ''edvr.ini'') d1) else d1)))"

definition settingsSet ::
  "Os \<Rightarrow> SettingDef list \<Rightarrow> moved \<Rightarrow> string \<Rightarrow> nat \<Rightarrow> string \<Rightarrow> SettingsModel \<Rightarrow> Disk \<Rightarrow> bool \<times> SettingsModel \<times> Disk" where
  "settingsSet os defs mvs stamp index value m d =
     (if length (sm_rows m) \<le> index then (False, m, d)
      else
        (let dotted = defName (rw_def (sm_rows m ! index)) in
         case readTextFile os (sm_iniPath m) d of (source, d1) \<Rightarrow>
           let m1 = m\<lparr>sm_text := source\<rparr> in
           if source = [] then (False, m1\<lparr>sm_error := ''edvr.ini is not there yet -- install EDVR into this folder first.''\<rparr>, d1)
           else
             (case settingsBackup os stamp m1 d1 of (m2, d2) \<Rightarrow>
                let updated = fst (mergeIni source source (Some source) [(dotted, value)]) in
                case writeWhole os (sm_iniPath m) updated d2 of (ok, d3) \<Rightarrow>
                  if \<not> ok
                  then (False, m2\<lparr>sm_error := ''Could not write edvr.ini. If the game folder is under Program Files, run the installer as administrator.''\<rparr>, d3)
                  else (True, refreshRows defs mvs (m2\<lparr>sm_text := updated, sm_error := []\<rparr>), d3))))"

end
