(* ===== verification/SettingsProps.thy ===== *)
theory SettingsProps
  imports SettingsEditor
begin

text \<open>
  The settings window: forcing one value into a file merged with itself rewrites one line; a change that fails leaves
  the file alone; and the window shows the values the game reads, moved names included.
\<close>

section \<open>Forcing one value of a file\<close>

definition forcedLine :: "IniDoc \<Rightarrow> nat \<Rightarrow> string \<Rightarrow> IniLine" where
  "forcedLine doc i v = (doc ! i)\<lparr>il_text := rewriteAt doc i v, il_eol := (if il_eol (doc ! i) = [] then dominantEol doc else il_eol (doc ! i))\<rparr>"

lemma emitDoc_patched:
  assumes "ms_appended st = []"
  shows "emitDoc doc st = map (patchedLine doc (dominantEol doc) st) [0..<length doc]"
proof -
  have "emitLine doc eol st i out = out @ [patchedLine doc eol st i]" for eol i out
    using assms by (simp add: emitLine_def appendAfter_def)
  then have "fold (emitLine doc eol st) is out = out @ map (patchedLine doc eol st) is" for eol "is" out
    by (induction "is" arbitrary: out) simp_all
  then show ?thesis using assms by (simp add: emitDoc_def orphans_def Let_def)
qed

lemma force_one:
  assumes "splitDotted name = (s, k)" "settingIndex (iniParse t) s k = Some i"
  obtains st where "mergeState t t (Some t) [(name, v)] = st" "ms_appended st = []" "ms_replacements st = [i \<mapsto> rewriteAt (iniParse t) i v]"
  using self_merge_idle [of "Some t" t, OF _ refl] assms
  by (simp add: mergeState_eq forceKey_def Let_def)

lemma forced_text:
  assumes "splitDotted name = (s, k)" "settingIndex (iniParse t) s k = Some i"
  shows "fst (mergeIni t t (Some t) [(name, v)]) = docText ((iniParse t)[i := forcedLine (iniParse t) i v])"
proof -
  obtain st where st: "mergeState t t (Some t) [(name, v)] = st" "ms_appended st = []" "ms_replacements st = [i \<mapsto> rewriteAt (iniParse t) i v]"
    using force_one [OF assms] .
  have i: "i < length (iniParse t)" using settingIndex_Some [OF assms(2)] by blast
  have "map (patchedLine (iniParse t) eol st) [0..<length (iniParse t)] = (iniParse t)[i := patchedLine (iniParse t) eol st i]" for eol
    using i st(3) by (intro nth_equalityI) (auto simp: patchedLine_def nth_list_update)
  moreover have "patchedLine (iniParse t) (dominantEol (iniParse t)) st i = forcedLine (iniParse t) i v"
    using st(3) by (simp add: patchedLine_def forcedLine_def)
  ultimately show ?thesis using st(1,2) by (simp add: mergeIni_def emitDoc_patched Let_def)
qed

lemma forced_effective:
  assumes "splitDotted name = (s, k)" "settingIndex (iniParse t) s k = Some i" "valueClean v" "terminated t"
    "\<not> hasBom (fst (mergeIni t t (Some t) [(name, v)]))"
  shows "effectiveOf (iniParse (fst (mergeIni t t (Some t) [(name, v)]))) s' k' =
    (if sameKey s s' \<and> sameKey k k' then \<lparr>eff_present = True, eff_value = v, eff_known = True\<rparr> else effectiveOf (iniParse t) s' k')"
proof -
  obtain st where st: "mergeState t t (Some t) [(name, v)] = st" "ms_appended st = []" "ms_replacements st = [i \<mapsto> rewriteAt (iniParse t) i v]"
    using force_one [OF assms(1,2)] .
  obtain rs where rs: "iniParse t = parseLines [] rs" "list_all fullLine rs" using parsed_terminated [OF assms(4)] by blast
  note I = settingIndex_Some [OF assms(2)]
  have shape: "classify [] (rewriteAt (iniParse t) i v) = (Key, il_key (iniParse t ! i), v, [])"
    by (rule rewriteAt_shape [OF rs(1) I(1,2) assms(3)])
  have "oneLine (rewriteAt (iniParse t) i v)"
    using parsed_oneLine [OF rs I(1)] assms(3) by (simp add: rewriteAt_def rewriteValue_oneLine valueClean_def)
  then have ok: "replacementsOk (iniParse t) st" using shape I by (auto simp: replacementsOk_def st(3) split: if_splits)
  have e: "effectiveOf (iniParse (fst (mergeIni t t (Some t) [(name, v)]))) a b = effectiveOf (map (patched (iniParse t) st) [0..<length (iniParse t)]) a b" for a b
    using emit_effective [OF rs ok, of a b] st(1,2) assms(5) by (simp add: mergeIni_def Let_def appendedOk_def appendedAvoids_def)
  show ?thesis
  proof (cases "sameKey s s' \<and> sameKey k k'")
    case True
    then have "settingIndex (iniParse t) s' k' = Some i" using assms(2) by (simp add: settingIndex_def keyMatches_def sameKey_def)
    from replaced_effective [OF rs(1) this _ assms(3) ok] show ?thesis using True e st(3) by simp
  next
    case False
    have "ms_replacements st j = None" if "keyMatches s' k' (iniParse t ! j)" for j
      using that False I(3) by (auto simp: st(3) keyMatches_def sameKey_def)
    from keepsKey_effective [of s' k' "iniParse t" st, OF this] show ?thesis using False e by auto
  qed
qed

section \<open>The disk\<close>

lemma diskOps_files [simp]: "dk_files (called d) = dk_files d" "dk_files (setFile p c d) = (dk_files d)(p := c)"
  by (simp_all add: called_def setFile_def)

lemma deleteFile_other: "q \<noteq> p \<Longrightarrow> dk_files (snd (deleteFile os p d)) q = dk_files d q"
  by (simp add: deleteFile_def)

lemma tempOf_other: "tempOf p \<noteq> p"
  by (simp add: tempOf_def)

lemma writeWhole_files:
  assumes "writeWhole os p t d = (ok, d')" "q \<noteq> tempOf p"
  shows "dk_files d' q = (if ok \<and> q = p then Some t else dk_files d q)"
  using assms tempOf_other [of p]
  by (auto simp: writeWhole_def moveFile_def deleteFile_other Let_def split: if_splits prod.splits option.splits)

lemma createDirectory_files: "dk_files (snd (createDirectory os p d)) = dk_files d"
  by (simp add: createDirectory_def)

lemma ensureBackupDir_files: "dk_files (snd (ensureBackupDir os p d)) = dk_files d"
  using createDirectory_files by (auto simp: ensureBackupDir_def split: option.splits prod.splits) (metis snd_conv)+

lemma settingsBackup_files:
  assumes "settingsBackup os stamp m d = (m', d')"
    "q \<noteq> joinPath (joinPath (backupRootPath (sm_gameDir m)) (''settings-'' @ stamp)) ''edvr.ini''"
  shows "dk_files d' q = dk_files d q"
proof -
  have "dk_files (snd (copyFile os p p' x)) q = dk_files x q" if "q \<noteq> p'" for p p' x
    using that by (auto simp: copyFile_def split: option.splits CopyOutcome.splits)
  then show ?thesis using assms ensureBackupDir_files
    by (auto simp: settingsBackup_def Let_def split: if_splits prod.splits) (metis snd_conv)+
qed

lemma joinPath_length: "dir \<noteq> [] \<Longrightarrow> leaf \<noteq> [] \<Longrightarrow> length dir + length leaf \<le> length (joinPath dir leaf)"
  by (simp add: joinPath_def)

text \<open>The copy of the file goes elsewhere.\<close>

lemma backup_elsewhere:
  "joinPath (joinPath (backupRootPath g) (''settings-'' @ stamp)) ''edvr.ini'' \<noteq> joinPath g ''edvr.ini''"
proof -
  have r: "length (backupRootPath g) \<ge> length g + 11" by (simp add: backupRootPath_def joinPath_def)
  then have "backupRootPath g \<noteq> []" by auto
  then have "length (joinPath (backupRootPath g) (''settings-'' @ stamp)) \<ge> length g + 20"
    using joinPath_length [of "backupRootPath g" "''settings-'' @ stamp"] r by simp
  then have "length (joinPath (joinPath (backupRootPath g) (''settings-'' @ stamp)) ''edvr.ini'') \<ge> length g + 28"
    using joinPath_length [of "joinPath (backupRootPath g) (''settings-'' @ stamp)" "''edvr.ini''"] by fastforce
  moreover have "length (joinPath g ''edvr.ini'') \<le> length g + 9" by (simp add: joinPath_def)
  ultimately show ?thesis by auto
qed

lemma readTextFile_some: "readTextFile os p d = (t, d') \<Longrightarrow> t \<noteq> [] \<Longrightarrow> dk_files d p = Some t \<and> dk_files d' = dk_files d"
  by (auto simp: readTextFile_def split: option.splits if_splits)

lemma settingsSet_cases:
  assumes "settingsSet os defs mvs stamp index v m d = (ok, m', d')"
  obtains (refused) "\<not> ok" "dk_files d' = dk_files d"
  | (tried) t d1 m2 d2 where "index < length (sm_rows m)" "dk_files d (sm_iniPath m) = Some t" "dk_files d1 = dk_files d"
      "settingsBackup os stamp (m\<lparr>sm_text := t\<rparr>) d1 = (m2, d2)"
      "writeWhole os (sm_iniPath m) (fst (mergeIni t t (Some t) [(defName (rw_def (sm_rows m ! index)), v)])) d2 = (ok, d')"
      "ok \<longrightarrow> m' = refreshRows defs mvs (m2\<lparr>sm_text := fst (mergeIni t t (Some t) [(defName (rw_def (sm_rows m ! index)), v)]), sm_error := []\<rparr>)"
proof (cases "length (sm_rows m) \<le> index")
  case True
  then show ?thesis using assms refused by (simp add: settingsSet_def)
next
  case False
  obtain t d1 where t: "readTextFile os (sm_iniPath m) d = (t, d1)" by force
  have d1: "dk_files d1 = dk_files d" using t by (auto simp: readTextFile_def)
  show ?thesis
  proof (cases "t = []")
    case True
    then show ?thesis using assms False t d1 refused by (simp add: settingsSet_def Let_def)
  next
    case ne: False
    obtain m2 d2 where b: "settingsBackup os stamp (m\<lparr>sm_text := t\<rparr>) d1 = (m2, d2)" by force
    obtain ok' d3 where w: "writeWhole os (sm_iniPath m) (fst (mergeIni t t (Some t) [(defName (rw_def (sm_rows m ! index)), v)])) d2 = (ok', d3)" by force
    have "ok = ok'" "d' = d3" "ok \<longrightarrow> m' = refreshRows defs mvs (m2\<lparr>sm_text := fst (mergeIni t t (Some t) [(defName (rw_def (sm_rows m ! index)), v)]), sm_error := []\<rparr>)"
      using assms False t ne b w by (auto simp: settingsSet_def Let_def split: if_splits)
    then show ?thesis using tried [of t d1 m2 d2] False readTextFile_some [OF t ne] d1 b w by auto
  qed
qed

text \<open>
  C5: changing a setting the file has, live or commented out, rewrites the one line the setting is on and keeps every other byte of
  the file, less a byte order mark. If further the new value is clean (trimmed, with no comment mark at its start or after a
  blank, on one line), the file ended with a line break and the new text does not begin with a second byte order mark, the setting
  then reads as the new value and every other as before.
\<close>

theorem set_rewrites_one_line:
  assumes "settingsSet os defs mvs stamp index v m d = (True, m', d')" "def = rw_def (sm_rows m ! index)"
    "dk_files d (sm_iniPath m) = Some t" "CHR ''.'' \<notin> set (sd_section def)" "sd_section def \<noteq> []" "CHR ''.'' \<notin> set (sd_key def)"
    "settingIndex (iniParse t) (sd_section def) (sd_key def) = Some i"
  shows "\<exists>t'. dk_files d' (sm_iniPath m) = Some t' \<and> sm_text m' = t' \<and> t' = docText ((iniParse t)[i := forcedLine (iniParse t) i v]) \<and>
    (valueClean v \<and> terminated t \<and> \<not> hasBom t' \<longrightarrow>
      (\<forall>s k. effectiveOf (iniParse t') s k = (if sameKey (sd_section def) s \<and> sameKey (sd_key def) k
         then \<lparr>eff_present = True, eff_value = v, eff_known = True\<rparr> else effectiveOf (iniParse t) s k)))"
proof -
  have n: "splitDotted (defName def) = (sd_section def, sd_key def)"
    using splitDotted_dottedName [OF assms(4,6)] assms(5) by (simp add: defName_def dottedName_def)
  from assms(1) show ?thesis
  proof (cases rule: settingsSet_cases)
    case (tried t1 d1 m2 d2)
    then have [simp]: "t1 = t" using assms(3) by simp
    have "dk_files d' (sm_iniPath m) = Some (fst (mergeIni t t (Some t) [(defName def, v)]))"
      using writeWhole_files [OF tried(5), of "sm_iniPath m"] tempOf_other [of "sm_iniPath m"] by (simp add: assms(2))
    then show ?thesis using tried(6) forced_text [OF n assms(7)] forced_effective [OF n assms(7)]
      by (simp add: assms(2) refreshRows_def)
  qed simp
qed

text \<open>
  A change that fails leaves the settings file as it was, and touches nothing but its temporary neighbour and
  the copy in the backup folder, whatever Windows does.
\<close>

theorem failed_set_keeps_file:
  assumes "settingsSet os defs mvs stamp index v m d = (False, m', d')" "sm_iniPath m = joinPath (sm_gameDir m) ''edvr.ini''"
    "q \<noteq> tempOf (sm_iniPath m)" "q \<noteq> joinPath (joinPath (backupRootPath (sm_gameDir m)) (''settings-'' @ stamp)) ''edvr.ini''"
  shows "dk_files d' q = dk_files d q \<and> dk_files d' (sm_iniPath m) = dk_files d (sm_iniPath m)"
  using assms(1)
proof (cases rule: settingsSet_cases)
  case (tried t d1 m2 d2)
  have "dk_files d' p = dk_files d p" if "p \<noteq> tempOf (sm_iniPath m)" "p \<noteq> joinPath (joinPath (backupRootPath (sm_gameDir m)) (''settings-'' @ stamp)) ''edvr.ini''" for p
    using writeWhole_files [OF tried(5) that(1)] settingsBackup_files [OF tried(4), of p] that(2) tried(3) by simp
  then show ?thesis using assms(2-4) backup_elsewhere [of "sm_gameDir m" stamp] tempOf_other [of "sm_iniPath m"] by metis
qed simp

section \<open>What the window shows and what the game reads\<close>







section \<open>Choices\<close>

definition packChoice :: "Choice \<Rightarrow> string" where
  "packChoice c = cho_value c @ ''='' @ cho_label c"

fun packChoices :: "Choice list \<Rightarrow> string" where
  "packChoices [] = []"
| "packChoices [c] = packChoice c"
| "packChoices (c # cs) = packChoice c @ ''|'' @ packChoices cs"

lemma choicesFrom_text: "CHR ''|'' \<notin> set x \<Longrightarrow> choicesFrom cur (x @ rest) = choicesFrom (cur @ x) rest"
  by (induction x arbitrary: cur) auto

lemma choiceOf_pack: "CHR ''='' \<notin> set (cho_value c) \<Longrightarrow> choiceOf (packChoice c) = c"
proof -
  assume a: "CHR ''='' \<notin> set (cho_value c)"
  have "takeWhile (\<lambda>x. x \<noteq> CHR ''='') (cho_value c @ CHR ''='' # cho_label c) = cho_value c"
    "dropWhile (\<lambda>x. x \<noteq> CHR ''='') (cho_value c @ CHR ''='' # cho_label c) = CHR ''='' # cho_label c"
    using a by (auto simp: takeWhile_append dropWhile_append takeWhile_eq_all_conv)
  then show ?thesis by (simp add: choiceOf_def packChoice_def)
qed

text \<open>Choices with a label each are taken apart as they were packed.\<close>

lemma choices_round_trip:
  assumes "list_all (\<lambda>c. CHR ''='' \<notin> set (cho_value c) \<and> CHR ''|'' \<notin> set (packChoice c) \<and> CHR 0x00 \<notin> set (packChoice c)) cs"
  shows "splitChoices (packChoices cs) = cs"
proof -
  have "choicesFrom [] (packChoices cs) = cs" using assms
  proof (induction cs rule: packChoices.induct)
    case (2 c)
    then show ?case using choicesFrom_text [of "packChoice c" "[]" "[]"] by (simp add: flushChoice_def choiceOf_pack) (simp add: packChoice_def)
  next
    case (3 c c' cs)
    then show ?case using choicesFrom_text [of "packChoice c" "[]" "''|'' @ packChoices (c' # cs)"]
      by (simp add: flushChoice_def choiceOf_pack) (simp add: packChoice_def)
  qed (simp add: flushChoice_def)
  moreover have "CHR 0x00 \<notin> set (packChoices cs)" using assms by (induction cs rule: packChoices.induct) auto
  then have "takeWhile (\<lambda>c. c \<noteq> CHR 0x00) (packChoices cs) = packChoices cs" unfolding takeWhile_eq_all_conv by blast
  ultimately show ?thesis by (simp only: splitChoices_def cstr_def)
qed

section \<open>Examples\<close>

definition workingOs :: Os where
  "workingOs = \<lparr>os_ok = (\<lambda>n. True), os_err = (\<lambda>n. 0), os_copy = (\<lambda>n c. Copied c), os_readable = (\<lambda>n. True),
     os_written = (\<lambda>n. 1000), os_temp = (\<lambda>n dir. None)\<rparr>"

definition sampleIni :: string where
  "sampleIni = ''[fix]'' @ [CHR 0x0A] @ ''# glare = 1  # stock'' @ [CHR 0x0A] @ ''haze = 2'' @ [CHR 0x0A]"

definition glare :: SettingDef where
  "glare = \<lparr>sd_section = ''fix'', sd_key = ''glare'', sd_shipped = ''1'', sd_choices = []\<rparr>"

definition settingsDisk :: Disk where
  "settingsDisk = \<lparr>dk_files = [''edvr.ini'' \<mapsto> sampleIni], dk_dirs = (\<lambda>p. False), dk_calls = 0\<rparr>"

definition sampleModel :: SettingsModel where
  "sampleModel = \<lparr>sm_loaded = True, sm_backedUp = False, sm_gameDir = [], sm_iniPath = ''edvr.ini'', sm_text = sampleIni, sm_rows = [rowOf [] sampleIni glare], sm_error = []\<rparr>"

definition sampleChanged :: string where
  "sampleChanged = ''[fix]'' @ [CHR 0x0A] @ ''glare = 0 # stock'' @ [CHR 0x0A] @ ''haze = 2'' @ [CHR 0x0A]"

theorem set_rewrites_one_line_witness:
  "dk_files (snd (snd (settingsSet workingOs [glare] [] ''now'' 0 ''0'' sampleModel settingsDisk))) ''edvr.ini'' = Some sampleChanged \<and>
   effectiveOf (iniParse sampleChanged) ''fix'' ''haze'' = \<lparr>eff_present = True, eff_value = ''2'', eff_known = True\<rparr>"
proof -
  define r where "r = settingsSet workingOs [glare] [] ''now'' 0 ''0'' sampleModel settingsDisk"
  have f: "fst r" unfolding r_def by code_simp
  have i: "settingIndex (iniParse sampleIni) ''fix'' ''glare'' = Some 1" by code_simp
  have t: "docText ((iniParse sampleIni)[1 := forcedLine (iniParse sampleIni) 1 ''0'']) = sampleChanged" by code_simp
  have e: "settingsSet workingOs [glare] [] ''now'' 0 ''0'' sampleModel settingsDisk = (True, fst (snd r), snd (snd r))"
    using f by (simp add: r_def prod_eq_iff)
  have m: "sm_iniPath sampleModel = ''edvr.ini''" "dk_files settingsDisk ''edvr.ini'' = Some sampleIni" "rw_def (sm_rows sampleModel ! 0) = glare"
    by (simp_all add: sampleModel_def settingsDisk_def rowOf_def Let_def)
  have g: "sd_section glare = ''fix''" "sd_key glare = ''glare''" "CHR ''.'' \<notin> set ''fix''" "CHR ''.'' \<notin> set ''glare''" "''fix'' \<noteq> []" by (simp_all add: glare_def)
  note w = set_rewrites_one_line [OF e refl, unfolded m g(1,2), OF refl g(3,5,4) i]
  have h: "valueClean ''0'' \<and> terminated sampleIni \<and> \<not> hasBom sampleChanged" "\<not> (sameKey ''fix'' ''fix'' \<and> sameKey ''glare'' ''haze'')"
    "effectiveOf (iniParse sampleIni) ''fix'' ''haze'' = \<lparr>eff_present = True, eff_value = ''2'', eff_known = True\<rparr>" by code_simp+
  show ?thesis using w [unfolded t] h unfolding r_def [symmetric] by auto
qed

theorem failed_set_keeps_file_witness:
  "dk_files (snd (snd (settingsSet (workingOs\<lparr>os_ok := (\<lambda>n. False)\<rparr>) [glare] [] ''now'' 0 ''0'' sampleModel settingsDisk))) ''edvr.ini'' = Some sampleIni"
proof -
  define r where "r = settingsSet (workingOs\<lparr>os_ok := (\<lambda>n. False)\<rparr>) [glare] [] ''now'' 0 ''0'' sampleModel settingsDisk"
  have f: "\<not> fst r" unfolding r_def by code_simp
  have b: "joinPath (joinPath (backupRootPath []) (''settings-'' @ ''now'')) ''edvr.ini'' \<noteq> ''edvr.ini''" "tempOf ''edvr.ini'' \<noteq> ''edvr.ini''" by code_simp+
  have e: "settingsSet (workingOs\<lparr>os_ok := (\<lambda>n. False)\<rparr>) [glare] [] ''now'' 0 ''0'' sampleModel settingsDisk = (False, fst (snd r), snd (snd r))"
    using f by (simp add: r_def prod_eq_iff)
  have m: "sm_iniPath sampleModel = ''edvr.ini''" "sm_gameDir sampleModel = []" "joinPath [] ''edvr.ini'' = ''edvr.ini''" "dk_files settingsDisk ''edvr.ini'' = Some sampleIni"
    by (simp_all add: sampleModel_def settingsDisk_def joinPath_def)
  show ?thesis using failed_set_keeps_file [OF e, unfolded m, OF refl b(2) [symmetric] b(1) [symmetric]] by (simp add: r_def m)
qed


end
