(* ===== verification/HeadsetEntries.thy ===== *)
theory HeadsetEntries
  imports GameConfig
begin

text \<open>
  \<^verbatim>\<open>src/common/openxr_resolution_entries.h\<close>: settings kept per headset, as a list of \<^verbatim>\<open>runtime/system:value\<close> entries. The
  sanitiser of names, the grammar, the matching rule, and the rewriting of a list by the in-headset menu. A null
  pointer is not modelled; the conversions of a width to a scale are floating point and are left out.
\<close>

section \<open>Names\<close>

definition kHeadsetTokenMax :: nat where "kHeadsetTokenMax = 30"
definition kHeadsetEntryMax :: nat where "kHeadsetEntryMax = 8"
definition kResolutionWidthMin :: u32 where "kResolutionWidthMin = 1"
definition kResolutionWidthMax :: u32 where "kResolutionWidthMax = 16384"
definition kTrimDegreesMax :: u32 where "kTrimDegreesMax = 30"

abbreviation dash :: char where "dash \<equiv> CHR ''-''"

definition isDigit :: "char \<Rightarrow> bool" where
  "isDigit c \<longleftrightarrow> of_char c \<in> {48..57 :: nat}"

definition tokenChar :: "char \<Rightarrow> bool" where
  "tokenChar c \<longleftrightarrow> of_char c \<in> {65..90 :: nat} \<or> of_char c \<in> {97..122 :: nat} \<or> isDigit c"

fun tokenScan :: "bool \<Rightarrow> string \<Rightarrow> string \<Rightarrow> string" where
  "tokenScan pendingDash out [] = out"
| "tokenScan pendingDash out (c # cs) =
     (if tokenChar c then tokenScan False ((if pendingDash \<and> out \<noteq> [] then out @ [dash] else out) @ [to_lower c]) cs
      else tokenScan True out cs)"

definition headsetTokenOf :: "nat \<Rightarrow> string \<Rightarrow> string" where
  "headsetTokenOf maxBytes raw =
     rev (dropWhile (\<lambda>c. c = dash) (rev (take kHeadsetTokenMax (tokenScan False [] (cstr (take maxBytes raw))))))"

definition headsetToken :: "string \<Rightarrow> string" where
  "headsetToken raw = headsetTokenOf (length raw) raw"

definition headsetKey :: "string \<Rightarrow> string \<Rightarrow> string" where
  "headsetKey runtimeToken systemToken = (if systemToken = [] then runtimeToken else runtimeToken @ ''/'' @ systemToken)"

section \<open>The grammar\<close>

record HeadsetEntry =
  he_runtime :: string
  he_system :: string
  he_value :: u32

definition trimSpaces :: "string \<Rightarrow> string" where
  "trimSpaces text = rev (dropWhile is_blank (rev (dropWhile is_blank text)))"

definition entryDigits :: "string \<Rightarrow> u32" where
  "entryDigits = foldl (\<lambda>v c. v * 10 + of_nat (of_char c - 48)) 0"

definition parseHeadsetEntry :: "string \<Rightarrow> u32 \<Rightarrow> u32 \<Rightarrow> HeadsetEntry option" where
  "parseHeadsetEntry entryText min' max' =
     (let text = trimSpaces entryText in
      if CHR '':'' \<notin> set text then None
      else
        (let digits = trimSpaces (rev (takeWhile (\<lambda>c. c \<noteq> CHR '':'') (rev text)));
             head = rev (tl (dropWhile (\<lambda>c. c \<noteq> CHR '':'') (rev text)))
         in if digits = [] \<or> 5 < length digits \<or> \<not> list_all isDigit digits then None
            else
              (let value = entryDigits digits in
               if value < min' \<or> max' < value then None
               else if CHR ''/'' \<notin> set head
               then (let rt = headsetToken (trimSpaces head) in
                     if rt = [] then None else Some \<lparr>he_runtime = rt, he_system = [], he_value = value\<rparr>)
               else (let rt = headsetToken (trimSpaces (takeWhile (\<lambda>c. c \<noteq> CHR ''/'') head));
                         sys = headsetToken (trimSpaces (tl (dropWhile (\<lambda>c. c \<noteq> CHR ''/'') head)))
                     in if sys = [] \<or> rt = [] then None else Some \<lparr>he_runtime = rt, he_system = sys, he_value = value\<rparr>))))"

text \<open>The pieces between commas, the last one included.\<close>

fun splitCommas :: "string \<Rightarrow> string list" where
  "splitCommas [] = [[]]"
| "splitCommas (c # cs) = (if c = CHR '','' then [] # splitCommas cs else (c # hd (splitCommas cs)) # tl (splitCommas cs))"

definition takePiece :: "u32 \<Rightarrow> u32 \<Rightarrow> HeadsetEntry list \<times> string list \<Rightarrow> string \<Rightarrow> HeadsetEntry list \<times> string list" where
  "takePiece min' max' st p =
     (case st of (out, skipped) \<Rightarrow>
      let typed = trimSpaces p in
      if typed = [] then (out, skipped)
      else case parseHeadsetEntry typed min' max' of
        None \<Rightarrow> (out, skipped @ [typed])
      | Some entry \<Rightarrow> if kHeadsetEntryMax \<le> length out then (out, skipped @ [typed]) else (out @ [entry], skipped))"

definition parseHeadsetEntries :: "string \<Rightarrow> u32 \<Rightarrow> u32 \<Rightarrow> HeadsetEntry list \<times> string list" where
  "parseHeadsetEntries value min' max' = foldl (takePiece min' max') ([], []) (splitCommas (cstr value))"

section \<open>The matching rule\<close>

definition resolveHeadsetValue :: "HeadsetEntry list \<Rightarrow> string \<Rightarrow> string \<Rightarrow> u32 \<times> nat" where
  "resolveHeadsetValue entries rt sys =
     (if rt = [] then (0, 0)
      else case (if sys \<noteq> [] then find (\<lambda>e. he_runtime e = rt \<and> he_system e = sys) entries else None) of
        Some e \<Rightarrow> (he_value e, 1)
      | None \<Rightarrow>
          (case find (\<lambda>e. he_runtime e = rt \<and> he_system e = []) entries of
             Some e \<Rightarrow> (he_value e, 2)
           | None \<Rightarrow> (0, 0)))"

section \<open>Writing a list\<close>

definition formatHeadsetEntry :: "HeadsetEntry \<Rightarrow> string" where
  "formatHeadsetEntry entry = headsetKey (he_runtime entry) (he_system entry) @ '':'' @ showNat (unat (he_value entry))"

fun formatHeadsetEntries :: "HeadsetEntry list \<Rightarrow> string" where
  "formatHeadsetEntries [] = []"
| "formatHeadsetEntries [e] = formatHeadsetEntry e"
| "formatHeadsetEntries (e # es) = formatHeadsetEntry e @ '', '' @ formatHeadsetEntries es"

text \<open>The loop of \<^verbatim>\<open>mergeHeadsetEntry\<close>: the entries kept, and whether the key was placed.\<close>

fun keepEntries :: "string \<Rightarrow> string \<Rightarrow> u32 \<Rightarrow> bool \<Rightarrow> HeadsetEntry list \<Rightarrow> HeadsetEntry list \<times> bool" where
  "keepEntries rt sys value placed [] = ([], placed)"
| "keepEntries rt sys value placed (e # es) =
     (if he_runtime e = rt \<and> he_system e = sys
      then if placed then keepEntries rt sys value placed es
           else (case keepEntries rt sys value True es of (kept, p) \<Rightarrow> (e\<lparr>he_value := value\<rparr> # kept, p))
      else (case keepEntries rt sys value placed es of (kept, p) \<Rightarrow> (e # kept, p)))"

definition mergeHeadsetEntry :: "string \<Rightarrow> string \<Rightarrow> string \<Rightarrow> u32 \<Rightarrow> u32 \<Rightarrow> u32 \<Rightarrow> string option" where
  "mergeHeadsetEntry list rt sys value min' max' =
     (if rt = [] \<or> value < min' \<or> max' < value then None
      else case keepEntries rt sys value False (fst (parseHeadsetEntries list min' max')) of (kept, placed) \<Rightarrow>
        if placed then Some (formatHeadsetEntries kept)
        else if kHeadsetEntryMax \<le> length kept then None
        else Some (formatHeadsetEntries (kept @ [\<lparr>he_runtime = rt, he_system = sys, he_value = value\<rparr>])))"

definition removeHeadsetEntry :: "string \<Rightarrow> string \<Rightarrow> string \<Rightarrow> u32 \<Rightarrow> u32 \<Rightarrow> string" where
  "removeHeadsetEntry list rt sys min' max' =
     formatHeadsetEntries (filter (\<lambda>e. \<not> (he_runtime e = rt \<and> he_system e = sys)) (fst (parseHeadsetEntries list min' max')))"

section \<open>Render widths\<close>

definition parseResolutionEntries :: "string \<Rightarrow> HeadsetEntry list \<times> string list" where
  "parseResolutionEntries value = parseHeadsetEntries value kResolutionWidthMin kResolutionWidthMax"

definition resolveResolutionWidth :: "HeadsetEntry list \<Rightarrow> string \<Rightarrow> string \<Rightarrow> u32 \<times> nat" where
  "resolveResolutionWidth entries rt sys = resolveHeadsetValue entries rt sys"

definition mergeResolutionEntry :: "string \<Rightarrow> string \<Rightarrow> string \<Rightarrow> u32 \<Rightarrow> string option" where
  "mergeResolutionEntry list rt sys width = mergeHeadsetEntry list rt sys width kResolutionWidthMin kResolutionWidthMax"

definition removeResolutionEntry :: "string \<Rightarrow> string \<Rightarrow> string \<Rightarrow> string" where
  "removeResolutionEntry list rt sys = removeHeadsetEntry list rt sys kResolutionWidthMin kResolutionWidthMax"

end
