(* ===== verification/HeadsetProps.thy ===== *)
theory HeadsetProps
  imports HeadsetEntries
begin

text \<open>
  Names sanitise to themselves, lists of entries read back as they were written, and the entry the menu merges into a
  list is the one the game resolves for that headset.
\<close>

section \<open>Tokens\<close>

definition tidyChar :: "char \<Rightarrow> bool" where
  "tidyChar c \<longleftrightarrow> tokenChar c \<and> to_lower c = c"

definition noPair :: "string \<Rightarrow> bool" where
  "noPair = successively (\<lambda>a b. a \<noteq> dash \<or> b \<noteq> dash)"

text \<open>What the sanitiser makes: lowercase letters, digits and single dashes inside, thirty at most.\<close>

definition tokenText :: "string \<Rightarrow> bool" where
  "tokenText s \<longleftrightarrow> list_all (\<lambda>c. tidyChar c \<or> c = dash) s \<and> noPair s \<and> (s \<noteq> [] \<longrightarrow> hd s \<noteq> dash \<and> last s \<noteq> dash) \<and> length s \<le> 30"

lemma not_tokenChar: "\<not> tokenChar dash" "\<not> tokenChar (CHR '':'')" "\<not> tokenChar (CHR ''/'')" "\<not> tokenChar (CHR '','')" "\<not> tokenChar (CHR '' '')"
    "\<not> tokenChar (CHR 0x09)" "\<not> tokenChar (CHR 0x00)"
  by (simp_all add: tokenChar_def isDigit_def)

lemma of_char_to_lower: "of_char (to_lower c) = (if of_char c \<in> {65..90 :: nat} then of_char c + 32 else (of_char c :: nat))"
  by (auto simp: to_lower_def Let_def of_char_of)

lemma tidy_lower: "tokenChar c \<Longrightarrow> tidyChar (to_lower c) \<and> to_lower c \<noteq> dash"
proof -
  assume t: "tokenChar c"
  have "tokenChar (to_lower c)" using t by (auto simp: tokenChar_def isDigit_def of_char_to_lower)
  moreover have "to_lower (to_lower c) = to_lower c"
    using of_char_to_lower [of c] by (subst to_lower_def) (auto simp: Let_def split: if_splits)
  ultimately show ?thesis using not_tokenChar(1) by (auto simp: tidyChar_def)
qed

lemma noPair_snoc: "noPair (s @ [c]) \<longleftrightarrow> noPair s \<and> (s = [] \<or> last s \<noteq> dash \<or> c \<noteq> dash)"
  by (auto simp: noPair_def successively_append_iff)

lemma noPair_take: "noPair s \<Longrightarrow> noPair (take n s)"
  by (subst (asm) append_take_drop_id [symmetric, of _ n]) (simp add: noPair_def successively_append_iff del: append_take_drop_id)

text \<open>What the loop has put out so far.\<close>

definition scannedToken :: "string \<Rightarrow> bool" where
  "scannedToken s \<longleftrightarrow> list_all (\<lambda>c. tidyChar c \<or> c = dash) s \<and> noPair s \<and> (s \<noteq> [] \<longrightarrow> hd s \<noteq> dash \<and> last s \<noteq> dash)"

lemma tokenScan_scannedToken: "scannedToken out \<Longrightarrow> scannedToken (tokenScan pd out s)"
proof (induction s arbitrary: pd out)
  case (Cons c s)
  show ?case
  proof (cases "tokenChar c")
    case True
    define o1 where "o1 = (if pd \<and> out \<noteq> [] then out @ [dash] else out)"
    have "scannedToken (o1 @ [to_lower c])"
      using Cons.prems tidy_lower [OF True] by (auto simp: scannedToken_def o1_def noPair_snoc hd_append)
    from Cons.IH [OF this] show ?thesis using True by (simp add: o1_def)
  next
    case False
    then show ?thesis using Cons by simp
  qed
qed simp

lemma tokenScan_tidy:
  assumes "list_all (\<lambda>c. tidyChar c \<or> c = dash) s" "noPair s" "s \<noteq> [] \<longrightarrow> last s \<noteq> dash" "out \<noteq> [] \<or> s = [] \<or> hd s \<noteq> dash"
  shows "tokenScan False out s = out @ s"
  using assms
proof (induction "length s" arbitrary: s out rule: less_induct)
  case less
  show ?case
  proof (cases s)
    case (Cons c cs)
    show ?thesis
    proof (cases "c = dash")
      case False
      then have t: "tokenChar c" "to_lower c = c" using less.prems(1) Cons by (auto simp: tidyChar_def)
      have "tokenScan False (out @ [c]) cs = (out @ [c]) @ cs"
        using less.prems Cons by (intro less.hyps) (auto simp: noPair_def successively_Cons split: if_splits)
      then show ?thesis using t Cons by simp
    next
      case True
      then obtain d ds where cs: "cs = d # ds" using less.prems(3) Cons by (cases cs) auto
      have d: "d \<noteq> dash" using less.prems(2) Cons cs True by (auto simp: noPair_def)
      then have t: "tokenChar d" "to_lower d = d" using less.prems(1) Cons cs by (auto simp: tidyChar_def)
      have "tokenScan False (out @ [dash, d]) ds = (out @ [dash, d]) @ ds"
        using less.prems Cons cs by (intro less.hyps) (auto simp: noPair_def successively_Cons split: if_splits)
      then show ?thesis using t Cons cs True less.prems(4) not_tokenChar(1) by simp
    qed
  qed simp
qed

lemma strip_dash: "s = [] \<or> last s \<noteq> dash \<Longrightarrow> rev (dropWhile (\<lambda>c. c = dash) (rev s)) = s"
  by (cases s rule: rev_cases) auto

lemma headsetToken_tokenText: "tokenText (headsetTokenOf n raw)"
proof -
  define o1 where "o1 = take 30 (tokenScan False [] (cstr (take n raw)))"
  have "scannedToken (tokenScan False [] (cstr (take n raw)))" by (rule tokenScan_scannedToken) (simp add: scannedToken_def noPair_def)
  then have o: "list_all (\<lambda>c. tidyChar c \<or> c = dash) o1" "noPair o1" "o1 \<noteq> [] \<longrightarrow> hd o1 \<noteq> dash" "length o1 \<le> 30"
    using append_take_drop_id [of 30 "tokenScan False [] (cstr (take n raw))"]
    by (auto simp: o1_def scannedToken_def list_all_iff dest: in_set_takeD intro: noPair_take)
  show ?thesis
  proof (cases "o1 \<noteq> [] \<and> last o1 = dash")
    case True
    then obtain b where b: "o1 = b @ [dash]" by (metis append_butlast_last_id)
    have "b \<noteq> []" using o(3) b by auto
    moreover have "last b \<noteq> dash" using o(2) b \<open>b \<noteq> []\<close> by (simp add: noPair_snoc)
    moreover have "noPair b" using o(2) b by (simp add: noPair_snoc)
    ultimately have "tokenText b" using o b by (auto simp: tokenText_def hd_append)
    moreover have "headsetTokenOf n raw = b"
      using strip_dash [of b] b \<open>last b \<noteq> dash\<close> by (simp add: headsetTokenOf_def kHeadsetTokenMax_def o1_def [symmetric])
    ultimately show ?thesis by simp
  next
    case False
    then have "headsetTokenOf n raw = o1" using strip_dash [of o1] by (simp add: headsetTokenOf_def kHeadsetTokenMax_def o1_def [symmetric])
    then show ?thesis using o False by (auto simp: tokenText_def)
  qed
qed

lemma headsetToken_id:
  assumes "tokenText s"
  shows "headsetToken s = s"
proof -
  have "c \<noteq> CHR 0x00" if "c \<in> set s" for c
    using that assms not_tokenChar(7) by (auto simp: tokenText_def list_all_iff tidyChar_def)
  then have "takeWhile (\<lambda>c. c \<noteq> CHR 0x00) s = s" unfolding takeWhile_eq_all_conv by blast
  then have c: "cstr s = s" by (simp only: cstr_def)
  have "tokenScan False [] s = s" using tokenScan_tidy [of s "[]"] assms by (auto simp: tokenText_def)
  moreover have "s = [] \<or> last s \<noteq> dash" "length s \<le> 30" using assms by (auto simp: tokenText_def)
  ultimately show ?thesis using strip_dash [of s] by (simp add: headsetToken_def headsetTokenOf_def c kHeadsetTokenMax_def)
qed


section \<open>Entries\<close>

definition entryOk :: "u32 \<Rightarrow> u32 \<Rightarrow> HeadsetEntry \<Rightarrow> bool" where
  "entryOk mn mx e \<longleftrightarrow> tokenText (he_runtime e) \<and> he_runtime e \<noteq> [] \<and> tokenText (he_system e) \<and> mn \<le> he_value e \<and> he_value e \<le> mx \<and>
     unat (he_value e) < 100000"

lemma trimSpaces_trim: "trimSpaces = trim"
  by (rule ext) (simp add: trimSpaces_def trim_def rtrim_def)

lemma trimSpaces_id: "list_all (\<lambda>c. \<not> is_blank c) s \<Longrightarrow> trimSpaces s = s"
  unfolding trimSpaces_trim by (rule trim_id) (auto simp: list_all_iff)

lemma showNat_small: "n < 10 ^ k \<Longrightarrow> 0 < k \<Longrightarrow> length (showNat n) \<le> k \<and> showNat n \<noteq> [] \<and> list_all isDigit (showNat n)"
proof (induction k arbitrary: n)
  case (Suc k)
  show ?case
  proof (cases "n < 10")
    case True
    then show ?thesis by (auto simp: showNat.simps [of n] isDigit_def of_char_of)
  next
    case False
    have "n div 10 < 10 ^ k" using Suc.prems by (simp add: less_mult_imp_div_less mult.commute)
    moreover have "0 < k" using False Suc.prems by (cases k) auto
    ultimately show ?thesis using Suc.IH [of "n div 10"] False by (simp add: showNat.simps [of n] isDigit_def of_char_of)
  qed
qed simp

lemma entryDigits_showNat: "entryDigits (showNat n) = of_nat n"
proof (induction n rule: showNat.induct)
  case (1 n)
  have d: "of_char (char_of (48 + m) :: char) - 48 = (m :: nat)" if "m < 10" for m using that by (simp add: of_char_of)
  show ?case
  proof (cases "n < 10")
    case True
    then show ?thesis using d [of n] by (simp add: showNat.simps [of n] entryDigits_def)
  next
    case False
    have "entryDigits (showNat n) = entryDigits (showNat (n div 10)) * 10 + of_nat (n mod 10)"
      using False d [of "n mod 10"] by (simp add: showNat.simps [of n] entryDigits_def)
    moreover have "(of_nat n :: u32) = of_nat (n div 10) * 10 + of_nat (n mod 10)"
      by (metis div_mult_mod_eq of_nat_add of_nat_mult of_nat_numeral)
    ultimately show ?thesis using 1 False by simp
  qed
qed

lemma digit_chars: "isDigit c \<Longrightarrow> \<not> is_blank c \<and> c \<noteq> CHR '':'' \<and> c \<noteq> CHR '','' \<and> c \<noteq> CHR 0x00"
  by (auto simp: isDigit_def is_blank_def)

lemma token_chars: "tokenText s \<Longrightarrow> c \<in> set s \<Longrightarrow> \<not> is_blank c \<and> c \<noteq> CHR '':'' \<and> c \<noteq> CHR ''/'' \<and> c \<noteq> CHR '','' \<and> c \<noteq> CHR 0x00"
  using not_tokenChar by (auto simp: tokenText_def list_all_iff tidyChar_def is_blank_def)

lemma format_chars:
  assumes "entryOk mn mx e" "c \<in> set (formatHeadsetEntry e)"
  shows "\<not> is_blank c" "c \<noteq> CHR '',''" "c \<noteq> CHR 0x00"
proof -
  have "list_all isDigit (showNat (unat (he_value e)))" using showNat_small [of "unat (he_value e)" 5] assms(1) by (simp add: entryOk_def)
  then have d: "\<not> is_blank c \<and> c \<noteq> CHR '','' \<and> c \<noteq> CHR 0x00" if "c \<in> set (showNat (unat (he_value e)))" using that digit_chars by (auto simp: list_all_iff)
  have "c \<in> set (he_runtime e) \<or> c \<in> set (he_system e) \<or> c = CHR ''/'' \<or> c = CHR '':'' \<or> c \<in> set (showNat (unat (he_value e)))"
    using assms(2) by (auto simp: formatHeadsetEntry_def headsetKey_def split: if_splits)
  then show "\<not> is_blank c" "c \<noteq> CHR '',''" "c \<noteq> CHR 0x00"
    using d token_chars assms(1) by (auto simp: entryOk_def is_blank_def)
qed

lemma no_comma: "entryOk mn mx e \<Longrightarrow> CHR '','' \<notin> set (formatHeadsetEntry e)"
  using format_chars(2) by blast

lemma split_last_colon:
  assumes "CHR '':'' \<notin> set ds"
  shows "rev (takeWhile (\<lambda>c. c \<noteq> CHR '':'') (rev (h @ '':'' @ ds))) = ds" "rev (tl (dropWhile (\<lambda>c. c \<noteq> CHR '':'') (rev (h @ '':'' @ ds)))) = h"
proof -
  have "takeWhile (\<lambda>c. c \<noteq> CHR '':'') (rev ds @ CHR '':'' # rev h) = rev ds" "dropWhile (\<lambda>c. c \<noteq> CHR '':'') (rev ds @ CHR '':'' # rev h) = CHR '':'' # rev h"
    using assms by (auto simp: takeWhile_append dropWhile_append takeWhile_eq_all_conv)
  then show "rev (takeWhile (\<lambda>c. c \<noteq> CHR '':'') (rev (h @ '':'' @ ds))) = ds" "rev (tl (dropWhile (\<lambda>c. c \<noteq> CHR '':'') (rev (h @ '':'' @ ds)))) = h"
    by simp_all
qed

lemma entry_reads_back:
  assumes "entryOk mn mx e"
  shows "parseHeadsetEntry (formatHeadsetEntry e) mn mx = Some e"
proof -
  define ds where "ds = showNat (unat (he_value e))"
  define h where "h = headsetKey (he_runtime e) (he_system e)"
  have ds: "length ds \<le> 5" "ds \<noteq> []" "list_all isDigit ds" "entryDigits ds = he_value e"
    using showNat_small [of "unat (he_value e)" 5] assms by (simp_all add: entryOk_def ds_def entryDigits_showNat)
  have c: "CHR '':'' \<notin> set ds" using ds(3) digit_chars by (auto simp: list_all_iff)
  have t: "trimSpaces (formatHeadsetEntry e) = h @ '':'' @ ds"
    using trimSpaces_id [of "formatHeadsetEntry e"] format_chars(1) [OF assms] by (simp add: list_all_iff formatHeadsetEntry_def h_def ds_def)
  have td: "trimSpaces ds = ds" using ds(3) digit_chars by (intro trimSpaces_id) (auto simp: list_all_iff)
  have tk: "trimSpaces s = s" "headsetToken s = s" if "tokenText s" for s
    using that token_chars by (auto simp: list_all_iff intro!: trimSpaces_id headsetToken_id)
  have v: "\<not> he_value e < mn" "\<not> mx < he_value e" using assms by (simp_all add: entryOk_def not_less)
  have e: "tokenText (he_runtime e)" "tokenText (he_system e)" "he_runtime e \<noteq> []" using assms by (simp_all add: entryOk_def)
  show ?thesis
  proof (cases "he_system e = []")
    case True
    then have "h = he_runtime e" "CHR ''/'' \<notin> set h" using token_chars [OF e(1)] by (auto simp: h_def headsetKey_def)
    then show ?thesis using True ds v e tk(1,2) [OF e(1)] split_last_colon [OF c, of h] t td
      by (simp add: parseHeadsetEntry_def Let_def)
  next
    case False
    then have h: "h = he_runtime e @ CHR ''/'' # he_system e" by (simp add: h_def headsetKey_def)
    have "takeWhile (\<lambda>c. c \<noteq> CHR ''/'') h = he_runtime e" "tl (dropWhile (\<lambda>c. c \<noteq> CHR ''/'') h) = he_system e"
      using token_chars [OF e(1)] by (auto simp: h takeWhile_append dropWhile_append takeWhile_eq_all_conv)
    moreover have "CHR ''/'' \<in> set h" by (simp add: h)
    ultimately show ?thesis using False ds v e tk [OF e(1)] tk [OF e(2)] split_last_colon [OF c, of h] t td
      by (simp add: parseHeadsetEntry_def Let_def)
  qed
qed


lemma entryDigits_small: "list_all isDigit ds \<Longrightarrow> \<exists>n < 10 ^ length ds. entryDigits ds = of_nat n"
proof (induction ds rule: rev_induct)
  case Nil
  then show ?case by (intro exI [of _ 0]) (simp add: entryDigits_def)
next
  case (snoc d ds)
  then obtain n where n: "n < 10 ^ length ds" "entryDigits ds = of_nat n" by auto
  define k where "k = (of_char d - 48 :: nat)"
  have k: "k < 10" using snoc.prems by (auto simp: isDigit_def k_def)
  have "entryDigits (ds @ [d]) = of_nat (n * 10 + k)" using n(2) by (simp add: entryDigits_def k_def)
  moreover have "n * 10 + k < 10 ^ length (ds @ [d])" using n(1) k by simp
  ultimately show ?case by blast
qed

lemma parsed_entryOk:
  assumes "parseHeadsetEntry p mn mx = Some e"
  shows "entryOk mn mx e"
proof -
  have tok: "tokenText (headsetToken x)" for x by (simp add: headsetToken_def headsetToken_tokenText)
  define ds where "ds = trimSpaces (rev (takeWhile (\<lambda>c. c \<noteq> CHR '':'') (rev (trimSpaces p))))"
  have ds: "length ds \<le> 5" "list_all isDigit ds" "he_value e = entryDigits ds" "\<not> he_value e < mn" "\<not> mx < he_value e"
    "tokenText (he_runtime e)" "he_runtime e \<noteq> []" "tokenText (he_system e)"
    using assms tok by (auto simp: parseHeadsetEntry_def Let_def ds_def [symmetric] tokenText_def [of "[]"] noPair_def not_less split: if_splits)
  obtain n where n: "n < 10 ^ length ds" "entryDigits ds = of_nat n" using entryDigits_small [OF ds(2)] by blast
  have "(10 :: nat) ^ length ds \<le> 10 ^ 5" using ds(1) by (intro power_increasing) auto
  then have "n < 100000" using n(1) by simp
  then have "unat (he_value e) < 100000" using ds(3) n(2) by (simp add: unat_of_nat take_bit_nat_eq_self)
  then show ?thesis using ds by (simp add: entryOk_def not_less)
qed

section \<open>Lists\<close>

lemma splitCommas_one: "CHR '','' \<notin> set x \<Longrightarrow> splitCommas x = [x]"
  by (induction x) auto

lemma splitCommas_more: "CHR '','' \<notin> set x \<Longrightarrow> splitCommas (x @ CHR '','' # r) = x # splitCommas r"
  by (induction x) auto

lemma splitCommas_format:
  assumes "list_all (entryOk mn mx) (e # es)" "CHR '','' \<notin> set pre"
  shows "splitCommas (pre @ formatHeadsetEntries (e # es)) = (pre @ formatHeadsetEntry e) # map (\<lambda>e. '' '' @ formatHeadsetEntry e) es"
  using assms
proof (induction es arbitrary: e pre)
  case Nil
  then show ?case using no_comma [of mn mx e] by (auto intro!: splitCommas_one)
next
  case (Cons e' es)
  have "CHR '','' \<notin> set (pre @ formatHeadsetEntry e)" using Cons.prems no_comma [of mn mx e] by auto
  then have "splitCommas (pre @ formatHeadsetEntries (e # e' # es)) = (pre @ formatHeadsetEntry e) # splitCommas ('' '' @ formatHeadsetEntries (e' # es))"
    using splitCommas_more [of "pre @ formatHeadsetEntry e"] by simp
  then show ?case using Cons.IH [of e' "'' ''"] Cons.prems by simp
qed

lemma takePiece_format:
  assumes "entryOk mn mx e" "length out < 8"
  shows "takePiece mn mx (out, sk) (formatHeadsetEntry e) = (out @ [e], sk)" "takePiece mn mx (out, sk) ('' '' @ formatHeadsetEntry e) = (out @ [e], sk)"
proof -
  have t: "trimSpaces (formatHeadsetEntry e) = formatHeadsetEntry e"
    using format_chars(1) [OF assms(1)] by (intro trimSpaces_id) (auto simp: list_all_iff)
  moreover have "trimSpaces ('' '' @ x) = trimSpaces x" for x by (simp add: trimSpaces_def is_blank_def)
  moreover have "formatHeadsetEntry e \<noteq> []" by (simp add: formatHeadsetEntry_def)
  ultimately show "takePiece mn mx (out, sk) (formatHeadsetEntry e) = (out @ [e], sk)" "takePiece mn mx (out, sk) ('' '' @ formatHeadsetEntry e) = (out @ [e], sk)"
    using entry_reads_back [OF assms(1)] assms(2) by (simp_all add: takePiece_def kHeadsetEntryMax_def)
qed

lemma entries_read_back:
  assumes "list_all (entryOk mn mx) es" "length es \<le> 8"
  shows "parseHeadsetEntries (formatHeadsetEntries es) mn mx = (es, [])"
proof -
  have "c \<noteq> CHR 0x00" if "c \<in> set (formatHeadsetEntries es)" for c
    using that assms(1) format_chars(3) by (induction es rule: formatHeadsetEntries.induct) auto
  then have "takeWhile (\<lambda>c. c \<noteq> CHR 0x00) (formatHeadsetEntries es) = formatHeadsetEntries es" unfolding takeWhile_eq_all_conv by blast
  then have c: "cstr (formatHeadsetEntries es) = formatHeadsetEntries es" by (simp only: cstr_def)
  have f: "foldl (takePiece mn mx) (out, sk) (map (\<lambda>e. '' '' @ formatHeadsetEntry e) xs) = (out @ xs, sk)"
    if "list_all (entryOk mn mx) xs" "length out + length xs \<le> 8" for out sk xs
    using that
  proof (induction xs arbitrary: out)
    case (Cons x xs)
    then show ?case using takePiece_format(2) [of mn mx x out sk] by simp
  qed simp
  show ?thesis
  proof (cases es)
    case Nil
    then show ?thesis by (simp add: parseHeadsetEntries_def cstr_def takePiece_def trimSpaces_def)
  next
    case (Cons e xs)
    then have "parseHeadsetEntries (formatHeadsetEntries es) mn mx = foldl (takePiece mn mx) ([e], []) (map (\<lambda>e. '' '' @ formatHeadsetEntry e) xs)"
      using splitCommas_format [of mn mx e xs "[]"] takePiece_format(1) [of mn mx e "[]" "[]"] assms(1) c by (simp add: parseHeadsetEntries_def)
    then show ?thesis using f [of xs "[e]" "[]"] assms Cons by simp
  qed
qed

lemma parsed_entries: "list_all (entryOk mn mx) (fst (parseHeadsetEntries l mn mx)) \<and> length (fst (parseHeadsetEntries l mn mx)) \<le> 8"
proof -
  have "list_all (entryOk mn mx) (fst (foldl (takePiece mn mx) st ps)) \<and> length (fst (foldl (takePiece mn mx) st ps)) \<le> 8"
    if "list_all (entryOk mn mx) (fst st)" "length (fst st) \<le> 8" for st ps
    using that
  proof (induction ps arbitrary: st)
    case (Cons p ps)
    have "list_all (entryOk mn mx) (fst (takePiece mn mx st p)) \<and> length (fst (takePiece mn mx st p)) \<le> 8"
      using Cons.prems parsed_entryOk by (auto simp: takePiece_def Let_def kHeadsetEntryMax_def split: prod.splits option.splits)
    then show ?case using Cons.IH by simp
  qed simp
  then show ?thesis by (simp add: parseHeadsetEntries_def)
qed

section \<open>Merging\<close>

definition entryFor :: "HeadsetEntry list \<Rightarrow> string \<Rightarrow> string \<Rightarrow> HeadsetEntry option" where
  "entryFor es rt sys = find (\<lambda>e. he_runtime e = rt \<and> he_system e = sys) es"

lemma keep_placed: "keepEntries rt sys v True es = (filter (\<lambda>e. \<not> (he_runtime e = rt \<and> he_system e = sys)) es, True)"
  by (induction es) auto

lemma entryFor_filter: "(rt', sys') \<noteq> (rt, sys) \<Longrightarrow> entryFor (filter (\<lambda>e. \<not> (he_runtime e = rt \<and> he_system e = sys)) es) rt' sys' = entryFor es rt' sys'"
  by (induction es) (auto simp: entryFor_def)

lemma keepEntries_facts:
  assumes "keepEntries rt sys v False es = (kept, placed)"
  shows "placed \<longleftrightarrow> entryFor es rt sys \<noteq> None" "length kept \<le> length es" "\<not> placed \<Longrightarrow> kept = es"
    "placed \<Longrightarrow> entryFor kept rt sys = Some \<lparr>he_runtime = rt, he_system = sys, he_value = v\<rparr>"
    "(rt', sys') \<noteq> (rt, sys) \<Longrightarrow> entryFor kept rt' sys' = entryFor es rt' sys'"
    "e \<in> set kept \<Longrightarrow> e \<in> set es \<or> (\<exists>e0 \<in> set es. e = e0\<lparr>he_value := v\<rparr>)"
proof -
  have "(placed \<longleftrightarrow> entryFor es rt sys \<noteq> None) \<and> length kept \<le> length es \<and> (\<not> placed \<longrightarrow> kept = es) \<and>
    (placed \<longrightarrow> entryFor kept rt sys = Some \<lparr>he_runtime = rt, he_system = sys, he_value = v\<rparr>) \<and>
    ((rt', sys') \<noteq> (rt, sys) \<longrightarrow> entryFor kept rt' sys' = entryFor es rt' sys') \<and>
    (e \<in> set kept \<longrightarrow> e \<in> set es \<or> (\<exists>e0 \<in> set es. e = e0\<lparr>he_value := v\<rparr>))"
    using assms
  proof (induction es arbitrary: kept placed)
    case Nil
    then show ?case by (simp add: entryFor_def)
  next
    case (Cons x es)
    show ?case
    proof (cases "he_runtime x = rt \<and> he_system x = sys")
      case True
      then have k: "placed" "kept = x\<lparr>he_value := v\<rparr> # filter (\<lambda>e. \<not> (he_runtime e = rt \<and> he_system e = sys)) es"
        using Cons.prems by (auto simp: keep_placed)
      then show ?thesis using True entryFor_filter [of rt' sys' rt sys es] length_filter_le [of "\<lambda>e. \<not> (he_runtime e = rt \<and> he_system e = sys)" es]
        by (cases x) (auto simp: entryFor_def)
    next
      case False
      obtain kept1 p1 where k: "keepEntries rt sys v False es = (kept1, p1)" by force
      then have "kept = x # kept1" "placed = p1" using False Cons.prems by auto
      then show ?thesis using Cons.IH [OF k] False by (auto simp: entryFor_def)
    qed
  qed
  then show "placed \<longleftrightarrow> entryFor es rt sys \<noteq> None" "length kept \<le> length es" "\<not> placed \<Longrightarrow> kept = es"
    "placed \<Longrightarrow> entryFor kept rt sys = Some \<lparr>he_runtime = rt, he_system = sys, he_value = v\<rparr>"
    "(rt', sys') \<noteq> (rt, sys) \<Longrightarrow> entryFor kept rt' sys' = entryFor es rt' sys'"
    "e \<in> set kept \<Longrightarrow> e \<in> set es \<or> (\<exists>e0 \<in> set es. e = e0\<lparr>he_value := v\<rparr>)" by blast+
qed


text \<open>
  Sanitising a name twice is sanitising it once, and the result has at most thirty characters, all of them lowercase
  letters, digits and single dashes that neither begin nor end it.
\<close>

theorem headset_token_idempotent: "headsetToken (headsetToken raw) = headsetToken raw \<and> tokenText (headsetToken raw)"
  using headsetToken_tokenText [of "length raw" raw] headsetToken_id by (simp add: headsetToken_def)

lemma resolve_entry:
  assumes "entryFor es rt sys = Some e" "rt \<noteq> []"
  shows "resolveHeadsetValue es rt sys = (he_value e, if sys = [] then 2 else 1)"
  using assms by (cases "sys = []") (simp_all add: resolveHeadsetValue_def entryFor_def)

text \<open>
  C33: what the in-headset menu writes for a headset is what the game then resolves for it: the merged list parses with no
  piece skipped, the worn headset has the new value, and the entry every other headset had is the one it has. The merge
  refuses only an empty runtime, a value out of range, or a ninth key.
\<close>

theorem merged_entry_resolves:
  assumes "tokenText rt" "tokenText sys" "unat mx < 100000"
  shows "case mergeHeadsetEntry l rt sys v mn mx of
      None \<Rightarrow> rt = [] \<or> v < mn \<or> mx < v \<or> length (fst (parseHeadsetEntries l mn mx)) = 8 \<and> entryFor (fst (parseHeadsetEntries l mn mx)) rt sys = None
    | Some out \<Rightarrow> \<exists>es. parseHeadsetEntries out mn mx = (es, []) \<and> resolveHeadsetValue es rt sys = (v, if sys = [] then 2 else 1) \<and>
        (\<forall>rt' sys'. (rt', sys') \<noteq> (rt, sys) \<longrightarrow> entryFor es rt' sys' = entryFor (fst (parseHeadsetEntries l mn mx)) rt' sys')"
proof (cases "rt = [] \<or> v < mn \<or> mx < v")
  case True
  then show ?thesis by (auto simp: mergeHeadsetEntry_def)
next
  case False
  define es where "es = fst (parseHeadsetEntries l mn mx)"
  define new where "new = \<lparr>he_runtime = rt, he_system = sys, he_value = v\<rparr>"
  obtain kept placed where k: "keepEntries rt sys v False es = (kept, placed)" by force
  note f = keepEntries_facts [OF k]
  have es: "list_all (entryOk mn mx) es" "length es \<le> 8" using parsed_entries by (simp_all add: es_def)
  have v: "unat v < 100000" "\<not> v < mn" "\<not> mx < v" using False assms(3) by (auto simp: not_less word_le_nat_alt)
  have new: "entryOk mn mx new" using False assms v by (simp add: entryOk_def new_def not_less)
  have "entryOk mn mx (e0\<lparr>he_value := v\<rparr>)" if "e0 \<in> set es" for e0 using es(1) that v by (auto simp: list_all_iff entryOk_def not_less)
  then have ok: "list_all (entryOk mn mx) kept" using f(6) es(1) by (fastforce simp: list_all_iff)
  show ?thesis
  proof (cases placed)
    case True
    then have "mergeHeadsetEntry l rt sys v mn mx = Some (formatHeadsetEntries kept)" using False k by (simp add: mergeHeadsetEntry_def es_def)
    moreover have "parseHeadsetEntries (formatHeadsetEntries kept) mn mx = (kept, [])" using entries_read_back [OF ok] f(2) es(2) by simp
    moreover have "resolveHeadsetValue kept rt sys = (v, if sys = [] then 2 else 1)" using resolve_entry [OF f(4) [OF True]] False by simp
    ultimately show ?thesis using f(5) by (auto simp: es_def)
  next
    case np: False
    then have ke: "kept = es" "entryFor es rt sys = None" using f(1,3) by auto
    show ?thesis
    proof (cases "8 \<le> length es")
      case True
      then show ?thesis using False k np ke es(2) by (simp add: mergeHeadsetEntry_def es_def kHeadsetEntryMax_def)
    next
      case room: False
      have "mergeHeadsetEntry l rt sys v mn mx = Some (formatHeadsetEntries (es @ [new]))"
        using False k np ke room by (simp add: mergeHeadsetEntry_def es_def kHeadsetEntryMax_def new_def)
      moreover have "parseHeadsetEntries (formatHeadsetEntries (es @ [new])) mn mx = (es @ [new], [])"
        using entries_read_back [of mn mx "es @ [new]"] es new room by simp
      moreover have find_app: "entryFor (es @ [new]) a b = (case entryFor es a b of None \<Rightarrow> if (a, b) = (rt, sys) then Some new else None | Some e \<Rightarrow> Some e)" for a b
        by (induction es) (auto simp: entryFor_def new_def)
      moreover have "resolveHeadsetValue (es @ [new]) rt sys = (v, if sys = [] then 2 else 1)"
        using resolve_entry [of "es @ [new]" rt sys new] False find_app [of rt sys] ke(2) by (simp add: new_def)
      ultimately show ?thesis by (auto simp: es_def split: option.splits)
    qed
  qed
qed

text \<open>Removing a headset's entry leaves it without one and every other with the one it had.\<close>

lemma removed_entry_gone:
  "\<exists>es. parseHeadsetEntries (removeHeadsetEntry l rt sys mn mx) mn mx = (es, []) \<and> entryFor es rt sys = None \<and>
    ((rt', sys') \<noteq> (rt, sys) \<longrightarrow> entryFor es rt' sys' = entryFor (fst (parseHeadsetEntries l mn mx)) rt' sys')"
proof -
  let ?es = "filter (\<lambda>e. \<not> (he_runtime e = rt \<and> he_system e = sys)) (fst (parseHeadsetEntries l mn mx))"
  have "list_all (entryOk mn mx) ?es" "length ?es \<le> 8"
    using parsed_entries [of mn mx l] le_trans [OF length_filter_le] by (auto simp: list_all_iff)
  then have "parseHeadsetEntries (removeHeadsetEntry l rt sys mn mx) mn mx = (?es, [])" by (simp add: removeHeadsetEntry_def entries_read_back)
  moreover have "entryFor ?es rt sys = None" by (auto simp: entryFor_def find_None_iff)
  ultimately show ?thesis using entryFor_filter [of rt' sys' rt sys] by auto
qed

theorem merged_entry_resolves_witness:
  "mergeHeadsetEntry [] ''steamvr'' [] 2100 1 16384 = Some ''steamvr:2100'' \<and>
   (\<exists>es. parseHeadsetEntries ''steamvr:2100'' 1 16384 = (es, []) \<and> resolveHeadsetValue es ''steamvr'' [] = (2100, 2))"
proof -
  have t: "tokenText ''steamvr''" "tokenText []" by code_simp+
  have n: "showNat 2100 = ''2100''" by code_simp
  have m: "mergeHeadsetEntry [] ''steamvr'' [] 2100 1 16384 = Some ''steamvr:2100''"
    by (simp add: mergeHeadsetEntry_def parseHeadsetEntries_def cstr_def takePiece_def trimSpaces_def kHeadsetEntryMax_def formatHeadsetEntry_def headsetKey_def n)
  show ?thesis using merged_entry_resolves [OF t, where mx = 16384 and l = "[]" and v = 2100 and mn = 1] unfolding m by auto
qed

end
