(* ===== verification/Hotkeys.thy ===== *)
theory Hotkeys
  imports GameConfig
begin

unbundle bit_operations_syntax

text \<open>
  \<^verbatim>\<open>src/common/hotkey.h\<close> and \<^verbatim>\<open>hotkey.cpp\<close>: the names of keys, the registry of bindings, the rule that picks the binding a
  press belongs to, and the edge detection. The keyboard layout (\<^verbatim>\<open>VkKeyScanW\<close>) is a parameter of the parser. What
  \<^verbatim>\<open>pressed\<close> reads from Windows is the argument of \<open>pressedWith\<close>. A name is a C string, so it holds no NUL; a null
  pointer is not modelled.
\<close>

section \<open>Modifiers and the registry\<close>

definition kHotkeyCtrl :: u32 where "kHotkeyCtrl = 1"
definition kHotkeyAlt :: u32 where "kHotkeyAlt = 2"
definition kHotkeyShift :: u32 where "kHotkeyShift = 4"

text \<open>The array \<^verbatim>\<open>g_bindings\<close> up to \<^verbatim>\<open>g_bindingCount\<close>: the key and the modifiers of every binding ever set.\<close>

type_synonym registry = "(int \<times> u32) list"

definition kBindingMax :: nat where "kBindingMax = 16"

definition heldMods :: "bool \<Rightarrow> bool \<Rightarrow> bool \<Rightarrow> u32" where
  "heldMods ctrl alt shift =
     (if ctrl then kHotkeyCtrl else 0) OR (if alt then kHotkeyAlt else 0) OR (if shift then kHotkeyShift else 0)"

definition modsSatisfied :: "u32 \<Rightarrow> u32 \<Rightarrow> bool" where
  "modsSatisfied want held \<longleftrightarrow> want AND NOT held = 0"

definition registerBinding :: "int \<Rightarrow> u32 \<Rightarrow> registry \<Rightarrow> registry" where
  "registerBinding vk mods reg =
     (if vk = 0 then reg
      else if (vk, mods) \<in> set reg then reg
      else if length reg < kBindingMax then reg @ [(vk, mods)] else reg)"

definition betterMatchExists :: "registry \<Rightarrow> int \<Rightarrow> u32 \<Rightarrow> u32 \<Rightarrow> bool" where
  "betterMatchExists reg vk mine held =
     list_ex (\<lambda>(v, m). \<not> (v \<noteq> vk \<or> m = mine) \<and> modsSatisfied m held \<and> m AND NOT mine \<noteq> 0) reg"

definition hotkeyWouldFire :: "registry \<Rightarrow> int \<Rightarrow> u32 \<Rightarrow> u32 \<Rightarrow> bool" where
  "hotkeyWouldFire reg vk mods held =
     (if vk = 0 then False else modsSatisfied mods held \<and> \<not> betterMatchExists reg vk mods held)"

text \<open>The keys copied out; the count returned is their number.\<close>

definition hotkeyRegisteredKeys :: "registry \<Rightarrow> int \<Rightarrow> int list" where
  "hotkeyRegisteredKeys reg maxn = (if maxn \<le> 0 then [] else map fst (take (nat maxn) reg))"

section \<open>Names of keys\<close>

definition is_alpha :: "char \<Rightarrow> bool" where
  "is_alpha c \<longleftrightarrow> of_char c \<in> {65..90 :: nat} \<or> of_char c \<in> {97..122 :: nat}"

definition to_upper :: "char \<Rightarrow> char" where
  "to_upper c = (let n = (of_char c :: nat) in if 97 \<le> n \<and> n \<le> 122 then char_of (n - 32) else c)"

definition stricmp :: "string \<Rightarrow> string \<Rightarrow> bool" where
  "stricmp a b \<longleftrightarrow> map to_lower a = map to_lower b"

definition modifierBit :: "string \<Rightarrow> u32" where
  "modifierBit word =
     (if word = ''CTRL'' \<or> word = ''CONTROL'' then kHotkeyCtrl
      else if word = ''ALT'' \<or> word = ''MENU'' then kHotkeyAlt
      else if word = ''SHIFT'' then kHotkeyShift
      else 0)"

text \<open>
  The loop that peels modifiers from the front: the modifiers so far and the text from \<^verbatim>\<open>pos\<close> on, leading blanks skipped.
\<close>

function peelModifiers :: "u32 \<Rightarrow> string \<Rightarrow> u32 \<times> string" where
  "peelModifiers m s =
     (let t = dropWhile is_blank s;
          bit = modifierBit (map to_upper (takeWhile is_alpha t));
          after = dropWhile is_blank (dropWhile is_alpha t)
      in if bit = 0 then (m, t)
         else if after = [] \<or> (hd after \<noteq> CHR ''+'' \<and> hd after \<noteq> CHR ''-'') then (m, t)
         else peelModifiers (m OR bit) (tl after))"
  by pat_completeness auto
termination
proof (relation "measure (length \<circ> snd)")
  fix m :: u32 and s t after :: string and bit
  assume t: "t = dropWhile is_blank s" and a: "after = dropWhile is_blank (dropWhile is_alpha t)"
    and ne: "\<not> (after = [] \<or> (hd after \<noteq> CHR ''+'' \<and> hd after \<noteq> CHR ''-''))"
  have "length after \<le> length s"
    unfolding a t by (meson length_dropWhile_le order_trans)
  then show "((m OR bit, tl after), (m, s)) \<in> measure (length \<circ> snd)"
    using ne by (cases after) auto
qed simp

declare peelModifiers.simps [simp del]

definition kTable :: "(string \<times> int) list" where
  "kTable =
     [(''F1'', 0x70), (''F2'', 0x71), (''F3'', 0x72), (''F4'', 0x73), (''F5'', 0x74), (''F6'', 0x75),
      (''F7'', 0x76), (''F8'', 0x77), (''F9'', 0x78), (''F10'', 0x79), (''F11'', 0x7A), (''F12'', 0x7B),
      (''F13'', 0x7C), (''F14'', 0x7D), (''F15'', 0x7E), (''F16'', 0x7F), (''F17'', 0x80), (''F18'', 0x81),
      (''F19'', 0x82), (''F20'', 0x83), (''F21'', 0x84), (''F22'', 0x85), (''F23'', 0x86), (''F24'', 0x87),
      (''SCROLLLOCK'', 0x91), (''SCROLL'', 0x91), (''PAUSE'', 0x13), (''NUMLOCK'', 0x90),
      (''INSERT'', 0x2D), (''HOME'', 0x24), (''END'', 0x23), (''DELETE'', 0x2E),
      (''PAGEUP'', 0x21), (''PAGEDOWN'', 0x22),
      (''NUMPAD0'', 0x60), (''NUMPAD1'', 0x61), (''NUMPAD2'', 0x62), (''NUMPAD3'', 0x63), (''NUMPAD4'', 0x64),
      (''NUMPAD5'', 0x65), (''NUMPAD6'', 0x66), (''NUMPAD7'', 0x67), (''NUMPAD8'', 0x68), (''NUMPAD9'', 0x69),
      (''MULTIPLY'', 0x6A), (''DIVIDE'', 0x6F), (''ADD'', 0x6B), (''SUBTRACT'', 0x6D),
      (''RIGHT'', 0x27), (''LEFT'', 0x25), (''UP'', 0x26), (''DOWN'', 0x28),
      (''RIGHTARROW'', 0x27), (''LEFTARROW'', 0x25), (''UPARROW'', 0x26), (''DOWNARROW'', 0x28),
      (''SPACE'', 0x20), (''TAB'', 0x09), (''ENTER'', 0x0D), (''RETURN'', 0x0D),
      (''BACKSPACE'', 0x08), (''ESCAPE'', 0x1B), (''ESC'', 0x1B), (''CAPSLOCK'', 0x14),
      (''PRINTSCREEN'', 0x2C), (''APPS'', 0x5D), (''MENU_KEY'', 0x5D), (''DECIMAL'', 0x6E),
      (''NUMPADDOT'', 0x6E)]"

definition kCharNames :: "(string \<times> char) list" where
  "kCharNames =
     [(''BACKSLASH'', CHR 0x5C), (''SLASH'', CHR ''/''), (''LEFTBRACKET'', CHR ''[''), (''RIGHTBRACKET'', CHR '']''),
      (''SEMICOLON'', CHR '';''), (''APOSTROPHE'', CHR 0x27), (''QUOTE'', CHR 0x27), (''COMMA'', CHR '',''),
      (''PERIOD'', CHR ''.''), (''DOT'', CHR ''.''), (''GRAVE'', CHR 0x60), (''BACKTICK'', CHR 0x60),
      (''TILDE'', CHR 0x60), (''MINUS'', CHR ''-''), (''DASH'', CHR ''-''), (''EQUALS'', CHR ''=''),
      (''PLUS'', CHR ''=''), (''HASH'', CHR ''#''), (''POUND'', CHR ''#'')]"

text \<open>\<open>Some\<close> the key of the first entry of a table with this name, whatever its case.\<close>

fun nameLookup :: "(string \<times> 'a) list \<Rightarrow> string \<Rightarrow> 'a option" where
  "nameLookup [] name = None"
| "nameLookup ((n, v) # es) name = (if stricmp name n then Some v else nameLookup es name)"

datatype HotkeyNote = ModifiersButNoKey string | NotAKeyName string

definition hexKey :: "string \<Rightarrow> int" where
  "hexKey name = longRange (int (digitsValue 16 (takeWhile (\<lambda>c. digitVal c < 16) (drop 2 name))))"

text \<open>The character a name is resolved through, or the key it stands for by itself.\<close>

definition toScan :: "string \<Rightarrow> char option + int" where
  "toScan name =
     (case nameLookup kCharNames name of
        Some ch \<Rightarrow> Inl (Some ch)
      | None \<Rightarrow>
          if length name = 1
          then (let c = hd name; n = (of_char c :: nat) in
                if 97 \<le> n \<and> n \<le> 122 then Inr (int n - 32)
                else if (65 \<le> n \<and> n \<le> 90) \<or> (48 \<le> n \<and> n \<le> 57) then Inr (int n)
                else if 0x20 < n \<and> n < 0x7F then Inl (Some c)
                else Inl None)
          else Inl None)"

text \<open>The part of \<^verbatim>\<open>virtualKeyFromName\<close> after the modifiers. \<open>scan\<close> is \<^verbatim>\<open>VkKeyScanW\<close> on the active layout.\<close>

definition plainKey :: "(char \<Rightarrow> 16 word) \<Rightarrow> string \<Rightarrow> int \<times> HotkeyNote list" where
  "plainKey scan name =
     (if length name \<ge> 2 \<and> hd name = CHR ''0'' \<and> (name ! 1 = CHR ''x'' \<or> name ! 1 = CHR ''X'')
      then (hexKey name, [])
      else case nameLookup kTable name of
        Some vk \<Rightarrow> (vk, [])
      | None \<Rightarrow>
          (case toScan name of
             Inr vk \<Rightarrow> (vk, [])
           | Inl None \<Rightarrow> (0, [NotAKeyName name])
           | Inl (Some ch) \<Rightarrow>
               (if scan ch \<noteq> - 1 then (uint (scan ch AND 0xFF), []) else (0, [NotAKeyName name]))))"

definition lastPart :: "string \<Rightarrow> string" where
  "lastPart t = rev (dropWhile is_blank (rev (dropWhile is_blank t)))"

text \<open>The key, the modifiers written through \<^verbatim>\<open>mods\<close>, and the lines logged.\<close>

function virtualKeyFromName :: "(char \<Rightarrow> 16 word) \<Rightarrow> string \<Rightarrow> int \<times> u32 \<times> HotkeyNote list" where
  "virtualKeyFromName scan name =
     (if name = [] then (0, 0, [])
      else case peelModifiers 0 name of (m, rest) \<Rightarrow>
        if length rest < length name
        then (let last' = lastPart rest in
              if last' = [] then (0, 0, [ModifiersButNoKey name])
              else (case virtualKeyFromName scan last' of (vk, _, notes) \<Rightarrow> (vk, if vk \<noteq> 0 then m else 0, notes)))
        else (case plainKey scan name of (vk, notes) \<Rightarrow> (vk, 0, notes)))"
  by pat_completeness auto
termination
proof (relation "measure (length \<circ> snd)")
  fix scan :: "char \<Rightarrow> 16 word" and name rest last' :: string and p :: "u32 \<times> string" and m
  assume "length rest < length name" and l: "last' = lastPart rest"
  moreover have "length (lastPart rest) \<le> length rest"
    unfolding lastPart_def by (metis length_dropWhile_le length_rev order_trans)
  ultimately show "((scan, last'), (scan, name)) \<in> measure (length \<circ> snd)" by simp
qed simp

declare virtualKeyFromName.simps [simp del]

section \<open>A binding\<close>

record Hotkey =
  m_vk :: int
  m_mods :: u32
  m_down :: bool
  m_missedUnfocused :: bool
  m_gameMirrored :: bool

definition newHotkey :: "int \<Rightarrow> Hotkey" where
  "newHotkey vk = \<lparr>m_vk = vk, m_mods = 0, m_down = False, m_missedUnfocused = False, m_gameMirrored = False\<rparr>"

definition setKey :: "int \<Rightarrow> u32 \<Rightarrow> Hotkey \<Rightarrow> Hotkey" where
  "setKey vk mods h = h\<lparr>m_vk := vk, m_mods := mods\<rparr>"

definition setBinding :: "(char \<Rightarrow> 16 word) \<Rightarrow> string \<Rightarrow> Hotkey \<times> registry \<Rightarrow> (Hotkey \<times> registry) \<times> HotkeyNote list" where
  "setBinding scan name st =
     (case st of (h, reg) \<Rightarrow> case virtualKeyFromName scan name of (vk, m, notes) \<Rightarrow>
        let mods = (if vk \<noteq> 0 then m else 0) in
        ((h\<lparr>m_vk := vk, m_mods := mods\<rparr>, registerBinding vk mods reg), notes))"

definition setGameMirrored :: "bool \<Rightarrow> Hotkey \<Rightarrow> Hotkey" where
  "setGameMirrored mirrored h = h\<lparr>m_gameMirrored := mirrored\<rparr>"

definition takeMissedWhileUnfocused :: "Hotkey \<Rightarrow> bool \<times> Hotkey" where
  "takeMissedWhileUnfocused h = (m_missedUnfocused h, h\<lparr>m_missedUnfocused := False\<rparr>)"

definition pressedWith :: "registry \<Rightarrow> bool \<Rightarrow> u32 \<Rightarrow> bool \<Rightarrow> Hotkey \<Rightarrow> bool \<times> Hotkey" where
  "pressedWith reg keyDown held focused h =
     (if m_vk h = 0 then (False, h)
      else
        (let matches = keyDown \<and> hotkeyWouldFire reg (m_vk h) (m_mods h) held;
             fire = matches \<and> focused;
             edge = fire \<and> \<not> m_down h;
             h1 = (if matches \<and> \<not> focused \<and> \<not> m_down h then h\<lparr>m_missedUnfocused := True\<rparr> else h)
         in (edge, h1\<lparr>m_down := keyDown\<rparr>)))"

text \<open>
  What \<^verbatim>\<open>pressed\<close> reads from Windows: whether a key is down, and whether the foreground window is one of the process.
\<close>

record Desktop =
  keyIsDown :: "int \<Rightarrow> bool"
  gameHasFocus :: bool

definition pressed :: "registry \<Rightarrow> Desktop \<Rightarrow> Hotkey \<Rightarrow> bool \<times> Hotkey" where
  "pressed reg d h =
     (if m_vk h = 0 then (False, h)
      else pressedWith reg (keyIsDown d (m_vk h))
             (heldMods (keyIsDown d 0x11) (keyIsDown d 0x12) (keyIsDown d 0x10))
             (m_gameMirrored h \<or> gameHasFocus d) h)"

end
