(* ===== verification/HotkeyProps.thy ===== *)
theory HotkeyProps
  imports Hotkeys
begin

unbundle bit_operations_syntax

text \<open>
  What the hotkeys promise: one press belongs to one binding, an edge needs the key to have been up, a chord reads back as its
  modifiers and its key, and the parser never needs its own answer more than once.
\<close>

section \<open>The rule that picks a binding\<close>

lemma modsSatisfied_iff: "modsSatisfied a b \<longleftrightarrow> (\<forall>n < 32. bit a n \<longrightarrow> bit b n)"
  by (auto simp: modsSatisfied_def bit_eq_iff bit_simps)

lemma modsSatisfied_antisym: "modsSatisfied a b \<Longrightarrow> modsSatisfied b a \<Longrightarrow> a = b"
  by (auto simp: modsSatisfied_iff bit_eq_iff)

lemma betterMatchExists_iff:
  "betterMatchExists reg vk mine held \<longleftrightarrow>
   (\<exists>m. (vk, m) \<in> set reg \<and> m \<noteq> mine \<and> modsSatisfied m held \<and> \<not> modsSatisfied m mine)"
  by (fastforce simp: betterMatchExists_def list_ex_iff modsSatisfied_def)

lemma fires_unique:
  assumes "(vk, a) \<in> set reg" "(vk, b) \<in> set reg" "hotkeyWouldFire reg vk a held" "hotkeyWouldFire reg vk b held"
  shows "a = b"
proof (rule ccontr)
  assume "a \<noteq> b"
  then have "\<not> modsSatisfied a b \<or> \<not> modsSatisfied b a" using modsSatisfied_antisym by blast
  then show False using assms \<open>a \<noteq> b\<close> by (auto simp: hotkeyWouldFire_def betterMatchExists_iff split: if_splits)
qed

section \<open>A session of bindings\<close>

text \<open>The bindings are objects with a number; they share the registry.\<close>

datatype HotkeyOp = Bind nat string | Mirror nat bool | Poll nat Desktop | TakeMissed nat

type_synonym hotkeys = "(nat \<Rightarrow> Hotkey) \<times> registry"

fun hotkeyOp :: "(char \<Rightarrow> 16 word) \<Rightarrow> HotkeyOp \<Rightarrow> hotkeys \<Rightarrow> hotkeys" where
  "hotkeyOp scan (Bind i name) (hs, reg) = (case fst (setBinding scan name (hs i, reg)) of (h, r) \<Rightarrow> (hs(i := h), r))"
| "hotkeyOp scan (Mirror i b) (hs, reg) = (hs(i := setGameMirrored b (hs i)), reg)"
| "hotkeyOp scan (Poll i d) (hs, reg) = (hs(i := snd (pressed reg d (hs i))), reg)"
| "hotkeyOp scan (TakeMissed i) (hs, reg) = (hs(i := snd (takeMissedWhileUnfocused (hs i))), reg)"

definition noHotkeys :: hotkeys where
  "noHotkeys = (\<lambda>_. newHotkey 0, [])"

text \<open>While the registry has room, it holds every live binding.\<close>

fun registered :: "hotkeys \<Rightarrow> bool" where
  "registered (hs, reg) \<longleftrightarrow>
     (length reg < kBindingMax \<longrightarrow> (\<forall>i. m_vk (hs i) \<noteq> 0 \<longrightarrow> (m_vk (hs i), m_mods (hs i)) \<in> set reg))"

lemma registerBinding_mono:
  "length reg \<le> length (registerBinding vk m reg)" "set reg \<subseteq> set (registerBinding vk m reg)"
  by (auto simp: registerBinding_def)

lemma registerBinding_holds:
  "length (registerBinding vk m reg) < kBindingMax \<Longrightarrow> vk \<noteq> 0 \<Longrightarrow> (vk, m) \<in> set (registerBinding vk m reg)"
  by (auto simp: registerBinding_def split: if_splits)

lemma pressed_keeps: "m_vk (snd (pressed reg d h)) = m_vk h" "m_mods (snd (pressed reg d h)) = m_mods h"
  by (auto simp: pressed_def pressedWith_def Let_def)

lemma hotkeyOp_registered: "registered st \<Longrightarrow> registered (hotkeyOp scan op st)"
proof (cases st)
  case (Pair hs reg)
  assume r: "registered st"
  show ?thesis
  proof (cases op)
    case (Bind i name)
    obtain vk m ns where v: "virtualKeyFromName scan name = (vk, m, ns)" by (metis prod_cases3)
    show ?thesis
      using r registerBinding_mono [of reg vk "if vk \<noteq> 0 then m else 0"] registerBinding_holds [of vk _ reg]
      unfolding Pair Bind by (auto simp: setBinding_def v Let_def)
  qed (use r in \<open>auto simp: Pair setGameMirrored_def takeMissedWhileUnfocused_def pressed_keeps\<close>)
qed

interpretation hk: op_machine "hotkeyOp scan" "\<lambda>_. True" registered for scan
  by unfold_locales (rule hotkeyOp_registered)

lemma session_registered: "registered (fold (hotkeyOp scan) ops noHotkeys)"
  by (rule hk.run_inv) (auto simp: list_all_iff noHotkeys_def newHotkey_def)

lemma pressed_fires:
  "fst (pressed reg d h) \<Longrightarrow> m_vk h \<noteq> 0 \<and> \<not> m_down h \<and> keyIsDown d (m_vk h) \<and>
     hotkeyWouldFire reg (m_vk h) (m_mods h) (heldMods (keyIsDown d 0x11) (keyIsDown d 0x12) (keyIsDown d 0x10))"
  by (auto simp: pressed_def pressedWith_def Let_def split: if_splits)

text \<open>
  C34: Whatever the bindings were set to, and however they were polled before, two bindings on one key that both report a press at
  the same keyboard state ask for the same modifiers, as long as the registry of sixteen has not filled up. So a chord
  and the plain key under it never both see the press.
\<close>

theorem one_press_one_binding:
  assumes "fold (hotkeyOp scan) ops noHotkeys = (hs, reg)" and "length reg < kBindingMax"
    and "fst (pressed reg d (hs i))" and "fst (pressed reg d (hs j))" and "m_vk (hs i) = m_vk (hs j)"
  shows "m_mods (hs i) = m_mods (hs j)"
proof -
  have "registered (hs, reg)" using session_registered [of scan ops] assms(1) by simp
  then have reg: "(m_vk (hs k), m_mods (hs k)) \<in> set reg" if "m_vk (hs k) \<noteq> 0" for k using assms(2) that by simp
  let ?held = "heldMods (keyIsDown d 0x11) (keyIsDown d 0x12) (keyIsDown d 0x10)"
  show ?thesis
    using assms(5) pressed_fires [OF assms(3)] pressed_fires [OF assms(4)] reg [of i] reg [of j]
    by (intro fires_unique [of "m_vk (hs j)" _ reg _ ?held]) simp_all
qed

text \<open>The registry only grows.\<close>

lemma hotkeyOp_mono: "set (snd st) \<subseteq> set (snd (hotkeyOp scan a st)) \<and> length (snd st) \<le> length (snd (hotkeyOp scan a st))"
proof (cases st)
  case (Pair hs reg)
  show ?thesis
    using registerBinding_mono [of reg]
    by (cases a) (auto simp: Pair setBinding_def Let_def split: prod.splits)
qed

lemma session_mono:
  "set (snd st) \<subseteq> set (snd (fold (hotkeyOp scan) ops st)) \<and> length (snd st) \<le> length (snd (fold (hotkeyOp scan) ops st))"
proof (induction ops arbitrary: st)
  case (Cons a ops)
  then show ?case using hotkeyOp_mono [of st scan a] Cons [of "hotkeyOp scan a st"] by fastforce
qed simp

lemma bound_stays_registered:
  assumes "fold (hotkeyOp scan) (ops @ Bind i name # later) st = (hs, reg)" "length reg < kBindingMax"
    "virtualKeyFromName scan name = (vk, m, ns)" "vk \<noteq> 0"
  shows "(vk, m) \<in> set reg"
proof -
  obtain hs1 reg1 where 1: "fold (hotkeyOp scan) ops st = (hs1, reg1)" by force
  let ?st2 = "hotkeyOp scan (Bind i name) (hs1, reg1)"
  have 2: "snd ?st2 = registerBinding vk m reg1" using assms(3,4) by (simp add: setBinding_def Let_def)
  have "set (snd ?st2) \<subseteq> set reg" "length (snd ?st2) \<le> length reg"
    using session_mono [of ?st2 scan later] assms(1) by (simp_all add: 1)
  then show ?thesis using registerBinding_holds [of vk m reg1] assms(2,4) unfolding 2 by auto
qed

text \<open>
  C37: Once any binding has been set to a chord, no binding on that key whose modifiers do not include the chord's reports a press while
  the chord's modifiers are held, whatever was set and polled before and since, while the registry of sixteen is not
  full. So two chords on one key with neither in the other are both silent when both are held, and a chord that a binding has
  since been moved away from goes on silencing the key.
\<close>

theorem held_chord_suppresses:
  assumes "fold (hotkeyOp scan) (ops @ Bind i name # later) noHotkeys = (hs, reg)" and "length reg < kBindingMax"
    and "virtualKeyFromName scan name = (vk, m, ns)" and "vk \<noteq> 0" and "m_vk (hs j) = vk"
    and "\<not> modsSatisfied m (m_mods (hs j))"
    and "modsSatisfied m (heldMods (keyIsDown d 0x11) (keyIsDown d 0x12) (keyIsDown d 0x10))"
  shows "\<not> fst (pressed reg d (hs j))"
proof -
  have "(vk, m) \<in> set reg" by (rule bound_stays_registered [OF assms(1-4)])
  moreover have "m \<noteq> m_mods (hs j)" using assms(6) by (auto simp: modsSatisfied_iff)
  ultimately show ?thesis
    using pressed_fires [of reg d "hs j"] assms(5-7) by (auto simp: hotkeyWouldFire_def betterMatchExists_iff split: if_splits)
qed

section \<open>Edges\<close>

text \<open>A run of polls of one binding: what each poll returned, and the binding after it.\<close>

fun pollRun :: "registry \<Rightarrow> Hotkey \<Rightarrow> (bool \<times> u32 \<times> bool) list \<Rightarrow> bool list \<times> Hotkey" where
  "pollRun reg h [] = ([], h)"
| "pollRun reg h ((keyDown, held, focused) # ins) =
     (case pressedWith reg keyDown held focused h of (e, h1) \<Rightarrow> case pollRun reg h1 ins of (es, h2) \<Rightarrow> (e # es, h2))"

text \<open>A press of the key that the binding matches, with or without the focus.\<close>

fun pressHere :: "registry \<Rightarrow> int \<Rightarrow> u32 \<Rightarrow> bool \<Rightarrow> bool \<times> u32 \<times> bool \<Rightarrow> bool" where
  "pressHere reg vk mods before (keyDown, held, focused) \<longleftrightarrow> keyDown \<and> \<not> before \<and> hotkeyWouldFire reg vk mods held"

text \<open>
  C35: A poll reports a press exactly when the key went down at that poll, whatever it did to the modifiers or the focus since,
  the binding is the one the press belongs to, and the focus is right; presses that only lacked the focus, and no
  others, leave the mark that a press was missed. Letting go of a modifier, or getting the focus back, with the key
  held never counts as a press.
\<close>

theorem press_edges_exact:
  assumes "m_vk h \<noteq> 0" and "pollRun reg h ins = (es, h')"
  shows "es = map2 (\<lambda>before i. pressHere reg (m_vk h) (m_mods h) before i \<and> snd (snd i)) (m_down h # map fst ins) ins \<and>
     (m_missedUnfocused h' \<longleftrightarrow> m_missedUnfocused h \<or>
        (\<exists>(before, i) \<in> set (zip (m_down h # map fst ins) ins). pressHere reg (m_vk h) (m_mods h) before i \<and> \<not> snd (snd i)))"
  using assms
proof (induction ins arbitrary: h es)
  case (Cons i ins)
  obtain k held f where i: "i = (k, held, f)" by (metis prod_cases3)
  obtain e h1 where p: "pressedWith reg k held f h = (e, h1)" by force
  obtain es1 where r: "pollRun reg h1 ins = (es1, h')" "es = e # es1"
    using Cons.prems(2) by (auto simp: i p split: prod.splits)
  have h1: "m_vk h1 = m_vk h" "m_mods h1 = m_mods h" "m_down h1 = k"
    "e \<longleftrightarrow> pressHere reg (m_vk h) (m_mods h) (m_down h) i \<and> f"
    "m_missedUnfocused h1 \<longleftrightarrow> m_missedUnfocused h \<or> pressHere reg (m_vk h) (m_mods h) (m_down h) i \<and> \<not> f"
    using p Cons.prems(1) by (auto simp: pressedWith_def i Let_def split: if_splits)
  show ?case using Cons.IH [of h1 es1] Cons.prems(1) r h1 by (auto simp: i)
qed simp

section \<open>Names\<close>

text \<open>The text of a chord: modifier words, each with blanks before it and before its separator, and the key.\<close>

fun chordText :: "(string \<times> string \<times> string \<times> char) list \<Rightarrow> string \<Rightarrow> string" where
  "chordText [] k = k"
| "chordText ((b, w, b', c) # ms) k = b @ w @ b' @ c # chordText ms k"

fun chordMod :: "string \<times> string \<times> string \<times> char \<Rightarrow> u32" where
  "chordMod (b, w, b', c) = modifierBit (map to_upper w)"

fun chordPart :: "string \<times> string \<times> string \<times> char \<Rightarrow> bool" where
  "chordPart (b, w, b', c) \<longleftrightarrow>
     list_all is_blank b \<and> list_all is_alpha w \<and> modifierBit (map to_upper w) \<noteq> 0 \<and> list_all is_blank b' \<and>
     (c = CHR ''+'' \<or> c = CHR ''-'')"

text \<open>A key with no blank at either end and no modifier in front of it.\<close>

definition keyText :: "string \<Rightarrow> bool" where
  "keyText k \<longleftrightarrow> k \<noteq> [] \<and> \<not> is_blank (last k) \<and> snd (peelModifiers 0 k) = k"

lemma alpha_not_blank: "is_alpha c \<Longrightarrow> \<not> is_blank c"
  by (auto simp: is_alpha_def is_blank_def)

lemma blank_sep_not_alpha: "is_blank c \<or> c = CHR ''+'' \<or> c = CHR ''-'' \<Longrightarrow> \<not> is_alpha c"
  by (auto simp: is_alpha_def is_blank_def)

lemma sep_not_blank: "c = CHR ''+'' \<or> c = CHR ''-'' \<Longrightarrow> \<not> is_blank c"
  by (auto simp: is_blank_def)

lemma modifierBit_Nil [simp]: "modifierBit [] = 0"
  by (simp add: modifierBit_def)

lemma while_suffix:
  assumes "ys = [] \<or> \<not> P (hd ys)"
  shows "takeWhile P (xs @ ys) = takeWhile P xs" and "dropWhile P (xs @ ys) = dropWhile P xs @ ys"
proof -
  have "takeWhile P ys = []" "dropWhile P ys = ys" using assms by (cases ys; simp)+
  then show "takeWhile P (xs @ ys) = takeWhile P xs" "dropWhile P (xs @ ys) = dropWhile P xs @ ys"
    by (induction xs; simp)+
qed

lemma while_split:
  assumes "list_all P xs" "ys = [] \<or> \<not> P (hd ys)"
  shows "takeWhile P (xs @ ys) = xs" and "dropWhile P (xs @ ys) = ys"
proof -
  have "takeWhile P xs = xs" "dropWhile P xs = []" using assms(1) by (induction xs; simp)+
  then show "takeWhile P (xs @ ys) = xs" "dropWhile P (xs @ ys) = ys" using while_suffix [of ys P xs] assms(2) by simp_all
qed

lemma peel_part:
  assumes "chordPart (b, w, b', c)"
  shows "peelModifiers m (b @ w @ b' @ c # s) = peelModifiers (m OR modifierBit (map to_upper w)) s"
proof -
  have w: "w \<noteq> []" "list_all is_alpha w" and c: "c = CHR ''+'' \<or> c = CHR ''-''" using assms by auto
  have "\<not> is_blank (hd (w @ b' @ c # s))" using w by (cases w) (auto dest: alpha_not_blank)
  then have 1: "dropWhile is_blank (b @ w @ b' @ c # s) = w @ b' @ c # s"
    using assms w by (intro while_split) auto
  have "\<not> is_alpha (hd (b' @ c # s))" using assms by (cases b') (auto dest: blank_sep_not_alpha [rotated] simp: blank_sep_not_alpha)
  then have 2: "takeWhile is_alpha (w @ b' @ c # s) = w" "dropWhile is_alpha (w @ b' @ c # s) = b' @ c # s"
    using w(2) by (intro while_split; auto)+
  have 3: "dropWhile is_blank (b' @ c # s) = c # s"
    using assms sep_not_blank [OF c] by (intro while_split) auto
  show ?thesis
    using assms c by (subst peelModifiers.simps) (auto simp: 1 2 3 Let_def)
qed

lemma peel_chord:
  "list_all chordPart ms \<Longrightarrow> peelModifiers m (chordText ms k) = peelModifiers (fold (\<lambda>p n. n OR chordMod p) ms m) k"
  by (induction ms arbitrary: m) (auto simp: peel_part simp del: chordPart.simps)

text \<open>Where the loop stops, and what one round of it does.\<close>

definition afterWord :: "string \<Rightarrow> string" where
  "afterWord t = dropWhile is_blank (dropWhile is_alpha t)"

definition peelStops :: "string \<Rightarrow> bool" where
  "peelStops t \<longleftrightarrow> modifierBit (map to_upper (takeWhile is_alpha t)) = 0 \<or>
     afterWord t = [] \<or> (hd (afterWord t) \<noteq> CHR ''+'' \<and> hd (afterWord t) \<noteq> CHR ''-'')"

lemma peel_stop: "peelStops (dropWhile is_blank s) \<Longrightarrow> peelModifiers m s = (m, dropWhile is_blank s)"
  by (subst peelModifiers.simps) (auto simp: peelStops_def afterWord_def Let_def)

lemma peel_round:
  assumes "\<not> peelStops (dropWhile is_blank s)"
  obtains bit s' where "\<And>m. peelModifiers m s = peelModifiers (m OR bit) s'" "length s' < length s"
proof
  let ?t = "dropWhile is_blank s"
  show "peelModifiers m s = peelModifiers (m OR modifierBit (map to_upper (takeWhile is_alpha ?t))) (tl (afterWord ?t))" for m
    using assms by (subst peelModifiers.simps) (auto simp: peelStops_def afterWord_def Let_def)
  have "length (afterWord ?t) \<le> length s"
    unfolding afterWord_def by (meson length_dropWhile_le order_trans)
  then show "length (tl (afterWord ?t)) < length s"
    using assms by (cases "afterWord ?t") (auto simp: peelStops_def)
qed

lemma peel_induct [case_names stop round]:
  assumes "\<And>s. peelStops (dropWhile is_blank s) \<Longrightarrow> P s"
    and "\<And>s bit s'. (\<And>m. peelModifiers m s = peelModifiers (m OR bit) s') \<Longrightarrow> length s' < length s \<Longrightarrow> P s' \<Longrightarrow> P s"
  shows "P s"
proof (induction s rule: measure_induct_rule [of length])
  case (less s)
  show ?case
  proof (cases "peelStops (dropWhile is_blank s)")
    case False
    from peel_round [OF this] obtain bit s' where "\<And>m. peelModifiers m s = peelModifiers (m OR bit) s'" "length s' < length s" by blast
    then show ?thesis using less assms(2) by blast
  qed (rule assms(1))
qed

lemma peel_acc: "peelModifiers m s = (m OR fst (peelModifiers 0 s), snd (peelModifiers 0 s))"
proof (induction s arbitrary: m rule: peel_induct)
  case (round s bit s')
  show ?case
    using round(3) [of "m OR bit"] round(3) [of bit] by (simp add: round(1) [of m] round(1) [of 0] or.assoc)
qed (simp add: peel_stop)

lemma dropWhile_shorter: "length (dropWhile P xs) < length xs \<or> dropWhile P xs = xs"
  by (cases xs) (auto simp: length_dropWhile_le less_Suc_eq_le)

lemma peel_result:
  "peelModifiers m s = (m', t) \<Longrightarrow> dropWhile is_blank t = t \<and> peelStops t \<and> (length t < length s \<or> t = s)"
proof (induction s arbitrary: m rule: peel_induct)
  case (stop s)
  then show ?case using dropWhile_shorter [of is_blank s] by (auto simp: peel_stop)
next
  case (round s bit s')
  then show ?case using round(3) [of "m OR bit"] by fastforce
qed

lemma keyText_iff: "keyText k \<longleftrightarrow> k \<noteq> [] \<and> \<not> is_blank (last k) \<and> dropWhile is_blank k = k \<and> peelStops k"
proof
  assume k: "keyText k"
  then have "peelModifiers 0 k = (fst (peelModifiers 0 k), k)" by (metis keyText_def prod.collapse)
  from peel_result [OF this] k show "k \<noteq> [] \<and> \<not> is_blank (last k) \<and> dropWhile is_blank k = k \<and> peelStops k"
    by (simp add: keyText_def)
next
  assume k: "k \<noteq> [] \<and> \<not> is_blank (last k) \<and> dropWhile is_blank k = k \<and> peelStops k"
  then have "peelModifiers 0 k = (0, k)" using peel_stop [of k 0] by simp
  then show "keyText k" using k by (simp add: keyText_def)
qed

text \<open>Blanks at the end change nothing.\<close>

lemma lastPart_decomp:
  assumes "dropWhile is_blank t = t"
  obtains bl where "t = lastPart t @ bl" "list_all is_blank bl"
proof
  have "rev t = takeWhile is_blank (rev t) @ dropWhile is_blank (rev t)" by simp
  then show "t = lastPart t @ rev (takeWhile is_blank (rev t))"
    unfolding lastPart_def assms by (metis rev_append rev_rev_ident)
  show "list_all is_blank (rev (takeWhile is_blank (rev t)))"
    by (auto simp: list_all_iff dest: set_takeWhileD)
qed

lemma lastPart_keyText:
  assumes "dropWhile is_blank t = t" "peelStops t" "lastPart t \<noteq> []"
  shows "keyText (lastPart t)"
proof -
  let ?u = "lastPart t"
  obtain bl where t: "t = ?u @ bl" and bl: "list_all is_blank bl" by (rule lastPart_decomp [OF assms(1)])
  have hd: "\<not> is_blank (hd t)" using assms(1,3) t by (metis append_is_Nil_conv dropWhile_eq_self_iff)
  then have u: "dropWhile is_blank ?u = ?u" using assms(3) t by (metis dropWhile_eq_self_iff hd_append2)
  have last: "\<not> is_blank (last ?u)"
    using assms(3) unfolding lastPart_def by (metis hd_dropWhile last_rev rev.simps(1))
  have na: "bl = [] \<or> \<not> is_alpha (hd bl)" using bl by (cases bl) (auto simp: blank_sep_not_alpha)
  have tw: "takeWhile is_alpha t = takeWhile is_alpha ?u" and dw: "dropWhile is_alpha t = dropWhile is_alpha ?u @ bl"
    using while_suffix [of bl is_alpha ?u] na t by simp_all
  have "afterWord ?u \<noteq> [] \<Longrightarrow> afterWord t = afterWord ?u @ bl"
    unfolding afterWord_def dw by (rule dropWhile_append_ne)
  then have "peelStops ?u" using assms(2) tw by (auto simp: peelStops_def)
  then show ?thesis using assms(3) u last by (simp add: keyText_iff)
qed

lemma vk_key: "keyText k \<Longrightarrow> virtualKeyFromName scan k = (fst (plainKey scan k), 0, snd (plainKey scan k))"
  by (subst virtualKeyFromName.simps) (auto simp: keyText_def split: prod.splits)

lemma lastPart_key: "keyText k \<Longrightarrow> lastPart k = k"
  by (cases k rule: rev_cases) (auto simp: keyText_iff lastPart_def)

lemma keyText_peel: "keyText k \<Longrightarrow> peelModifiers m k = (m, k)"
  using peel_stop [of k m] by (simp add: keyText_iff)

lemma chordText_longer: "ms \<noteq> [] \<Longrightarrow> length k < length (chordText ms k)"
  by (induction ms k rule: chordText.induct) (auto, fastforce)

lemma chord_reads:
  assumes "list_all chordPart ms" and "ms \<noteq> []" and "keyText k" and "plainKey scan k = (vk, ns)"
  shows "virtualKeyFromName scan (chordText ms k) = (vk, if vk \<noteq> 0 then fold (\<lambda>p n. n OR chordMod p) ms 0 else 0, ns)"
proof -
  have "peelModifiers 0 (chordText ms k) = (fold (\<lambda>p n. n OR chordMod p) ms 0, k)"
    by (simp add: peel_chord [OF assms(1)] keyText_peel [OF assms(3)])
  moreover have "chordText ms k \<noteq> []" using chordText_longer [OF assms(2), of k] by auto
  ultimately show ?thesis
    using chordText_longer [OF assms(2)] vk_key [OF assms(3), of scan] assms(3,4)
    by (subst virtualKeyFromName.simps) (simp add: lastPart_key keyText_def Let_def)
qed

text \<open>
  C36: A chord reads back: modifier words in any spelling and case, joined by a plus or a minus, with blanks before a word or a separator, and then a key,
  give that key and the union of the modifiers; the key may itself be a plus or a minus. A key nobody knows binds nothing
  and is reported under its own name.
\<close>

theorem chord_round_trip:
  assumes "list_all chordPart ms" and "ms \<noteq> []" and "keyText k" and "plainKey scan k = (vk, ns)"
  shows "virtualKeyFromName scan (chordText ms k) = (vk, if vk \<noteq> 0 then fold (\<lambda>p n. n OR chordMod p) ms 0 else 0, ns)"
  using assms by (rule chord_reads)

text \<open>
  The parser calls itself at most once: what is left after the modifiers never has modifiers of its own, so none is dropped by
  the inner call, which passes no place for them. The parser is the plain lookup of the trimmed rest.
\<close>

theorem key_name_closed_form:
  "virtualKeyFromName scan name =
     (if name = [] then (0, 0, [])
      else case peelModifiers 0 name of (m, rest) \<Rightarrow>
        if rest = name then (fst (plainKey scan name), 0, snd (plainKey scan name))
        else if lastPart rest = [] then (0, 0, [ModifiersButNoKey name])
        else (case plainKey scan (lastPart rest) of (vk, ns) \<Rightarrow> (vk, if vk \<noteq> 0 then m else 0, ns)))"
proof -
  obtain m rest where p: "peelModifiers 0 name = (m, rest)" by force
  note r = peel_result [OF p]
  show ?thesis
  proof (cases "lastPart rest = []")
    case True
    with r show ?thesis by (subst virtualKeyFromName.simps) (auto simp: p split: prod.splits)
  next
    case False
    note k = vk_key [OF lastPart_keyText [OF _ _ False], of scan]
    from False r k show ?thesis by (subst virtualKeyFromName.simps) (auto simp: p split: prod.splits)
  qed
qed

section \<open>Presses no binding sees\<close>

definition usLayout :: "char \<Rightarrow> 16 word" where
  "usLayout c = (if c = CHR ''-'' then 0xBD else if c = CHR ''='' then 0xBB else - 1)"

definition keysDown :: "int list \<Rightarrow> Desktop" where
  "keysDown vks = \<lparr>keyIsDown = (\<lambda>v. v \<in> set vks), gameHasFocus = True\<rparr>"

lemma key_f: "plainKey usLayout ''F'' = (0x46, [])"
  by (simp add: plainKey_def toScan_def kTable_def kCharNames_def stricmp_def to_lower_def)

lemma key_minus: "plainKey usLayout ''-'' = (0xBD, [])"
  by (simp add: plainKey_def toScan_def kTable_def kCharNames_def stricmp_def to_lower_def usLayout_def)

lemma keyText_f: "keyText ''F''" by (simp add: keyText_iff peelStops_def afterWord_def is_blank_def is_alpha_def)

lemma keyText_minus: "keyText ''-''" by (simp add: keyText_iff peelStops_def afterWord_def is_blank_def is_alpha_def)

lemma part_ctrl: "chordPart ([], ''CTRL'', [], CHR ''+'')" and part_alt: "chordPart ([], ''ALT'', [], CHR ''+'')"
  and part_shift: "chordPart ([], ''shift'', '' '', CHR ''-'')"
  by (simp_all add: is_blank_def is_alpha_def to_upper_def modifierBit_def kHotkeyCtrl_def kHotkeyAlt_def kHotkeyShift_def char_of_def bit_0)

theorem chord_round_trip_witness: "virtualKeyFromName usLayout ''shift --'' = (0xBD, kHotkeyShift, [])"
  using chord_round_trip [of "[([], ''shift'', '' '', CHR ''-'')]", OF _ _ keyText_minus key_minus] part_shift
  by (simp add: to_upper_def modifierBit_def char_of_def bit_0 del: chordPart.simps)

lemma bind_ctrl_f: "virtualKeyFromName usLayout ''CTRL+F'' = (0x46, 1, [])"
  using chord_reads [of "[([], ''CTRL'', [], CHR ''+'')]", OF _ _ keyText_f key_f] part_ctrl
  by (simp add: to_upper_def modifierBit_def kHotkeyCtrl_def del: chordPart.simps)

lemma bind_alt_f: "virtualKeyFromName usLayout ''ALT+F'' = (0x46, 2, [])"
  using chord_reads [of "[([], ''ALT'', [], CHR ''+'')]", OF _ _ keyText_f key_f] part_alt
  by (simp add: to_upper_def modifierBit_def kHotkeyAlt_def del: chordPart.simps)

lemma bind_f: "virtualKeyFromName usLayout ''F'' = (0x46, 0, [])"
  by (simp add: vk_key [OF keyText_f] key_f)

definition twoChords :: hotkeys where
  "twoChords = fold (hotkeyOp usLayout) [Bind 0 ''CTRL+F'', Bind 1 ''ALT+F''] noHotkeys"

definition rebound :: hotkeys where
  "rebound = fold (hotkeyOp usLayout) [Bind 0 ''CTRL+F'', Bind 0 ''F''] noHotkeys"

definition chordAndPlain :: hotkeys where
  "chordAndPlain = fold (hotkeyOp usLayout) [Bind 0 ''CTRL+F'', Bind 1 ''F''] noHotkeys"

lemmas bind_evals = setBinding_def registerBinding_def noHotkeys_def newHotkey_def kBindingMax_def bind_ctrl_f bind_alt_f bind_f

lemmas press_evals = pressed_def pressedWith_def hotkeyWouldFire_def betterMatchExists_def modsSatisfied_def heldMods_def
  keysDown_def kHotkeyCtrl_def kHotkeyAlt_def kHotkeyShift_def

text \<open>Two sessions in which a press that satisfies a live binding is reported by none.\<close>

theorem press_lost_to_registry:
  "(\<forall>i. \<not> fst (pressed (snd twoChords) (keysDown [0x46, 0x11, 0x12]) (fst twoChords i))) \<and>
   (\<forall>i. \<not> fst (pressed (snd rebound) (keysDown [0x46, 0x11]) (fst rebound i))) \<and>
   fst (pressed [(0x46, 0)] (keysDown [0x46, 0x11]) (fst rebound 0))"
proof -
  have two: "twoChords = ((\<lambda>_. newHotkey 0)(0 := (newHotkey 0x46)\<lparr>m_mods := 1\<rparr>, 1 := (newHotkey 0x46)\<lparr>m_mods := 2\<rparr>), [(0x46, 1), (0x46, 2)])"
    by (simp add: twoChords_def bind_evals)
  have re: "rebound = ((\<lambda>_. newHotkey 0)(0 := newHotkey 0x46), [(0x46, 1), (0x46, 0)])"
    by (simp add: rebound_def bind_evals)
  show ?thesis unfolding two re by (simp add: press_evals newHotkey_def)
qed

text \<open>The binding that is now on F alone, after it was moved from CTRL+F.\<close>

theorem held_chord_suppresses_witness:
  "m_vk (fst rebound 0) = 0x46 \<and> m_mods (fst rebound 0) = 0 \<and> \<not> fst (pressed (snd rebound) (keysDown [0x46, 0x11]) (fst rebound 0))"
proof -
  have re: "rebound = ((\<lambda>_. newHotkey 0)(0 := newHotkey 0x46), [(0x46, 1), (0x46, 0)])"
    by (simp add: rebound_def bind_evals)
  have "fold (hotkeyOp usLayout) ([] @ Bind 0 ''CTRL+F'' # [Bind 0 ''F'']) noHotkeys = (fst rebound, snd rebound)"
    by (simp add: rebound_def)
  from held_chord_suppresses [OF this _ bind_ctrl_f, of 0 "keysDown [0x46, 0x11]"]
  show ?thesis by (simp add: re newHotkey_def kBindingMax_def press_evals)
qed

theorem one_press_one_binding_witness:
  "fst (pressed (snd chordAndPlain) (keysDown [0x46, 0x11]) (fst chordAndPlain 0)) \<and>
   \<not> fst (pressed (snd chordAndPlain) (keysDown [0x46, 0x11]) (fst chordAndPlain 1))"
proof -
  have st: "chordAndPlain = ((\<lambda>_. newHotkey 0)(0 := (newHotkey 0x46)\<lparr>m_mods := 1\<rparr>, 1 := newHotkey 0x46), [(0x46, 1), (0x46, 0)])"
    by (simp add: chordAndPlain_def bind_evals)
  have "fst (pressed (snd chordAndPlain) (keysDown [0x46, 0x11]) (fst chordAndPlain 0))"
    unfolding st by (simp add: press_evals newHotkey_def)
  moreover have "fold (hotkeyOp usLayout) [Bind 0 ''CTRL+F'', Bind 1 ''F''] noHotkeys = (fst chordAndPlain, snd chordAndPlain)"
    by (simp add: chordAndPlain_def)
  note one_press_one_binding [OF this, of "keysDown [0x46, 0x11]" 0 1]
  ultimately show ?thesis by (auto simp: st newHotkey_def kBindingMax_def)
qed

theorem press_edges_exact_witness:
  "fst (pollRun [(0x46, 1), (0x46, 0)] (newHotkey 0x46) [(True, 1, True), (True, 0, True), (False, 0, True), (True, 0, True)])
     = [False, False, False, True]"
proof -
  let ?ins = "[(True, 1, True), (True, 0, True), (False, 0, True), (True, 0, True)] :: (bool \<times> u32 \<times> bool) list"
  let ?run = "pollRun [(0x46, 1), (0x46, 0)] (newHotkey 0x46) ?ins"
  have "m_vk (newHotkey 0x46) \<noteq> 0" by (simp add: newHotkey_def)
  from press_edges_exact [OF this, of "[(0x46, 1), (0x46, 0)]" ?ins "fst ?run" "snd ?run"]
  show ?thesis by (simp add: newHotkey_def press_evals)
qed

end
