(* ===== verification/Gamepad.thy ===== *)
theory Gamepad
  imports Hotkeys HeadOffsetGate
begin

unbundle bit_operations_syntax

text \<open>
  \<^verbatim>\<open>src/d3d11/xinput_watch.h\<close> and \<^verbatim>\<open>xinput_watch.cpp\<close>: the XInput pad watched for the bindings of the game. The XInput
  library is a parameter: which of its names load, and what \<^verbatim>\<open>XInputGetState\<close> answers for a slot. Of a pad's state
  the three fields the module reads are kept. A null pointer is not modelled.
\<close>

section \<open>State\<close>

record PadState =
  wButtons :: "16 word"
  bLeftTrigger :: "8 word"
  bRightTrigger :: "8 word"

definition zeroPad :: PadState where
  "zeroPad = \<lparr>wButtons = 0, bLeftTrigger = 0, bRightTrigger = 0\<rparr>"

record XinputBinding =
  xb_buttons :: "16 word"
  xb_trigger :: "8 word"
  xb_notButtons :: "16 word"
  xb_valid :: bool

definition newBinding :: XinputBinding where
  "newBinding = \<lparr>xb_buttons = 0, xb_trigger = 0, xb_notButtons = 0, xb_valid = False\<rparr>"

record PadSlot =
  sl_connected :: bool
  sl_seenNoted :: bool
  sl_prev :: PadState
  sl_cur :: PadState
  sl_probeMs :: u64

definition newPadSlot :: PadSlot where
  "newPadSlot = \<lparr>sl_connected = False, sl_seenNoted = False, sl_prev = zeroPad, sl_cur = zeroPad, sl_probeMs = 0\<rparr>"

definition kProbeMs :: u64 where "kProbeMs = 3000"
definition kTriggerThreshold :: "8 word" where "kTriggerThreshold = 30"

text \<open>The globals of the module, with the flag of the line about an unknown name.\<close>

record PadWatch =
  g_getState :: bool
  g_loadTried :: bool
  g_loadFailedNoted :: bool
  s_unmappedNoted :: bool
  g_slot :: "PadSlot list"

definition newPadWatch :: PadWatch where
  "newPadWatch = \<lparr>g_getState = False, g_loadTried = False, g_loadFailedNoted = False, s_unmappedNoted = False,
     g_slot = replicate 4 newPadSlot\<rparr>"

section \<open>Names\<close>

definition kPadMap :: "(string \<times> 16 word \<times> 8 word) list" where
  "kPadMap =
     [(''GamePad_FaceDown'', 0x1000, 0), (''GamePad_FaceRight'', 0x2000, 0), (''GamePad_FaceLeft'', 0x4000, 0),
      (''GamePad_FaceUp'', 0x8000, 0), (''GamePad_A'', 0x1000, 0), (''GamePad_B'', 0x2000, 0),
      (''GamePad_X'', 0x4000, 0), (''GamePad_Y'', 0x8000, 0), (''GamePad_DPadUp'', 0x0001, 0),
      (''GamePad_DPadDown'', 0x0002, 0), (''GamePad_DPadLeft'', 0x0004, 0), (''GamePad_DPadRight'', 0x0008, 0),
      (''GamePad_Back'', 0x0020, 0), (''GamePad_Start'', 0x0010, 0), (''GamePad_LBumper'', 0x0100, 0),
      (''GamePad_RBumper'', 0x0200, 0), (''GamePad_LShoulder'', 0x0100, 0), (''GamePad_RShoulder'', 0x0200, 0),
      (''GamePad_LThumb'', 0x0040, 0), (''GamePad_RThumb'', 0x0080, 0), (''GamePad_LStick'', 0x0040, 0),
      (''GamePad_RStick'', 0x0080, 0), (''GamePad_LTrigger'', 0, 1), (''GamePad_RTrigger'', 0, 2)]"

definition dropAxisPrefix :: "string \<Rightarrow> string" where
  "dropAxisPrefix eliteKey =
     (if stricmp (take 4 eliteKey) ''Pos_'' \<or> stricmp (take 4 eliteKey) ''Neg_'' then drop 4 eliteKey else eliteKey)"

text \<open>Whether the name is known, the binding, and the module; the lines logged carry the name.\<close>

definition xinputTranslate :: "string \<Rightarrow> XinputBinding \<Rightarrow> PadWatch \<Rightarrow> bool \<times> XinputBinding \<times> PadWatch \<times> string list" where
  "xinputTranslate eliteKey out g =
     (let key = dropAxisPrefix eliteKey in
      case nameLookup kPadMap key of
        Some (buttons, trigger) \<Rightarrow> (True, out\<lparr>xb_buttons := buttons, xb_trigger := trigger, xb_valid := True\<rparr>, g, [])
      | None \<Rightarrow> (False, out, g\<lparr>s_unmappedNoted := True\<rparr>, if s_unmappedNoted g then [] else [key]))"

definition xinputVeto :: "string \<Rightarrow> XinputBinding \<Rightarrow> PadWatch \<Rightarrow> bool \<times> XinputBinding \<times> PadWatch \<times> string list" where
  "xinputVeto eliteKey out g =
     (case xinputTranslate eliteKey newBinding g of (ok, tmp, g1, notes) \<Rightarrow>
        if \<not> ok then (False, out, g1, notes)
        else (True, out\<lparr>xb_notButtons := xb_notButtons out OR xb_buttons tmp\<rparr>, g1, notes))"

section \<open>Polling\<close>

definition ensureLoaded :: "(string \<Rightarrow> bool) \<Rightarrow> PadWatch \<Rightarrow> bool \<times> PadWatch" where
  "ensureLoaded loads g =
     (if g_getState g then (True, g)
      else if g_loadTried g then (False, g)
      else if list_ex loads [''xinput9_1_0.dll'', ''xinput1_4.dll'', ''xinput1_3.dll'']
      then (True, g\<lparr>g_loadTried := True, g_getState := True\<rparr>)
      else (False, g\<lparr>g_loadTried := True, g_loadFailedNoted := True\<rparr>))"

definition heldPad :: "PadState \<Rightarrow> XinputBinding \<Rightarrow> bool" where
  "heldPad st b =
     (if xb_buttons b \<noteq> 0 \<and> wButtons st AND xb_buttons b \<noteq> xb_buttons b then False
      else if xb_notButtons b \<noteq> 0 \<and> wButtons st AND xb_notButtons b \<noteq> 0 then False
      else if xb_trigger b = 1 \<and> bLeftTrigger st \<le> kTriggerThreshold then False
      else if xb_trigger b = 2 \<and> bRightTrigger st \<le> kTriggerThreshold then False
      else xb_buttons b \<noteq> 0 \<or> xb_trigger b \<noteq> 0)"

definition dueMs :: "u64 \<Rightarrow> u64 \<Rightarrow> u64 \<Rightarrow> bool" where
  "dueMs t since every \<longleftrightarrow> since = 0 \<or> every \<le> t - since"

text \<open>One slot of a tick. \<open>clk\<close> is what the clock reads at the three places of the loop body, \<open>st\<close> what the library answers.\<close>

definition tickSlot :: "(nat \<Rightarrow> u64) \<Rightarrow> PadState option \<Rightarrow> PadSlot \<Rightarrow> PadSlot" where
  "tickSlot clk answer s =
     (if \<not> sl_connected s \<and> \<not> dueMs (clk 0) (sl_probeMs s) kProbeMs then s
      else
        (let s1 = (if \<not> sl_connected s then s\<lparr>sl_probeMs := stampMs (clk 1)\<rparr> else s);
             s2 = s1\<lparr>sl_prev := sl_cur s1\<rparr>
         in case answer of
              Some st \<Rightarrow>
                (let s3 = s2\<lparr>sl_cur := st\<rparr> in
                 if \<not> sl_connected s3 then s3\<lparr>sl_connected := True, sl_prev := st, sl_seenNoted := True\<rparr> else s3)
            | None \<Rightarrow>
                (if sl_connected s2
                 then s2\<lparr>sl_connected := False, sl_probeMs := stampMs (clk 2), sl_cur := zeroPad\<rparr>
                 else s2)))"

definition xinputWatchTick ::
    "(string \<Rightarrow> bool) \<Rightarrow> (nat \<Rightarrow> PadState option) \<Rightarrow> (nat \<Rightarrow> nat \<Rightarrow> u64) \<Rightarrow> PadWatch \<Rightarrow> PadWatch" where
  "xinputWatchTick loads get clk g =
     (case ensureLoaded loads g of (ok, g1) \<Rightarrow>
        if \<not> ok then g1
        else g1\<lparr>g_slot := map2 (\<lambda>i s. tickSlot (clk i) (get i) s) [0..<4] (g_slot g1)\<rparr>)"

definition xinputPressed :: "XinputBinding \<Rightarrow> PadWatch \<Rightarrow> bool" where
  "xinputPressed b g =
     (if \<not> xb_valid b \<or> \<not> g_getState g then False
      else list_ex (\<lambda>s. sl_connected s \<and> heldPad (sl_cur s) b \<and> \<not> heldPad (sl_prev s) b) (g_slot g))"

end
