(* ===== verification/GamepadProps.thy ===== *)
theory GamepadProps
  imports Gamepad
begin

unbundle bit_operations_syntax

text \<open>
  What the pad watch promises: a press is a change between two answers of a pad that stayed connected, a known name
  watches one button or trigger; and where the keyboard's rule on held keys has no counterpart.
\<close>

section \<open>The shape of the state\<close>

definition padOk :: "PadWatch \<Rightarrow> bool" where
  "padOk g \<longleftrightarrow> length (g_slot g) = 4 \<and>
     (\<forall>s \<in> set (g_slot g). (\<not> g_getState g \<longrightarrow> \<not> sl_connected s) \<and> (\<not> sl_connected s \<longrightarrow> sl_cur s = zeroPad))"

lemma ensureLoaded_result:
  "ensureLoaded loads g = (ok, g1) \<Longrightarrow> g_slot g1 = g_slot g \<and> (ok \<longleftrightarrow> g_getState g1) \<and> (g_getState g \<longrightarrow> ok)"
  by (auto simp: ensureLoaded_def split: if_splits)

lemma tickSlot_zero:
  "(\<not> sl_connected s \<longrightarrow> sl_cur s = zeroPad) \<Longrightarrow> \<not> sl_connected (tickSlot clk a s) \<longrightarrow> sl_cur (tickSlot clk a s) = zeroPad"
  by (auto simp: tickSlot_def Let_def split: option.splits)

lemma tick_padOk: "padOk g \<Longrightarrow> padOk (xinputWatchTick loads get clk g)"
proof -
  assume ok: "padOk g"
  obtain l g1 where e: "ensureLoaded loads g = (l, g1)" by force
  note r = ensureLoaded_result [OF e]
  show ?thesis
  proof (cases l)
    case True
    have "(\<not> sl_connected t \<longrightarrow> sl_cur t = zeroPad)"
      if t: "t \<in> set (map2 (\<lambda>i s. tickSlot (clk i) (get i) s) [0..<4] (g_slot g))" for t
    proof -
      from t obtain i s where "t = tickSlot (clk i) (get i) s" "s \<in> set (g_slot g)"
        by (auto dest: set_zip_rightD)
      then show ?thesis using ok tickSlot_zero [of s "clk i" "get i"] by (auto simp: padOk_def)
    qed
    then show ?thesis using True r ok by (simp add: xinputWatchTick_def e padOk_def)
  next
    case False
    then show ?thesis using r ok by (auto simp: xinputWatchTick_def e padOk_def)
  qed
qed

text \<open>A tick: what loads, the answers of the library, and the clock.\<close>

type_synonym tick = "(string \<Rightarrow> bool) \<times> (nat \<Rightarrow> PadState option) \<times> (nat \<Rightarrow> nat \<Rightarrow> u64)"

fun padTick :: "tick \<Rightarrow> PadWatch \<Rightarrow> PadWatch" where
  "padTick (loads, get, clk) g = xinputWatchTick loads get clk g"

lemma padTick_ok: "padOk g \<Longrightarrow> padOk (padTick t g)"
  by (cases t) (auto intro: tick_padOk)

interpretation pad: op_machine padTick "\<lambda>_. True" padOk
  by unfold_locales (rule padTick_ok)

lemma ticks_padOk: "padOk (fold padTick ts newPadWatch)"
  by (rule pad.run_inv) (auto simp: list_all_iff padOk_def newPadWatch_def newPadSlot_def)

section \<open>Presses\<close>

lemma tickSlot_press:
  assumes "sl_connected (tickSlot clk a s)" "heldPad (sl_cur (tickSlot clk a s)) b" "\<not> heldPad (sl_prev (tickSlot clk a s)) b"
  shows "sl_connected s \<and> (\<exists>st. a = Some st \<and> heldPad st b) \<and> \<not> heldPad (sl_cur s) b"
  using assms by (cases "sl_connected s") (auto simp: tickSlot_def Let_def split: option.splits if_splits)

text \<open>
  After any ticks, a binding that reads as pressed right after a tick was not held in the last answer of some pad that was
  connected before the tick, and is held in the answer of this tick. A pad that connects, or comes back, with a button held
  is no press, and neither is a pad that drops out.
\<close>

theorem pad_press_is_transition:
  assumes "xinputPressed b (padTick (loads, get, clk) (fold padTick ts newPadWatch))"
  shows "\<exists>i < 4. \<exists>st. sl_connected (g_slot (fold padTick ts newPadWatch) ! i) \<and>
      \<not> heldPad (sl_cur (g_slot (fold padTick ts newPadWatch) ! i)) b \<and> get i = Some st \<and> heldPad st b"
proof -
  let ?g = "fold padTick ts newPadWatch"
  have ok: "padOk ?g" by (rule ticks_padOk)
  obtain l g1 where e: "ensureLoaded loads ?g = (l, g1)" by force
  note r = ensureLoaded_result [OF e]
  have l: l using assms r by (auto simp: xinputPressed_def xinputWatchTick_def e split: if_splits)
  then obtain s where s: "s \<in> set (map2 (\<lambda>i s. tickSlot (clk i) (get i) s) [0..<4] (g_slot ?g))"
      "sl_connected s" "heldPad (sl_cur s) b" "\<not> heldPad (sl_prev s) b"
    using assms r by (auto simp: xinputPressed_def xinputWatchTick_def e list_ex_iff split: if_splits)
  then obtain i where i: "i < 4" "s = tickSlot (clk i) (get i) (g_slot ?g ! i)"
    using ok by (auto simp: set_zip padOk_def)
  then show ?thesis using tickSlot_press [of "clk i" "get i" "g_slot ?g ! i" b] s by auto
qed

section \<open>Names\<close>

text \<open>A known name watches one button or one trigger.\<close>

lemma nameLookup_Some: "nameLookup es k = Some v \<Longrightarrow> \<exists>n. (n, v) \<in> set es \<and> stricmp k n"
  by (induction es k rule: nameLookup.induct) (auto split: if_splits)

lemma padMap_single:
  "(n, b, t) \<in> set kPadMap \<Longrightarrow> (b \<noteq> 0 \<and> t = 0) \<or> (b = 0 \<and> (t = 1 \<or> t = 2))"
  by (auto simp: kPadMap_def)

lemma translated_held:
  assumes "xinputTranslate k newBinding g = (True, b, g', ns)"
  shows "xb_valid b \<and> (xb_buttons b \<noteq> 0 \<and> (heldPad st b \<longleftrightarrow> wButtons st AND xb_buttons b = xb_buttons b) \<or>
     xb_trigger b = 1 \<and> (heldPad st b \<longleftrightarrow> kTriggerThreshold < bLeftTrigger st) \<or>
     xb_trigger b = 2 \<and> (heldPad st b \<longleftrightarrow> kTriggerThreshold < bRightTrigger st))"
proof -
  obtain bt tr where l: "nameLookup kPadMap (dropAxisPrefix k) = Some (bt, tr)"
    "b = newBinding\<lparr>xb_buttons := bt, xb_trigger := tr, xb_valid := True\<rparr>"
    using assms by (auto simp: xinputTranslate_def Let_def split: option.splits)
  then have "(bt \<noteq> 0 \<and> tr = 0) \<or> (bt = 0 \<and> (tr = 1 \<or> tr = 2))"
    using nameLookup_Some [OF l(1)] padMap_single by blast
  then consider "bt \<noteq> 0" "tr = 0" | "bt = 0" "tr = 1" | "bt = 0" "tr = 2" by blast
  then show ?thesis by cases (simp_all add: l(2) heldPad_def newBinding_def flip: not_le)
qed

section \<open>A chord that is let go\<close>

lemma tickSlot_connected:
  "sl_connected s \<Longrightarrow> tickSlot clk (Some st) s = s\<lparr>sl_prev := sl_cur s, sl_cur := st\<rparr>"
  by (simp add: tickSlot_def Let_def)

text \<open>
  C38: The pad has no counterpart to the keyboard's rule that a press needs the key to have been up. After any ticks, if a connected pad
  was last seen with a vetoed button of a binding down, and the next answer has the vetoed buttons up and the bound ones down,
  the binding reads as pressed, also when the bound buttons were down all along.
\<close>

theorem released_veto_presses:
  assumes "g = fold padTick ts newPadWatch" and "i < 4" and "sl_connected (g_slot g ! i)"
    and "xb_valid b" and "xb_buttons b \<noteq> 0" and "xb_trigger b = 0"
    and "wButtons (sl_cur (g_slot g ! i)) AND xb_notButtons b \<noteq> 0"
    and "get i = Some st" and "wButtons st AND xb_buttons b = xb_buttons b" and "wButtons st AND xb_notButtons b = 0"
  shows "xinputPressed b (padTick (loads, get, clk) g)"
proof -
  let ?s = "g_slot g ! i"
  have ok: "padOk g" unfolding assms(1) by (rule ticks_padOk)
  have len: "length (g_slot g) = 4" and "?s \<in> set (g_slot g)" using ok assms(2) by (auto simp: padOk_def)
  then have "g_getState g" using ok assms(3) by (auto simp: padOk_def)
  then have e: "ensureLoaded loads g = (True, g)" by (simp add: ensureLoaded_def)
  have "(i, ?s) \<in> set (zip [0..<4] (g_slot g))"
    unfolding set_zip using assms(2) len by (auto intro!: exI [of _ i])
  then have "tickSlot (clk i) (get i) ?s \<in> set (map2 (\<lambda>i s. tickSlot (clk i) (get i) s) [0..<4] (g_slot g))" by force
  moreover have "tickSlot (clk i) (get i) ?s = ?s\<lparr>sl_prev := sl_cur ?s, sl_cur := st\<rparr>"
    using assms(3,8) by (simp add: tickSlot_connected)
  moreover have "heldPad st b" "\<not> heldPad (sl_cur ?s) b" using assms(5-10) by (auto simp: heldPad_def)
  ultimately have "list_ex (\<lambda>s. sl_connected s \<and> heldPad (sl_cur s) b \<and> \<not> heldPad (sl_prev s) b)
      (map2 (\<lambda>i s. tickSlot (clk i) (get i) s) [0..<4] (g_slot g))"
    using assms(3) unfolding list_ex_iff by (intro bexI [of _ "?s\<lparr>sl_prev := sl_cur ?s, sl_cur := st\<rparr>"]) auto
  then show ?thesis using assms(4) \<open>g_getState g\<close> by (simp add: xinputWatchTick_def e xinputPressed_def)
qed

text \<open>A veto on a trigger is accepted and vetoes nothing, whatever the name, the binding and the module's state.\<close>

theorem trigger_veto_is_void:
  assumes "xinputTranslate key newBinding g = (True, t, g1, ns)" and "xb_trigger t \<noteq> 0"
  shows "xinputVeto key b g = (True, b, g1, ns)"
proof -
  obtain bt tr where l: "nameLookup kPadMap (dropAxisPrefix key) = Some (bt, tr)" "xb_buttons t = bt" "xb_trigger t = tr"
    using assms(1) by (auto simp: xinputTranslate_def Let_def split: option.splits)
  then have "bt = 0" using nameLookup_Some [OF l(1)] padMap_single assms(2) by blast
  then show ?thesis using assms(1) l(2) by (simp add: xinputVeto_def)
qed

text \<open>The view cycle on the pad's right arrow, taught that the camera toggle is that arrow with the B button.\<close>

definition viewBinding :: XinputBinding where
  "viewBinding = fst (snd (xinputVeto ''GamePad_FaceRight''
     (fst (snd (xinputTranslate ''GamePad_DPadRight'' newBinding newPadWatch))) newPadWatch))"

definition padTicks :: "16 word list \<Rightarrow> tick list" where
  "padTicks = map (\<lambda>w. (\<lambda>_. True, \<lambda>i. if i = 0 then Some (zeroPad\<lparr>wButtons := w\<rparr>) else None, \<lambda>_ _. 1))"

lemma viewBinding_eq: "viewBinding = \<lparr>xb_buttons = 8, xb_trigger = 0, xb_notButtons = 0x2000, xb_valid = True\<rparr>"
  by (simp add: viewBinding_def xinputVeto_def xinputTranslate_def dropAxisPrefix_def stricmp_def to_lower_def kPadMap_def newBinding_def char_of_def Let_def)

theorem trigger_veto_is_void_witness:
  "xinputVeto ''Pos_GamePad_LTrigger'' viewBinding newPadWatch = (True, viewBinding, newPadWatch, [])"
proof -
  have "xinputTranslate ''Pos_GamePad_LTrigger'' newBinding newPadWatch =
      (True, newBinding\<lparr>xb_trigger := 1, xb_valid := True\<rparr>, newPadWatch, [])"
    by (simp add: xinputTranslate_def dropAxisPrefix_def stricmp_def to_lower_def kPadMap_def newBinding_def char_of_def Let_def)
  from trigger_veto_is_void [OF this] show ?thesis by simp
qed

text \<open>B, then B with the arrow, then the arrow alone.\<close>

theorem released_veto_presses_witness:
  "\<not> xinputPressed viewBinding (fold padTick (padTicks [0, 0x2000, 0x2008]) newPadWatch) \<and>
   xinputPressed viewBinding (padTick (hd (padTicks [0x0008])) (fold padTick (padTicks [0, 0x2000, 0x2008]) newPadWatch))"
proof -
  let ?g = "fold padTick (padTicks [0, 0x2000, 0x2008]) newPadWatch" and ?t = "hd (padTicks [0x0008])"
  have 1: "\<not> xinputPressed viewBinding ?g" "sl_connected (g_slot ?g ! 0)" "wButtons (sl_cur (g_slot ?g ! 0)) = 0x2008"
    unfolding viewBinding_eq by code_simp+
  have t: "?t = (fst ?t, fst (snd ?t), snd (snd ?t))" by simp
  have a: "fst (snd ?t) 0 = Some (zeroPad\<lparr>wButtons := 8\<rparr>)" by (simp add: padTicks_def)
  have "xinputPressed viewBinding (padTick (fst ?t, fst (snd ?t), snd (snd ?t)) ?g)"
    by (rule released_veto_presses [of ?g "padTicks [0, 0x2000, 0x2008]" 0 viewBinding "fst (snd ?t)" "zeroPad\<lparr>wButtons := 8\<rparr>"])
      (use 1(2,3) a in \<open>simp_all add: viewBinding_eq\<close>)
  then show ?thesis using 1(1) by simp
qed

theorem pad_press_is_transition_witness:
  "xinputPressed viewBinding (padTick (hd (padTicks [0x0008])) (fold padTick (padTicks [0]) newPadWatch)) \<and>
   sl_connected (g_slot (fold padTick (padTicks [0]) newPadWatch) ! 0)"
proof -
  let ?t = "hd (padTicks [0x0008])"
  have p: "xinputPressed viewBinding (padTick ?t (fold padTick (padTicks [0]) newPadWatch))"
    unfolding viewBinding_eq by code_simp
  have t: "?t = (fst ?t, fst (snd ?t), snd (snd ?t))" by simp
  obtain i st where "i < 4" "sl_connected (g_slot (fold padTick (padTicks [0]) newPadWatch) ! i)" "fst (snd ?t) i = Some st"
    using pad_press_is_transition [of viewBinding "fst ?t" "fst (snd ?t)" "snd (snd ?t)" "padTicks [0]"] p
    unfolding t [symmetric] by blast
  moreover have "i = 0" using calculation(3) by (simp add: padTicks_def split: if_splits)
  ultimately show ?thesis using p by simp
qed

end
