(* ===== verification/Publications.thy ===== *)
theory Publications
  imports Prelude Complex_Main
begin

unbundle bit_operations_syntax

text \<open>
  \<^verbatim>\<open>src/openxr/compositor_publication.h\<close>, \<^verbatim>\<open>system_publication.h\<close> with \<^verbatim>\<open>game_render_size.h\<close>, and \<^verbatim>\<open>readHiddenMask\<close> of
  \<^verbatim>\<open>visibility_mask.h\<close>: what the game's cached reads see of the runtime. Every operation is one hold of a mutex, so a run
  is a sequence of operations. A pose is of any type with a zero, which stands for \<^verbatim>\<open>{}\<close>. The conversion of a
  tracking sample to game-facing geometry (\<^verbatim>\<open>makeGeometrySnapshot\<close>, \<^verbatim>\<open>shiftedRawFov\<close>) is floating point and an argument of the
  operation that uses it.
\<close>

section \<open>The compositor's reads\<close>

datatype TrackingOrigin = TrackingUniverseSeated | TrackingUniverseStanding | TrackingUniverseRawAndUncalibrated | OtherOrigin int

record 'p CompositorRead =
  cr_generation :: u64
  cr_sequence :: u64
  cr_originGeneration :: u64
  cr_renderTime :: i64
  cr_gameTime :: i64
  cr_origin :: TrackingOrigin
  cr_connected :: bool
  cr_posesAvailable :: bool
  cr_renderPose :: 'p
  cr_gamePose :: 'p
  cr_canRenderKnown :: bool
  cr_canRender :: bool

definition emptyRead :: "('p :: zero) CompositorRead" where
  "emptyRead = \<lparr>cr_generation = 0, cr_sequence = 0, cr_originGeneration = 0, cr_renderTime = 0, cr_gameTime = 0,
     cr_origin = TrackingUniverseSeated, cr_connected = False, cr_posesAvailable = False, cr_renderPose = 0, cr_gamePose = 0,
     cr_canRenderKnown = False, cr_canRender = False\<rparr>"

record 'p CompositorPublication =
  cp_state :: "'p CompositorRead"
  cp_generation :: u64

definition newCompositor :: "('p :: zero) CompositorPublication" where
  "newCompositor = \<lparr>cp_state = emptyRead, cp_generation = 0\<rparr>"

definition validOrigin :: "TrackingOrigin \<Rightarrow> bool" where
  "validOrigin origin' \<longleftrightarrow> origin' = TrackingUniverseSeated \<or> origin' = TrackingUniverseStanding \<or>
     origin' = TrackingUniverseRawAndUncalibrated"

definition cpLive :: "u64 \<Rightarrow> 'p CompositorPublication \<Rightarrow> bool" where
  "cpLive generation c \<longleftrightarrow> generation \<noteq> 0 \<and> generation = cr_generation (cp_state c)"

definition clearPoses :: "('p :: zero) CompositorRead \<Rightarrow> 'p CompositorRead" where
  "clearPoses r = r\<lparr>cr_posesAvailable := False, cr_renderTime := 0, cr_gameTime := 0, cr_renderPose := 0, cr_gamePose := 0\<rparr>"

definition cpBegin :: "TrackingOrigin \<Rightarrow> ('p :: zero) CompositorPublication \<Rightarrow> u64 \<times> 'p CompositorPublication" where
  "cpBegin origin' c =
     (if cr_generation (cp_state c) \<noteq> 0 \<or> cp_generation c = - 1 \<or> \<not> validOrigin origin' then (0, c)
      else
        (let g = cp_generation c + 1 in
         (g, c\<lparr>cp_generation := g, cp_state := emptyRead\<lparr>cr_generation := g, cr_originGeneration := 1, cr_origin := origin',
            cr_connected := True\<rparr>\<rparr>)))"

definition cpPublish :: "'p CompositorRead \<Rightarrow> ('p :: zero) CompositorPublication \<Rightarrow> bool \<times> 'p CompositorPublication" where
  "cpPublish candidate c =
     (let s = cp_state c in
      if \<not> cpLive (cr_generation candidate) c \<or> cr_originGeneration candidate \<noteq> cr_originGeneration s \<or>
         cr_origin candidate \<noteq> cr_origin s \<or> cr_sequence candidate = 0 \<or> cr_sequence candidate \<le> cr_sequence s \<or>
         \<not> cr_posesAvailable candidate \<or> \<not> cr_connected candidate
      then (False, c)
      else (True, c\<lparr>cp_state := candidate\<lparr>cr_canRenderKnown := cr_canRenderKnown s, cr_canRender := cr_canRender s\<rparr>\<rparr>))"

definition cpChangeOrigin :: "u64 \<Rightarrow> TrackingOrigin \<Rightarrow> ('p :: zero) CompositorPublication \<Rightarrow> bool \<times> 'p CompositorPublication" where
  "cpChangeOrigin generation origin' c =
     (if \<not> cpLive generation c \<or> \<not> validOrigin origin' then (False, c)
      else if origin' = cr_origin (cp_state c) then (True, c)
      else if cr_originGeneration (cp_state c) = - 1 then (False, c)
      else (True, c\<lparr>cp_state := clearPoses ((cp_state c)\<lparr>cr_originGeneration := cr_originGeneration (cp_state c) + 1,
              cr_origin := origin'\<rparr>)\<rparr>))"

definition cpResetOrigin :: "u64 \<Rightarrow> ('p :: zero) CompositorPublication \<Rightarrow> bool \<times> 'p CompositorPublication" where
  "cpResetOrigin generation c =
     (if \<not> cpLive generation c \<or> cr_originGeneration (cp_state c) = - 1 then (False, c)
      else (True, c\<lparr>cp_state := clearPoses ((cp_state c)\<lparr>cr_originGeneration := cr_originGeneration (cp_state c) + 1\<rparr>)\<rparr>))"

definition cpInvalidate :: "u64 \<Rightarrow> ('p :: zero) CompositorPublication \<Rightarrow> 'p CompositorPublication" where
  "cpInvalidate generation c = (if cpLive generation c then c\<lparr>cp_state := clearPoses (cp_state c)\<rparr> else c)"

definition cpFocus :: "u64 \<Rightarrow> bool \<Rightarrow> bool \<Rightarrow> ('p :: zero) CompositorPublication \<Rightarrow> 'p CompositorPublication" where
  "cpFocus generation known canRender c =
     (if cpLive generation c
      then c\<lparr>cp_state := (cp_state c)\<lparr>cr_canRenderKnown := known, cr_canRender := known \<and> canRender\<rparr>\<rparr> else c)"

definition cpRetire :: "u64 \<Rightarrow> ('p :: zero) CompositorPublication \<Rightarrow> 'p CompositorPublication" where
  "cpRetire generation c = (if cpLive generation c then c\<lparr>cp_state := emptyRead\<rparr> else c)"

section \<open>The system's reads\<close>

definition gameFacingDimension :: "u32 \<Rightarrow> u32" where
  "gameFacingDimension v = (if v = 0 \<or> 16384 < v then 0 else (v + 1) AND NOT 1)"

text \<open>
  A float is a rational or \<open>None\<close> for an infinity or not-a-number. A pair is the array over the two eyes. A matrix is
  the list of its twelve entries, a pose its quaternion and position, an angular field of view its four angles.
\<close>

type_synonym cfloat = "rat option"
type_synonym HmdMatrix34 = "cfloat list"
type_synonym XrPose = "cfloat list"
type_synonym XrFov = "cfloat list"
type_synonym TangentShift = "(cfloat \<times> cfloat) \<times> (cfloat \<times> cfloat)"

record RawFov =
  fov_left :: cfloat
  fov_right :: cfloat
  fov_top :: cfloat
  fov_bottom :: cfloat

record XrViewIn =
  xv_isView :: bool
  xv_hasNext :: bool
  xv_pose :: XrPose
  xv_fov :: XrFov

record GeometryInput =
  gi_generation :: u64
  gi_sequence :: u64
  gi_displayTime :: i64
  gi_views :: "XrViewIn \<times> XrViewIn"
  gi_viewFlags :: u64
  gi_headPose :: XrPose
  gi_headFlags :: u64
  gi_width :: "u32 \<times> u32"
  gi_height :: "u32 \<times> u32"
  gi_queryFov :: "XrFov \<times> XrFov"
  gi_queryFovValid :: bool

record GeometrySnapshot =
  gs_native :: GeometryInput
  gs_headToLocal :: HmdMatrix34
  gs_eyeToHead :: "HmdMatrix34 \<times> HmdMatrix34"
  gs_raw :: "RawFov \<times> RawFov"
  gs_queryRaw :: "(RawFov \<times> RawFov) option"

text \<open>
  The floating-point functions: whether a pose is finite with a unit quaternion, the tangents of a field of view, the
  matrix of the head, the matrix of an eye relative to the head, and whether a field of view can be shifted.
\<close>

record GeometryMath =
  gm_poseValid :: "XrPose \<Rightarrow> bool"
  gm_fovToRaw :: "XrFov \<Rightarrow> RawFov option"
  gm_headMatrix :: "XrPose \<Rightarrow> HmdMatrix34 option"
  gm_eyeMatrix :: "XrPose \<Rightarrow> XrPose \<Rightarrow> HmdMatrix34 option"
  gm_shiftable :: "RawFov \<Rightarrow> cfloat \<times> cfloat \<Rightarrow> bool"

definition sizeOk :: "u32 \<Rightarrow> bool" where
  "sizeOk v \<longleftrightarrow> v \<noteq> 0 \<and> v \<le> 0x7fffffff"

definition xrViewOk :: "GeometryMath \<Rightarrow> XrViewIn \<Rightarrow> bool" where
  "xrViewOk gm v \<longleftrightarrow> xv_isView v \<and> \<not> xv_hasNext v \<and> gm_poseValid gm (xv_pose v)"

fun bothSome :: "'a option \<Rightarrow> 'b option \<Rightarrow> ('a \<times> 'b) option" where
  "bothSome (Some x) (Some y) = Some (x, y)"
| "bothSome _ _ = None"

definition makeGeometrySnapshot :: "GeometryMath \<Rightarrow> GeometryInput \<Rightarrow> GeometrySnapshot option" where
  "makeGeometrySnapshot gm i =
     (if gi_generation i = 0 \<or> gi_sequence i = 0 \<or> \<not> bit (gi_viewFlags i) 0 \<or> \<not> bit (gi_viewFlags i) 1 \<or>
         \<not> bit (gi_headFlags i) 0 \<or> \<not> bit (gi_headFlags i) 1 \<or> \<not> gm_poseValid gm (gi_headPose i) then None
      else if \<not> (sizeOk (fst (gi_width i)) \<and> sizeOk (fst (gi_height i)) \<and> xrViewOk gm (fst (gi_views i))) then None
      else if \<not> (sizeOk (snd (gi_width i)) \<and> sizeOk (snd (gi_height i)) \<and> xrViewOk gm (snd (gi_views i))) then None
      else case bothSome (gm_fovToRaw gm (xv_fov (fst (gi_views i)))) (gm_fovToRaw gm (xv_fov (snd (gi_views i)))) of
        None \<Rightarrow> None
      | Some raw \<Rightarrow>
          (let queryRaw = bothSome (gm_fovToRaw gm (fst (gi_queryFov i))) (gm_fovToRaw gm (snd (gi_queryFov i))) in
           if gi_queryFovValid i \<and> queryRaw = None then None
           else case gm_headMatrix gm (gi_headPose i) of
             None \<Rightarrow> None
           | Some head \<Rightarrow>
               (case bothSome (gm_eyeMatrix gm (gi_headPose i) (xv_pose (fst (gi_views i))))
                              (gm_eyeMatrix gm (gi_headPose i) (xv_pose (snd (gi_views i)))) of
                  None \<Rightarrow> None
                | Some eyes \<Rightarrow> Some \<lparr>gs_native = i, gs_headToLocal = head, gs_eyeToHead = eyes, gs_raw = raw,
                    gs_queryRaw = (if gi_queryFovValid i then queryRaw else None)\<rparr>)))"

record SystemOptics =
  so_generation :: u64
  so_sequence :: u64
  so_raw :: "RawFov \<times> RawFov"
  so_eyeToHead :: "HmdMatrix34 \<times> HmdMatrix34"

record NativeHiddenMask =
  hm_vertices :: "(cfloat \<times> cfloat) list"
  hm_indices :: "u32 list"

record NativeHiddenMasks =
  hs_generation :: u64
  hs_revision :: u64
  hs_eyes :: "NativeHiddenMask \<times> NativeHiddenMask"
  hs_guard :: TangentShift

text \<open>
  \<^verbatim>\<open>geometry\<close> and \<^verbatim>\<open>optics\<close> keep their validity flags beside them; \<open>None\<close> is the cleared value. Of what the publication only
  carries from its metadata, the two transforms with their flags are options.
\<close>

record SystemRead =
  sr_generation :: u64
  sr_connected :: bool
  sr_geometryValid :: bool
  sr_focusKnown :: bool
  sr_focused :: bool
  sr_opticsValid :: bool
  sr_recommendedWidth :: "u32 \<times> u32"
  sr_recommendedHeight :: "u32 \<times> u32"
  sr_geometry :: "GeometrySnapshot option"
  sr_optics :: "SystemOptics option"
  sr_adapterIndex :: int
  sr_runtimeName :: string
  sr_systemName :: string
  sr_displayFrequencyAvailable :: bool
  sr_displayFrequency :: cfloat
  sr_displayFrequencyEstimated :: bool
  sr_hiddenMasks :: "NativeHiddenMasks option"
  sr_hiddenMasksCompatible :: bool
  sr_seatedToStanding :: "HmdMatrix34 option"
  sr_rawToStanding :: "HmdMatrix34 option"
  sr_tangentShift :: TangentShift

record SystemPublication =
  sp_state :: SystemRead
  sp_generation :: u64
  sp_sequence :: u64
  sp_active :: bool

definition noShift :: TangentShift where
  "noShift = ((Some 0, Some 0), (Some 0, Some 0))"

definition emptySystem :: SystemRead where
  "emptySystem = \<lparr>sr_generation = 0, sr_connected = False, sr_geometryValid = False, sr_focusKnown = False, sr_focused = False,
     sr_opticsValid = False, sr_recommendedWidth = (0, 0), sr_recommendedHeight = (0, 0), sr_geometry = None, sr_optics = None,
     sr_adapterIndex = - 1, sr_runtimeName = [], sr_systemName = [], sr_displayFrequencyAvailable = False,
     sr_displayFrequency = Some 0, sr_displayFrequencyEstimated = False, sr_hiddenMasks = None, sr_hiddenMasksCompatible = True,
     sr_seatedToStanding = None, sr_rawToStanding = None, sr_tangentShift = noShift\<rparr>"

definition newSystem :: SystemPublication where
  "newSystem = \<lparr>sp_state = emptySystem, sp_generation = 0, sp_sequence = 0, sp_active = False\<rparr>"

definition clearGeometry :: "SystemRead \<Rightarrow> SystemRead" where
  "clearGeometry s = s\<lparr>sr_geometryValid := False, sr_geometry := None, sr_tangentShift := noShift\<rparr>"

definition spBegin :: "SystemRead \<Rightarrow> SystemPublication \<Rightarrow> u64 \<times> SystemPublication" where
  "spBegin metadata p =
     (if sp_active p \<or> sp_generation p = - 1 then (0, p)
      else
        (let g = sp_generation p + 1;
             m = metadata\<lparr>sr_generation := g, sr_geometry := None, sr_geometryValid := False, sr_optics := None,
               sr_opticsValid := False, sr_hiddenMasks := None, sr_hiddenMasksCompatible := True,
               sr_recommendedWidth := map_prod gameFacingDimension gameFacingDimension (sr_recommendedWidth metadata),
               sr_recommendedHeight := map_prod gameFacingDimension gameFacingDimension (sr_recommendedHeight metadata),
               sr_tangentShift := noShift\<rparr>
         in (g, \<lparr>sp_state = m, sp_generation = g, sp_sequence = 0, sp_active = True\<rparr>)))"

text \<open>The shifts of a sample that is not valid do not matter, as both cases clear the geometry.\<close>

definition spPublish ::
    "GeometryMath \<Rightarrow> GeometryInput \<Rightarrow> bool \<Rightarrow> bool \<Rightarrow> TangentShift option \<Rightarrow> bool \<Rightarrow>
     SystemPublication \<Rightarrow> bool \<times> SystemPublication" where
  "spPublish gm input focusKnown focused tangentShift masksCompatible p =
     (if \<not> sp_active p \<or> gi_generation input \<noteq> sp_generation p \<or> gi_sequence input \<le> sp_sequence p then (False, p)
      else
        (let p1 = p\<lparr>sp_sequence := gi_sequence input\<rparr>;
             s1 = (sp_state p)\<lparr>sr_hiddenMasksCompatible := masksCompatible\<rparr>
         in case makeGeometrySnapshot gm input of
              None \<Rightarrow> (False, p1\<lparr>sp_state := clearGeometry (s1\<lparr>sr_focusKnown := focusKnown, sr_focused := focused\<rparr>)\<rparr>)
            | Some c \<Rightarrow>
                (let s2 = s1\<lparr>sr_optics := Some \<lparr>so_generation = gi_generation (gs_native c), so_sequence = gi_sequence (gs_native c),
                       so_raw = gs_raw c, so_eyeToHead = gs_eyeToHead c\<rparr>, sr_opticsValid := True, sr_geometryValid := True,
                       sr_focusKnown := focusKnown, sr_focused := focused\<rparr>
                 in if (case tangentShift of None \<Rightarrow> True
                        | Some (l, r) \<Rightarrow> gm_shiftable gm (fst (gs_raw c)) l \<and> gm_shiftable gm (snd (gs_raw c)) r)
                    then (True, p1\<lparr>sp_state := s2\<lparr>sr_geometry := Some c,
                       sr_tangentShift := (case tangentShift of None \<Rightarrow> noShift | Some sh \<Rightarrow> sh)\<rparr>\<rparr>)
                    else (False, p1\<lparr>sp_state := clearGeometry s2\<rparr>))))"

definition spInvalidate :: "u64 \<Rightarrow> SystemPublication \<Rightarrow> SystemPublication" where
  "spInvalidate generation p =
     (if sp_active p \<and> generation = sp_generation p then p\<lparr>sp_state := clearGeometry (sp_state p)\<rparr> else p)"

definition spRetire :: "u64 \<Rightarrow> SystemPublication \<Rightarrow> SystemPublication" where
  "spRetire generation p =
     (if generation = sp_generation p then p\<lparr>sp_state := emptySystem, sp_active := False\<rparr> else p)"

definition spDisplayFrequency :: "u64 \<Rightarrow> cfloat \<Rightarrow> bool \<Rightarrow> SystemPublication \<Rightarrow> bool \<times> SystemPublication" where
  "spDisplayFrequency generation hz estimated p =
     (if (case hz of None \<Rightarrow> True | Some h \<Rightarrow> h \<le> 0) then (False, p)
      else if \<not> sp_active p \<or> generation \<noteq> sp_generation p then (False, p)
      else (True, p\<lparr>sp_state := (sp_state p)\<lparr>sr_displayFrequency := hz, sr_displayFrequencyAvailable := True,
              sr_displayFrequencyEstimated := estimated\<rparr>\<rparr>))"

definition spHiddenMasks :: "u64 \<Rightarrow> NativeHiddenMasks option \<Rightarrow> SystemPublication \<Rightarrow> bool \<times> SystemPublication" where
  "spHiddenMasks generation masks p =
     (if \<not> sp_active p \<or> generation \<noteq> sp_generation p \<or> (case masks of None \<Rightarrow> False | Some m \<Rightarrow> hs_generation m \<noteq> generation)
      then (False, p)
      else (True, p\<lparr>sp_state := (sp_state p)\<lparr>sr_hiddenMasks := masks\<rparr>\<rparr>))"

definition tooBig :: "u32 \<Rightarrow> bool" where
  "tooBig v \<longleftrightarrow> v = 0 \<or> 16384 < v"

definition spRecommend :: "u32 \<times> u32 \<Rightarrow> u32 \<times> u32 \<Rightarrow> SystemPublication \<Rightarrow> SystemPublication" where
  "spRecommend width height p =
     (if \<not> sp_active p then p
      else if tooBig (fst width) \<or> tooBig (fst height) \<or> tooBig (snd width) \<or> tooBig (snd height) then p
      else p\<lparr>sp_state := (sp_state p)\<lparr>sr_recommendedWidth := map_prod gameFacingDimension gameFacingDimension width,
             sr_recommendedHeight := map_prod gameFacingDimension gameFacingDimension height\<rparr>\<rparr>)"

section \<open>The hidden mask\<close>

text \<open>
  The runtime's answer to the two calls of an attempt: the result and the counts, and for the second what it wrote into
  the buffers. The session handle and the entry point are present and the eye is one of the two, or the call is refused.
\<close>

type_synonym maskResult = int

record MaskAnswer =
  ma_result :: maskResult
  ma_vertexCount :: u32
  ma_indexCount :: u32
  ma_vertices :: "nat \<Rightarrow> cfloat \<times> cfloat"
  ma_indices :: "nat \<Rightarrow> u32"

definition kMaskSuccess :: maskResult where "kMaskSuccess = 0"
definition kMaskLossPending :: maskResult where "kMaskLossPending = 3"
definition kMaskValidationFailure :: maskResult where "kMaskValidationFailure = - 1"
definition kMaskRuntimeFailure :: maskResult where "kMaskRuntimeFailure = - 2"
definition kMaskLimitReached :: maskResult where "kMaskLimitReached = - 10"
definition kMaskSizeInsufficient :: maskResult where "kMaskSizeInsufficient = - 11"

definition emptyMask :: NativeHiddenMask where
  "emptyMask = \<lparr>hm_vertices = [], hm_indices = []\<rparr>"

definition maskCallFailed :: "maskResult \<Rightarrow> maskResult option" where
  "maskCallFailed r =
     (if r \<noteq> kMaskSuccess \<and> r \<noteq> kMaskLossPending then Some (if r < 0 then r else kMaskRuntimeFailure) else None)"

text \<open>The second half of an attempt: \<open>Inl\<close> a refusal, \<open>Inr\<close> the mesh.\<close>

definition takeMask :: "u32 \<Rightarrow> u32 \<Rightarrow> MaskAnswer \<Rightarrow> maskResult + NativeHiddenMask" where
  "takeMask vertexCapacity indexCapacity a =
     (case maskCallFailed (ma_result a) of
        Some r \<Rightarrow> Inl r
      | None \<Rightarrow>
          if vertexCapacity < ma_vertexCount a \<or> indexCapacity < ma_indexCount a \<or> ma_indexCount a mod 3 \<noteq> 0
          then Inl kMaskRuntimeFailure
          else
            (let vs = map (ma_vertices a) [0..<unat (ma_vertexCount a)];
                 is = map (ma_indices a) [0..<unat (ma_indexCount a)]
             in if list_ex (\<lambda>(x, y). x = None \<or> y = None) vs then Inl kMaskRuntimeFailure
                else if list_ex (\<lambda>i. length vs \<le> unat i) is then Inl kMaskRuntimeFailure
                else Inr \<lparr>hm_vertices = vs, hm_indices = is\<rparr>))"

text \<open>\<open>query n k\<close> answers call \<open>k\<close> of the attempt that leaves \<open>n\<close> more.\<close>

fun maskAttempts :: "(nat \<Rightarrow> nat \<Rightarrow> MaskAnswer) \<Rightarrow> nat \<Rightarrow> maskResult + NativeHiddenMask" where
  "maskAttempts query 0 = Inl kMaskSizeInsufficient"
| "maskAttempts query (Suc n) =
     (let a = query n 0 in
      case maskCallFailed (ma_result a) of
        Some r \<Rightarrow> Inl r
      | None \<Rightarrow>
          if ma_vertexCount a = 0 \<and> ma_indexCount a = 0 then Inr emptyMask
          else if ma_vertexCount a = 0 \<or> ma_indexCount a = 0 \<or> ma_indexCount a mod 3 \<noteq> 0 \<or>
             8192 < ma_vertexCount a \<or> 24576 < ma_indexCount a then Inl kMaskLimitReached
          else
            (let b = query n 1 in
             if ma_result b = kMaskSizeInsufficient then maskAttempts query n
             else takeMask (ma_vertexCount a) (ma_indexCount a) b))"

definition readHiddenMask :: "bool \<Rightarrow> bool \<Rightarrow> nat \<Rightarrow> (nat \<Rightarrow> nat \<Rightarrow> MaskAnswer) \<Rightarrow> maskResult \<times> NativeHiddenMask" where
  "readHiddenMask haveQuery haveSession eye query =
     (if \<not> haveQuery \<or> \<not> haveSession \<or> 1 < eye then (kMaskValidationFailure, emptyMask)
      else case maskAttempts query 3 of Inl r \<Rightarrow> (r, emptyMask) | Inr m \<Rightarrow> (kMaskSuccess, m))"

end
