(* ===== verification/PublicationProps.thy ===== *)
theory PublicationProps
  imports Publications
begin

unbundle bit_operations_syntax

text \<open>
  What readers of the two publications can rely on, whatever the owner calls: reads are coherent, a frame made before a change of
  the origin is never shown after it, sizes are even, calibration outlives bad samples, and a hidden mask is well formed.
\<close>

section \<open>The compositor\<close>

datatype 'p CpOp = CpBegin TrackingOrigin | CpPublish "'p CompositorRead" | CpChangeOrigin u64 TrackingOrigin
  | CpResetOrigin u64 | CpInvalidate u64 | CpFocus u64 bool bool | CpRetire u64

fun cpExec :: "('p :: zero) CpOp \<Rightarrow> 'p CompositorPublication \<Rightarrow> 'p CompositorPublication" where
  "cpExec (CpBegin org) c = snd (cpBegin org c)"
| "cpExec (CpPublish r) c = snd (cpPublish r c)"
| "cpExec (CpChangeOrigin g org) c = snd (cpChangeOrigin g org c)"
| "cpExec (CpResetOrigin g) c = snd (cpResetOrigin g c)"
| "cpExec (CpInvalidate g) c = cpInvalidate g c"
| "cpExec (CpFocus g k r) c = cpFocus g k r c"
| "cpExec (CpRetire g) c = cpRetire g c"

lemmas cp_defs = cpBegin_def cpPublish_def cpChangeOrigin_def cpResetOrigin_def cpInvalidate_def cpFocus_def cpRetire_def
  cpLive_def clearPoses_def Let_def

text \<open>A publication shows nothing, or the generation it last gave out, with poses only when a frame was taken.\<close>

definition cpOk :: "('p :: zero) CompositorPublication \<Rightarrow> bool" where
  "cpOk c \<longleftrightarrow> (let s = cp_state c in
     (cr_generation s = 0 \<longrightarrow> s = emptyRead) \<and>
     (cr_generation s \<noteq> 0 \<longrightarrow> cr_generation s = cp_generation c \<and> cr_connected s \<and> validOrigin (cr_origin s)) \<and>
     (cr_posesAvailable s \<longrightarrow> cr_sequence s \<noteq> 0) \<and>
     (\<not> cr_posesAvailable s \<longrightarrow> cr_renderTime s = 0 \<and> cr_gameTime s = 0 \<and> cr_renderPose s = 0 \<and> cr_gamePose s = 0) \<and>
     (cr_canRender s \<longrightarrow> cr_canRenderKnown s))"

lemma cpExec_ok: "cpOk c \<Longrightarrow> cpOk (cpExec a c)"
  by (cases a) (auto simp: cpOk_def cp_defs emptyRead_def split: if_splits dest: succ_word)

text \<open>A frame of an earlier generation, or of an earlier origin of this one.\<close>

definition staleFrame :: "'p CompositorRead \<Rightarrow> ('p :: zero) CompositorPublication \<Rightarrow> bool" where
  "staleFrame r c \<longleftrightarrow> cr_generation r < cp_generation c \<or>
     cr_generation r = cp_generation c \<and>
       (cr_generation (cp_state c) = 0 \<or> cr_originGeneration r < cr_originGeneration (cp_state c))"

lemma cpExec_stale: "cpOk c \<Longrightarrow> staleFrame r c \<Longrightarrow> staleFrame r (cpExec a c)"
  by (cases a) (auto simp: cpOk_def staleFrame_def cp_defs emptyRead_def split: if_splits dest: succ_word)

interpretation cp: op_machine cpExec "\<lambda>_. True" cpOk
  by unfold_locales (rule cpExec_ok)

interpretation cps: op_machine cpExec "\<lambda>_. True" "\<lambda>c. cpOk c \<and> staleFrame r c" for r
  by unfold_locales (auto intro: cpExec_ok cpExec_stale)

lemma cp_run_ok: "cpOk (fold cpExec ops newCompositor)"
  by (rule cp.run_inv) (auto simp: list_all_iff cpOk_def newCompositor_def emptyRead_def)

lemma stale_refused: "cpOk c \<Longrightarrow> staleFrame r c \<Longrightarrow> cpPublish r c = (False, c)"
  by (auto simp: cpOk_def staleFrame_def cp_defs)

text \<open>
  C40: A frame that was made under the generation and the origin readers see now is never published once the origin has been reset or
  moved, or the generation retired, whatever is called in between: no read can pair the new origin with poses of the old one.
\<close>

theorem frame_before_recenter_refused:
  assumes "c = fold cpExec ops newCompositor" and "cr_generation r = cr_generation (cp_state c)" and "cr_generation r \<noteq> 0"
    and "cr_originGeneration r = cr_originGeneration (cp_state c)"
    and "cpResetOrigin g c = (True, c') \<or> cpChangeOrigin g org c = (True, c') \<and> org \<noteq> cr_origin (cp_state c) \<or>
         c' = cpRetire (cr_generation r) c"
  shows "cpPublish r (fold cpExec later c') = (False, fold cpExec later c')"
proof -
  have ok: "cpOk c" unfolding assms(1) by (rule cp_run_ok)
  have "c' \<in> {cpExec (CpResetOrigin g) c, cpExec (CpChangeOrigin g org) c, cpExec (CpRetire (cr_generation r)) c}"
    using assms(5) by auto
  then have ok': "cpOk c'" using cpExec_ok [OF ok] by (auto simp del: cpExec.simps)
  have "staleFrame r c'"
    using assms(2-5) ok
    by (auto simp: cpOk_def staleFrame_def cp_defs emptyRead_def split: if_splits dest: succ_word)
  with ok' have "cpOk (fold cpExec later c') \<and> staleFrame r (fold cpExec later c')"
    by (intro cps.run_inv) (auto simp: list_all_iff)
  then show ?thesis using stale_refused by blast
qed

definition firstFrame :: "nat CompositorRead" where
  "firstFrame = emptyRead\<lparr>cr_generation := 1, cr_originGeneration := 1, cr_sequence := 7, cr_connected := True,
     cr_posesAvailable := True, cr_renderPose := 5\<rparr>"

definition started :: "nat CompositorPublication" where
  "started = fold cpExec [CpBegin TrackingUniverseSeated] newCompositor"

theorem frame_before_recenter_refused_witness:
  "fst (cpPublish firstFrame started) \<and>
   \<not> fst (cpPublish firstFrame (fold cpExec [CpFocus 1 True True] (snd (cpResetOrigin 1 started))))"
proof -
  have s: "started = \<lparr>cp_state = emptyRead\<lparr>cr_generation := 1, cr_originGeneration := 1, cr_connected := True\<rparr>, cp_generation = 1\<rparr>"
    by (simp add: started_def newCompositor_def cp_defs emptyRead_def validOrigin_def)
  have 1: "cr_generation firstFrame = cr_generation (cp_state started)" "cr_generation firstFrame \<noteq> 0"
    "cr_originGeneration firstFrame = cr_originGeneration (cp_state started)"
    "cpResetOrigin 1 started = (True, snd (cpResetOrigin 1 started))"
    by (simp_all add: s firstFrame_def emptyRead_def cp_defs)
  note r = frame_before_recenter_refused [of started "[CpBegin TrackingUniverseSeated]" firstFrame 1
    "snd (cpResetOrigin 1 started)" TrackingUniverseSeated "[CpFocus 1 True True]", OF started_def 1(1-3)]
  have "fst (cpPublish firstFrame started)" by (simp add: s firstFrame_def emptyRead_def cp_defs)
  then show ?thesis using r 1(4) by simp
qed

section \<open>The system\<close>

datatype SpOp = SpBegin SystemRead | SpPublish GeometryMath GeometryInput bool bool "TangentShift option" bool | SpInvalidate u64
  | SpRetire u64 | SpDisplayFrequency u64 cfloat bool | SpHiddenMasks u64 "NativeHiddenMasks option" | SpRecommend "u32 \<times> u32" "u32 \<times> u32"

fun spExec :: "SpOp \<Rightarrow> SystemPublication \<Rightarrow> SystemPublication" where
  "spExec (SpBegin m) p = snd (spBegin m p)"
| "spExec (SpPublish gm i k f sh mc) p = snd (spPublish gm i k f sh mc p)"
| "spExec (SpInvalidate g) p = spInvalidate g p"
| "spExec (SpRetire g) p = spRetire g p"
| "spExec (SpDisplayFrequency g hz e) p = snd (spDisplayFrequency g hz e p)"
| "spExec (SpHiddenMasks g m) p = snd (spHiddenMasks g m p)"
| "spExec (SpRecommend w h) p = spRecommend w h p"

lemma snapshot_native: "makeGeometrySnapshot gm i = Some c \<Longrightarrow> gs_native c = i"
  by (auto simp: makeGeometrySnapshot_def Let_def split: if_splits option.splits)

definition evenSize :: "u32 \<Rightarrow> bool" where
  "evenSize v \<longleftrightarrow> \<not> bit v 0 \<and> v \<le> 16384"

lemma gameFacing_even [simp]: "evenSize (gameFacingDimension v)"
proof (cases "v = 0 \<or> 16384 < v")
  case False
  let ?x = "(v + 1) AND NOT 1"
  have b: "\<not> bit ?x 0" by (simp add: bit_simps)
  have v: "unat v \<le> 16384" using False by (simp add: word_less_nat_alt)
  then have "unat (v + 1) = unat v + 1" by (simp add: unat_word_ariths)
  then have "unat ?x \<le> 16385" using word_and_le2 [of "v + 1" "NOT 1"] v by (simp add: word_le_nat_alt)
  moreover have "unat ?x \<noteq> 16385"
  proof
    assume "unat ?x = 16385"
    then have "?x = 16385" by (simp add: word_unat_eq_iff)
    then show False using b by simp
  qed
  ultimately show ?thesis using False b by (simp add: evenSize_def gameFacingDimension_def word_le_nat_alt)
qed (simp add: evenSize_def gameFacingDimension_def)

definition geometryOk :: "SystemPublication \<Rightarrow> bool" where
  "geometryOk p \<longleftrightarrow> (let s = sp_state p in
     (sr_geometryValid s \<longleftrightarrow> sr_geometry s \<noteq> None) \<and> (sr_opticsValid s \<longleftrightarrow> sr_optics s \<noteq> None) \<and>
     (\<forall>g. sr_geometry s = Some g \<longrightarrow> gi_generation (gs_native g) = sp_generation p \<and> gi_sequence (gs_native g) = sp_sequence p \<and>
        sr_optics s = Some \<lparr>so_generation = sp_generation p, so_sequence = sp_sequence p, so_raw = gs_raw g, so_eyeToHead = gs_eyeToHead g\<rparr>) \<and>
     (\<forall>k. sr_optics s = Some k \<longrightarrow> so_generation k = sp_generation p \<and> so_sequence k \<le> sp_sequence p))"

definition restOk :: "SystemPublication \<Rightarrow> bool" where
  "restOk p \<longleftrightarrow> (let s = sp_state p in
     (sp_active p \<longrightarrow> sr_generation s = sp_generation p \<and> sp_generation p \<noteq> 0) \<and> (\<not> sp_active p \<longrightarrow> s = emptySystem) \<and>
     (\<forall>m. sr_hiddenMasks s = Some m \<longrightarrow> hs_generation m = sp_generation p) \<and>
     list_all evenSize [fst (sr_recommendedWidth s), snd (sr_recommendedWidth s), fst (sr_recommendedHeight s), snd (sr_recommendedHeight s)])"

lemma spPublish_cases:
  obtains (refused) "spPublish gm i k f sh mc p = (False, p)"
  | (bad) "sp_sequence p < gi_sequence i" "gi_generation i = sp_generation p" "sp_active p"
      "spPublish gm i k f sh mc p = (False, p\<lparr>sp_sequence := gi_sequence i, sp_state := clearGeometry
         ((sp_state p)\<lparr>sr_hiddenMasksCompatible := mc, sr_focusKnown := k, sr_focused := f\<rparr>)\<rparr>)"
  | (good) c where "sp_sequence p < gi_sequence i" "gi_generation i = sp_generation p" "sp_active p" "gs_native c = i"
      "\<exists>ok gv gg ts. spPublish gm i k f sh mc p = (ok, p\<lparr>sp_sequence := gi_sequence i, sp_state :=
         (sp_state p)\<lparr>sr_hiddenMasksCompatible := mc, sr_focusKnown := k, sr_focused := f,
           sr_optics := Some \<lparr>so_generation = gi_generation i, so_sequence = gi_sequence i, so_raw = gs_raw c, so_eyeToHead = gs_eyeToHead c\<rparr>,
           sr_opticsValid := True, sr_geometryValid := gv, sr_geometry := gg, sr_tangentShift := ts\<rparr>\<rparr>) \<and>
         (ok \<and> gv \<and> gg = Some c \<or> \<not> ok \<and> \<not> gv \<and> gg = None)"
proof (cases "sp_active p \<and> gi_generation i = sp_generation p \<and> sp_sequence p < gi_sequence i")
  case False
  then show ?thesis using refused by (auto simp: spPublish_def not_less)
next
  case True
  show ?thesis
  proof (cases "makeGeometrySnapshot gm i")
    case None
    then show ?thesis using True by (intro bad) (auto simp: spPublish_def Let_def)
  next
    case (Some c)
    let ?ok = "case sh of None \<Rightarrow> True | Some (l, r) \<Rightarrow> gm_shiftable gm (fst (gs_raw c)) l \<and> gm_shiftable gm (snd (gs_raw c)) r"
    let ?sh = "case sh of None \<Rightarrow> noShift | Some x \<Rightarrow> x"
    show ?thesis
    proof (rule good [of c])
      show "gs_native c = i" by (rule snapshot_native [OF Some])
      note n = this
      show "\<exists>ok gv gg ts. spPublish gm i k f sh mc p = (ok, p\<lparr>sp_sequence := gi_sequence i, sp_state :=
         (sp_state p)\<lparr>sr_hiddenMasksCompatible := mc, sr_focusKnown := k, sr_focused := f,
           sr_optics := Some \<lparr>so_generation = gi_generation i, so_sequence = gi_sequence i, so_raw = gs_raw c, so_eyeToHead = gs_eyeToHead c\<rparr>,
           sr_opticsValid := True, sr_geometryValid := gv, sr_geometry := gg, sr_tangentShift := ts\<rparr>\<rparr>) \<and>
         (ok \<and> gv \<and> gg = Some c \<or> \<not> ok \<and> \<not> gv \<and> gg = None)"
        using True n
        by (intro exI [of _ ?ok] exI [of _ "if ?ok then Some c else None"] exI [of _ "if ?ok then ?sh else noShift"])
          (simp add: spPublish_def Let_def Some clearGeometry_def linorder_not_le [symmetric])
    qed (use True in simp_all)
  qed
qed

lemmas sp_defs = spBegin_def spInvalidate_def spRetire_def spDisplayFrequency_def spHiddenMasks_def spRecommend_def
  clearGeometry_def emptySystem_def Let_def

lemma spPublish_ok: "geometryOk p \<Longrightarrow> geometryOk (snd (spPublish gm i k f sh mc p))"
  by (rule spPublish_cases [of gm i k f sh mc p]) (auto simp: geometryOk_def clearGeometry_def Let_def)

lemma spPublish_rest: "restOk p \<Longrightarrow> restOk (snd (spPublish gm i k f sh mc p))"
  by (rule spPublish_cases [of gm i k f sh mc p]) (auto simp: restOk_def clearGeometry_def Let_def)

lemma spExec_geometry: "restOk p \<Longrightarrow> geometryOk p \<Longrightarrow> geometryOk (spExec a p)"
proof (cases a)
  case (SpPublish gm i k f sh mc)
  then show "geometryOk p \<Longrightarrow> ?thesis" by (simp add: spPublish_ok)
qed (auto simp: geometryOk_def sp_defs split: if_splits option.splits)

lemma spExec_rest: "restOk p \<Longrightarrow> restOk (spExec a p)"
proof (cases a)
  case (SpPublish gm i k f sh mc)
  then show "restOk p \<Longrightarrow> ?thesis" by (simp add: spPublish_rest)
next
  case (SpBegin m)
  then show "restOk p \<Longrightarrow> ?thesis" using succ_word [of "sp_generation p"] by (auto simp: restOk_def spBegin_def Let_def)
next
  case (SpRetire g)
  then show "restOk p \<Longrightarrow> ?thesis" by (auto simp: restOk_def spRetire_def Let_def emptySystem_def evenSize_def)
qed (auto simp: restOk_def spInvalidate_def spDisplayFrequency_def spHiddenMasks_def spRecommend_def clearGeometry_def Let_def
      split: if_splits option.splits)

interpretation sp: op_machine spExec "\<lambda>_. True" "\<lambda>p. restOk p \<and> geometryOk p"
  by unfold_locales (auto intro: spExec_rest spExec_geometry)

text \<open>
  Whatever is called, a read is coherent. The geometry is there exactly when it is marked valid, it is that of the latest accepted
  sample of the running generation, and the calibration beside it is the calibration of that same sample; hidden masks are
  of the running generation; the recommended sizes are even and at most 16384; a retired publication shows the empty read.
\<close>

theorem system_reads_coherent:
  "restOk (fold spExec ops newSystem) \<and> geometryOk (fold spExec ops newSystem)"
  by (rule sp.run_inv) (auto simp: list_all_iff restOk_def geometryOk_def newSystem_def emptySystem_def evenSize_def)

text \<open>Calibration outlives bad samples, invalidations and refused calls until the generation is retired.\<close>

fun isRetire :: "SpOp \<Rightarrow> bool" where
  "isRetire (SpRetire _) = True"
| "isRetire _ = False"

theorem optics_outlive_bad_samples:
  assumes "list_all (\<lambda>a. \<not> isRetire a) ops" and "sp_active p \<and> sr_opticsValid (sp_state p)"
  shows "sp_active (fold spExec ops p) \<and> sr_opticsValid (sp_state (fold spExec ops p))"
  using assms
proof (induction ops arbitrary: p)
  case (Cons a ops)
  have "sp_active (spExec a p) \<and> sr_opticsValid (sp_state (spExec a p))"
  proof (cases a)
    case (SpPublish gm i k f sh mc)
    show ?thesis unfolding SpPublish
      by (rule spPublish_cases [of gm i k f sh mc p]) (use Cons.prems in \<open>auto simp: clearGeometry_def\<close>)
  qed (use Cons.prems in \<open>auto simp: sp_defs split: option.splits\<close>)
  then show ?case using Cons by simp
qed simp

section \<open>Hidden masks\<close>

text \<open>A mesh that may be drawn: finite vertices, whole triangles over them, and bounded sizes.\<close>

definition maskOk :: "NativeHiddenMask \<Rightarrow> bool" where
  "maskOk m \<longleftrightarrow> length (hm_vertices m) \<le> 8192 \<and> length (hm_indices m) \<le> 24576 \<and> 3 dvd length (hm_indices m) \<and>
     (\<forall>v \<in> set (hm_vertices m). fst v \<noteq> None \<and> snd v \<noteq> None) \<and> (\<forall>i \<in> set (hm_indices m). unat i < length (hm_vertices m))"

lemma emptyMask_ok: "maskOk emptyMask"
  by (simp add: maskOk_def emptyMask_def)

lemma takeMask_ok: "takeMask vc ic a = Inr m \<Longrightarrow> vc \<le> 8192 \<Longrightarrow> ic \<le> 24576 \<Longrightarrow> maskOk m"
proof -
  assume t: "takeMask vc ic a = Inr m" and c: "vc \<le> 8192" "ic \<le> 24576"
  have le: "ma_vertexCount a \<le> vc" "ma_indexCount a \<le> ic" "ma_indexCount a mod 3 = 0"
    using t by (auto simp: takeMask_def Let_def split: option.splits if_splits)
  have "unat (ma_indexCount a) mod 3 = 0"
    using arg_cong [OF le(3), of unat] by (simp add: unat_mod)
  moreover have "unat (ma_vertexCount a) \<le> 8192" "unat (ma_indexCount a) \<le> 24576"
    using order.trans [OF le(1) c(1)] order.trans [OF le(2) c(2)] by (simp_all add: word_le_nat_alt)
  moreover have m: "m = \<lparr>hm_vertices = map (ma_vertices a) [0..<unat (ma_vertexCount a)],
      hm_indices = map (ma_indices a) [0..<unat (ma_indexCount a)]\<rparr>"
    using t by (auto simp: takeMask_def Let_def split: option.splits if_splits)
  moreover have "\<not> list_ex (\<lambda>(x, y). x = None \<or> y = None) (hm_vertices m)"
    "\<not> list_ex (\<lambda>i. length (hm_vertices m) \<le> unat i) (hm_indices m)"
    unfolding m using t by (simp_all add: takeMask_def Let_def split: option.splits if_splits)
  ultimately show ?thesis by (auto simp: maskOk_def list_ex_iff not_le dvd_eq_mod_eq_0)
qed

lemma maskAttempts_ok: "maskAttempts query n = Inr m \<Longrightarrow> maskOk m"
  by (induction n) (auto simp: Let_def emptyMask_ok not_less intro: takeMask_ok split: option.splits if_splits)

text \<open>
  Whatever the runtime answers, a hidden mask that is read has whole triangles over finite vertices within the limits, and
  a refused one is empty; at most three attempts are made.
\<close>

theorem hidden_mask_well_formed: "maskOk (snd (readHiddenMask haveQuery haveSession eye query))"
  by (auto simp: readHiddenMask_def emptyMask_ok intro: maskAttempts_ok split: sum.splits)

end
