(* ===== verification/Spec2Isabelle.thy ===== *)
theory Spec2Isabelle
  imports IniMergeProps GameConfigProps SessionProps BoundaryProps PresentQueue ReferenceChanges ResetEvents RuntimeGate
    RuntimeLifecycle InstallDisk NativeStartup GpuSpanResults ClockProps OwnerProps DispatchProps VelocityProps HeadOffsetProps FlashProps
    SettingsProps HeadsetProps HotkeyProps GamepadProps PublicationProps
begin

text \<open>
  \<^bold>\<open>EDVR: a verification library.\<close>

  EDVR is a patch for a VR game: a \<^verbatim>\<open>d3d11.dll\<close> that fixes the picture, an \<^verbatim>\<open>openvr_api.dll\<close> that serves the game's
  OpenVR calls from OpenXR, an installer that puts both beside the game, and one settings file, \<^verbatim>\<open>edvr.ini\<close>. The
  sources are under \<^verbatim>\<open>src/\<close>. This library models the parts that decide what happens to the user's files and what
  the OpenXR runtime and the GPU driver are asked to do, and proves that they do what they mean to.

  \<^bold>\<open>How the parts interact.\<close> The installer surveys the game folder, plans, and runs the plan; its settings step is the
  three-way merge of the ini editor, its record is written in the ini dialect, and its startup configuration is what
  the runtime's own strict reader takes. In the game, the config reader loads \<^verbatim>\<open>edvr.ini\<close>; the runtime lifecycle starts
  a backend, whose calls hold leases of the operation gate; the frame boundary drives the session policy and the
  frame pacer for the game's \<^verbatim>\<open>WaitGetPoses\<close> and \<^verbatim>\<open>Submit\<close>; the present work queue brings work to the render thread, and
  the render thread brings its own to the owner thread through the dispatcher over the owner service; the GPU clocks
  time it. Among the fixes in \<^verbatim>\<open>d3d11\<close>, the head offset gate decides from what is drawn and from the settings when the
  player is in the external camera on foot, the velocity patcher rewrites the game's shaders, and the flash prevention
  decides when a wrong camera pose of the game may be replaced.

  \<^bold>\<open>Theories, in the order of import.\<close>

  \<^item> \<open>Prelude\<close>: machine types, bytes and strings, lists, words, ordered maps, and the interfaces \<open>op_machine\<close> (a
    component driven by operations, with an invariant), \<open>step_machine\<close> (a component with several threads, as a step
    relation) and \<open>bounded_fifo\<close>. Every stateful component interprets one of them on its own definitions.
  \<^item> \<open>IniEdit\<close>, \<open>IniMerge\<close> (\<^verbatim>\<open>common/iniedit.cpp\<close>): lines, parsing, rewriting one line; the merge of the new file, the
    user's file and the base, with its report and emission. \<open>IniLines\<close>, \<open>IniKeys\<close>, \<open>IniMergeLaws\<close> hold what emission and
    every step of the merge keep; \<open>IniMergeProps\<close> proves that parsing and printing round-trip, that a rewritten line
    reads back, that a value the user changed survives and an unchanged one follows the new default, that forced keys
    read back, and two flaws (see the end).
  \<^item> \<open>GameConfig\<close>, \<open>GameConfigProps\<close> (\<^verbatim>\<open>common/config.cpp\<close>): parse, audit of moved and dead keys, reload and the
    getters; the reader and the editor agree on every setting, the audit never overrides the file and says each
    thing once, numbers stay in range, an unreadable file changes nothing.
  \<^item> \<open>HeadsetEntries\<close>, \<open>HeadsetProps\<close> (\<^verbatim>\<open>common/openxr_resolution_entries.h\<close>): settings kept per headset. Names sanitise to
    themselves, lists read back, and what the menu merges for a headset is what is resolved for it.
  \<^item> \<open>SessionState\<close>, \<open>SessionProps\<close> (\<^verbatim>\<open>openxr/session_state.h\<close>): every operation against an arbitrary runtime, whose
    answers are a function of the calls so far; the calls are in an order OpenXR allows, and a frame token ends one
    frame.
  \<^item> \<open>FramePacer\<close>, \<open>FrameBoundary\<close>, \<open>BoundaryProps\<close> (\<^verbatim>\<open>openxr/frame_pacer.h\<close>, \<^verbatim>\<open>frame_boundary.h\<close>): the pacer's two threads
    as steps under the mutex; the boundary over an arbitrary runtime, sink, clock and pacer. Calls in order, display
    times handed out never go back, the pacer is never stuck and refines the two-flag view the boundary has of it.
  \<^item> \<open>PresentQueue\<close>, \<open>RuntimeGate\<close>, \<open>RuntimeLifecycle\<close> (\<^verbatim>\<open>present_work_queue.h\<close>, \<^verbatim>\<open>runtime_gate.h\<close> with
    \<^verbatim>\<open>present_quiescence.h\<close>, \<^verbatim>\<open>runtime_lifecycle.h\<close>): one step per hold of the mutex, invariants by rule induction:
    callbacks run once and in order and no caller is lost, a lease pins its generation, starts and stops of the
    backend never overlap and the token never wraps.
  \<^item> \<open>Publications\<close>, \<open>PublicationProps\<close> (\<^verbatim>\<open>compositor_publication.h\<close>, \<^verbatim>\<open>system_publication.h\<close>, \<^verbatim>\<open>geometry_snapshot.h\<close>, \<^verbatim>\<open>visibility_mask.h\<close>):
    what the game's cached reads see. A frame made before a change of the origin is never shown after it, geometry and
    calibration of a read belong together, sizes are even, and hidden masks are whole triangles over finite vertices.
  \<^item> \<open>ReferenceChanges\<close>, \<open>ResetEvents\<close> (\<^verbatim>\<open>reference_changes.h\<close> with \<^verbatim>\<open>loading_state.h\<close>, \<^verbatim>\<open>reset_events.h\<close>): the sorted
    pending changes and when they apply, the loading policy, and the reset ring as a bounded queue.
  \<^item> \<open>InstallRecord\<close>, \<open>InstallPlan\<close>, \<open>InstallApply\<close> (\<^verbatim>\<open>installer/state.cpp\<close>, \<^verbatim>\<open>plan.cpp\<close> with the survey, \<^verbatim>\<open>apply.cpp\<close>): the
    record, the two planners as stages that extend a plan, and the executor over an arbitrary Windows, in which every
    call may fail, a failed copy may leave anything behind and a write may be short. \<open>RollbackProps\<close>: a failed run that
    reports a rollback restored every file whose snapshots were hashed, a stale plan does nothing, a file is replaced whole or not at all.
    \<open>InstallCopies\<close>, \<open>InstallDisk\<close>: a plan copies before it destroys, and a completed install loses no file it found.
  \<^item> \<open>SettingsEditor\<close>, \<open>SettingsProps\<close> (\<^verbatim>\<open>installer/settings.cpp\<close>): the settings window over the ini editor and the same arbitrary
    Windows. A change rewrites one line of the file, a failed one changes nothing, and the rows show what the game reads.
  \<^item> \<open>LocalConfig\<close>, \<open>NativeStartup\<close> (\<^verbatim>\<open>openxr/native_local_config.h\<close> and its writer in \<^verbatim>\<open>plan.cpp\<close>): the strict reader, the
    scoped manifest variable, and that the reader accepts what the installer writes.
  \<^item> \<open>GpuScope\<close>, \<open>GpuSpans\<close>, \<open>GpuSpanProps\<close>, \<open>GpuSpanResults\<close>, \<open>DisjointClock\<close>, \<open>ClockProps\<close>
    (\<^verbatim>\<open>common/gpu_span_state.h\<close>, \<^verbatim>\<open>gpu_disjoint_clock.h\<close>): the order of calls a timestamp driver allows as an
    interface (\<open>gpu_client\<close>, which extends \<open>op_machine\<close>), interpreted by both clocks; valid times are real intervals, a
    measurement is reported once, records are well formed, and a released lease never becomes valid again.
  \<^item> \<open>OwnerService\<close>, \<open>OwnerProps\<close>, \<open>RenderDispatch\<close>, \<open>DispatchProps\<close> (\<^verbatim>\<open>openxr/owner_service.h\<close>,
    \<^verbatim>\<open>render_thread_dispatcher.h\<close>): the worker thread and its callers as two step relations, and the rendezvous of the
    render thread with it on top. Requests complete once, the finalizer runs last, a stop terminates and returns; a
    graphics job runs only inside its boundary, and neither side is left waiting.
  \<^item> \<open>DxbcContainer\<close>, \<open>DxbcProps\<close>, \<open>DxbcVelocity\<close>, \<open>VelocityPrograms\<close>, \<open>VelocityProps\<close> (\<^verbatim>\<open>d3d11/dxbc_container.h\<close>,
    \<^verbatim>\<open>dxbc_engine_velocity.h\<close>): containers, signatures and token streams of shaders as bytes and words. The parser never
    reads out of bounds, containers round-trip, and a patched shader reads back as the original with exactly what the
    patch means to add.
  \<^item> \<open>HeadOffsetGate\<close>, \<open>HeadOffsetProps\<close> (\<^verbatim>\<open>d3d11/head_offset_gate.cpp\<close> with its flag in \<^verbatim>\<open>common/frame_flag.cpp\<close> and the
    clock of \<^verbatim>\<open>timing.h\<close>): every operation of the gate over an arbitrary clock; when the flag may read on, what it takes
    to enter the camera, that a second press and a dead gate end the offset.
  \<^item> \<open>FlashPrevent\<close>, \<open>FlashProps\<close> (\<^verbatim>\<open>d3d11/transition_flash_prevent_core.h\<close> and the decisions of \<^verbatim>\<open>transition_flash_prevent.cpp\<close>): the
    guard table as an abstract map, the events and their treatment, the session cap, the budget and the dump windows; a
    pose is replaced only for a parent in good standing and in at most two hundred frames.
  \<^item> \<open>Hotkeys\<close>, \<open>HotkeyProps\<close>, \<open>Gamepad\<close>, \<open>GamepadProps\<close> (\<^verbatim>\<open>common/hotkey.cpp\<close>, \<^verbatim>\<open>d3d11/xinput_watch.cpp\<close>): the keys and pad
    buttons the gate and the fixes listen to. One press belongs to one binding, an edge needs the key to have been up,
    chords read back, a pad press is a change between two answers of a connected pad; and where presses are lost or minted.

  \<^bold>\<open>Conventions.\<close> A struct is a record whose fields carry a two-letter prefix, an enum a datatype; 32- and 64-bit
  integers are words where they can wrap, sizes and indices naturals, -1 as "none" is \<open>None\<close>. A method returns its
  result with the new state. Code outside the sources is an argument: the OpenXR runtime, Windows, the hash function,
  the GPU driver. A wide string is its UTF-8 text. Loops are structural, or have a termination proof (line splitting,
  chunked writes, folder trees, segment sums, names of keys); there is no fuel. A \<^verbatim>\<open>double\<close> is the rational it rounds. User-facing
  texts of the planner are constructors.

  \<^bold>\<open>Hypotheses worth knowing.\<close> Statements about restored files take the hash to be injective. They hold wherever Windows
  fails, but for a file whose snapshot could not be read back when its hash was recorded; an example shows that this case is real. Statements about backups take the
  backup folder to be apart from the files the survey found.

  \<^bold>\<open>What the proofs found.\<close> A value that begins with a comment mark is lost by the merge; lines appended after an
  unterminated last line are glued to it; two hashes that could not be read agree, so a wrong restore can be reported
  as complete; the head offset gate refuses the first view it reads outside the camera, which it means to take;
  the cap of the flash prevention can replace the pose of one eye and not of the other in one frame; two chords on one key can suppress each other, a
  former binding of a key goes on suppressing the new one, on the pad letting go of a vetoed button is a press and a veto on a
  trigger does nothing; the check for a stale plan passes over backup steps without a guard.

  \<^bold>\<open>Not modelled.\<close> The other rendering fixes of \<^verbatim>\<open>src/d3d11\<close> and the D3D11, OpenXR and OpenVR bindings work on live GPU
  and runtime objects; the hooking code patches machine code; probing parses PE images and version resources; the
  windows of the installer, its settings view and its log bundle are user interface; \<^verbatim>\<open>getFloat\<close>, the comparison of poses
  and the projection arithmetic are floating point. The shutdown order of the render side calls into live host
  objects.
\<close>

end
